(* ===== verification/Prelude.thy ===== *)
theory Prelude
  imports Main "HOL-Library.AList" "HOL-Library.Char_ord" "HOL-Library.List_Lexorder"
begin

text \<open>
  What the component theories share: the types that stand for Python's values (identifiers,
  time stamps, JSON), the few operations of Python's \<open>str\<close>, \<open>list\<close> and \<open>dict\<close> that the
  sources use, the tables of the relational store with the statements the repository issues
  on them, and the lemmas about all of these that the component proofs rest on.
\<close>

section \<open>Collections of facts\<close>

named_theorems table_simps "what a statement leaves in a table"
named_theorems table_intros "key constraints a statement keeps"
named_theorems inv_intros "operations that keep an invariant"

section \<open>Values\<close>

text \<open>
  A UUID is its canonical rendering, so that \<open>str(u)\<close> and \<open>UUID(s)\<close> are both the identity;
  a time stamp is an integer number of microseconds. Fresh UUIDs and the current time are
  arguments of the operations that draw them.
\<close>

type_synonym uuid = string
type_synonym time = int

abbreviation seconds :: "int \<Rightarrow> time" where "seconds n \<equiv> n * 1000000"
abbreviation hours :: "int \<Rightarrow> time" where "hours n \<equiv> n * 3600 * 1000000"
abbreviation days :: "int \<Rightarrow> time" where "days n \<equiv> n * 86400 * 1000000"

text \<open>
  JSON as Python's \<open>json\<close> reads it: an object is an insertion-ordered dictionary, which is an
  association list updated in place by \<^const>\<open>AList.update\<close>; a float is \<open>JFloat m e\<close>,
  the number \<open>m\<close> times two to the \<open>e\<close>.
\<close>

datatype json =
    JNull
  | JBool bool
  | JInt int
  | JFloat int int
  | JStr string
  | JArr "json list"
  | JObj "(string \<times> json) list"

type_synonym obj = "(string \<times> json) list"

text \<open>Python's truth value of a JSON value: \<open>None\<close>, zero and empty containers are false.\<close>

fun truthy :: "json \<Rightarrow> bool" where
  "truthy JNull = False"
| "truthy (JBool b) = b"
| "truthy (JInt i) = (i \<noteq> 0)"
| "truthy (JFloat m e) = (m \<noteq> 0)"
| "truthy (JStr s) = (s \<noteq> [])"
| "truthy (JArr xs) = (xs \<noteq> [])"
| "truthy (JObj ps) = (ps \<noteq> [])"

text \<open>\<open>d.get(k, default)\<close> on a dictionary.\<close>

definition obj_get :: "obj \<Rightarrow> string \<Rightarrow> json \<Rightarrow> json" where
  "obj_get d k v0 = (case map_of d k of Some v \<Rightarrow> v | None \<Rightarrow> v0)"

text \<open>Truth of an optional string or number: \<open>None\<close> and the empty value are false.\<close>

definition str_true :: "string option \<Rightarrow> bool" where
  "str_true s = (case s of None \<Rightarrow> False | Some t \<Rightarrow> t \<noteq> [])"

definition or_else :: "'a option \<Rightarrow> 'a \<Rightarrow> 'a" where
  "or_else x d = (case x of Some v \<Rightarrow> v | None \<Rightarrow> d)"

section \<open>Strings\<close>

text \<open>\<open>str.isspace\<close> on the 8-bit characters.\<close>

definition py_isspace :: "char \<Rightarrow> bool" where
  "py_isspace c = (let n = of_char c :: nat in
     9 \<le> n \<and> n \<le> 13 \<or> 28 \<le> n \<and> n \<le> 32 \<or> n = 133 \<or> n = 160)"

definition py_lstrip_by :: "(char \<Rightarrow> bool) \<Rightarrow> string \<Rightarrow> string" where
  "py_lstrip_by p s = dropWhile p s"

definition py_strip_by :: "(char \<Rightarrow> bool) \<Rightarrow> string \<Rightarrow> string" where
  "py_strip_by p s = rev (dropWhile p (rev (dropWhile p s)))"

abbreviation py_strip :: "string \<Rightarrow> string" where "py_strip \<equiv> py_strip_by py_isspace"

text \<open>\<open>str.split()\<close>: the maximal runs of non-white-space characters.\<close>

function py_split :: "string \<Rightarrow> string list" where
  "py_split s = (let t = dropWhile py_isspace s in
     if t = [] then [] else takeWhile (\<lambda>c. \<not> py_isspace c) t # py_split (dropWhile (\<lambda>c. \<not> py_isspace c) t))"
  by pat_completeness auto
termination
proof (relation "measure length", simp)
  fix s t assume t: "t = dropWhile py_isspace s" "t \<noteq> []"
  then have "\<not> py_isspace (hd t)" using hd_dropWhile by blast
  then have "length (dropWhile (\<lambda>c. \<not> py_isspace c) t) < length t"
    using t(2) by (cases t) (auto simp: less_Suc_eq_le length_dropWhile_le)
  also have "length t \<le> length s" using t(1) by (simp add: length_dropWhile_le)
  finally show "(dropWhile (\<lambda>c. \<not> py_isspace c) t, s) \<in> measure length" by simp
qed

declare py_split.simps [simp del]

text \<open>\<open>sep.join(parts)\<close> and \<open>s.split(sep)\<close> for a one-character separator.\<close>

fun py_join :: "string \<Rightarrow> string list \<Rightarrow> string" where
  "py_join sep [] = []"
| "py_join sep [x] = x"
| "py_join sep (x # y # ys) = x @ sep @ py_join sep (y # ys)"

fun py_split_on :: "char \<Rightarrow> string \<Rightarrow> string list" where
  "py_split_on c [] = [[]]"
| "py_split_on c (x # xs) = (if x = c then [] # py_split_on c xs
     else (case py_split_on c xs of [] \<Rightarrow> [[x]] | w # ws \<Rightarrow> (x # w) # ws))"

text \<open>\<open>s.rstrip("/")\<close>.\<close>

definition rstrip_slash :: "string \<Rightarrow> string" where
  "rstrip_slash s = rev (dropWhile (\<lambda>c. c = CHR ''/'') (rev s))"

definition py_startswith :: "string \<Rightarrow> string \<Rightarrow> bool" where
  "py_startswith s p = (take (length p) s = p)"

definition is_upper_ascii :: "char \<Rightarrow> bool" where
  "is_upper_ascii c = (let n = of_char c :: nat in 65 \<le> n \<and> n \<le> 90)"

definition is_alnum_ascii :: "char \<Rightarrow> bool" where
  "is_alnum_ascii c = (let n = of_char c :: nat in
     48 \<le> n \<and> n \<le> 57 \<or> 65 \<le> n \<and> n \<le> 90 \<or> 97 \<le> n \<and> n \<le> 122)"

text \<open>\<open>str.lower\<close>, on ASCII letters.\<close>

definition py_lower :: "string \<Rightarrow> string" where
  "py_lower s = map (\<lambda>c. if is_upper_ascii c then char_of (of_char c + 32 :: nat) else c) s"

section \<open>Python's conversions\<close>

definition is_digit :: "char \<Rightarrow> bool" where
  "is_digit c = (let n = of_char c :: nat in 48 \<le> n \<and> n \<le> 57)"

definition digits_value :: "string \<Rightarrow> int" where
  "digits_value s = foldl (\<lambda>acc c. 10 * acc + (of_char c - 48)) 0 s"

text \<open>\<open>int(x)\<close>: text is an optional sign and groups of digits joined by single underscores.\<close>

definition digit_groups :: "string \<Rightarrow> int option" where
  "digit_groups s = (let parts = py_split_on CHR ''_'' s in
     if list_all (\<lambda>p. p \<noteq> [] \<and> list_all is_digit p) parts then Some (digits_value (concat parts)) else None)"

definition int_of_text :: "string \<Rightarrow> int option" where
  "int_of_text s = (case py_strip s of
       [] \<Rightarrow> None
     | c # cs \<Rightarrow> if c = CHR ''-'' then map_option uminus (digit_groups cs)
                 else if c = CHR ''+'' then digit_groups cs else digit_groups (c # cs))"

fun py_int :: "json \<Rightarrow> int option" where
  "py_int (JInt i) = Some i"
| "py_int (JBool b) = Some (if b then 1 else 0)"
| "py_int (JFloat m e) = Some (if 0 \<le> e then m * 2 ^ nat e else sgn m * (\<bar>m\<bar> div 2 ^ nat (- e)))"
| "py_int (JStr s) = int_of_text s"
| "py_int _ = None"

definition py_str :: "(json \<Rightarrow> string) \<Rightarrow> json \<Rightarrow> string" where
  "py_str str v = (case v of JStr s \<Rightarrow> s | _ \<Rightarrow> str v)"

text \<open>\<open>str(d.get(key) or "")\<close> of a dictionary.\<close>

definition dict_text :: "(json \<Rightarrow> string) \<Rightarrow> obj \<Rightarrow> string \<Rightarrow> string" where
  "dict_text str d k = (let v = obj_get d k JNull in if truthy v then py_str str v else [])"

text \<open>\<open>d.get(key) or default\<close>.\<close>

definition or_default :: "obj \<Rightarrow> string \<Rightarrow> json \<Rightarrow> json" where
  "or_default app k d = (let v = obj_get app k JNull in if truthy v then v else d)"

text \<open>\<open>needle in text\<close>, and iteration over a JSON value.\<close>

definition py_contains :: "string \<Rightarrow> string \<Rightarrow> bool" where
  "py_contains text needle = list_ex (\<lambda>i. take (length needle) (drop i text) = needle) [0..<Suc (length text)]"

fun py_iter :: "json \<Rightarrow> json list option" where
  "py_iter (JArr xs) = Some xs"
| "py_iter (JStr s) = Some (map (\<lambda>c. JStr [c]) s)"
| "py_iter (JObj ps) = Some (map (\<lambda>p. JStr (fst p)) ps)"
| "py_iter _ = None"

section \<open>Lists\<close>

text \<open>\<open>items[offset : offset + limit]\<close>, with \<open>limit is None\<close> for no slice; SQL's
  \<open>LIMIT\<close>/\<open>OFFSET\<close> keep the same rows. The HTTP layer admits no negative value.\<close>

definition page :: "nat option \<Rightarrow> nat \<Rightarrow> 'a list \<Rightarrow> 'a list" where
  "page lim off xs = (case lim of None \<Rightarrow> xs | Some n \<Rightarrow> take n (drop off xs))"

text \<open>\<open>dict.fromkeys(xs)\<close> as a list: first occurrences, in order.\<close>

fun dedup :: "'a list \<Rightarrow> 'a list" where
  "dedup [] = []"
| "dedup (x # xs) = x # filter (\<lambda>y. y \<noteq> x) (dedup xs)"

text \<open>\<open>min(xs, key=f)\<close>: the first element of least key; \<open>None\<close> where Python raises.\<close>

fun min_by :: "('a \<Rightarrow> 'b::linorder) \<Rightarrow> 'a list \<Rightarrow> 'a option" where
  "min_by f [] = None"
| "min_by f (x # xs) = (case min_by f xs of None \<Rightarrow> Some x
     | Some y \<Rightarrow> if f y < f x then Some y else Some x)"

section \<open>Tables\<close>

text \<open>
  A table is the list of its rows. The order of the list is the physical order of the rows,
  which nothing in the repository determines; every theorem holds for every order, so
  it holds for every way the store may break a tie of \<open>ORDER BY\<close>. A statement with a unique
  key is written over the function \<open>pk\<close> that reads the key of a row.
\<close>

definition db_get :: "('r \<Rightarrow> 'k) \<Rightarrow> 'k \<Rightarrow> 'r list \<Rightarrow> 'r option" where
  "db_get pk k rows = find (\<lambda>r. pk r = k) rows"

definition db_add :: "('r \<Rightarrow> 'k) \<Rightarrow> 'r \<Rightarrow> 'r list \<Rightarrow> 'r list option" where
  "db_add pk r rows = (if pk r \<in> pk ` set rows then None else Some (rows @ [r]))"

definition db_set :: "('r \<Rightarrow> 'k) \<Rightarrow> 'k \<Rightarrow> ('r \<Rightarrow> 'r) \<Rightarrow> 'r list \<Rightarrow> 'r list" where
  "db_set pk k f rows = map (\<lambda>r. if pk r = k then f r else r) rows"

definition db_del :: "('r \<Rightarrow> bool) \<Rightarrow> 'r list \<Rightarrow> 'r list" where
  "db_del p rows = filter (\<lambda>r. \<not> p r) rows"

definition keyed :: "('r \<Rightarrow> 'k) \<Rightarrow> 'r list \<Rightarrow> bool" where
  "keyed pk rows = distinct (map pk rows)"

section \<open>Lemmas on the values\<close>

lemma page_subset: "set (page lim off xs) \<subseteq> set xs"
  by (auto simp: page_def dest: in_set_takeD in_set_dropD split: option.splits)

lemma page_None [simp]: "page None off xs = xs"
  by (simp add: page_def)

lemma sorted_page: "sorted (map f xs) \<Longrightarrow> sorted (map f (page lim off xs))"
  by (auto simp: page_def sorted_wrt_take sorted_wrt_drop take_map[symmetric] drop_map[symmetric]
      split: option.splits)

lemma set_dedup [simp]: "set (dedup xs) = set xs"
  by (induction xs) auto

lemma distinct_dedup [simp]: "distinct (dedup xs)"
  by (induction xs) auto

lemma dedup_distinct: "distinct xs \<Longrightarrow> dedup xs = xs"
  by (induction xs) (auto simp: filter_id_conv)

lemma min_by_None [simp]: "min_by f xs = None \<longleftrightarrow> xs = []"
  by (cases xs) (auto split: option.splits if_splits)

lemma min_by_Some:
  "min_by f xs = Some y \<Longrightarrow> y \<in> set xs \<and> (\<forall>x\<in>set xs. f y \<le> f x)"
  by (induction xs arbitrary: y) (fastforce split: option.splits if_splits)+

lemma find_SomeD: "find P xs = Some x \<Longrightarrow> x \<in> set xs \<and> P x"
  by (auto simp: find_Some_iff)

section \<open>Lemmas on tables\<close>

lemma db_get_None: "db_get pk k rows = None \<longleftrightarrow> k \<notin> pk ` set rows"
  by (auto simp: db_get_def find_None_iff)

lemma db_get_SomeD: "db_get pk k rows = Some r \<Longrightarrow> r \<in> set rows \<and> pk r = k"
  by (auto simp: db_get_def find_Some_iff)

lemma db_get_key: "db_get pk k rows = Some r \<Longrightarrow> pk r = k"
  by (drule db_get_SomeD) simp

lemma db_get_Nil [simp]: "db_get pk k [] = None"
  by (simp add: db_get_def)

lemma db_get_Cons: "db_get pk k (r # rows) = (if pk r = k then Some r else db_get pk k rows)"
  by (simp add: db_get_def)

lemma db_get_append: "db_get pk k (xs @ ys) =
    (case db_get pk k xs of Some r \<Rightarrow> Some r | None \<Rightarrow> db_get pk k ys)"
  by (induction xs) (auto simp: db_get_Cons)

lemma db_get_iff:
  assumes "keyed pk rows"
  shows "db_get pk k rows = Some r \<longleftrightarrow> r \<in> set rows \<and> pk r = k"
  using assms
  by (induction rows) (auto simp: db_get_Cons keyed_def image_iff)

lemma db_add_Some:
  "db_add pk r rows = Some rows' \<longleftrightarrow> pk r \<notin> pk ` set rows \<and> rows' = rows @ [r]"
  by (auto simp: db_add_def)

lemma db_add_None: "db_add pk r rows = None \<longleftrightarrow> pk r \<in> pk ` set rows"
  by (simp add: db_add_def)

lemma keyed_Nil [simp]: "keyed pk []"
  by (simp add: keyed_def)

lemma keyed_add [table_intros]: "keyed pk rows \<Longrightarrow> db_add pk r rows = Some rows' \<Longrightarrow> keyed pk rows'"
  by (auto simp: db_add_Some keyed_def)

lemma map_db_set: "(\<And>r. pk' (f r) = pk' r) \<Longrightarrow> map pk' (db_set pk k f rows) = map pk' rows"
  by (simp add: db_set_def comp_def if_distrib cong: if_cong)

lemma image_db_set:
  "(\<And>r. pk' (f r) = pk' r) \<Longrightarrow> pk' ` set (db_set pk k f rows) = pk' ` set rows"
  by (metis map_db_set set_map)

lemma keyed_set [table_intros]:
  "keyed pk' rows \<Longrightarrow> (\<And>r. pk' (f r) = pk' r) \<Longrightarrow> keyed pk' (db_set pk k f rows)"
  by (simp add: keyed_def map_db_set)

lemma keyed_del [table_intros]: "keyed pk rows \<Longrightarrow> keyed pk (db_del p rows)"
  by (simp add: keyed_def db_del_def distinct_map_filter)

lemma db_get_set [table_simps]:
  "(\<And>r. pk (f r) = pk r) \<Longrightarrow>
   db_get pk k' (db_set pk k f rows) = (if k' = k then map_option f (db_get pk k rows) else db_get pk k' rows)"
  by (induction rows) (auto simp: db_set_def db_get_Cons)

lemma db_get_del [table_simps]:
  "db_get pk k (db_del (\<lambda>r. pk r = k') rows) = (if k = k' then None else db_get pk k rows)"
  "db_get pk k (db_del (\<lambda>r. pk r \<in> A) rows) = (if k \<in> A then None else db_get pk k rows)"
  by (induction rows) (auto simp: db_del_def db_get_Cons)

lemma fst_set_delete: "fst ` set (AList.delete k xs) = fst ` set xs - {k}"
  by (metis AList.delete_keys set_map set_removeAll)

lemma db_set_absent: "k \<notin> pk ` set rows \<Longrightarrow> db_set pk k f rows = rows"
  by (induction rows) (auto simp: db_set_def)

lemma db_set_Nil [simp]: "db_set pk k f [] = []"
  by (simp add: db_set_def)

lemma set_db_del [table_simps]: "set (db_del p rows) = {r \<in> set rows. \<not> p r}"
  by (auto simp: db_del_def)

lemma filter_db_set:
  "(\<And>r. P (f r) = P r) \<Longrightarrow> filter P (db_set pk k f rows) = db_set pk k f (filter P rows)"
  by (induction rows) (auto simp: db_set_def)

lemma filter_db_set_out:
  "(\<And>r. \<not> P (f r)) \<Longrightarrow> filter P (db_set pk k f rows) = filter (\<lambda>r. pk r \<noteq> k) (filter P rows)"
  by (induction rows) (auto simp: db_set_def)

lemma db_set_unchanged: "(\<And>r. r \<in> set rows \<Longrightarrow> pk r = k \<Longrightarrow> f r = r) \<Longrightarrow> db_set pk k f rows = rows"
  by (induction rows) (auto simp: db_set_def)

section \<open>Decimal numbers\<close>

text \<open>\<open>str(n)\<close> of a natural number.\<close>

function (sequential) decimal :: "nat \<Rightarrow> string" where
  "decimal n = (if n < 10 then [char_of (48 + n)] else decimal (n div 10) @ [char_of (48 + n mod 10)])"
  by pat_completeness auto
termination by (relation "measure id") auto

declare decimal.simps [simp del]

lemma digit_char: "n < 10 \<Longrightarrow> (of_char (char_of (48 + n)) :: nat) = 48 + n"
  by simp

lemma digit_char_inject: "m < 10 \<Longrightarrow> n < 10 \<Longrightarrow> (char_of (48 + m :: nat) :: char) = char_of (48 + n) \<longleftrightarrow> m = n"
  by (metis add_left_cancel digit_char)

lemma decimal_nonempty [simp]: "decimal n \<noteq> []"
  by (subst decimal.simps) simp

lemma decimal_inject: "decimal m = decimal n \<longleftrightarrow> m = n"
proof (induction m arbitrary: n rule: decimal.induct)
  case (1 m)
  show ?case
    by (subst decimal.simps [of m], subst decimal.simps [of n])
      (use 1 [of "n div 10"] in \<open>auto simp: digit_char_inject append_eq_Cons_conv Cons_eq_append_conv\<close>, metis div_mult_mod_eq)
qed

end
