(* ===== verification/Domain.thy ===== *)
theory Domain
  imports Prelude
begin

text \<open>
  The data the control plane and the runner exchange: the execution states and projections of
  \<open>agentsupport/domain\<close> and the wire models of \<open>agent_runner_contracts\<close>. A Pydantic model is a
  record with the model's fields in the source's order; an optional field is an \<open>option\<close>;
  a \<open>dict[str, Any]\<close> is \<^typ>\<open>obj\<close>; a field of any JSON value that may be absent is \<^typ>\<open>json\<close>
  with \<^const>\<open>JNull\<close> for \<open>None\<close>. A \<open>StrEnum\<close> is a datatype: columns and payloads hold the
  member's value, which determines the member.
\<close>

section \<open>Execution states\<close>

datatype execution_state =
    QUEUED | STARTING | RUNNING | WAITING_INPUT | SUSPENDING | PAUSED | RESUMING
  | COMPLETED | FAILED | CANCELLED | LOST

definition TERMINAL_STATES :: "execution_state list" where
  "TERMINAL_STATES = [COMPLETED, FAILED, CANCELLED, LOST]"

abbreviation terminal :: "execution_state \<Rightarrow> bool" where
  "terminal st \<equiv> st \<in> set TERMINAL_STATES"

fun state_value :: "execution_state \<Rightarrow> string" where
  "state_value QUEUED = ''QUEUED''"
| "state_value STARTING = ''STARTING''"
| "state_value RUNNING = ''RUNNING''"
| "state_value WAITING_INPUT = ''WAITING_INPUT''"
| "state_value SUSPENDING = ''SUSPENDING''"
| "state_value PAUSED = ''PAUSED''"
| "state_value RESUMING = ''RESUMING''"
| "state_value COMPLETED = ''COMPLETED''"
| "state_value FAILED = ''FAILED''"
| "state_value CANCELLED = ''CANCELLED''"
| "state_value LOST = ''LOST''"

record run_projection =
  run_id :: uuid
  state :: execution_state
  last_seq :: int
  pending_interaction :: "obj option"
  run_error :: "obj option"
  result_summary :: json
  checkpoint_id :: "uuid option"

definition new_run :: "uuid \<Rightarrow> run_projection" where
  "new_run rid = \<lparr>run_id = rid, state = QUEUED, last_seq = 0, pending_interaction = None,
     run_error = None, result_summary = JNull, checkpoint_id = None\<rparr>"

section \<open>Conversations, workspaces and sessions\<close>

datatype conversation_mode = DEFAULT | NO_APPROVAL | SILENT

record conversation =
  conv_id :: uuid
  conv_session :: uuid
  parent_conversation :: "uuid option"
  conv_task :: string
  conv_mcp_refs :: "json list option"
  conv_mode :: conversation_mode
  conv_created_at :: time
  conv_run :: run_projection

record workspace =
  ws_id :: uuid
  ws_name :: string
  ws_root_path :: string
  ws_created_at :: time

record preset_skill =
  ps_skill_id :: string
  ps_enabled :: bool

record preset_tool_policy =
  tp_allowed_tools :: "string list"
  tp_approval_required_tools :: "string list"
  tp_tool_descriptors :: "obj list"

record preset_resources =
  res_mcp_refs :: "json list"
  res_workspace_template :: "string option"
  res_env :: "(string \<times> string) list"

record preset_permissions =
  perm_max_active_sessions :: "int option"
  perm_allow_network :: bool
  perm_allow_workspace_write :: bool

record project_config =
  cfg_version :: int
  cfg_skills :: "preset_skill list"
  cfg_tool_policy :: preset_tool_policy
  cfg_resources :: preset_resources
  cfg_permissions :: preset_permissions
  cfg_file_ref_format :: bool

record session =
  sess_id :: uuid
  sess_workspace :: uuid
  sess_tenant :: "string option"
  sess_user :: "string option"
  sess_project :: "string option"
  sess_metadata :: obj
  sess_config :: "project_config option"
  sess_lease_epoch :: int
  sess_active_run :: "uuid option"
  sess_created_at :: time

text \<open>The methods of \<open>ProjectConfig\<close>; a tool policy as the dictionary the runs carry.\<close>

definition is_empty :: "project_config \<Rightarrow> bool" where
  "is_empty c = (\<not> (cfg_skills c \<noteq> []
     \<or> tp_allowed_tools (cfg_tool_policy c) \<noteq> []
     \<or> tp_approval_required_tools (cfg_tool_policy c) \<noteq> []
     \<or> tp_tool_descriptors (cfg_tool_policy c) \<noteq> []
     \<or> res_mcp_refs (cfg_resources c) \<noteq> []
     \<or> str_true (res_workspace_template (cfg_resources c))
     \<or> res_env (cfg_resources c) \<noteq> []
     \<or> cfg_file_ref_format c))"

definition enabled_skill_ids :: "project_config \<Rightarrow> string list" where
  "enabled_skill_ids c = map ps_skill_id (filter ps_enabled (cfg_skills c))"

definition tool_policy_dict :: "project_config \<Rightarrow> obj" where
  "tool_policy_dict c =
     [(''allowed_tools'', JArr (map JStr (tp_allowed_tools (cfg_tool_policy c)))),
      (''approval_required_tools'', JArr (map JStr (tp_approval_required_tools (cfg_tool_policy c))))]
     @ (if tp_tool_descriptors (cfg_tool_policy c) \<noteq> []
        then [(''tool_descriptors'', JArr (map JObj (tp_tool_descriptors (cfg_tool_policy c))))]
        else [])"

record preset_definition =
  def_version :: int
  def_skills :: "preset_skill list"
  def_tool_policy :: preset_tool_policy
  def_resources :: preset_resources
  def_permissions :: preset_permissions
  def_enabled :: bool

text \<open>The snapshot leaves \<open>file_ref_format\<close> at its default, which is false.\<close>

definition project_config_from_definition :: "preset_definition \<Rightarrow> project_config" where
  "project_config_from_definition d = \<lparr>cfg_version = def_version d, cfg_skills = def_skills d,
     cfg_tool_policy = def_tool_policy d, cfg_resources = def_resources d,
     cfg_permissions = def_permissions d, cfg_file_ref_format = False\<rparr>"

section \<open>Events\<close>

record event_envelope =
  ev_schema_version :: string
  ev_id :: uuid
  ev_run_id :: uuid
  ev_seq :: int
  ev_type :: string
  ev_payload :: obj
  ev_tenant :: "string option"
  ev_user :: "string option"
  ev_project :: "string option"
  ev_source :: string
  ev_occurred_at :: time

text \<open>\<open>EventEnvelope(...)\<close> with the defaults of the model for the fields not given.\<close>

definition mk_event :: "uuid \<Rightarrow> time \<Rightarrow> uuid \<Rightarrow> int \<Rightarrow> string \<Rightarrow> obj \<Rightarrow> string \<Rightarrow> event_envelope" where
  "mk_event eid now rid sq ty pl src = \<lparr>ev_schema_version = ''1'', ev_id = eid, ev_run_id = rid,
     ev_seq = sq, ev_type = ty, ev_payload = pl, ev_tenant = None, ev_user = None,
     ev_project = None, ev_source = src, ev_occurred_at = now\<rparr>"

section \<open>Checkpoints\<close>

record context_bundle =
  cb_task :: string
  cb_conversation :: uuid
  cb_workspace_ref :: string
  cb_recent_events :: "json list"
  cb_skill_catalog :: "json list"
  cb_tool_policy :: obj
  cb_mcp_refs :: "json list"

record checkpoint =
  cp_id :: uuid
  cp_conversation :: uuid
  cp_run_id :: uuid
  cp_last_event_seq :: int
  cp_context_bundle :: context_bundle
  cp_pending_interaction :: "obj option"
  cp_pending_tool_calls :: "json list"
  cp_tool_batch_hash :: "string option"
  cp_tool_policy_hash :: "string option"
  cp_tool_versions_hash :: "string option"
  cp_workspace_ref :: string
  cp_workspace_write_lease_epoch :: int
  cp_core_type :: string
  cp_core_version :: string
  cp_context_bundle_hash :: string
  cp_created_at :: time

section \<open>Runners, MCP servers, presets and skill drafts\<close>

record runner_registration_request =
  rq_provider :: string
  rq_endpoint :: string
  rq_version :: string
  rq_capabilities :: "string list"
  rq_metadata :: obj

record runner_heartbeat =
  hb_status :: string
  hb_load :: int
  hb_capabilities :: "string list option"

record runner_registration =
  rr_id :: uuid
  rr_provider :: string
  rr_endpoint :: string
  rr_version :: string
  rr_capabilities :: "string list"
  rr_status :: string
  rr_load :: int
  rr_last_heartbeat_at :: time
  rr_created_at :: time
  rr_metadata :: obj

text \<open>\<open>RunnerRegistration(...)\<close> from a request: a fresh identity, \<open>READY\<close>, no load.\<close>

definition new_registration :: "uuid \<Rightarrow> time \<Rightarrow> runner_registration_request \<Rightarrow> runner_registration" where
  "new_registration rid now q = \<lparr>rr_id = rid, rr_provider = rq_provider q, rr_endpoint = rq_endpoint q,
     rr_version = rq_version q, rr_capabilities = rq_capabilities q, rr_status = ''READY'', rr_load = 0,
     rr_last_heartbeat_at = now, rr_created_at = now, rr_metadata = rq_metadata q\<rparr>"

record mcp_server =
  mcp_server_id :: string
  mcp_name :: string
  mcp_transport :: string
  mcp_http_url :: "string option"
  mcp_sse_url :: "string option"
  mcp_headers :: "(string \<times> string) list"
  mcp_command :: "string option"
  mcp_args :: "string list"
  mcp_env :: "(string \<times> string) list"
  mcp_cwd :: "string option"
  mcp_description :: string
  mcp_enabled :: bool
  mcp_created_at :: time
  mcp_updated_at :: time

definition SUPPORTED_TRANSPORTS :: "string list" where
  "SUPPORTED_TRANSPORTS = [''http'', ''sse'', ''stdio'']"

definition mcp_endpoint :: "mcp_server \<Rightarrow> string option" where
  "mcp_endpoint s = (if mcp_transport s = ''http'' then mcp_http_url s
     else if mcp_transport s = ''sse'' then mcp_sse_url s
     else if mcp_transport s = ''stdio'' then mcp_command s
     else None)"

record cli_daemon =
  dm_command :: string
  dm_port :: "int option"

record cli_app =
  app_cli_id :: string
  app_entry :: string
  app_description :: string
  app_safe_prefixes :: "string list"
  app_env :: "string list"
  app_package :: "string option"
  app_daemon :: "cli_daemon option"

record tenant_preset =
  tpr_tenant :: string
  tpr_name :: string
  tpr_description :: string
  tpr_cli_apps :: "cli_app list"
  tpr_skills :: "string list"
  tpr_env :: "string list"
  tpr_created_at :: time
  tpr_updated_at :: time

datatype build_status = PENDING | BUILDING | READY | BUILD_FAILED

text \<open>The members \<open>RUNNING\<close> and \<open>FAILED\<close> of \<open>BuildStatus\<close> are \<^const>\<open>BUILDING\<close> and
  \<^const>\<open>BUILD_FAILED\<close>: the plain names are execution states.\<close>

definition TERMINAL_BUILD_STATUSES :: "build_status list" where
  "TERMINAL_BUILD_STATUSES = [READY, BUILD_FAILED]"

record preset_build =
  pb_id :: uuid
  pb_tenant :: string
  pb_status :: build_status
  pb_content_hash :: string
  pb_image_tag :: "string option"
  pb_error :: "string option"
  pb_log_tail :: string
  pb_created_at :: time
  pb_started_at :: "time option"
  pb_finished_at :: "time option"

datatype draft_status = DRAFT | REVIEW | PUBLISHED | REJECTED

datatype generation_status = GEN_PENDING | GEN_COMPLETED | GEN_FAILED

record skill_draft =
  sd_id :: uuid
  sd_skill_id :: string
  sd_tenant :: "string option"
  sd_project :: "string option"
  sd_source_session :: uuid
  sd_source_conversation :: uuid
  sd_generation :: uuid
  sd_status :: draft_status
  sd_content :: string
  sd_frontmatter :: "(string \<times> string) list"
  sd_created_at :: time
  sd_reviewed_at :: "time option"
  sd_review_note :: "string option"

record skill_generation_request =
  sg_id :: uuid
  sg_session :: uuid
  sg_conversation :: "uuid option"
  sg_tenant :: "string option"
  sg_project :: "string option"
  sg_status :: generation_status
  sg_error :: "string option"
  sg_created_at :: time
  sg_completed_at :: "time option"

section \<open>Lemmas\<close>

lemma terminal_iff [simp]:
  "terminal st \<longleftrightarrow> st = COMPLETED \<or> st = FAILED \<or> st = CANCELLED \<or> st = LOST"
  by (simp add: TERMINAL_STATES_def)

lemma state_value_inject: "state_value a = state_value b \<longleftrightarrow> a = b"
  by (cases a; cases b) simp_all

lemma enabled_skill_ids_declared: "set (enabled_skill_ids c) \<subseteq> ps_skill_id ` set (cfg_skills c)"
  by (auto simp: enabled_skill_ids_def)

lemma is_empty_no_skills: "is_empty c \<Longrightarrow> enabled_skill_ids c = []"
  by (simp add: is_empty_def enabled_skill_ids_def)

end
