(* ===== verification/Schema.thy ===== *)
theory Schema
  imports Domain
begin

text \<open>
  The relational schema of \<open>adapters/persistence/sqlalchemy/models.py\<close>: one record per mapped
  row class and one field of \<open>db\<close> per table. Where a row class has the columns of a domain
  model, the model is the row (workspaces, sessions, MCP servers, presets, builds, drafts,
  generation requests). Columns that no query reads are left out: \<open>runner_seq\<close> of an event, the
  surrogate \<open>id\<close> and the \<open>response_payload\<close> of an idempotency key, and the lease columns
  \<open>run_id\<close>, \<open>owner_instance_id\<close> and \<open>heartbeat_at\<close>.

  A transaction is a function of the tables. A raised exception rolls the transaction back,
  so it is a value \<open>Inl\<close> that carries no tables. The text of a conflict is a constructor with
  the values it prints.
\<close>

datatype conflict =
    KeyReused
  | NoSession
  | NoOperation
  | NoConversation
  | SeqConflict int int
  | RunnerRegistered
  | NoOutboxEvent

datatype db_error =
    RepositoryConflict conflict
  | StaleClaim
  | IntegrityError
  | TypeError
  | ValidationError
  | KeyError
  | OSError
  | AttributeError
  | ValueError

text \<open>
  What an application operation raises: a \<open>ServiceError\<close> with its code and HTTP status, or any
  other exception that the operation does not translate.
\<close>

datatype service_error = ServiceError string int | Raised db_error

section \<open>Rows\<close>

record conversation_row =
  cr_id :: uuid
  cr_session :: uuid
  cr_parent :: "uuid option"
  cr_task :: string
  cr_mode :: conversation_mode
  cr_mcp_refs :: "json list option"
  cr_state :: execution_state
  cr_run_id :: uuid
  cr_last_seq :: int
  cr_pending_interaction :: "obj option"
  cr_error :: "obj option"
  cr_result_summary :: json
  cr_checkpoint :: "uuid option"
  cr_created_at :: time

record event_row =
  er_id :: uuid
  er_conversation :: uuid
  er_run_id :: uuid
  er_seq :: int
  er_type :: string
  er_payload :: obj
  er_source :: string
  er_occurred_at :: time

record checkpoint_row =
  kr_id :: uuid
  kr_conversation :: uuid
  kr_run_id :: uuid
  kr_last_event_seq :: int
  kr_context_bundle :: context_bundle
  kr_context_bundle_hash :: string
  kr_pending_interaction :: "obj option"
  kr_core_type :: "string option"
  kr_core_version :: "string option"
  kr_tool_policy_hash :: "string option"
  kr_tool_versions_hash :: "string option"
  kr_workspace_write_lease_epoch :: int
  kr_created_at :: time

record container_lease_row =
  cl_session :: uuid
  cl_container :: string
  cl_lease_epoch :: int
  cl_status :: string
  cl_runtime_operation :: "uuid option"
  cl_expires_at :: "time option"

record workspace_lease_row =
  wl_workspace :: uuid
  wl_session :: uuid
  wl_lease_epoch :: int
  wl_status :: string
  wl_expires_at :: "time option"

record runner_row =
  rn_registration :: runner_registration
  rn_token_hash :: string

text \<open>The payload of an outbox row is the dump of the event, which the publisher only forwards.\<close>

record outbox_row =
  ob_id :: uuid
  ob_topic :: string
  ob_aggregate :: uuid
  ob_payload :: event_envelope
  ob_created_at :: time
  ob_published_at :: "time option"
  ob_attempts :: nat
  ob_claimed_by :: "string option"
  ob_claim_expires_at :: "time option"

record idempotency_row =
  ik_scope :: string
  ik_key :: string
  ik_request_hash :: string
  ik_resource :: uuid
  ik_created_at :: time

record runtime_operation_row =
  ro_id :: uuid
  ro_operation :: string
  ro_resource :: string
  ro_status :: string
  ro_result :: "obj option"
  ro_created_at :: time

record preset_row =
  pr_preset :: tenant_preset
  pr_content_hash :: string

section \<open>The tables\<close>

record db =
  t_workspaces :: "workspace list"
  t_sessions :: "session list"
  t_conversations :: "conversation_row list"
  t_events :: "event_row list"
  t_checkpoints :: "checkpoint_row list"
  t_container_leases :: "container_lease_row list"
  t_workspace_leases :: "workspace_lease_row list"
  t_runners :: "runner_row list"
  t_outbox :: "outbox_row list"
  t_idempotency :: "idempotency_row list"
  t_operations :: "runtime_operation_row list"
  t_mcp_servers :: "mcp_server list"
  t_presets :: "preset_row list"
  t_builds :: "preset_build list"
  t_drafts :: "skill_draft list"
  t_generations :: "skill_generation_request list"

definition empty_db :: db where
  "empty_db = \<lparr>t_workspaces = [], t_sessions = [], t_conversations = [], t_events = [],
     t_checkpoints = [], t_container_leases = [], t_workspace_leases = [], t_runners = [],
     t_outbox = [], t_idempotency = [], t_operations = [], t_mcp_servers = [], t_presets = [],
     t_builds = [], t_drafts = [], t_generations = []\<rparr>"

abbreviation runner_row_id :: "runner_row \<Rightarrow> uuid" where
  "runner_row_id r \<equiv> rr_id (rn_registration r)"

abbreviation idem_key :: "idempotency_row \<Rightarrow> string \<times> string" where
  "idem_key r \<equiv> (ik_scope r, ik_key r)"

abbreviation event_key :: "event_row \<Rightarrow> uuid \<times> int" where
  "event_key r \<equiv> (er_conversation r, er_seq r)"

lemma empty_db_tables [simp]:
  "t_workspaces empty_db = []"
  "t_sessions empty_db = []"
  "t_conversations empty_db = []"
  "t_events empty_db = []"
  "t_checkpoints empty_db = []"
  "t_container_leases empty_db = []"
  "t_workspace_leases empty_db = []"
  "t_runners empty_db = []"
  "t_outbox empty_db = []"
  "t_idempotency empty_db = []"
  "t_operations empty_db = []"
  "t_mcp_servers empty_db = []"
  "t_presets empty_db = []"
  "t_builds empty_db = []"
  "t_drafts empty_db = []"
  "t_generations empty_db = []"
  by (simp_all add: empty_db_def)

end
