(* ===== verification/Repo_Core.thy ===== *)
theory Repo_Core
  imports Schema
begin

text \<open>
  The part of \<open>PostgresRepository\<close> that keeps the authoritative resources: idempotency keys,
  workspaces, sessions, conversations, the event log of a conversation with its transactional
  outbox row, and checkpoints. A method is a function of the tables; one that writes returns
  the error it raises or its result with the new tables. Fresh identifiers and the current time
  are arguments. \<open>_lock_idempotency\<close> serialises concurrent transactions and
  \<open>_ensure_event_partition\<close> creates physical partitions; neither changes a row.
\<close>

section \<open>Idempotency keys\<close>

definition idempotent_resource ::
  "db \<Rightarrow> string \<Rightarrow> string option \<Rightarrow> string \<Rightarrow> db_error + uuid option" where
  "idempotent_resource d scope key rh = (case key of None \<Rightarrow> Inr None | Some k \<Rightarrow>
     if k = [] then Inr None
     else (case db_get idem_key (scope, k) (t_idempotency d) of
         None \<Rightarrow> Inr None
       | Some r \<Rightarrow> if ik_request_hash r \<noteq> rh then Inl (RepositoryConflict KeyReused)
                   else Inr (Some (ik_resource r))))"

definition save_idempotency ::
  "time \<Rightarrow> string \<Rightarrow> string option \<Rightarrow> string \<Rightarrow> uuid \<Rightarrow> db \<Rightarrow> db_error + db" where
  "save_idempotency now scope key rh rid d = (case key of None \<Rightarrow> Inr d | Some k \<Rightarrow>
     if k = [] then Inr d
     else (case db_add idem_key \<lparr>ik_scope = scope, ik_key = k, ik_request_hash = rh,
                  ik_resource = rid, ik_created_at = now\<rparr> (t_idempotency d) of
         None \<Rightarrow> Inl IntegrityError
       | Some rows \<Rightarrow> Inr (d\<lparr>t_idempotency := rows\<rparr>)))"

definition find_idempotent ::
  "db \<Rightarrow> string \<Rightarrow> string option \<Rightarrow> string \<Rightarrow> db_error + uuid option" where
  "find_idempotent d scope key rh = idempotent_resource d scope key rh"

definition remember_idempotent ::
  "time \<Rightarrow> string \<Rightarrow> string option \<Rightarrow> string \<Rightarrow> uuid \<Rightarrow> db \<Rightarrow> db_error + db" where
  "remember_idempotent now scope key rh rid d = (case idempotent_resource d scope key rh of
       Inl e \<Rightarrow> Inl e
     | Inr (Some _) \<Rightarrow> Inr d
     | Inr None \<Rightarrow> save_idempotency now scope key rh rid d)"

section \<open>Workspaces\<close>

definition repo_get_workspace :: "uuid \<Rightarrow> db \<Rightarrow> workspace option" where
  "repo_get_workspace wid d = db_get ws_id wid (t_workspaces d)"

definition repo_list_workspaces :: "nat option \<Rightarrow> nat \<Rightarrow> db \<Rightarrow> workspace list" where
  "repo_list_workspaces lim off d = page lim off (sort_key ws_created_at (t_workspaces d))"

text \<open>An idempotent replay returns \<open>get_workspace(existing)\<close>, which may be \<open>None\<close>.\<close>

definition repo_create_workspace ::
  "uuid \<Rightarrow> time \<Rightarrow> string \<Rightarrow> string \<Rightarrow> string \<Rightarrow> string option \<Rightarrow> uuid option \<Rightarrow> db
   \<Rightarrow> db_error + (workspace option \<times> db)" where
  "repo_create_workspace fresh now name root_path rh key wid d =
     (case idempotent_resource d ''workspace'' key rh of
        Inl e \<Rightarrow> Inl e
      | Inr (Some existing) \<Rightarrow> Inr (repo_get_workspace existing d, d)
      | Inr None \<Rightarrow>
          (case (case wid of None \<Rightarrow> None | Some w \<Rightarrow> repo_get_workspace w d) of
             Some w \<Rightarrow> Inr (Some w, d)
           | None \<Rightarrow>
               (let w = \<lparr>ws_id = or_else wid fresh, ws_name = name, ws_root_path = root_path,
                         ws_created_at = now\<rparr> in
                case db_add ws_id w (t_workspaces d) of
                  None \<Rightarrow> Inl IntegrityError
                | Some rows \<Rightarrow>
                    (case save_idempotency now ''workspace'' key rh (ws_id w) (d\<lparr>t_workspaces := rows\<rparr>) of
                       Inl e \<Rightarrow> Inl e
                     | Inr d' \<Rightarrow> Inr (Some w, d')))))"

section \<open>Sessions\<close>

text \<open>
  Reading a session does not pass \<open>created_at\<close> to the model, so the field takes the default of
  the model, the time of the read. The active container lease that is looked up is not used.
\<close>

definition session_from_row :: "time \<Rightarrow> session \<Rightarrow> session" where
  "session_from_row now r = r\<lparr>sess_created_at := now\<rparr>"

definition repo_get_session :: "time \<Rightarrow> uuid \<Rightarrow> db \<Rightarrow> session option" where
  "repo_get_session now sid d = map_option (session_from_row now) (db_get sess_id sid (t_sessions d))"

definition repo_list_sessions ::
  "time \<Rightarrow> string option \<Rightarrow> string option \<Rightarrow> string option \<Rightarrow> nat option \<Rightarrow> nat \<Rightarrow> db \<Rightarrow> session list" where
  "repo_list_sessions now tenant user proj lim off d =
     map (session_from_row now) (page lim off (sort_key sess_created_at (filter (\<lambda>r.
       (case tenant of None \<Rightarrow> True | Some t \<Rightarrow> sess_tenant r = Some t)
       \<and> (case user of None \<Rightarrow> True | Some u \<Rightarrow> sess_user r = Some u)
       \<and> (case proj of None \<Rightarrow> True | Some p \<Rightarrow> sess_project r = Some p)) (t_sessions d))))"

definition repo_create_session ::
  "uuid \<Rightarrow> time \<Rightarrow> uuid \<Rightarrow> string \<Rightarrow> string option \<Rightarrow> string option \<Rightarrow> uuid option \<Rightarrow> string option
   \<Rightarrow> string option \<Rightarrow> obj \<Rightarrow> project_config option \<Rightarrow> db \<Rightarrow> db_error + (session option \<times> db)" where
  "repo_create_session fresh now wid rh key proj sid tenant user metadata cfg d =
     (case idempotent_resource d ''session'' key rh of
        Inl e \<Rightarrow> Inl e
      | Inr (Some existing) \<Rightarrow> Inr (repo_get_session now existing d, d)
      | Inr None \<Rightarrow>
          (case (case sid of None \<Rightarrow> None | Some s \<Rightarrow> repo_get_session now s d) of
             Some s \<Rightarrow> Inr (Some s, d)
           | None \<Rightarrow>
               (let s = \<lparr>sess_id = or_else sid fresh, sess_workspace = wid, sess_tenant = tenant,
                         sess_user = user, sess_project = proj, sess_metadata = metadata,
                         sess_config = cfg, sess_lease_epoch = 0, sess_active_run = None,
                         sess_created_at = now\<rparr>;
                    row = s\<lparr>sess_project := (if str_true proj then proj else None)\<rparr> in
                case db_add sess_id row (t_sessions d) of
                  None \<Rightarrow> Inl IntegrityError
                | Some rows \<Rightarrow>
                    (case save_idempotency now ''session'' key rh (sess_id s) (d\<lparr>t_sessions := rows\<rparr>) of
                       Inl e \<Rightarrow> Inl e
                     | Inr d' \<Rightarrow> Inr (Some s, d')))))"

text \<open>A falsy project label leaves the stored one; the other columns follow the object.\<close>

definition repo_save_session :: "session \<Rightarrow> db \<Rightarrow> db_error + db" where
  "repo_save_session s d = (case db_get sess_id (sess_id s) (t_sessions d) of
       None \<Rightarrow> Inl (RepositoryConflict NoSession)
     | Some _ \<Rightarrow> Inr (d\<lparr>t_sessions := db_set sess_id (sess_id s) (\<lambda>r. r\<lparr>
           sess_lease_epoch := sess_lease_epoch s, sess_active_run := sess_active_run s,
           sess_tenant := sess_tenant s, sess_user := sess_user s,
           sess_project := (if str_true (sess_project s) then sess_project s else sess_project r),
           sess_metadata := sess_metadata s, sess_config := sess_config s\<rparr>) (t_sessions d)\<rparr>))"

section \<open>Runtime operations\<close>

definition create_runtime_operation ::
  "uuid \<Rightarrow> time \<Rightarrow> string \<Rightarrow> string \<Rightarrow> db \<Rightarrow> db_error + (uuid \<times> db)" where
  "create_runtime_operation oid now operation res d =
     (case db_add ro_id \<lparr>ro_id = oid, ro_operation = operation, ro_resource = res,
             ro_status = ''PENDING'', ro_result = None, ro_created_at = now\<rparr> (t_operations d) of
        None \<Rightarrow> Inl IntegrityError
      | Some rows \<Rightarrow> Inr (oid, d\<lparr>t_operations := rows\<rparr>))"

definition finish_runtime_operation ::
  "uuid \<Rightarrow> string \<Rightarrow> obj option \<Rightarrow> db \<Rightarrow> db_error + db" where
  "finish_runtime_operation oid status res d = (case db_get ro_id oid (t_operations d) of
       None \<Rightarrow> Inl (RepositoryConflict NoOperation)
     | Some _ \<Rightarrow> Inr (d\<lparr>t_operations :=
           db_set ro_id oid (\<lambda>r. r\<lparr>ro_status := status, ro_result := res\<rparr>) (t_operations d)\<rparr>))"

section \<open>Conversations\<close>

definition conversation_to_row :: "conversation \<Rightarrow> conversation_row" where
  "conversation_to_row c = \<lparr>cr_id = conv_id c, cr_session = conv_session c,
     cr_parent = parent_conversation c, cr_task = conv_task c, cr_mode = conv_mode c,
     cr_mcp_refs = conv_mcp_refs c, cr_state = state (conv_run c), cr_run_id = run_id (conv_run c),
     cr_last_seq = last_seq (conv_run c), cr_pending_interaction = pending_interaction (conv_run c),
     cr_error = run_error (conv_run c), cr_result_summary = result_summary (conv_run c),
     cr_checkpoint = checkpoint_id (conv_run c), cr_created_at = conv_created_at c\<rparr>"

definition conversation_from_row :: "conversation_row \<Rightarrow> conversation" where
  "conversation_from_row r = \<lparr>conv_id = cr_id r, conv_session = cr_session r,
     parent_conversation = cr_parent r, conv_task = cr_task r, conv_mcp_refs = cr_mcp_refs r,
     conv_mode = cr_mode r, conv_created_at = cr_created_at r,
     conv_run = \<lparr>run_id = cr_run_id r, state = cr_state r, last_seq = cr_last_seq r,
       pending_interaction = cr_pending_interaction r, run_error = cr_error r,
       result_summary = cr_result_summary r, checkpoint_id = cr_checkpoint r\<rparr>\<rparr>"

definition insert_conversation :: "conversation \<Rightarrow> db \<Rightarrow> db_error + db" where
  "insert_conversation c d = (case db_add cr_id (conversation_to_row c) (t_conversations d) of
       None \<Rightarrow> Inl IntegrityError
     | Some rows \<Rightarrow> Inr (d\<lparr>t_conversations := rows\<rparr>))"

definition repo_get_conversation :: "uuid \<Rightarrow> db \<Rightarrow> conversation option" where
  "repo_get_conversation cid d =
     map_option conversation_from_row (db_get cr_id cid (t_conversations d))"

definition repo_create_conversation ::
  "time \<Rightarrow> conversation \<Rightarrow> string \<Rightarrow> string option \<Rightarrow> db \<Rightarrow> db_error + (conversation option \<times> db)" where
  "repo_create_conversation now c rh key d =
     (case idempotent_resource d ''conversation'' key rh of
        Inl e \<Rightarrow> Inl e
      | Inr (Some existing) \<Rightarrow> Inr (repo_get_conversation existing d, d)
      | Inr None \<Rightarrow>
          (case insert_conversation c d of
             Inl e \<Rightarrow> Inl e
           | Inr d1 \<Rightarrow>
               (case save_idempotency now ''conversation'' key rh (conv_id c) d1 of
                  Inl e \<Rightarrow> Inl e
                | Inr d2 \<Rightarrow> Inr (Some c, d2))))"

definition delete_conversation :: "uuid \<Rightarrow> string option \<Rightarrow> db \<Rightarrow> db" where
  "delete_conversation cid key d =
     (let d1 = d\<lparr>t_conversations := db_del (\<lambda>r. cr_id r = cid) (t_conversations d)\<rparr> in
      case key of None \<Rightarrow> d1 | Some k \<Rightarrow>
        if k = [] then d1
        else d1\<lparr>t_idempotency := db_del (\<lambda>r. idem_key r = (''conversation'', k)) (t_idempotency d1)\<rparr>)"

definition repo_list_conversations ::
  "uuid option \<Rightarrow> nat option \<Rightarrow> nat \<Rightarrow> db \<Rightarrow> conversation list" where
  "repo_list_conversations sid lim off d =
     map conversation_from_row (page lim off (sort_key cr_created_at (filter (\<lambda>r.
       case sid of None \<Rightarrow> True | Some s \<Rightarrow> cr_session r = s) (t_conversations d))))"

section \<open>The event log\<close>

definition event_to_row :: "uuid \<Rightarrow> event_envelope \<Rightarrow> event_row" where
  "event_to_row cid e = \<lparr>er_id = ev_id e, er_conversation = cid, er_run_id = ev_run_id e,
     er_seq = ev_seq e, er_type = ev_type e, er_payload = ev_payload e, er_source = ev_source e,
     er_occurred_at = ev_occurred_at e\<rparr>"

text \<open>The labels of an event are not stored: a read event has none.\<close>

definition event_from_row :: "event_row \<Rightarrow> event_envelope" where
  "event_from_row r = \<lparr>ev_schema_version = ''1'', ev_id = er_id r, ev_run_id = er_run_id r,
     ev_seq = er_seq r, ev_type = er_type r, ev_payload = er_payload r, ev_tenant = None,
     ev_user = None, ev_project = None, ev_source = er_source r, ev_occurred_at = er_occurred_at r\<rparr>"

definition outbox_of :: "uuid \<Rightarrow> time \<Rightarrow> uuid \<Rightarrow> event_envelope \<Rightarrow> outbox_row" where
  "outbox_of oid now cid e = \<lparr>ob_id = oid, ob_topic = ''conversation.events'', ob_aggregate = cid,
     ob_payload = e, ob_created_at = now, ob_published_at = None, ob_attempts = 0,
     ob_claimed_by = None, ob_claim_expires_at = None\<rparr>"

text \<open>Insertion into \<open>conversation_events\<close>: the primary key and the unique pair.\<close>

definition add_event_row :: "event_row \<Rightarrow> event_row list \<Rightarrow> event_row list option" where
  "add_event_row r rows = (if event_key r \<in> event_key ` set rows then None else db_add er_id r rows)"

definition project_run :: "run_projection \<Rightarrow> int \<Rightarrow> conversation_row \<Rightarrow> conversation_row" where
  "project_run run sq r = r\<lparr>cr_state := state run, cr_last_seq := sq,
     cr_pending_interaction := pending_interaction run, cr_error := run_error run,
     cr_result_summary := result_summary run, cr_checkpoint := checkpoint_id run\<rparr>"

text \<open>
  The transaction \<open>append_event\<close> and \<open>save_checkpoint_and_append_event\<close> share: lock the row of the
  conversation, check the sequence number, insert the event and its outbox row, update the row.
\<close>

definition commit_event ::
  "uuid \<Rightarrow> time \<Rightarrow> uuid \<Rightarrow> event_envelope \<Rightarrow> run_projection \<Rightarrow> db \<Rightarrow> db_error + db" where
  "commit_event oid now cid e run d = (case db_get cr_id cid (t_conversations d) of
       None \<Rightarrow> Inl (RepositoryConflict NoConversation)
     | Some row \<Rightarrow>
         if ev_seq e \<noteq> cr_last_seq row + 1
         then Inl (RepositoryConflict (SeqConflict (cr_last_seq row + 1) (ev_seq e)))
         else (case (add_event_row (event_to_row cid e) (t_events d),
                     db_add ob_id (outbox_of oid now cid e) (t_outbox d)) of
             (Some evs, Some obs) \<Rightarrow> Inr (d\<lparr>t_events := evs, t_outbox := obs,
               t_conversations := db_set cr_id cid (project_run run (ev_seq e)) (t_conversations d)\<rparr>)
           | _ \<Rightarrow> Inl IntegrityError))"

definition append_event ::
  "uuid \<Rightarrow> time \<Rightarrow> conversation \<Rightarrow> event_envelope \<Rightarrow> db \<Rightarrow> db_error + db" where
  "append_event oid now c e d = commit_event oid now (conv_id c) e (conv_run c) d"

definition list_events :: "uuid \<Rightarrow> int \<Rightarrow> nat option \<Rightarrow> db \<Rightarrow> event_envelope list" where
  "list_events cid after lim d = map event_from_row (page lim 0 (sort_key er_seq
     (filter (\<lambda>r. er_conversation r = cid \<and> er_seq r > after) (t_events d))))"

definition list_session_events :: "uuid \<Rightarrow> int \<Rightarrow> nat option \<Rightarrow> db \<Rightarrow> event_envelope list" where
  "list_session_events sid after lim d = map event_from_row (page lim 0
     (sort_key er_occurred_at (sort_key er_seq (filter (\<lambda>r. er_seq r > after
        \<and> (\<exists>c\<in>set (t_conversations d). cr_id c = er_conversation r \<and> cr_session c = sid))
        (t_events d)))))"

section \<open>Checkpoints\<close>

definition checkpoint_to_row :: "checkpoint \<Rightarrow> checkpoint_row" where
  "checkpoint_to_row k = \<lparr>kr_id = cp_id k, kr_conversation = cp_conversation k, kr_run_id = cp_run_id k,
     kr_last_event_seq = cp_last_event_seq k, kr_context_bundle = cp_context_bundle k,
     kr_context_bundle_hash = cp_context_bundle_hash k,
     kr_pending_interaction = cp_pending_interaction k, kr_core_type = Some (cp_core_type k),
     kr_core_version = Some (cp_core_version k), kr_tool_policy_hash = cp_tool_policy_hash k,
     kr_tool_versions_hash = cp_tool_versions_hash k,
     kr_workspace_write_lease_epoch = cp_workspace_write_lease_epoch k,
     kr_created_at = cp_created_at k\<rparr>"

definition save_checkpoint :: "checkpoint \<Rightarrow> db \<Rightarrow> db_error + db" where
  "save_checkpoint k d = (case db_add kr_id (checkpoint_to_row k) (t_checkpoints d) of
       None \<Rightarrow> Inl IntegrityError
     | Some rows \<Rightarrow> Inr (d\<lparr>t_checkpoints := rows\<rparr>))"

text \<open>Here the checkpoint column is \<open>str(checkpoint_id)\<close>, so \<open>None\<close> would be stored as a string.\<close>

definition save_checkpoint_and_append_event ::
  "uuid \<Rightarrow> time \<Rightarrow> checkpoint \<Rightarrow> conversation \<Rightarrow> event_envelope \<Rightarrow> db \<Rightarrow> db_error + db" where
  "save_checkpoint_and_append_event oid now k c e d =
     (case commit_event oid now (conv_id c) e ((conv_run c)\<lparr>checkpoint_id :=
             Some (or_else (checkpoint_id (conv_run c)) ''None'')\<rparr>) d of
        Inl err \<Rightarrow> Inl err
      | Inr d' \<Rightarrow> save_checkpoint k d')"

text \<open>\<open>list(x)\<close> and the validation of \<open>str | None\<close> on a JSON value.\<close>

fun py_list :: "json \<Rightarrow> db_error + json list" where
  "py_list (JArr xs) = Inr xs"
| "py_list (JStr s) = Inr (map (\<lambda>c. JStr [c]) s)"
| "py_list (JObj ps) = Inr (map (\<lambda>p. JStr (fst p)) ps)"
| "py_list _ = Inl TypeError"

fun opt_str :: "json \<Rightarrow> db_error + string option" where
  "opt_str JNull = Inr None"
| "opt_str (JStr s) = Inr (Some s)"
| "opt_str _ = Inl ValidationError"

fun is_dict :: "json \<Rightarrow> bool" where
  "is_dict (JObj _) = True"
| "is_dict _ = False"

text \<open>
  The pending calls come from the stored policy, then from the pending interaction; the hashes
  from the columns, then from the policy; an empty string counts as absent.
\<close>

definition pending_calls_of :: "checkpoint_row \<Rightarrow> db_error + json list" where
  "pending_calls_of r =
     (case py_list (obj_get (cb_tool_policy (kr_context_bundle r)) ''pending_tool_calls'' (JArr [])) of
        Inl err \<Rightarrow> Inl err
      | Inr calls \<Rightarrow>
          if calls \<noteq> [] then Inr calls
          else (case kr_pending_interaction r of None \<Rightarrow> Inr calls | Some p \<Rightarrow>
                 (case obj_get p ''tool_batch'' JNull of
                    JObj b \<Rightarrow> py_list (obj_get b ''calls'' (JArr []))
                  | _ \<Rightarrow> Inr calls)))"

definition batch_hash_of :: "checkpoint_row \<Rightarrow> json" where
  "batch_hash_of r = (let h = obj_get (cb_tool_policy (kr_context_bundle r)) ''tool_batch_hash'' JNull in
     if truthy h then h
     else (case kr_pending_interaction r of None \<Rightarrow> h | Some p \<Rightarrow> obj_get p ''tool_batch_hash'' JNull))"

definition column_or_policy :: "string option \<Rightarrow> string \<Rightarrow> checkpoint_row \<Rightarrow> json" where
  "column_or_policy col name r = (if str_true col then JStr (or_else col [])
     else obj_get (cb_tool_policy (kr_context_bundle r)) name JNull)"

definition checkpoint_from_row :: "checkpoint_row \<Rightarrow> db_error + checkpoint" where
  "checkpoint_from_row r = (case pending_calls_of r of Inl err \<Rightarrow> Inl err | Inr calls \<Rightarrow>
     if \<not> list_all is_dict calls then Inl ValidationError
     else (case (opt_str (batch_hash_of r),
                 opt_str (column_or_policy (kr_tool_policy_hash r) ''tool_policy_hash'' r),
                 opt_str (column_or_policy (kr_tool_versions_hash r) ''tool_versions_hash'' r)) of
         (Inr bh, Inr ph, Inr vh) \<Rightarrow> Inr \<lparr>cp_id = kr_id r, cp_conversation = kr_conversation r,
           cp_run_id = kr_run_id r, cp_last_event_seq = kr_last_event_seq r,
           cp_context_bundle = kr_context_bundle r,
           cp_pending_interaction = kr_pending_interaction r, cp_pending_tool_calls = calls,
           cp_tool_batch_hash = bh, cp_tool_policy_hash = ph, cp_tool_versions_hash = vh,
           cp_workspace_ref = cb_workspace_ref (kr_context_bundle r),
           cp_workspace_write_lease_epoch = kr_workspace_write_lease_epoch r,
           cp_core_type = (if str_true (kr_core_type r) then or_else (kr_core_type r) [] else ''fake''),
           cp_core_version = (if str_true (kr_core_version r) then or_else (kr_core_version r) []
                              else ''0.1.0''),
           cp_context_bundle_hash = kr_context_bundle_hash r, cp_created_at = kr_created_at r\<rparr>
       | _ \<Rightarrow> Inl ValidationError))"

definition repo_get_checkpoint :: "uuid \<Rightarrow> db \<Rightarrow> db_error + checkpoint option" where
  "repo_get_checkpoint kid d = (case db_get kr_id kid (t_checkpoints d) of
       None \<Rightarrow> Inr None
     | Some r \<Rightarrow> map_sum id Some (checkpoint_from_row r))"

section \<open>Counters\<close>

definition active_container_count :: "db \<Rightarrow> nat" where
  "active_container_count d = length (filter (\<lambda>r. cl_status r = ''ACTIVE'') (t_container_leases d))"

definition conversation_state_counts :: "db \<Rightarrow> (execution_state \<times> nat) list" where
  "conversation_state_counts d = map (\<lambda>st. (st, length (filter (\<lambda>r. cr_state r = st) (t_conversations d))))
     (dedup (map cr_state (t_conversations d)))"

definition oldest_queued_created_at :: "db \<Rightarrow> time option" where
  "oldest_queued_created_at d =
     min_by id (map cr_created_at (filter (\<lambda>r. cr_state r = QUEUED) (t_conversations d)))"

end
