(* ===== verification/Event_Log.thy ===== *)
theory Event_Log
  imports Domain
begin

text \<open>
  The interface \<open>EventStore\<close> of \<open>application/ports/eventing.py\<close> as a locale: an append that
  accepts only the next sequence number and a read after a cursor. The locale proves what every
  subscriber rests on: whatever appends happen between its polls, a stream that follows the
  cursor yields each event of the log once and in order. The theory then models
  \<open>InMemoryEventStore\<close> and shows that it meets the interface; the repository's log meets it
  in \<open>Repo_Core\<close>.
\<close>

section \<open>The interface\<close>

text \<open>
  \<open>append x e s\<close> appends \<open>e\<close> to the log of \<open>key x\<close>; \<open>events k a s\<close> reads the events of \<open>k\<close> after
  the cursor \<open>a\<close>; \<open>view e\<close> is the event as a later read returns it.
\<close>

locale event_log =
  fixes append :: "'x \<Rightarrow> event_envelope \<Rightarrow> 's \<Rightarrow> 'e + 's"
    and key :: "'x \<Rightarrow> uuid"
    and events :: "uuid \<Rightarrow> int \<Rightarrow> 's \<Rightarrow> event_envelope list"
    and view :: "event_envelope \<Rightarrow> event_envelope"
    and invar :: "'s \<Rightarrow> bool"
  assumes append_invar: "invar s \<Longrightarrow> append x e s = Inr s' \<Longrightarrow> invar s'"
    and append_events: "invar s \<Longrightarrow> append x e s = Inr s' \<Longrightarrow>
          events (key x) 0 s' = events (key x) 0 s @ [view e]"
    and append_other: "invar s \<Longrightarrow> append x e s = Inr s' \<Longrightarrow> k \<noteq> key x \<Longrightarrow> events k 0 s' = events k 0 s"
    and contiguous: "invar s \<Longrightarrow> map ev_seq (events k 0 s) = [1..int (length (events k 0 s))]"
    and events_after: "invar s \<Longrightarrow> 0 \<le> a \<Longrightarrow> events k a s = filter (\<lambda>e. a < ev_seq e) (events k 0 s)"
begin

text \<open>A cursor skips exactly that many events.\<close>

lemma events_drop:
  assumes "invar s" "0 \<le> a"
  shows "events k a s = drop (nat a) (events k 0 s)"
proof -
  let ?l = "events k 0 s"
  have nth: "ev_seq (?l ! i) = int i + 1" if "i < length ?l" for i
  proof -
    have "ev_seq (?l ! i) = map ev_seq ?l ! i" using that by simp
    also have "\<dots> = [1..int (length ?l)] ! i" by (simp only: contiguous [OF assms(1)])
    also have "\<dots> = 1 + int i" using that by (subst nth_upto) auto
    finally show ?thesis by simp
  qed
  have "filter (\<lambda>e. a < ev_seq e) ?l = filter (\<lambda>e. a < ev_seq e) (take (nat a) ?l @ drop (nat a) ?l)"
    by simp
  also have "\<dots> = drop (nat a) ?l"
  proof -
    have "filter (\<lambda>e. a < ev_seq e) (take (nat a) ?l) = []"
      by (auto simp: filter_empty_conv in_set_conv_nth nth)
    moreover have "filter (\<lambda>e. a < ev_seq e) (drop (nat a) ?l) = drop (nat a) ?l"
      using assms(2) by (auto simp: filter_id_conv in_set_conv_nth nth)
    ultimately show ?thesis by (simp only: filter_append append_Nil)
  qed
  finally show ?thesis using events_after [OF assms] by simp
qed

text \<open>
  One round of a stream: read after the cursor, hand the events out, move the cursor to the last
  of them. \<open>runs\<close> interleaves appends to any log with rounds of one subscriber.
\<close>

definition poll :: "uuid \<Rightarrow> 's \<Rightarrow> int \<times> event_envelope list \<Rightarrow> int \<times> event_envelope list" where
  "poll k s st = (let evs = events k (fst st) s in
     if evs = [] then st else (ev_seq (last evs), snd st @ evs))"

inductive runs :: "uuid \<Rightarrow> 's \<Rightarrow> int \<times> event_envelope list \<Rightarrow> 's \<Rightarrow> int \<times> event_envelope list \<Rightarrow> bool" where
  idle: "runs k s st s st"
| appended: "runs k s st s1 st1 \<Longrightarrow> append x e s1 = Inr s2 \<Longrightarrow> runs k s st s2 st1"
| polled: "runs k s st s1 st1 \<Longrightarrow> runs k s st s1 (poll k s1 st1)"

text \<open>What a subscriber that started at \<open>a\<close> holds: the log from \<open>a\<close> to its cursor.\<close>

definition follows :: "uuid \<Rightarrow> int \<Rightarrow> 's \<Rightarrow> int \<times> event_envelope list \<Rightarrow> bool" where
  "follows k a s st = (a \<le> fst st \<and> (nat (fst st) \<le> length (events k 0 s) \<or> fst st = a)
     \<and> snd st = drop (nat a) (take (nat (fst st)) (events k 0 s)))"

lemma follows_append:
  assumes "invar s" "0 \<le> a" "append x e s = Inr s'" "follows k a s st"
  shows "follows k a s' st"
proof (cases "k = key x")
  case True
  then have "events k 0 s' = events k 0 s @ [view e]" using append_events [OF assms(1,3)] by simp
  with assms(2,4) show ?thesis by (auto simp: follows_def)
next
  case False
  with assms append_other [OF assms(1,3) False] show ?thesis by (simp add: follows_def)
qed

lemma last_seq_log:
  assumes "invar s" "events k 0 s \<noteq> []"
  shows "ev_seq (last (events k 0 s)) = int (length (events k 0 s))"
proof -
  have "ev_seq (last (events k 0 s)) = last (map ev_seq (events k 0 s))" using assms(2) by (simp add: last_map)
  also have "\<dots> = last [1..int (length (events k 0 s))]" by (simp only: contiguous [OF assms(1)])
  also have "\<dots> = int (length (events k 0 s))"
    using assms(2) by (subst last_conv_nth) (auto simp: nth_upto Suc_leI)
  finally show ?thesis .
qed

text \<open>A round either finds nothing new or leaves the cursor at the end of the log.\<close>

lemma poll_result:
  assumes "invar s" "0 \<le> c"
  shows "poll k s (c, out) = (if length (events k 0 s) \<le> nat c then (c, out)
           else (int (length (events k 0 s)), out @ drop (nat c) (events k 0 s)))"
proof -
  let ?l = "events k 0 s"
  have ev: "events k c s = drop (nat c) ?l" by (rule events_drop [OF assms])
  show ?thesis
  proof (cases "length ?l \<le> nat c")
    case True
    then show ?thesis by (simp add: poll_def ev)
  next
    case False
    then have "drop (nat c) ?l \<noteq> []" "?l \<noteq> []" by auto
    moreover from this have "ev_seq (last (drop (nat c) ?l)) = int (length ?l)"
      using last_seq_log [OF assms(1)] False by (simp add: last_drop)
    ultimately show ?thesis using False
      by (simp add: poll_def ev)
  qed
qed

lemma follows_poll:
  assumes "invar s" "0 \<le> a" "follows k a s st"
  shows "follows k a s (poll k s st)"
proof -
  let ?l = "events k 0 s" and ?c = "nat (fst st)"
  obtain c out where st: "st = (c, out)" by (cases st)
  with assms have c: "a \<le> c" "0 \<le> c" and out: "out = drop (nat a) (take (nat c) ?l)"
    by (auto simp: follows_def)
  have "drop (nat a) (take (nat c) ?l) @ drop (nat c) ?l = drop (nat a) ?l" if "nat c < length ?l"
  proof -
    have "drop (nat a) ?l = drop (nat a) (take (nat c) ?l @ drop (nat c) ?l)" by simp
    also have "\<dots> = drop (nat a) (take (nat c) ?l) @ drop (nat c) ?l"
      using that c by (simp only: drop_append) simp
    finally show ?thesis by simp
  qed
  then show ?thesis
    using assms(3) c out by (auto simp: st follows_def poll_result [OF assms(1) c(2)])
qed

lemma runs_follows:
  assumes "runs k s st s' st'" "invar s" "0 \<le> a" "follows k a s st"
  shows "invar s' \<and> follows k a s' st'"
  using assms
  by (induction rule: runs.induct) (auto intro: append_invar follows_append follows_poll)

text \<open>
  Started at a cursor with nothing handed out, the stream holds the events between the two
  cursors; after one more round it holds everything the log has after the starting cursor.
\<close>

lemma stream_exact:
  assumes "runs k s (a, []) s' st'" "invar s" "0 \<le> a"
  shows "snd st' = drop (nat a) (take (nat (fst st')) (events k 0 s'))"
proof -
  have "follows k a s (a, [])" by (simp add: follows_def)
  from runs_follows [OF assms(1-3) this] show ?thesis by (simp add: follows_def)
qed

lemma stream_complete:
  assumes "runs k s (a, []) s' st'" "invar s" "0 \<le> a"
  shows "snd (poll k s' st') = events k a s'"
proof -
  obtain c out where st: "st' = (c, out)" by (cases st')
  have f: "invar s' \<and> follows k a s' st'"
    by (rule runs_follows [OF assms]) (simp add: follows_def)
  then have i: "invar s'" and c: "0 \<le> c" "a \<le> c"
    and out: "out = drop (nat a) (take (nat c) (events k 0 s'))"
    using assms(3) by (auto simp: st follows_def)
  have ea: "events k a s' = drop (nat a) (events k 0 s')" by (rule events_drop [OF i assms(3)])
  show ?thesis
  proof (cases "length (events k 0 s') \<le> nat c")
    case True
    then show ?thesis by (simp add: st poll_result [OF i c(1)] ea out)
  next
    case False
    have "follows k a s' (poll k s' st')" using f assms(3) by (simp add: follows_poll)
    with False show ?thesis by (simp add: st follows_def poll_result [OF i c(1)] ea)
  qed
qed

end

section \<open>The in-memory store\<close>

text \<open>
  \<open>InMemoryEventStore\<close>: a dictionary from a conversation to its events. An append that is
  refused raises \<open>ValueError\<close> with the two numbers; the empty list that the default dictionary
  may have created for it is read back as no events.
\<close>

type_synonym event_store = "(uuid \<times> event_envelope list) list"

datatype store_error = SequenceConflict int int

definition store_events :: "uuid \<Rightarrow> event_store \<Rightarrow> event_envelope list" where
  "store_events cid s = (case map_of s cid of None \<Rightarrow> [] | Some evs \<Rightarrow> evs)"

definition store_append :: "uuid \<Rightarrow> event_envelope \<Rightarrow> event_store \<Rightarrow> store_error + event_store" where
  "store_append cid e s = (let evs = store_events cid s; expected = int (length evs) + 1 in
     if ev_seq e \<noteq> expected then Inl (SequenceConflict expected (ev_seq e))
     else Inr (AList.update cid (evs @ [e]) s))"

definition store_list :: "uuid \<Rightarrow> int \<Rightarrow> event_store \<Rightarrow> event_envelope list" where
  "store_list cid after s = filter (\<lambda>e. after < ev_seq e) (store_events cid s)"

text \<open>One turn of the loop of \<open>stream\<close>: the events after the cursor, then the new cursor.\<close>

definition stream_turn :: "uuid \<Rightarrow> event_store \<Rightarrow> int \<Rightarrow> event_envelope list \<times> int" where
  "stream_turn cid s cursor = (let evs = store_list cid cursor s in
     (evs, fold (\<lambda>e _. ev_seq e) evs cursor))"

definition store_inv :: "event_store \<Rightarrow> bool" where
  "store_inv s = list_all (\<lambda>(k, evs). map ev_seq (store_events k s) = [1..int (length (store_events k s))]) s"

lemma store_events_update:
  "store_events k (AList.update cid evs s) = (if k = cid then evs else store_events k s)"
  by (simp add: store_events_def update_conv')

lemma store_inv_contiguous:
  "store_inv s \<Longrightarrow> map ev_seq (store_events k s) = [1..int (length (store_events k s))]"
proof (cases "map_of s k")
  case (Some evs)
  assume "store_inv s"
  with map_of_SomeD [OF Some] show ?thesis by (auto simp: store_inv_def list_all_iff)
qed (simp add: store_events_def)

lemma store_list_all: "store_inv s \<Longrightarrow> store_list k 0 s = store_events k s"
proof -
  assume "store_inv s"
  then have "set (map ev_seq (store_events k s)) = set [1..int (length (store_events k s))]"
    by (simp only: store_inv_contiguous)
  then have "\<forall>e\<in>set (store_events k s). 0 < ev_seq e" by (force simp: set_upto)
  then show ?thesis by (simp add: store_list_def filter_id_conv)
qed

lemma store_append_inv:
  assumes "store_inv s" "store_append cid e s = Inr s'"
  shows "store_inv s'"
proof -
  from assms(2) have e: "ev_seq e = int (length (store_events cid s)) + 1"
    and s': "s' = AList.update cid (store_events cid s @ [e]) s"
    by (auto simp: store_append_def Let_def split: if_splits)
  have "map ev_seq (store_events k s') = [1..int (length (store_events k s'))]" for k
    using store_inv_contiguous [OF assms(1)] by (simp add: s' store_events_update e upto_rec2)
  then show ?thesis by (simp add: store_inv_def list_all_iff)
qed

interpretation mem_log: event_log store_append "\<lambda>cid. cid" store_list "\<lambda>e. e" store_inv
proof
  fix s x e s' k a
  assume i: "store_inv s"
  show "map ev_seq (store_list k 0 s) = [1..int (length (store_list k 0 s))]"
    by (simp add: store_list_all [OF i] store_inv_contiguous [OF i])
  show "0 \<le> a \<Longrightarrow> store_list k a s = filter (\<lambda>e. a < ev_seq e) (store_list k 0 s)"
    by (simp add: store_list_all [OF i]) (simp add: store_list_def)
  assume a: "store_append x e s = Inr s'"
  then show i': "store_inv s'" by (rule store_append_inv [OF i])
  from a have s': "s' = AList.update x (store_events x s @ [e]) s"
    by (auto simp: store_append_def Let_def split: if_splits)
  show "store_list x 0 s' = store_list x 0 s @ [e]"
    by (simp add: store_list_all [OF i'] store_list_all [OF i]) (simp add: s' store_events_update)
  show "k \<noteq> x \<Longrightarrow> store_list k 0 s' = store_list k 0 s"
    by (simp add: store_list_def s' store_events_update)
qed

lemma fold_last_seq: "fold (\<lambda>e _. ev_seq e) evs c = (if evs = [] then c else ev_seq (last evs))"
  by (induction evs arbitrary: c) auto

text \<open>The source's loop advances the cursor event by event; a turn is a round of the locale.\<close>

lemma stream_turn_poll:
  "mem_log.poll k s (c, out) = (snd (stream_turn k s c), out @ fst (stream_turn k s c))"
  by (simp add: mem_log.poll_def stream_turn_def Let_def fold_last_seq)

end
