(* ===== verification/Repo_Log.thy ===== *)
theory Repo_Log
  imports Repo_Core Event_Log
begin

text \<open>
  What the repository promises of its event log. The invariant ties the three tables an append
  writes: in every conversation the stored sequence numbers are \<open>1\<close> to the \<open>last_seq\<close> of
  its row, no event is without its conversation, and every event has the outbox row that will
  publish it. The log then meets the interface \<open>event_log\<close>, so that everything proved of
  streams holds of the durable log. The theory also has the round trips of conversations and
  checkpoints through their rows.
\<close>

section \<open>The invariant of the log\<close>

definition events_of :: "uuid \<Rightarrow> db \<Rightarrow> event_row list" where
  "events_of cid d = sort_key er_seq (filter (\<lambda>r. er_conversation r = cid) (t_events d))"

definition log_inv :: "db \<Rightarrow> bool" where
  "log_inv d = (keyed cr_id (t_conversations d)
     \<and> list_all (\<lambda>c. 0 \<le> cr_last_seq c \<and> map er_seq (events_of (cr_id c) d) = [1..cr_last_seq c])
         (t_conversations d)
     \<and> list_all (\<lambda>r. er_conversation r \<in> cr_id ` set (t_conversations d)) (t_events d))"

text \<open>The outbox row of an event carries the event itself.\<close>

definition announced :: "outbox_row list \<Rightarrow> event_row \<Rightarrow> bool" where
  "announced obs r = list_ex (\<lambda>ob. ob_aggregate ob = er_conversation r
     \<and> event_to_row (ob_aggregate ob) (ob_payload ob) = r) obs"

definition outbox_inv :: "db \<Rightarrow> bool" where
  "outbox_inv d = list_all (announced (t_outbox d)) (t_events d)"

section \<open>Lemmas on appends\<close>

lemma sort_key_snoc:
  assumes "\<forall>x\<in>set xs. f x \<le> f y"
  shows "sort_key f (xs @ [y]) = sort_key f xs @ [y]"
proof -
  have ins: "insort_key f x (zs @ [y]) = insort_key f x zs @ [y]" if "f x \<le> f y" for x zs
    using that by (induction zs) auto
  show ?thesis using assms by (induction xs) (auto simp: ins)
qed

lemma filter_sort_key: "filter P (sort_key f xs) = sort_key f (filter P xs)"
proof (induction xs)
  case (Cons x xs)
  have "filter P (insort_key f x (sort_key f xs)) =
      (if P x then insort_key f x (filter P (sort_key f xs)) else filter P (sort_key f xs))"
    by (cases "P x") (simp_all add: filter_insort filter_insort_triv)
  then show ?case by (simp add: Cons)
qed simp

lemma commit_event_Inr:
  "commit_event oid now cid e run d = Inr d' \<longleftrightarrow>
     (\<exists>row. db_get cr_id cid (t_conversations d) = Some row \<and> ev_seq e = cr_last_seq row + 1
        \<and> (cid, ev_seq e) \<notin> event_key ` set (t_events d) \<and> ev_id e \<notin> er_id ` set (t_events d)
        \<and> oid \<notin> ob_id ` set (t_outbox d)
        \<and> d' = d\<lparr>t_events := t_events d @ [event_to_row cid e],
                 t_outbox := t_outbox d @ [outbox_of oid now cid e],
                 t_conversations := db_set cr_id cid (project_run run (ev_seq e)) (t_conversations d)\<rparr>)"
  by (cases "db_get cr_id cid (t_conversations d)")
    (auto simp: commit_event_def add_event_row_def event_to_row_def outbox_of_def db_add_def
      split: option.splits if_splits)

lemma cr_id_project_run [simp]: "cr_id (project_run run sq r) = cr_id r"
  by (simp add: project_run_def)

lemma log_inv_row:
  assumes "log_inv d" "db_get cr_id cid (t_conversations d) = Some row"
  shows "map er_seq (events_of cid d) = [1..cr_last_seq row]" "0 \<le> cr_last_seq row"
  using assms db_get_SomeD [OF assms(2)] by (auto simp: log_inv_def list_all_iff)

lemma log_inv_absent:
  assumes "log_inv d" "cid \<notin> cr_id ` set (t_conversations d)"
  shows "events_of cid d = []"
proof -
  have "filter (\<lambda>r. er_conversation r = cid) (t_events d) = []"
    using assms by (auto simp: filter_empty_conv log_inv_def list_all_iff)
  then show ?thesis by (simp add: events_of_def)
qed

lemma log_inv_contiguous:
  assumes "log_inv d"
  shows "map er_seq (events_of cid d) = [1..int (length (events_of cid d))]"
proof (cases "db_get cr_id cid (t_conversations d)")
  case (Some row)
  have "length (events_of cid d) = length (map er_seq (events_of cid d))" by simp
  also have "\<dots> = nat (cr_last_seq row)"
    by (simp only: log_inv_row(1) [OF assms Some]) simp
  finally show ?thesis using log_inv_row [OF assms Some] by simp
qed (use assms log_inv_absent in \<open>simp add: db_get_None\<close>)

lemma log_inv_seqs:
  assumes "log_inv d" "db_get cr_id cid (t_conversations d) = Some row"
    "r \<in> set (t_events d)" "er_conversation r = cid"
  shows "1 \<le> er_seq r \<and> er_seq r \<le> cr_last_seq row"
proof -
  have "er_seq r \<in> set (map er_seq (events_of cid d))" using assms(3,4) by (simp add: events_of_def)
  then show ?thesis by (simp only: log_inv_row(1) [OF assms(1,2)]) simp
qed

lemma commit_event_events_of:
  assumes "log_inv d" "commit_event oid now cid e run d = Inr d'"
  shows "events_of k d' = (if k = cid then events_of cid d @ [event_to_row cid e] else events_of k d)"
proof -
  obtain row where row: "db_get cr_id cid (t_conversations d) = Some row"
    and sq: "ev_seq e = cr_last_seq row + 1"
    and d': "t_events d' = t_events d @ [event_to_row cid e]"
    using assms(2) by (auto simp: commit_event_Inr)
  have conv: "er_conversation (event_to_row cid e) = cid" "er_seq (event_to_row cid e) = ev_seq e"
    by (simp_all add: event_to_row_def)
  show ?thesis
  proof (cases "k = cid")
    case True
    have "\<forall>r\<in>set (filter (\<lambda>r. er_conversation r = cid) (t_events d)). er_seq r \<le> er_seq (event_to_row cid e)"
      using log_inv_seqs [OF assms(1) row] by (fastforce simp: conv sq)
    then show ?thesis
      using True by (simp add: events_of_def d' conv(1) sort_key_snoc)
  qed (simp add: events_of_def d' conv)
qed

lemma log_inv_commit [inv_intros]:
  assumes "log_inv d" "commit_event oid now cid e run d = Inr d'"
  shows "log_inv d'"
proof -
  obtain row where row: "db_get cr_id cid (t_conversations d) = Some row"
    and sq: "ev_seq e = cr_last_seq row + 1"
    and d': "t_events d' = t_events d @ [event_to_row cid e]"
      "t_conversations d' = db_set cr_id cid (project_run run (ev_seq e)) (t_conversations d)"
    using assms(2) by (auto simp: commit_event_Inr)
  have ev: "events_of k d' = (if k = cid then events_of cid d @ [event_to_row cid e] else events_of k d)" for k
    by (rule commit_event_events_of [OF assms])
  have ids: "cr_id ` set (t_conversations d') = cr_id ` set (t_conversations d)"
    by (simp add: d' image_db_set)
  have up: "map er_seq (events_of cid d') = [1..ev_seq e]"
    using log_inv_row [OF assms(1) row] by (simp add: ev sq upto_rec2 event_to_row_def)
  show ?thesis
    unfolding log_inv_def
  proof (intro conjI)
    show "keyed cr_id (t_conversations d')"
      using assms(1) by (auto simp: d' log_inv_def intro: table_intros)
    show "list_all (\<lambda>c. 0 \<le> cr_last_seq c \<and> map er_seq (events_of (cr_id c) d') = [1..cr_last_seq c])
        (t_conversations d')"
      using assms(1) log_inv_row [OF assms(1) row] up
      by (auto simp: list_all_iff d' db_set_def log_inv_def ev project_run_def sq)
    have "cid \<in> cr_id ` set (t_conversations d)" using db_get_SomeD [OF row] by auto
    then show "list_all (\<lambda>r. er_conversation r \<in> cr_id ` set (t_conversations d')) (t_events d')"
      using assms(1) by (simp add: ids) (simp add: d' log_inv_def event_to_row_def)
  qed
qed

lemma outbox_inv_commit [inv_intros]:
  assumes "outbox_inv d" "commit_event oid now cid e run d = Inr d'"
  shows "outbox_inv d'"
  using assms
  by (auto simp: outbox_inv_def announced_def list_all_iff list_ex_iff commit_event_Inr outbox_of_def
      event_to_row_def)

section \<open>Reading the log\<close>

lemma list_events_of:
  "list_events cid a None d = map event_from_row (filter (\<lambda>r. a < er_seq r) (events_of cid d))"
  by (simp add: list_events_def events_of_def filter_sort_key)

text \<open>What a later read returns of an event: the stored columns, without its labels.\<close>

definition stored_view :: "event_envelope \<Rightarrow> event_envelope" where
  "stored_view e = e\<lparr>ev_schema_version := ''1'', ev_tenant := None, ev_user := None, ev_project := None\<rparr>"

lemma event_row_view [simp]: "event_from_row (event_to_row cid e) = stored_view e"
  by (simp add: event_from_row_def event_to_row_def stored_view_def)

lemma ev_seq_from_row [simp]: "ev_seq (event_from_row r) = er_seq r"
  by (simp add: event_from_row_def)

lemma list_events_all:
  assumes "log_inv d"
  shows "list_events cid 0 None d = map event_from_row (events_of cid d)"
proof -
  have "set (map er_seq (events_of cid d)) = set [1..int (length (events_of cid d))]"
    by (simp only: log_inv_contiguous [OF assms])
  then have "\<forall>r\<in>set (events_of cid d). 0 < er_seq r" by (force simp: set_upto)
  then show ?thesis by (simp add: list_events_of filter_id_conv)
qed

lemma list_events_after:
  assumes "log_inv d" "0 \<le> a"
  shows "list_events cid a None d = filter (\<lambda>e. a < ev_seq e) (list_events cid 0 None d)"
  unfolding list_events_all [OF assms(1)] unfolding list_events_of by (simp add: filter_map comp_def)

abbreviation repo_append :: "uuid \<times> time \<times> conversation \<Rightarrow> event_envelope \<Rightarrow> db \<Rightarrow> db_error + db" where
  "repo_append x e d \<equiv> append_event (fst x) (fst (snd x)) (snd (snd x)) e d"

interpretation repo_log: event_log repo_append "\<lambda>x. conv_id (snd (snd x))"
  "\<lambda>cid a d. list_events cid a None d" stored_view log_inv
proof
  fix d x e d' k and a :: int
  assume i: "log_inv d"
  show "map ev_seq (list_events k 0 None d) = [1..int (length (list_events k 0 None d))]"
    by (simp add: list_events_all [OF i] comp_def log_inv_contiguous [OF i])
  show "0 \<le> a \<Longrightarrow> list_events k a None d = filter (\<lambda>e. a < ev_seq e) (list_events k 0 None d)"
    by (rule list_events_after [OF i])
  assume "repo_append x e d = Inr d'"
  then have a: "commit_event (fst x) (fst (snd x)) (conv_id (snd (snd x))) e (conv_run (snd (snd x))) d = Inr d'"
    by (simp add: append_event_def)
  show i': "log_inv d'" by (rule log_inv_commit [OF i a])
  show "list_events (conv_id (snd (snd x))) 0 None d' =
      list_events (conv_id (snd (snd x))) 0 None d @ [stored_view e]"
    by (simp add: list_events_all [OF i] list_events_all [OF i'] commit_event_events_of [OF i a])
  show "k \<noteq> conv_id (snd (snd x)) \<Longrightarrow> list_events k 0 None d' = list_events k 0 None d"
    by (simp add: list_events_all [OF i] list_events_all [OF i'] commit_event_events_of [OF i a])
qed

section \<open>Conversations\<close>

lemma conversation_row_roundtrip [simp]: "conversation_from_row (conversation_to_row c) = c"
  by (simp add: conversation_from_row_def conversation_to_row_def)

lemma conversation_to_from_row: "conversation_to_row (conversation_from_row r) = r"
  by (simp add: conversation_from_row_def conversation_to_row_def)

lemma insert_conversation_Inr:
  "insert_conversation c d = Inr d' \<longleftrightarrow> conv_id c \<notin> cr_id ` set (t_conversations d)
     \<and> d' = d\<lparr>t_conversations := t_conversations d @ [conversation_to_row c]\<rparr>"
  by (auto simp: insert_conversation_def db_add_def conversation_to_row_def split: option.splits if_splits)

lemma save_idempotency_Inr:
  "save_idempotency now scope key rh rid d = Inr d' \<Longrightarrow> \<exists>rows. d' = d\<lparr>t_idempotency := rows\<rparr>"
  by (cases d) (auto simp: save_idempotency_def split: option.splits if_splits)

lemma log_inv_tables:
  "t_conversations d' = t_conversations d \<Longrightarrow> t_events d' = t_events d \<Longrightarrow> log_inv d' = log_inv d"
  by (simp add: log_inv_def events_of_def)

lemma log_inv_insert [inv_intros]:
  assumes "log_inv d" "insert_conversation c d = Inr d'" "last_seq (conv_run c) = 0"
  shows "log_inv d'"
proof -
  have new: "conv_id c \<notin> cr_id ` set (t_conversations d)"
    and d': "t_conversations d' = t_conversations d @ [conversation_to_row c]" "t_events d' = t_events d"
    using assms(2) by (auto simp: insert_conversation_Inr)
  have ev: "events_of k d' = events_of k d" for k by (simp add: events_of_def d')
  have row: "cr_id (conversation_to_row c) = conv_id c" "cr_last_seq (conversation_to_row c) = 0"
    using assms(3) by (simp_all add: conversation_to_row_def)
  have "events_of (conv_id c) d = []" by (rule log_inv_absent [OF assms(1) new])
  then show ?thesis
    using assms(1) new by (auto simp: log_inv_def ev d' row keyed_def list_all_iff)
qed

text \<open>A small store for the witnesses: one conversation with an empty log.\<close>

definition demo_conv :: conversation where
  "demo_conv = \<lparr>conv_id = ''c1'', conv_session = ''s1'', parent_conversation = None, conv_task = ''task'',
     conv_mcp_refs = None, conv_mode = DEFAULT, conv_created_at = 1, conv_run = new_run ''r1''\<rparr>"

definition demo_event :: event_envelope where
  "demo_event = mk_event ''e1'' 2 ''r1'' 1 ''run.started'' [] ''runner''"

definition demo_db :: db where
  "demo_db = empty_db\<lparr>t_conversations := [conversation_to_row demo_conv]\<rparr>"

definition demo_db1 :: db where
  "demo_db1 = demo_db\<lparr>t_events := [event_to_row ''c1'' demo_event],
     t_outbox := [outbox_of ''o1'' 3 ''c1'' demo_event],
     t_conversations := [project_run (new_run ''r1'') 1 (conversation_to_row demo_conv)]\<rparr>"

lemmas demo_defs = demo_conv_def demo_event_def demo_db_def demo_db1_def empty_db_def new_run_def
  mk_event_def conversation_to_row_def project_run_def

lemma demo_log_inv: "log_inv demo_db"
  by (simp add: log_inv_def events_of_def demo_defs keyed_def)

lemma demo_append: "append_event ''o1'' 3 demo_conv demo_event demo_db = Inr demo_db1"
  by (simp add: append_event_def commit_event_def add_event_row_def db_add_def demo_defs db_get_Cons
      event_to_row_def outbox_of_def db_set_def)

lemma demo_log_inv1: "log_inv demo_db1"
  by (rule log_inv_commit [OF demo_log_inv demo_append [unfolded append_event_def]])

section \<open>Properties\<close>

text \<open>C1. An append is all or nothing and exact. When \<open>append_event\<close> accepts an event, the log of its
  conversation is the old log with the event (as the store keeps it) at the end, the logs of all other
  conversations are as they were, the row of the conversation shows the run the caller projected with
  the event's number, and the log invariant holds again.\<close>

theorem append_event_exact:
  assumes "log_inv d" "append_event oid now c e d = Inr d'"
  shows "log_inv d'
    \<and> list_events (conv_id c) 0 None d' = list_events (conv_id c) 0 None d @ [stored_view e]
    \<and> (\<forall>k. k \<noteq> conv_id c \<longrightarrow> list_events k 0 None d' = list_events k 0 None d)
    \<and> (\<exists>c0. repo_get_conversation (conv_id c) d = Some c0
        \<and> repo_get_conversation (conv_id c) d' =
            Some (c0\<lparr>conv_run := (conv_run c)\<lparr>run_id := run_id (conv_run c0), last_seq := ev_seq e\<rparr>\<rparr>))"
proof -
  have a: "repo_append (oid, now, c) e d = Inr d'" using assms(2) by simp
  from assms(2) obtain row where "db_get cr_id (conv_id c) (t_conversations d) = Some row"
    "t_conversations d' = db_set cr_id (conv_id c) (project_run (conv_run c) (ev_seq e)) (t_conversations d)"
    by (auto simp: append_event_def commit_event_Inr)
  then have "repo_get_conversation (conv_id c) d = Some (conversation_from_row row)"
    "repo_get_conversation (conv_id c) d' =
       Some (conversation_from_row (project_run (conv_run c) (ev_seq e) row))"
    by (simp_all add: repo_get_conversation_def db_get_set)
  then show ?thesis
    using repo_log.append_invar [OF assms(1) a] repo_log.append_events [OF assms(1) a]
      repo_log.append_other [OF assms(1) a]
    by (simp add: conversation_from_row_def project_run_def)
qed

theorem append_event_exact_witness:
  "log_inv demo_db1 \<and> list_events ''c1'' 0 None demo_db1 = list_events ''c1'' 0 None demo_db @ [demo_event]"
  using append_event_exact [OF demo_log_inv demo_append]
  by (simp add: demo_conv_def) (simp add: demo_event_def stored_view_def mk_event_def)

text \<open>The log has no gaps and no lost updates: under the invariant an append is accepted exactly
  when its conversation exists, its number is one more than the length of the log and neither the event
  nor the outbox row reuses an identifier.\<close>

theorem append_event_accepted:
  assumes "log_inv d"
  shows "(\<exists>d'. append_event oid now c e d = Inr d') \<longleftrightarrow>
    repo_get_conversation (conv_id c) d \<noteq> None
    \<and> ev_seq e = int (length (list_events (conv_id c) 0 None d)) + 1
    \<and> ev_id e \<notin> er_id ` set (t_events d) \<and> oid \<notin> ob_id ` set (t_outbox d)"
proof (cases "db_get cr_id (conv_id c) (t_conversations d)")
  case (Some row)
  have "int (length (map er_seq (events_of (conv_id c) d))) = cr_last_seq row"
    using log_inv_row [OF assms Some] by (simp only:) simp
  then have len: "int (length (list_events (conv_id c) 0 None d)) = cr_last_seq row"
    by (simp add: list_events_all [OF assms])
  have fresh: "(conv_id c, cr_last_seq row + 1) \<notin> event_key ` set (t_events d)"
    using log_inv_seqs [OF assms Some] by fastforce
  have get: "repo_get_conversation (conv_id c) d = Some (conversation_from_row row)"
    by (simp add: repo_get_conversation_def Some)
  show ?thesis
  proof (cases "ev_seq e = cr_last_seq row + 1")
    case True
    then show ?thesis by (simp add: append_event_def commit_event_Inr Some len fresh get)
  next
    case False
    then show ?thesis by (simp add: append_event_def commit_event_Inr Some len)
  qed
qed (simp add: append_event_def commit_event_Inr repo_get_conversation_def)

theorem append_event_accepted_witness:
  "(\<exists>d'. append_event ''o1'' 3 demo_conv demo_event demo_db = Inr d')
   \<and> \<not> (\<exists>d'. append_event ''o2'' 4 demo_conv demo_event demo_db1 = Inr d')"
  using append_event_accepted [OF demo_log_inv] append_event_accepted [OF demo_log_inv1]
  by (simp add: demo_append) (simp add: demo_defs event_to_row_def)

text \<open>Two writers that both read the log before either wrote cannot both append: the second one is
  refused with the conflict that names the number it should have used.\<close>

theorem append_event_second_writer:
  assumes "append_event oid1 now1 c1 e1 d = Inr d1" "conv_id c2 = conv_id c1" "ev_seq e2 = ev_seq e1"
  shows "append_event oid2 now2 c2 e2 d1 =
    Inl (RepositoryConflict (SeqConflict (ev_seq e1 + 1) (ev_seq e1)))"
proof -
  from assms(1) obtain row where "db_get cr_id (conv_id c1) (t_conversations d) = Some row"
    "t_conversations d1 = db_set cr_id (conv_id c1) (project_run (conv_run c1) (ev_seq e1)) (t_conversations d)"
    by (auto simp: append_event_def commit_event_Inr)
  then show ?thesis
    using assms(2,3) by (simp add: append_event_def commit_event_def db_get_set project_run_def)
qed

theorem append_event_second_writer_witness:
  "append_event ''o2'' 4 demo_conv (demo_event\<lparr>ev_id := ''e2''\<rparr>) demo_db1 =
     Inl (RepositoryConflict (SeqConflict 2 1))"
  using append_event_second_writer [OF demo_append, of demo_conv "demo_event\<lparr>ev_id := ''e2''\<rparr>" "''o2''" 4]
  by (simp add: demo_event_def mk_event_def)

text \<open>Streaming the durable log is exact. Start a subscriber of a conversation at a cursor with
  nothing handed out and let appends to any conversation and rounds of the subscriber interleave in any
  way: one more round makes what it has handed out equal to the log after the cursor, every event
  once and in order.\<close>

theorem repo_stream_complete:
  assumes "repo_log.runs cid d (a, []) d' st" "log_inv d" "0 \<le> a"
  shows "snd (repo_log.poll cid d' st) = list_events cid a None d'"
  using assms by (rule repo_log.stream_complete)

theorem repo_stream_complete_witness:
  "snd (repo_log.poll ''c1'' demo_db1 (0, [])) = list_events ''c1'' 0 None demo_db1"
proof -
  have "repo_log.runs ''c1'' demo_db (0, []) demo_db1 (0, [])"
    using demo_append by (auto intro: repo_log.runs.appended [of _ _ _ demo_db _ "(''o1'', 3, demo_conv)"] repo_log.runs.idle)
  then show ?thesis by (rule repo_stream_complete) (simp_all add: demo_log_inv)
qed

text \<open>A conversation survives its row: what \<open>create_conversation\<close> stored for a fresh request is what
  \<open>get_conversation\<close> returns, and the new conversation starts with an empty log under the invariant.\<close>

theorem create_conversation_roundtrip:
  assumes "log_inv d" "last_seq (conv_run c) = 0"
    and "idempotent_resource d ''conversation'' key rh = Inr None"
    and "repo_create_conversation now c rh key d = Inr (res, d')"
  shows "res = Some c \<and> repo_get_conversation (conv_id c) d' = Some c
    \<and> list_events (conv_id c) 0 None d' = [] \<and> log_inv d'"
proof -
  from assms(3,4) obtain d1 where ins: "insert_conversation c d = Inr d1" and res: "res = Some c"
    and sv: "save_idempotency now ''conversation'' key rh (conv_id c) d1 = Inr d'"
    by (auto simp: repo_create_conversation_def split: sum.splits)
  obtain rows where d': "d' = d1\<lparr>t_idempotency := rows\<rparr>" using save_idempotency_Inr [OF sv] by blast
  have i1: "log_inv d1" by (rule log_inv_insert [OF assms(1) ins assms(2)])
  then have i': "log_inv d'" using log_inv_tables [of d' d1] by (simp add: d')
  have new: "conv_id c \<notin> cr_id ` set (t_conversations d)"
    and t: "t_conversations d' = t_conversations d @ [conversation_to_row c]" "t_events d' = t_events d"
    using ins by (auto simp: insert_conversation_Inr d')
  have "events_of (conv_id c) d' = []"
    using log_inv_absent [OF assms(1) new] by (simp add: events_of_def t)
  moreover have "db_get cr_id (conv_id c) (t_conversations d) = None" using new by (simp add: db_get_None)
  ultimately show ?thesis
    using i' by (simp add: res list_events_all repo_get_conversation_def t db_get_append db_get_Cons)
      (simp add: conversation_to_row_def)
qed

theorem create_conversation_roundtrip_witness:
  "\<exists>d'. repo_create_conversation 5 demo_conv ''h'' (Some ''k'') empty_db = Inr (Some demo_conv, d')
     \<and> repo_get_conversation ''c1'' d' = Some demo_conv \<and> log_inv d'"
proof -
  have "log_inv empty_db" by (simp add: log_inv_def)
  moreover have "last_seq (conv_run demo_conv) = 0" by (simp add: demo_conv_def new_run_def)
  moreover have n: "idempotent_resource empty_db ''conversation'' (Some ''k'') ''h'' = Inr None"
    by (simp add: idempotent_resource_def)
  moreover obtain res d' where "repo_create_conversation 5 demo_conv ''h'' (Some ''k'') empty_db = Inr (res, d')"
    by (simp add: repo_create_conversation_def n insert_conversation_def save_idempotency_def db_add_def
       )
  ultimately show ?thesis
    using create_conversation_roundtrip [of empty_db demo_conv "Some ''k''" "''h''" 5 res d']
    by (simp add: demo_conv_def)
qed

end
