(* ===== verification/Repo_Outbox.thy ===== *)
theory Repo_Outbox
  imports Repo_Log
begin

text \<open>
  The transactional outbox: \<open>claim_outbox\<close>, \<open>finish_outbox\<close> and \<open>outbox_stats\<close> of the repository and
  the loop of \<open>processes/outbox_publisher.py\<close>. Several publishers run at once, so the properties
  are about every interleaving of their transactions with the appends of the service.
\<close>

section \<open>Definitions\<close>

record outbox_notification =
  on_id :: uuid
  on_topic :: string
  on_aggregate :: uuid
  on_payload :: event_envelope
  on_attempts :: nat
  on_created_at :: time

definition claimable :: "time \<Rightarrow> outbox_row \<Rightarrow> bool" where
  "claimable now r = (ob_published_at r = None
     \<and> (ob_claimed_by r = None
        \<or> (case ob_claim_expires_at r of None \<Rightarrow> False | Some t \<Rightarrow> t < now)))"

definition notification_of :: "outbox_row \<Rightarrow> outbox_notification" where
  "notification_of r = \<lparr>on_id = ob_id r, on_topic = ob_topic r, on_aggregate = ob_aggregate r,
     on_payload = ob_payload r, on_attempts = ob_attempts r, on_created_at = ob_created_at r\<rparr>"

definition claim_row :: "string \<Rightarrow> time \<Rightarrow> outbox_row \<Rightarrow> outbox_row" where
  "claim_row pub expires r = r\<lparr>ob_claimed_by := Some pub, ob_claim_expires_at := Some expires,
     ob_attempts := Suc (ob_attempts r)\<rparr>"

definition outbox_batch :: "nat \<Rightarrow> time \<Rightarrow> db \<Rightarrow> outbox_row list" where
  "outbox_batch lim now d = take lim (sort_key ob_created_at (filter (claimable now) (t_outbox d)))"

definition claim_outbox :: "string \<Rightarrow> nat \<Rightarrow> int \<Rightarrow> time \<Rightarrow> db \<Rightarrow> outbox_notification list \<times> db" where
  "claim_outbox pub lim lease_seconds now d =
     (let rows = outbox_batch lim now d; upd = claim_row pub (now + seconds lease_seconds) in
      (map (\<lambda>r. notification_of (upd r)) rows,
       d\<lparr>t_outbox := map (\<lambda>r. if ob_id r \<in> ob_id ` set rows then upd r else r) (t_outbox d)\<rparr>))"

text \<open>The number of pending rows and the age of the oldest of them in microseconds.\<close>

definition outbox_stats :: "time \<Rightarrow> db \<Rightarrow> nat \<times> int" where
  "outbox_stats now d = (let rows = filter (\<lambda>r. ob_published_at r = None) (t_outbox d) in
     (length rows, case min_by id (map ob_created_at rows) of None \<Rightarrow> 0 | Some t \<Rightarrow> max 0 (now - t)))"

definition finish_outbox :: "time \<Rightarrow> uuid \<Rightarrow> string \<Rightarrow> bool \<Rightarrow> db \<Rightarrow> db_error + db" where
  "finish_outbox now oid pub published d = (case db_get ob_id oid (t_outbox d) of
       None \<Rightarrow> Inl (RepositoryConflict NoOutboxEvent)
     | Some r \<Rightarrow>
         if ob_claimed_by r \<noteq> Some pub then Inl StaleClaim
         else Inr (d\<lparr>t_outbox := db_set ob_id oid (\<lambda>r. r\<lparr>
                ob_published_at := (if published then Some now else ob_published_at r),
                ob_claimed_by := None, ob_claim_expires_at := None\<rparr>) (t_outbox d)\<rparr>))"

text \<open>
  \<open>run_once\<close>: the notifier is the parameter \<open>deliver\<close>, false where its \<open>publish\<close> raises; \<open>clock\<close>
  gives the time at which a notification is finished. Every \<open>finish_outbox\<close> commits on its own, so the
  tables are returned also when one of them raises and the rest of the batch is abandoned.
\<close>

fun publish_batch :: "string \<Rightarrow> (outbox_notification \<Rightarrow> bool) \<Rightarrow> (uuid \<Rightarrow> time) \<Rightarrow> outbox_notification list
    \<Rightarrow> nat \<Rightarrow> db \<Rightarrow> (db_error + nat) \<times> db" where
  "publish_batch pub deliver clock [] n d = (Inr n, d)"
| "publish_batch pub deliver clock (x # xs) n d =
     (case finish_outbox (clock (on_id x)) (on_id x) pub (deliver x) d of
        Inl e \<Rightarrow> (Inl e, d)
      | Inr d' \<Rightarrow> publish_batch pub deliver clock xs (if deliver x then Suc n else n) d')"

definition run_once :: "string \<Rightarrow> (outbox_notification \<Rightarrow> bool) \<Rightarrow> (uuid \<Rightarrow> time) \<Rightarrow> time \<Rightarrow> db
    \<Rightarrow> (db_error + nat) \<times> db" where
  "run_once pub deliver clock now d = (case claim_outbox pub 100 30 now d of
     (xs, d') \<Rightarrow> publish_batch pub deliver clock xs 0 d')"

text \<open>
  Everything that touches the outbox, one committed transaction a step, with the time of the
  transaction: an append of the service, a claim or a finish of some publisher. The label names the
  row that is finished and the publisher that finishes it.
\<close>

inductive outbox_step :: "time \<Rightarrow> (uuid \<times> string) option \<Rightarrow> db \<Rightarrow> db \<Rightarrow> bool" where
  appended: "append_event oid now c e d = Inr d' \<Longrightarrow> outbox_step now None d d'"
| claimed: "claim_outbox pub lim lease now d = (ns, d') \<Longrightarrow> outbox_step now None d d'"
| finished: "finish_outbox now oid pub published d = Inr d' \<Longrightarrow> outbox_step now (Some (oid, pub)) d d'"

text \<open>
  Steps up to a time, in which the publisher \<open>p\<close> does not finish the row \<open>oid\<close>. It may claim and finish
  any other row, as its round does.
\<close>

inductive steps_until :: "time \<Rightarrow> uuid \<Rightarrow> string \<Rightarrow> db \<Rightarrow> db \<Rightarrow> bool" for t oid p where
  steps_refl: "steps_until t oid p d d"
| steps_step: "steps_until t oid p d d1 \<Longrightarrow> outbox_step now act d1 d2 \<Longrightarrow> now \<le> t \<Longrightarrow> act \<noteq> Some (oid, p)
    \<Longrightarrow> steps_until t oid p d d2"

inductive steps_any :: "db \<Rightarrow> db \<Rightarrow> bool" where
  any_refl: "steps_any d d"
| any_step: "steps_any d d1 \<Longrightarrow> outbox_step now who d1 d2 \<Longrightarrow> steps_any d d2"

section \<open>Lemmas\<close>

lemma claim_row_keeps [simp]:
  "ob_id (claim_row pub t r) = ob_id r" "ob_published_at (claim_row pub t r) = ob_published_at r"
  "ob_aggregate (claim_row pub t r) = ob_aggregate r" "ob_payload (claim_row pub t r) = ob_payload r"
  "ob_created_at (claim_row pub t r) = ob_created_at r"
  by (simp_all add: claim_row_def)

lemma outbox_batch_set: "set (outbox_batch lim now d) \<subseteq> {r \<in> set (t_outbox d). claimable now r}"
  by (auto simp: outbox_batch_def dest: in_set_takeD)

lemma claim_outbox_ids: "map on_id (fst (claim_outbox pub lim lease now d)) = map ob_id (outbox_batch lim now d)"
  by (simp add: claim_outbox_def Let_def notification_of_def comp_def)

lemma claim_outbox_rows:
  "t_outbox (snd (claim_outbox pub lim lease now d)) = map (\<lambda>r. if ob_id r \<in> ob_id ` set (outbox_batch lim now d)
     then claim_row pub (now + seconds lease) r else r) (t_outbox d)"
  "t_events (snd (claim_outbox pub lim lease now d)) = t_events d"
  by (simp_all add: claim_outbox_def Let_def)

lemma map_ob_id_claim [simp]: "map ob_id (t_outbox (snd (claim_outbox pub lim lease now d))) = map ob_id (t_outbox d)"
  by (simp add: claim_outbox_rows comp_def if_distrib cong: if_cong)

lemma finish_outbox_Inr:
  "finish_outbox now oid pub published d = Inr d' \<longleftrightarrow>
     (\<exists>r. db_get ob_id oid (t_outbox d) = Some r \<and> ob_claimed_by r = Some pub
       \<and> d' = d\<lparr>t_outbox := db_set ob_id oid (\<lambda>r. r\<lparr>
                ob_published_at := (if published then Some now else ob_published_at r),
                ob_claimed_by := None, ob_claim_expires_at := None\<rparr>) (t_outbox d)\<rparr>)"
  by (auto simp: finish_outbox_def split: option.splits if_splits)

lemma append_event_outbox:
  "append_event oid now c e d = Inr d' \<Longrightarrow> t_outbox d' = t_outbox d @ [outbox_of oid now (conv_id c) e]
     \<and> oid \<notin> ob_id ` set (t_outbox d)"
  by (auto simp: append_event_def commit_event_Inr)

lemma outbox_keyed_step [inv_intros]:
  "outbox_step now who d d' \<Longrightarrow> keyed ob_id (t_outbox d) \<Longrightarrow> keyed ob_id (t_outbox d')"
proof (induction rule: outbox_step.induct)
  case (appended oid now c e d d')
  then show ?case using append_event_outbox [OF appended(1)] by (simp add: keyed_def outbox_of_def)
next
  case (claimed pub lim lease now d ns d')
  then have "d' = snd (claim_outbox pub lim lease now d)" by simp
  with claimed(2) show ?case by (simp add: keyed_def)
next
  case (finished now oid pub published d d')
  then show ?case by (auto simp: finish_outbox_Inr intro!: keyed_set)
qed

lemma outbox_inv_map:
  assumes "outbox_inv d" "t_events d' = t_events d" "t_outbox d' = map f (t_outbox d)"
    "\<And>r. ob_aggregate (f r) = ob_aggregate r" "\<And>r. ob_payload (f r) = ob_payload r"
  shows "outbox_inv d'"
  using assms by (auto simp: outbox_inv_def announced_def list_all_iff list_ex_iff)

lemma outbox_inv_step [inv_intros]: "outbox_step now who d d' \<Longrightarrow> outbox_inv d \<Longrightarrow> outbox_inv d'"
proof (induction rule: outbox_step.induct)
  case (appended oid now c e d d')
  then show ?case by (auto simp: append_event_def intro: outbox_inv_commit)
next
  case (claimed pub lim lease now d ns d')
  then have d': "d' = snd (claim_outbox pub lim lease now d)" by simp
  show ?case unfolding d'
    by (rule outbox_inv_map [OF claimed(2) claim_outbox_rows(2) claim_outbox_rows(1)]) auto
next
  case (finished now oid pub published d d')
  then obtain f where "t_events d' = t_events d" "t_outbox d' = map f (t_outbox d)"
    "\<And>r. ob_aggregate (f r) = ob_aggregate r" "\<And>r. ob_payload (f r) = ob_payload r"
    by (fastforce simp: finish_outbox_Inr db_set_def)
  then show ?case by (rule outbox_inv_map [OF finished(2)])
qed

text \<open>A row held by \<open>p\<close> until \<open>t\<close>, and a row that was published.\<close>

definition held :: "time \<Rightarrow> string \<Rightarrow> uuid \<Rightarrow> db \<Rightarrow> bool" where
  "held t p oid d = list_all (\<lambda>r. ob_id r = oid \<longrightarrow>
     ob_claimed_by r = Some p \<and> ob_claim_expires_at r = Some t) (t_outbox d)"

definition done_row :: "uuid \<Rightarrow> db \<Rightarrow> bool" where
  "done_row oid d = (oid \<in> ob_id ` set (t_outbox d)
     \<and> list_all (\<lambda>r. ob_id r = oid \<longrightarrow> ob_published_at r \<noteq> None) (t_outbox d))"

lemma held_not_claimable:
  assumes "held t p oid d" "now \<le> t"
  shows "oid \<notin> ob_id ` set (outbox_batch lim now d)"
  using assms outbox_batch_set [of lim now d] by (fastforce simp: held_def list_all_iff claimable_def)

lemma done_not_claimable:
  assumes "done_row oid d"
  shows "oid \<notin> ob_id ` set (outbox_batch lim now d)"
  using assms outbox_batch_set [of lim now d] by (fastforce simp: done_row_def list_all_iff claimable_def)

lemma held_finish:
  assumes "held t p oid d" "oid \<in> ob_id ` set (t_outbox d)"
  shows "\<exists>d'. finish_outbox now oid p delivered d = Inr d'"
proof -
  obtain r where "db_get ob_id oid (t_outbox d) = Some r"
    using assms(2) db_get_None [of ob_id oid "t_outbox d"] by fastforce
  moreover from this have "ob_claimed_by r = Some p"
    using assms(1) db_get_SomeD by (fastforce simp: held_def list_all_iff)
  ultimately show ?thesis by (auto simp: finish_outbox_Inr)
qed

lemma held_step:
  assumes "outbox_step now who d d'" "now \<le> t" "who \<noteq> Some (oid, p)" "held t p oid d"
    "oid \<in> ob_id ` set (t_outbox d)"
  shows "held t p oid d' \<and> oid \<in> ob_id ` set (t_outbox d')"
  using assms
proof (induction rule: outbox_step.induct)
  case (appended oid' now c e d d')
  then show ?case using append_event_outbox [OF appended(1)] by (auto simp: held_def outbox_of_def)
next
  case (claimed pub lim lease now d ns d')
  then have d': "d' = snd (claim_outbox pub lim lease now d)" by simp
  have "oid \<notin> ob_id ` set (outbox_batch lim now d)" by (rule held_not_claimable [OF claimed(4,2)])
  then have "held t p oid d'"
    using claimed(4) by (auto simp: held_def d' claim_outbox_rows list_all_iff)
  moreover have "ob_id ` set (t_outbox d') = ob_id ` set (t_outbox d)"
    by (metis d' map_ob_id_claim set_map)
  ultimately show ?case using claimed(5) by simp
next
  case (finished now oid' pub published d d')
  then obtain r where r: "db_get ob_id oid' (t_outbox d) = Some r" "ob_claimed_by r = Some pub"
    and d': "t_outbox d' = db_set ob_id oid' (\<lambda>r. r\<lparr>
         ob_published_at := (if published then Some now else ob_published_at r),
         ob_claimed_by := None, ob_claim_expires_at := None\<rparr>) (t_outbox d)"
    by (auto simp: finish_outbox_Inr)
  have "oid' \<noteq> oid"
    using finished(3,4) r db_get_SomeD [OF r(1)] by (auto simp: held_def list_all_iff)
  then show ?case
    using finished(4,5) by (auto simp: held_def list_all_iff d' db_set_def image_iff)
qed

lemma done_step: "outbox_step now who d d' \<Longrightarrow> done_row oid d \<Longrightarrow> done_row oid d'"
proof (induction rule: outbox_step.induct)
  case (appended oid' now c e d d')
  then show ?case using append_event_outbox [OF appended(1)] by (auto simp: done_row_def outbox_of_def)
next
  case (claimed pub lim lease now d ns d')
  then have d': "d' = snd (claim_outbox pub lim lease now d)" by simp
  have "ob_id ` set (t_outbox d') = ob_id ` set (t_outbox d)" by (metis d' map_ob_id_claim set_map)
  with claimed(2) show ?case by (auto simp: done_row_def d' claim_outbox_rows list_all_iff)
next
  case (finished now oid' pub published d d')
  then obtain f where d': "t_outbox d' = db_set ob_id oid' f (t_outbox d)"
    and f: "\<And>r. ob_id (f r) = ob_id r" "\<And>r. ob_published_at r \<noteq> None \<Longrightarrow> ob_published_at (f r) \<noteq> None"
    by (auto simp: finish_outbox_Inr)
  have "ob_id ` set (t_outbox d') = ob_id ` set (t_outbox d)" by (simp add: d' image_db_set f)
  with finished(2) f show ?case by (auto simp: done_row_def list_all_iff d' db_set_def)
qed

lemma claim_held:
  assumes "claim_outbox pub lim lease now d = (ns, d1)" "n \<in> set ns"
  shows "held (now + seconds lease) pub (on_id n) d1 \<and> on_id n \<in> ob_id ` set (t_outbox d1)"
proof -
  have d1: "d1 = snd (claim_outbox pub lim lease now d)" and ns: "ns = fst (claim_outbox pub lim lease now d)"
    using assms(1) by simp_all
  have "on_id n \<in> set (map on_id ns)" using assms(2) by simp
  then have b: "on_id n \<in> ob_id ` set (outbox_batch lim now d)" by (simp only: ns claim_outbox_ids set_map)
  then have "on_id n \<in> ob_id ` set (t_outbox d)" using outbox_batch_set by fastforce
  moreover have "ob_id ` set (t_outbox d1) = ob_id ` set (t_outbox d)" by (metis d1 map_ob_id_claim set_map)
  ultimately have "on_id n \<in> ob_id ` set (t_outbox d1)" by simp
  moreover have "held (now + seconds lease) pub (on_id n) d1"
    using b unfolding held_def d1 claim_outbox_rows list_all_iff set_map ball_simps
    by (intro ballI impI) (simp add: claim_row_def split: if_splits)
  ultimately show ?thesis by simp
qed

lemma finish_done:
  assumes "finish_outbox now oid pub True d = Inr d1"
  shows "done_row oid d1"
proof -
  obtain r f where r: "db_get ob_id oid (t_outbox d) = Some r"
    and d1: "t_outbox d1 = db_set ob_id oid f (t_outbox d)"
    and f: "\<And>r. ob_id (f r) = ob_id r" "\<And>r. ob_published_at (f r) \<noteq> None"
    using assms by (auto simp: finish_outbox_Inr)
  have "oid \<in> ob_id ` set (t_outbox d)" using db_get_SomeD [OF r] by blast
  then have "oid \<in> ob_id ` set (t_outbox d1)" by (simp add: d1 image_db_set f(1))
  then show ?thesis using f by (auto simp: done_row_def list_all_iff d1 db_set_def)
qed

section \<open>A publisher alone\<close>

text \<open>The rows not yet published, and one finished batch of an undisturbed publisher.\<close>

definition pending :: "db \<Rightarrow> outbox_row list" where
  "pending d = filter (\<lambda>r. ob_published_at r = None) (t_outbox d)"

abbreviation pending_ids :: "db \<Rightarrow> uuid list" where
  "pending_ids d \<equiv> map ob_id (pending d)"

lemma finish_pending:
  assumes "finish_outbox now oid pub published d = Inr d'"
  shows "pending_ids d' = (if published then filter (\<lambda>i. i \<noteq> oid) (pending_ids d) else pending_ids d)"
proof -
  let ?f = "\<lambda>r. r\<lparr>ob_published_at := (if published then Some now else ob_published_at r),
                ob_claimed_by := None, ob_claim_expires_at := None\<rparr>"
  have d': "t_outbox d' = db_set ob_id oid ?f (t_outbox d)" using assms by (auto simp: finish_outbox_Inr)
  show ?thesis
  proof (cases published)
    case True
    then show ?thesis by (simp add: pending_def d' filter_db_set_out filter_map comp_def)
  next
    case False
    then show ?thesis by (simp add: pending_def d' filter_db_set map_db_set)
  qed
qed

lemma publish_batch_outcome:
  assumes "keyed ob_id (t_outbox d)" "distinct (map on_id xs)"
    and "\<forall>x\<in>set xs. \<exists>r\<in>set (t_outbox d). ob_id r = on_id x \<and> ob_claimed_by r = Some pub"
  shows "fst (publish_batch pub deliver clock xs n d) = Inr (n + length (filter deliver xs))
    \<and> pending_ids (snd (publish_batch pub deliver clock xs n d)) =
        filter (\<lambda>i. i \<notin> on_id ` set (filter deliver xs)) (pending_ids d)"
  using assms
proof (induction xs arbitrary: n d)
  case (Cons x xs)
  from Cons.prems(3) obtain r where r: "r \<in> set (t_outbox d)" "ob_id r = on_id x" "ob_claimed_by r = Some pub"
    by auto
  then obtain d1 where fin: "finish_outbox (clock (on_id x)) (on_id x) pub (deliver x) d = Inr d1"
    using Cons.prems(1) by (auto simp: finish_outbox_Inr db_get_iff)
  have "keyed ob_id (t_outbox d1)"
    using outbox_keyed_step [OF outbox_step.finished [OF fin]] Cons.prems(1) by simp
  moreover have "\<forall>y\<in>set xs. \<exists>r\<in>set (t_outbox d1). ob_id r = on_id y \<and> ob_claimed_by r = Some pub"
    using Cons.prems(2,3) fin by (fastforce simp: db_set_def finish_outbox_Inr)
  ultimately show ?case
    using Cons.IH [of d1 "if deliver x then Suc n else n"] Cons.prems(2)
    by (simp add: fin finish_pending [OF fin] conj_commute)
qed simp

lemma claim_pending: "pending_ids (snd (claim_outbox pub lim lease now d)) = pending_ids d"
  by (simp add: pending_def claim_outbox_rows filter_map comp_def if_distrib cong: if_cong)

section \<open>Properties\<close>

text \<open>C3. No event is lost before it is published: starting from an empty outbox and log, whatever appends,
  claims and finished deliveries of any publishers follow, every stored event has an outbox row that
  carries exactly that event for its conversation.\<close>

theorem every_event_announced:
  assumes "steps_any d d'" "outbox_inv d"
  shows "outbox_inv d'"
  using assms by (induction rule: steps_any.induct) (auto intro: outbox_inv_step)

theorem every_event_announced_witness:
  "outbox_inv demo_db1 \<and> announced (t_outbox demo_db1) (event_to_row ''c1'' demo_event)"
proof -
  have "steps_any demo_db demo_db1"
    using any_step [OF any_refl outbox_step.appended [OF demo_append]] .
  moreover have "outbox_inv demo_db" by (simp add: outbox_inv_def demo_db_def)
  ultimately have "outbox_inv demo_db1" by (rule every_event_announced)
  then show ?thesis by (simp add: outbox_inv_def demo_db1_def)
qed

text \<open>C4. A claim is exclusive while its lease runs. A notification that publisher \<open>p\<close> claimed is not handed
  out again to anyone by a claim made no later than the expiry of the lease, and \<open>p\<close> can still finish it,
  whatever transactions come in between: appends of the service, claims and finishes of other publishers,
  and everything \<open>p\<close> itself does with other rows, as long as \<open>p\<close> has not finished this one.\<close>

theorem claim_exclusive:
  assumes "claim_outbox p lim lease now d = (ns, d1)" "n \<in> set ns"
    and "steps_until (now + seconds lease) (on_id n) p d1 d2" "now2 \<le> now + seconds lease"
  shows "on_id n \<notin> on_id ` set (fst (claim_outbox q lim2 lease2 now2 d2))
    \<and> (\<exists>d3. finish_outbox now2 (on_id n) p delivered d2 = Inr d3)"
proof -
  have h: "held (now + seconds lease) p (on_id n) d2 \<and> on_id n \<in> ob_id ` set (t_outbox d2)"
    using assms(3) claim_held [OF assms(1,2)]
    by (induction rule: steps_until.induct) (auto dest: held_step)
  then have "on_id n \<notin> set (map on_id (fst (claim_outbox q lim2 lease2 now2 d2)))"
    unfolding claim_outbox_ids set_map using held_not_claimable assms(4) by blast
  then have "on_id n \<notin> on_id ` set (fst (claim_outbox q lim2 lease2 now2 d2))" by simp
  then show ?thesis using held_finish [OF conjunct1 [OF h] conjunct2 [OF h]] by blast
qed

definition demo_claimed :: db where
  "demo_claimed = snd (claim_outbox ''p'' 100 30 10 demo_db1)"

lemma demo_claim: "fst (claim_outbox ''p'' 100 30 10 demo_db1) =
    [notification_of (claim_row ''p'' (10 + seconds 30) (outbox_of ''o1'' 3 ''c1'' demo_event))]"
  by (simp add: claim_outbox_def Let_def outbox_batch_def demo_db1_def claimable_def outbox_of_def)

text \<open>In the witness \<open>p\<close> finishes the first row of its batch while it holds the second.\<close>

definition demo_two :: db where
  "demo_two = demo_db\<lparr>t_outbox := [outbox_of ''o1'' 3 ''c1'' demo_event, outbox_of ''o2'' 4 ''c1'' demo_event]\<rparr>"

definition demo_held :: db where
  "demo_held = snd (claim_outbox ''p'' 100 30 10 demo_two)"

lemma demo_two_claim: "claim_outbox ''p'' 100 30 10 demo_two =
    (map (\<lambda>r. notification_of (claim_row ''p'' (10 + seconds 30) r))
       [outbox_of ''o1'' 3 ''c1'' demo_event, outbox_of ''o2'' 4 ''c1'' demo_event], demo_held)"
  by (simp add: demo_held_def claim_outbox_def Let_def outbox_batch_def demo_two_def claimable_def outbox_of_def)

theorem claim_exclusive_witness:
  "\<exists>d2. finish_outbox 15 ''o1'' ''p'' True demo_held = Inr d2
     \<and> ''o2'' \<notin> on_id ` set (fst (claim_outbox ''q'' 100 30 20 d2))
     \<and> (\<exists>d3. finish_outbox 20 ''o2'' ''p'' True d2 = Inr d3)"
proof -
  obtain d2 where f: "finish_outbox 15 ''o1'' ''p'' True demo_held = Inr d2"
    by (simp add: demo_held_def claim_outbox_def Let_def outbox_batch_def demo_two_def claimable_def
        outbox_of_def finish_outbox_def db_get_Cons claim_row_def)
  let ?n = "notification_of (claim_row ''p'' (10 + seconds 30) (outbox_of ''o2'' 4 ''c1'' demo_event))"
  have id: "on_id ?n = ''o2''" by (simp add: notification_of_def outbox_of_def)
  have "steps_until (10 + seconds 30) (on_id ?n) ''p'' demo_held d2"
    unfolding id by (rule steps_step [OF steps_refl outbox_step.finished [OF f]]) simp_all
  from claim_exclusive [OF demo_two_claim _ this, of 20 "''q''" 100 30 True]
  have "''o2'' \<notin> on_id ` set (fst (claim_outbox ''q'' 100 30 20 d2))
     \<and> (\<exists>d3. finish_outbox 20 ''o2'' ''p'' True d2 = Inr d3)"
    unfolding id by simp
  then show ?thesis using f by blast
qed

text \<open>A published notification is never claimed again, whatever follows.\<close>

theorem published_not_claimed:
  assumes "finish_outbox now oid pub True d = Inr d1" "steps_any d1 d2"
  shows "oid \<notin> on_id ` set (fst (claim_outbox q lim lease now2 d2))"
proof -
  have "done_row oid d1"
    using finish_done [OF assms(1)] .
  with assms(2) have "done_row oid d2" by (induction rule: steps_any.induct) (auto intro: done_step)
  then have "oid \<notin> set (map on_id (fst (claim_outbox q lim lease now2 d2)))"
    unfolding claim_outbox_ids set_map by (rule done_not_claimable)
  then show ?thesis by simp
qed

theorem published_not_claimed_witness:
  "\<exists>d1. finish_outbox 15 ''o1'' ''p'' True demo_claimed = Inr d1
     \<and> ''o1'' \<notin> on_id ` set (fst (claim_outbox ''q'' 100 30 (seconds 100) d1))"
proof -
  obtain d1 where "finish_outbox 15 ''o1'' ''p'' True demo_claimed = Inr d1"
    by (simp add: demo_claimed_def claim_outbox_def Let_def outbox_batch_def demo_db1_def claimable_def
        outbox_of_def finish_outbox_def db_get_Cons claim_row_def)
  then show ?thesis using published_not_claimed [OF _ any_refl] by blast
qed

text \<open>C5. One round of a publisher that is not disturbed: it returns the number of deliveries that
  succeeded, exactly these leave the pending rows, and a failed delivery stays pending for the next round.
  With a working notifier each round therefore drains a hundred rows or all that are left.\<close>

theorem run_once_outcome:
  assumes "keyed ob_id (t_outbox d)" "\<forall>r\<in>set (pending d). claimable now r"
  shows "\<exists>xs. xs = fst (claim_outbox pub 100 30 now d) \<and> length xs = min 100 (length (pending d))
    \<and> fst (run_once pub deliver clock now d) = Inr (length (filter deliver xs))
    \<and> pending_ids (snd (run_once pub deliver clock now d)) =
        filter (\<lambda>i. i \<notin> on_id ` set (filter deliver xs)) (pending_ids d)"
proof -
  obtain xs d1 where c: "claim_outbox pub 100 30 now d = (xs, d1)" by fastforce
  have fc: "filter (claimable now) (t_outbox d) = pending d"
    unfolding pending_def using assms(2) by (intro filter_cong) (auto simp: pending_def claimable_def)
  have ids: "map on_id xs = map ob_id (outbox_batch 100 now d)"
    using claim_outbox_ids [of pub 100 30 now d] by (simp add: c)
  have "length xs = length (map on_id xs)" by simp
  also have "\<dots> = min 100 (length (pending d))" unfolding ids by (simp add: outbox_batch_def fc)
  finally have len: "length xs = min 100 (length (pending d))" .
  have "distinct (map ob_id (sort_key ob_created_at (filter (claimable now) (t_outbox d))))"
    using assms(1) by (simp add: keyed_def distinct_map inj_on_def)
  then have dist: "distinct (map on_id xs)"
    unfolding ids outbox_batch_def by (simp add: take_map[symmetric] distinct_take)
  have key: "keyed ob_id (t_outbox d1)"
    using outbox_keyed_step [OF outbox_step.claimed [OF c] assms(1)] .
  have own: "\<forall>x\<in>set xs. \<exists>r\<in>set (t_outbox d1). ob_id r = on_id x \<and> ob_claimed_by r = Some pub"
    using claim_held [OF c] by (fastforce simp: held_def list_all_iff)
  have "pending_ids d1 = pending_ids d" using claim_pending [of pub 100 30 now d] by (simp add: c)
  then show ?thesis
    using publish_batch_outcome [OF key dist own, of deliver clock 0] len by (simp add: run_once_def c)
qed

theorem run_once_outcome_witness:
  "fst (run_once ''p'' (\<lambda>_. True) (\<lambda>_. 12) 10 demo_db1) = Inr 1"
proof -
  have "keyed ob_id (t_outbox demo_db1)" "\<forall>r\<in>set (pending demo_db1). claimable 10 r"
    by (simp_all add: demo_db1_def keyed_def pending_def outbox_of_def claimable_def)
  from run_once_outcome [OF this, of "''p''" "\<lambda>_. True" "\<lambda>_. 12"]
  show ?thesis by (simp add: demo_claim)
qed

end
