(* ===== verification/Repo_Retention.thy ===== *)
theory Repo_Retention
  imports Repo_Outbox
begin

text \<open>
  The write leases of workspaces and the retention pass of the repository. A lease is
  exclusive: while a session holds the write lease of a workspace no other session gets it,
  whatever they try. Retention deletes transient rows only.
\<close>

section \<open>Write leases\<close>

definition set_container_lease ::
  "uuid \<Rightarrow> string \<Rightarrow> int \<Rightarrow> uuid option \<Rightarrow> container_lease_row list \<Rightarrow> container_lease_row list option" where
  "set_container_lease sid cid epoch op rows =
     (if list_ex (\<lambda>r. cl_container r = cid \<and> cl_session r \<noteq> sid) rows then None
      else case db_get cl_session sid rows of
          Some _ \<Rightarrow> Some (db_set cl_session sid (\<lambda>r. r\<lparr>cl_container := cid, cl_lease_epoch := epoch,
                      cl_status := ''ACTIVE'', cl_runtime_operation := op\<rparr>) rows)
        | None \<Rightarrow> Some (rows @ [\<lparr>cl_session = sid, cl_container = cid, cl_lease_epoch = epoch,
                      cl_status = ''ACTIVE'', cl_runtime_operation = op, cl_expires_at = None\<rparr>]))"

definition try_acquire_workspace_lease ::
  "uuid \<Rightarrow> uuid \<Rightarrow> int \<Rightarrow> string \<Rightarrow> uuid option \<Rightarrow> db \<Rightarrow> db_error + (bool \<times> db)" where
  "try_acquire_workspace_lease wid sid epoch cid op d =
     (let lease = db_get wl_workspace wid (t_workspace_leases d) in
      if (case lease of None \<Rightarrow> False | Some r \<Rightarrow> wl_status r = ''ACTIVE'' \<and> wl_session r \<noteq> sid)
      then Inr (False, d)
      else
        (let rows = (case lease of
             Some _ \<Rightarrow> db_set wl_workspace wid (\<lambda>r. r\<lparr>wl_session := sid, wl_lease_epoch := epoch,
                         wl_status := ''ACTIVE''\<rparr>) (t_workspace_leases d)
           | None \<Rightarrow> t_workspace_leases d @ [\<lparr>wl_workspace = wid, wl_session = sid,
                         wl_lease_epoch = epoch, wl_status = ''ACTIVE'', wl_expires_at = None\<rparr>])
         in case set_container_lease sid cid epoch op (t_container_leases d) of
              None \<Rightarrow> Inl IntegrityError
            | Some cs \<Rightarrow> Inr (True, d\<lparr>t_workspace_leases := rows, t_container_leases := cs\<rparr>)))"

definition release_session_leases :: "session \<Rightarrow> db \<Rightarrow> db" where
  "release_session_leases s d =
     (let d1 = d\<lparr>t_container_leases := db_set cl_session (sess_id s) (\<lambda>r. r\<lparr>cl_status := ''STOPPED''\<rparr>)
                  (t_container_leases d)\<rparr> in
      case db_get wl_workspace (sess_workspace s) (t_workspace_leases d1) of
        None \<Rightarrow> d1
      | Some r \<Rightarrow> if wl_session r = sess_id s
          then d1\<lparr>t_workspace_leases := db_set wl_workspace (sess_workspace s)
                   (\<lambda>r. r\<lparr>wl_status := ''RELEASED''\<rparr>) (t_workspace_leases d1)\<rparr>
          else d1)"

section \<open>Retention\<close>

text \<open>The row counts that the pass also returns, for its log, are left out. The windows of the pass, in the order of the parameters; \<open>0\<close> switches a table off.\<close>

record retention_windows =
  idempotency_hours :: int
  unreferenced_checkpoints_hours :: int
  published_outbox_days :: int
  lease_retention_days :: int
  terminal_events_days :: int

text \<open>
  A partition is its range \<open>[lo, up)\<close> of \<open>occurred_at\<close>; \<open>DROP TABLE\<close> removes the event rows in it.
  A plain event table, and every store that is not PostgreSQL, has none.
\<close>

definition partition_busy :: "time \<Rightarrow> time \<Rightarrow> db \<Rightarrow> bool" where
  "partition_busy lo up d = (\<exists>e\<in>set (t_events d). lo \<le> er_occurred_at e \<and> er_occurred_at e < up
     \<and> (\<exists>c\<in>set (t_conversations d). cr_id c = er_conversation e \<and> \<not> terminal (cr_state c)))"

fun drop_idle_event_partitions ::
  "time \<Rightarrow> (time \<times> time) list \<Rightarrow> db \<Rightarrow> nat \<times> (time \<times> time) list \<times> db" where
  "drop_idle_event_partitions cutoff [] d = (0, [], d)"
| "drop_idle_event_partitions cutoff ((lo, up) # ps) d =
     (if up > cutoff \<or> partition_busy lo up d
      then (case drop_idle_event_partitions cutoff ps d of (n, ps', d') \<Rightarrow> (n, (lo, up) # ps', d'))
      else (case drop_idle_event_partitions cutoff ps (d\<lparr>t_events :=
                   db_del (\<lambda>e. lo \<le> er_occurred_at e \<and> er_occurred_at e < up) (t_events d)\<rparr>) of
              (n, ps', d') \<Rightarrow> (Suc n, ps', d')))"

definition expired_before :: "time \<Rightarrow> time option \<Rightarrow> bool" where
  "expired_before cutoff t = (case t of None \<Rightarrow> False | Some x \<Rightarrow> x < cutoff)"

definition clean_idempotency :: "retention_windows \<Rightarrow> time \<Rightarrow> db \<Rightarrow> db" where
  "clean_idempotency w now d = (if idempotency_hours w > 0
     then d\<lparr>t_idempotency := db_del (\<lambda>r. ik_created_at r < now - hours (idempotency_hours w)) (t_idempotency d)\<rparr>
     else d)"

definition clean_checkpoints :: "retention_windows \<Rightarrow> time \<Rightarrow> db \<Rightarrow> db" where
  "clean_checkpoints w now d = (if unreferenced_checkpoints_hours w > 0
     then d\<lparr>t_checkpoints := db_del (\<lambda>r. kr_created_at r < now - hours (unreferenced_checkpoints_hours w)
             \<and> Some (kr_id r) \<notin> cr_checkpoint ` set (t_conversations d)) (t_checkpoints d)\<rparr>
     else d)"

definition clean_outbox :: "retention_windows \<Rightarrow> time \<Rightarrow> db \<Rightarrow> db" where
  "clean_outbox w now d = (if published_outbox_days w > 0
     then d\<lparr>t_outbox := db_del (\<lambda>r. expired_before (now - days (published_outbox_days w)) (ob_published_at r))
             (t_outbox d)\<rparr>
     else d)"

definition clean_leases :: "retention_windows \<Rightarrow> time \<Rightarrow> db \<Rightarrow> db" where
  "clean_leases w now d = (if lease_retention_days w > 0
     then (let cutoff = now - days (lease_retention_days w) in d\<lparr>
        t_operations := db_del (\<lambda>r. ro_status r \<in> {''SUCCEEDED'', ''FAILED''} \<and> ro_created_at r < cutoff)
           (t_operations d),
        t_container_leases := db_del (\<lambda>r. cl_status r \<noteq> ''ACTIVE'' \<and> expired_before cutoff (cl_expires_at r))
           (t_container_leases d),
        t_workspace_leases := db_del (\<lambda>r. wl_status r \<noteq> ''ACTIVE'' \<and> expired_before cutoff (wl_expires_at r))
           (t_workspace_leases d)\<rparr>)
     else d)"

definition clean_events :: "retention_windows \<Rightarrow> time \<Rightarrow> (time \<times> time) list \<Rightarrow> db
    \<Rightarrow> (time \<times> time) list \<times> db" where
  "clean_events w now parts d = (if terminal_events_days w > 0
     then (let cutoff = now - days (terminal_events_days w) in
        case drop_idle_event_partitions cutoff parts d of (n, parts', d1) \<Rightarrow>
          (parts', d1\<lparr>t_events := db_del (\<lambda>e. \<exists>c\<in>set (t_conversations d1). cr_id c = er_conversation e
               \<and> terminal (cr_state c) \<and> cr_created_at c < cutoff) (t_events d1)\<rparr>))
     else (parts, d))"

definition retention_cleanup :: "retention_windows \<Rightarrow> time \<Rightarrow> (time \<times> time) list \<Rightarrow> db
    \<Rightarrow> (time \<times> time) list \<times> db" where
  "retention_cleanup w now parts d =
     clean_events w now parts (clean_leases w now (clean_outbox w now (clean_checkpoints w now
       (clean_idempotency w now d))))"

section \<open>Lemmas on leases\<close>

definition lease_holder :: "uuid \<Rightarrow> db \<Rightarrow> uuid option" where
  "lease_holder wid d = (case db_get wl_workspace wid (t_workspace_leases d) of None \<Rightarrow> None
     | Some r \<Rightarrow> if wl_status r = ''ACTIVE'' then Some (wl_session r) else None)"

text \<open>Lease transactions of any session; the label is the session that releases.\<close>

inductive lease_step :: "uuid option \<Rightarrow> db \<Rightarrow> db \<Rightarrow> bool" where
  acquire: "try_acquire_workspace_lease wid sid epoch cid op d = Inr (ok, d') \<Longrightarrow> lease_step None d d'"
| release: "lease_step (Some (sess_id s)) d (release_session_leases s d)"

inductive lease_steps :: "uuid \<Rightarrow> db \<Rightarrow> db \<Rightarrow> bool" for s where
  lease_refl: "lease_steps s d d"
| lease_next: "lease_steps s d d1 \<Longrightarrow> lease_step who d1 d2 \<Longrightarrow> who \<noteq> Some s \<Longrightarrow> lease_steps s d d2"

lemma acquire_cases:
  assumes "try_acquire_workspace_lease wid sid epoch cid op d = Inr (ok, d')"
  shows "if ok then (lease_holder wid d = None \<or> lease_holder wid d = Some sid)
           \<and> lease_holder wid d' = Some sid
           \<and> (\<forall>w. w \<noteq> wid \<longrightarrow> lease_holder w d' = lease_holder w d)
         else d' = d \<and> (\<exists>s. s \<noteq> sid \<and> lease_holder wid d = Some s)"
proof (cases "db_get wl_workspace wid (t_workspace_leases d)")
  case None
  then show ?thesis using assms
    by (auto simp: try_acquire_workspace_lease_def Let_def lease_holder_def db_get_append db_get_Cons
        split: option.splits if_splits)
next
  case (Some r)
  then show ?thesis using assms
    by (auto simp: try_acquire_workspace_lease_def Let_def lease_holder_def db_get_set
        split: option.splits if_splits)
qed

lemma release_holder:
  "lease_holder w (release_session_leases s d) =
     (if w = sess_workspace s \<and> lease_holder w d = Some (sess_id s) then None else lease_holder w d)"
proof (cases "db_get wl_workspace (sess_workspace s) (t_workspace_leases d)")
  case None
  then show ?thesis by (simp add: release_session_leases_def Let_def lease_holder_def)
next
  case (Some r)
  then show ?thesis
    by (cases "w = sess_workspace s") (simp_all add: release_session_leases_def Let_def lease_holder_def db_get_set)
qed

lemma lease_step_keeps:
  assumes "lease_step who d d'" "who \<noteq> Some s" "lease_holder w d = Some s"
  shows "lease_holder w d' = Some s"
  using assms
proof (induction rule: lease_step.induct)
  case (acquire wid sid epoch cid op d ok d')
  then show ?case using acquire_cases [OF acquire(1)] by (cases "w = wid") (auto split: if_splits)
next
  case (release s' d)
  then show ?case by (simp add: release_holder)
qed

section \<open>Lemmas on retention\<close>

lemma drop_parts_tables:
  "drop_idle_event_partitions cutoff ps d = (n, ps', d') \<Longrightarrow> \<exists>es. d' = d\<lparr>t_events := es\<rparr> \<and> set es \<subseteq> set (t_events d)"
proof (induction ps arbitrary: d n ps' d')
  case (Cons p ps)
  obtain lo up where p: "p = (lo, up)" by (cases p)
  show ?case
    using Cons.prems Cons.IH unfolding p
    by (fastforce split: if_splits prod.splits simp: db_del_def)
next
  case Nil
  then show ?case by (auto intro: exI [of _ "t_events d"])
qed

text \<open>An event of a conversation that has not ended survives every drop.\<close>

lemma drop_parts_active:
  assumes "drop_idle_event_partitions cutoff ps d = (n, ps', d')" "e \<in> set (t_events d)"
    "c \<in> set (t_conversations d)" "cr_id c = er_conversation e" "\<not> terminal (cr_state c)"
  shows "e \<in> set (t_events d')"
  using assms
proof (induction ps arbitrary: d n ps' d')
  case (Cons p ps)
  obtain lo up where p: "p = (lo, up)" by (cases p)
  show ?case
  proof (cases "up > cutoff \<or> partition_busy lo up d")
    case True
    then show ?thesis using Cons.prems Cons.IH [of d] by (auto simp: p split: prod.splits)
  next
    case False
    let ?d = "d\<lparr>t_events := db_del (\<lambda>e. lo \<le> er_occurred_at e \<and> er_occurred_at e < up) (t_events d)\<rparr>"
    obtain m where "drop_idle_event_partitions cutoff ps ?d = (m, ps', d')"
      using Cons.prems(1) False by (auto simp: p split: prod.splits)
    moreover have "e \<in> set (t_events ?d)" using False Cons.prems(2-5) by (auto simp: set_db_del partition_busy_def)
    ultimately show ?thesis using Cons.prems(3-5) Cons.IH [of ?d] by auto
  qed
qed simp

lemmas clean_defs = clean_idempotency_def clean_checkpoints_def clean_outbox_def clean_leases_def

lemma retention_tables:
  assumes "retention_cleanup w now parts d = (parts', d')"
  shows "t_workspaces d' = t_workspaces d" "t_sessions d' = t_sessions d"
    "t_conversations d' = t_conversations d" "t_runners d' = t_runners d"
    "t_mcp_servers d' = t_mcp_servers d" "t_presets d' = t_presets d" "t_builds d' = t_builds d"
    "t_drafts d' = t_drafts d" "t_generations d' = t_generations d"
    "t_checkpoints d' = t_checkpoints (clean_checkpoints w now d)"
    "t_outbox d' = t_outbox (clean_outbox w now d)"
    "t_workspace_leases d' = t_workspace_leases (clean_leases w now d)"
    "t_container_leases d' = t_container_leases (clean_leases w now d)"
    "t_operations d' = t_operations (clean_leases w now d)"
proof -
  let ?c = "clean_leases w now (clean_outbox w now (clean_checkpoints w now (clean_idempotency w now d)))"
  obtain es where d': "d' = ?c\<lparr>t_events := es\<rparr>"
  proof (cases "terminal_events_days w > 0")
    case True
    obtain n ps1 d1 where "drop_idle_event_partitions (now - days (terminal_events_days w)) parts ?c = (n, ps1, d1)"
      by (metis prod_cases3)
    with True assms drop_parts_tables [OF this] that show ?thesis
      by (auto simp: retention_cleanup_def clean_events_def)
  next
    case False
    then show ?thesis using assms that [of "t_events ?c"] by (simp add: retention_cleanup_def clean_events_def)
  qed
  show "t_workspaces d' = t_workspaces d" "t_sessions d' = t_sessions d"
    "t_conversations d' = t_conversations d" "t_runners d' = t_runners d"
    "t_mcp_servers d' = t_mcp_servers d" "t_presets d' = t_presets d" "t_builds d' = t_builds d"
    "t_drafts d' = t_drafts d" "t_generations d' = t_generations d"
    "t_checkpoints d' = t_checkpoints (clean_checkpoints w now d)"
    "t_outbox d' = t_outbox (clean_outbox w now d)"
    "t_workspace_leases d' = t_workspace_leases (clean_leases w now d)"
    "t_container_leases d' = t_container_leases (clean_leases w now d)"
    "t_operations d' = t_operations (clean_leases w now d)"
    by (simp_all add: d' clean_defs Let_def)
qed

lemma retention_active_event:
  assumes "retention_cleanup w now parts d = (parts', d')" "e \<in> set (t_events d)" "keyed cr_id (t_conversations d)"
    "c \<in> set (t_conversations d)" "cr_id c = er_conversation e" "\<not> terminal (cr_state c)"
  shows "e \<in> set (t_events d')"
proof -
  let ?c = "clean_leases w now (clean_outbox w now (clean_checkpoints w now (clean_idempotency w now d)))"
  let ?cut = "now - days (terminal_events_days w)"
  have c: "t_events ?c = t_events d" "t_conversations ?c = t_conversations d" by (simp_all add: clean_defs Let_def)
  have only: "c' = c" if "c' \<in> set (t_conversations d)" "cr_id c' = er_conversation e" for c'
    using that assms(3-5) by (auto simp: keyed_def distinct_map inj_on_def)
  show ?thesis
  proof (cases "terminal_events_days w > 0")
    case True
    obtain n ps1 d1 where dr: "drop_idle_event_partitions ?cut parts ?c = (n, ps1, d1)" by (metis prod_cases3)
    have e1: "e \<in> set (t_events d1)" by (rule drop_parts_active [OF dr]) (use assms c in auto)
    have t1: "t_conversations d1 = t_conversations d" using drop_parts_tables [OF dr] c by auto
    have "t_events d' = db_del (\<lambda>e. \<exists>c\<in>set (t_conversations d1). cr_id c = er_conversation e
        \<and> terminal (cr_state c) \<and> cr_created_at c < ?cut) (t_events d1)"
      using True assms(1) dr unfolding retention_cleanup_def clean_events_def Let_def by auto
    then show ?thesis using assms(6) e1 by (auto simp: t1 set_db_del dest: only)
  next
    case False
    then show ?thesis using assms(1,2) c by (auto simp: retention_cleanup_def clean_events_def)
  qed
qed

section \<open>Properties\<close>

text \<open>C6. The write lease of a workspace is exclusive. A session that acquired it keeps it, and every
  other session that tries is refused and changes nothing, through any lease transactions of any sessions,
  until the holder itself releases its leases.\<close>

theorem workspace_lease_exclusive:
  assumes "try_acquire_workspace_lease wid sid epoch cid op d = Inr (True, d1)"
    and "lease_steps sid d1 d2" "sid' \<noteq> sid"
  shows "try_acquire_workspace_lease wid sid' epoch' cid' op' d2 = Inr (False, d2)"
proof -
  have "lease_holder wid d1 = Some sid" using acquire_cases [OF assms(1)] by simp
  with assms(2) have "lease_holder wid d2 = Some sid"
    by (induction rule: lease_steps.induct) (auto intro: lease_step_keeps)
  then show ?thesis
    using assms(3) by (auto simp: lease_holder_def try_acquire_workspace_lease_def split: option.splits if_splits)
qed

theorem workspace_lease_exclusive_witness:
  "\<exists>d1. try_acquire_workspace_lease ''w'' ''s1'' 1 ''k1'' None empty_db = Inr (True, d1)
     \<and> try_acquire_workspace_lease ''w'' ''s2'' 1 ''k2'' None d1 = Inr (False, d1)"
proof -
  obtain d1 where "try_acquire_workspace_lease ''w'' ''s1'' 1 ''k1'' None empty_db = Inr (True, d1)"
    by (simp add: try_acquire_workspace_lease_def set_container_lease_def)
  then show ?thesis using workspace_lease_exclusive [OF _ lease_refl] by fastforce
qed

text \<open>C7. Retention deletes transient state only: the authoritative tables are as they were, no event of
  a conversation that has not ended is deleted, neither is a checkpoint that a conversation refers to, an
  outbox row that is not published, an active lease of a workspace or of a container, or a runtime operation
  that has not finished.\<close>

theorem retention_keeps:
  assumes "retention_cleanup w now parts d = (parts', d')" "keyed cr_id (t_conversations d)"
  shows "t_workspaces d' = t_workspaces d \<and> t_sessions d' = t_sessions d
    \<and> t_conversations d' = t_conversations d \<and> t_mcp_servers d' = t_mcp_servers d
    \<and> t_presets d' = t_presets d \<and> t_builds d' = t_builds d \<and> t_runners d' = t_runners d
    \<and> t_drafts d' = t_drafts d \<and> t_generations d' = t_generations d
    \<and> (\<forall>e\<in>set (t_events d). \<forall>c\<in>set (t_conversations d).
         cr_id c = er_conversation e \<and> \<not> terminal (cr_state c) \<longrightarrow> e \<in> set (t_events d'))
    \<and> (\<forall>k\<in>set (t_checkpoints d). \<forall>c\<in>set (t_conversations d).
         cr_checkpoint c = Some (kr_id k) \<longrightarrow> k \<in> set (t_checkpoints d'))
    \<and> (\<forall>r\<in>set (t_outbox d). ob_published_at r = None \<longrightarrow> r \<in> set (t_outbox d'))
    \<and> (\<forall>l\<in>set (t_workspace_leases d). wl_status l = ''ACTIVE'' \<longrightarrow> l \<in> set (t_workspace_leases d'))
    \<and> (\<forall>l\<in>set (t_container_leases d). cl_status l = ''ACTIVE'' \<longrightarrow> l \<in> set (t_container_leases d'))
    \<and> (\<forall>r\<in>set (t_operations d). ro_status r \<notin> {''SUCCEEDED'', ''FAILED''} \<longrightarrow> r \<in> set (t_operations d'))"
proof -
  have "e \<in> set (t_events d')" if "e \<in> set (t_events d)" "c \<in> set (t_conversations d)"
    "cr_id c = er_conversation e" "\<not> terminal (cr_state c)" for e c
    by (rule retention_active_event [OF assms(1) that(1) assms(2) that(2-4)])
  moreover have "k \<in> set (t_checkpoints d')" if "k \<in> set (t_checkpoints d)" "c \<in> set (t_conversations d)"
    "cr_checkpoint c = Some (kr_id k)" for k c
    using that by (force simp: retention_tables(10) [OF assms(1)] clean_checkpoints_def set_db_del)
  moreover have "r \<in> set (t_outbox d')" if "r \<in> set (t_outbox d)" "ob_published_at r = None" for r
    using that by (simp add: retention_tables(11) [OF assms(1)] clean_outbox_def set_db_del expired_before_def)
  moreover have "l \<in> set (t_workspace_leases d')"
    if "l \<in> set (t_workspace_leases d)" "wl_status l = ''ACTIVE''" for l
    using that by (simp add: retention_tables(12) [OF assms(1)] clean_leases_def Let_def set_db_del)
  moreover have "l \<in> set (t_container_leases d')"
    if "l \<in> set (t_container_leases d)" "cl_status l = ''ACTIVE''" for l
    using that by (simp add: retention_tables(13) [OF assms(1)] clean_leases_def Let_def set_db_del)
  moreover have "r \<in> set (t_operations d')"
    if "r \<in> set (t_operations d)" "ro_status r \<notin> {''SUCCEEDED'', ''FAILED''}" for r
    using that by (simp add: retention_tables(14) [OF assms(1)] clean_leases_def Let_def set_db_del)
  ultimately show ?thesis using retention_tables(1-9) [OF assms(1)] by blast
qed

theorem retention_keeps_witness:
  "\<exists>parts d'. retention_cleanup \<lparr>idempotency_hours = 24, unreferenced_checkpoints_hours = 24,
       published_outbox_days = 7, lease_retention_days = 30, terminal_events_days = 90\<rparr> (days 365)
       [(0, days 31)] demo_db1 = (parts, d') \<and> event_to_row ''c1'' demo_event \<in> set (t_events d')"
proof -
  obtain parts d' where r: "retention_cleanup \<lparr>idempotency_hours = 24, unreferenced_checkpoints_hours = 24,
       published_outbox_days = 7, lease_retention_days = 30, terminal_events_days = 90\<rparr> (days 365)
       [(0, days 31)] demo_db1 = (parts, d')" by fastforce
  have "keyed cr_id (t_conversations demo_db1)" by (simp add: demo_db1_def keyed_def)
  moreover have "event_to_row ''c1'' demo_event \<in> set (t_events demo_db1)"
    "project_run (new_run ''r1'') 1 (conversation_to_row demo_conv) \<in> set (t_conversations demo_db1)"
    by (simp_all add: demo_db1_def)
  ultimately have "event_to_row ''c1'' demo_event \<in> set (t_events d')"
    using retention_keeps [OF r] by (fastforce simp: event_to_row_def demo_defs)
  with r show ?thesis by blast
qed

end
