(* ===== verification/Runner_Registry.thy ===== *)
theory Runner_Registry
  imports Schema
begin

text \<open>
  The directory of self-registered runners: the interface \<open>RunnerRegistry\<close> of
  \<open>application/ports/runner.py\<close> as a locale, its two implementations
  (\<open>application/runner_registry.py\<close> in memory, \<open>adapters/registry.py\<close> over the repository) and the
  operations of \<open>application/runner_ops.py\<close>, which take the registry's operations as arguments
  and are verified once, against the interface.
\<close>

section \<open>The in-memory registry\<close>

datatype registry_conflict = AlreadyRegistered uuid | SaveConflict conflict | SaveFailed db_error

record mem_registry =
  mr_registrations :: "(uuid \<times> runner_registration) list"
  mr_token_hashes :: "(uuid \<times> string) list"

definition mem_existing_runner_id :: "runner_registration_request \<Rightarrow> mem_registry \<Rightarrow> uuid option" where
  "mem_existing_runner_id q s = map_option rr_id (find (\<lambda>e. rr_endpoint e = rq_endpoint q
     \<and> rr_provider e = rq_provider q) (map snd (mr_registrations s)))"

definition mem_register :: "uuid \<Rightarrow> time \<Rightarrow> runner_registration_request \<Rightarrow> string \<Rightarrow> mem_registry
    \<Rightarrow> registry_conflict + (runner_registration \<times> mem_registry)" where
  "mem_register rid now q h s = (case mem_existing_runner_id q s of
       Some other \<Rightarrow> Inl (AlreadyRegistered other)
     | None \<Rightarrow> (let entry = new_registration rid now q in
         Inr (entry, s\<lparr>mr_registrations := AList.update rid entry (mr_registrations s),
                        mr_token_hashes := AList.update rid h (mr_token_hashes s)\<rparr>)))"

text \<open>What a heartbeat does to an entry, in both registries.\<close>

definition beat :: "string \<Rightarrow> int \<Rightarrow> string list option \<Rightarrow> time \<Rightarrow> runner_registration \<Rightarrow> runner_registration" where
  "beat status load caps now e = e\<lparr>rr_status := status, rr_load := load,
     rr_capabilities := or_else caps (rr_capabilities e), rr_last_heartbeat_at := now\<rparr>"

definition mem_heartbeat :: "uuid \<Rightarrow> string \<Rightarrow> int \<Rightarrow> string list option \<Rightarrow> time \<Rightarrow> mem_registry
    \<Rightarrow> runner_registration option \<times> mem_registry" where
  "mem_heartbeat rid status load caps now s = (case map_of (mr_registrations s) rid of
       None \<Rightarrow> (None, s)
     | Some e \<Rightarrow> (Some (beat status load caps now e),
         s\<lparr>mr_registrations := AList.update rid (beat status load caps now e) (mr_registrations s)\<rparr>))"

definition mem_deregister :: "uuid \<Rightarrow> mem_registry \<Rightarrow> bool \<times> mem_registry" where
  "mem_deregister rid s = (map_of (mr_registrations s) rid \<noteq> None,
     s\<lparr>mr_token_hashes := AList.delete rid (mr_token_hashes s),
       mr_registrations := AList.delete rid (mr_registrations s)\<rparr>)"

definition mem_get :: "uuid \<Rightarrow> mem_registry \<Rightarrow> runner_registration option" where
  "mem_get rid s = map_of (mr_registrations s) rid"

definition mem_token_hash :: "uuid \<Rightarrow> mem_registry \<Rightarrow> string option" where
  "mem_token_hash rid s = map_of (mr_token_hashes s) rid"

text \<open>\<open>capabilities is None or set(entry.capabilities) >= capabilities\<close>.\<close>

definition covers :: "string list option \<Rightarrow> runner_registration \<Rightarrow> bool" where
  "covers caps e = (case caps of None \<Rightarrow> True | Some cs \<Rightarrow> set cs \<subseteq> set (rr_capabilities e))"

definition mem_list_ready :: "string list option \<Rightarrow> mem_registry \<Rightarrow> runner_registration list" where
  "mem_list_ready caps s =
     filter (\<lambda>e. rr_status e = ''READY'' \<and> covers caps e) (map snd (mr_registrations s))"

definition mem_expire_stale :: "time \<Rightarrow> time \<Rightarrow> mem_registry \<Rightarrow> uuid list \<times> mem_registry" where
  "mem_expire_stale now timeout s =
     (let stale = map fst (filter (\<lambda>(k, e). rr_last_heartbeat_at e < now - timeout) (mr_registrations s)) in
      (stale, fold (\<lambda>k s. snd (mem_deregister k s)) stale s))"

section \<open>The registry over the repository\<close>

definition save_runner_registration :: "runner_registration \<Rightarrow> string \<Rightarrow> db \<Rightarrow> db_error + db" where
  "save_runner_registration e h d = (case db_get runner_row_id (rr_id e) (t_runners d) of
       Some _ \<Rightarrow> Inl (RepositoryConflict RunnerRegistered)
     | None \<Rightarrow> Inr (d\<lparr>t_runners := t_runners d @ [\<lparr>rn_registration = e, rn_token_hash = h\<rparr>]\<rparr>))"

definition get_runner_registration :: "uuid \<Rightarrow> db \<Rightarrow> runner_registration option" where
  "get_runner_registration rid d = map_option rn_registration (db_get runner_row_id rid (t_runners d))"

definition get_runner_registration_hash :: "uuid \<Rightarrow> db \<Rightarrow> string option" where
  "get_runner_registration_hash rid d = map_option rn_token_hash (db_get runner_row_id rid (t_runners d))"

definition update_runner_registration :: "uuid \<Rightarrow> string \<Rightarrow> int \<Rightarrow> string list option \<Rightarrow> time \<Rightarrow> db
    \<Rightarrow> runner_registration option \<times> db" where
  "update_runner_registration rid status load caps now d =
     (case db_get runner_row_id rid (t_runners d) of
        None \<Rightarrow> (None, d)
      | Some r \<Rightarrow> (Some (beat status load caps now (rn_registration r)),
          d\<lparr>t_runners := db_set runner_row_id rid
              (\<lambda>r. r\<lparr>rn_registration := beat status load caps now (rn_registration r)\<rparr>) (t_runners d)\<rparr>))"

definition delete_runner_registration :: "uuid \<Rightarrow> db \<Rightarrow> bool \<times> db" where
  "delete_runner_registration rid d = (case db_get runner_row_id rid (t_runners d) of
       None \<Rightarrow> (False, d)
     | Some _ \<Rightarrow> (True, d\<lparr>t_runners := db_del (\<lambda>r. runner_row_id r = rid) (t_runners d)\<rparr>))"

definition list_ready_runner_registrations :: "db \<Rightarrow> runner_registration list" where
  "list_ready_runner_registrations d =
     filter (\<lambda>e. rr_status e = ''READY'') (map rn_registration (t_runners d))"

definition expire_runner_registrations :: "time \<Rightarrow> time \<Rightarrow> db \<Rightarrow> uuid list \<times> db" where
  "expire_runner_registrations now timeout d =
     (let stale = map runner_row_id (filter (\<lambda>r. rr_last_heartbeat_at (rn_registration r) < now - timeout)
                    (t_runners d)) in
      (stale, d\<lparr>t_runners := db_del (\<lambda>r. runner_row_id r \<in> set stale) (t_runners d)\<rparr>))"

definition sql_register :: "uuid \<Rightarrow> time \<Rightarrow> runner_registration_request \<Rightarrow> string \<Rightarrow> db
    \<Rightarrow> registry_conflict + (runner_registration \<times> db)" where
  "sql_register rid now q h d =
     (case filter (\<lambda>e. rr_provider e = rq_provider q \<and> rr_endpoint e = rq_endpoint q)
             (list_ready_runner_registrations d) of
        other # _ \<Rightarrow> Inl (AlreadyRegistered (rr_id other))
      | [] \<Rightarrow> (let entry = new_registration rid now q in
          case save_runner_registration entry h d of
            Inl (RepositoryConflict c) \<Rightarrow> Inl (SaveConflict c)
          | Inl e \<Rightarrow> Inl (SaveFailed e)
          | Inr d' \<Rightarrow> Inr (entry, d')))"

definition sql_list_ready :: "string list option \<Rightarrow> db \<Rightarrow> runner_registration list" where
  "sql_list_ready caps d = filter (covers caps) (list_ready_runner_registrations d)"

section \<open>The operations of the service\<close>

text \<open>
  \<open>hash\<close> is \<open>_hash_token\<close>, SHA-256; \<open>token\<close> is the fresh secret that \<open>register_runner\<close> draws.
  \<open>compare_digest\<close> is equality. \<open>cfg_token\<close> is the configured bootstrap token.
\<close>

definition register_runner ::
  "(uuid \<Rightarrow> time \<Rightarrow> runner_registration_request \<Rightarrow> string \<Rightarrow> 's \<Rightarrow> registry_conflict + (runner_registration \<times> 's))
   \<Rightarrow> (string \<Rightarrow> string) \<Rightarrow> string option \<Rightarrow> uuid \<Rightarrow> time \<Rightarrow> string
   \<Rightarrow> runner_registration_request \<Rightarrow> string option \<Rightarrow> 's \<Rightarrow> service_error + ((uuid \<times> string) \<times> 's)" where
  "register_runner register hash cfg_token rid now token q bootstrap s =
     (if \<not> str_true cfg_token then Inl (ServiceError ''RUNNER_REGISTRATION_DISABLED'' 503)
      else if \<not> str_true bootstrap \<or> bootstrap \<noteq> cfg_token
      then Inl (ServiceError ''RUNNER_TOKEN_INVALID'' 401)
      else case register rid now q (hash token) s of
          Inl (SaveFailed e) \<Rightarrow> Inl (Raised e)
        | Inl _ \<Rightarrow> Inl (ServiceError ''RUNNER_ALREADY_REGISTERED'' 409)
        | Inr (entry, s') \<Rightarrow> Inr ((rr_id entry, token), s'))"

definition verify_runner_token ::
  "(uuid \<Rightarrow> 's \<Rightarrow> string option) \<Rightarrow> (string \<Rightarrow> string) \<Rightarrow> uuid \<Rightarrow> string option \<Rightarrow> 's \<Rightarrow> service_error + unit" where
  "verify_runner_token token_hash hash rid token s =
     (if \<not> str_true token then Inl (ServiceError ''RUNNER_TOKEN_INVALID'' 401)
      else case token_hash rid s of
          None \<Rightarrow> Inl (ServiceError ''RUNNER_NOT_FOUND'' 404)
        | Some stored \<Rightarrow> if hash (the token) \<noteq> stored then Inl (ServiceError ''RUNNER_TOKEN_INVALID'' 401)
                         else Inr ())"

definition runner_heartbeat_op ::
  "(uuid \<Rightarrow> 's \<Rightarrow> string option)
   \<Rightarrow> (uuid \<Rightarrow> string \<Rightarrow> int \<Rightarrow> string list option \<Rightarrow> time \<Rightarrow> 's \<Rightarrow> runner_registration option \<times> 's)
   \<Rightarrow> (string \<Rightarrow> string) \<Rightarrow> time \<Rightarrow> uuid \<Rightarrow> runner_heartbeat \<Rightarrow> string option \<Rightarrow> 's
   \<Rightarrow> service_error + (runner_registration \<times> 's)" where
  "runner_heartbeat_op token_hash heartbeat hash now rid p token s =
     (case verify_runner_token token_hash hash rid token s of
        Inl e \<Rightarrow> Inl e
      | Inr _ \<Rightarrow> (case heartbeat rid (hb_status p) (hb_load p) (hb_capabilities p) now s of
            (None, s') \<Rightarrow> Inl (ServiceError ''RUNNER_NOT_FOUND'' 404)
          | (Some e, s') \<Rightarrow> Inr (e, s')))"

definition runner_deregister_op ::
  "(uuid \<Rightarrow> 's \<Rightarrow> string option) \<Rightarrow> (uuid \<Rightarrow> 's \<Rightarrow> bool \<times> 's) \<Rightarrow> (string \<Rightarrow> string) \<Rightarrow> uuid
   \<Rightarrow> string option \<Rightarrow> 's \<Rightarrow> service_error + 's" where
  "runner_deregister_op token_hash deregister hash rid token s =
     (case verify_runner_token token_hash hash rid token s of
        Inl e \<Rightarrow> Inl e
      | Inr _ \<Rightarrow> (case deregister rid s of
            (False, s') \<Rightarrow> Inl (ServiceError ''RUNNER_NOT_FOUND'' 404)
          | (True, s') \<Rightarrow> Inr s'))"

definition select_ready_runner ::
  "(string list option \<Rightarrow> 's \<Rightarrow> runner_registration list) \<Rightarrow> string list \<Rightarrow> 's \<Rightarrow> runner_registration option" where
  "select_ready_runner list_ready caps s = min_by rr_load (list_ready (Some caps) s)"

definition prune_stale_runners ::
  "(time \<Rightarrow> time \<Rightarrow> 's \<Rightarrow> uuid list \<times> 's) \<Rightarrow> time \<Rightarrow> time \<Rightarrow> 's \<Rightarrow> nat \<times> 's" where
  "prune_stale_runners expire_stale now timeout s = (case expire_stale now timeout s of
     (expired, s') \<Rightarrow> (length expired, s'))"

section \<open>The interface\<close>

text \<open>A registry is a map from identities to registrations with a token hash for each.\<close>

locale runner_registry =
  fixes register :: "uuid \<Rightarrow> time \<Rightarrow> runner_registration_request \<Rightarrow> string \<Rightarrow> 's
      \<Rightarrow> registry_conflict + (runner_registration \<times> 's)"
    and heartbeat :: "uuid \<Rightarrow> string \<Rightarrow> int \<Rightarrow> string list option \<Rightarrow> time \<Rightarrow> 's \<Rightarrow> runner_registration option \<times> 's"
    and deregister :: "uuid \<Rightarrow> 's \<Rightarrow> bool \<times> 's"
    and get :: "uuid \<Rightarrow> 's \<Rightarrow> runner_registration option"
    and token_hash :: "uuid \<Rightarrow> 's \<Rightarrow> string option"
    and list_ready :: "string list option \<Rightarrow> 's \<Rightarrow> runner_registration list"
    and expire_stale :: "time \<Rightarrow> time \<Rightarrow> 's \<Rightarrow> uuid list \<times> 's"
    and invar :: "'s \<Rightarrow> bool"
  assumes register_ok: "invar s \<Longrightarrow> get rid s = None \<Longrightarrow> register rid now q h s = Inr (e, s') \<Longrightarrow>
        invar s' \<and> e = new_registration rid now q
        \<and> get k s' = (if k = rid then Some e else get k s)
        \<and> token_hash k s' = (if k = rid then Some h else token_hash k s)"
    and register_ready: "invar s \<Longrightarrow> register rid now q h s = Inr (e, s') \<Longrightarrow> get k s = Some r \<Longrightarrow>
        rr_status r = ''READY'' \<Longrightarrow> (rr_provider r, rr_endpoint r) \<noteq> (rq_provider q, rq_endpoint q)"
    and heartbeat_ok: "invar s \<Longrightarrow> heartbeat rid st ld cs now s = (res, s') \<Longrightarrow>
        invar s' \<and> res = map_option (beat st ld cs now) (get rid s)
        \<and> get k s' = (if k = rid then res else get k s) \<and> token_hash k s' = token_hash k s"
    and deregister_ok: "invar s \<Longrightarrow> deregister rid s = (ok, s') \<Longrightarrow>
        invar s' \<and> ok = (get rid s \<noteq> None)
        \<and> get k s' = (if k = rid then None else get k s)
        \<and> token_hash k s' = (if k = rid then None else token_hash k s)"
    and ready_iff: "invar s \<Longrightarrow> r \<in> set (list_ready caps s) \<longleftrightarrow>
        get (rr_id r) s = Some r \<and> rr_status r = ''READY'' \<and> covers caps r"
    and expire_ok: "invar s \<Longrightarrow> expire_stale now timeout s = (stale, s') \<Longrightarrow>
        invar s' \<and> (k \<in> set stale \<longleftrightarrow> (\<exists>r. get k s = Some r \<and> rr_last_heartbeat_at r < now - timeout))
        \<and> get k s' = (if k \<in> set stale then None else get k s)
        \<and> token_hash k s' = (if k \<in> set stale then None else token_hash k s)"
    and token_domain: "invar s \<Longrightarrow> token_hash k s = None \<longleftrightarrow> get k s = None"
begin

text \<open>A runner that registered answers to its own token and to no token with another hash.\<close>

lemma registered_token:
  assumes "invar s" "get rid s = None" "token \<noteq> []"
    "register_runner register hash cfg rid now token q boot s = Inr (res, s')"
  shows "res = (rid, token) \<and> str_true cfg \<and> boot = cfg
    \<and> (verify_runner_token token_hash hash rid (Some t) s' = Inr () \<longleftrightarrow> t \<noteq> [] \<and> hash t = hash token)"
proof -
  from assms(4) obtain e where r: "register rid now q (hash token) s = Inr (e, s')" and "res = (rr_id e, token)"
    "str_true cfg" "boot = cfg"
    by (auto simp: register_runner_def split: if_splits sum.splits registry_conflict.splits)
  moreover from register_ok [OF assms(1,2) r, of rid] have "token_hash rid s' = Some (hash token)"
    "rr_id e = rid" by (auto simp: new_registration_def)
  ultimately show ?thesis using assms(3) by (auto simp: verify_runner_token_def str_true_def)
qed

text \<open>An accepted heartbeat was authenticated, and changes that one entry.\<close>

lemma heartbeat_authenticated:
  assumes "invar s" "runner_heartbeat_op token_hash heartbeat hash now rid p token s = Inr (e, s')"
  shows "\<exists>t h r. token = Some t \<and> token_hash rid s = Some h \<and> hash t = h \<and> get rid s = Some r
    \<and> e = beat (hb_status p) (hb_load p) (hb_capabilities p) now r \<and> invar s'
    \<and> get k s' = (if k = rid then Some e else get k s)"
proof -
  from assms(2) obtain t where t: "token = Some t" "token_hash rid s = Some (hash t)"
    and b: "heartbeat rid (hb_status p) (hb_load p) (hb_capabilities p) now s = (Some e, s')"
    by (auto simp: runner_heartbeat_op_def verify_runner_token_def str_true_def
        split: sum.splits option.splits if_splits prod.splits)
  from heartbeat_ok [OF assms(1) b, of k] t show ?thesis by (cases "get rid s") auto
qed

text \<open>The least loaded of the ready runners that cover the capabilities, if there is one.\<close>

lemma select_least:
  assumes "invar s"
  shows "case select_ready_runner list_ready caps s of
      None \<Rightarrow> \<not> (\<exists>k r. get k s = Some r \<and> rr_id r = k \<and> rr_status r = ''READY'' \<and> set caps \<subseteq> set (rr_capabilities r))
    | Some e \<Rightarrow> get (rr_id e) s = Some e \<and> rr_status e = ''READY'' \<and> set caps \<subseteq> set (rr_capabilities e)
        \<and> (\<forall>r. get (rr_id r) s = Some r \<and> rr_status r = ''READY'' \<and> set caps \<subseteq> set (rr_capabilities r)
              \<longrightarrow> rr_load e \<le> rr_load r)"
proof (cases "select_ready_runner list_ready caps s")
  case None
  then have "\<not> r \<in> set (list_ready (Some caps) s)" for r by (simp add: select_ready_runner_def)
  with None show ?thesis by (auto simp: ready_iff [OF assms] covers_def)
next
  case (Some e)
  then have "e \<in> set (list_ready (Some caps) s) \<and> (\<forall>r\<in>set (list_ready (Some caps) s). rr_load e \<le> rr_load r)"
    by (intro min_by_Some) (simp add: select_ready_runner_def)
  then have e: "e \<in> set (list_ready (Some caps) s)"
    and least: "\<And>r. r \<in> set (list_ready (Some caps) s) \<Longrightarrow> rr_load e \<le> rr_load r" by auto
  show ?thesis using e least by (simp add: Some ready_iff [OF assms] covers_def)
qed

text \<open>After a pruning pass every runner left has a recent heartbeat and none of those was dropped.\<close>

lemma pruned:
  assumes "invar s" "prune_stale_runners expire_stale now timeout s = (n, s')"
  shows "get k s' = (case get k s of None \<Rightarrow> None
      | Some r \<Rightarrow> if rr_last_heartbeat_at r < now - timeout then None else Some r)"
proof -
  from assms(2) obtain stale where "expire_stale now timeout s = (stale, s')"
    by (auto simp: prune_stale_runners_def split: prod.splits)
  from expire_ok [OF assms(1) this, of k] show ?thesis by (auto split: option.splits)
qed

end

section \<open>Both registries meet the interface\<close>

definition mem_inv :: "mem_registry \<Rightarrow> bool" where
  "mem_inv s = (distinct (map fst (mr_registrations s)) \<and> distinct (map fst (mr_token_hashes s))
     \<and> fst ` set (mr_registrations s) = fst ` set (mr_token_hashes s)
     \<and> list_all (\<lambda>(k, e). rr_id e = k) (mr_registrations s))"

lemma rr_id_beat [simp]: "rr_id (beat st ld cs now e) = rr_id e"
  by (simp add: beat_def)

lemma rr_id_new [simp]: "rr_id (new_registration rid now q) = rid"
  by (simp add: new_registration_def)

lemma mem_inv_get: "mem_inv s \<Longrightarrow> (k, e) \<in> set (mr_registrations s) \<longleftrightarrow> mem_get k s = Some e"
  by (simp add: mem_inv_def mem_get_def)

lemma mem_inv_id: "mem_inv s \<Longrightarrow> mem_get k s = Some e \<Longrightarrow> rr_id e = k"
  by (auto simp: mem_inv_get [symmetric]) (auto simp: mem_inv_def list_all_iff)

lemma list_all_update:
  "list_all P xs \<Longrightarrow> P (k, v) \<Longrightarrow> list_all P (AList.update k v xs)"
  by (induction xs) auto

lemma list_all_delete: "list_all P xs \<Longrightarrow> list_all P (AList.delete k xs)"
  by (induction xs) auto

lemma mem_inv_update:
  assumes "mem_inv s" "rr_id e = k"
  shows "mem_inv (s\<lparr>mr_registrations := AList.update k e (mr_registrations s),
                   mr_token_hashes := AList.update k h (mr_token_hashes s)\<rparr>)"
  using assms by (simp add: mem_inv_def distinct_update dom_update list_all_update)

lemma mem_deregister_step:
  assumes "mem_inv s"
  shows "mem_inv (snd (mem_deregister rid s))"
    "mem_get k (snd (mem_deregister rid s)) = (if k = rid then None else mem_get k s)"
    "mem_token_hash k (snd (mem_deregister rid s)) = (if k = rid then None else mem_token_hash k s)"
proof -
  show "mem_inv (snd (mem_deregister rid s))"
    using assms 
    by (auto simp: mem_deregister_def mem_inv_def fst_set_delete AList.distinct_delete list_all_delete)
  show "mem_get k (snd (mem_deregister rid s)) = (if k = rid then None else mem_get k s)"
    "mem_token_hash k (snd (mem_deregister rid s)) = (if k = rid then None else mem_token_hash k s)"
    by (simp_all add: mem_deregister_def mem_get_def mem_token_hash_def AList.delete_conv')
qed

lemma mem_deregister_fold:
  assumes "mem_inv s"
  shows "mem_inv (fold (\<lambda>k s. snd (mem_deregister k s)) ks s)
    \<and> mem_get k (fold (\<lambda>k s. snd (mem_deregister k s)) ks s) = (if k \<in> set ks then None else mem_get k s)
    \<and> mem_token_hash k (fold (\<lambda>k s. snd (mem_deregister k s)) ks s) =
        (if k \<in> set ks then None else mem_token_hash k s)"
  using assms by (induction ks arbitrary: s) (auto simp: mem_deregister_step)

interpretation mem_reg: runner_registry mem_register mem_heartbeat mem_deregister mem_get mem_token_hash
  mem_list_ready mem_expire_stale mem_inv
proof (unfold_locales, goal_cases)
  case (1 s rid now q h e s' k)
  then have e: "e = new_registration rid now q"
    and s': "s' = s\<lparr>mr_registrations := AList.update rid e (mr_registrations s),
                   mr_token_hashes := AList.update rid h (mr_token_hashes s)\<rparr>"
    by (auto simp: mem_register_def Let_def split: option.splits)
  then show ?case using mem_inv_update [OF 1(1), of e rid h]
    by (auto simp: mem_get_def mem_token_hash_def update_conv')
next
  case (2 s rid now q h e s' k r)
  then have "find (\<lambda>e. rr_endpoint e = rq_endpoint q \<and> rr_provider e = rq_provider q)
      (map snd (mr_registrations s)) = None"
    by (auto simp: mem_register_def mem_existing_runner_id_def split: option.splits)
  moreover have "r \<in> set (map snd (mr_registrations s))"
    using 2(3) mem_inv_get [OF 2(1), of k r] by force
  ultimately show ?case by (auto simp: find_None_iff)
next
  case (3 s rid st ld cs now res s' k)
  show ?case
  proof (cases "mem_get rid s")
    case None
    with 3 show ?thesis by (auto simp: mem_heartbeat_def mem_get_def)
  next
    case (Some e)
    have id: "rr_id e = rid" by (rule mem_inv_id [OF 3(1) Some])
    have dom: "rid \<in> fst ` set (mr_registrations s)"
      using Some mem_inv_get [OF 3(1), of rid e] by force
    have "mem_inv (s\<lparr>mr_registrations := AList.update rid (beat st ld cs now e) (mr_registrations s)\<rparr>)"
      using 3(1) id dom by (auto simp: mem_inv_def distinct_update dom_update list_all_update)
    with Some 3(2) show ?thesis
      by (auto simp: mem_heartbeat_def mem_get_def mem_token_hash_def update_conv')
  qed
next
  case (4 s rid ok s' k)
  then have "s' = snd (mem_deregister rid s)" "ok = (mem_get rid s \<noteq> None)"
    by (auto simp: mem_deregister_def mem_get_def)
  then show ?case using mem_deregister_step [OF 4(1)] by simp
next
  case (5 s r caps)
  have "r \<in> snd ` set (mr_registrations s) \<longleftrightarrow> mem_get (rr_id r) s = Some r"
  proof -
    have "r \<in> snd ` set (mr_registrations s) \<longleftrightarrow> (\<exists>k. (k, r) \<in> set (mr_registrations s))" by force
    also have "\<dots> \<longleftrightarrow> (\<exists>k. mem_get k s = Some r)" by (simp only: mem_inv_get [OF 5])
    finally show ?thesis using mem_inv_id [OF 5] by blast
  qed
  then show ?case by (auto simp: mem_list_ready_def)
next
  case (6 s now timeout stale s' k)
  then have st: "stale = map fst (filter (\<lambda>(k, e). rr_last_heartbeat_at e < now - timeout) (mr_registrations s))"
    and s': "s' = fold (\<lambda>k s. snd (mem_deregister k s)) stale s"
    by (auto simp: mem_expire_stale_def Let_def)
  have "k \<in> set stale \<longleftrightarrow> (\<exists>r. mem_get k s = Some r \<and> rr_last_heartbeat_at r < now - timeout)"
    by (force simp: st mem_inv_get [OF 6(1), symmetric])
  then show ?case using mem_deregister_fold [OF 6(1), of stale k] by (simp add: s')
next
  case (7 s k)
  then show ?case by (simp add: mem_inv_def mem_get_def mem_token_hash_def map_of_eq_None_iff)
qed

abbreviation sql_reg_inv :: "db \<Rightarrow> bool" where
  "sql_reg_inv d \<equiv> keyed runner_row_id (t_runners d)"

interpretation sql_reg: runner_registry sql_register update_runner_registration delete_runner_registration
  get_runner_registration get_runner_registration_hash sql_list_ready expire_runner_registrations sql_reg_inv
proof (unfold_locales, goal_cases)
  case (1 d rid now q h e d' k)
  then have new: "db_get runner_row_id rid (t_runners d) = None" by (simp add: get_runner_registration_def)
  with 1 have e: "e = new_registration rid now q"
    and d': "t_runners d' = t_runners d @ [\<lparr>rn_registration = e, rn_token_hash = h\<rparr>]"
    by (auto simp: sql_register_def save_runner_registration_def Let_def split: list.splits sum.splits db_error.splits)
  have "rid \<notin> runner_row_id ` set (t_runners d)" using new by (simp add: db_get_None)
  with 1(1) have "keyed runner_row_id (t_runners d')" by (simp add: d' keyed_def e)
  then show ?case using new
    by (simp add: e d' get_runner_registration_def get_runner_registration_hash_def db_get_append db_get_Cons
        split: option.splits)
next
  case (2 d rid now q h e d' k r)
  then have "filter (\<lambda>e. rr_provider e = rq_provider q \<and> rr_endpoint e = rq_endpoint q)
             (list_ready_runner_registrations d) = []"
    by (auto simp: sql_register_def split: list.splits)
  moreover have "r \<in> set (list_ready_runner_registrations d)"
    using 2(3,4) by (auto simp: get_runner_registration_def list_ready_runner_registrations_def dest!: db_get_SomeD)
  ultimately show ?case by (auto simp: filter_empty_conv)
next
  case (3 d rid st ld cs now res d' k)
  show ?case
  proof (cases "db_get runner_row_id rid (t_runners d)")
    case None
    with 3 show ?thesis by (auto simp: update_runner_registration_def get_runner_registration_def)
  next
    case (Some r)
    let ?f = "\<lambda>r. r\<lparr>rn_registration := beat st ld cs now (rn_registration r)\<rparr>"
    have "keyed runner_row_id (db_set runner_row_id rid ?f (t_runners d))" using 3(1) by (auto intro: keyed_set)
    with Some 3(2) show ?thesis
      by (auto simp: update_runner_registration_def get_runner_registration_def get_runner_registration_hash_def
          db_get_set option.map_comp comp_def)
  qed
next
  case (4 d rid ok d' k)
  show ?case
    using 4 keyed_del [OF 4(1)]
    by (auto simp: delete_runner_registration_def get_runner_registration_def get_runner_registration_hash_def db_get_del
        split: option.splits)
next
  case (5 d r caps)
  have "r \<in> rn_registration ` set (t_runners d) \<longleftrightarrow> get_runner_registration (rr_id r) d = Some r"
    by (auto simp: get_runner_registration_def db_get_iff [OF 5])
  then show ?case by (auto simp: sql_list_ready_def list_ready_runner_registrations_def)
next
  case (6 d now timeout stale d' k)
  then have st: "stale = map runner_row_id (filter (\<lambda>r. rr_last_heartbeat_at (rn_registration r) < now - timeout)
      (t_runners d))" and d': "t_runners d' = db_del (\<lambda>r. runner_row_id r \<in> set stale) (t_runners d)"
    by (auto simp: expire_runner_registrations_def Let_def)
  have "k \<in> set stale \<longleftrightarrow> (\<exists>r. get_runner_registration k d = Some r \<and> rr_last_heartbeat_at r < now - timeout)"
    by (auto simp: st get_runner_registration_def db_get_iff [OF 6(1)])
  moreover have "get_runner_registration k d' = (if k \<in> set stale then None else get_runner_registration k d)"
    "get_runner_registration_hash k d' = (if k \<in> set stale then None else get_runner_registration_hash k d)"
    by (simp_all add: d' get_runner_registration_def get_runner_registration_hash_def db_get_del(2))
  moreover have "sql_reg_inv d'" using keyed_del [OF 6(1)] by (simp add: d')
  ultimately show ?case by blast
next
  case (7 d k)
  then show ?case by (simp add: get_runner_registration_def get_runner_registration_hash_def)
qed

section \<open>Properties\<close>

text \<open>C8. Registration authenticates a runner. It is granted only to the holder of the configured bootstrap
  token; afterwards the shared registry accepts for that identity exactly the non-empty tokens whose hash is
  the hash of the secret that the registration handed out.\<close>

theorem register_runner_token:
  assumes "sql_reg_inv d" "get_runner_registration rid d = None" "token \<noteq> []"
    and "register_runner sql_register hash cfg rid now token q boot d = Inr (res, d')"
  shows "res = (rid, token) \<and> str_true cfg \<and> boot = cfg
    \<and> (verify_runner_token get_runner_registration_hash hash rid (Some t) d' = Inr ()
        \<longleftrightarrow> t \<noteq> [] \<and> hash t = hash token)"
  using assms by (rule sql_reg.registered_token)

definition demo_request :: runner_registration_request where
  "demo_request = \<lparr>rq_provider = ''trae'', rq_endpoint = ''http://r1'', rq_version = ''0.1.0'',
     rq_capabilities = [''run'', ''cancel''], rq_metadata = []\<rparr>"

theorem register_runner_token_witness:
  "\<exists>res d'. register_runner sql_register rev (Some ''boot'') ''r1'' 5 ''secret'' demo_request (Some ''boot'') empty_db
      = Inr (res, d')
    \<and> verify_runner_token get_runner_registration_hash rev ''r1'' (Some ''secret'') d' = Inr ()
    \<and> verify_runner_token get_runner_registration_hash rev ''r1'' (Some ''guess'') d' \<noteq> Inr ()"
proof -
  obtain res d' where r: "register_runner sql_register rev (Some ''boot'') ''r1'' 5 ''secret'' demo_request
      (Some ''boot'') empty_db = Inr (res, d')"
    by (simp add: register_runner_def str_true_def sql_register_def list_ready_runner_registrations_def
        save_runner_registration_def Let_def)
  have "sql_reg_inv empty_db" "get_runner_registration ''r1'' empty_db = None" "''secret'' \<noteq> []"
    by (simp_all add: get_runner_registration_def)
  from register_runner_token [OF this r, of "''secret''"] register_runner_token [OF this r, of "''guess''"] r
  show ?thesis by auto
qed

text \<open>Runner selection is least-loaded first: the runner selected for a set of capabilities is registered,
  ready, covers them all and no such runner has a smaller load; nothing is selected only when there is none.\<close>

theorem select_ready_runner_least:
  assumes "mem_inv s"
  shows "case select_ready_runner mem_list_ready caps s of
      None \<Rightarrow> \<not> (\<exists>k r. mem_get k s = Some r \<and> rr_id r = k \<and> rr_status r = ''READY''
          \<and> set caps \<subseteq> set (rr_capabilities r))
    | Some e \<Rightarrow> mem_get (rr_id e) s = Some e \<and> rr_status e = ''READY'' \<and> set caps \<subseteq> set (rr_capabilities e)
        \<and> (\<forall>r. mem_get (rr_id r) s = Some r \<and> rr_status r = ''READY'' \<and> set caps \<subseteq> set (rr_capabilities r)
              \<longrightarrow> rr_load e \<le> rr_load r)"
  using assms by (rule mem_reg.select_least)

definition demo_registry :: mem_registry where
  "demo_registry = \<lparr>mr_registrations = [(''r1'', (new_registration ''r1'' 1 demo_request)\<lparr>rr_load := 4\<rparr>),
     (''r2'', new_registration ''r2'' 2 demo_request)], mr_token_hashes = [(''r1'', ''h1''), (''r2'', ''h2'')]\<rparr>"

theorem select_ready_runner_least_witness:
  "select_ready_runner mem_list_ready [''run''] demo_registry = Some (new_registration ''r2'' 2 demo_request)
   \<and> mem_get ''r2'' demo_registry = Some (new_registration ''r2'' 2 demo_request)"
proof -
  have "mem_inv demo_registry" by (simp add: mem_inv_def demo_registry_def new_registration_def)
  moreover have "select_ready_runner mem_list_ready [''run''] demo_registry =
      Some (new_registration ''r2'' 2 demo_request)"
    by (simp add: select_ready_runner_def mem_list_ready_def demo_registry_def covers_def new_registration_def
        demo_request_def)
  ultimately show ?thesis using select_ready_runner_least [of demo_registry "[''run'']"] by simp
qed

text \<open>Heartbeat expiry is exact: after a pass of the reconciler a runner is registered if and only if it was
  and its last heartbeat is no older than the timeout.\<close>

theorem prune_stale_runners_exact:
  assumes "sql_reg_inv d" "prune_stale_runners expire_runner_registrations now timeout d = (n, d')"
  shows "get_runner_registration k d' = (case get_runner_registration k d of None \<Rightarrow> None
      | Some r \<Rightarrow> if rr_last_heartbeat_at r < now - timeout then None else Some r)"
  using assms by (rule sql_reg.pruned)

theorem prune_stale_runners_exact_witness:
  "\<exists>n d'. prune_stale_runners expire_runner_registrations 100 10
       (empty_db\<lparr>t_runners := [\<lparr>rn_registration = new_registration ''r1'' 5 demo_request, rn_token_hash = ''h''\<rparr>]\<rparr>)
       = (n, d') \<and> get_runner_registration ''r1'' d' = None"
proof -
  let ?d = "empty_db\<lparr>t_runners := [\<lparr>rn_registration = new_registration ''r1'' 5 demo_request, rn_token_hash = ''h''\<rparr>]\<rparr>"
  obtain n d' where p: "prune_stale_runners expire_runner_registrations 100 10 ?d = (n, d')" by fastforce
  have "sql_reg_inv ?d" by (simp add: keyed_def)
  from prune_stale_runners_exact [OF this p, of "''r1''"] p show ?thesis
    by (auto simp: get_runner_registration_def db_get_Cons new_registration_def)
qed

text \<open>The two registries disagree on a runner that is registered but not ready, for example draining:
  the in-memory one refuses a second registration of the same provider and endpoint, the shared one
  accepts it, because it looks for a conflict among the ready runners only.\<close>

theorem registries_differ_when_not_ready:
  assumes "rr_provider e = rq_provider q" "rr_endpoint e = rq_endpoint q" "rr_status e \<noteq> ''READY''" "rr_id e \<noteq> rid"
  shows "mem_register rid now q h \<lparr>mr_registrations = [(rr_id e, e)], mr_token_hashes = [(rr_id e, h0)]\<rparr> =
      Inl (AlreadyRegistered (rr_id e))
    \<and> (\<exists>d'. sql_register rid now q h (d\<lparr>t_runners := [\<lparr>rn_registration = e, rn_token_hash = h0\<rparr>]\<rparr>) =
        Inr (new_registration rid now q, d'))"
  using assms
  by (simp add: mem_register_def mem_existing_runner_id_def sql_register_def list_ready_runner_registrations_def
      save_runner_registration_def Let_def db_get_Cons)

theorem registries_differ_when_not_ready_witness:
  "\<exists>d'. sql_register ''r2'' 9 demo_request ''h2'' (empty_db\<lparr>t_runners := [\<lparr>rn_registration =
      (new_registration ''r1'' 1 demo_request)\<lparr>rr_status := ''DRAINING''\<rparr>, rn_token_hash = ''h1''\<rparr>]\<rparr>) =
      Inr (new_registration ''r2'' 9 demo_request, d')"
  using registries_differ_when_not_ready [of "(new_registration ''r1'' 1 demo_request)\<lparr>rr_status := ''DRAINING''\<rparr>"
      demo_request "''r2''" 9 "''h2''" "''h1''" empty_db]
  by (simp add: new_registration_def)

end
