(* ===== verification/Tool_Gateway.thy ===== *)
theory Tool_Gateway
  imports Prelude
begin

text \<open>
  Tool authorization and execution: the deterministic control plane of
  \<open>agent_runner_contracts/tools.py\<close> and the executor of \<open>session_runner/tools/gateway.py\<close>. A batch of
  calls is authorized as a whole, bound to its hash, and executed with one cached result per call id.
  \<open>digest\<close> stands for the hexadecimal SHA-256 of a string and \<open>bhash\<close> for the hash of a batch; a tool handler
  is a function of the arguments and the world it acts on.
\<close>

section \<open>Definitions\<close>

datatype approval_decision = APPROVE_ONCE | REJECT

datatype authorization_status = APPROVED | REQUIRES_APPROVAL | DENIED

record tool_descriptor =
  td_name :: string
  td_version :: string
  td_requires_approval :: bool
  td_description :: string

record tool_call =
  tc_id :: string
  tc_name :: string
  tc_arguments :: obj

type_synonym tool_batch = "tool_call list"

record authorization =
  au_status :: authorization_status
  au_batch_hash :: string
  au_approval_id :: "string option"
  au_reason :: "string option"

record tool_result =
  tr_call_id :: string
  tr_name :: string
  tr_success :: bool
  tr_output :: json
  tr_error :: "string option"

record gateway_policy =
  gp_allowed_tools :: "string list"
  gp_approval_required_tools :: "string list"

datatype gateway_error = HashMismatch | ApprovalMissing | MissingKey string | Invalid

text \<open>Python's rendering of a list of names without quotes in them.\<close>

definition repr_names :: "string list \<Rightarrow> string" where
  "repr_names ns = ''['' @ py_join '', '' (map (\<lambda>n. [CHR 0x27] @ n @ [CHR 0x27]) ns) @ '']''"

text \<open>The dictionary of descriptors keeps the last one of a name.\<close>

definition descriptor_table :: "tool_descriptor list \<Rightarrow> (string \<times> tool_descriptor) list" where
  "descriptor_table ds = fold (\<lambda>d t. AList.update (td_name d) d t) ds []"

definition authorize :: "(string \<Rightarrow> string) \<Rightarrow> (tool_batch \<Rightarrow> string) \<Rightarrow> (string \<times> tool_descriptor) list
    \<Rightarrow> gateway_policy \<Rightarrow> tool_batch \<Rightarrow> authorization" where
  "authorize digest bhash table policy batch =
     (let unknown = filter (\<lambda>n. map_of table n = None) (map tc_name batch);
          denied = filter (\<lambda>n. n \<notin> set (gp_allowed_tools policy)) (map tc_name batch) in
      if unknown \<noteq> [] \<or> denied \<noteq> []
      then \<lparr>au_status = DENIED, au_batch_hash = bhash batch, au_approval_id = None,
            au_reason = Some (''tools are not authorized: '' @ repr_names (sort (dedup (unknown @ denied))))\<rparr>
      else if list_ex (\<lambda>c. (case map_of table (tc_name c) of None \<Rightarrow> False | Some d \<Rightarrow> td_requires_approval d)
                         \<or> tc_name c \<in> set (gp_approval_required_tools policy)) batch
      then \<lparr>au_status = REQUIRES_APPROVAL, au_batch_hash = bhash batch,
            au_approval_id = Some (take 32 (digest (''approval:'' @ bhash batch))), au_reason = None\<rparr>
      else \<lparr>au_status = APPROVED, au_batch_hash = bhash batch, au_approval_id = None, au_reason = None\<rparr>)"

text \<open>A handler returns its output or the text of the exception it raised, and the world after it.\<close>

type_synonym 'w handler = "obj \<Rightarrow> 'w \<Rightarrow> (string + json) \<times> 'w"

definition execute_call :: "(string \<Rightarrow> 'w handler option) \<Rightarrow> tool_call \<Rightarrow> 'w \<Rightarrow> tool_result \<times> 'w" where
  "execute_call handlers c w = (case handlers (tc_name c) of
       None \<Rightarrow> (\<lparr>tr_call_id = tc_id c, tr_name = tc_name c, tr_success = False, tr_output = JNull,
                  tr_error = Some ''tool handler is unavailable''\<rparr>, w)
     | Some h \<Rightarrow> (case h (tc_arguments c) w of
           (Inr out, w') \<Rightarrow> (\<lparr>tr_call_id = tc_id c, tr_name = tc_name c, tr_success = True,
                               tr_output = out, tr_error = None\<rparr>, w')
         | (Inl e, w') \<Rightarrow> (\<lparr>tr_call_id = tc_id c, tr_name = tc_name c, tr_success = False,
                               tr_output = JNull, tr_error = Some e\<rparr>, w')))"

definition rejected :: "tool_batch \<Rightarrow> string \<Rightarrow> tool_result list" where
  "rejected batch why = map (\<lambda>c. \<lparr>tr_call_id = tc_id c, tr_name = tc_name c, tr_success = False,
     tr_output = JNull, tr_error = Some why\<rparr>) batch"

text \<open>The cache of results by call id, and the world.\<close>

type_synonym 'w gateway = "(string \<times> tool_result) list \<times> 'w"

fun execute_calls :: "(string \<Rightarrow> 'w handler option) \<Rightarrow> tool_batch \<Rightarrow> 'w gateway \<Rightarrow> tool_result list \<times> 'w gateway" where
  "execute_calls handlers [] g = ([], g)"
| "execute_calls handlers (c # cs) (cache, w) = (case map_of cache (tc_id c) of
       Some r \<Rightarrow> (case execute_calls handlers cs (cache, w) of (rs, g) \<Rightarrow> (r # rs, g))
     | None \<Rightarrow> (case execute_call handlers c w of (r, w') \<Rightarrow>
         (case execute_calls handlers cs (AList.update (tc_id c) r cache, w') of (rs, g) \<Rightarrow> (r # rs, g))))"

definition execute :: "(tool_batch \<Rightarrow> string) \<Rightarrow> (string \<Rightarrow> 'w handler option) \<Rightarrow> tool_batch \<Rightarrow> authorization
    \<Rightarrow> approval_decision option \<Rightarrow> 'w gateway \<Rightarrow> gateway_error + (tool_result list \<times> 'w gateway)" where
  "execute bhash handlers batch auth decision g =
     (if au_batch_hash auth \<noteq> bhash batch then Inl HashMismatch
      else if au_status auth = DENIED
      then Inr (rejected batch (if str_true (au_reason auth) then the (au_reason auth)
                                else ''tool authorization denied''), g)
      else if au_status auth = REQUIRES_APPROVAL \<and> decision = None then Inl ApprovalMissing
      else if au_status auth = REQUIRES_APPROVAL \<and> decision = Some REJECT
      then Inr (rejected batch ''tool batch rejected by user'', g)
      else Inr (execute_calls handlers batch g))"

section \<open>Dumps\<close>

fun status_value :: "authorization_status \<Rightarrow> string" where
  "status_value APPROVED = ''APPROVED''"
| "status_value REQUIRES_APPROVAL = ''REQUIRES_APPROVAL''"
| "status_value DENIED = ''DENIED''"

definition status_of :: "string \<Rightarrow> authorization_status option" where
  "status_of s = find (\<lambda>st. status_value st = s) [APPROVED, REQUIRES_APPROVAL, DENIED]"

definition opt_json :: "string option \<Rightarrow> json" where
  "opt_json s = (case s of None \<Rightarrow> JNull | Some t \<Rightarrow> JStr t)"

definition call_dump :: "tool_call \<Rightarrow> json" where
  "call_dump c = JObj [(''call_id'', JStr (tc_id c)), (''name'', JStr (tc_name c)), (''arguments'', JObj (tc_arguments c))]"

definition batch_dump :: "tool_batch \<Rightarrow> json" where
  "batch_dump b = JObj [(''calls'', JArr (map call_dump b))]"

definition auth_dump :: "authorization \<Rightarrow> json" where
  "auth_dump a = JObj [(''status'', JStr (status_value (au_status a))), (''batch_hash'', JStr (au_batch_hash a)),
     (''approval_id'', opt_json (au_approval_id a)), (''reason'', opt_json (au_reason a))]"

text \<open>\<open>model_validate\<close>: required and optional fields of the right types, other fields ignored.\<close>

definition str_field :: "obj \<Rightarrow> string \<Rightarrow> string option" where
  "str_field d k = (case map_of d k of Some (JStr s) \<Rightarrow> Some s | _ \<Rightarrow> None)"

definition opt_str_field :: "obj \<Rightarrow> string \<Rightarrow> string option option" where
  "opt_str_field d k = (case map_of d k of None \<Rightarrow> Some None | Some JNull \<Rightarrow> Some None
     | Some (JStr s) \<Rightarrow> Some (Some s) | _ \<Rightarrow> None)"

definition call_validate :: "json \<Rightarrow> tool_call option" where
  "call_validate j = (case j of JObj d \<Rightarrow>
       (case (str_field d ''call_id'', str_field d ''name'', map_of d ''arguments'') of
          (Some i, Some n, None) \<Rightarrow> Some \<lparr>tc_id = i, tc_name = n, tc_arguments = []\<rparr>
        | (Some i, Some n, Some (JObj a)) \<Rightarrow> Some \<lparr>tc_id = i, tc_name = n, tc_arguments = a\<rparr>
        | _ \<Rightarrow> None)
     | _ \<Rightarrow> None)"

fun all_some :: "'a option list \<Rightarrow> 'a list option" where
  "all_some [] = Some []"
| "all_some (None # xs) = None"
| "all_some (Some x # xs) = map_option ((#) x) (all_some xs)"

definition batch_validate :: "json \<Rightarrow> tool_batch option" where
  "batch_validate j = (case j of JObj d \<Rightarrow>
       (case map_of d ''calls'' of Some (JArr cs) \<Rightarrow> all_some (map call_validate cs) | _ \<Rightarrow> None)
     | _ \<Rightarrow> None)"

definition auth_validate :: "json \<Rightarrow> authorization option" where
  "auth_validate j = (case j of JObj d \<Rightarrow>
       (case (str_field d ''status'', str_field d ''batch_hash'', opt_str_field d ''approval_id'',
              opt_str_field d ''reason'') of
          (Some st, Some h, Some ai, Some why) \<Rightarrow>
            map_option (\<lambda>s. \<lparr>au_status = s, au_batch_hash = h, au_approval_id = ai, au_reason = why\<rparr>) (status_of st)
        | _ \<Rightarrow> None)
     | _ \<Rightarrow> None)"

definition gateway_checkpoint :: "(tool_batch \<Rightarrow> string) \<Rightarrow> tool_batch \<Rightarrow> authorization \<Rightarrow> gateway_error + obj" where
  "gateway_checkpoint bhash batch auth = (if au_batch_hash auth \<noteq> bhash batch then Inl HashMismatch
     else Inr [(''tool_batch'', batch_dump batch), (''tool_batch_hash'', JStr (bhash batch)),
               (''authorization'', auth_dump auth)])"

definition gateway_restore :: "(tool_batch \<Rightarrow> string) \<Rightarrow> obj \<Rightarrow> gateway_error + (tool_batch \<times> authorization)" where
  "gateway_restore bhash cp = (case map_of cp ''tool_batch'' of None \<Rightarrow> Inl (MissingKey ''tool_batch'') | Some jb \<Rightarrow>
     (case batch_validate jb of None \<Rightarrow> Inl Invalid | Some batch \<Rightarrow>
     (case map_of cp ''authorization'' of None \<Rightarrow> Inl (MissingKey ''authorization'') | Some ja \<Rightarrow>
     (case auth_validate ja of None \<Rightarrow> Inl Invalid | Some auth \<Rightarrow>
     (case map_of cp ''tool_batch_hash'' of None \<Rightarrow> Inl (MissingKey ''tool_batch_hash'') | Some expected \<Rightarrow>
        if JStr (bhash batch) \<noteq> expected \<or> JStr (au_batch_hash auth) \<noteq> expected then Inl HashMismatch
        else Inr (batch, auth))))))"

section \<open>Lemmas\<close>

lemma authorize_hash [simp]: "au_batch_hash (authorize digest bhash table policy batch) = bhash batch"
  by (simp add: authorize_def Let_def)

lemma authorize_status:
  "au_status (authorize digest bhash table policy batch) =
     (if list_all (\<lambda>c. map_of table (tc_name c) \<noteq> None \<and> tc_name c \<in> set (gp_allowed_tools policy)) batch
      then if list_ex (\<lambda>c. (case map_of table (tc_name c) of None \<Rightarrow> False | Some d \<Rightarrow> td_requires_approval d)
                \<or> tc_name c \<in> set (gp_approval_required_tools policy)) batch then REQUIRES_APPROVAL else APPROVED
      else DENIED)"
proof (cases "list_all (\<lambda>c. map_of table (tc_name c) \<noteq> None \<and> tc_name c \<in> set (gp_allowed_tools policy)) batch")
  case True
  then have "filter (\<lambda>n. map_of table n = None) (map tc_name batch) = []"
    "filter (\<lambda>n. n \<notin> set (gp_allowed_tools policy)) (map tc_name batch) = []"
    by (auto simp: filter_empty_conv list_all_iff)
  with True show ?thesis by (simp add: authorize_def Let_def)
next
  case False
  then have "filter (\<lambda>n. map_of table n = None) (map tc_name batch) \<noteq> []
      \<or> filter (\<lambda>n. n \<notin> set (gp_allowed_tools policy)) (map tc_name batch) \<noteq> []"
    by (auto simp: filter_empty_conv list_all_iff)
  with False show ?thesis by (auto simp: authorize_def Let_def)
qed

lemma execute_calls_grows:
  "execute_calls handlers cs (cache, w) = (rs, (cache', w')) \<Longrightarrow> map_of cache k = Some r \<Longrightarrow> map_of cache' k = Some r"
proof (induction cs arbitrary: cache w rs)
  case (Cons c cs)
  show ?case
  proof (cases "map_of cache (tc_id c)")
    case None
    then have "k \<noteq> tc_id c" using Cons.prems(2) by auto
    with None Cons show ?thesis by (auto simp: update_conv' split: prod.splits)
  next
    case (Some r')
    with Cons show ?thesis by (auto split: prod.splits)
  qed
qed auto

text \<open>Afterwards every call of the batch has its result in the cache.\<close>

lemma execute_calls_cached:
  "execute_calls handlers cs (cache, w) = (rs, (cache', w')) \<Longrightarrow> map (\<lambda>c. map_of cache' (tc_id c)) cs = map Some rs"
proof (induction cs arbitrary: cache w rs)
  case (Cons c cs)
  obtain r rs' where rs: "rs = r # rs'" and got: "map_of cache' (tc_id c) = Some r"
    and rest: "map (\<lambda>c. map_of cache' (tc_id c)) cs = map Some rs'"
  proof (cases "map_of cache (tc_id c)")
    case (Some r')
    then obtain rs' where "rs = r' # rs'" and e: "execute_calls handlers cs (cache, w) = (rs', (cache', w'))"
      using Cons.prems by (auto split: prod.splits)
    then show ?thesis using that Cons.IH [OF e] execute_calls_grows [OF e Some] by blast
  next
    case None
    obtain r' w1 where x: "execute_call handlers c w = (r', w1)" by fastforce
    with None obtain rs' where "rs = r' # rs'"
      and e: "execute_calls handlers cs (AList.update (tc_id c) r' cache, w1) = (rs', (cache', w'))"
      using Cons.prems by (auto split: prod.splits)
    then show ?thesis using that Cons.IH [OF e] execute_calls_grows [OF e, of "tc_id c" r'] by (simp add: update_conv')
  qed
  then show ?case by simp
qed simp

lemma execute_calls_replay:
  "map (\<lambda>c. map_of cache (tc_id c)) cs = map Some rs \<Longrightarrow> execute_calls handlers cs (cache, w) = (rs, (cache, w))"
proof (induction cs arbitrary: rs)
  case (Cons c cs)
  then obtain r rs' where "rs = r # rs'" "map_of cache (tc_id c) = Some r"
    "map (\<lambda>c. map_of cache (tc_id c)) cs = map Some rs'"
    by (cases rs) auto
  with Cons.IH [of rs'] show ?case by simp
qed simp

lemma call_roundtrip [simp]: "call_validate (call_dump c) = Some c"
  by (simp add: call_validate_def call_dump_def str_field_def)

lemma batch_roundtrip [simp]: "batch_validate (batch_dump b) = Some b"
proof -
  have "all_some (map (call_validate \<circ> call_dump) b) = Some b" by (induction b) auto
  then show ?thesis by (simp add: batch_validate_def batch_dump_def)
qed

lemma auth_roundtrip [simp]: "auth_validate (auth_dump a) = Some a"
proof -
  have "status_of (status_value s) = Some s" for s by (cases s) (simp_all add: status_of_def)
  then show ?thesis
    by (cases a) (simp add: auth_validate_def auth_dump_def str_field_def opt_str_field_def opt_json_def split: option.splits)
qed

section \<open>Properties\<close>

text \<open>C16. Nothing runs without authorization. When a batch is executed under the authorization the control
  plane gave it, then either nothing ran (the world and the cache are as before and every result is a failure),
  or every tool of the batch is known and allowed and, if one needs approval, a human approved the batch.\<close>

theorem execute_only_authorized:
  assumes "execute bhash handlers batch (authorize digest bhash table policy batch) decision g = Inr (rs, g')"
  shows "(g' = g \<and> list_all (\<lambda>r. \<not> tr_success r) rs)
    \<or> (list_all (\<lambda>c. map_of table (tc_name c) \<noteq> None \<and> tc_name c \<in> set (gp_allowed_tools policy)) batch
       \<and> (list_ex (\<lambda>c. tc_name c \<in> set (gp_approval_required_tools policy)
              \<or> (\<exists>d. map_of table (tc_name c) = Some d \<and> td_requires_approval d)) batch
          \<longrightarrow> decision = Some APPROVE_ONCE))"
proof (cases "decision = Some APPROVE_ONCE")
  case True
  with assms show ?thesis
    by (auto simp: execute_def authorize_status rejected_def list_all_iff split: if_splits)
next
  case False
  then have "decision = None \<or> decision = Some REJECT" by (metis approval_decision.exhaust option.exhaust)
  with assms show ?thesis
    by (auto simp: execute_def authorize_status rejected_def list_all_iff list_ex_iff split: if_splits option.splits)
qed

definition demo_table :: "(string \<times> tool_descriptor) list" where
  "demo_table = descriptor_table [\<lparr>td_name = ''echo'', td_version = ''1'', td_requires_approval = False, td_description = []\<rparr>]"

definition demo_batch :: tool_batch where
  "demo_batch = [\<lparr>tc_id = ''1'', tc_name = ''echo'', tc_arguments = []\<rparr>]"

abbreviation demo_policy :: gateway_policy where
  "demo_policy \<equiv> \<lparr>gp_allowed_tools = [''echo''], gp_approval_required_tools = [''echo'']\<rparr>"

abbreviation demo_handlers :: "string \<Rightarrow> nat handler option" where
  "demo_handlers \<equiv> \<lambda>n. if n = ''echo'' then Some (\<lambda>_ w. (Inr JNull, Suc w)) else None"

theorem execute_only_authorized_witness:
  "execute (\<lambda>_. ''h'') demo_handlers demo_batch (authorize id (\<lambda>_. ''h'') demo_table demo_policy demo_batch)
      (Some REJECT) ([], 0 :: nat) = Inr (rejected demo_batch ''tool batch rejected by user'', ([], 0))
   \<and> list_all (\<lambda>r. \<not> tr_success r) (rejected demo_batch ''tool batch rejected by user'')"
proof -
  have e: "execute (\<lambda>_. ''h'') demo_handlers demo_batch (authorize id (\<lambda>_. ''h'') demo_table demo_policy demo_batch)
      (Some REJECT) ([], 0 :: nat) = Inr (rejected demo_batch ''tool batch rejected by user'', ([], 0))"
    by (simp add: execute_def authorize_status demo_table_def descriptor_table_def demo_batch_def)
  from execute_only_authorized [OF e] e show ?thesis by (auto simp: demo_batch_def)
qed

text \<open>A tool call runs at most once. Executing the same batch again, for example after a lost reply, returns
  the same results and runs nothing: the cache and the world stay as the first execution left them.\<close>

theorem execute_replay:
  assumes "execute bhash handlers batch auth decision g = Inr (rs, g')"
  shows "execute bhash handlers batch auth decision g' = Inr (rs, g')"
proof -
  obtain cache w cache' w' where g: "g = (cache, w)" "g' = (cache', w')" by (metis surj_pair)
  have "execute_calls handlers batch g' = (rs, g')" if "execute_calls handlers batch g = (rs, g')"
    using that unfolding g by (rule execute_calls_replay [OF execute_calls_cached])
  with assms show ?thesis by (auto simp: execute_def split: if_splits)
qed

theorem execute_replay_witness:
  "\<exists>rs g. execute (\<lambda>_. ''h'') demo_handlers demo_batch (authorize id (\<lambda>_. ''h'') demo_table demo_policy demo_batch)
      (Some APPROVE_ONCE) ([], 0 :: nat) = Inr (rs, g) \<and> snd g = 1
    \<and> execute (\<lambda>_. ''h'') demo_handlers demo_batch (authorize id (\<lambda>_. ''h'') demo_table demo_policy demo_batch)
      (Some APPROVE_ONCE) g = Inr (rs, g)"
proof -
  obtain rs g where e: "execute (\<lambda>_. ''h'') demo_handlers demo_batch
      (authorize id (\<lambda>_. ''h'') demo_table demo_policy demo_batch) (Some APPROVE_ONCE) ([], 0 :: nat) = Inr (rs, g)"
    and "snd g = 1"
    by (simp add: execute_def authorize_status demo_table_def descriptor_table_def demo_batch_def execute_call_def)
  with execute_replay [OF e] show ?thesis by blast
qed

text \<open>A pending batch survives its checkpoint: restoring what \<open>checkpoint\<close> wrote gives back the batch and
  its authorization, and nothing whose hash does not match the batch can be restored.\<close>

theorem gateway_checkpoint_roundtrip:
  "(\<forall>batch auth cp. gateway_checkpoint bhash batch auth = Inr cp \<longrightarrow> gateway_restore bhash cp = Inr (batch, auth))
   \<and> (\<forall>cp batch auth. gateway_restore bhash cp = Inr (batch, auth) \<longrightarrow>
        au_batch_hash auth = bhash batch \<and> map_of cp ''tool_batch_hash'' = Some (JStr (bhash batch)))"
  by (auto simp: gateway_checkpoint_def gateway_restore_def split: if_splits option.splits)

theorem gateway_checkpoint_roundtrip_witness:
  "\<exists>cp. gateway_checkpoint (\<lambda>_. ''h'') demo_batch (authorize id (\<lambda>_. ''h'') demo_table demo_policy demo_batch) = Inr cp
    \<and> gateway_restore (\<lambda>_. ''h'') cp = Inr (demo_batch, authorize id (\<lambda>_. ''h'') demo_table demo_policy demo_batch)"
proof -
  obtain cp where "gateway_checkpoint (\<lambda>_. ''h'') demo_batch
      (authorize id (\<lambda>_. ''h'') demo_table demo_policy demo_batch) = Inr cp"
    by (simp add: gateway_checkpoint_def)
  with gateway_checkpoint_roundtrip [of "\<lambda>_. ''h''"] show ?thesis by blast
qed

end
