(* ===== verification/Run_Registry.thy ===== *)
theory Run_Registry
  imports Domain Tool_Gateway
begin

text \<open>
  The state of one run in a runner process (\<open>session_runner/domain/run.py\<close>) and the registry that owns the
  runs and evicts finished ones (\<open>session_runner/application/run_registry.py\<close>). The registry hands out
  references to mutable run states; here a handler writes the state it changed back with \<open>reg_put\<close>.
  The asyncio objects of a run state (task, events, loop) only wake waiting coroutines and are left out;
  the execution of a run in \<open>trae\<close> mode is kept beside the registry (\<open>Trae_App\<close>).
\<close>

section \<open>Run states\<close>

record run_request =
  q_run_id :: uuid
  q_conversation :: uuid
  q_session :: uuid
  q_container :: string
  q_lease_epoch :: int
  q_fence_epoch :: int
  q_correlation :: string
  q_context_bundle :: obj
  q_workspace_ref :: string
  q_tool_policy :: obj
  q_core_version :: string

text \<open>The executor of a run, with its cache of results; the handlers belong to the process.\<close>

record tool_executor =
  ex_table :: "(string \<times> tool_descriptor) list"
  ex_policy :: gateway_policy
  ex_results :: "(string \<times> tool_result) list"

record run_state =
  rs_request :: run_request
  rs_events :: "event_envelope list"
  rs_status :: string
  rs_pending :: "obj option"
  rs_executor :: "tool_executor option"
  rs_tool_batch :: "tool_batch option"
  rs_authorization :: "authorization option"
  rs_command_results :: "(string \<times> json) list"

definition new_run_state :: "run_request \<Rightarrow> run_state" where
  "new_run_state q = \<lparr>rs_request = q, rs_events = [], rs_status = ''STARTING'', rs_pending = None,
     rs_executor = None, rs_tool_batch = None, rs_authorization = None, rs_command_results = []\<rparr>"

text \<open>\<open>ids\<close> gives the fresh identifier of the event with a sequence number.\<close>

definition emit :: "(int \<Rightarrow> uuid) \<Rightarrow> time \<Rightarrow> string \<Rightarrow> obj \<Rightarrow> run_state \<Rightarrow> run_state" where
  "emit ids now ty p s = (let sq = int (length (rs_events s)) + 1 in
     s\<lparr>rs_events := rs_events s @ [mk_event (ids sq) now (q_run_id (rs_request s)) sq ty p ''session_runner'']\<rparr>)"

definition cached_command :: "uuid option \<Rightarrow> run_state \<Rightarrow> json option" where
  "cached_command cid s = (case cid of None \<Rightarrow> None | Some c \<Rightarrow> map_of (rs_command_results s) c)"

definition remember_command :: "uuid option \<Rightarrow> json \<Rightarrow> run_state \<Rightarrow> run_state" where
  "remember_command cid r s = (case cid of None \<Rightarrow> s
     | Some c \<Rightarrow> s\<lparr>rs_command_results := AList.update c r (rs_command_results s)\<rparr>)"

section \<open>The registry\<close>

definition TERMINAL_STATUSES :: "string list" where
  "TERMINAL_STATUSES = [''COMPLETED'', ''FAILED'', ''CANCELLED'', ''LOST'']"

record registry =
  rg_runs :: "(uuid \<times> run_state) list"
  rg_terminal_at :: "(uuid \<times> time) list"
  rg_retain :: time
  rg_max :: nat

text \<open>\<open>setdefault\<close>: an existing mark stays.\<close>

definition observe :: "time \<Rightarrow> uuid \<Rightarrow> registry \<Rightarrow> registry" where
  "observe now rid g = (case map_of (rg_runs g) rid of None \<Rightarrow> g
     | Some s \<Rightarrow> if rs_status s \<in> set TERMINAL_STATUSES \<and> map_of (rg_terminal_at g) rid = None
                 then g\<lparr>rg_terminal_at := AList.update rid now (rg_terminal_at g)\<rparr> else g)"

definition forget :: "uuid list \<Rightarrow> registry \<Rightarrow> registry" where
  "forget rids g = g\<lparr>rg_runs := filter (\<lambda>(k, _). k \<notin> set rids) (rg_runs g),
     rg_terminal_at := filter (\<lambda>(k, _). k \<notin> set rids) (rg_terminal_at g)\<rparr>"

definition expired_runs :: "time \<Rightarrow> registry \<Rightarrow> uuid list" where
  "expired_runs now g = map fst (filter (\<lambda>(k, t). now - t > rg_retain g) (rg_terminal_at g))"

definition terminal_order :: "registry \<Rightarrow> uuid list" where
  "terminal_order g = sort_key (\<lambda>k. or_else (map_of (rg_terminal_at g) k) 0)
     (filter (\<lambda>k. map_of (rg_runs g) k \<noteq> None) (map fst (rg_terminal_at g)))"

definition prune :: "time \<Rightarrow> registry \<Rightarrow> nat \<times> registry" where
  "prune now g =
     (let expired = expired_runs now g; g1 = forget expired g; ts = terminal_order g1;
          excess = length ts - rg_max g1 in
      (length expired + excess, forget (take excess ts) g1))"

definition reg_get :: "time \<Rightarrow> uuid \<Rightarrow> registry \<Rightarrow> run_state option \<times> registry" where
  "reg_get now rid g = (map_of (rg_runs g) rid, observe now rid g)"

definition reg_put :: "uuid \<Rightarrow> run_state \<Rightarrow> registry \<Rightarrow> registry" where
  "reg_put rid s g = g\<lparr>rg_runs := AList.update rid s (rg_runs g)\<rparr>"

definition reg_set :: "time \<Rightarrow> uuid \<Rightarrow> run_state \<Rightarrow> registry \<Rightarrow> registry" where
  "reg_set now rid s g = observe now rid (reg_put rid s (snd (prune now g)))"

section \<open>The invariant\<close>

text \<open>The marks are of runs that are present and finished.\<close>

definition finished :: "registry \<Rightarrow> uuid \<Rightarrow> bool" where
  "finished g k = (case map_of (rg_runs g) k of None \<Rightarrow> False | Some s \<Rightarrow> rs_status s \<in> set TERMINAL_STATUSES)"

definition marked :: "registry \<Rightarrow> uuid \<Rightarrow> bool" where
  "marked g k = (map_of (rg_terminal_at g) k \<noteq> None)"

definition reg_inv :: "registry \<Rightarrow> bool" where
  "reg_inv g = (distinct (map fst (rg_runs g)) \<and> distinct (map fst (rg_terminal_at g))
     \<and> list_all (finished g) (map fst (rg_terminal_at g)))"

lemma marked_mem: "marked g k \<longleftrightarrow> k \<in> set (map fst (rg_terminal_at g))"
  by (simp add: marked_def map_of_eq_None_iff)

lemma reg_inv_alt: "reg_inv g \<longleftrightarrow> distinct (map fst (rg_runs g)) \<and> distinct (map fst (rg_terminal_at g))
    \<and> (\<forall>k. marked g k \<longrightarrow> finished g k)"
  by (simp only: reg_inv_def list_all_iff marked_mem) blast

lemma map_of_filter_key: "map_of (filter (\<lambda>(k, _). P k) xs) k = (if P k then map_of xs k else None)"
  by (induction xs) auto

lemma forget_get [simp]: "map_of (rg_runs (forget ks g)) k = (if k \<in> set ks then None else map_of (rg_runs g) k)"
  by (simp add: forget_def map_of_filter_key)

lemma forget_marks [simp]: "marked (forget ks g) k \<longleftrightarrow> marked g k \<and> k \<notin> set ks"
  by (simp add: forget_def marked_def map_of_filter_key)

lemma forget_inv [inv_intros]: "reg_inv g \<Longrightarrow> reg_inv (forget ks g)"
  by (auto simp: reg_inv_alt finished_def) (auto simp: forget_def distinct_map_filter)

lemma forget_limits [simp]: "rg_max (forget ks g) = rg_max g" "rg_retain (forget ks g) = rg_retain g"
  by (simp_all add: forget_def)

lemma observe_runs [simp]: "rg_runs (observe now rid g) = rg_runs g"
  by (simp add: observe_def split: option.split)

lemma observe_marks: "marked (observe now rid g) k \<longleftrightarrow> marked g k \<or> k = rid \<and> finished g rid"
  by (auto simp: observe_def marked_def finished_def update_conv' split: option.splits)

lemma observe_inv [inv_intros]: "reg_inv g \<Longrightarrow> reg_inv (observe now rid g)"
  by (auto simp: reg_inv_alt observe_marks finished_def) (auto simp: observe_def distinct_update split: option.splits)

lemma prune_inv [inv_intros]: "reg_inv g \<Longrightarrow> reg_inv (snd (prune now g))"
  by (simp add: prune_def Let_def forget_inv)

lemma reg_get_inv [inv_intros]: "reg_inv g \<Longrightarrow> reg_inv (snd (reg_get now rid g))"
  by (simp add: reg_get_def observe_inv)

text \<open>A write-back may not take a finished run back to work.\<close>

lemma reg_put_inv [inv_intros]:
  assumes "reg_inv g" "marked g rid \<Longrightarrow> rs_status s \<in> set TERMINAL_STATUSES"
  shows "reg_inv (reg_put rid s g)"
  using assms by (auto simp: reg_inv_alt reg_put_def distinct_update update_conv' finished_def marked_def)

lemma terminal_order_iff: "k \<in> set (terminal_order g) \<longleftrightarrow> marked g k \<and> map_of (rg_runs g) k \<noteq> None"
  by (auto simp: terminal_order_def marked_mem)

lemma expired_marked: "k \<in> set (expired_runs now g) \<Longrightarrow> marked g k"
  by (auto simp: expired_runs_def marked_mem)

lemma prune_marked:
  assumes "map_of (rg_runs (snd (prune now g))) k = None" "map_of (rg_runs g) k = Some s"
  shows "marked g k"
proof -
  from assms have "k \<in> set (expired_runs now g) \<or> k \<in> set (terminal_order (forget (expired_runs now g) g))"
    by (auto simp: prune_def Let_def split: if_splits dest: in_set_takeD)
  then show ?thesis by (auto simp: terminal_order_iff dest: expired_marked)
qed

lemma prune_unmarked:
  assumes "map_of (rg_runs g) k = Some s" "\<not> marked g k"
  shows "map_of (rg_runs (snd (prune now g))) k = Some s"
proof -
  have "map_of (rg_runs (snd (prune now g))) k \<noteq> None" using prune_marked [of now g k s] assms by blast
  then show ?thesis using assms(1) by (auto simp: prune_def Let_def split: if_splits)
qed

lemma terminal_order_forget: "set (terminal_order (forget ks g)) = set (terminal_order g) - set ks"
  by (auto simp: terminal_order_iff)

lemma distinct_terminal_order: "distinct (map fst (rg_terminal_at g)) \<Longrightarrow> distinct (terminal_order g)"
  by (simp add: terminal_order_def)

section \<open>Histories\<close>

text \<open>
  What a runner does with its registry since it started: it reads a run (which observes its status), changes a
  run in place, writes one back (which prunes before and observes after) and prunes. \<open>seen\<close> collects the runs
  that were observed with a final status.
\<close>

inductive reg_history :: "time \<Rightarrow> nat \<Rightarrow> uuid set \<Rightarrow> registry \<Rightarrow> bool" for retain cap where
  started: "reg_history retain cap {} \<lparr>rg_runs = [], rg_terminal_at = [], rg_retain = retain, rg_max = cap\<rparr>"
| got: "reg_history retain cap seen g
    \<Longrightarrow> reg_history retain cap (if finished g rid then insert rid seen else seen) (snd (reg_get now rid g))"
| changed: "reg_history retain cap seen g \<Longrightarrow> reg_history retain cap seen (reg_put rid s g)"
| stored: "reg_history retain cap seen g
    \<Longrightarrow> reg_history retain cap (if rs_status s \<in> set TERMINAL_STATUSES then insert rid seen else seen) (reg_set now rid s g)"
| pruned: "reg_history retain cap seen g \<Longrightarrow> reg_history retain cap seen (snd (prune now g))"

definition marks_ok :: "uuid set \<Rightarrow> registry \<Rightarrow> bool" where
  "marks_ok seen g = (distinct (map fst (rg_terminal_at g)) \<and> (\<forall>k. marked g k \<longrightarrow> k \<in> seen))"

lemma marks_forget: "marks_ok seen g \<Longrightarrow> marks_ok seen (forget ks g)"
  by (auto simp: marks_ok_def) (auto simp: forget_def distinct_map_filter)

lemma marks_prune: "marks_ok seen g \<Longrightarrow> marks_ok seen (snd (prune now g))"
  by (simp add: prune_def Let_def marks_forget)

lemma marks_observe: "marks_ok seen g \<Longrightarrow> marks_ok (if finished g rid then insert rid seen else seen) (observe now rid g)"
  by (auto simp: marks_ok_def observe_marks) (auto simp: observe_def distinct_update split: option.splits)

lemma marks_put: "marks_ok seen (reg_put rid s g) = marks_ok seen g"
  by (simp add: marks_ok_def marked_def reg_put_def)

lemma finished_put [simp]: "finished (reg_put rid s g) rid \<longleftrightarrow> rs_status s \<in> set TERMINAL_STATUSES"
  by (simp add: finished_def reg_put_def update_conv')

lemma prune_limits [simp]: "rg_max (snd (prune now g)) = rg_max g" "rg_retain (snd (prune now g)) = rg_retain g"
  by (simp_all add: prune_def Let_def)

lemma observe_limits [simp]: "rg_max (observe now rid g) = rg_max g" "rg_retain (observe now rid g) = rg_retain g"
  by (simp_all add: observe_def split: option.splits)

lemma put_limits [simp]: "rg_max (reg_put rid s g) = rg_max g" "rg_retain (reg_put rid s g) = rg_retain g"
  by (simp_all add: reg_put_def)

lemma history_ok: "reg_history retain cap seen g \<Longrightarrow> marks_ok seen g \<and> rg_retain g = retain \<and> rg_max g = cap"
proof (induction rule: reg_history.induct)
  case (stored seen g s rid now)
  then have "marks_ok seen (reg_put rid s (snd (prune now g)))" by (simp add: marks_put marks_prune)
  from marks_observe [OF this, of rid now] stored show ?case by (simp add: reg_set_def)
next
  case (got seen g rid now)
  then show ?case using marks_observe [of seen g rid now] by (simp add: reg_get_def)
qed (simp_all add: marks_prune marks_put, simp add: marks_ok_def marked_def)

section \<open>Properties\<close>

lemma expired_iff: "distinct (map fst (rg_terminal_at g)) \<Longrightarrow>
    k \<in> set (expired_runs now g) \<longleftrightarrow> (\<exists>t. map_of (rg_terminal_at g) k = Some t \<and> now - t > rg_retain g)"
  by (force simp: expired_runs_def)

definition mark_of :: "registry \<Rightarrow> uuid \<Rightarrow> time" where
  "mark_of g k = or_else (map_of (rg_terminal_at g) k) 0"

lemma forget_mark: "k \<notin> set ks \<Longrightarrow> mark_of (forget ks g) k = mark_of g k"
  by (simp add: mark_of_def forget_def map_of_filter_key)

lemma sorted_terminal_order: "sorted (map (mark_of g) (terminal_order g))"
  unfolding terminal_order_def mark_of_def [abs_def] by simp

lemma take_before_drop:
  assumes "sorted (map f xs)" "a \<in> set (take n xs)" "b \<in> set (drop n xs)"
  shows "f a \<le> f b"
proof -
  have "sorted (map f (take n xs) @ map f (drop n xs))" using assms(1) by (simp flip: map_append)
  then show ?thesis using assms(2,3) by (auto simp: sorted_append)
qed

text \<open>C17. What a pass of the eviction keeps and removes, at any moment of a runner's life. After it at most
  the configured number of runs with a mark (runs that were once observed with a final status) is present, and
  none whose mark is older than the retention window. It removes no run that was never observed with a final
  status. A run that it removes carries a mark, and either that mark is older than the window or more than the
  configured number of younger marks are there and every run that keeps its mark has one at least as late. All
  other runs stay as they are.\<close>

theorem prune_bounds:
  assumes "reg_history retain cap seen g"
  shows "card {k. marked (snd (prune now g)) k \<and> map_of (rg_runs (snd (prune now g))) k \<noteq> None} \<le> cap
    \<and> (\<forall>k. marked (snd (prune now g)) k \<longrightarrow> now - mark_of g k \<le> retain)
    \<and> (\<forall>k s. map_of (rg_runs g) k = Some s \<longrightarrow>
         map_of (rg_runs (snd (prune now g))) k = Some s
         \<or> map_of (rg_runs (snd (prune now g))) k = None \<and> k \<in> seen \<and> marked g k
           \<and> (now - mark_of g k > retain
              \<or> cap < card {j. marked g j \<and> map_of (rg_runs g) j \<noteq> None \<and> now - mark_of g j \<le> retain}
                \<and> (\<forall>j. marked (snd (prune now g)) j \<and> map_of (rg_runs (snd (prune now g))) j \<noteq> None
                     \<longrightarrow> mark_of g k \<le> mark_of g j)))"
proof -
  define ex where "ex = expired_runs now g"
  define ts where "ts = terminal_order (forget ex g)"
  define x where "x = length ts - cap"
  have ok: "marks_ok seen g" and lim: "rg_retain g = retain" "rg_max g = cap" using history_ok [OF assms] by auto
  then have dg: "distinct (map fst (rg_terminal_at g))" by (simp add: marks_ok_def)
  have ex: "k \<in> set ex \<longleftrightarrow> marked g k \<and> now - mark_of g k > retain" for k
    using expired_iff [OF dg, of k now] lim by (auto simp: ex_def marked_def mark_of_def or_else_def)
  have dts: "distinct ts" unfolding ts_def
    using marks_forget [OF ok, of ex] by (intro distinct_terminal_order) (simp add: marks_ok_def)
  have ts: "k \<in> set ts \<longleftrightarrow> marked g k \<and> k \<notin> set ex \<and> map_of (rg_runs g) k \<noteq> None" for k
    by (auto simp: ts_def terminal_order_iff)
  have sts: "sorted (map (mark_of g) ts)"
  proof -
    have "map (mark_of (forget ex g)) ts = map (mark_of g) ts" by (rule map_cong) (auto simp: ts forget_mark)
    then show ?thesis using sorted_terminal_order [of "forget ex g"] unfolding ts_def by (simp only:)
  qed
  have p: "snd (prune now g) = forget (take x ts) (forget ex g)"
    by (simp add: prune_def Let_def x_def ts_def ex_def lim)
  have part: "k \<in> set ts \<and> k \<notin> set (take x ts) \<longleftrightarrow> k \<in> set (drop x ts)" for k
    using dts set_take_disj_set_drop_if_distinct [of ts x x] set_append [of "take x ts" "drop x ts"] by auto
  have kept: "marked (snd (prune now g)) j \<and> map_of (rg_runs (snd (prune now g))) j \<noteq> None \<longleftrightarrow> j \<in> set (drop x ts)" for j
    using part [of j] ts [of j] by (auto simp: p split: if_splits)
  have "card (set (drop x ts)) = length (drop x ts)" using dts by (simp add: distinct_card)
  also have "\<dots> \<le> cap" by (simp add: x_def)
  finally have bound: "card {k. marked (snd (prune now g)) k \<and> map_of (rg_runs (snd (prune now g))) k \<noteq> None} \<le> cap"
    by (simp only: kept Collect_mem_eq)
  have young: "\<forall>k. marked (snd (prune now g)) k \<longrightarrow> now - mark_of g k \<le> retain"
    using ex by (auto simp: p not_less)
  have live: "{j. marked g j \<and> map_of (rg_runs g) j \<noteq> None \<and> now - mark_of g j \<le> retain} = set ts"
    using ts ex by (auto simp: not_less)
  have "map_of (rg_runs (snd (prune now g))) k = Some s
       \<or> map_of (rg_runs (snd (prune now g))) k = None \<and> k \<in> seen \<and> marked g k
         \<and> (now - mark_of g k > retain \<or> cap < card (set ts)
            \<and> (\<forall>j. j \<in> set (drop x ts) \<longrightarrow> mark_of g k \<le> mark_of g j))"
    if k: "map_of (rg_runs g) k = Some s" for k s
  proof (cases "k \<in> set ex \<union> set (take x ts)")
    case True
    then have "marked g k" using ex ts by (auto dest: in_set_takeD)
    moreover have "cap < card (set ts)" if "k \<in> set (take x ts)"
      using that dts by (cases "x = 0") (auto simp: x_def distinct_card)
    moreover have "mark_of g k \<le> mark_of g j" if "k \<in> set (take x ts)" "j \<in> set (drop x ts)" for j
      using take_before_drop [OF sts that] .
    ultimately show ?thesis using True ok ex by (auto simp: p marks_ok_def)
  qed (use k in \<open>simp add: p\<close>)
  with bound young show ?thesis unfolding live kept by blast
qed

definition demo_run :: run_state where
  "demo_run = new_run_state \<lparr>q_run_id = ''r1'', q_conversation = ''c1'', q_session = ''s1'', q_container = ''k1'',
     q_lease_epoch = 1, q_fence_epoch = 0, q_correlation = ''x'', q_context_bundle = [], q_workspace_ref = ''/workspace'',
     q_tool_policy = [], q_core_version = ''0.1.0''\<rparr>"

theorem prune_bounds_witness:
  "\<exists>g. map_of (rg_runs g) ''r1'' = Some demo_run \<and> marked g ''r2''
     \<and> map_of (rg_runs (snd (prune 100 g))) ''r1'' = Some demo_run \<and> \<not> marked (snd (prune 100 g)) ''r2''"
proof -
  let ?c = "demo_run\<lparr>rs_status := ''COMPLETED''\<rparr>"
  let ?g0 = "\<lparr>rg_runs = [], rg_terminal_at = [], rg_retain = 10, rg_max = 1\<rparr>"
  let ?g = "reg_set 6 ''r1'' demo_run (reg_set 5 ''r2'' ?c ?g0)"
  have e: "?g = \<lparr>rg_runs = [(''r2'', ?c), (''r1'', demo_run)], rg_terminal_at = [(''r2'', 5)],
      rg_retain = 10, rg_max = 1\<rparr>"
    by (simp add: reg_set_def reg_put_def observe_def prune_def expired_runs_def terminal_order_def forget_def
        TERMINAL_STATUSES_def demo_run_def new_run_state_def Let_def)
  have "reg_history 10 1 (if rs_status demo_run \<in> set TERMINAL_STATUSES then insert ''r1'' (if rs_status ?c
      \<in> set TERMINAL_STATUSES then insert ''r2'' {} else {}) else if rs_status ?c \<in> set TERMINAL_STATUSES
      then insert ''r2'' {} else {}) ?g"
    by (intro reg_history.stored reg_history.started)
  then have "reg_history 10 1 {''r2''} ?g" by (simp add: TERMINAL_STATUSES_def demo_run_def new_run_state_def)
  moreover obtain g where g: "g = ?g" by simp
  ultimately have c: "reg_history 10 1 {''r2''} g" by simp
  have r: "map_of (rg_runs g) ''r1'' = Some demo_run" "\<not> marked g ''r1''" "marked g ''r2''" "mark_of g ''r2'' = 5"
    unfolding g e by (simp_all add: marked_def mark_of_def or_else_def)
  have "map_of (rg_runs (snd (prune 100 g))) ''r1'' = Some demo_run"
    using prune_bounds [OF c, of 100] r(1,2) by blast
  moreover have "\<not> marked (snd (prune 100 g)) ''r2''"
    using prune_bounds [OF c, of 100] r(4) by fastforce
  ultimately show ?thesis using r by blast
qed

text \<open>The promise that active runs are never pruned rests on a finished run not going back to work: a mark
  outlives the status that caused it. A run that was marked as finished long enough ago is dropped even
  when its status is \<open>RUNNING\<close> again, as a resume in \<open>trae\<close> mode makes it.\<close>

theorem prune_drops_resumed_run:
  assumes "(rid, t) \<in> set (rg_terminal_at g)" "now - t > rg_retain g"
  shows "map_of (rg_runs (snd (prune now (reg_put rid (s\<lparr>rs_status := ''RUNNING''\<rparr>) g)))) rid = None"
proof -
  have "rid \<in> set (expired_runs now (reg_put rid (s\<lparr>rs_status := ''RUNNING''\<rparr>) g))"
    using assms by (force simp: expired_runs_def reg_put_def)
  then show ?thesis by (simp add: prune_def Let_def)
qed

theorem prune_drops_resumed_run_witness:
  "map_of (rg_runs (snd (prune 100 (reg_put ''r1'' (demo_run\<lparr>rs_status := ''RUNNING''\<rparr>)
     \<lparr>rg_runs = [(''r1'', demo_run)], rg_terminal_at = [(''r1'', 5)], rg_retain = 10, rg_max = 200\<rparr>)))) ''r1'' = None"
  by (rule prune_drops_resumed_run [of _ 5]) simp_all

end
