(* ===== verification/Runner_App.thy ===== *)
theory Runner_App
  imports Run_Registry
begin

text \<open>
  The HTTP handlers of the runner, \<open>session_runner/serving/http/app.py\<close>, outside \<open>trae\<close> mode. A handler
  is a function of the application (the registry and the world the tools act on) that returns the reply or
  the error it raises, together with the application, which keeps what the handler changed before it raised.
  Parameters: \<open>vars\<close> is the environment of the process; \<open>str\<close> is \<open>str()\<close> of a JSON value that is not a string; \<open>ids\<close> and \<open>now\<close> supply fresh identifiers and
  the time; \<open>hx\<close> collects the digests; \<open>tools\<close> is what the process was started with: handlers and, for a list of MCP
  references, the descriptors and handlers of their provider. Opening and closing MCP connections is not modelled.
\<close>

section \<open>Requests and replies\<close>

datatype http_error = HTTPException int string | Crash string

record input_request =
  in_interaction :: string
  in_value :: json
  in_command :: "uuid option"

record approval_post =
  po_approval :: string
  po_decision :: string
  po_command :: "uuid option"

record resume_request =
  re_checkpoint :: checkpoint
  re_value :: json
  re_command :: "uuid option"
  re_session :: "uuid option"
  re_container :: "string option"
  re_lease_epoch :: "int option"
  re_fence_epoch :: "int option"
  re_correlation :: "string option"

record digests =
  hx_digest :: "string \<Rightarrow> string"
  hx_batch :: "tool_batch \<Rightarrow> string"
  hx_policy :: "obj \<Rightarrow> string"
  hx_versions :: "json list \<Rightarrow> string"
  hx_context :: "context_bundle \<Rightarrow> string"

record 'w tools =
  tl_handlers :: "string \<Rightarrow> 'w handler option"
  tl_mcp :: "json list \<Rightarrow> tool_descriptor list \<times> (string \<Rightarrow> 'w handler option)"

type_synonym 'w app = "registry \<times> 'w"

text \<open>The dump of an event; a time stamp is dumped as its number.\<close>

definition event_dump :: "event_envelope \<Rightarrow> json" where
  "event_dump e = JObj [(''schema_version'', JStr (ev_schema_version e)), (''event_id'', JStr (ev_id e)),
     (''run_id'', JStr (ev_run_id e)), (''seq'', JInt (ev_seq e)), (''type'', JStr (ev_type e)),
     (''payload'', JObj (ev_payload e)), (''tenant_id'', opt_json (ev_tenant e)),
     (''user_id'', opt_json (ev_user e)), (''project_id'', opt_json (ev_project e)),
     (''source'', JStr (ev_source e)), (''occurred_at'', JInt (ev_occurred_at e))]"

definition reply :: "uuid \<Rightarrow> string \<Rightarrow> event_envelope list \<Rightarrow> json" where
  "reply rid status evs = JObj [(''run_id'', JStr rid), (''status'', JStr status), (''events'', JArr (map event_dump evs))]"

definition result_dump :: "tool_result \<Rightarrow> obj" where
  "result_dump r = [(''call_id'', JStr (tr_call_id r)), (''name'', JStr (tr_name r)), (''success'', JBool (tr_success r)),
     (''output'', tr_output r), (''error'', opt_json (tr_error r))]"

definition decision_of :: "string \<Rightarrow> approval_decision option" where
  "decision_of s = (if s = ''APPROVE_ONCE'' then Some APPROVE_ONCE else if s = ''REJECT'' then Some REJECT else None)"

section \<open>Fences\<close>

text \<open>\<open>SESSION_LEASE_EPOCH\<close>: unset, set to something that is not an integer, or to an integer.\<close>

datatype lease_env = Unset | Malformed | Epoch int

definition validate_container_fence :: "lease_env \<Rightarrow> run_request \<Rightarrow> http_error option" where
  "validate_container_fence env q = (case env of
       Malformed \<Rightarrow> Some (HTTPException 503 ''invalid session lease configuration'')
     | Epoch n \<Rightarrow> if q_lease_epoch q \<noteq> n then Some (HTTPException 409 ''session lease epoch mismatch'')
                  else if q_fence_epoch q \<noteq> n then Some (HTTPException 409 ''session fence epoch mismatch'')
                  else None
     | Unset \<Rightarrow> if q_fence_epoch q \<notin> {0, q_lease_epoch q}
                then Some (HTTPException 409 ''session fence epoch mismatch'') else None)"

definition validate_duplicate_run :: "run_state \<Rightarrow> run_request \<Rightarrow> http_error option" where
  "validate_duplicate_run s q =
     (let old = rs_request s in
      if q_session old \<noteq> q_session q \<or> q_container old \<noteq> q_container q \<or> q_lease_epoch old \<noteq> q_lease_epoch q
         \<or> (q_fence_epoch q \<noteq> 0 \<and> q_fence_epoch old \<noteq> q_fence_epoch q)
      then Some (HTTPException 409 ''run lease fence mismatch'') else None)"

section \<open>Configurations of MCP servers\<close>

text \<open>\<open>build_mcp_server_configs\<close> of \<open>mcp_runtime.py\<close>: a value \<open>$NAME\<close> is read from the environment \<open>vars\<close>. The
  handlers that start and resume a run call it in every mode; when it raises, the request ends in an error.\<close>

definition resolve_header_value :: "(string \<Rightarrow> string option) \<Rightarrow> json \<Rightarrow> string + json" where
  "resolve_header_value env v = (case v of
       JStr s \<Rightarrow> if py_startswith s ''$'' then (case env (drop 1 s) of
             None \<Rightarrow> Inl (''MCP header env var is not set: '' @ drop 1 s) | Some r \<Rightarrow> Inr (JStr r)) else Inr v
     | _ \<Rightarrow> Inl ''AttributeError'')"

fun resolve_headers :: "(string \<Rightarrow> string option) \<Rightarrow> obj \<Rightarrow> string + obj" where
  "resolve_headers env [] = Inr []"
| "resolve_headers env ((k, v) # d) = (case resolve_header_value env v of
       Inl e \<Rightarrow> Inl e
     | Inr r \<Rightarrow> (case resolve_headers env d of Inl e \<Rightarrow> Inl e | Inr rs \<Rightarrow> Inr ((k, r) # rs)))"

definition dict_field :: "obj \<Rightarrow> string \<Rightarrow> string + obj" where
  "dict_field d k = (let v = obj_get d k JNull in if \<not> truthy v then Inr [] else case v of JObj x \<Rightarrow> Inr x | _ \<Rightarrow> Inl ''AttributeError'')"

definition mcp_config :: "(json \<Rightarrow> string) \<Rightarrow> (string \<Rightarrow> string option) \<Rightarrow> obj \<Rightarrow> string + (string \<times> json) option" where
  "mcp_config str env d =
     (let sid = py_str str (obj_get d ''server_id'' (JStr [])); transport = obj_get d ''transport'' JNull; field = (\<lambda>k. obj_get d k JNull) in
      if sid = [] then Inr None
      else case dict_field d ''headers'' of Inl e \<Rightarrow> Inl e | Inr h0 \<Rightarrow> (case resolve_headers env h0 of Inl e \<Rightarrow> Inl e | Inr headers \<Rightarrow>
        if transport = JStr ''http'' then Inr (Some (sid, JObj [(''http_url'', field ''http_url''), (''headers'', JObj headers)]))
        else if transport = JStr ''sse'' then Inr (Some (sid, JObj [(''url'', field ''sse_url''), (''headers'', JObj headers)]))
        else if transport = JStr ''stdio''
        then (case py_iter (or_default d ''args'' (JArr [])) of None \<Rightarrow> Inl ''TypeError'' | Some args \<Rightarrow>
          (case dict_field d ''env'' of Inl e \<Rightarrow> Inl e | Inr e0 \<Rightarrow> (case resolve_headers env e0 of Inl e \<Rightarrow> Inl e | Inr vars \<Rightarrow>
             Inr (Some (sid, JObj [(''command'', field ''command''), (''args'', JArr args), (''env'', JObj vars), (''cwd'', field ''cwd'')])))))
        else Inr None))"

fun build_mcp_server_configs :: "(json \<Rightarrow> string) \<Rightarrow> (string \<Rightarrow> string option) \<Rightarrow> json list \<Rightarrow> (string \<times> json) list \<Rightarrow> string + (string \<times> json) list" where
  "build_mcp_server_configs str env [] acc = Inr acc"
| "build_mcp_server_configs str env (r # rs) acc = (case r of
       JObj d \<Rightarrow> (case mcp_config str env d of
           Inl e \<Rightarrow> Inl e
         | Inr None \<Rightarrow> build_mcp_server_configs str env rs acc
         | Inr (Some (sid, c)) \<Rightarrow> build_mcp_server_configs str env rs (AList.update sid c acc))
     | _ \<Rightarrow> build_mcp_server_configs str env rs acc)"

section \<open>Tools of a run\<close>

definition descriptor_validate :: "json \<Rightarrow> tool_descriptor option" where
  "descriptor_validate j = (case j of JObj d \<Rightarrow>
       (case (str_field d ''name'', obj_get d ''version'' (JStr ''1''), obj_get d ''requires_approval'' (JBool False),
              obj_get d ''description'' (JStr [])) of
          (Some n, JStr v, JBool ra, JStr de) \<Rightarrow>
            Some \<lparr>td_name = n, td_version = v, td_requires_approval = ra, td_description = de\<rparr>
        | _ \<Rightarrow> None)
     | _ \<Rightarrow> None)"

definition json_strings :: "json \<Rightarrow> string list option" where
  "json_strings j = (case j of JArr xs \<Rightarrow> all_some (map (\<lambda>x. case x of JStr s \<Rightarrow> Some s | _ \<Rightarrow> None) xs) | _ \<Rightarrow> None)"

definition echo_tool :: "'w handler" where
  "echo_tool args w = (Inr (obj_get args ''value'' JNull), w)"

text \<open>Handlers of the MCP provider win over those of the process, which win over \<open>echo\<close>.\<close>

definition run_handlers :: "'w tools \<Rightarrow> json list \<Rightarrow> string \<Rightarrow> 'w handler option" where
  "run_handlers t refs n = (case snd (tl_mcp t refs) n of Some h \<Rightarrow> Some h
     | None \<Rightarrow> (case tl_handlers t n of Some h \<Rightarrow> Some h
         | None \<Rightarrow> if n = ''echo'' then Some echo_tool else None))"

definition mcp_refs_of :: "run_request \<Rightarrow> json list" where
  "mcp_refs_of q = (case obj_get (q_context_bundle q) ''mcp_refs'' (JArr []) of JArr xs \<Rightarrow> xs | _ \<Rightarrow> [])"

definition run_tool_executor :: "'w tools \<Rightarrow> run_request \<Rightarrow> tool_executor option" where
  "run_tool_executor t q =
     (case obj_get (q_tool_policy q) ''tools'' (JArr [JObj [(''name'', JStr ''echo'')]]) of JArr raw \<Rightarrow>
        (case all_some (map descriptor_validate raw) of None \<Rightarrow> None | Some ds0 \<Rightarrow>
          (let ds = ds0 @ fst (tl_mcp t (mcp_refs_of q)) in
           case (json_strings (obj_get (q_tool_policy q) ''allowed_tools'' (JArr (map (\<lambda>d. JStr (td_name d)) ds))),
                 json_strings (obj_get (q_tool_policy q) ''approval_required_tools'' (JArr []))) of
             (Some allowed, Some needs) \<Rightarrow> Some \<lparr>ex_table = descriptor_table ds,
                ex_policy = \<lparr>gp_allowed_tools = allowed, gp_approval_required_tools = needs\<rparr>, ex_results = []\<rparr>
           | _ \<Rightarrow> None))
      | _ \<Rightarrow> None)"

text \<open>\<open>_execute_tool_batch\<close>: run the batch, emit the results, finish the run.\<close>

definition execute_tool_batch :: "digests \<Rightarrow> 'w tools \<Rightarrow> (int \<Rightarrow> uuid) \<Rightarrow> time \<Rightarrow> approval_decision option
    \<Rightarrow> run_state \<Rightarrow> 'w \<Rightarrow> http_error + (run_state \<times> 'w)" where
  "execute_tool_batch hx t ids now decision s w =
     (case (rs_executor s, rs_tool_batch s, rs_authorization s) of
        (Some ex, Some batch, Some auth) \<Rightarrow>
          (case execute (hx_batch hx) (run_handlers t (mcp_refs_of (rs_request s))) batch auth decision
                  (ex_results ex, w) of
             Inl e \<Rightarrow> Inl (Crash ''tool execution'')
           | Inr (rs, (cache, w')) \<Rightarrow>
               (let s1 = s\<lparr>rs_executor := Some (ex\<lparr>ex_results := cache\<rparr>)\<rparr>;
                    s2 = fold (\<lambda>r. emit ids now ''tool.result'' (result_dump r)) rs s1;
                    s3 = s2\<lparr>rs_status := ''COMPLETED'', rs_pending := None\<rparr> in
                Inr (emit ids now ''run.completed'' [(''result'', JObj [(''status'', JStr ''completed''),
                       (''tool_calls'', JInt (int (length rs)))])] s3, w')))
      | _ \<Rightarrow> Inl (Crash ''assertion''))"

section \<open>Handlers\<close>

definition start_run :: "(json \<Rightarrow> string) \<Rightarrow> (string \<Rightarrow> string option) \<Rightarrow> lease_env \<Rightarrow> (int \<Rightarrow> uuid) \<Rightarrow> time \<Rightarrow> string \<Rightarrow> run_request \<Rightarrow> 'w app
    \<Rightarrow> (http_error + json) \<times> 'w app" where
  "start_run str vars env ids now iid q a = (case a of (g, w) \<Rightarrow>
     (case validate_container_fence env q of Some e \<Rightarrow> (Inl e, a) | None \<Rightarrow>
       (case reg_get now (q_run_id q) g of
          (Some s, g1) \<Rightarrow> (case validate_duplicate_run s q of
              Some e \<Rightarrow> (Inl e, (g1, w))
            | None \<Rightarrow> (Inr (reply (q_run_id q) (rs_status s) (rs_events s)), (g1, w)))
        | (None, _) \<Rightarrow>
            (let g1 = reg_set now (q_run_id q) (new_run_state q) g;
                 s1 = emit ids now ''run.started'' [(''conversation_id'', JStr (q_conversation q))] (new_run_state q) in
             case build_mcp_server_configs str vars (mcp_refs_of q) [] of
               Inl e \<Rightarrow> (Inl (Crash e), (reg_put (q_run_id q) s1 g1, w))
             | Inr servers \<Rightarrow>
            (let task = py_str str (obj_get (q_context_bundle q) ''task'' (JStr []));
                 s2 = (if py_startswith task ''ask:''
                   then (let p = [(''interaction_id'', JStr iid), (''question'', JStr (drop 4 task))] in
                     emit ids now ''interaction.requested'' p (s1\<lparr>rs_status := ''WAITING_INPUT'', rs_pending := Some p\<rparr>))
                   else emit ids now ''run.completed'' [(''result'', JObj [(''status'', JStr ''completed'')])]
                     (emit ids now ''message'' [(''content'', JStr (''completed: '' @ task))] (s1\<lparr>rs_status := ''COMPLETED''\<rparr>))) in
             (Inr (reply (q_run_id q) (rs_status s2) (rs_events s2)), (reg_put (q_run_id q) s2 g1, w)))))))"

text \<open>Every command replies with the events it added and remembers the reply under its command id.\<close>

definition finish_command :: "uuid \<Rightarrow> uuid option \<Rightarrow> nat \<Rightarrow> run_state \<Rightarrow> json \<times> run_state" where
  "finish_command rid cmd first s = (let r = reply rid (rs_status s) (drop first (rs_events s)) in
     (r, remember_command cmd r s))"

definition accept_input :: "(int \<Rightarrow> uuid) \<Rightarrow> time \<Rightarrow> uuid \<Rightarrow> input_request \<Rightarrow> 'w app \<Rightarrow> (http_error + json) \<times> 'w app" where
  "accept_input ids now rid q a = (case a of (g, w) \<Rightarrow> (case reg_get now rid g of
       (None, g1) \<Rightarrow> (Inl (HTTPException 404 ''run not found''), (g1, w))
     | (Some s, g1) \<Rightarrow>
         (case cached_command (in_command q) s of Some r \<Rightarrow> (Inr r, (g1, w)) | None \<Rightarrow>
          (case (if rs_status s \<noteq> ''WAITING_INPUT'' then None else rs_pending s) of
             None \<Rightarrow> (Inl (HTTPException 409 ''run is not waiting for input''), (g1, w))
           | Some [] \<Rightarrow> (Inl (HTTPException 409 ''run is not waiting for input''), (g1, w))
           | Some p \<Rightarrow>
               if map_of p ''interaction_id'' = None then (Inl (Crash ''KeyError''), (g1, w))
               else if map_of p ''interaction_id'' \<noteq> Some (JStr (in_interaction q))
               then (Inl (HTTPException 409 ''interaction mismatch''), (g1, w))
               else if obj_get p ''kind'' JNull = JStr ''approval''
               then (Inl (HTTPException 409 ''run requires approval''), (g1, w))
               else (let s1 = emit ids now ''run.completed'' [(''result'', JObj [(''status'', JStr ''completed'')])]
                       (emit ids now ''message'' [(''input'', in_value q)]
                         (s\<lparr>rs_pending := None, rs_status := ''COMPLETED''\<rparr>)) in
                     case finish_command rid (in_command q) (length (rs_events s)) s1 of
                       (r, s2) \<Rightarrow> (Inr r, (reg_put rid s2 g1, w)))))))"

definition accept_approval :: "digests \<Rightarrow> 'w tools \<Rightarrow> (int \<Rightarrow> uuid) \<Rightarrow> time \<Rightarrow> uuid \<Rightarrow> approval_post \<Rightarrow> 'w app
    \<Rightarrow> (http_error + json) \<times> 'w app" where
  "accept_approval hx t ids now rid q a = (case a of (g, w) \<Rightarrow> (case reg_get now rid g of
       (None, g1) \<Rightarrow> (Inl (HTTPException 404 ''run not found''), (g1, w))
     | (Some s, g1) \<Rightarrow>
         (case cached_command (po_command q) s of Some r \<Rightarrow> (Inr r, (g1, w)) | None \<Rightarrow>
          (case (if rs_status s \<noteq> ''WAITING_INPUT'' then None else rs_pending s) of
             None \<Rightarrow> (Inl (HTTPException 409 ''run is not waiting for approval''), (g1, w))
           | Some [] \<Rightarrow> (Inl (HTTPException 409 ''run is not waiting for approval''), (g1, w))
           | Some p \<Rightarrow>
               if map_of p ''interaction_id'' = None then (Inl (Crash ''KeyError''), (g1, w))
               else if map_of p ''interaction_id'' \<noteq> Some (JStr (po_approval q))
               then (Inl (HTTPException 409 ''approval mismatch''), (g1, w))
               else (case decision_of (po_decision q) of
                   None \<Rightarrow> (Inl (HTTPException 422 ''invalid approval decision''), (g1, w))
                 | Some dec \<Rightarrow>
                     (case (if rs_tool_batch s \<noteq> None then execute_tool_batch hx t ids now (Some dec) s w
                            else Inr (emit ids now ''run.completed'' [(''result'', JObj [(''status'', JStr ''completed''),
                                   (''approval'', JStr (po_decision q))])]
                                   (s\<lparr>rs_pending := None, rs_status := ''COMPLETED''\<rparr>), w)) of
                        Inl e \<Rightarrow> (Inl e, (g1, w))
                      | Inr (s1, w') \<Rightarrow> (case finish_command rid (po_command q) (length (rs_events s)) s1 of
                          (r, s2) \<Rightarrow> (Inr r, (reg_put rid s2 g1, w')))))))))"

definition cancel_run :: "(int \<Rightarrow> uuid) \<Rightarrow> time \<Rightarrow> uuid \<Rightarrow> uuid option \<Rightarrow> 'w app \<Rightarrow> (http_error + json) \<times> 'w app" where
  "cancel_run ids now rid cmd a = (case a of (g, w) \<Rightarrow> (case reg_get now rid g of
       (None, g1) \<Rightarrow> (Inl (HTTPException 404 ''run not found''), (g1, w))
     | (Some s, g1) \<Rightarrow>
         (case cached_command cmd s of Some r \<Rightarrow> (Inr r, (g1, w)) | None \<Rightarrow>
           if rs_status s = ''CANCELLED''
           then (let r = reply rid (rs_status s) [] in (Inr r, (reg_put rid (remember_command cmd r s) g1, w)))
           else (case finish_command rid cmd (length (rs_events s))
                        (emit ids now ''run.cancelled'' [] (s\<lparr>rs_status := ''CANCELLED'', rs_pending := None\<rparr>)) of
                   (r, s1) \<Rightarrow> (Inr r, (reg_put rid s1 g1, w))))))"

definition bundle_dump :: "context_bundle \<Rightarrow> obj" where
  "bundle_dump b = [(''task'', JStr (cb_task b)), (''conversation_id'', JStr (cb_conversation b)),
     (''workspace_ref'', JStr (cb_workspace_ref b)), (''recent_events'', JArr (cb_recent_events b)),
     (''skill_catalog'', JArr (cb_skill_catalog b)), (''tool_policy'', JObj (cb_tool_policy b)),
     (''mcp_refs'', JArr (cb_mcp_refs b))]"

text \<open>\<open>d.update(e)\<close>, and a list-valued field with its default.\<close>

definition dict_update :: "obj \<Rightarrow> obj \<Rightarrow> obj" where
  "dict_update e d = fold (\<lambda>(k, v). AList.update k v) e d"

definition arr_field :: "obj \<Rightarrow> string \<Rightarrow> json list option" where
  "arr_field d k = (case obj_get d k (JArr []) of JArr xs \<Rightarrow> Some xs | _ \<Rightarrow> None)"

text \<open>The tool policy a checkpoint carries: the one of the run, the pending batch, what a Trae execution adds (\<open>extra\<close>), the replies and the hashes.\<close>

definition checkpoint_policy :: "digests \<Rightarrow> obj \<Rightarrow> run_state \<Rightarrow> obj option" where
  "checkpoint_policy hx extra s =
     (case (case rs_pending s of None \<Rightarrow> Some (q_tool_policy (rs_request s))
              | Some p \<Rightarrow> (case obj_get p ''tool_policy'' (JObj []) of
                   JObj d \<Rightarrow> Some (dict_update d (q_tool_policy (rs_request s))) | _ \<Rightarrow> None)) of
        None \<Rightarrow> None
      | Some tp \<Rightarrow>
          (let tp1 = (case rs_tool_batch s of None \<Rightarrow> tp | Some b \<Rightarrow>
                 dict_update [(''tool_batch'', batch_dump b), (''tool_batch_hash'', JStr (hx_batch hx b)),
                              (''pending_tool_calls'', JArr (map call_dump b))] tp);
               tp2 = AList.update ''command_results'' (JObj (rs_command_results s)) (dict_update extra tp1) in
           case arr_field tp2 ''tools'' of None \<Rightarrow> None | Some raw \<Rightarrow>
             (let tp3 = AList.update ''tool_policy_hash'' (JStr (hx_policy hx tp2)) tp2 in
              Some (if raw \<noteq> [] \<and> hx_versions hx raw \<noteq> []
                    then AList.update ''tool_versions_hash'' (JStr (hx_versions hx raw)) tp3 else tp3))))"

definition checkpoint_of :: "(json \<Rightarrow> string) \<Rightarrow> digests \<Rightarrow> obj \<Rightarrow> uuid \<Rightarrow> time \<Rightarrow> uuid \<Rightarrow> run_state \<Rightarrow> checkpoint option" where
  "checkpoint_of str hx extra kid now rid s =
     (let q = rs_request s; cb = q_context_bundle q in
      case (checkpoint_policy hx extra s, arr_field cb ''skill_catalog'', arr_field cb ''mcp_refs'') of
        (Some tp, Some skills, Some refs) \<Rightarrow>
          (let ctx = \<lparr>cb_task = py_str str (obj_get cb ''task'' (JStr [])), cb_conversation = q_conversation q,
                 cb_workspace_ref = q_workspace_ref q, cb_recent_events = map event_dump (rs_events s),
                 cb_skill_catalog = skills, cb_tool_policy = tp, cb_mcp_refs = refs\<rparr> in
           Some \<lparr>cp_id = kid, cp_conversation = q_conversation q, cp_run_id = rid,
             cp_last_event_seq = int (length (rs_events s)), cp_context_bundle = ctx,
             cp_pending_interaction = rs_pending s,
             cp_pending_tool_calls = (case rs_tool_batch s of None \<Rightarrow> [] | Some b \<Rightarrow> map call_dump b),
             cp_tool_batch_hash = map_option (hx_batch hx) (rs_tool_batch s),
             cp_tool_policy_hash = (case map_of tp ''tool_policy_hash'' of Some (JStr h) \<Rightarrow> Some h | _ \<Rightarrow> None),
             cp_tool_versions_hash = (case arr_field tp ''tools'' of Some (x # xs) \<Rightarrow> Some (hx_versions hx (x # xs)) | _ \<Rightarrow> None),
             cp_workspace_ref = q_workspace_ref q, cp_workspace_write_lease_epoch = q_lease_epoch q,
             cp_core_type = ''trae'', cp_core_version = q_core_version q,
             cp_context_bundle_hash = hx_context hx ctx, cp_created_at = now\<rparr>)
      | _ \<Rightarrow> None)"

definition checkpoint_run :: "(json \<Rightarrow> string) \<Rightarrow> digests \<Rightarrow> (int \<Rightarrow> uuid) \<Rightarrow> uuid \<Rightarrow> time \<Rightarrow> uuid \<Rightarrow> string \<Rightarrow> 'w app
    \<Rightarrow> (http_error + checkpoint) \<times> 'w app" where
  "checkpoint_run str hx ids kid now rid why a = (case a of (g, w) \<Rightarrow> (case reg_get now rid g of
       (None, g1) \<Rightarrow> (Inl (HTTPException 404 ''run not found''), (g1, w))
     | (Some s, g1) \<Rightarrow> (case checkpoint_of str hx [] kid now rid s of
           None \<Rightarrow> (Inl (Crash ''validation''), (g1, w))
         | Some k \<Rightarrow> (Inr k, (reg_put rid (emit ids now ''checkpoint.created''
               [(''checkpoint_id'', JStr kid), (''reason'', JStr why)] s) g1, w)))))"

text \<open>The request a runner rebuilds from a checkpoint when it does not know the run.\<close>

definition restored_request :: "uuid \<Rightarrow> uuid \<Rightarrow> resume_request \<Rightarrow> run_request" where
  "restored_request fresh rid q = (let k = re_checkpoint q in
     \<lparr>q_run_id = rid, q_conversation = cp_conversation k, q_session = or_else (re_session q) fresh,
      q_container = (if str_true (re_container q) then the (re_container q) else ''restored''),
      q_lease_epoch = (if or_else (re_lease_epoch q) 0 \<noteq> 0 then the (re_lease_epoch q) else cp_workspace_write_lease_epoch k),
      q_fence_epoch = or_else (re_fence_epoch q) 0,
      q_correlation = (if str_true (re_correlation q) then the (re_correlation q) else ''resume''),
      q_context_bundle = bundle_dump (cp_context_bundle k), q_workspace_ref = cp_workspace_ref k,
      q_tool_policy = cb_tool_policy (cp_context_bundle k), q_core_version = cp_core_version k\<rparr>)"

definition restore_run :: "lease_env \<Rightarrow> uuid \<Rightarrow> time \<Rightarrow> uuid \<Rightarrow> resume_request \<Rightarrow> registry \<Rightarrow> (http_error + run_state) \<times> registry" where
  "restore_run env fresh now rid q g =
     (let rq = restored_request fresh rid q; s = new_run_state rq in
      case validate_container_fence env rq of Some e \<Rightarrow> (Inl e, g) | None \<Rightarrow>
        (case obj_get (cb_tool_policy (cp_context_bundle (re_checkpoint q))) ''command_results'' (JObj []) of
           JObj results \<Rightarrow> (Inr (s\<lparr>rs_command_results := results\<rparr>),
                              reg_put rid (s\<lparr>rs_command_results := results\<rparr>) (reg_set now rid s g))
         | _ \<Rightarrow> (Inl (Crash ''command results''), reg_set now rid s g)))"

text \<open>The batch a checkpoint left pending, put into the run with a fresh authorization.\<close>

definition pending_batch :: "checkpoint \<Rightarrow> json option" where
  "pending_batch k =
     (let raw = (case cp_pending_interaction k of None \<Rightarrow> JNull | Some p \<Rightarrow> obj_get p ''tool_batch'' JNull) in
      if raw \<noteq> JNull then Some raw
      else if cp_pending_tool_calls k \<noteq> [] then Some (JObj [(''calls'', JArr (cp_pending_tool_calls k))])
      else None)"

definition load_batch :: "digests \<Rightarrow> 'w tools \<Rightarrow> checkpoint \<Rightarrow> run_state \<Rightarrow> http_error + run_state" where
  "load_batch hx t k s = (case pending_batch k of None \<Rightarrow> Inr s | Some raw \<Rightarrow>
     (case batch_validate raw of None \<Rightarrow> Inl (Crash ''tool batch'') | Some b \<Rightarrow>
        if str_true (cp_tool_batch_hash k) \<and> Some (hx_batch hx b) \<noteq> cp_tool_batch_hash k
        then Inl (HTTPException 409 ''tool batch hash mismatch'')
        else (case run_tool_executor t (rs_request s) of None \<Rightarrow> Inl (Crash ''tool executor'') | Some ex \<Rightarrow>
          Inr (s\<lparr>rs_executor := Some ex, rs_tool_batch := Some b,
                 rs_authorization := Some (authorize (hx_digest hx) (hx_batch hx) (ex_table ex) (ex_policy ex) b)\<rparr>))))"

definition resume_known :: "(json \<Rightarrow> string) \<Rightarrow> (string \<Rightarrow> string option) \<Rightarrow> digests \<Rightarrow> 'w tools \<Rightarrow> (int \<Rightarrow> uuid) \<Rightarrow> time \<Rightarrow> uuid \<Rightarrow> resume_request
    \<Rightarrow> nat \<Rightarrow> run_state \<Rightarrow> 'w \<Rightarrow> (http_error + json) \<times> run_state \<times> 'w" where
  "resume_known str vars hx t ids now rid q first s w =
     (case cached_command (re_command q) s of Some r \<Rightarrow> (Inr r, s, w) | None \<Rightarrow>
      (case build_mcp_server_configs str vars (cb_mcp_refs (cp_context_bundle (re_checkpoint q))) [] of
         Inl e \<Rightarrow> (Inl (Crash e), s, w)
       | Inr servers \<Rightarrow>
       (case load_batch hx t (re_checkpoint q) s of Inl e \<Rightarrow> (Inl e, s, w) | Inr s1 \<Rightarrow>
         (let s2 = (emit ids now ''checkpoint.restored'' [(''checkpoint_id'', JStr (cp_id (re_checkpoint q)))] s1)
                      \<lparr>rs_pending := None\<rparr> in
          if rs_tool_batch s2 \<noteq> None
          then (case decision_of (py_str str (re_value q)) of
              None \<Rightarrow> (Inl (HTTPException 422 ''tool batch resume requires an approval decision''), s2, w)
            | Some dec \<Rightarrow> (case execute_tool_batch hx t ids now (Some dec) s2 w of
                  Inl e \<Rightarrow> (Inl e, s2, w)
                | Inr (s3, w') \<Rightarrow> (case finish_command rid (re_command q) first s3 of (r, s4) \<Rightarrow> (Inr r, s4, w'))))
          else
            (let s3 = emit ids now ''run.completed'' [(''result'', JObj [(''status'', JStr ''completed''), (''resumed'', JBool True)])]
                  (emit ids now ''message'' [(''input'', re_value q)] (s2\<lparr>rs_status := ''COMPLETED''\<rparr>)) in
             case finish_command rid (re_command q) first s3 of (r, s4) \<Rightarrow> (Inr r, s4, w))))))"

definition resume_run_app :: "(json \<Rightarrow> string) \<Rightarrow> (string \<Rightarrow> string option) \<Rightarrow> digests \<Rightarrow> 'w tools \<Rightarrow> lease_env \<Rightarrow> uuid \<Rightarrow> (int \<Rightarrow> uuid) \<Rightarrow> time \<Rightarrow> uuid
    \<Rightarrow> resume_request \<Rightarrow> 'w app \<Rightarrow> (http_error + json) \<times> 'w app" where
  "resume_run_app str vars hx t env fresh ids now rid q a = (case a of (g, w) \<Rightarrow> (case reg_get now rid g of
       (Some s, g1) \<Rightarrow> (case resume_known str vars hx t ids now rid q (length (rs_events s)) s w of
           (res, s', w') \<Rightarrow> (res, (reg_put rid s' g1, w')))
     | (None, g1) \<Rightarrow> (case restore_run env fresh now rid q g1 of
           (Inl e, g2) \<Rightarrow> (Inl e, (g2, w))
         | (Inr s, g2) \<Rightarrow> (case resume_known str vars hx t ids now rid q 0 s w of
             (res, s', w') \<Rightarrow> (res, (reg_put rid s' g2, w'))))))"

definition run_events :: "time \<Rightarrow> uuid \<Rightarrow> int \<Rightarrow> 'w app \<Rightarrow> (http_error + event_envelope list) \<times> 'w app" where
  "run_events now rid after a = (case a of (g, w) \<Rightarrow> (case reg_get now rid g of
       (None, g1) \<Rightarrow> (Inl (HTTPException 404 ''run not found''), (g1, w))
     | (Some s, g1) \<Rightarrow> (Inr (filter (\<lambda>e. after < ev_seq e) (rs_events s)), (g1, w))))"

section \<open>The invariant of the process\<close>

definition run_ok :: "run_state \<Rightarrow> bool" where
  "run_ok s = (map ev_seq (rs_events s) = [1..int (length (rs_events s))])"

definition app_inv :: "'w app \<Rightarrow> bool" where
  "app_inv a = (reg_inv (fst a) \<and> list_all (\<lambda>(k, s). run_ok s) (rg_runs (fst a)))"

text \<open>One handled request, whatever it is and whatever it replied.\<close>

inductive app_step :: "'w app \<Rightarrow> 'w app \<Rightarrow> bool" where
  started: "app_step a (snd (start_run str vars env ids now iid q a))"
| input: "app_step a (snd (accept_input ids now rid iq a))"
| decided: "app_step a (snd (accept_approval hx t ids now rid aq a))"
| cancelled: "app_step a (snd (cancel_run ids now rid cmd a))"
| checkpointed: "app_step a (snd (checkpoint_run str hx ids kid now rid why a))"
| resumed: "app_step a (snd (resume_run_app str vars hx t env fresh ids now rid rq a))"
| listed: "app_step a (snd (run_events now rid after a))"

section \<open>Lemmas\<close>

lemma emit_fields [simp]:
  "rs_status (emit ids now ty p s) = rs_status s" "rs_request (emit ids now ty p s) = rs_request s"
  "rs_tool_batch (emit ids now ty p s) = rs_tool_batch s" "rs_executor (emit ids now ty p s) = rs_executor s"
  "rs_authorization (emit ids now ty p s) = rs_authorization s"
  "rs_command_results (emit ids now ty p s) = rs_command_results s"
  by (simp_all add: emit_def Let_def)

lemma emit_ok [simp]: "run_ok (emit ids now ty p s) \<longleftrightarrow> run_ok s"
  by (auto simp: run_ok_def emit_def Let_def mk_event_def upto_rec2)

lemma run_ok_update [simp]:
  "run_ok (s\<lparr>rs_status := x\<rparr>) = run_ok s" "run_ok (s\<lparr>rs_pending := y\<rparr>) = run_ok s"
  "run_ok (s\<lparr>rs_executor := e\<rparr>) = run_ok s" "run_ok (s\<lparr>rs_tool_batch := b\<rparr>) = run_ok s"
  "run_ok (s\<lparr>rs_authorization := u\<rparr>) = run_ok s" "run_ok (s\<lparr>rs_command_results := c\<rparr>) = run_ok s"
  "run_ok (remember_command cmd r s) = run_ok s" "run_ok (new_run_state q)"
  by (simp_all add: run_ok_def remember_command_def new_run_state_def split: option.split)

lemma fold_emit [simp]:
  "run_ok (fold (\<lambda>r. emit ids now ty (f r)) rs s) = run_ok s"
  "rs_status (fold (\<lambda>r. emit ids now ty (f r)) rs s) = rs_status s"
  by (induction rs arbitrary: s) simp_all

lemma remember_status [simp]: "rs_status (remember_command cmd r s) = rs_status s"
  by (simp add: remember_command_def split: option.split)

lemma finish_command_run:
  "finish_command rid cmd n s = (r, s') \<Longrightarrow> s' = remember_command cmd r s"
  by (auto simp: finish_command_def Let_def)

lemma execute_tool_batch_Inr:
  "execute_tool_batch hx t ids now dec s w = Inr (s', w') \<Longrightarrow> rs_status s' = ''COMPLETED'' \<and> run_ok s' = run_ok s"
  by (auto simp: execute_tool_batch_def Let_def split: option.splits sum.splits)

lemma load_batch_Inr: "load_batch hx t k s = Inr s' \<Longrightarrow> rs_status s' = rs_status s \<and> run_ok s' = run_ok s"
  by (auto simp: load_batch_def split: option.splits if_splits)

text \<open>A resumed run is finished, or as finished as it was.\<close>

lemma resume_known_run:
  assumes "resume_known str vars hx t ids now rid q n s w = (res, s', w')"
  shows "run_ok s' = run_ok s \<and> (rs_status s' = ''COMPLETED'' \<or> rs_status s' = rs_status s)"
proof (cases "cached_command (re_command q) s")
  case None
  show ?thesis
  proof (cases "load_batch hx t (re_checkpoint q) s")
    case (Inr s1)
    with assms None load_batch_Inr [OF Inr] show ?thesis
      by (auto simp: resume_known_def Let_def split: if_splits option.splits sum.splits prod.splits
          dest!: execute_tool_batch_Inr finish_command_run)
  qed (use assms None in \<open>auto simp: resume_known_def split: sum.splits\<close>)
qed (use assms in \<open>auto simp: resume_known_def\<close>)

lemma terminal_COMPLETED [simp]: "''COMPLETED'' \<in> set TERMINAL_STATUSES" "''CANCELLED'' \<in> set TERMINAL_STATUSES"
  by (simp_all add: TERMINAL_STATUSES_def)

lemma app_inv_put:
  assumes "app_inv (g, w)" "run_ok s" "marked g rid \<Longrightarrow> rs_status s \<in> set TERMINAL_STATUSES"
  shows "app_inv (reg_put rid s g, w')"
proof -
  have "reg_inv (reg_put rid s g)" using assms by (auto simp: app_inv_def intro: reg_put_inv)
  moreover have "list_all (\<lambda>(k, s). run_ok s) (AList.update rid s xs)" if "list_all (\<lambda>(k, s). run_ok s) xs" for xs
    using that assms(2) by (induction xs) auto
  ultimately show ?thesis using assms(1) by (simp add: app_inv_def reg_put_def)
qed

lemma app_inv_observe: "app_inv (g, w) \<Longrightarrow> app_inv (observe now rid g, w')"
  by (simp add: app_inv_def observe_inv)

lemma app_inv_known:
  assumes "app_inv (g, w)" "map_of (rg_runs g) rid = Some s"
  shows "run_ok s" "marked (observe now rid g) rid \<Longrightarrow> rs_status s \<in> set TERMINAL_STATUSES"
proof -
  show "run_ok s" using assms map_of_SomeD [OF assms(2)] by (auto simp: app_inv_def list_all_iff)
  assume "marked (observe now rid g) rid"
  then have "finished g rid" using assms(1) by (auto simp: app_inv_def reg_inv_alt observe_marks)
  then show "rs_status s \<in> set TERMINAL_STATUSES" using assms(2) by (simp add: finished_def)
qed

lemma app_inv_prune: "app_inv (g, w) \<Longrightarrow> app_inv (snd (prune now g), w)"
  by (auto simp: app_inv_def prune_inv) (auto simp: prune_def Let_def forget_def list_all_iff)

text \<open>A run that is new to the registry enters it unmarked.\<close>

lemma app_inv_new:
  assumes "app_inv (g, w)" "map_of (rg_runs g) rid = None"
  shows "app_inv (reg_set now rid (new_run_state q) g, w)" "\<not> marked (reg_set now rid (new_run_state q) g) rid"
proof -
  let ?p = "snd (prune now g)"
  have ip: "app_inv (?p, w)" by (rule app_inv_prune [OF assms(1)])
  have "map_of (rg_runs ?p) rid = None" using assms(2) by (simp add: prune_def Let_def)
  then have "\<not> finished ?p rid" by (simp add: finished_def)
  then have nm: "\<not> marked ?p rid" using ip by (auto simp: app_inv_def reg_inv_alt)
  then have i: "app_inv (reg_put rid (new_run_state q) ?p, w)" by (intro app_inv_put [OF ip]) auto
  then show "app_inv (reg_set now rid (new_run_state q) g, w)" by (simp add: reg_set_def app_inv_observe)
  have "\<not> finished (reg_put rid (new_run_state q) ?p) rid"
    by (simp add: finished_def reg_put_def update_conv' new_run_state_def TERMINAL_STATUSES_def)
  then show "\<not> marked (reg_set now rid (new_run_state q) g) rid"
    using nm by (simp add: reg_set_def observe_marks) (simp add: marked_def reg_put_def)
qed

lemma app_inv_back:
  assumes "app_inv (g, w)" "map_of (rg_runs g) rid = Some s"
    "run_ok s \<Longrightarrow> run_ok s2" "rs_status s2 \<in> set TERMINAL_STATUSES \<or> rs_status s2 = rs_status s"
  shows "app_inv (reg_put rid s2 (observe now rid g), w')"
  using app_inv_known [OF assms(1,2)] assms(3,4)
  by (intro app_inv_put [OF app_inv_observe [OF assms(1)]]) auto

lemma start_run_inv [inv_intros]:
  assumes "app_inv (g, w)"
  shows "app_inv (snd (start_run str vars env ids now iid q (g, w)))"
proof (cases "map_of (rg_runs g) (q_run_id q)")
  case None
  note new = app_inv_new [OF assms None, of now q]
  show ?thesis
    using assms new None
    by (auto simp: start_run_def reg_get_def Let_def split: option.splits sum.splits intro!: app_inv_put [OF new(1)])
next
  case (Some s)
  then show ?thesis using assms
    by (auto simp: start_run_def reg_get_def app_inv_observe split: option.splits)
qed

lemma accept_input_inv [inv_intros]:
  assumes "app_inv (g, w)"
  shows "app_inv (snd (accept_input ids now rid q (g, w)))"
proof (cases "map_of (rg_runs g) rid")
  case (Some s)
  show ?thesis
    using assms Some
    by (auto simp: accept_input_def reg_get_def app_inv_observe Let_def finish_command_def
        split: option.splits list.splits if_splits intro!: app_inv_back [OF assms Some])
qed (use assms in \<open>simp add: accept_input_def reg_get_def app_inv_observe\<close>)

lemma accept_approval_inv [inv_intros]:
  assumes "app_inv (g, w)"
  shows "app_inv (snd (accept_approval hx t ids now rid q (g, w)))"
proof (cases "map_of (rg_runs g) rid")
  case (Some s)
  show ?thesis
    using assms Some
    by (auto simp: accept_approval_def reg_get_def app_inv_observe Let_def finish_command_def
        split: option.splits list.splits if_splits sum.splits
        intro!: app_inv_back [OF assms Some] dest: execute_tool_batch_Inr)
qed (use assms in \<open>simp add: accept_approval_def reg_get_def app_inv_observe\<close>)

lemma cancel_run_inv [inv_intros]:
  assumes "app_inv (g, w)"
  shows "app_inv (snd (cancel_run ids now rid cmd (g, w)))"
proof (cases "map_of (rg_runs g) rid")
  case (Some s)
  show ?thesis
    using assms Some
    by (auto simp: cancel_run_def reg_get_def app_inv_observe Let_def finish_command_def
        split: option.splits intro!: app_inv_back [OF assms Some])
qed (use assms in \<open>simp add: cancel_run_def reg_get_def app_inv_observe\<close>)

lemma checkpoint_run_inv [inv_intros]:
  assumes "app_inv (g, w)"
  shows "app_inv (snd (checkpoint_run str hx ids kid now rid why (g, w)))"
proof (cases "map_of (rg_runs g) rid")
  case (Some s)
  show ?thesis
    using assms Some
    by (auto simp: checkpoint_run_def reg_get_def app_inv_observe split: option.splits
        intro!: app_inv_back [OF assms Some])
qed (use assms in \<open>simp add: checkpoint_run_def reg_get_def app_inv_observe\<close>)

lemma resume_run_app_inv [inv_intros]:
  assumes "app_inv (g, w)"
  shows "app_inv (snd (resume_run_app str vars hx t env fresh ids now rid q (g, w)))"
proof (cases "map_of (rg_runs g) rid")
  case (Some s)
  obtain res s' w' where r: "resume_known str vars hx t ids now rid q (length (rs_events s)) s w = (res, s', w')"
    by (metis prod_cases3)
  have "app_inv (reg_put rid s' (observe now rid g), w')"
    using resume_known_run [OF r] by (intro app_inv_back [OF assms Some]) auto
  then show ?thesis by (simp add: resume_run_app_def reg_get_def Some r)
next
  case None
  let ?g = "observe now rid g" and ?s = "new_run_state (restored_request fresh rid q)"
  have n: "map_of (rg_runs ?g) rid = None" using None by simp
  note new = app_inv_new [OF app_inv_observe [OF assms] n, of now "restored_request fresh rid q"]
  show ?thesis
  proof (cases "restore_run env fresh now rid q ?g")
    case (Pair res g2)
    show ?thesis
    proof (cases res)
      case (Inl e)
      then show ?thesis using Pair new(1) assms
        by (auto simp: resume_run_app_def reg_get_def None restore_run_def Let_def app_inv_observe
            split: option.splits json.splits)
    next
      case (Inr s)
      obtain res' s' w' where r: "resume_known str vars hx t ids now rid q 0 s w = (res', s', w')"
        by (metis prod_cases3)
      have s: "run_ok s" and g2: "g2 = reg_put rid s (reg_set now rid ?s ?g)"
        using Pair Inr by (auto simp: restore_run_def Let_def split: option.splits json.splits)
      have m: "\<not> marked g2 rid" using new(2) by (simp add: g2 marked_def reg_put_def)
      have "app_inv (g2, w)" unfolding g2 using new s by (intro app_inv_put) auto
      then have "app_inv (reg_put rid s' g2, w')"
        using resume_known_run [OF r] s m by (intro app_inv_put) auto
      then show ?thesis by (simp add: resume_run_app_def reg_get_def None Pair Inr r)
    qed
  qed
qed

lemma app_step_inv: "app_step b b' \<Longrightarrow> app_inv b \<Longrightarrow> app_inv b'"
proof (induction rule: app_step.induct)
  case (listed a now rid after)
  then show ?case by (cases a) (auto simp: run_events_def reg_get_def app_inv_observe split: option.splits)
qed (metis surj_pair inv_intros)+

text \<open>A reply that was remembered is in the run that the registry now holds.\<close>

definition remembered :: "uuid \<Rightarrow> uuid \<Rightarrow> json \<Rightarrow> 'w app \<Rightarrow> bool" where
  "remembered rid c r a = (case map_of (rg_runs (fst a)) rid of None \<Rightarrow> False
     | Some s \<Rightarrow> map_of (rs_command_results s) c = Some r)"

lemma remembered_put:
  "map_of (rs_command_results s) c = Some r \<Longrightarrow> remembered rid c r (reg_put rid s g, w)"
  by (simp add: remembered_def reg_put_def update_conv')

lemma remembered_observe [simp]: "remembered rid c r (observe now k g, w) = remembered rid c r (g, w')"
  by (simp add: remembered_def)

lemma remember_command_map: "map_of (rs_command_results (remember_command (Some c) r s)) c = Some r"
  by (simp add: remember_command_def update_conv')

lemma accept_input_remembers:
  assumes "accept_input ids now rid q (g, w) = (Inr r, a')" "in_command q = Some c"
  shows "remembered rid c r a'"
  using assms
  by (auto simp: accept_input_def reg_get_def cached_command_def Let_def finish_command_def
      split: option.splits list.splits if_splits intro!: remembered_put remember_command_map)
    (auto simp: remembered_def)

lemma accept_approval_remembers:
  assumes "accept_approval hx t ids now rid q (g, w) = (Inr r, a')" "po_command q = Some c"
  shows "remembered rid c r a'"
  using assms
  by (auto simp: accept_approval_def reg_get_def cached_command_def Let_def finish_command_def
      split: option.splits list.splits if_splits sum.splits intro!: remembered_put remember_command_map)
    (auto simp: remembered_def)

lemma cancel_run_remembers:
  assumes "cancel_run ids now rid (Some c) (g, w) = (Inr r, a')"
  shows "remembered rid c r a'"
  using assms
  by (auto simp: cancel_run_def reg_get_def cached_command_def Let_def finish_command_def
      split: option.splits if_splits intro!: remembered_put remember_command_map)
    (auto simp: remembered_def)

lemma resume_known_remembers:
  assumes "resume_known str vars hx t ids now rid q n s w = (Inr r, s', w')" "re_command q = Some c"
  shows "map_of (rs_command_results s') c = Some r"
  using assms
  by (auto simp: resume_known_def cached_command_def Let_def finish_command_def
      split: option.splits if_splits sum.splits intro!: remember_command_map)

lemma resume_run_app_remembers:
  assumes "resume_run_app str vars hx t env fresh ids now rid q (g, w) = (Inr r, a')" "re_command q = Some c"
  shows "remembered rid c r a'"
  using assms
  by (auto simp: resume_run_app_def reg_get_def split: option.splits prod.splits sum.splits
      intro!: remembered_put dest: resume_known_remembers)

lemma replays:
  assumes "remembered rid c r (g, w)"
  shows "in_command iq = Some c \<Longrightarrow> accept_input ids now rid iq (g, w) = (Inr r, (observe now rid g, w))"
    "po_command aq = Some c \<Longrightarrow> accept_approval hx t ids now rid aq (g, w) = (Inr r, (observe now rid g, w))"
    "cancel_run ids now rid (Some c) (g, w) = (Inr r, (observe now rid g, w))"
    "re_command rq = Some c \<Longrightarrow> \<exists>g'. resume_run_app str vars hx t env fresh ids now rid rq (g, w) = (Inr r, (g', w))
       \<and> map_of (rg_runs g') = map_of (rg_runs g)"
proof -
  obtain s where s: "map_of (rg_runs g) rid = Some s" "map_of (rs_command_results s) c = Some r"
    using assms by (auto simp: remembered_def split: option.splits)
  show "in_command iq = Some c \<Longrightarrow> accept_input ids now rid iq (g, w) = (Inr r, (observe now rid g, w))"
    using s by (simp add: accept_input_def reg_get_def cached_command_def)
  show "po_command aq = Some c \<Longrightarrow> accept_approval hx t ids now rid aq (g, w) = (Inr r, (observe now rid g, w))"
    using s by (simp add: accept_approval_def reg_get_def cached_command_def)
  show "cancel_run ids now rid (Some c) (g, w) = (Inr r, (observe now rid g, w))"
    using s by (simp add: cancel_run_def reg_get_def cached_command_def)
  show "\<exists>g'. resume_run_app str vars hx t env fresh ids now rid rq (g, w) = (Inr r, (g', w))
       \<and> map_of (rg_runs g') = map_of (rg_runs g)" if "re_command rq = Some c"
    using s that
    by (auto simp: resume_run_app_def reg_get_def resume_known_def cached_command_def reg_put_def update_conv'
        map_upd_triv)
qed

section \<open>Properties\<close>

text \<open>C18. Outside \<open>trae\<close> mode: whatever requests a runner process handles, in any order and with any outcome
  (errors included), the events of every run stay numbered from one without gaps, a run that was marked as
  finished stays finished, and therefore no pass of the eviction, at any time, removes or changes a run at work.\<close>

theorem app_invariant:
  assumes "app_step\<^sup>*\<^sup>* a a'" "app_inv a"
  shows "app_inv a' \<and> (\<forall>now k s. map_of (rg_runs (fst a')) k = Some s \<and> rs_status s \<notin> set TERMINAL_STATUSES
      \<longrightarrow> map_of (rg_runs (snd (prune now (fst a')))) k = Some s)"
proof -
  have i: "app_inv a'" using assms by (induction rule: rtranclp_induct) (auto intro: app_step_inv)
  have "map_of (rg_runs (snd (prune now (fst a')))) k = Some s"
    if s: "map_of (rg_runs (fst a')) k = Some s" "rs_status s \<notin> set TERMINAL_STATUSES" for now k s
  proof -
    have "\<not> marked (fst a') k" using i s by (auto simp: app_inv_def reg_inv_alt finished_def)
    with s(1) show ?thesis by (rule prune_unmarked)
  qed
  with i show ?thesis by blast
qed

text \<open>The witness: a run that asks for input is there after the start and after any pass of the eviction.\<close>

definition demo_ask :: run_request where
  "demo_ask = (rs_request demo_run)\<lparr>q_context_bundle := [(''task'', JStr ''ask:name?'')]\<rparr>"

theorem app_invariant_witness:
  "app_inv (snd (start_run (\<lambda>_. []) (\<lambda>_. None) Unset (\<lambda>_. ''e'') 3 ''i1'' demo_ask
     (\<lparr>rg_runs = [], rg_terminal_at = [], rg_retain = 10, rg_max = 200\<rparr>, 0 :: nat)))
   \<and> map_of (rg_runs (snd (prune 100 (fst (snd (start_run (\<lambda>_. []) (\<lambda>_. None) Unset (\<lambda>_. ''e'') 3 ''i1'' demo_ask
     (\<lparr>rg_runs = [], rg_terminal_at = [], rg_retain = 10, rg_max = 200\<rparr>, 0 :: nat))))))) ''r1'' \<noteq> None"
proof -
  let ?a = "(\<lparr>rg_runs = [], rg_terminal_at = [], rg_retain = 10, rg_max = 200\<rparr>, 0 :: nat)"
  let ?b = "snd (start_run (\<lambda>_. []) (\<lambda>_. None) Unset (\<lambda>_. ''e'') 3 ''i1'' demo_ask ?a)"
  have "app_inv ?a" by (simp add: app_inv_def reg_inv_def)
  note c = app_invariant [OF r_into_rtranclp [where r = app_step, OF app_step.started] this,
      of "\<lambda>_. []" "\<lambda>_. None" Unset "\<lambda>_. ''e''" 3 "''i1''" demo_ask]
  obtain s where "map_of (rg_runs (fst ?b)) ''r1'' = Some s" "rs_status s = ''WAITING_INPUT''"
    by (simp add: start_run_def validate_container_fence_def reg_get_def Let_def demo_ask_def demo_run_def
        new_run_state_def mcp_refs_of_def obj_get_def py_str_def py_startswith_def reg_put_def update_conv')
  then show ?thesis using c by (fastforce simp: TERMINAL_STATUSES_def)
qed

text \<open>A retried command is harmless. When input, an approval, a cancellation or a resume with a command id
  succeeded, sending the same command again, at any later time before another request, replies with the same
  reply, changes no run and runs no tool.\<close>

theorem command_replay:
  "(in_command iq = Some c \<longrightarrow> accept_input ids now rid iq a = (Inr r, a') \<longrightarrow>
      (\<exists>g. accept_input ids2 now2 rid iq a' = (Inr r, (g, snd a')) \<and> rg_runs g = rg_runs (fst a')))
   \<and> (po_command aq = Some c \<longrightarrow> accept_approval hx t ids now rid aq a = (Inr r, a') \<longrightarrow>
      (\<exists>g. accept_approval hx t ids2 now2 rid aq a' = (Inr r, (g, snd a')) \<and> rg_runs g = rg_runs (fst a')))
   \<and> (cancel_run ids now rid (Some c) a = (Inr r, a') \<longrightarrow>
      (\<exists>g. cancel_run ids2 now2 rid (Some c) a' = (Inr r, (g, snd a')) \<and> rg_runs g = rg_runs (fst a')))
   \<and> (re_command rq = Some c \<longrightarrow> resume_run_app str vars hx t env fresh ids now rid rq a = (Inr r, a') \<longrightarrow>
      (\<exists>g. resume_run_app str vars hx t env fresh2 ids2 now2 rid rq a' = (Inr r, (g, snd a'))
         \<and> map_of (rg_runs g) = map_of (rg_runs (fst a'))))"
proof (intro conjI impI)
  obtain g w g' w' where a: "a = (g, w)" "a' = (g', w')" by (metis surj_pair)
  show "\<exists>g. accept_input ids2 now2 rid iq a' = (Inr r, (g, snd a')) \<and> rg_runs g = rg_runs (fst a')"
    if "in_command iq = Some c" "accept_input ids now rid iq a = (Inr r, a')"
    using replays(1) [OF accept_input_remembers [OF that(2) [unfolded a] that(1)] that(1)] by (simp add: a)
  show "\<exists>g. accept_approval hx t ids2 now2 rid aq a' = (Inr r, (g, snd a')) \<and> rg_runs g = rg_runs (fst a')"
    if "po_command aq = Some c" "accept_approval hx t ids now rid aq a = (Inr r, a')"
    using replays(2) [OF accept_approval_remembers [OF that(2) [unfolded a] that(1)] that(1)] by (simp add: a)
  show "\<exists>g. cancel_run ids2 now2 rid (Some c) a' = (Inr r, (g, snd a')) \<and> rg_runs g = rg_runs (fst a')"
    if "cancel_run ids now rid (Some c) a = (Inr r, a')"
    using replays(3) [OF cancel_run_remembers [OF that [unfolded a]]] by (simp add: a)
  show "\<exists>g. resume_run_app str vars hx t env fresh2 ids2 now2 rid rq a' = (Inr r, (g, snd a'))
      \<and> map_of (rg_runs g) = map_of (rg_runs (fst a'))"
    if "re_command rq = Some c" "resume_run_app str vars hx t env fresh ids now rid rq a = (Inr r, a')"
    using replays(4) [OF resume_run_app_remembers [OF that(2) [unfolded a] that(1)] that(1)] by (auto simp: a)
qed

definition demo_waiting :: run_state where
  "demo_waiting = demo_run\<lparr>rs_status := ''WAITING_INPUT'', rs_pending := Some [(''interaction_id'', JStr ''i1'')]\<rparr>"

definition demo_app :: "nat app" where
  "demo_app = (\<lparr>rg_runs = [(''r1'', demo_waiting)], rg_terminal_at = [], rg_retain = 10, rg_max = 200\<rparr>, 0)"

theorem command_replay_witness:
  "\<exists>r a' g. accept_input (\<lambda>_. ''e'') 3 ''r1'' \<lparr>in_interaction = ''i1'', in_value = JNull, in_command = Some ''x''\<rparr> demo_app
      = (Inr r, a')
    \<and> accept_input (\<lambda>_. ''f'') 9 ''r1'' \<lparr>in_interaction = ''i1'', in_value = JNull, in_command = Some ''x''\<rparr> a'
      = (Inr r, (g, snd a'))"
proof -
  let ?q = "\<lparr>in_interaction = ''i1'', in_value = JNull, in_command = Some ''x''\<rparr>"
  obtain r a' where i: "accept_input (\<lambda>_. ''e'') 3 ''r1'' ?q demo_app = (Inr r, a')"
    by (simp add: accept_input_def demo_app_def demo_waiting_def reg_get_def cached_command_def demo_run_def
        new_run_state_def finish_command_def Let_def emit_def obj_get_def)
  have "in_command ?q = Some ''x''" by simp
  with i command_replay [THEN conjunct1] show ?thesis by blast
qed

text \<open>A runner with a configured lease epoch starts a run only for that epoch: a start that is accepted
  carries the epoch both as lease and as fence, and a duplicate start is answered with the state of the
  run only when session, container and lease are the same.\<close>

theorem start_run_fenced:
  assumes "start_run str vars (Epoch n) ids now iid q (g, w) = (Inr r, a')"
  shows "q_lease_epoch q = n \<and> q_fence_epoch q = n
    \<and> (\<forall>s. map_of (rg_runs g) (q_run_id q) = Some s \<longrightarrow>
         q_session (rs_request s) = q_session q \<and> q_container (rs_request s) = q_container q
         \<and> q_lease_epoch (rs_request s) = n \<and> r = reply (q_run_id q) (rs_status s) (rs_events s))"
  using assms
  by (auto simp: start_run_def validate_container_fence_def validate_duplicate_run_def reg_get_def Let_def
      split: option.splits if_splits sum.splits)

theorem start_run_fenced_witness:
  "\<exists>r a'. start_run (\<lambda>_. []) (\<lambda>_. None) (Epoch 4) (\<lambda>_. ''e'') 3 ''i1'' ((rs_request demo_run)\<lparr>q_lease_epoch := 4, q_fence_epoch := 4\<rparr>)
      (\<lparr>rg_runs = [], rg_terminal_at = [], rg_retain = 10, rg_max = 200\<rparr>, 0 :: nat) = (Inr r, a')
    \<and> q_fence_epoch ((rs_request demo_run)\<lparr>q_lease_epoch := 4, q_fence_epoch := 4\<rparr>) = 4"
proof -
  let ?q = "(rs_request demo_run)\<lparr>q_lease_epoch := 4, q_fence_epoch := 4\<rparr>"
  let ?g = "\<lparr>rg_runs = [], rg_terminal_at = [], rg_retain = 10, rg_max = 200\<rparr>"
  obtain r a' where s: "start_run (\<lambda>_. []) (\<lambda>_. None) (Epoch 4) (\<lambda>_. ''e'') 3 ''i1'' ?q (?g, 0 :: nat) = (Inr r, a')"
    by (simp add: start_run_def validate_container_fence_def reg_get_def Let_def demo_run_def new_run_state_def
        mcp_refs_of_def obj_get_def)
  from start_run_fenced [OF s] s show ?thesis by blast
qed

text \<open>A cancellation does not respect that a run has ended: a completed run that is cancelled afterwards
  is reported as cancelled and gets one more event.\<close>

theorem cancel_overwrites_completed:
  assumes "map_of (rg_runs g) rid = Some s" "rs_status s = ''COMPLETED''" "cached_command cmd s = None"
  shows "\<exists>r g' s'. cancel_run ids now rid cmd (g, w) = (Inr r, (g', w)) \<and> map_of (rg_runs g') rid = Some s'
    \<and> rs_status s' = ''CANCELLED'' \<and> length (rs_events s') = Suc (length (rs_events s))"
  using assms
  by (auto simp: cancel_run_def reg_get_def finish_command_def Let_def reg_put_def update_conv' remember_command_def
      emit_def split: option.split)

theorem cancel_overwrites_completed_witness:
  "\<exists>r g' s'. cancel_run (\<lambda>_. ''e'') 3 ''r1'' None (\<lparr>rg_runs = [(''r1'', demo_run\<lparr>rs_status := ''COMPLETED''\<rparr>)],
      rg_terminal_at = [], rg_retain = 10, rg_max = 200\<rparr>, 0 :: nat) = (Inr r, (g', 0))
    \<and> map_of (rg_runs g') ''r1'' = Some s' \<and> rs_status s' = ''CANCELLED''"
  using cancel_overwrites_completed [of "\<lparr>rg_runs = [(''r1'', demo_run\<lparr>rs_status := ''COMPLETED''\<rparr>)],
      rg_terminal_at = [], rg_retain = 10, rg_max = 200\<rparr>" "''r1''" "demo_run\<lparr>rs_status := ''COMPLETED''\<rparr>" None
      "\<lambda>_. ''e''" 3 "0 :: nat"]
  by (auto simp: cached_command_def)

end
