(* ===== verification/Command_Gate.thy ===== *)
theory Command_Gate
  imports Prelude
begin

text \<open>
  The gate in front of the agent's \<open>bash\<close> tool, \<open>session_runner/security\<close>: the classification of a
  command into three tiers (\<open>command_gate.py\<close>), the approvers that judge a risky command
  (\<open>approval.py\<close>, \<open>judge.py\<close>) and the decision per call (\<open>bash_call_gate.py\<close>).
  \<open>shlex.split\<close> and the lexical part of \<open>pathlib\<close> (POSIX) are written out; \<open>Path.resolve\<close> reads
  the file system, so it is the parameter \<open>resolve\<close>. The judge model, \<open>json.loads\<close>, the rendering of a
  JSON value and the digest of the cache key are parameters as well.
\<close>

section \<open>Words of a command line\<close>

text \<open>
  \<open>shlex.split\<close> in POSIX mode splits at white space outside quotes. \<open>LEsc None\<close> is the state after a
  backslash outside quotes, \<open>LEsc (Some q)\<close> after one inside the quote \<open>q\<close>; the flag says that the
  token had a quoted part, so that an empty token counts.
\<close>

datatype lex_state = LStart | LWord | LQuote char | LEsc "char option"

definition shlex_space :: "char \<Rightarrow> bool" where
  "shlex_space c = (c \<in> {CHR '' '', CHR 0x09, CHR 0x0D, CHR 0x0A})"

abbreviation backslash :: char where "backslash \<equiv> CHR 0x5C"
abbreviation dquote :: char where "dquote \<equiv> CHR 0x22"
abbreviation squote :: char where "squote \<equiv> CHR 0x27"

fun lex :: "lex_state \<Rightarrow> string \<Rightarrow> bool \<Rightarrow> string \<Rightarrow> string + string list" where
  "lex LStart t q [] = Inr []"
| "lex LStart t q (c # cs) =
     (if shlex_space c then lex LStart [] False cs
      else if c = backslash then lex (LEsc None) [] False cs
      else if c = dquote \<or> c = squote then lex (LQuote c) [] False cs
      else lex LWord [c] False cs)"
| "lex LWord t q [] = (if t = [] \<and> \<not> q then Inr [] else Inr [t])"
| "lex LWord t q (c # cs) =
     (if shlex_space c
      then (if t = [] \<and> \<not> q then lex LStart [] False cs
            else map_sum id ((#) t) (lex LStart [] False cs))
      else if c = dquote \<or> c = squote then lex (LQuote c) t q cs
      else if c = backslash then lex (LEsc None) t q cs
      else lex LWord (t @ [c]) q cs)"
| "lex (LQuote k) t q [] = Inl ''No closing quotation''"
| "lex (LQuote k) t q (c # cs) =
     (if c = k then lex LWord t True cs
      else if c = backslash \<and> k = dquote then lex (LEsc (Some k)) t True cs
      else lex (LQuote k) (t @ [c]) True cs)"
| "lex (LEsc e) t q [] = Inl ''No escaped character''"
| "lex (LEsc e) t q (c # cs) =
     (case e of None \<Rightarrow> lex LWord (t @ [c]) q cs
      | Some k \<Rightarrow> lex (LQuote k) (t @ (if c \<noteq> backslash \<and> c \<noteq> k then [backslash, c] else [c])) q cs)"

definition shlex_split :: "string \<Rightarrow> string + string list" where
  "shlex_split s = lex LStart [] False s"

section \<open>Paths\<close>

text \<open>A POSIX path: its root (empty, one or two slashes) and its parts without \<open>.\<close> and empty ones.\<close>

type_synonym path = "string \<times> string list"

definition path_of :: "string \<Rightarrow> path" where
  "path_of s = ((if py_startswith s ''//'' \<and> \<not> py_startswith s ''///'' then ''//''
                 else if py_startswith s ''/'' then ''/'' else []),
                filter (\<lambda>p. p \<noteq> [] \<and> p \<noteq> ''.'') (py_split_on (CHR ''/'') s))"

definition path_name :: "string \<Rightarrow> string" where
  "path_name s = (case snd (path_of s) of [] \<Rightarrow> [] | ps \<Rightarrow> last ps)"

definition path_join :: "path \<Rightarrow> path \<Rightarrow> path" where
  "path_join a b = (if fst b \<noteq> [] then b else (fst a, snd a @ snd b))"

definition is_relative_to :: "path \<Rightarrow> path \<Rightarrow> bool" where
  "is_relative_to p q = (fst p = fst q \<and> take (length (snd q)) (snd p) = snd q)"

section \<open>Classification\<close>

definition SAFE_COMMANDS :: "string list" where
  "SAFE_COMMANDS = [''basename'', ''cat'', ''cut'', ''date'', ''dirname'', ''echo'', ''file'', ''grep'',
     ''head'', ''ls'', ''md5sum'', ''od'', ''pwd'', ''realpath'', ''readlink'', ''sha256sum'', ''sort'',
     ''stat'', ''tail'', ''tr'', ''uniq'', ''wc'', ''whoami'']"

definition DENIED_COMMANDS :: "string list" where
  "DENIED_COMMANDS = [''apt'', ''apt-get'', ''bash'', ''chmod'', ''chown'', ''cp'', ''dd'', ''docker'',
     ''kill'', ''kubectl'', ''mkdir'', ''mkfs'', ''mv'', ''nc'', ''node'', ''npm'', ''perl'', ''pip'',
     ''pip3'', ''pkill'', ''python'', ''python3'', ''rm'', ''rmdir'', ''rsync'', ''scp'', ''sh'', ''shred'',
     ''ssh'', ''su'', ''sudo'', ''tee'', ''touch'', ''truncate'', ''xargs'', ''zsh'']"

definition UNSAFE_FLAGS :: "(string \<times> string list) list" where
  "UNSAFE_FLAGS = [(''sort'', [''-o'', ''--output''])]"

definition TRUSTED_EXECUTABLE_DIRS :: "string list" where
  "TRUSTED_EXECUTABLE_DIRS = [''/bin'', ''/usr/bin'']"

definition COMPOSITION_CHARS :: "char list" where
  "COMPOSITION_CHARS = ''|&;<>`$'' @ [CHR 0x0A, CHR 0x0D]"

datatype command_tier = SAFE | RISKY | BLOCKED

record command_verdict =
  cv_tier :: command_tier
  cv_reason :: string

abbreviation verdict :: "command_tier \<Rightarrow> string \<Rightarrow> command_verdict" where
  "verdict t r \<equiv> \<lparr>cv_tier = t, cv_reason = r\<rparr>"

record command_policy =
  pol_safe :: "string list"
  pol_denied :: "string list"

definition DEFAULT_POLICY :: command_policy where
  "DEFAULT_POLICY = \<lparr>pol_safe = SAFE_COMMANDS, pol_denied = DENIED_COMMANDS\<rparr>"

definition listed :: "string list \<Rightarrow> string list" where
  "listed items = map (\<lambda>i. py_lower (py_strip i)) (filter (\<lambda>i. py_strip i \<noteq> []) items)"

definition tightened :: "string list \<Rightarrow> string list \<Rightarrow> command_policy \<Rightarrow> command_policy" where
  "tightened disable_safe deny_more p = \<lparr>
     pol_safe = filter (\<lambda>c. c \<notin> set (listed disable_safe)) (pol_safe p),
     pol_denied = pol_denied p @ listed deny_more\<rparr>"

definition is_trusted_executable_path :: "string \<Rightarrow> bool" where
  "is_trusted_executable_path raw =
     (let n = map (\<lambda>c. if c = backslash then CHR ''/'' else c) raw in
      list_ex (\<lambda>d. py_startswith n (d @ ''/'')) TRUSTED_EXECUTABLE_DIRS)"

fun match_declared_prefix :: "string list \<Rightarrow> string list \<Rightarrow> string option" where
  "match_declared_prefix tokens [] = None"
| "match_declared_prefix tokens (p # ps) =
     (let parts = py_split p in
      if parts \<noteq> [] \<and> length parts \<le> length tokens \<and> take (length parts) tokens = parts then Some p
      else match_declared_prefix tokens ps)"

definition is_unsafe_flag :: "string \<Rightarrow> string \<Rightarrow> bool" where
  "is_unsafe_flag exe token = list_ex (\<lambda>f. token = f \<or> py_startswith token (f @ ''=''))
     (or_else (map_of UNSAFE_FLAGS exe) [])"

text \<open>A positional argument resolved against the working directory, and the test on it.\<close>

definition path_allowed :: "(path \<Rightarrow> path) \<Rightarrow> string list \<Rightarrow> string \<Rightarrow> string \<Rightarrow> bool" where
  "path_allowed resolve prefixes cwd token =
     (let base = resolve (path_of cwd); candidate = path_of token;
          resolved = (if fst candidate \<noteq> [] then resolve candidate else resolve (path_join base candidate)) in
      list_ex (\<lambda>p. resolved = resolve (path_of p) \<or> is_relative_to resolved (resolve (path_of p))) prefixes)"

definition classify_tokens :: "(path \<Rightarrow> path) \<Rightarrow> string list \<Rightarrow> string \<Rightarrow> command_policy \<Rightarrow> string list
    \<Rightarrow> string \<Rightarrow> string list \<Rightarrow> command_verdict" where
  "classify_tokens resolve prefixes cwd policy declared raw args =
     (let exe = path_name raw in
      if exe \<in> set (pol_denied policy) then verdict BLOCKED (exe @ '' is on the denied list'')
      else case match_declared_prefix (raw # args) declared of
        Some p \<Rightarrow> verdict SAFE (''declared safe prefix (tenant preset): '' @ p)
      | None \<Rightarrow>
          if (CHR ''/'' \<in> set raw \<or> backslash \<in> set raw) \<and> \<not> is_trusted_executable_path raw
          then verdict RISKY (''executable path is not trusted: '' @ raw)
          else if exe \<notin> set (pol_safe policy)
          then verdict RISKY (exe @ '' is not on the read-only whitelist'')
          else (case find (is_unsafe_flag exe) args of
              Some t \<Rightarrow> verdict RISKY (exe @ '' flag '' @ t @ '' can write'')
            | None \<Rightarrow>
                (case find (\<lambda>t. \<not> py_startswith t ''-'' \<and> \<not> path_allowed resolve prefixes cwd t) args of
                   Some t \<Rightarrow> verdict RISKY (''path outside allowed prefixes: '' @ t)
                 | None \<Rightarrow> verdict SAFE ''read-only whitelisted command inside allowed prefixes'')))"

definition classify_command :: "(path \<Rightarrow> path) \<Rightarrow> string list \<Rightarrow> string \<Rightarrow> command_policy \<Rightarrow> string list
    \<Rightarrow> string \<Rightarrow> command_verdict" where
  "classify_command resolve prefixes cwd policy declared command =
     (let text = py_strip command in
      if text = [] then verdict BLOCKED ''empty command''
      else if list_ex (\<lambda>c. c \<in> set COMPOSITION_CHARS) text
      then verdict RISKY ''shell composition (pipe / redirect / substitution) is never auto-approved''
      else case shlex_split text of
          Inl e \<Rightarrow> verdict RISKY (''unparseable command: '' @ e)
        | Inr [] \<Rightarrow> verdict BLOCKED ''empty command''
        | Inr (raw # args) \<Rightarrow> classify_tokens resolve prefixes cwd policy declared raw args)"

section \<open>Approvers\<close>

record approval_request =
  ar_command :: string
  ar_reason :: string
  ar_tier :: command_tier
  ar_gate_reason :: string
  ar_mode :: string
  ar_cwd :: string
  ar_allowed_prefixes :: "string list"
  ar_run_id :: string
  ar_conversation_id :: string

record approval =
  ap_allowed :: bool
  ap_rationale :: string
  ap_source :: string

definition cache_key :: "(string \<times> string \<times> string \<times> string \<times> string list \<Rightarrow> string) \<Rightarrow> approval_request \<Rightarrow> string" where
  "cache_key digest r = digest (ar_command r, ar_reason r, ar_mode r, ar_cwd r, ar_allowed_prefixes r)"

definition deny_all :: "approval_request \<Rightarrow> 's \<Rightarrow> approval \<times> 's" where
  "deny_all r s = (\<lparr>ap_allowed = False, ap_rationale = ''no command approver is configured'',
     ap_source = ''deny-all''\<rparr>, s)"

definition allow_all :: "approval_request \<Rightarrow> 's \<Rightarrow> approval \<times> 's" where
  "allow_all r s = (\<lparr>ap_allowed = True, ap_rationale = ''approver disabled'', ap_source = ''allow-all''\<rparr>, s)"

text \<open>
  \<open>text.split(sep, 1)[-1]\<close> for a newline, \<open>text.rsplit(fence, 1)[0]\<close> for the code fence, and
  \<open>text[text.find(open) : text.rfind(close) + 1]\<close>, \<open>None\<close> where one is missing or they are out of order.
\<close>

definition after_newline :: "string \<Rightarrow> string" where
  "after_newline s = (if CHR 0x0A \<in> set s then tl (dropWhile (\<lambda>c. c \<noteq> CHR 0x0A) s) else s)"

fun before_last :: "string \<Rightarrow> string \<Rightarrow> string option" where
  "before_last sep [] = (if sep = [] then Some [] else None)"
| "before_last sep (c # cs) = (case before_last sep cs of
       Some t \<Rightarrow> Some (c # t)
     | None \<Rightarrow> if py_startswith (c # cs) sep then Some [] else None)"

definition braces :: "string \<Rightarrow> string option" where
  "braces s = (let rest = dropWhile (\<lambda>c. c \<noteq> CHR ''{'') s;
                   body = rev (dropWhile (\<lambda>c. c \<noteq> CHR ''}'') (rev rest)) in
     if rest = [] \<or> body = [] then None else Some body)"

definition parse_verdict :: "(string \<Rightarrow> json option) \<Rightarrow> (json \<Rightarrow> string) \<Rightarrow> string \<Rightarrow> (bool \<times> string) option" where
  "parse_verdict loads str raw =
     (let text = py_strip raw;
          text = (if py_startswith text ''```''
                  then py_strip (or_else (before_last ''```'' (after_newline text)) (after_newline text))
                  else text) in
      case braces text of None \<Rightarrow> None | Some body \<Rightarrow>
        (case loads body of
           Some (JObj p) \<Rightarrow> (case map_of p ''allow'' of
               Some (JBool b) \<Rightarrow> (let r = obj_get p ''rationale'' JNull in Some (b, if truthy r then str r else []))
             | _ \<Rightarrow> None)
         | _ \<Rightarrow> None))"

text \<open>What waiting for the judge ends in.\<close>

datatype judge_outcome = TimedOut | JudgeError string | Reply string

definition llm_approve :: "(string \<Rightarrow> json option) \<Rightarrow> (json \<Rightarrow> string)
    \<Rightarrow> (approval_request \<Rightarrow> 's \<Rightarrow> judge_outcome \<times> 's) \<Rightarrow> approval_request \<Rightarrow> 's \<Rightarrow> approval \<times> 's" where
  "llm_approve loads str judge r s = (case judge r s of (outcome, s') \<Rightarrow>
     ((case outcome of
         TimedOut \<Rightarrow> \<lparr>ap_allowed = False, ap_rationale = ''approval timed out'', ap_source = ''llm''\<rparr>
       | JudgeError e \<Rightarrow> \<lparr>ap_allowed = False, ap_rationale = ''approval failed: '' @ e, ap_source = ''llm''\<rparr>
       | Reply raw \<Rightarrow> (case parse_verdict loads str raw of
             None \<Rightarrow> \<lparr>ap_allowed = False, ap_rationale = ''approval verdict was not parsable'', ap_source = ''llm''\<rparr>
           | Some (b, why) \<Rightarrow> \<lparr>ap_allowed = b, ap_rationale = why, ap_source = ''llm''\<rparr>)), s'))"

type_synonym 's cached = "(string \<times> approval) list \<times> 's"

definition caching_approve :: "(string \<times> string \<times> string \<times> string \<times> string list \<Rightarrow> string)
    \<Rightarrow> (approval_request \<Rightarrow> 's \<Rightarrow> approval \<times> 's) \<Rightarrow> approval_request \<Rightarrow> 's cached \<Rightarrow> approval \<times> 's cached" where
  "caching_approve digest delegate r st = (case map_of (fst st) (cache_key digest r) of
       Some a \<Rightarrow> (\<lparr>ap_allowed = ap_allowed a, ap_rationale = ap_rationale a @ '' (cached)'',
                    ap_source = ap_source a\<rparr>, st)
     | None \<Rightarrow> (case delegate r (snd st) of (a, s') \<Rightarrow>
         (a, (AList.update (cache_key digest r) a (fst st), s'))))"

datatype approver_kind = AllowAll | DenyAll | CachedLlm

definition build_command_approver :: "string \<Rightarrow> bool \<Rightarrow> approver_kind" where
  "build_command_approver mode has_judge =
     (let normalized = py_lower (py_strip (if mode = [] then ''llm'' else mode)) in
      if normalized \<in> {''off'', ''allow'', ''none''} then AllowAll
      else if normalized \<in> {''deny'', ''closed''} then DenyAll
      else if \<not> has_judge then DenyAll
      else CachedLlm)"

section \<open>The decision per call\<close>

record bash_outcome =
  bo_allowed :: bool
  bo_tier :: "command_tier option"
  bo_reason :: string
  bo_source :: string

record bash_gate =
  bg_allowed_prefixes :: "string list"
  bg_cwd :: string
  bg_mode :: string
  bg_policy :: command_policy
  bg_declared :: "string list"

text \<open>The text of \<open>MISSING_REASON\<close> is not ASCII; its English gist stands for it.\<close>

definition MISSING_REASON :: string where
  "MISSING_REASON = ''the bash call has no reason''"

definition bash_check :: "(path \<Rightarrow> path) \<Rightarrow> (approval_request \<Rightarrow> 's \<Rightarrow> approval \<times> 's) \<Rightarrow> bash_gate
    \<Rightarrow> string \<Rightarrow> string \<Rightarrow> string \<Rightarrow> string \<Rightarrow> 's \<Rightarrow> bash_outcome \<times> 's" where
  "bash_check resolve approve g command reason rid cid s =
     (if bg_mode g = ''no_approval''
      then (\<lparr>bo_allowed = True, bo_tier = None, bo_reason = ''no_approval mode is not gated'', bo_source = ''mode''\<rparr>, s)
      else if py_strip reason = []
      then (\<lparr>bo_allowed = False, bo_tier = None, bo_reason = MISSING_REASON, bo_source = ''gate''\<rparr>, s)
      else
        (let v = classify_command resolve (bg_allowed_prefixes g) (bg_cwd g) (bg_policy g) (bg_declared g) command in
         case cv_tier v of
           SAFE \<Rightarrow> (\<lparr>bo_allowed = True, bo_tier = Some SAFE, bo_reason = cv_reason v, bo_source = ''gate''\<rparr>, s)
         | BLOCKED \<Rightarrow> (\<lparr>bo_allowed = False, bo_tier = Some BLOCKED, bo_reason = cv_reason v, bo_source = ''gate''\<rparr>, s)
         | RISKY \<Rightarrow>
             if bg_mode g \<noteq> ''silent''
             then (\<lparr>bo_allowed = True, bo_tier = Some RISKY,
                    bo_reason = ''human approval already covered this call'', bo_source = ''human''\<rparr>, s)
             else (case approve \<lparr>ar_command = command, ar_reason = reason, ar_tier = RISKY,
                       ar_gate_reason = cv_reason v, ar_mode = bg_mode g, ar_cwd = bg_cwd g,
                       ar_allowed_prefixes = bg_allowed_prefixes g, ar_run_id = rid, ar_conversation_id = cid\<rparr> s of
                     (a, s') \<Rightarrow> (\<lparr>bo_allowed = ap_allowed a, bo_tier = Some RISKY,
                       bo_reason = ap_rationale a, bo_source = ap_source a\<rparr>, s'))))"

section \<open>The interface of an approver\<close>

text \<open>
  An approver is sound for a notion of justification when it allows only justified requests. The
  gate needs nothing else of it.
\<close>

locale command_approver =
  fixes approve :: "approval_request \<Rightarrow> 's \<Rightarrow> approval \<times> 's"
    and invar :: "'s \<Rightarrow> bool"
    and justified :: "approval_request \<Rightarrow> bool"
  assumes approve_sound: "invar s \<Longrightarrow> approve r s = (a, s') \<Longrightarrow> invar s' \<and> (ap_allowed a \<longrightarrow> justified r)"
begin

lemma check_sound:
  assumes "invar s" "bash_check resolve approve g command reason rid cid s = (res, s')"
    "bo_allowed res" "bg_mode g = ''silent''"
  shows "invar s' \<and> py_strip reason \<noteq> []
    \<and> (cv_tier (classify_command resolve (bg_allowed_prefixes g) (bg_cwd g) (bg_policy g) (bg_declared g) command) = SAFE
       \<or> (\<exists>r. ar_command r = command \<and> ar_reason r = reason \<and> ar_tier r = RISKY
            \<and> ar_allowed_prefixes r = bg_allowed_prefixes g \<and> justified r))"
proof (cases "cv_tier (classify_command resolve (bg_allowed_prefixes g) (bg_cwd g) (bg_policy g) (bg_declared g) command)")
  case RISKY
  then obtain r a where r: "approve r s = (a, s')" "ar_command r = command" "ar_reason r = reason"
    "ar_tier r = RISKY" "ar_allowed_prefixes r = bg_allowed_prefixes g" "res = \<lparr>bo_allowed = ap_allowed a,
       bo_tier = Some RISKY, bo_reason = ap_rationale a, bo_source = ap_source a\<rparr>" "py_strip reason \<noteq> []"
    using assms(2-4) by (auto simp: bash_check_def Let_def split: if_splits prod.splits)
  with approve_sound [OF assms(1) r(1)] assms(3) show ?thesis by auto
qed (use assms in \<open>auto simp: bash_check_def Let_def split: if_splits\<close>)

end

definition judge_allows :: "(string \<Rightarrow> json option) \<Rightarrow> (json \<Rightarrow> string)
    \<Rightarrow> (approval_request \<Rightarrow> 's \<Rightarrow> judge_outcome \<times> 's) \<Rightarrow> approval_request \<Rightarrow> bool" where
  "judge_allows loads str judge r = (\<exists>s s' raw why. judge r s = (Reply raw, s')
     \<and> parse_verdict loads str raw = Some (True, why))"

interpretation deny: command_approver deny_all "\<lambda>_. True" "\<lambda>_. False"
  by unfold_locales (auto simp: deny_all_def)

lemma llm_approve_sound:
  "llm_approve loads str judge r s = (a, s') \<Longrightarrow> ap_allowed a \<Longrightarrow> judge_allows loads str judge r"
  by (fastforce simp: llm_approve_def judge_allows_def split: prod.splits judge_outcome.splits option.splits)

interpretation llm: command_approver "llm_approve loads str judge" "\<lambda>_. True" "judge_allows loads str judge"
  for loads str judge
  by unfold_locales (auto dest: llm_approve_sound)

text \<open>A cached verdict speaks for every request with its key.\<close>

definition cache_sound :: "(string \<times> string \<times> string \<times> string \<times> string list \<Rightarrow> string)
    \<Rightarrow> (approval_request \<Rightarrow> bool) \<Rightarrow> 's cached \<Rightarrow> bool" where
  "cache_sound digest ok st = (\<forall>(k, a)\<in>set (fst st). ap_allowed a \<longrightarrow> (\<exists>r. cache_key digest r = k \<and> ok r))"

lemma set_AList_update: "set (AList.update k v xs) \<subseteq> insert (k, v) (set xs)"
  by (induction xs) auto

interpretation cached: command_approver "caching_approve digest (llm_approve loads str judge)"
  "cache_sound digest (judge_allows loads str judge)"
  "\<lambda>r. \<exists>r'. cache_key digest r' = cache_key digest r \<and> judge_allows loads str judge r'"
  for digest loads str judge
proof (unfold_locales, goal_cases)
  case (1 st r a st')
  show ?case
  proof (cases "map_of (fst st) (cache_key digest r)")
    case (Some b)
    then have "(cache_key digest r, b) \<in> set (fst st)" by (rule map_of_SomeD)
    with 1 Some show ?thesis by (fastforce simp: caching_approve_def cache_sound_def)
  next
    case None
    with 1(2) obtain s' where d: "llm_approve loads str judge r (snd st) = (a, s')"
      and st': "st' = (AList.update (cache_key digest r) a (fst st), s')"
      by (auto simp: caching_approve_def split: prod.splits)
    from llm_approve_sound [OF d] 1(1) set_AList_update [of "cache_key digest r" a "fst st"]
    show ?thesis unfolding cache_sound_def st' by fastforce
  qed
qed

section \<open>Lemmas on the classification\<close>

text \<open>A word that the lexer takes as it is.\<close>

definition plain :: "string \<Rightarrow> bool" where
  "plain w = (w \<noteq> [] \<and> list_all (\<lambda>c. \<not> shlex_space c \<and> c \<noteq> backslash \<and> c \<noteq> dquote \<and> c \<noteq> squote) w)"

lemma lex_word:
  "list_all (\<lambda>c. \<not> shlex_space c \<and> c \<noteq> backslash \<and> c \<noteq> dquote \<and> c \<noteq> squote) w \<Longrightarrow>
   lex LWord t q (w @ cs) = lex LWord (t @ w) q cs"
  by (induction w arbitrary: t) auto

lemma lex_plain_start: "plain w \<Longrightarrow> lex LStart t q (w @ cs) = lex LWord w False cs"
  by (cases w) (auto simp: plain_def lex_word)

lemma shlex_split_plain: "list_all plain ws \<Longrightarrow> shlex_split (py_join '' '' ws) = Inr ws"
proof -
  have "list_all plain ws \<Longrightarrow> lex LStart [] False (py_join '' '' ws) = Inr ws"
  proof (induction "'' ''" ws rule: py_join.induct)
    case (2 x)
    then show ?case using lex_plain_start [of x "[]" False "[]"] by (simp add: plain_def)
  next
    case (3 x y ys)
    then show ?case using lex_plain_start [of x "[]" False "'' '' @ py_join '' '' (y # ys)"]
      by (simp add: plain_def shlex_space_def)
  qed simp
  then show "list_all plain ws \<Longrightarrow> shlex_split (py_join '' '' ws) = Inr ws" by (simp add: shlex_split_def)
qed

lemma match_declared_iff:
  "match_declared_prefix ts ps \<noteq> None \<longleftrightarrow> (\<exists>p\<in>set ps. py_split p \<noteq> [] \<and> (\<exists>rest. ts = py_split p @ rest))"
proof (induction ps)
  case (Cons p ps)
  have "length (py_split p) \<le> length ts \<and> take (length (py_split p)) ts = py_split p \<longleftrightarrow> (\<exists>rest. ts = py_split p @ rest)"
    by (metis append_eq_conv_conj append_take_drop_id length_append le_add1)
  with Cons show ?case by (auto simp: Let_def)
qed simp

fun severity :: "command_tier \<Rightarrow> nat" where
  "severity SAFE = 0"
| "severity RISKY = 1"
| "severity BLOCKED = 2"

text \<open>The conditions under which the gate lets a command through on its own.\<close>

definition read_only_call :: "(path \<Rightarrow> path) \<Rightarrow> string list \<Rightarrow> string \<Rightarrow> command_policy \<Rightarrow> string \<Rightarrow> string list \<Rightarrow> bool" where
  "read_only_call resolve prefixes cwd policy raw args =
     ((CHR ''/'' \<notin> set raw \<and> backslash \<notin> set raw \<or> is_trusted_executable_path raw)
      \<and> path_name raw \<in> set (pol_safe policy)
      \<and> list_all (\<lambda>t. \<not> is_unsafe_flag (path_name raw) t
           \<and> (py_startswith t ''-'' \<or> path_allowed resolve prefixes cwd t)) args)"

lemma classify_tokens_safe:
  "cv_tier (classify_tokens resolve prefixes cwd policy declared raw args) = SAFE \<longleftrightarrow>
     path_name raw \<notin> set (pol_denied policy)
     \<and> ((\<exists>p\<in>set declared. py_split p \<noteq> [] \<and> (\<exists>rest. raw # args = py_split p @ rest))
        \<or> read_only_call resolve prefixes cwd policy raw args)"
  unfolding match_declared_iff [symmetric]
  by (auto simp: classify_tokens_def Let_def read_only_call_def find_None_iff list_all_iff
      dest!: find_SomeD split: option.splits)

lemma classify_tokens_tightened:
  "severity (cv_tier (classify_tokens resolve prefixes cwd policy declared raw args))
   \<le> severity (cv_tier (classify_tokens resolve prefixes cwd (tightened ds dm policy) declared raw args))"
  by (auto simp: classify_tokens_def Let_def tightened_def split: option.splits)

section \<open>Properties\<close>

text \<open>The classification in one equivalence: the tier SAFE in terms of the characters of the command, its
  words, the denied list, the declared prefixes and the read-only calls.\<close>

theorem classify_safe_iff:
  "cv_tier (classify_command resolve prefixes cwd policy declared command) = SAFE \<longleftrightarrow>
     list_all (\<lambda>c. c \<notin> set COMPOSITION_CHARS) (py_strip command)
     \<and> (\<exists>raw args. shlex_split (py_strip command) = Inr (raw # args)
          \<and> path_name raw \<notin> set (pol_denied policy)
          \<and> ((\<exists>p\<in>set declared. py_split p \<noteq> [] \<and> (\<exists>rest. raw # args = py_split p @ rest))
             \<or> read_only_call resolve prefixes cwd policy raw args))"
proof -
  have [simp]: "shlex_split [] = Inr []" by (simp add: shlex_split_def)
  show ?thesis
  proof (cases "shlex_split (py_strip command)")
    case (Inr ts)
    show ?thesis
    proof (cases ts)
      case (Cons raw args)
      with Inr have "py_strip command \<noteq> []" by auto
      with Inr Cons show ?thesis
        by (auto simp: classify_command_def Let_def classify_tokens_safe list_all_iff list_ex_iff)
    qed (use Inr in \<open>auto simp: classify_command_def Let_def\<close>)
  qed (auto simp: classify_command_def Let_def)
qed

text \<open>Tightening a policy only tightens: no command gets a milder tier under a policy with fewer safe
  and more denied executables, so nothing that was risky or blocked becomes safe.\<close>

theorem tightened_monotone:
  "severity (cv_tier (classify_command resolve prefixes cwd policy declared command))
   \<le> severity (cv_tier (classify_command resolve prefixes cwd (tightened disable deny policy) declared command))"
  by (auto simp: classify_command_def Let_def classify_tokens_tightened split: sum.splits list.splits)

text \<open>C11. In silent mode the gate is fail-closed. A command that the gate with the caching model judge lets
  run came with a reason and is either safe by itself or the judge replied, for a request with the same cache
  key, with a verdict that parses and says allow; a timeout, a failure or an unreadable reply never lets one
  through, and the cache stays sound.\<close>

theorem silent_check_fail_closed:
  assumes "cache_sound digest (judge_allows loads str judge) st"
    and "bash_check resolve (caching_approve digest (llm_approve loads str judge)) g command reason rid cid st = (res, st')"
    and "bo_allowed res" "bg_mode g = ''silent''"
  shows "cache_sound digest (judge_allows loads str judge) st' \<and> py_strip reason \<noteq> []
    \<and> (cv_tier (classify_command resolve (bg_allowed_prefixes g) (bg_cwd g) (bg_policy g) (bg_declared g) command) = SAFE
       \<or> (\<exists>r. ar_command r = command \<and> ar_reason r = reason \<and> ar_tier r = RISKY
            \<and> ar_allowed_prefixes r = bg_allowed_prefixes g
            \<and> (\<exists>r'. cache_key digest r' = cache_key digest r \<and> judge_allows loads str judge r')))"
  using assms by (rule cached.check_sound)

definition demo_gate :: bash_gate where
  "demo_gate = \<lparr>bg_allowed_prefixes = [''/workspace''], bg_cwd = ''/workspace'', bg_mode = ''silent'',
     bg_policy = DEFAULT_POLICY, bg_declared = []\<rparr>"

lemmas gate_eval = classify_command_def classify_tokens_def shlex_split_def path_name_def path_of_def
  path_allowed_def path_join_def is_relative_to_def py_startswith_def py_strip_by_def py_isspace_def
  shlex_space_def COMPOSITION_CHARS_def DEFAULT_POLICY_def SAFE_COMMANDS_def DENIED_COMMANDS_def
  is_unsafe_flag_def UNSAFE_FLAGS_def is_trusted_executable_path_def TRUSTED_EXECUTABLE_DIRS_def
  or_else_def Let_def

lemma demo_cat_safe:
  "cv_tier (classify_command id [''/workspace''] ''/workspace'' DEFAULT_POLICY [] ''cat notes.txt'') = SAFE"
  by (simp add: gate_eval)

theorem silent_check_fail_closed_witness:
  "\<exists>res st'. bash_check id (caching_approve (\<lambda>_. ''k'') (llm_approve (\<lambda>_. None) (\<lambda>_. []) (\<lambda>r s. (TimedOut, s))))
      demo_gate ''cat notes.txt'' ''read the notes'' ''r'' ''c'' ([], 0 :: nat) = (res, st') \<and> bo_allowed res
    \<and> cv_tier (classify_command id [''/workspace''] ''/workspace'' DEFAULT_POLICY [] ''cat notes.txt'') = SAFE"
proof -
  let ?j = "\<lambda>r s. (TimedOut, s)"
  obtain res st' where b: "bash_check id (caching_approve (\<lambda>_. ''k'') (llm_approve (\<lambda>_. None) (\<lambda>_. []) ?j))
      demo_gate ''cat notes.txt'' ''read the notes'' ''r'' ''c'' ([], 0 :: nat) = (res, st')" by (metis surj_pair)
  have a: "bo_allowed res" using b demo_cat_safe
    by (auto simp: bash_check_def Let_def demo_gate_def py_strip_by_def py_isspace_def split: if_splits)
  have "cache_sound (\<lambda>_. ''k'') (judge_allows (\<lambda>_. None) (\<lambda>_. []) ?j) ([], 0 :: nat)" by (simp add: cache_sound_def)
  from silent_check_fail_closed [OF this b a] b a show ?thesis
    by (auto simp: demo_gate_def judge_allows_def)
qed

text \<open>A policy can be tightened any number of times (the runner does it once, with the lists of its settings):
  each step removes executables from the safe list and adds some to the denied list, and none takes a denial
  back.\<close>

definition tightened_by :: "(string list \<times> string list) list \<Rightarrow> command_policy \<Rightarrow> command_policy" where
  "tightened_by steps p = fold (\<lambda>(ds, dm). tightened ds dm) steps p"

lemma tightened_by_denied:
  "set (pol_denied (tightened_by steps p)) = set (pol_denied p) \<union> (\<Union>(ds, dm)\<in>set steps. set (listed dm))"
  by (induction steps arbitrary: p) (auto simp: tightened_by_def tightened_def)

lemma classify_denied:
  assumes "shlex_split (py_strip command) = Inr (raw # args)" "path_name raw \<in> set (pol_denied policy)"
    and "list_all (\<lambda>c. c \<notin> set COMPOSITION_CHARS) (py_strip command)"
  shows "cv_tier (classify_command resolve prefixes cwd policy declared command) = BLOCKED"
proof -
  have "py_strip command \<noteq> []" using assms(1) by (auto simp: shlex_split_def)
  then show ?thesis
    using assms by (auto simp: classify_command_def classify_tokens_def Let_def list_all_iff list_ex_iff)
qed

text \<open>C10. A denied executable does not run in the gated modes. Take a command without composition
  characters whose first word, however it is quoted and whatever directory it names, has as its last path
  component an executable that the base policy denies or that any of the tightenings made since denies. The
  call is refused in every gated mode, whatever prefixes are declared safe, whatever the reason, the working
  directory and the allowed paths are, and whoever approves: the approver is not even asked, its state stays.\<close>

theorem denied_never_allowed:
  assumes "shlex_split (py_strip command) = Inr (raw # args)"
    and "bg_policy g = tightened_by steps base"
    and "path_name raw \<in> set (pol_denied base) \<union> (\<Union>(ds, dm)\<in>set steps. set (listed dm))"
    and "list_all (\<lambda>c. c \<notin> set COMPOSITION_CHARS) (py_strip command)" "bg_mode g \<noteq> ''no_approval''"
  shows "\<not> bo_allowed (fst (bash_check resolve approve g command reason rid cid s))
    \<and> snd (bash_check resolve approve g command reason rid cid s) = s"
proof -
  have "path_name raw \<in> set (pol_denied (bg_policy g))" using assms(2,3) by (simp add: tightened_by_denied)
  from classify_denied [OF assms(1) this assms(4)] show ?thesis
    using assms(5) by (simp add: bash_check_def Let_def)
qed

text \<open>The witness denies \<open>cat\<close> by a second tightening and declares \<open>cat\<close> as a safe prefix; the word
  is quoted and names a directory.\<close>

definition tight_gate :: bash_gate where
  "tight_gate = \<lparr>bg_allowed_prefixes = [''/workspace''], bg_cwd = ''/workspace'', bg_mode = ''silent'',
     bg_policy = tightened_by [([''sort''], []), ([], [''Cat ''])] DEFAULT_POLICY, bg_declared = [''cat'']\<rparr>"

lemma listed_Cat: "listed [''Cat ''] = [''cat'']" by code_simp

theorem denied_never_allowed_witness:
  "\<not> bo_allowed (fst (bash_check id allow_all tight_gate (''/bin/c'' @ [dquote] @ ''at'' @ [dquote] @ '' notes.txt'')
      ''read'' ''r'' ''c'' ()))"
proof -
  have w: "shlex_split (py_strip (''/bin/c'' @ [dquote] @ ''at'' @ [dquote] @ '' notes.txt''))
      = Inr [''/bin/cat'', ''notes.txt'']"
    by (simp add: gate_eval)
  have d: "path_name ''/bin/cat'' \<in> set (pol_denied DEFAULT_POLICY)
      \<union> (\<Union>(ds, dm)\<in>set [([''sort''], []), ([], [''Cat ''])]. set (listed dm))"
    by (simp add: listed_Cat) (simp add: gate_eval)
  have p: "bg_policy tight_gate = tightened_by [([''sort''], []), ([], [''Cat ''])] DEFAULT_POLICY"
    and m: "bg_mode tight_gate \<noteq> ''no_approval''"
    by (simp_all add: tight_gate_def)
  have "list_all (\<lambda>c. c \<notin> set COMPOSITION_CHARS) (py_strip (''/bin/c'' @ [dquote] @ ''at'' @ [dquote] @ '' notes.txt''))"
    by (simp add: gate_eval)
  from denied_never_allowed [OF w p d this m] show ?thesis by (rule conjunct1)
qed

text \<open>The denied names are stored in lower case and compared with the word as it stands, so a tightening that
  denies an executable with a capital letter denies nothing: the command stays for the approver.\<close>

theorem capital_name_not_denied:
  "cv_tier (classify_command id [''/workspace''] ''/workspace'' (tightened [] [''Rscript''] DEFAULT_POLICY) []
      ''Rscript run.R'') = RISKY"
  by code_simp

text \<open>Commands that the intent of the whitelist excludes are auto-approved by the default policy without a
  declared prefix: an attached output flag of \<open>sort\<close>, which writes a file; an executable outside the trusted
  directories that is reached from one of them through parent directories; and a file outside the allowed paths
  that the shell reads because it expands \<open>~\<close> and braces, which the gate resolves as they stand.\<close>

theorem gate_lets_through:
  "list_all (\<lambda>c. cv_tier (classify_command id [''/workspace''] ''/workspace'' DEFAULT_POLICY [] c) = SAFE)
     [''sort -oout.txt in.txt'', ''/usr/bin/../../workspace/tools/cat notes.txt'',
      ''cat ~/.ssh/id_rsa'', ''cat {/etc/passwd,notes.txt}'']"
  by (simp add: gate_eval)

end
