(* ===== verification/Trae_Bridge.thy ===== *)
theory Trae_Bridge
  imports Runner_App Command_Gate
begin

text \<open>
  \<open>TraeToolGatewayBridge\<close> of \<open>session_runner/adapters/trae.py\<close>: the wrapper around the agent's tool executor that every
  batch of tool calls of a real run goes through. It joins the two gates: the batch authorization of \<open>Tool_Gateway\<close>
  and the command gate of \<open>Command_Gate\<close>, adds the sandbox of the silent mode and the question a skill generation
  has to ask before it writes.

  The coroutine \<open>_execute\<close> stops at two places, where it awaits an approval or an answer. A call of it ends in its results,
  in an exception, or in such a wait: \<open>br_wait\<close> is the open future with what the coroutine keeps for it, and \<open>approve\<close> and
  \<open>submit_answer\<close> resolve it and continue from there. The provider's own identifier of a call is left out.
  Parameters are collected in \<open>bridge_env\<close>: digests, \<open>str()\<close>, \<open>Path.resolve\<close>, the approver of risky commands, the
  executor of the vendored agent (\<open>delegate\<close>), which may raise, and the step counter read from the trajectory. The
  world is what the tools and the approver act on. Texts the source writes in Chinese stand here in English.
\<close>

section \<open>State\<close>

datatype wait =
    WaitApproval "tool_call list" string authorization
  | WaitAnswer "tool_call list" string

record 'w bridge =
  br_mode :: string
  br_table :: "(string \<times> tool_descriptor) list"
  br_policy :: gateway_policy
  br_workspace :: "path option"
  br_gate :: "bash_gate option"
  br_run_id :: string
  br_conversation_id :: string
  br_results :: "(string \<times> tool_result) list"
  br_ask_gate :: bool
  br_ask_answered :: bool
  br_wait :: "wait option"
  br_events :: "(string \<times> obj) list"
  br_world :: 'w

record 'w bridge_env =
  be_digest :: "string \<Rightarrow> string"
  be_bhash :: "tool_batch \<Rightarrow> string"
  be_str :: "json \<Rightarrow> string"
  be_resolve :: "path \<Rightarrow> path"
  be_approve :: "approval_request \<Rightarrow> 'w \<Rightarrow> approval \<times> 'w"
  be_delegate :: "string \<Rightarrow> tool_call list \<Rightarrow> 'w \<Rightarrow> (string + tool_result list) \<times> 'w"
  be_next_step :: int

datatype bridge_outcome = Results "tool_result list" | Waiting | BridgeRaised string

section \<open>Construction\<close>

definition DOCUMENT_TOOL_NAMES :: "string list" where
  "DOCUMENT_TOOL_NAMES = [''word_edit_tool'', ''excel_edit_tool'', ''pdf_tool'', ''document_convert_tool'']"

definition SIDE_EFFECT_TOOLS :: "string list" where
  "SIDE_EFFECT_TOOLS = [''bash'', ''json_edit_tool'', ''str_replace_based_edit_tool'', ''word_edit_tool'',
     ''excel_edit_tool'', ''pdf_tool'', ''document_convert_tool'']"

definition ASK_USER_NAME :: string where
  "ASK_USER_NAME = ''ask_user''"

definition PRE_ASK_READ_COMMANDS :: "string list" where
  "PRE_ASK_READ_COMMANDS = [''view'', ''read'', ''show'', ''list'', ''get'']"

definition PRE_ASK_BLOCKED_TOOLS :: "string list" where
  "PRE_ASK_BLOCKED_TOOLS = [''bash'', ''str_replace_based_edit_tool'', ''json_edit_tool'', ''word_edit_tool'',
     ''excel_edit_tool'', ''pdf_tool'', ''document_convert_tool'', ''task_done'']"

text \<open>\<open>str(raw_policy.get("mode") or "default")\<close>.\<close>

definition policy_mode :: "(json \<Rightarrow> string) \<Rightarrow> obj \<Rightarrow> string" where
  "policy_mode str p = (let v = obj_get p ''mode'' JNull in if truthy v then py_str str v else ''default'')"

text \<open>The sets \<open>allowed_tools\<close> and \<open>approval_required_tools\<close>, before the command gate takes \<open>bash\<close> over.\<close>

definition mode_policy :: "string \<Rightarrow> string list \<Rightarrow> obj \<Rightarrow> gateway_policy option" where
  "mode_policy mode names raw =
     (if mode = ''no_approval'' then Some \<lparr>gp_allowed_tools = names, gp_approval_required_tools = []\<rparr>
      else if mode = ''silent''
      then map_option (\<lambda>xs. \<lparr>gp_allowed_tools = filter (\<lambda>n. n \<in> set names) xs, gp_approval_required_tools = []\<rparr>)
             (json_strings (obj_get raw ''allowed_tools'' (JArr [])))
      else (case json_strings (obj_get raw ''allowed_tools'' (JArr (map JStr names))) of None \<Rightarrow> None | Some allowed \<Rightarrow>
             map_option (\<lambda>needs. \<lparr>gp_allowed_tools = allowed, gp_approval_required_tools = needs\<rparr>)
               (json_strings (obj_get raw ''approval_required_tools''
                  (JArr (map JStr (filter (\<lambda>n. n \<in> set allowed) SIDE_EFFECT_TOOLS)))))))"

definition default_descriptor :: "bool \<Rightarrow> string \<Rightarrow> tool_descriptor" where
  "default_descriptor force_no_approval n = \<lparr>td_name = n, td_version = ''1'',
     td_requires_approval = (\<not> force_no_approval \<and> (n \<in> set SIDE_EFFECT_TOOLS \<or> py_startswith n ''mcp.'')),
     td_description = []\<rparr>"

text \<open>In the default mode the flag of \<open>bash\<close> moves from its descriptor to the policy.\<close>

definition hand_bash_to_gate :: "string \<Rightarrow> tool_descriptor \<Rightarrow> tool_descriptor" where
  "hand_bash_to_gate mode d =
     (if mode = ''default'' \<and> td_name d = ''bash'' then d\<lparr>td_requires_approval := False\<rparr> else d)"

definition bridge_init :: "(json \<Rightarrow> string) \<Rightarrow> string list \<Rightarrow> obj \<Rightarrow> path option \<Rightarrow> bash_gate option \<Rightarrow> string \<Rightarrow> string
    \<Rightarrow> 'w \<Rightarrow> 'w bridge option" where
  "bridge_init str names raw ws gate rid cid w =
     (let mode = policy_mode str raw; force = (mode = ''no_approval'' \<or> mode = ''silent'') in
      case obj_get raw ''tools'' (JArr []) of JArr ts \<Rightarrow>
        (case (all_some (map descriptor_validate ts), mode_policy mode names raw) of
           (Some ds, Some p) \<Rightarrow>
             (let table = map (\<lambda>n. (n, hand_bash_to_gate mode (or_else (map_of (descriptor_table ds) n) (default_descriptor force n)))) names;
                  p' = (if mode = ''default'' then p\<lparr>gp_approval_required_tools := gp_approval_required_tools p @ [''bash'']\<rparr> else p) in
              Some \<lparr>br_mode = mode, br_table = descriptor_table (map snd table), br_policy = p', br_workspace = ws, br_gate = gate,
                    br_run_id = rid, br_conversation_id = cid, br_results = [],
                    br_ask_gate = (ASK_USER_NAME \<in> set (gp_allowed_tools p')), br_ask_answered = False,
                    br_wait = None, br_events = [], br_world = w\<rparr>)
         | _ \<Rightarrow> None)
      | _ \<Rightarrow> None)"

section \<open>Events and results\<close>

definition br_emit :: "string \<Rightarrow> obj \<Rightarrow> 'w bridge \<Rightarrow> 'w bridge" where
  "br_emit ty p b = b\<lparr>br_events := br_events b @ [(ty, p)]\<rparr>"

definition rejection :: "tool_call \<Rightarrow> string \<Rightarrow> tool_result" where
  "rejection c why = \<lparr>tr_call_id = tc_id c, tr_name = tc_name c, tr_success = False, tr_output = JNull, tr_error = Some why\<rparr>"

definition clear_pending :: "'w bridge \<Rightarrow> 'w bridge" where
  "clear_pending b = b\<lparr>br_wait := None\<rparr>"

fun store_each :: "tool_result list \<Rightarrow> 'w bridge \<Rightarrow> tool_result list \<times> 'w bridge" where
  "store_each [] b = ([], b)"
| "store_each (r # rs) b =
     (let cached = or_else (map_of (br_results b) (tr_call_id r)) r;
          b1 = (if map_of (br_results b) (tr_call_id r) = None
                then b\<lparr>br_results := AList.update (tr_call_id r) r (br_results b)\<rparr> else b) in
      case store_each rs (br_emit ''tool.result'' (result_dump cached) b1) of (out, b2) \<Rightarrow> (cached # out, b2))"

definition store_results :: "tool_result list \<Rightarrow> 'w bridge \<Rightarrow> bridge_outcome \<times> 'w bridge" where
  "store_results rs b = (case store_each rs b of (out, b1) \<Rightarrow> (Results out, clear_pending b1))"

definition rejected_batch :: "tool_call list \<Rightarrow> string \<Rightarrow> 'w bridge \<Rightarrow> bridge_outcome \<times> 'w bridge" where
  "rejected_batch calls why b =
     (let rs = map (\<lambda>c. rejection c why) calls in
      (Results rs, clear_pending (fold (\<lambda>r. br_emit ''tool.result'' (result_dump r)) rs b)))"

section \<open>The command gate\<close>

fun tier_value :: "command_tier \<Rightarrow> string" where
  "tier_value SAFE = ''safe''"
| "tier_value RISKY = ''risky''"
| "tier_value BLOCKED = ''blocked''"

text \<open>\<open>str(arguments.get(key) or "")\<close>.\<close>

definition arg_text :: "(json \<Rightarrow> string) \<Rightarrow> tool_call \<Rightarrow> string \<Rightarrow> string" where
  "arg_text str c k = (let v = obj_get (tc_arguments c) k JNull in if truthy v then py_str str v else [])"

definition bash_verdict :: "'w bridge_env \<Rightarrow> 'w bridge \<Rightarrow> tool_call \<Rightarrow> command_verdict option" where
  "bash_verdict env b c = (case br_gate b of None \<Rightarrow> None | Some g \<Rightarrow>
     if tc_name c \<noteq> ''bash'' then None
     else if py_strip (arg_text (be_str env) c ''reason'') = [] then Some (verdict BLOCKED MISSING_REASON)
     else Some (classify_command (be_resolve env) (bg_allowed_prefixes g) (bg_cwd g) (bg_policy g) []
                  (arg_text (be_str env) c ''command'')))"

text \<open>The dictionary of blocked calls with their reasons, and whether there are \<open>bash\<close> calls and all are safe.\<close>

definition preflight_blocked :: "'w bridge_env \<Rightarrow> 'w bridge \<Rightarrow> tool_call list \<Rightarrow> (string \<times> string) list" where
  "preflight_blocked env b calls = fold (\<lambda>c m. case bash_verdict env b c of
       Some v \<Rightarrow> if cv_tier v = BLOCKED then AList.update (tc_id c) (cv_reason v) m else m
     | None \<Rightarrow> m) calls []"

definition all_bash_safe :: "'w bridge_env \<Rightarrow> 'w bridge \<Rightarrow> tool_call list \<Rightarrow> bool" where
  "all_bash_safe env b calls =
     (let vs = filter (\<lambda>v. v \<noteq> None) (map (bash_verdict env b) calls) in
      vs \<noteq> [] \<and> length (filter (\<lambda>v. map_option cv_tier v = Some SAFE) vs) = length vs)"

definition effective_policy :: "'w bridge \<Rightarrow> bool \<Rightarrow> approval_decision option \<Rightarrow> gateway_policy" where
  "effective_policy b safe restored =
     (if br_mode b \<noteq> ''default'' \<or> \<not> safe \<or> restored \<noteq> None then br_policy b
      else (br_policy b)\<lparr>gp_approval_required_tools := removeAll ''bash'' (gp_approval_required_tools (br_policy b))\<rparr>)"

section \<open>The sandbox of the silent mode\<close>

definition path_keys :: "string \<Rightarrow> string list" where
  "path_keys name = (if name = ''document_convert_tool'' then [''input_path'', ''output_path''] else [''path''])"

definition outside_workspace :: "'w bridge_env \<Rightarrow> path \<Rightarrow> string \<Rightarrow> bool" where
  "outside_workspace env ws p =
     (let candidate = path_of p;
          resolved = be_resolve env (if fst candidate \<noteq> [] then candidate else path_join ws candidate);
          root = be_resolve env ws in
      \<not> (resolved = root \<or> is_relative_to resolved root))"

definition sandbox_problem :: "'w bridge_env \<Rightarrow> 'w bridge \<Rightarrow> tool_call \<Rightarrow> string option" where
  "sandbox_problem env b c =
     (if tc_name c \<notin> set (DOCUMENT_TOOL_NAMES @ [''str_replace_based_edit_tool'', ''json_edit_tool'']) then None
      else case br_workspace b of None \<Rightarrow> None | Some ws \<Rightarrow>
        (case find (\<lambda>k. case obj_get (tc_arguments c) k JNull of
                       JStr p \<Rightarrow> py_strip p \<noteq> [] \<and> outside_workspace env ws p | _ \<Rightarrow> False) (path_keys (tc_name c)) of
           None \<Rightarrow> None
         | Some k \<Rightarrow> Some (''path outside workspace: '' @ (case obj_get (tc_arguments c) k JNull of JStr p \<Rightarrow> p | _ \<Rightarrow> []))))"

definition warn_sandbox :: "tool_call \<Rightarrow> string \<Rightarrow> 'w bridge \<Rightarrow> 'w bridge" where
  "warn_sandbox c problem b = br_emit ''run.warning'' [(''code'', JStr ''SANDBOX_REJECTED''), (''kind'', JStr ''sandbox''),
     (''message'', JStr (''silent mode sandbox rejected tool '' @ tc_name c @ '': '' @ problem))] b"

section \<open>Dispatch\<close>

definition call_problem :: "'w bridge_env \<Rightarrow> tool_call \<Rightarrow> 'w bridge \<Rightarrow> string option \<times> 'w bridge" where
  "call_problem env c b =
     (case (if br_mode b = ''silent'' then sandbox_problem env b c else None) of
        Some p \<Rightarrow> (Some (''silent mode sandbox: '' @ p), warn_sandbox c p b)
      | None \<Rightarrow> (case (if tc_name c \<noteq> ''bash'' then None else br_gate b) of
            None \<Rightarrow> (None, b)
          | Some g \<Rightarrow> (case bash_check (be_resolve env) (be_approve env) g (arg_text (be_str env) c ''command'')
                              (arg_text (be_str env) c ''reason'') (br_run_id b) (br_conversation_id b) (br_world b) of
              (o1, w) \<Rightarrow>
                ((if bo_allowed o1 then None else Some (''command refused ('' @ bo_source o1 @ ''): '' @ bo_reason o1)),
                 br_emit ''command.gate'' [(''call_id'', JStr (tc_id c)),
                   (''tier'', case bo_tier o1 of None \<Rightarrow> JNull | Some t \<Rightarrow> JStr (tier_value t)),
                   (''allowed'', JBool (bo_allowed o1)), (''source'', JStr (bo_source o1)), (''reason'', JStr (bo_reason o1))]
                   (b\<lparr>br_world := w\<rparr>)))))"

fun problems :: "'w bridge_env \<Rightarrow> tool_call list \<Rightarrow> (string \<times> string) list \<Rightarrow> 'w bridge \<Rightarrow> (string \<times> string) list \<times> 'w bridge" where
  "problems env [] m b = (m, b)"
| "problems env (c # cs) m b = (case call_problem env c b of
       (None, b1) \<Rightarrow> problems env cs m b1
     | (Some p, b1) \<Rightarrow> problems env cs (AList.update (tc_id c) p m) b1)"

text \<open>The results in the order of the calls; \<open>None\<close> where the executor left one out and the lookup raises.\<close>

definition merge_results :: "tool_call list \<Rightarrow> (string \<times> string) list \<Rightarrow> tool_result list \<Rightarrow> tool_result list option" where
  "merge_results calls m rs =
     (let executed = fold (\<lambda>r. AList.update (tr_call_id r) r) rs [] in
      all_some (map (\<lambda>c. case map_of m (tc_id c) of
          Some p \<Rightarrow> Some (rejection c p)
        | None \<Rightarrow> map_of executed (tc_id c)) calls))"

definition bridge_dispatch :: "'w bridge_env \<Rightarrow> tool_call list \<Rightarrow> string \<Rightarrow> 'w bridge \<Rightarrow> bridge_outcome \<times> 'w bridge" where
  "bridge_dispatch env calls how b = (case problems env calls [] b of (m, b1) \<Rightarrow>
     (let remaining = filter (\<lambda>c. map_of m (tc_id c) = None) calls in
      case (if remaining = [] then (Inr [], br_world b1) else be_delegate env how remaining (br_world b1)) of
        (Inl e, w) \<Rightarrow> (BridgeRaised e, b1\<lparr>br_world := w\<rparr>)
      | (Inr rs, w) \<Rightarrow> (case merge_results calls m rs of
            None \<Rightarrow> (BridgeRaised ''KeyError'', b1\<lparr>br_world := w\<rparr>)
          | Some out \<Rightarrow> store_results out (b1\<lparr>br_world := w\<rparr>))))"

section \<open>Execution of a batch\<close>

definition policy_dump :: "'w bridge \<Rightarrow> obj" where
  "policy_dump b = [(''allowed_tools'', JArr (map JStr (sort (dedup (gp_allowed_tools (br_policy b)))))),
     (''approval_required_tools'', JArr (map JStr (sort (dedup (gp_approval_required_tools (br_policy b)))))),
     (''tools'', JArr (map (\<lambda>(n, d). JObj [(''name'', JStr (td_name d)), (''version'', JStr (td_version d)),
        (''requires_approval'', JBool (td_requires_approval d)), (''description'', JStr (td_description d))]) (br_table b)))]"

definition interaction_of :: "'w bridge_env \<Rightarrow> obj \<Rightarrow> tool_call list \<Rightarrow> string \<Rightarrow> 'w bridge \<Rightarrow> obj" where
  "interaction_of env opening calls how b = opening @
     [(''tool_batch_hash'', JStr (be_bhash env calls)), (''tool_batch'', batch_dump calls),
      (''pending_tool_calls'', JArr (map call_dump calls)), (''tool_policy'', JObj (policy_dump b)),
      (''tool_method'', JStr how), (''next_step'', JInt (be_next_step env))]"

definition blocked_before_ask :: "(json \<Rightarrow> string) \<Rightarrow> tool_call \<Rightarrow> bool" where
  "blocked_before_ask str c =
     (tc_name c \<in> set PRE_ASK_BLOCKED_TOOLS
      \<and> (tc_name c = ''task_done'' \<or> arg_text str c ''command'' \<notin> set PRE_ASK_READ_COMMANDS))"

definition ask_user :: "'w bridge_env \<Rightarrow> string \<Rightarrow> tool_call list \<Rightarrow> string \<Rightarrow> 'w bridge \<Rightarrow> bridge_outcome \<times> 'w bridge" where
  "ask_user env fresh calls how b = (case calls of
       [c] \<Rightarrow>
         (let question = py_strip (arg_text (be_str env) c ''question'') in
          if question = [] then store_results [rejection c ''ask_user has no question''] b
          else (let i = interaction_of env [(''interaction_id'', JStr fresh), (''kind'', JStr ''question''),
                          (''question'', JStr question)] calls how b in
                (Waiting, br_emit ''interaction.requested'' i (b\<lparr>br_wait := Some (WaitAnswer calls how)\<rparr>))))
     | _ \<Rightarrow> (BridgeRaised ''ask_user must be called alone; retry with a single ask_user call'', b))"

text \<open>\<open>_execute\<close> from the authorization on, with the decision it has by then.\<close>

definition after_authorization :: "'w bridge_env \<Rightarrow> string \<Rightarrow> authorization \<Rightarrow> approval_decision option \<Rightarrow> tool_call list \<Rightarrow> string
    \<Rightarrow> 'w bridge \<Rightarrow> bridge_outcome \<times> 'w bridge" where
  "after_authorization env fresh auth decision calls how b =
     (if au_status auth = DENIED
      then rejected_batch calls (if str_true (au_reason auth) then the (au_reason auth) else ''tool authorization denied'') b
      else if au_status auth = REQUIRES_APPROVAL \<and> decision = Some REJECT
      then rejected_batch calls ''tool batch rejected by user'' b
      else if au_status auth = REQUIRES_APPROVAL \<and> decision \<noteq> Some APPROVE_ONCE
      then (BridgeRaised ''tool batch approval decision is missing'', b)
      else if list_ex (\<lambda>c. tc_name c = ASK_USER_NAME) calls then ask_user env fresh calls how b
      else (let early = filter (blocked_before_ask (be_str env)) calls in
            if br_ask_gate b \<and> \<not> br_ask_answered b \<and> early \<noteq> []
            then rejected_batch calls (''blocked until ask_user is answered: ''
                   @ py_join '', '' (sort (dedup (map tc_name early)))) b
            else bridge_dispatch env calls how b))"

definition bridge_execute :: "'w bridge_env \<Rightarrow> string \<Rightarrow> approval_decision option \<Rightarrow> tool_call list \<Rightarrow> string
    \<Rightarrow> 'w bridge \<Rightarrow> bridge_outcome \<times> 'w bridge" where
  "bridge_execute env fresh restored calls how b =
     (let b1 = fold (\<lambda>c. br_emit ''tool.call'' (case call_dump c of JObj p \<Rightarrow> p | _ \<Rightarrow> [])) calls b;
          blocked = preflight_blocked env b calls in
      if blocked \<noteq> [] \<and> length blocked = length calls
      then store_results (map (\<lambda>c. rejection c (''command refused (denied list): '' @ or_else (map_of blocked (tc_id c)) [])) calls) b1
      else
        (let auth = authorize (be_digest env) (be_bhash env) (br_table b)
               (effective_policy b (all_bash_safe env b calls) restored) calls;
             b2 = br_emit ''tool.authorization'' (case auth_dump auth of JObj p \<Rightarrow> p | _ \<Rightarrow> []) b1 in
         if au_status auth = REQUIRES_APPROVAL \<and> restored = None
         then (Waiting, br_emit ''interaction.requested''
                 (interaction_of env [(''interaction_id'', opt_json (au_approval_id auth)), (''kind'', JStr ''approval'')] calls how b2)
                 (b2\<lparr>br_wait := Some (WaitApproval calls how auth)\<rparr>))
         else after_authorization env fresh auth restored calls how b2))"

definition bridge_approve :: "'w bridge_env \<Rightarrow> string \<Rightarrow> approval_decision \<Rightarrow> 'w bridge \<Rightarrow> bridge_outcome \<times> 'w bridge" where
  "bridge_approve env fresh decision b = (case br_wait b of
       Some (WaitApproval calls how auth) \<Rightarrow> after_authorization env fresh auth (Some decision) calls how (b\<lparr>br_wait := None\<rparr>)
     | _ \<Rightarrow> (BridgeRaised ''Trae run is not waiting for tool approval'', b))"

definition bridge_submit_answer :: "string \<Rightarrow> 'w bridge \<Rightarrow> bridge_outcome \<times> 'w bridge" where
  "bridge_submit_answer answer b = (case br_wait b of
       Some (WaitAnswer (c # _) how) \<Rightarrow>
         store_results [\<lparr>tr_call_id = tc_id c, tr_name = tc_name c, tr_success = True,
            tr_output = JStr (''user replied: '' @ answer), tr_error = None\<rparr>] (b\<lparr>br_wait := None, br_ask_answered := True\<rparr>)
     | _ \<Rightarrow> (BridgeRaised ''Trae run is not waiting for a user question'', b))"

section \<open>Steps\<close>

datatype bridge_op =
    OpExecute string "approval_decision option" "tool_call list" string
  | OpApprove string approval_decision
  | OpAnswer string

fun bridge_step :: "'w bridge_env \<Rightarrow> bridge_op \<Rightarrow> 'w bridge \<Rightarrow> bridge_outcome \<times> 'w bridge" where
  "bridge_step env (OpExecute fresh restored calls how) b = bridge_execute env fresh restored calls how b"
| "bridge_step env (OpApprove fresh decision) b = bridge_approve env fresh decision b"
| "bridge_step env (OpAnswer answer) b = bridge_submit_answer answer b"

inductive bridge_reach :: "'w bridge_env \<Rightarrow> 'w bridge \<Rightarrow> bool" for env :: "'w bridge_env" where
  reach_init: "bridge_init str names raw ws gate rid cid w = Some b \<Longrightarrow> bridge_reach env b"
| reach_mcp: "bridge_reach env b \<Longrightarrow>
    bridge_reach env (b\<lparr>br_policy := (br_policy b)\<lparr>gp_allowed_tools := gp_allowed_tools (br_policy b) @ mcp\<rparr>\<rparr>)"
| reach_step: "bridge_reach env b \<Longrightarrow> bridge_step env op b = (out, b') \<Longrightarrow> bridge_reach env b'"

text \<open>What clears a call for the executor.\<close>

definition needs_approval :: "'w bridge_env \<Rightarrow> 'w bridge \<Rightarrow> tool_call \<Rightarrow> bool" where
  "needs_approval env b c =
     ((case map_of (br_table b) (tc_name c) of None \<Rightarrow> False | Some d \<Rightarrow> td_requires_approval d)
      \<or> (tc_name c \<in> set (gp_approval_required_tools (br_policy b))
         \<and> \<not> (br_mode b = ''default'' \<and> tc_name c = ''bash'' \<and> map_option cv_tier (bash_verdict env b c) = Some SAFE)))"

fun granted :: "bridge_op \<Rightarrow> bool" where
  "granted (OpExecute _ restored _ _) = (restored = Some APPROVE_ONCE)"
| "granted (OpApprove _ decision) = (decision = APPROVE_ONCE)"
| "granted (OpAnswer _) = False"

definition gate_request :: "bash_gate \<Rightarrow> 'w bridge_env \<Rightarrow> 'w bridge \<Rightarrow> tool_call \<Rightarrow> approval_request" where
  "gate_request g env b c = (let command = arg_text (be_str env) c ''command'' in
     \<lparr>ar_command = command, ar_reason = arg_text (be_str env) c ''reason'', ar_tier = RISKY,
      ar_gate_reason = cv_reason (classify_command (be_resolve env) (bg_allowed_prefixes g) (bg_cwd g) (bg_policy g) (bg_declared g) command),
      ar_mode = bg_mode g, ar_cwd = bg_cwd g, ar_allowed_prefixes = bg_allowed_prefixes g,
      ar_run_id = br_run_id b, ar_conversation_id = br_conversation_id b\<rparr>)"

definition gate_cleared :: "'w bridge_env \<Rightarrow> 'w bridge \<Rightarrow> tool_call \<Rightarrow> bool" where
  "gate_cleared env b c = (case br_gate b of None \<Rightarrow> True | Some g \<Rightarrow>
     (let v = classify_command (be_resolve env) (bg_allowed_prefixes g) (bg_cwd g) (bg_policy g) (bg_declared g)
                (arg_text (be_str env) c ''command'') in
      tc_name c = ''bash'' \<longrightarrow> bg_mode g = ''no_approval''
        \<or> py_strip (arg_text (be_str env) c ''reason'') \<noteq> [] \<and> cv_tier v \<noteq> BLOCKED
          \<and> (cv_tier v = RISKY \<longrightarrow> bg_mode g \<noteq> ''silent'' \<or> (\<exists>w. ap_allowed (fst (be_approve env (gate_request g env b c) w))))))"

definition cleared :: "'w bridge_env \<Rightarrow> 'w bridge \<Rightarrow> bridge_op \<Rightarrow> tool_call \<Rightarrow> bool" where
  "cleared env b op c =
     (map_of (br_table b) (tc_name c) \<noteq> None \<and> tc_name c \<in> set (gp_allowed_tools (br_policy b)) \<and> tc_name c \<noteq> ASK_USER_NAME
      \<and> (needs_approval env b c \<longrightarrow> granted op)
      \<and> (br_mode b = ''silent'' \<longrightarrow> sandbox_problem env b c = None)
      \<and> gate_cleared env b c
      \<and> (br_ask_gate b \<and> \<not> br_ask_answered b \<longrightarrow> \<not> blocked_before_ask (be_str env) c))"

text \<open>The world keeps the log of the calls the executor was given; the approver does not touch it.\<close>

definition logs :: "('v \<times> tool_call list) bridge_env \<Rightarrow> bool" where
  "logs env = ((\<forall>how calls w. snd (snd (be_delegate env how calls w)) = snd w @ calls)
     \<and> (\<forall>r w. snd (snd (be_approve env r w)) = snd w))"

abbreviation br_log :: "('v \<times> tool_call list) bridge \<Rightarrow> tool_call list" where
  "br_log b \<equiv> snd (br_world b)"

section \<open>What a step leaves unchanged\<close>

text \<open>A bridge without its wait, results, events, world and the answered flag.\<close>

definition bridge_core :: "'w bridge \<Rightarrow> string \<times> (string \<times> tool_descriptor) list \<times> gateway_policy \<times> path option
    \<times> bash_gate option \<times> string \<times> string \<times> bool" where
  "bridge_core b = (br_mode b, br_table b, br_policy b, br_workspace b, br_gate b, br_run_id b, br_conversation_id b, br_ask_gate b)"

definition same_core :: "'w bridge \<Rightarrow> 'w bridge \<Rightarrow> bool" where
  "same_core b b' = (bridge_core b' = bridge_core b \<and> br_ask_answered b' = br_ask_answered b)"

lemma same_core_refl [simp]: "same_core b b"
  by (simp add: same_core_def)

lemma same_core_emit [simp]:
  "same_core b (br_emit ty p b') = same_core b b'" "br_world (br_emit ty p b') = br_world b'" "br_wait (br_emit ty p b') = br_wait b'"
  by (simp_all add: same_core_def bridge_core_def br_emit_def)

lemma same_core_fold_emit [simp]:
  "same_core b (fold (\<lambda>x. br_emit (f x) (g x)) xs b') = same_core b b'"
  "br_world (fold (\<lambda>x. br_emit (f x) (g x)) xs b') = br_world b'"
  "br_wait (fold (\<lambda>x. br_emit (f x) (g x)) xs b') = br_wait b'"
  by (induction xs arbitrary: b') simp_all

lemma same_core_update [simp]:
  "same_core b (b'\<lparr>br_world := w\<rparr>) = same_core b b'" "same_core b (b'\<lparr>br_wait := x\<rparr>) = same_core b b'"
  "same_core b (b'\<lparr>br_results := y\<rparr>) = same_core b b'"
  by (simp_all add: same_core_def bridge_core_def)

lemma same_core_fields:
  assumes "same_core b b'"
  shows "br_mode b' = br_mode b" "br_table b' = br_table b" "br_policy b' = br_policy b" "br_workspace b' = br_workspace b"
    "br_gate b' = br_gate b" "br_run_id b' = br_run_id b" "br_conversation_id b' = br_conversation_id b"
    "br_ask_gate b' = br_ask_gate b" "br_ask_answered b' = br_ask_answered b"
  using assms by (simp_all add: same_core_def bridge_core_def)

lemma same_core_verdict:
  assumes "same_core b b'"
  shows "bash_verdict env b' c = bash_verdict env b c" "sandbox_problem env b' c = sandbox_problem env b c"
    "gate_cleared env b' c = gate_cleared env b c" "needs_approval env b' c = needs_approval env b c"
    "all_bash_safe env b' cs = all_bash_safe env b cs"
proof -
  show v: "bash_verdict env b' c = bash_verdict env b c" for c
    by (simp only: bash_verdict_def same_core_fields [OF assms])
  show "sandbox_problem env b' c = sandbox_problem env b c"
    by (simp only: sandbox_problem_def same_core_fields [OF assms])
  show "gate_cleared env b' c = gate_cleared env b c"
    by (simp only: gate_cleared_def gate_request_def same_core_fields [OF assms])
  show "needs_approval env b' c = needs_approval env b c"
    by (simp only: needs_approval_def v same_core_fields [OF assms])
  have "bash_verdict env b' = bash_verdict env b" using v by blast
  then show "all_bash_safe env b' cs = all_bash_safe env b cs"
    by (simp only: all_bash_safe_def)
qed

lemma store_each_frame [simp]:
  "same_core b0 (snd (store_each rs b)) = same_core b0 b" "br_world (snd (store_each rs b)) = br_world b"
  "br_wait (snd (store_each rs b)) = br_wait b"
  by (induction rs arbitrary: b) (simp_all add: Let_def split_beta)

lemma store_results_frame [simp]:
  "same_core b0 (snd (store_results rs b)) = same_core b0 b" "br_world (snd (store_results rs b)) = br_world b"
  "br_wait (snd (store_results rs b)) = None"
  by (simp_all add: store_results_def clear_pending_def split_beta)

lemma rejected_batch_frame [simp]:
  "same_core b0 (snd (rejected_batch calls why b)) = same_core b0 b" "br_world (snd (rejected_batch calls why b)) = br_world b"
  "br_wait (snd (rejected_batch calls why b)) = None"
  by (simp_all add: rejected_batch_def Let_def clear_pending_def)

section \<open>Only cleared calls are dispatched\<close>

lemma bash_check_cleared:
  assumes "bash_check (be_resolve env) (be_approve env) g (arg_text (be_str env) c ''command'') (arg_text (be_str env) c ''reason'')
      (br_run_id b) (br_conversation_id b) w = (o1, w')" "bo_allowed o1" "br_gate b = Some g"
  shows "gate_cleared env b c"
proof -
  let ?v = "classify_command (be_resolve env) (bg_allowed_prefixes g) (bg_cwd g) (bg_policy g) (bg_declared g) (arg_text (be_str env) c ''command'')"
  have "ap_allowed (fst (be_approve env (gate_request g env b c) w))"
    if "bg_mode g = ''silent''" "cv_tier ?v = RISKY"
    using that assms(1,2) by (auto simp: bash_check_def gate_request_def Let_def split: if_splits prod.splits)
  moreover have "bg_mode g = ''no_approval'' \<or> py_strip (arg_text (be_str env) c ''reason'') \<noteq> [] \<and> cv_tier ?v \<noteq> BLOCKED"
    using assms(1,2) by (auto simp: bash_check_def Let_def split: if_splits)
  ultimately show ?thesis
    using assms(3) unfolding gate_cleared_def Let_def by auto
qed

lemma bash_check_log:
  assumes "logs env" "bash_check (be_resolve env) (be_approve env) g cmd why rid cid w = (o1, w')"
  shows "snd w' = snd w"
proof -
  have "snd (snd (be_approve env r w)) = snd w" for r
    using assms(1) unfolding logs_def by blast
  then show ?thesis
    using assms(2) by (auto simp: bash_check_def Let_def split: if_splits command_tier.splits prod.splits)
      (metis snd_conv)+
qed

lemma call_problem_frame:
  assumes "call_problem env c b = (p, b')"
  shows "same_core b b' \<and> br_wait b' = br_wait b
    \<and> (p = None \<longrightarrow> (br_mode b = ''silent'' \<longrightarrow> sandbox_problem env b c = None) \<and> gate_cleared env b c)"
proof (cases "if br_mode b = ''silent'' then sandbox_problem env b c else None")
  case Some
  then show ?thesis using assms by (auto simp: call_problem_def warn_sandbox_def)
next
  case None
  then have sb: "br_mode b = ''silent'' \<longrightarrow> sandbox_problem env b c = None" by (simp split: if_splits)
  show ?thesis
  proof (cases "if tc_name c \<noteq> ''bash'' then None else br_gate b")
    case None
    then have "gate_cleared env b c" by (auto simp: gate_cleared_def Let_def split: if_splits option.splits)
    then show ?thesis using assms sb None \<open>(if br_mode b = ''silent'' then sandbox_problem env b c else None) = None\<close>
      by (simp add: call_problem_def)
  next
    case (Some g)
    obtain o1 w where k: "bash_check (be_resolve env) (be_approve env) g (arg_text (be_str env) c ''command'')
        (arg_text (be_str env) c ''reason'') (br_run_id b) (br_conversation_id b) (br_world b) = (o1, w)" by (rule prod.exhaust)
    have "br_gate b = Some g" using Some by (simp split: if_splits)
    then show ?thesis
      using assms sb Some k bash_check_cleared [OF k] \<open>(if br_mode b = ''silent'' then sandbox_problem env b c else None) = None\<close>
      by (simp add: call_problem_def) (auto split: if_splits)
  qed
qed

lemma call_problem_log:
  assumes "logs env" "call_problem env c b = (p, b')"
  shows "br_log b' = br_log b"
proof (cases "(if br_mode b = ''silent'' then sandbox_problem env b c else None, if tc_name c \<noteq> ''bash'' then None else br_gate b)")
  case (Pair x y)
  show ?thesis
  proof (cases "x = None \<and> y \<noteq> None")
    case True
    then obtain g where "y = Some g" by blast
    obtain o1 w where k: "bash_check (be_resolve env) (be_approve env) g (arg_text (be_str env) c ''command'')
        (arg_text (be_str env) c ''reason'') (br_run_id b) (br_conversation_id b) (br_world b) = (o1, w)" by (rule prod.exhaust)
    then show ?thesis using Pair True \<open>y = Some g\<close> bash_check_log [OF assms(1) k] assms(2)
      by (auto simp: call_problem_def)
  next
    case False
    then show ?thesis using Pair assms(2) by (auto simp: call_problem_def warn_sandbox_def split: option.splits)
  qed
qed

lemma same_core_trans: "same_core b b1 \<Longrightarrow> same_core b1 b2 \<Longrightarrow> same_core b b2"
  by (simp add: same_core_def)

abbreviation passes :: "'w bridge_env \<Rightarrow> 'w bridge \<Rightarrow> tool_call \<Rightarrow> bool" where
  "passes env b c \<equiv> (br_mode b = ''silent'' \<longrightarrow> sandbox_problem env b c = None) \<and> gate_cleared env b c"

lemma same_core_passes: "same_core b b' \<Longrightarrow> passes env b' c = passes env b c"
  by (simp add: same_core_verdict same_core_fields)

lemma problems_frame:
  assumes "problems env cs m b = (m', b')"
  shows "same_core b b' \<and> br_wait b' = br_wait b \<and> dom (map_of m) \<subseteq> dom (map_of m')
    \<and> (\<forall>c\<in>set cs. map_of m' (tc_id c) = None \<longrightarrow> passes env b c)"
  using assms
proof (induction cs arbitrary: m b)
  case (Cons c cs)
  obtain p b1 where k: "call_problem env c b = (p, b1)" by (rule prod.exhaust)
  note fr = call_problem_frame [OF k]
  show ?case
  proof (cases p)
    case None
    then have "problems env cs m b1 = (m', b')" using Cons.prems k by simp
    from Cons.IH [OF this] fr None show ?thesis
      by (simp add: same_core_passes [of b b1]) (blast intro: same_core_trans)
  next
    case (Some q)
    then have "problems env cs (AList.update (tc_id c) q m) b1 = (m', b')" using Cons.prems k by simp
    note ih = Cons.IH [OF this]
    have "dom (map_of (AList.update (tc_id c) q m)) = insert (tc_id c) (dom (map_of m))"
      by (simp only: update_conv' dom_fun_upd) simp
    then have d: "map_of m' (tc_id c) \<noteq> None" "dom (map_of m) \<subseteq> dom (map_of m')" using ih by auto
    from ih fr have "same_core b b' \<and> br_wait b' = br_wait b \<and> (\<forall>c\<in>set cs. map_of m' (tc_id c) = None \<longrightarrow> passes env b c)"
      by (simp add: same_core_passes [of b b1]) (blast intro: same_core_trans)
    with d show ?thesis by auto
  qed
qed simp

lemma problems_log: "logs env \<Longrightarrow> problems env cs m b = (m', b') \<Longrightarrow> br_log b' = br_log b"
proof (induction cs arbitrary: m b)
  case (Cons c cs)
  obtain p b1 where k: "call_problem env c b = (p, b1)" by (rule prod.exhaust)
  then obtain m1 where "problems env cs m1 b1 = (m', b')" using Cons.prems(2) by (cases p) auto
  from Cons.IH [OF Cons.prems(1) this] call_problem_log [OF Cons.prems(1) k] show ?case by simp
qed simp

lemma dispatch_frame:
  "same_core b (snd (bridge_dispatch env calls how b))"
  "br_wait (snd (bridge_dispatch env calls how b)) \<in> {br_wait b, None}"
proof -
  obtain m b1 where k: "problems env calls [] b = (m, b1)" by (rule prod.exhaust)
  from problems_frame [OF k] show "same_core b (snd (bridge_dispatch env calls how b))"
    "br_wait (snd (bridge_dispatch env calls how b)) \<in> {br_wait b, None}"
    by (auto simp: bridge_dispatch_def k Let_def split_beta split: sum.splits option.splits)
qed

lemma dispatch_log:
  assumes "logs env"
  shows "\<exists>new. br_log (snd (bridge_dispatch env calls how b)) = br_log b @ new \<and> (\<forall>c\<in>set new. c \<in> set calls \<and> passes env b c)"
proof -
  obtain m b1 where k: "problems env calls [] b = (m, b1)" by (rule prod.exhaust)
  let ?new = "filter (\<lambda>c. map_of m (tc_id c) = None) calls"
  have "br_log (snd (bridge_dispatch env calls how b)) = br_log b1 @ ?new"
  proof (cases "?new = []")
    case True
    then show ?thesis by (simp add: bridge_dispatch_def k Let_def split: option.splits)
  next
    case False
    have "snd (snd (be_delegate env how ?new (br_world b1))) = br_log b1 @ ?new"
      using assms unfolding logs_def by blast
    with False show ?thesis by (auto simp: bridge_dispatch_def k Let_def split_beta split: sum.splits option.splits)
  qed
  then show ?thesis using problems_log [OF assms k] problems_frame [OF k] by auto
qed

text \<open>An open approval was asked for a batch of known and allowed tools.\<close>

definition wait_ok :: "'w bridge \<Rightarrow> bool" where
  "wait_ok b = (case br_wait b of
       Some (WaitApproval calls how auth) \<Rightarrow> au_status auth = REQUIRES_APPROVAL
         \<and> (\<forall>c\<in>set calls. map_of (br_table b) (tc_name c) \<noteq> None \<and> tc_name c \<in> set (gp_allowed_tools (br_policy b)))
     | _ \<Rightarrow> True)"

lemma wait_okI: "same_core b b' \<Longrightarrow> wait_ok b \<Longrightarrow> br_wait b' \<in> {br_wait b, None} \<Longrightarrow> wait_ok b'"
  using same_core_fields [of b b'] by (auto simp: wait_ok_def split: option.splits wait.splits)

lemma effective_policy_simps [simp]:
  "gp_allowed_tools (effective_policy b safe r) = gp_allowed_tools (br_policy b)"
  by (simp add: effective_policy_def)

lemma all_bash_safeD:
  assumes "all_bash_safe env b calls" "c \<in> set calls" "tc_name c = ''bash''"
  shows "map_option cv_tier (bash_verdict env b c) = Some SAFE"
proof -
  let ?vs = "filter (\<lambda>v. v \<noteq> None) (map (bash_verdict env b) calls)"
  have "\<forall>v\<in>set ?vs. map_option cv_tier v = Some SAFE"
    using assms(1) length_filter_less [of _ ?vs "\<lambda>v. map_option cv_tier v = Some SAFE"]
    by (fastforce simp: all_bash_safe_def Let_def)
  moreover from assms(1) obtain d where "bash_verdict env b d \<noteq> None"
    by (auto simp: all_bash_safe_def Let_def filter_empty_conv)
  then have "bash_verdict env b c \<noteq> None" using assms(3) by (auto simp: bash_verdict_def split: option.splits)
  ultimately show ?thesis using assms(2) by auto
qed

lemma authorized_needs:
  assumes "au_status (authorize dg bh (br_table b) (effective_policy b (all_bash_safe env b calls) r) calls) \<noteq> DENIED" "c \<in> set calls"
  shows "map_of (br_table b) (tc_name c) \<noteq> None \<and> tc_name c \<in> set (gp_allowed_tools (br_policy b))"
    "au_status (authorize dg bh (br_table b) (effective_policy b (all_bash_safe env b calls) r) calls) = APPROVED \<Longrightarrow> \<not> needs_approval env b c"
proof -
  show "map_of (br_table b) (tc_name c) \<noteq> None \<and> tc_name c \<in> set (gp_allowed_tools (br_policy b))"
    using assms by (auto simp: authorize_status list_all_iff split: if_splits)
  assume "au_status (authorize dg bh (br_table b) (effective_policy b (all_bash_safe env b calls) r) calls) = APPROVED"
  then have n: "\<not> (case map_of (br_table b) (tc_name c) of None \<Rightarrow> False | Some d \<Rightarrow> td_requires_approval d)"
    "tc_name c \<notin> set (gp_approval_required_tools (effective_policy b (all_bash_safe env b calls) r))"
    using assms(2) by (auto simp: authorize_status list_ex_iff split: if_splits)
  show "\<not> needs_approval env b c"
  proof (cases "tc_name c \<in> set (gp_approval_required_tools (br_policy b))")
    case True
    with n(2) have e: "br_mode b = ''default''" "all_bash_safe env b calls" "tc_name c = ''bash''"
      by (auto simp: effective_policy_def split: if_splits)
    then show ?thesis using n(1) all_bash_safeD [OF e(2) assms(2) e(3)] by (auto simp: needs_approval_def)
  qed (use n(1) in \<open>simp add: needs_approval_def\<close>)
qed

lemma ask_user_frame:
  "same_core b (snd (ask_user env fresh calls how b))" "br_world (snd (ask_user env fresh calls how b)) = br_world b"
  "br_wait (snd (ask_user env fresh calls how b)) \<in> {br_wait b, None, Some (WaitAnswer calls how)}"
  by (auto simp: ask_user_def Let_def split: list.splits)

lemma after_authorization_frame:
  "same_core b (snd (after_authorization env fresh auth dec calls how b))"
  "br_wait (snd (after_authorization env fresh auth dec calls how b)) \<in> {br_wait b, None, Some (WaitAnswer calls how)}"
  using dispatch_frame [where env = env and b = b and calls = calls and how = how] ask_user_frame [where env = env and b = b and calls = calls and how = how and fresh = fresh]
  by (auto simp: after_authorization_def Let_def)

lemma after_authorization_log:
  assumes "logs env"
  shows "\<exists>new. br_log (snd (after_authorization env fresh auth dec calls how b)) = br_log b @ new
    \<and> (\<forall>c\<in>set new. c \<in> set calls \<and> passes env b c \<and> tc_name c \<noteq> ASK_USER_NAME \<and> au_status auth \<noteq> DENIED
         \<and> (au_status auth = REQUIRES_APPROVAL \<longrightarrow> dec = Some APPROVE_ONCE)
         \<and> (br_ask_gate b \<and> \<not> br_ask_answered b \<longrightarrow> \<not> blocked_before_ask (be_str env) c))"
proof -
  define ok where "ok = (au_status auth \<noteq> DENIED \<and> (au_status auth = REQUIRES_APPROVAL \<longrightarrow> dec = Some APPROVE_ONCE)
    \<and> (\<forall>c\<in>set calls. tc_name c \<noteq> ASK_USER_NAME)
    \<and> (br_ask_gate b \<and> \<not> br_ask_answered b \<longrightarrow> (\<forall>c\<in>set calls. \<not> blocked_before_ask (be_str env) c)))"
  show ?thesis
  proof (cases ok)
    case True
    then have "after_authorization env fresh auth dec calls how b = bridge_dispatch env calls how b"
      by (auto simp: ok_def after_authorization_def Let_def list_ex_iff filter_empty_conv)
    with dispatch_log [OF assms, of calls how b] True show ?thesis unfolding ok_def by (metis (no_types, lifting))
  next
    case False
    then have "br_world (snd (after_authorization env fresh auth dec calls how b)) = br_world b"
      using ask_user_frame(2) [where env = env and b = b and calls = calls and how = how and fresh = fresh]
      unfolding ok_def after_authorization_def Let_def list_ex_iff filter_empty_conv by auto
    then show ?thesis by simp
  qed
qed

text \<open>\<open>_execute\<close> rejects the batch before it is authorized, stops at the approval, or goes on with the authorization.\<close>

lemma execute_cases:
  fixes env :: "'w bridge_env"
  obtains (quiet) "br_world (snd (bridge_execute env fresh r calls how b)) = br_world b"
      "same_core b (snd (bridge_execute env fresh r calls how b))"
      "wait_ok b \<Longrightarrow> wait_ok (snd (bridge_execute env fresh r calls how b))"
  | (run) auth b2 where "bridge_execute env fresh r calls how b = after_authorization env fresh auth r calls how b2"
      "auth = authorize (be_digest env) (be_bhash env) (br_table b) (effective_policy b (all_bash_safe env b calls) r) calls"
      "same_core b b2" "br_world b2 = br_world b" "br_wait b2 = br_wait b"
proof -
  define auth where "auth = authorize (be_digest env) (be_bhash env) (br_table b) (effective_policy b (all_bash_safe env b calls) r) calls"
  define b1 where "b1 = fold (\<lambda>c. br_emit ''tool.call'' (case call_dump c of JObj p \<Rightarrow> p | _ \<Rightarrow> [])) calls b"
  define b2 where "b2 = br_emit ''tool.authorization'' (case auth_dump auth of JObj p \<Rightarrow> p | _ \<Rightarrow> []) b1"
  let ?bl = "preflight_blocked env b calls"
  have b2: "same_core b b2" "br_world b2 = br_world b" "br_wait b2 = br_wait b" by (simp_all add: b1_def b2_def)
  note ex = bridge_execute_def [of env fresh r calls how b, unfolded Let_def, folded auth_def, folded b1_def, folded b2_def]
  show thesis
  proof (cases "?bl \<noteq> [] \<and> length ?bl = length calls")
    case True
    then show thesis by (intro quiet) (auto simp: ex b1_def wait_ok_def)
  next
    case False
    show thesis
    proof (cases "au_status auth = REQUIRES_APPROVAL \<and> r = None")
      case True
      have "\<forall>c\<in>set calls. map_of (br_table b) (tc_name c) \<noteq> None \<and> tc_name c \<in> set (gp_allowed_tools (br_policy b))"
        using True authorized_needs(1) [of "be_digest env" "be_bhash env" b env calls r] unfolding auth_def by force
      moreover have e: "snd (bridge_execute env fresh r calls how b) = br_emit ''interaction.requested''
          (interaction_of env [(''interaction_id'', opt_json (au_approval_id auth)), (''kind'', JStr ''approval'')] calls how b2)
          (b2\<lparr>br_wait := Some (WaitApproval calls how auth)\<rparr>)"
        unfolding ex using True False by auto
      ultimately have "wait_ok (snd (bridge_execute env fresh r calls how b))"
        unfolding e using True same_core_fields(2,3) [OF b2(1)] by (simp add: wait_ok_def br_emit_def)
      moreover have "same_core b (snd (bridge_execute env fresh r calls how b))"
        "br_world (snd (bridge_execute env fresh r calls how b)) = br_world b"
        unfolding e using b2 by simp_all
      ultimately show thesis using quiet by blast
    next
      case F: False
      have "bridge_execute env fresh r calls how b = after_authorization env fresh auth r calls how b2"
        unfolding ex using F False by auto
      then show thesis using run auth_def b2 by blast
    qed
  qed
qed

lemma bridge_step_wait_ok: "wait_ok b \<Longrightarrow> wait_ok (snd (bridge_step env op b))"
proof (cases op)
  case (OpExecute fresh r calls how)
  assume w: "wait_ok b"
  show ?thesis
  proof (cases rule: execute_cases [where env = env and fresh = fresh and r = r and calls = calls and how = how and b = b])
    case quiet
    then show ?thesis using w OpExecute by simp
  next
    case (run auth b2)
    let ?a = "after_authorization env fresh auth r calls how b2"
    have "wait_ok b2" using wait_okI [OF run(3) w] run(5) by simp
    then have "wait_ok (snd ?a)"
      using after_authorization_frame [where env = env and fresh = fresh and auth = auth and dec = r and calls = calls and how = how and b = b2] wait_okI [of b2 "snd ?a"]
      by (auto simp: wait_ok_def)
    then show ?thesis using run(1) OpExecute by simp
  qed
next
  case (OpApprove fresh d)
  assume w: "wait_ok b"
  show ?thesis
  proof (cases "\<exists>calls how auth. br_wait b = Some (WaitApproval calls how auth)")
    case True
    then obtain calls how auth where p: "br_wait b = Some (WaitApproval calls how auth)" by blast
    let ?b = "b\<lparr>br_wait := None\<rparr>"
    have "br_wait (snd (after_authorization env fresh auth (Some d) calls how ?b)) \<in> {None, Some (WaitAnswer calls how)}"
      using after_authorization_frame(2) [where env = env and fresh = fresh and auth = auth and dec = "Some d" and calls = calls and how = how and b = ?b] by auto
    then show ?thesis using p OpApprove by (auto simp: bridge_approve_def wait_ok_def)
  next
    case False
    then show ?thesis using w OpApprove by (auto simp: bridge_approve_def split: option.splits wait.splits)
  qed
next
  case (OpAnswer a)
  assume "wait_ok b"
  then show ?thesis using OpAnswer by (auto simp: bridge_submit_answer_def wait_ok_def split: option.splits wait.splits list.splits)
qed

lemma reach_wait_ok: "bridge_reach env b \<Longrightarrow> wait_ok b"
proof (induction rule: bridge_reach.induct)
  case (reach_init str names raw ws gate rid cid w b)
  then show ?case by (auto simp: bridge_init_def wait_ok_def Let_def split: json.splits option.splits)
next
  case (reach_mcp b mcp)
  then show ?case by (auto simp: wait_ok_def split: option.splits wait.splits)
next
  case (reach_step b op out b')
  then show ?case using bridge_step_wait_ok [of b env op] by simp
qed

lemma cleared_core: "same_core b b' \<Longrightarrow> cleared env b' op c = cleared env b op c"
  by (simp add: cleared_def same_core_verdict same_core_fields)

lemma execute_cleared:
  assumes "logs env"
  shows "\<exists>new. br_log (snd (bridge_execute env fresh r calls how b)) = br_log b @ new
    \<and> (\<forall>c\<in>set new. cleared env b (OpExecute fresh r calls how) c)"
proof (cases rule: execute_cases [where env = env and fresh = fresh and r = r and calls = calls and how = how and b = b])
  case quiet
  then show ?thesis by simp
next
  case (run auth b2)
  from after_authorization_log [OF assms, of fresh auth r calls how b2] obtain new where
    n: "br_log (snd (bridge_execute env fresh r calls how b)) = br_log b @ new" and
    c: "\<forall>c\<in>set new. c \<in> set calls \<and> passes env b2 c \<and> tc_name c \<noteq> ASK_USER_NAME \<and> au_status auth \<noteq> DENIED
         \<and> (au_status auth = REQUIRES_APPROVAL \<longrightarrow> r = Some APPROVE_ONCE)
         \<and> (br_ask_gate b2 \<and> \<not> br_ask_answered b2 \<longrightarrow> \<not> blocked_before_ask (be_str env) c)"
    unfolding run(1) run(4) by blast
  have "cleared env b (OpExecute fresh r calls how) c" if "c \<in> set new" for c
  proof -
    have "au_status auth \<noteq> DENIED" "c \<in> set calls" using c that by blast+
    note a = authorized_needs [OF this [unfolded run(2)], folded run(2)]
    have "needs_approval env b c \<longrightarrow> r = Some APPROVE_ONCE"
      using a(2) c that by (cases "au_status auth") auto
    then show ?thesis
      using a(1) c that by (simp add: cleared_def same_core_fields [OF run(3)] same_core_verdict [OF run(3)])
  qed
  then show ?thesis using n by blast
qed

lemma approve_cleared:
  assumes "logs env" "wait_ok b"
  shows "\<exists>new. br_log (snd (bridge_approve env fresh d b)) = br_log b @ new \<and> (\<forall>c\<in>set new. cleared env b (OpApprove fresh d) c)"
proof (cases "\<exists>calls how auth. br_wait b = Some (WaitApproval calls how auth)")
  case True
  then obtain calls how auth where p: "br_wait b = Some (WaitApproval calls how auth)" by blast
  let ?b = "b\<lparr>br_wait := None\<rparr>"
  have sc: "same_core b ?b" by simp
  have e: "bridge_approve env fresh d b = after_authorization env fresh auth (Some d) calls how ?b"
    using p by (simp add: bridge_approve_def)
  have w: "au_status auth = REQUIRES_APPROVAL"
    "\<forall>c\<in>set calls. map_of (br_table b) (tc_name c) \<noteq> None \<and> tc_name c \<in> set (gp_allowed_tools (br_policy b))"
    using assms(2) p by (auto simp: wait_ok_def)
  from after_authorization_log [OF assms(1), of fresh auth "Some d" calls how ?b] w show ?thesis
    unfolding e by (auto simp: cleared_def same_core_verdict [OF sc])
next
  case False
  then have "snd (bridge_approve env fresh d b) = b" by (auto simp: bridge_approve_def split: option.splits wait.splits)
  then show ?thesis by simp
qed

text \<open>C12. The executor of the agent is handed cleared calls only. In every state a bridge can get into, by any sequence of
  batches, approvals and answers and after the tools of MCP servers were added, one more step logs only calls that are known, in the
  policy and not \<open>ask_user\<close>; that were approved in this very step where approval is needed, which for \<open>bash\<close> in the default
  mode is unless the command is on the read-only whitelist; that stay in the workspace in the silent mode; whose command has a
  reason, is not denied and, if risky in the silent mode, was allowed by the approver; and that do not write before the question of
  a skill generation is answered. The hypothesis \<open>logs\<close> says that the world records what the executor was given.\<close>

theorem dispatched_only_cleared:
  assumes "bridge_reach env b" "logs env" "bridge_step env op b = (out, b')"
  shows "\<exists>new. br_log b' = br_log b @ new \<and> (\<forall>c\<in>set new. cleared env b op c)"
proof (cases op)
  case (OpExecute fresh r calls how)
  then show ?thesis using execute_cleared [OF assms(2), of fresh r calls how b] assms(3) by simp
next
  case (OpApprove fresh d)
  then show ?thesis using approve_cleared [OF assms(2) reach_wait_ok [OF assms(1)], of fresh d] assms(3) by simp
next
  case (OpAnswer a)
  then have "br_log b' = br_log b" using assms(3)
    by (auto simp: bridge_submit_answer_def split: option.splits wait.splits list.splits
        dest!: arg_cong [where f = "\<lambda>x. br_world (snd x)"])
  then show ?thesis by simp
qed

text \<open>A bridge in the default mode: the model asks for a file to be written, the user approves, the executor gets the call.\<close>

definition ex_bridge_env :: "(unit \<times> tool_call list) bridge_env" where
  "ex_bridge_env = \<lparr>be_digest = (\<lambda>s. s), be_bhash = (\<lambda>b. concat (map tc_id b)), be_str = (\<lambda>_. ''?''), be_resolve = (\<lambda>p. p),
     be_approve = deny_all, be_delegate = (\<lambda>how calls w. (Inr (map (\<lambda>c. \<lparr>tr_call_id = tc_id c, tr_name = tc_name c,
       tr_success = True, tr_output = JStr ''ok'', tr_error = None\<rparr>) calls), (fst w, snd w @ calls))), be_next_step = 2\<rparr>"

definition ex_write_call :: tool_call where
  "ex_write_call = \<lparr>tc_id = ''c1'', tc_name = ''json_edit_tool'', tc_arguments = [(''path'', JStr ''/w/a.json'')]\<rparr>"

definition ex_bridge :: "(unit \<times> tool_call list) bridge" where
  "ex_bridge = the (bridge_init (\<lambda>_. ''?'') [''bash'', ''json_edit_tool''] [] (Some (path_of ''/w'')) None ''r'' ''v'' ((), []))"

lemma ex_logs: "logs ex_bridge_env"
  by (simp add: logs_def ex_bridge_env_def deny_all_def)

theorem dispatched_only_cleared_witness:
  "\<exists>b out b'. bridge_reach ex_bridge_env b \<and> bridge_step ex_bridge_env (OpApprove ''q'' APPROVE_ONCE) b = (out, b')
     \<and> br_log b = [] \<and> br_log b' = [ex_write_call]
     \<and> (\<exists>new. br_log b' = br_log b @ new \<and> (\<forall>c\<in>set new. cleared ex_bridge_env b (OpApprove ''q'' APPROVE_ONCE) c))"
proof -
  let ?s = "bridge_step ex_bridge_env (OpExecute ''q'' None [ex_write_call] ''sequential_tool_call'') ex_bridge"
  have "\<exists>x. bridge_init (\<lambda>_. ''?'') [''bash'', ''json_edit_tool''] [] (Some (path_of ''/w'')) None ''r'' ''v'' ((), []::tool_call list) = Some x"
    by (simp add: bridge_init_def policy_mode_def mode_policy_def obj_get_def json_strings_def Let_def SIDE_EFFECT_TOOLS_def)
  then have "bridge_reach ex_bridge_env ex_bridge" unfolding ex_bridge_def by (metis option.sel reach_init)
  then have r: "bridge_reach ex_bridge_env (snd ?s)" by (rule reach_step) (rule prod.collapse [symmetric])
  let ?t = "bridge_step ex_bridge_env (OpApprove ''q'' APPROVE_ONCE) (snd ?s)"
  have "br_log (snd ?s) = []" "br_log (snd ?t) = [ex_write_call]" by code_simp+
  with r dispatched_only_cleared [OF r ex_logs, of "OpApprove ''q'' APPROVE_ONCE" "fst ?t" "snd ?t"] show ?thesis
    by (metis prod.collapse)
qed

section \<open>Behaviours worth knowing\<close>

text \<open>
  A single forbidden \<open>bash\<close> call is refused before it is authorized, in every mode: also in \<open>no_approval\<close>, of which
  \<open>bash_call_gate.py\<close> says that it has no gate at all.
\<close>

lemma blocked_call_refused_in_every_mode:
  assumes "bash_verdict env b c = Some v" "cv_tier v = BLOCKED"
  shows "\<exists>b1. bridge_execute env fresh r [c] how b = store_results [rejection c (''command refused (denied list): '' @ cv_reason v)] b1
    \<and> br_world b1 = br_world b"
  using assms
  by (intro exI [of _ "br_emit ''tool.call'' (case call_dump c of JObj p \<Rightarrow> p | _ \<Rightarrow> []) b"])
    (simp add: bridge_execute_def Let_def preflight_blocked_def or_else_def)

text \<open>
  In the default mode a command waits for a human unless the whitelist clears it: the verdict that decides on it is taken
  without the prefixes a tenant preset declared safe.
\<close>

lemma risky_call_waits_in_default_mode:
  assumes "br_mode b = ''default''" "bash_verdict env b c = Some v" "cv_tier v = RISKY" "tc_name c = ''bash''"
    "map_of (br_table b) ''bash'' \<noteq> None" "''bash'' \<in> set (gp_allowed_tools (br_policy b))"
    "''bash'' \<in> set (gp_approval_required_tools (br_policy b))"
  shows "fst (bridge_execute env fresh None [c] how b) = Waiting"
proof -
  have "preflight_blocked env b [c] = []" using assms(2,3) by (simp add: preflight_blocked_def)
  moreover have "\<not> all_bash_safe env b [c]" using assms(2,3) by (simp add: all_bash_safe_def)
  then have "effective_policy b (all_bash_safe env b [c]) None = br_policy b" by (simp add: effective_policy_def)
  ultimately show ?thesis
    using assms(4-) by (simp add: bridge_execute_def Let_def authorize_status)
qed

text \<open>
  The cache of results decides what the agent is told, not what is executed: a call whose id has a result already
  reaches the executor again, unlike in \<open>session_runner/tools/gateway.py\<close> (\<open>execute_replay\<close> of the tool gateway).
\<close>

lemma replayed_call_runs_again:
  assumes "logs env" "tc_name c \<noteq> ''bash''" "br_mode b \<noteq> ''silent''" "map_of (br_results b) (tc_id c) = Some r"
    "be_delegate env how [c] (br_world b) = (Inr [r'], w)" "tr_call_id r' = tc_id c"
  shows "fst (bridge_dispatch env [c] how b) = Results [r]" "br_log (snd (bridge_dispatch env [c] how b)) = br_log b @ [c]"
proof -
  have "snd w = br_log b @ [c]" using assms(1,5) unfolding logs_def by (metis snd_conv)
  then show "fst (bridge_dispatch env [c] how b) = Results [r]" "br_log (snd (bridge_dispatch env [c] how b)) = br_log b @ [c]"
    using assms(2-) by (simp_all add: bridge_dispatch_def call_problem_def merge_results_def store_results_def Let_def or_else_def
        br_emit_def clear_pending_def)
qed

end
