(* ===== verification/Repo_Admin.thy ===== *)
theory Repo_Admin
  imports Schema
begin

text \<open>
  The repository's tables of administration: MCP servers, tenant presets with their image builds, skill
  generation requests and skill drafts. Each is a keyed store with an upsert that keeps some columns of an
  existing row; the interface is the locale \<open>keyed_store\<close>.
\<close>

section \<open>The interface\<close>

text \<open>\<open>merge old new\<close> is the row that saving \<open>new\<close> over \<open>old\<close> leaves.\<close>

locale keyed_store =
  fixes key :: "'r \<Rightarrow> 'k"
    and save :: "'r \<Rightarrow> 's \<Rightarrow> 's"
    and get :: "'k \<Rightarrow> 's \<Rightarrow> 'r option"
    and merge :: "'r \<Rightarrow> 'r \<Rightarrow> 'r"
  assumes get_save: "get k (save x s) =
      (if k = key x then Some (case get k s of None \<Rightarrow> x | Some old \<Rightarrow> merge old x) else get k s)"
    and merge_last: "merge (merge old x) y = merge old y"
    and merge_self: "merge x x = x"
begin

lemma save_twice: "get k (save x (save x s)) = get k (save x s)"
  by (auto simp: get_save merge_last merge_self split: option.splits)

lemma last_save_wins: "key y = key x \<Longrightarrow> get k s \<noteq> None \<Longrightarrow> get k (save y (save x s)) = get k (save y s)"
  by (auto simp: get_save merge_last split: option.splits)

lemma save_commutes: "key x \<noteq> key y \<Longrightarrow> get k (save x (save y s)) = get k (save y (save x s))"
  by (auto simp: get_save)

end

definition db_upsert :: "('r \<Rightarrow> 'k) \<Rightarrow> ('r \<Rightarrow> 'r \<Rightarrow> 'r) \<Rightarrow> 'r \<Rightarrow> 'r list \<Rightarrow> 'r list" where
  "db_upsert pk merge r rows = (case db_get pk (pk r) rows of
       None \<Rightarrow> rows @ [r]
     | Some _ \<Rightarrow> db_set pk (pk r) (\<lambda>old. merge old r) rows)"

lemma db_get_upsert:
  assumes "\<And>old. pk old = pk r \<Longrightarrow> pk (merge old r) = pk r"
  shows "db_get pk k (db_upsert pk merge r rows) =
    (if k = pk r then Some (case db_get pk k rows of None \<Rightarrow> r | Some old \<Rightarrow> merge old r) else db_get pk k rows)"
proof -
  have set: "db_get pk j (db_set pk (pk r) (\<lambda>old. merge old r) rows) =
      (if j = pk r then map_option (\<lambda>old. merge old r) (db_get pk (pk r) rows) else db_get pk j rows)" for j rows
    using assms by (induction rows) (auto simp: db_set_def db_get_Cons)
  show ?thesis
    by (auto simp: db_upsert_def set db_get_append db_get_Cons split: option.splits)
qed

section \<open>MCP servers\<close>

definition merge_mcp_server :: "mcp_server \<Rightarrow> mcp_server \<Rightarrow> mcp_server" where
  "merge_mcp_server old s = s\<lparr>mcp_server_id := mcp_server_id old, mcp_created_at := mcp_created_at old\<rparr>"

definition save_mcp_server :: "mcp_server \<Rightarrow> db \<Rightarrow> db" where
  "save_mcp_server s d = d\<lparr>t_mcp_servers := db_upsert mcp_server_id merge_mcp_server s (t_mcp_servers d)\<rparr>"

definition repo_get_mcp_server :: "string \<Rightarrow> db \<Rightarrow> mcp_server option" where
  "repo_get_mcp_server sid d = db_get mcp_server_id sid (t_mcp_servers d)"

definition repo_list_mcp_servers :: "db \<Rightarrow> mcp_server list" where
  "repo_list_mcp_servers d = sort_key mcp_server_id (t_mcp_servers d)"

definition repo_delete_mcp_server :: "string \<Rightarrow> db \<Rightarrow> bool \<times> db" where
  "repo_delete_mcp_server sid d = (case db_get mcp_server_id sid (t_mcp_servers d) of
       None \<Rightarrow> (False, d)
     | Some _ \<Rightarrow> (True, d\<lparr>t_mcp_servers := db_del (\<lambda>r. mcp_server_id r = sid) (t_mcp_servers d)\<rparr>))"

section \<open>Tenant presets\<close>

abbreviation preset_row_id :: "preset_row \<Rightarrow> string" where
  "preset_row_id r \<equiv> tpr_tenant (pr_preset r)"

definition merge_tenant_preset :: "preset_row \<Rightarrow> preset_row \<Rightarrow> preset_row" where
  "merge_tenant_preset old r = r\<lparr>pr_preset := (pr_preset r)\<lparr>tpr_tenant := tpr_tenant (pr_preset old),
     tpr_created_at := tpr_created_at (pr_preset old)\<rparr>\<rparr>"

definition save_tenant_preset :: "tenant_preset \<Rightarrow> string \<Rightarrow> db \<Rightarrow> db" where
  "save_tenant_preset p h d = d\<lparr>t_presets :=
     db_upsert preset_row_id merge_tenant_preset \<lparr>pr_preset = p, pr_content_hash = h\<rparr> (t_presets d)\<rparr>"

definition repo_get_tenant_preset :: "string \<Rightarrow> db \<Rightarrow> tenant_preset option" where
  "repo_get_tenant_preset t d = map_option pr_preset (db_get preset_row_id t (t_presets d))"

definition repo_list_tenant_presets :: "db \<Rightarrow> tenant_preset list" where
  "repo_list_tenant_presets d = map pr_preset (sort_key preset_row_id (t_presets d))"

definition repo_delete_tenant_preset :: "string \<Rightarrow> db \<Rightarrow> bool \<times> db" where
  "repo_delete_tenant_preset t d = (case db_get preset_row_id t (t_presets d) of
       None \<Rightarrow> (False, d)
     | Some _ \<Rightarrow> (True, d\<lparr>t_presets := db_del (\<lambda>r. preset_row_id r = t) (t_presets d)\<rparr>))"

section \<open>Image builds\<close>

definition merge_preset_build :: "preset_build \<Rightarrow> preset_build \<Rightarrow> preset_build" where
  "merge_preset_build old b = b\<lparr>pb_id := pb_id old, pb_tenant := pb_tenant old, pb_created_at := pb_created_at old\<rparr>"

definition save_preset_build :: "preset_build \<Rightarrow> db \<Rightarrow> db" where
  "save_preset_build b d = d\<lparr>t_builds := db_upsert pb_id merge_preset_build b (t_builds d)\<rparr>"

definition repo_get_preset_build :: "uuid \<Rightarrow> db \<Rightarrow> preset_build option" where
  "repo_get_preset_build bid d = db_get pb_id bid (t_builds d)"

text \<open>Newest first.\<close>

definition repo_list_preset_builds :: "string option \<Rightarrow> build_status option \<Rightarrow> nat \<Rightarrow> db \<Rightarrow> preset_build list" where
  "repo_list_preset_builds t st lim d = take lim (sort_key (\<lambda>b. - pb_created_at b) (filter (\<lambda>b.
     (case t of None \<Rightarrow> True | Some x \<Rightarrow> pb_tenant b = x) \<and> (case st of None \<Rightarrow> True | Some x \<Rightarrow> pb_status b = x))
     (t_builds d)))"

text \<open>The row is selected and updated in one transaction; the condition on the status in the update guards against
  a claim that committed in between, in which case nothing is claimed.\<close>

definition repo_claim_preset_build :: "time \<Rightarrow> db \<Rightarrow> preset_build option \<times> db" where
  "repo_claim_preset_build now d =
     (case sort_key pb_created_at (filter (\<lambda>b. pb_status b = PENDING) (t_builds d)) of
        [] \<Rightarrow> (None, d)
      | b # _ \<Rightarrow> (Some (b\<lparr>pb_status := BUILDING, pb_started_at := Some now\<rparr>),
          d\<lparr>t_builds := db_set pb_id (pb_id b) (\<lambda>r. if pb_status r = PENDING
             then r\<lparr>pb_status := BUILDING, pb_started_at := Some now\<rparr> else r) (t_builds d)\<rparr>))"

definition latest_ready_build :: "string \<Rightarrow> db \<Rightarrow> preset_build option" where
  "latest_ready_build t d = (case repo_list_preset_builds (Some t) (Some READY) 1 d of [] \<Rightarrow> None | b # _ \<Rightarrow> Some b)"

section \<open>Skill generation\<close>

definition create_skill_generation_request :: "skill_generation_request \<Rightarrow> db \<Rightarrow> db_error + db" where
  "create_skill_generation_request r d = (case db_add sg_id r (t_generations d) of
     None \<Rightarrow> Inl IntegrityError | Some rows \<Rightarrow> Inr (d\<lparr>t_generations := rows\<rparr>))"

definition get_skill_generation_request :: "uuid \<Rightarrow> db \<Rightarrow> skill_generation_request option" where
  "get_skill_generation_request rid d = db_get sg_id rid (t_generations d)"

definition list_skill_generation_requests ::
  "string option \<Rightarrow> generation_status option \<Rightarrow> db \<Rightarrow> skill_generation_request list" where
  "list_skill_generation_requests t st d = sort_key sg_created_at (filter (\<lambda>r.
     (case t of None \<Rightarrow> True | Some x \<Rightarrow> sg_tenant r = Some x) \<and> (case st of None \<Rightarrow> True | Some x \<Rightarrow> sg_status r = x))
     (t_generations d))"

text \<open>An update of a request or draft that is not stored changes nothing.\<close>

definition update_skill_generation_request :: "skill_generation_request \<Rightarrow> db \<Rightarrow> db" where
  "update_skill_generation_request r d = d\<lparr>t_generations := db_set sg_id (sg_id r) (\<lambda>old. old\<lparr>
     sg_conversation := sg_conversation r, sg_status := sg_status r, sg_error := sg_error r,
     sg_completed_at := sg_completed_at r\<rparr>) (t_generations d)\<rparr>"

definition create_skill_draft :: "skill_draft \<Rightarrow> db \<Rightarrow> db_error + db" where
  "create_skill_draft r d = (case db_add sd_id r (t_drafts d) of
     None \<Rightarrow> Inl IntegrityError | Some rows \<Rightarrow> Inr (d\<lparr>t_drafts := rows\<rparr>))"

definition get_skill_draft :: "uuid \<Rightarrow> db \<Rightarrow> skill_draft option" where
  "get_skill_draft i d = db_get sd_id i (t_drafts d)"

definition list_skill_drafts ::
  "string option \<Rightarrow> draft_status option \<Rightarrow> uuid option \<Rightarrow> nat option \<Rightarrow> nat \<Rightarrow> db \<Rightarrow> skill_draft list" where
  "list_skill_drafts t st gen lim off d =
     (let rows = drop off (sort_key (\<lambda>r. - sd_created_at r) (filter (\<lambda>r.
        (case t of None \<Rightarrow> True | Some x \<Rightarrow> sd_tenant r = Some x) \<and> (case st of None \<Rightarrow> True | Some x \<Rightarrow> sd_status r = x)
        \<and> (case gen of None \<Rightarrow> True | Some x \<Rightarrow> sd_generation r = x)) (t_drafts d))) in
      case lim of None \<Rightarrow> rows | Some n \<Rightarrow> take n rows)"

definition update_skill_draft :: "skill_draft \<Rightarrow> db \<Rightarrow> db" where
  "update_skill_draft r d = d\<lparr>t_drafts := db_set sd_id (sd_id r) (\<lambda>old. old\<lparr>
     sd_status := sd_status r, sd_reviewed_at := sd_reviewed_at r, sd_review_note := sd_review_note r\<rparr>) (t_drafts d)\<rparr>"

section \<open>The stores meet the interface\<close>

interpretation mcp_store: keyed_store mcp_server_id save_mcp_server repo_get_mcp_server merge_mcp_server
proof (unfold_locales, goal_cases)
  case (1 k x s)
  show ?case unfolding save_mcp_server_def repo_get_mcp_server_def
    by (simp add: db_get_upsert merge_mcp_server_def)
qed (simp_all add: merge_mcp_server_def)

interpretation build_store: keyed_store pb_id save_preset_build repo_get_preset_build merge_preset_build
proof (unfold_locales, goal_cases)
  case (1 k x s)
  show ?case unfolding save_preset_build_def repo_get_preset_build_def
    by (simp add: db_get_upsert merge_preset_build_def)
qed (simp_all add: merge_preset_build_def)

abbreviation save_preset_row :: "preset_row \<Rightarrow> db \<Rightarrow> db" where
  "save_preset_row r \<equiv> save_tenant_preset (pr_preset r) (pr_content_hash r)"

abbreviation get_preset_row :: "string \<Rightarrow> db \<Rightarrow> preset_row option" where
  "get_preset_row t d \<equiv> db_get preset_row_id t (t_presets d)"

interpretation preset_store: keyed_store preset_row_id save_preset_row get_preset_row merge_tenant_preset
proof (unfold_locales, goal_cases)
  case (1 k x s)
  have x: "\<lparr>pr_preset = pr_preset x, pr_content_hash = pr_content_hash x\<rparr> = x" by simp
  show ?case unfolding save_tenant_preset_def x by (simp add: db_get_upsert merge_tenant_preset_def)
qed (simp_all add: merge_tenant_preset_def)

section \<open>Lemmas\<close>

lemma sort_key_least:
  assumes "sort_key f xs = x # rest"
  shows "x \<in> set xs \<and> (\<forall>y\<in>set xs. f x \<le> f y)"
proof -
  have "sorted (map f (x # rest))" by (simp add: assms [symmetric])
  moreover have "set (x # rest) = set xs" by (simp add: assms [symmetric])
  ultimately show ?thesis by auto
qed

lemma claim_build_oldest:
  assumes "repo_claim_preset_build now d = (Some c, d')"
  shows "\<exists>b. b \<in> set (t_builds d) \<and> pb_status b = PENDING
    \<and> (\<forall>y\<in>set (t_builds d). pb_status y = PENDING \<longrightarrow> pb_created_at b \<le> pb_created_at y)
    \<and> c = b\<lparr>pb_status := BUILDING, pb_started_at := Some now\<rparr>
    \<and> t_builds d' = db_set pb_id (pb_id b) (\<lambda>r. if pb_status r = PENDING
             then r\<lparr>pb_status := BUILDING, pb_started_at := Some now\<rparr> else r) (t_builds d)"
  using assms by (auto simp: repo_claim_preset_build_def split: list.splits dest!: sort_key_least)

section \<open>Properties\<close>

text \<open>Build claims are exclusive and in order: a claim takes a pending build that was created no later than
  any other, the store then holds exactly this build as running, every other build is as it was, and so no
  later claim returns it again while it is not pending.\<close>

theorem claim_preset_build_exclusive:
  assumes "keyed pb_id (t_builds d)" "repo_claim_preset_build now d = (Some c, d')"
  shows "(\<exists>b. repo_get_preset_build (pb_id c) d = Some b \<and> pb_status b = PENDING
        \<and> (\<forall>y\<in>set (t_builds d). pb_status y = PENDING \<longrightarrow> pb_created_at b \<le> pb_created_at y))
    \<and> repo_get_preset_build (pb_id c) d' = Some c \<and> pb_status c = BUILDING
    \<and> (\<forall>k. k \<noteq> pb_id c \<longrightarrow> repo_get_preset_build k d' = repo_get_preset_build k d)
    \<and> (\<forall>now2 c2. fst (repo_claim_preset_build now2 d') = Some c2 \<longrightarrow> pb_id c2 \<noteq> pb_id c)"
proof -
  from claim_build_oldest [OF assms(2)] obtain b where b: "b \<in> set (t_builds d)" "pb_status b = PENDING"
    "\<forall>y\<in>set (t_builds d). pb_status y = PENDING \<longrightarrow> pb_created_at b \<le> pb_created_at y"
    and c: "c = b\<lparr>pb_status := BUILDING, pb_started_at := Some now\<rparr>"
    and d': "t_builds d' = db_set pb_id (pb_id b) (\<lambda>r. if pb_status r = PENDING
             then r\<lparr>pb_status := BUILDING, pb_started_at := Some now\<rparr> else r) (t_builds d)" by blast
  have get: "db_get pb_id (pb_id b) (t_builds d) = Some b" using assms(1) b(1) by (simp add: db_get_iff)
  have key': "keyed pb_id (t_builds d')" using assms(1) by (auto simp: d' intro: keyed_set)
  have got': "repo_get_preset_build k d' = (if k = pb_id b then Some c else repo_get_preset_build k d)" for k
    using b(2) by (simp add: repo_get_preset_build_def d' db_get_set get c)
  have "pb_id c2 \<noteq> pb_id c" if f: "fst (repo_claim_preset_build now2 d') = Some c2" for now2 c2
  proof
    assume e: "pb_id c2 = pb_id c"
    obtain d2 where "repo_claim_preset_build now2 d' = (Some c2, d2)" using f by (metis prod.collapse)
    from claim_build_oldest [OF this] obtain b2 where "b2 \<in> set (t_builds d')" "pb_status b2 = PENDING"
      "pb_id b2 = pb_id c2" by auto
    then have "repo_get_preset_build (pb_id c) d' = Some b2" using key' e by (simp add: repo_get_preset_build_def db_get_iff)
    with got' [of "pb_id c"] \<open>pb_status b2 = PENDING\<close> show False by (auto simp: c)
  qed
  moreover have "\<exists>b. repo_get_preset_build (pb_id c) d = Some b \<and> pb_status b = PENDING
        \<and> (\<forall>y\<in>set (t_builds d). pb_status y = PENDING \<longrightarrow> pb_created_at b \<le> pb_created_at y)"
    using b get by (auto simp: repo_get_preset_build_def c)
  ultimately show ?thesis using got' by (simp add: c)
qed

definition demo_build :: preset_build where
  "demo_build = \<lparr>pb_id = ''b1'', pb_tenant = ''acme'', pb_status = PENDING, pb_content_hash = ''h'', pb_image_tag = None,
     pb_error = None, pb_log_tail = [], pb_created_at = 1, pb_started_at = None, pb_finished_at = None\<rparr>"

theorem claim_preset_build_exclusive_witness:
  "\<exists>c d'. repo_claim_preset_build 7 (empty_db\<lparr>t_builds := [demo_build]\<rparr>) = (Some c, d')
     \<and> repo_get_preset_build ''b1'' d' = Some c"
proof -
  let ?d = "empty_db\<lparr>t_builds := [demo_build]\<rparr>"
  have k: "keyed pb_id (t_builds ?d)" by (simp add: keyed_def)
  obtain c d' where c: "repo_claim_preset_build 7 ?d = (Some c, d')" "pb_id c = ''b1''"
    by (simp add: repo_claim_preset_build_def demo_build_def)
  from claim_preset_build_exclusive [OF k c(1)] c show ?thesis by auto
qed

end
