(* ===== verification/Activities.thy ===== *)
theory Activities
  imports Repo_Log Repo_Admin Runner_Registry
begin

text \<open>
  The Temporal activities of a run, \<open>execution/temporal/activities.py\<close>: the choice of a runner, the event
  sink that projects a runner's events onto the conversation and appends them, and the activities
  that execute, resume, stop and fail a run. The core runtime talks to a runner over HTTP; here it is what it
  does to the control plane: the events it hands to the sink, one after the other, and whether it then
  raises. Each delivery comes with the fresh identifier of its outbox row and the time of the transaction.
  Temporal's heartbeats have no effect on the tables.
\<close>

section \<open>Choosing a runner\<close>

text \<open>\<open>str\<close> renders a tenant id that is not a string.\<close>

definition runner_tenant :: "(json \<Rightarrow> string) \<Rightarrow> runner_registration \<Rightarrow> string" where
  "runner_tenant str e = (let v = obj_get (rr_metadata e) ''tenant_id'' JNull in
     if truthy v then (case v of JStr s \<Rightarrow> s | _ \<Rightarrow> str v) else [])"

definition runner_matches_tenant :: "(json \<Rightarrow> string) \<Rightarrow> runner_registration \<Rightarrow> string option \<Rightarrow> bool" where
  "runner_matches_tenant str e tenant = (runner_tenant str e = or_else tenant [])"

definition tenant_has_image :: "db \<Rightarrow> string option \<Rightarrow> bool" where
  "tenant_has_image d tenant = (case tenant of None \<Rightarrow> False | Some t \<Rightarrow>
     t \<noteq> [] \<and> t \<noteq> ''default'' \<and> repo_list_preset_builds (Some t) (Some READY) 1 d \<noteq> [])"

definition registered_runner_url :: "(json \<Rightarrow> string) \<Rightarrow> db \<Rightarrow> string option \<Rightarrow> string option" where
  "registered_runner_url str d tenant =
     (let ready = filter (\<lambda>e. ''run'' \<in> set (rr_capabilities e)) (list_ready_runner_registrations d) in
      case min_by rr_load (filter (\<lambda>e. runner_matches_tenant str e tenant) ready) of
        Some e \<Rightarrow> Some (rr_endpoint e)
      | None \<Rightarrow>
          if tenant_has_image d tenant then None
          else map_option rr_endpoint (min_by rr_load
                 (filter (\<lambda>e. runner_tenant str e = [] \<or> runner_tenant str e = ''default'') ready)))"

text \<open>\<open>ensured\<close> is what the runner manager answered, \<open>static\<close> the configured URL of the core runner.\<close>

definition static_runner_url :: "string option \<Rightarrow> string" where
  "static_runner_url static = (if str_true static then the static else ''http://runner'')"

definition runner_url_for :: "(json \<Rightarrow> string) \<Rightarrow> string option \<Rightarrow> string option \<Rightarrow> db \<Rightarrow> string option \<Rightarrow> string" where
  "runner_url_for str ensured static d tenant = (case registered_runner_url str d tenant of
       Some u \<Rightarrow> if u \<noteq> [] then u else if str_true ensured then the ensured else static_runner_url static
     | None \<Rightarrow> if str_true ensured then the ensured else static_runner_url static)"

section \<open>The event sink\<close>

definition event_to_state :: "event_envelope \<Rightarrow> run_projection \<Rightarrow> run_projection" where
  "event_to_state e r =
     (if ev_type e = ''run.started'' then r\<lparr>state := STARTING\<rparr>
      else if ev_type e = ''run.running'' then r\<lparr>state := RUNNING\<rparr>
      else if ev_type e = ''interaction.requested''
      then r\<lparr>state := WAITING_INPUT, pending_interaction := Some (ev_payload e)\<rparr>
      else if ev_type e \<in> {''interaction.input'', ''approval.decided'', ''run.resuming''}
      then r\<lparr>state := RUNNING, pending_interaction := None\<rparr>
      else if ev_type e = ''run.completed''
      then r\<lparr>state := COMPLETED, pending_interaction := None,
             result_summary := obj_get (ev_payload e) ''result'' (JObj (ev_payload e))\<rparr>
      else if ev_type e = ''run.failed''
      then r\<lparr>state := FAILED, pending_interaction := None, run_error := Some (ev_payload e)\<rparr>
      else if ev_type e = ''run.cancelled'' then r\<lparr>state := CANCELLED, pending_interaction := None\<rparr>
      else if ev_type e = ''run.lost'' then r\<lparr>state := LOST, pending_interaction := None\<rparr>
      else r)"

record delivery =
  dl_outbox :: uuid
  dl_now :: time
  dl_event :: event_envelope

definition sink :: "delivery \<Rightarrow> conversation \<times> db \<Rightarrow> db_error + (conversation \<times> db)" where
  "sink x cd = (case cd of (c, d) \<Rightarrow>
     (let run = event_to_state (dl_event x) (conv_run c);
          e = (dl_event x)\<lparr>ev_seq := last_seq run + 1\<rparr>;
          c1 = c\<lparr>conv_run := run\<rparr> in
      case append_event (dl_outbox x) (dl_now x) c1 e d of
        Inl err \<Rightarrow> Inl err
      | Inr d' \<Rightarrow> Inr (c1\<lparr>conv_run := run\<lparr>last_seq := ev_seq e\<rparr>\<rparr>, d')))"

text \<open>The deliveries of a segment; the tables keep what was appended before an append raised.\<close>

fun deliver :: "delivery list \<Rightarrow> conversation \<times> db \<Rightarrow> db_error option \<times> conversation \<times> db" where
  "deliver [] cd = (None, cd)"
| "deliver (x # xs) cd = (case sink x cd of Inl err \<Rightarrow> (Some err, cd) | Inr cd' \<Rightarrow> deliver xs cd')"

section \<open>Activities\<close>

datatype activity_error = RuntimeErr string | DbErr db_error | RunnerErr string

datatype segment = Waiting uuid | Ended execution_state json "obj option" | SegCancelled

text \<open>
  One execution of a segment by the runtime: the deliveries, the exception it ends with, if any,
  and the checkpoint the runtime answers with at a gate (or the exception of that request).
\<close>

record behaviour =
  bh_deliveries :: "delivery list"
  bh_error :: "string option"
  bh_checkpoint :: "string + checkpoint"

definition after_segment :: "behaviour \<Rightarrow> uuid \<Rightarrow> db \<Rightarrow> (activity_error + segment) \<times> db" where
  "after_segment b cid d = (case repo_get_conversation cid d of
       None \<Rightarrow> (Inl (RuntimeErr ''conversation disappeared after run segment''), d)
     | Some c \<Rightarrow>
         if state (conv_run c) = WAITING_INPUT
         then (case bh_checkpoint b of
             Inl e \<Rightarrow> (Inl (RunnerErr e), d)
           | Inr k \<Rightarrow> (case save_checkpoint k d of
                 Inl e \<Rightarrow> (Inl (DbErr e), d)
               | Inr d' \<Rightarrow> (Inr (Waiting (cp_id k)), d')))
         else if terminal (state (conv_run c))
         then (Inr (Ended (state (conv_run c)) (result_summary (conv_run c)) (run_error (conv_run c))), d)
         else (Inl (RuntimeErr ''run segment returned without a durable state transition''), d))"

record run_ref =
  rf_conversation :: uuid
  rf_session :: uuid
  rf_workspace :: uuid

definition drive :: "behaviour \<Rightarrow> conversation \<times> db \<Rightarrow> (activity_error + segment) \<times> db" where
  "drive b cd = (case deliver (bh_deliveries b) cd of
       (Some err, _, d) \<Rightarrow> (Inl (DbErr err), d)
     | (None, c, d) \<Rightarrow> (case bh_error b of
           Some e \<Rightarrow> (Inl (RunnerErr e), d)
         | None \<Rightarrow> after_segment b (conv_id c) d))"

definition execute_run :: "time \<Rightarrow> run_ref \<Rightarrow> behaviour \<Rightarrow> db \<Rightarrow> (activity_error + segment) \<times> db" where
  "execute_run now q b d =
     (case (repo_get_conversation (rf_conversation q) d, repo_get_session now (rf_session q) d,
            repo_get_workspace (rf_workspace q) d) of
        (Some c, Some s, Some w) \<Rightarrow> drive b (c, d)
      | _ \<Rightarrow> (Inl (RuntimeErr ''temporal run resources not found''), d))"

datatype decision = InputDecision string json | ApprovalDecided string string

definition decision_event :: "uuid \<Rightarrow> time \<Rightarrow> uuid \<Rightarrow> decision \<Rightarrow> event_envelope" where
  "decision_event eid now rid dec = (case dec of
       InputDecision i v \<Rightarrow> mk_event eid now rid 0 ''interaction.input''
         [(''interaction_id'', JStr i), (''value'', v)] ''agentsupport''
     | ApprovalDecided i v \<Rightarrow> mk_event eid now rid 0 ''approval.decided''
         [(''approval_id'', JStr i), (''decision'', JStr v)] ''agentsupport'')"

definition resume_run :: "uuid \<Rightarrow> uuid \<Rightarrow> time \<Rightarrow> run_ref \<Rightarrow> uuid \<Rightarrow> decision \<Rightarrow> behaviour \<Rightarrow> db
    \<Rightarrow> (activity_error + segment) \<times> db" where
  "resume_run eid oid now q kid dec b d =
     (case (repo_get_conversation (rf_conversation q) d, repo_get_session now (rf_session q) d,
            repo_get_workspace (rf_workspace q) d) of
        (Some c, Some s, Some w) \<Rightarrow>
          (case repo_get_checkpoint kid d of
             Inl e \<Rightarrow> (Inl (DbErr e), d)
           | Inr None \<Rightarrow> (Inl (RuntimeErr ''checkpoint not found for resume''), d)
           | Inr (Some k) \<Rightarrow>
               (case sink \<lparr>dl_outbox = oid, dl_now = now, dl_event = decision_event eid now (run_id (conv_run c)) dec\<rparr>
                       (c\<lparr>conv_run := (conv_run c)\<lparr>state := RUNNING\<rparr>\<rparr>, d) of
                  Inl e \<Rightarrow> (Inl (DbErr e), d)
                | Inr cd \<Rightarrow> drive b cd))
      | _ \<Rightarrow> (Inl (RuntimeErr ''temporal run resources not found''), d))"

text \<open>\<open>stop_runner\<close> with \<open>terminal\<close> set to \<open>cancelled\<close>, and without.\<close>

definition stop_runner :: "bool \<Rightarrow> uuid \<Rightarrow> uuid \<Rightarrow> time \<Rightarrow> run_ref \<Rightarrow> db \<Rightarrow> db_error + db" where
  "stop_runner cancelled eid oid now q d =
     (if \<not> cancelled then Inr d
      else case repo_get_conversation (rf_conversation q) d of
        None \<Rightarrow> Inr d
      | Some c \<Rightarrow>
          if state (conv_run c) = CANCELLED then Inr d
          else map_sum id snd (sink \<lparr>dl_outbox = oid, dl_now = now,
                 dl_event = mk_event eid now (run_id (conv_run c)) 0 ''run.cancelled'' [] ''agentsupport''\<rparr>
                 (c\<lparr>conv_run := (conv_run c)\<lparr>state := CANCELLED\<rparr>\<rparr>, d)))"

text \<open>\<open>str(error.get(k) or default)\<close>, with \<open>str\<close> for a value that is not a string.\<close>

definition str_or :: "(json \<Rightarrow> string) \<Rightarrow> obj \<Rightarrow> string \<Rightarrow> string \<Rightarrow> string" where
  "str_or str err k dflt = (let v = obj_get err k JNull in
     if truthy v then (case v of JStr s \<Rightarrow> s | _ \<Rightarrow> str v) else dflt)"

definition failed_payload :: "(json \<Rightarrow> string) \<Rightarrow> obj \<Rightarrow> obj" where
  "failed_payload str err = [(''code'', JStr (str_or str err ''code'' ''WORKFLOW_FAILED'')),
     (''message'', JStr (str_or str err ''message'' ''workflow failed'')),
     (''retryable'', JBool (truthy (obj_get err ''retryable'' (JBool False))))]"

definition fail_run :: "(json \<Rightarrow> string) \<Rightarrow> uuid \<Rightarrow> uuid \<Rightarrow> time \<Rightarrow> run_ref \<Rightarrow> obj \<Rightarrow> db \<Rightarrow> db_error + db" where
  "fail_run str eid oid now q err d = (case repo_get_conversation (rf_conversation q) d of
       None \<Rightarrow> Inr d
     | Some c \<Rightarrow>
         if terminal (state (conv_run c)) then Inr d
         else map_sum id snd (sink \<lparr>dl_outbox = oid, dl_now = now,
                dl_event = mk_event eid now (run_id (conv_run c)) 0 ''run.failed'' (failed_payload str err)
                  ''agentsupport''\<rparr> (c, d)))"

section \<open>Lemmas\<close>

text \<open>A conversation object is in step with the tables.\<close>

definition synced :: "conversation \<times> db \<Rightarrow> bool" where
  "synced cd = (repo_get_conversation (conv_id (fst cd)) (snd cd) = Some (fst cd))"

lemma event_to_state_keeps [simp]: "last_seq (event_to_state e r) = last_seq r" "run_id (event_to_state e r) = run_id r"
  by (simp_all add: event_to_state_def)

lemma event_to_state_state:
  "state (event_to_state e r) = state (event_to_state e r') \<or> state (event_to_state e r) = state r"
  by (simp add: event_to_state_def)

text \<open>Appending through the sink keeps the log invariant and stores exactly the object it returns.\<close>

lemma sink_append:
  assumes "sink x (c, d) = Inr (c', d')"
  shows "append_event (dl_outbox x) (dl_now x) (c\<lparr>conv_run := event_to_state (dl_event x) (conv_run c)\<rparr>)
      ((dl_event x)\<lparr>ev_seq := last_seq (conv_run c) + 1\<rparr>) d = Inr d'
    \<and> c' = c\<lparr>conv_run := (event_to_state (dl_event x) (conv_run c))\<lparr>last_seq := last_seq (conv_run c) + 1\<rparr>\<rparr>"
  using assms by (auto simp: sink_def Let_def split: sum.splits)

lemma append_event_row:
  assumes "append_event oid now c e d = Inr d'" "repo_get_conversation (conv_id c) d = Some c0"
  shows "repo_get_conversation (conv_id c) d' =
      Some (c0\<lparr>conv_run := (conv_run c)\<lparr>run_id := run_id (conv_run c0), last_seq := ev_seq e\<rparr>\<rparr>)"
proof -
  from assms obtain row where "db_get cr_id (conv_id c) (t_conversations d) = Some row"
    "t_conversations d' = db_set cr_id (conv_id c) (project_run (conv_run c) (ev_seq e)) (t_conversations d)"
    "c0 = conversation_from_row row"
    by (auto simp: append_event_def commit_event_Inr repo_get_conversation_def)
  then show ?thesis
    by (simp add: repo_get_conversation_def db_get_set conversation_from_row_def project_run_def)
qed

text \<open>\<open>resume_run\<close> and \<open>stop_runner\<close> set the state of the object before they call the sink.\<close>

lemma sink_row:
  assumes "sink x (c, d) = Inr (c', d')" "repo_get_conversation (conv_id c) d = Some c0"
    "c = c0\<lparr>conv_run := (conv_run c0)\<lparr>state := st\<rparr>\<rparr>"
  shows "synced (c', d') \<and> conv_id c' = conv_id c"
proof -
  note sa = sink_append [OF assms(1)]
  have "repo_get_conversation (conv_id c) d' = Some c'"
    using append_event_row [OF conjunct1 [OF sa], of c0] assms(2)
    by (simp add: conjunct2 [OF sa]) (simp add: assms(3))
  then show ?thesis by (simp add: synced_def conjunct2 [OF sa])
qed

lemma sink_synced:
  assumes "sink x (c, d) = Inr (c', d')" "synced (c, d)"
  shows "synced (c', d') \<and> conv_id c' = conv_id c"
  by (rule sink_row [OF assms(1), of c "state (conv_run c)"]) (use assms(2) in \<open>simp_all add: synced_def\<close>)

lemma append_keeps: "log_inv d \<Longrightarrow> append_event oid now c e d = Inr d' \<Longrightarrow> log_inv d'"
  by (simp add: append_event_def log_inv_commit)

lemma sink_keeps [inv_intros]: "sink x (c, d) = Inr (c', d') \<Longrightarrow> log_inv d \<Longrightarrow> log_inv d'"
  using sink_append append_keeps by blast

lemma sink_snd_keeps [inv_intros]: "map_sum id snd (sink x (c, d)) = Inr d' \<Longrightarrow> log_inv d \<Longrightarrow> log_inv d'"
  by (cases "sink x (c, d)") (auto intro: sink_keeps)

lemma deliver_keeps [inv_intros]: "deliver xs (c, d) = (err, c', d') \<Longrightarrow> log_inv d \<Longrightarrow> log_inv d'"
proof (induction xs arbitrary: c d)
  case (Cons x xs)
  then show ?case by (cases "sink x (c, d)") (auto intro: sink_keeps)
qed simp

lemma save_checkpoint_tables:
  "save_checkpoint k d = Inr d' \<Longrightarrow> t_conversations d' = t_conversations d \<and> t_events d' = t_events d \<and> t_outbox d' = t_outbox d"
  by (auto simp: save_checkpoint_def split: option.splits)

lemma after_segment_tables:
  "t_conversations (snd (after_segment b cid d)) = t_conversations d \<and> t_events (snd (after_segment b cid d)) = t_events d
   \<and> t_outbox (snd (after_segment b cid d)) = t_outbox d"
  using save_checkpoint_tables [of _ d] by (auto simp: after_segment_def split: option.split sum.split)

lemma drive_keeps [inv_intros]: "log_inv d \<Longrightarrow> log_inv (snd (drive b (c, d)))"
proof -
  assume i: "log_inv d"
  obtain err c' d' where dl: "deliver (bh_deliveries b) (c, d) = (err, c', d')" by (metis surj_pair)
  have i': "log_inv d'" by (rule deliver_keeps [OF dl i])
  have "log_inv (snd (after_segment b (conv_id c') d'))"
    using after_segment_tables [of b "conv_id c'" d'] i' log_inv_tables by blast
  then show ?thesis using i' by (auto simp: drive_def dl split: option.split)
qed

lemma execute_run_keeps [inv_intros]: "log_inv d \<Longrightarrow> log_inv (snd (execute_run now q b d))"
  by (auto simp: execute_run_def drive_keeps split: option.split)

lemma resume_run_keeps [inv_intros]: "log_inv d \<Longrightarrow> log_inv (snd (resume_run eid oid now q kid dec b d))"
  by (auto simp: resume_run_def split: option.split sum.split intro: drive_keeps sink_keeps)

lemma stop_runner_keeps [inv_intros]: "stop_runner cc eid oid now q d = Inr d' \<Longrightarrow> log_inv d \<Longrightarrow> log_inv d'"
  by (auto simp: stop_runner_def split: option.splits if_splits intro: sink_snd_keeps)

lemma fail_run_keeps [inv_intros]: "fail_run str eid oid now q err d = Inr d' \<Longrightarrow> log_inv d \<Longrightarrow> log_inv d'"
  by (auto simp: fail_run_def split: option.splits if_splits intro: sink_snd_keeps)

section \<open>A segment without failures\<close>

text \<open>The events of a segment as they are stored, and the run they project.\<close>

fun renumber :: "int \<Rightarrow> delivery list \<Rightarrow> event_envelope list" where
  "renumber n [] = []"
| "renumber n (x # xs) = (dl_event x)\<lparr>ev_seq := n + 1\<rparr> # renumber (n + 1) xs"

definition project_one :: "delivery \<Rightarrow> run_projection \<Rightarrow> run_projection" where
  "project_one x r = (event_to_state (dl_event x) r)\<lparr>last_seq := last_seq r + 1\<rparr>"

text \<open>Fresh identifiers: what \<open>uuid4()\<close> gives the events and the outbox rows.\<close>

definition fresh :: "delivery list \<Rightarrow> db \<Rightarrow> bool" where
  "fresh xs d = (distinct (map (\<lambda>x. ev_id (dl_event x)) xs) \<and> distinct (map dl_outbox xs)
     \<and> list_all (\<lambda>x. ev_id (dl_event x) \<notin> er_id ` set (t_events d) \<and> dl_outbox x \<notin> ob_id ` set (t_outbox d)) xs)"

lemma sink_accepts:
  assumes "log_inv d" "synced (c, d)" "fresh (x # xs) d"
  obtains d' where "sink x (c, d) = Inr (c\<lparr>conv_run := project_one x (conv_run c)\<rparr>, d')" "fresh xs d'"
proof -
  from assms(2) obtain row where row: "db_get cr_id (conv_id c) (t_conversations d) = Some row"
    and c: "c = conversation_from_row row" by (auto simp: synced_def repo_get_conversation_def)
  have sq: "cr_last_seq row = last_seq (conv_run c)" by (simp add: c conversation_from_row_def)
  have "(conv_id c, cr_last_seq row + 1) \<notin> event_key ` set (t_events d)"
    using log_inv_seqs [OF assms(1) row] by fastforce
  then have "\<exists>d'. append_event (dl_outbox x) (dl_now x) (c\<lparr>conv_run := event_to_state (dl_event x) (conv_run c)\<rparr>)
      ((dl_event x)\<lparr>ev_seq := last_seq (conv_run c) + 1\<rparr>) d = Inr d'"
    using assms(3) row sq by (simp add: append_event_def commit_event_Inr fresh_def)
  then obtain d' where a: "append_event (dl_outbox x) (dl_now x) (c\<lparr>conv_run := event_to_state (dl_event x) (conv_run c)\<rparr>)
      ((dl_event x)\<lparr>ev_seq := last_seq (conv_run c) + 1\<rparr>) d = Inr d'" ..
  then have ids: "er_id ` set (t_events d') = insert (ev_id (dl_event x)) (er_id ` set (t_events d))"
    "ob_id ` set (t_outbox d') = insert (dl_outbox x) (ob_id ` set (t_outbox d))"
    by (auto simp: append_event_def commit_event_Inr event_to_row_def outbox_of_def)
  have "fresh xs d'" using assms(3)
    unfolding fresh_def ids by (simp add: list_all_iff) (metis (no_types, lifting) image_eqI)
  moreover have "sink x (c, d) = Inr (c\<lparr>conv_run := project_one x (conv_run c)\<rparr>, d')"
    using a by (simp add: sink_def Let_def project_one_def)
  ultimately show thesis by (rule that [rotated])
qed

lemma deliver_all:
  assumes "log_inv d" "synced (c, d)" "fresh xs d"
  shows "\<exists>d'. deliver xs (c, d) = (None, c\<lparr>conv_run := fold project_one xs (conv_run c)\<rparr>, d')
    \<and> synced (c\<lparr>conv_run := fold project_one xs (conv_run c)\<rparr>, d')
    \<and> list_events (conv_id c) 0 None d' =
        list_events (conv_id c) 0 None d @ map stored_view (renumber (last_seq (conv_run c)) xs)"
  using assms
proof (induction xs arbitrary: c d)
  case (Cons x xs)
  obtain d1 where s: "sink x (c, d) = Inr (c\<lparr>conv_run := project_one x (conv_run c)\<rparr>, d1)" and f: "fresh xs d1"
    using sink_accepts [OF Cons.prems] .
  let ?c1 = "c\<lparr>conv_run := project_one x (conv_run c)\<rparr>"
  have i1: "log_inv d1" by (rule sink_keeps [OF s Cons.prems(1)])
  have y1: "synced (?c1, d1)" using sink_synced [OF s Cons.prems(2)] ..
  have "repo_append (dl_outbox x, dl_now x, c\<lparr>conv_run := event_to_state (dl_event x) (conv_run c)\<rparr>)
      ((dl_event x)\<lparr>ev_seq := last_seq (conv_run c) + 1\<rparr>) d = Inr d1"
    using sink_append [OF s] by simp
  from repo_log.append_events [OF Cons.prems(1) this]
  have "list_events (conv_id c) 0 None d1 = list_events (conv_id c) 0 None d
      @ [stored_view ((dl_event x)\<lparr>ev_seq := last_seq (conv_run c) + 1\<rparr>)]" by simp
  with Cons.IH [OF i1 y1 f] show ?case by (simp add: s) (simp add: project_one_def)
qed (simp add: synced_def)

lemma repo_get_conversation_id: "repo_get_conversation k d = Some c \<Longrightarrow> conv_id c = k"
  by (auto simp: repo_get_conversation_def conversation_from_row_def dest: db_get_key)

lemma repo_get_synced: "repo_get_conversation k d = Some c \<Longrightarrow> synced (c, d)"
  using repo_get_conversation_id by (auto simp: synced_def)

lemma sink_id: "sink x (c, d) = Inr (c', d') \<Longrightarrow> conv_id c' = conv_id c"
  by (auto dest: sink_append)

definition failed_delivery :: "(json \<Rightarrow> string) \<Rightarrow> uuid \<Rightarrow> uuid \<Rightarrow> time \<Rightarrow> obj \<Rightarrow> conversation \<Rightarrow> delivery" where
  "failed_delivery str eid oid now err c = \<lparr>dl_outbox = oid, dl_now = now,
     dl_event = mk_event eid now (run_id (conv_run c)) 0 ''run.failed'' (failed_payload str err) ''agentsupport''\<rparr>"

lemma fail_run_row:
  assumes "fail_run str eid oid now q err d = Inr d'" "repo_get_conversation (rf_conversation q) d = Some c"
    "\<not> terminal (state (conv_run c))"
  obtains c' where "sink (failed_delivery str eid oid now err c) (c, d) = Inr (c', d')"
    "repo_get_conversation (rf_conversation q) d' = Some c'" "state (conv_run c') = FAILED"
    "run_error (conv_run c') = Some (failed_payload str err)"
proof -
  let ?x = "failed_delivery str eid oid now err c"
  have id: "conv_id c = rf_conversation q" by (rule repo_get_conversation_id [OF assms(2)])
  from assms obtain c' where s: "sink ?x (c, d) = Inr (c', d')"
    by (cases "sink ?x (c, d)") (auto simp: fail_run_def failed_delivery_def)
  have "repo_get_conversation (rf_conversation q) d' = Some c'"
    using sink_synced [OF s repo_get_synced [OF assms(2)]] by (auto simp: synced_def id)
  moreover have "state (conv_run c') = FAILED" "run_error (conv_run c') = Some (failed_payload str err)"
    using sink_append [OF s] by (simp_all add: event_to_state_def mk_event_def failed_delivery_def)
  ultimately show thesis using s that by blast
qed

lemma stop_runner_row:
  assumes "repo_get_conversation (rf_conversation q) d = Some c" "stop_runner True eid oid now q d = Inr d'"
  shows "\<exists>c'. repo_get_conversation (rf_conversation q) d' = Some c' \<and> state (conv_run c') = CANCELLED
    \<and> result_summary (conv_run c') = result_summary (conv_run c)"
proof (cases "state (conv_run c) = CANCELLED")
  case False
  let ?x = "\<lparr>dl_outbox = oid, dl_now = now,
    dl_event = mk_event eid now (run_id (conv_run c)) 0 ''run.cancelled'' [] ''agentsupport''\<rparr>"
  let ?c = "c\<lparr>conv_run := (conv_run c)\<lparr>state := CANCELLED\<rparr>\<rparr>"
  have id: "conv_id c = rf_conversation q" by (rule repo_get_conversation_id [OF assms(1)])
  from assms False obtain c' where s: "sink ?x (?c, d) = Inr (c', d')"
    by (cases "sink ?x (?c, d)") (auto simp: stop_runner_def)
  have "repo_get_conversation (rf_conversation q) d' = Some c'"
    using sink_row [OF s, of c CANCELLED] assms(1) by (auto simp: synced_def id)
  then show ?thesis using sink_append [OF s] by (simp add: event_to_state_def mk_event_def)
qed (use assms in \<open>simp add: stop_runner_def\<close>)

section \<open>Properties\<close>

text \<open>C22. A run segment loses no event. When its resources exist, the runner's events carry fresh identifiers
  and the runtime does not raise, \<open>execute_run\<close> leaves the log as it was with these events at the end, numbered
  one after the other, the stored run is the projection of all of them, and the activity ends with the
  terminal state the projection reached or, when it is neither terminal nor at a gate, with an error.\<close>

theorem execute_run_exact:
  assumes "log_inv d" "repo_get_conversation (rf_conversation q) d = Some c"
    "repo_get_session now (rf_session q) d \<noteq> None" "repo_get_workspace (rf_workspace q) d \<noteq> None"
    "fresh (bh_deliveries b) d" "bh_error b = None"
  shows "let r = fold project_one (bh_deliveries b) (conv_run c); (res, d') = execute_run now q b d in
    list_events (conv_id c) 0 None d' = list_events (conv_id c) 0 None d
      @ map stored_view (renumber (last_seq (conv_run c)) (bh_deliveries b))
    \<and> repo_get_conversation (conv_id c) d' = Some (c\<lparr>conv_run := r\<rparr>)
    \<and> (state r \<noteq> WAITING_INPUT \<longrightarrow> res =
        (if terminal (state r) then Inr (Ended (state r) (result_summary r) (run_error r))
         else Inl (RuntimeErr ''run segment returned without a durable state transition'')))"
proof -
  define r where "r = fold project_one (bh_deliveries b) (conv_run c)"
  from deliver_all [OF assms(1) repo_get_synced [OF assms(2)] assms(5)] obtain d1 where
    dl: "deliver (bh_deliveries b) (c, d) = (None, c\<lparr>conv_run := r\<rparr>, d1)" and y: "synced (c\<lparr>conv_run := r\<rparr>, d1)"
    and l: "list_events (conv_id c) 0 None d1 = list_events (conv_id c) 0 None d
      @ map stored_view (renumber (last_seq (conv_run c)) (bh_deliveries b))" unfolding r_def by blast
  obtain res d' where e: "execute_run now q b d = (res, d')" by (metis surj_pair)
  have a: "after_segment b (conv_id c) d1 = (res, d')"
    using assms(2-4,6) e by (auto simp: execute_run_def drive_def dl)
  have t: "t_conversations d' = t_conversations d1" "t_events d' = t_events d1"
    using after_segment_tables [of b "conv_id c" d1] by (simp_all add: a)
  have "list_events (conv_id c) 0 None d' = list_events (conv_id c) 0 None d1" by (simp add: list_events_def t)
  moreover have "repo_get_conversation (conv_id c) d' = Some (c\<lparr>conv_run := r\<rparr>)"
    using y by (simp add: synced_def repo_get_conversation_def t)
  moreover have "state r \<noteq> WAITING_INPUT \<longrightarrow> res =
      (if terminal (state r) then Inr (Ended (state r) (result_summary r) (run_error r))
       else Inl (RuntimeErr ''run segment returned without a durable state transition''))"
    using a y by (auto simp: after_segment_def synced_def)
  ultimately show ?thesis using l by (simp add: e flip: r_def)
qed

text \<open>A store with a conversation, its session and its workspace, and a run that completes.\<close>

definition demo_run_db :: db where
  "demo_run_db = demo_db\<lparr>
     t_sessions := [\<lparr>sess_id = ''s1'', sess_workspace = ''w1'', sess_tenant = None, sess_user = None,
       sess_project = None, sess_metadata = [], sess_config = None, sess_lease_epoch = 0, sess_active_run = None,
       sess_created_at = 0\<rparr>],
     t_workspaces := [\<lparr>ws_id = ''w1'', ws_name = ''w'', ws_root_path = ''/w'', ws_created_at = 0\<rparr>]\<rparr>"

definition demo_ref :: run_ref where
  "demo_ref = \<lparr>rf_conversation = ''c1'', rf_session = ''s1'', rf_workspace = ''w1''\<rparr>"

definition demo_deliveries :: "delivery list" where
  "demo_deliveries = [\<lparr>dl_outbox = ''o1'', dl_now = 5, dl_event = mk_event ''e1'' 5 ''r1'' 0 ''run.running'' [] ''runner''\<rparr>,
     \<lparr>dl_outbox = ''o2'', dl_now = 6,
      dl_event = mk_event ''e2'' 6 ''r1'' 0 ''run.completed'' [(''result'', JStr ''ok'')] ''runner''\<rparr>]"

definition demo_behaviour :: behaviour where
  "demo_behaviour = \<lparr>bh_deliveries = demo_deliveries, bh_error = None, bh_checkpoint = Inl ''none''\<rparr>"

lemma demo_run_inv: "log_inv demo_run_db"
  using demo_log_inv log_inv_tables [of demo_run_db demo_db] by (simp add: demo_run_db_def)

lemma demo_run_get: "repo_get_conversation ''c1'' demo_run_db = Some demo_conv"
  "db_get sess_id ''s1'' (t_sessions demo_run_db) \<noteq> None" "repo_get_workspace ''w1'' demo_run_db \<noteq> None"
  by (simp_all add: demo_run_db_def demo_db_def repo_get_conversation_def repo_get_workspace_def db_get_Cons)
    (simp add: conversation_to_row_def demo_conv_def)

theorem execute_run_exact_witness:
  "fst (execute_run 9 demo_ref demo_behaviour demo_run_db) = Inr (Ended COMPLETED (JStr ''ok'') None)
   \<and> map ev_seq (list_events ''c1'' 0 None (snd (execute_run 9 demo_ref demo_behaviour demo_run_db))) = [1, 2]"
proof -
  have f: "fresh (bh_deliveries demo_behaviour) demo_run_db"
    by (simp add: fresh_def demo_behaviour_def demo_deliveries_def demo_run_db_def demo_db_def mk_event_def)
  have r: "fold project_one demo_deliveries (conv_run demo_conv) = (new_run ''r1'')\<lparr>state := COMPLETED, last_seq := 2,
      result_summary := JStr ''ok''\<rparr>"
    by (simp add: demo_deliveries_def project_one_def event_to_state_def mk_event_def demo_conv_def new_run_def obj_get_def)
  have n: "last_seq (conv_run demo_conv) = 0" "conv_id demo_conv = ''c1''" by (simp_all add: demo_conv_def new_run_def)
  have l: "list_events ''c1'' 0 None demo_run_db = []" by (simp add: list_events_def demo_run_db_def demo_db_def)
  have q: "rf_conversation demo_ref = ''c1''" "rf_session demo_ref = ''s1''" "rf_workspace demo_ref = ''w1''"
    by (simp_all add: demo_ref_def)
  have seqs: "map ev_seq (map stored_view (renumber 0 demo_deliveries)) = [1, 2]"
    by (simp add: demo_deliveries_def stored_view_def)
  obtain res d' where e: "execute_run 9 demo_ref demo_behaviour demo_run_db = (res, d')" by (metis surj_pair)
  show ?thesis
    using execute_run_exact [of demo_run_db demo_ref demo_conv 9 demo_behaviour] demo_run_inv demo_run_get f seqs
    by (simp add: q e n l repo_get_session_def) (simp add: demo_behaviour_def r new_run_def)
qed

text \<open>The ready runners that take runs, those of a tenant among them, and those assigned to nobody or to the default tenant.\<close>

definition run_runners :: "db \<Rightarrow> runner_registration list" where
  "run_runners d = filter (\<lambda>e. ''run'' \<in> set (rr_capabilities e)) (list_ready_runner_registrations d)"

definition least_loaded :: "runner_registration \<Rightarrow> runner_registration list \<Rightarrow> bool" where
  "least_loaded e es = (e \<in> set es \<and> list_all (\<lambda>e'. rr_load e \<le> rr_load e') es)"

lemma min_by_least: "min_by rr_load es = Some e \<Longrightarrow> least_loaded e es"
  using min_by_Some [of rr_load es e] by (auto simp: least_loaded_def list_all_iff)

lemma least_loaded_some: "least_loaded e es \<Longrightarrow> es \<noteq> []"
  by (auto simp: least_loaded_def)


text \<open>The last case: with a shared runner in the registry, a tenant without an image gets it, and a tenant with a ready image
  and no runner goes past it to the static runner when the manager gives none.\<close>

definition demo_shared_db :: db where
  "demo_shared_db = demo_db\<lparr>t_runners := [\<lparr>rn_registration =
       \<lparr>rr_id = ''a'', rr_provider = ''p'', rr_endpoint = ''http://a'', rr_version = ''1'', rr_capabilities = [''run''],
        rr_status = ''READY'', rr_load = 0, rr_last_heartbeat_at = 0, rr_created_at = 0, rr_metadata = []\<rparr>, rn_token_hash = ''h''\<rparr>],
     t_builds := [\<lparr>pb_id = ''b'', pb_tenant = ''acme'', pb_status = READY, pb_content_hash = ''h'', pb_image_tag = Some ''img'',
        pb_error = None, pb_log_tail = [], pb_created_at = 0, pb_started_at = None, pb_finished_at = None\<rparr>]\<rparr>"

lemma image_without_runner_goes_static:
  "runner_url_for (\<lambda>_. []) None None demo_shared_db (Some ''other'') = ''http://a''"
  "runner_url_for (\<lambda>_. []) None None demo_shared_db (Some ''acme'') = ''http://runner''"
  by code_simp+

text \<open>A failed workflow never leaves a run hanging: after \<open>fail_run\<close> the conversation is gone or in a terminal
  state, a run that was already terminal is left as it was, and one that was not has one more event in its log,
  \<open>run.failed\<close>, with the default code and message where the error brings none.\<close>

theorem fail_run_terminal:
  assumes "log_inv d" "fail_run str eid oid now q err d = Inr d'"
  shows "case repo_get_conversation (rf_conversation q) d of
      None \<Rightarrow> d' = d
    | Some c \<Rightarrow> if terminal (state (conv_run c)) then d' = d
        else (\<exists>c' e. repo_get_conversation (rf_conversation q) d' = Some c' \<and> state (conv_run c') = FAILED
          \<and> run_error (conv_run c') = Some (failed_payload str err)
          \<and> ev_type e = ''run.failed'' \<and> ev_payload e = failed_payload str err
          \<and> list_events (rf_conversation q) 0 None d' = list_events (rf_conversation q) 0 None d @ [e])"
proof (cases "repo_get_conversation (rf_conversation q) d")
  case (Some c)
  show ?thesis
  proof (cases "terminal (state (conv_run c))")
    case False
    have id: "conv_id c = rf_conversation q" by (rule repo_get_conversation_id [OF Some])
    obtain c' where s: "sink (failed_delivery str eid oid now err c) (c, d) = Inr (c', d')"
      and c': "repo_get_conversation (rf_conversation q) d' = Some c'" "state (conv_run c') = FAILED"
        "run_error (conv_run c') = Some (failed_payload str err)"
      using fail_run_row [OF assms(2) Some False] .
    let ?e = "(dl_event (failed_delivery str eid oid now err c))\<lparr>ev_seq := last_seq (conv_run c) + 1\<rparr>"
    have "repo_append (oid, now, c\<lparr>conv_run := event_to_state (dl_event (failed_delivery str eid oid now err c)) (conv_run c)\<rparr>)
        ?e d = Inr d'"
      using sink_append [OF s] by (simp add: failed_delivery_def)
    from repo_log.append_events [OF assms(1) this]
    have "list_events (rf_conversation q) 0 None d' = list_events (rf_conversation q) 0 None d @ [stored_view ?e]"
      by (simp add: id)
    moreover have "ev_type (stored_view ?e) = ''run.failed''" "ev_payload (stored_view ?e) = failed_payload str err"
      by (simp_all add: failed_delivery_def mk_event_def stored_view_def)
    ultimately show ?thesis using Some False c' by auto
  qed (use assms Some in \<open>simp add: fail_run_def\<close>)
qed (use assms in \<open>simp add: fail_run_def\<close>)

theorem fail_run_terminal_witness:
  "\<exists>d' c'. fail_run (\<lambda>_. []) ''e1'' ''o1'' 5 demo_ref [] demo_run_db = Inr d'
     \<and> repo_get_conversation ''c1'' d' = Some c' \<and> state (conv_run c') = FAILED"
proof -
  let ?x = "\<lparr>dl_outbox = ''o1'', dl_now = 5, dl_event = mk_event ''e1'' 5 ''r1'' 0 ''run.failed''
    (failed_payload (\<lambda>_. []) []) ''agentsupport''\<rparr>"
  have q: "rf_conversation demo_ref = ''c1''" by (simp add: demo_ref_def)
  have n: "state (conv_run demo_conv) = QUEUED" "run_id (conv_run demo_conv) = ''r1''"
    by (simp_all add: demo_conv_def new_run_def)
  have "fresh [?x] demo_run_db" by (simp add: fresh_def demo_run_db_def demo_db_def)
  then obtain d' where "sink ?x (demo_conv, demo_run_db) = Inr (demo_conv\<lparr>conv_run := project_one ?x (conv_run demo_conv)\<rparr>, d')"
    using sink_accepts [OF demo_run_inv repo_get_synced [OF demo_run_get(1)]] by blast
  then have f: "fail_run (\<lambda>_. []) ''e1'' ''o1'' 5 demo_ref [] demo_run_db = Inr d'"
    by (simp add: fail_run_def q demo_run_get(1) n)
  from fail_run_terminal [OF demo_run_inv f] f show ?thesis by (auto simp: q demo_run_get(1) n)
qed

text \<open>Cancelling has no guard against a run that is already over: \<open>stop_runner\<close> with the terminal
  state \<open>cancelled\<close> turns a conversation in any other state, \<open>COMPLETED\<close> and \<open>FAILED\<close> among them, into
  \<open>CANCELLED\<close>. The result of the completed run stays in the row.\<close>

theorem stop_runner_overwrites_terminal:
  assumes "repo_get_conversation (rf_conversation q) d = Some c" "stop_runner True eid oid now q d = Inr d'"
  shows "\<exists>c'. repo_get_conversation (rf_conversation q) d' = Some c' \<and> state (conv_run c') = CANCELLED
    \<and> result_summary (conv_run c') = result_summary (conv_run c)"
  using assms by (rule stop_runner_row)

text \<open>The run of \<open>demo_behaviour\<close> completes; a cancellation that comes after it wins.\<close>

definition demo_done_db :: db where
  "demo_done_db = demo_run_db\<lparr>t_conversations :=
     [(conversation_to_row demo_conv)\<lparr>cr_state := COMPLETED, cr_result_summary := JStr ''ok''\<rparr>]\<rparr>"

theorem stop_runner_overwrites_terminal_witness:
  "\<exists>c d' c'. repo_get_conversation ''c1'' demo_done_db = Some c \<and> state (conv_run c) = COMPLETED
     \<and> stop_runner True ''e1'' ''o1'' 5 demo_ref demo_done_db = Inr d'
     \<and> repo_get_conversation ''c1'' d' = Some c' \<and> state (conv_run c') = CANCELLED"
proof -
  let ?c = "demo_conv\<lparr>conv_run := (new_run ''r1'')\<lparr>state := COMPLETED, result_summary := JStr ''ok''\<rparr>\<rparr>"
  have g: "repo_get_conversation (rf_conversation demo_ref) demo_done_db = Some ?c"
    by (simp add: repo_get_conversation_def demo_done_db_def demo_ref_def db_get_Cons conversation_to_row_def
        conversation_from_row_def demo_conv_def new_run_def)
  have "\<exists>d'. stop_runner True ''e1'' ''o1'' 5 demo_ref demo_done_db = Inr d'"
    by (simp add: stop_runner_def g) (simp add: sink_def Let_def append_event_def commit_event_def demo_done_db_def
        demo_run_db_def demo_db_def db_get_Cons conversation_to_row_def demo_conv_def new_run_def
        add_event_row_def db_add_def event_to_state_def mk_event_def)
  then obtain d' where s: "stop_runner True ''e1'' ''o1'' 5 demo_ref demo_done_db = Inr d'" ..
  from stop_runner_overwrites_terminal [OF g s] g s show ?thesis by (auto simp: demo_ref_def)
qed

end
