(* ===== verification/Workflow.thy ===== *)
theory Workflow
  imports Activities
begin

text \<open>
  The durable workflow of a run, \<open>RunSessionWorkflow\<close> in \<open>execution/temporal/workflows.py\<close>. The coroutine \<open>run\<close>
  is a state machine: a phase is the \<open>await\<close> it stands at, and each continuation of the coroutine from one
  \<open>await\<close> to the next is a function. Signals and continuations interleave in any order (\<open>wf_step\<close>).

  Temporal runs the activities. A segment has at most three attempts (\<open>SEGMENT_RETRY\<close>), each with a behaviour of
  its own; an attempt that times out or loses its heartbeat is one that delivered some events and
  raised. \<open>stop_runner\<close> and \<open>fail_run\<close> are called without a policy, and Temporal's default retries without limit:
  a failed attempt of theirs rolls back and leaves the workflow where it is. \<open>describe\<close> is the text of the
  exception with which Temporal reports a failed activity.
\<close>

section \<open>State\<close>

datatype wf_result = RCancelled | REnded execution_state json "obj option" | RFailed string

text \<open>
  \<open>Running n p\<close> awaits the segment with the payload \<open>p\<close> (none for \<open>execute_run\<close>) after \<open>n\<close> failed attempts,
  \<open>Gate k\<close> the condition of a gate with checkpoint \<open>k\<close>, \<open>Cancelling b\<close> the recording of a cancellation (\<open>b\<close>: from
  a gate), \<open>Stopping r\<close> the final \<open>stop_runner\<close>, \<open>Failing m\<close> the activity \<open>fail_run\<close>.
\<close>

datatype phase =
    Running nat "(uuid \<times> decision) option"
  | Gate uuid
  | Cancelling bool
  | Stopping wf_result
  | Failing string
  | Done wf_result

record wf =
  wf_phase :: phase
  wf_input :: "(string \<times> json) option"
  wf_approval :: "(string \<times> string) option"
  wf_cancel :: bool
  wf_keys :: "string list"
  wf_status :: string

definition wf_start :: wf where
  "wf_start = \<lparr>wf_phase = Running 0 None, wf_input = None, wf_approval = None, wf_cancel = False,
     wf_keys = [], wf_status = ''starting''\<rparr>"

definition maximum_attempts :: nat where
  "maximum_attempts = 3"

section \<open>Signals\<close>

definition wf_submit_input :: "string \<Rightarrow> json \<Rightarrow> string option \<Rightarrow> wf \<Rightarrow> wf" where
  "wf_submit_input i v key w = (case key of
       None \<Rightarrow> w\<lparr>wf_input := Some (i, v)\<rparr>
     | Some k \<Rightarrow> if k \<in> set (wf_keys w) then w
                 else w\<lparr>wf_keys := k # wf_keys w, wf_input := Some (i, v)\<rparr>)"

definition wf_submit_approval :: "string \<Rightarrow> string \<Rightarrow> string option \<Rightarrow> wf \<Rightarrow> wf" where
  "wf_submit_approval i v key w = (case key of
       None \<Rightarrow> w\<lparr>wf_approval := Some (i, v)\<rparr>
     | Some k \<Rightarrow> if k \<in> set (wf_keys w) then w
                 else w\<lparr>wf_keys := k # wf_keys w, wf_approval := Some (i, v)\<rparr>)"

definition wf_cancel_run :: "wf \<Rightarrow> wf" where
  "wf_cancel_run w = w\<lparr>wf_cancel := True\<rparr>"

section \<open>Continuations\<close>

text \<open>What \<open>_run_segment\<close> hands to \<open>run\<close>: a gate sets the status \<open>waiting\<close>, anything else leads to the
  final \<open>stop_runner\<close>.\<close>

definition wf_segment_done :: "segment \<Rightarrow> wf \<Rightarrow> wf" where
  "wf_segment_done s w = (case s of
       Waiting k \<Rightarrow> w\<lparr>wf_phase := Gate k, wf_status := ''waiting''\<rparr>
     | Ended st res err \<Rightarrow> w\<lparr>wf_phase := Stopping (REnded st res err)\<rparr>
     | SegCancelled \<Rightarrow> w\<lparr>wf_phase := Stopping RCancelled\<rparr>)"

definition segment_attempt :: "uuid \<Rightarrow> uuid \<Rightarrow> time \<Rightarrow> run_ref \<Rightarrow> (uuid \<times> decision) option \<Rightarrow> behaviour \<Rightarrow> db
    \<Rightarrow> (activity_error + segment) \<times> db" where
  "segment_attempt eid oid now q p b d = (case p of
       None \<Rightarrow> execute_run now q b d
     | Some (k, dec) \<Rightarrow> resume_run eid oid now q k dec b d)"

definition wf_attempt :: "(activity_error \<Rightarrow> string) \<Rightarrow> uuid \<Rightarrow> uuid \<Rightarrow> time \<Rightarrow> run_ref \<Rightarrow> behaviour
    \<Rightarrow> wf \<times> db \<Rightarrow> (wf \<times> db) option" where
  "wf_attempt describe eid oid now q b x = (case x of (w, d) \<Rightarrow> (case wf_phase w of
       Running n p \<Rightarrow> (case segment_attempt eid oid now q p b d of
           (Inr s, d') \<Rightarrow> Some (wf_segment_done s w, d')
         | (Inl err, d') \<Rightarrow>
             if n + 1 < maximum_attempts then Some (w\<lparr>wf_phase := Running (n + 1) p\<rparr>, d')
             else Some (w\<lparr>wf_phase := Failing (describe err)\<rparr>, d'))
     | _ \<Rightarrow> None))"

text \<open>A cancel signal while the segment is awaited: the task is cancelled wherever its activity
  stands and its outcome is discarded.\<close>

definition wf_cancel_segment :: "uuid \<Rightarrow> uuid \<Rightarrow> time \<Rightarrow> run_ref \<Rightarrow> behaviour \<Rightarrow> wf \<times> db \<Rightarrow> (wf \<times> db) option" where
  "wf_cancel_segment eid oid now q b x = (case x of (w, d) \<Rightarrow> (case wf_phase w of
       Running n p \<Rightarrow> if wf_cancel w
         then Some (w\<lparr>wf_phase := Cancelling False\<rparr>, snd (segment_attempt eid oid now q p b d))
         else None
     | _ \<Rightarrow> None))"

text \<open>The condition of a gate: a cancellation comes first, then an input, then an approval.\<close>

definition wf_gate :: "wf \<Rightarrow> wf option" where
  "wf_gate w = (case wf_phase w of
       Gate k \<Rightarrow>
         if wf_cancel w then Some (w\<lparr>wf_phase := Cancelling True\<rparr>)
         else (case wf_input w of
             Some (i, v) \<Rightarrow> Some (w\<lparr>wf_phase := Running 0 (Some (k, InputDecision i v)), wf_input := None,
               wf_status := ''running''\<rparr>)
           | None \<Rightarrow> (case wf_approval w of
               Some (i, v) \<Rightarrow> Some (w\<lparr>wf_phase := Running 0 (Some (k, ApprovalDecided i v)),
                 wf_approval := None, wf_status := ''running''\<rparr>)
             | None \<Rightarrow> None))
     | _ \<Rightarrow> None)"

text \<open>\<open>_finish_cancelled\<close>: at a gate the workflow then returns, after a segment it still stops the runner.\<close>

definition wf_finish_cancelled :: "uuid \<Rightarrow> uuid \<Rightarrow> time \<Rightarrow> run_ref \<Rightarrow> wf \<times> db \<Rightarrow> (wf \<times> db) option" where
  "wf_finish_cancelled eid oid now q x = (case x of (w, d) \<Rightarrow> (case wf_phase w of
       Cancelling at_gate \<Rightarrow> (case stop_runner True eid oid now q d of
           Inl _ \<Rightarrow> None
         | Inr d' \<Rightarrow> Some (if at_gate then w\<lparr>wf_phase := Done RCancelled\<rparr> else wf_segment_done SegCancelled w, d'))
     | _ \<Rightarrow> None))"

definition result_status :: "wf_result \<Rightarrow> string" where
  "result_status r = (case r of REnded st _ _ \<Rightarrow> state_value st | RCancelled \<Rightarrow> ''cancelled'' | RFailed _ \<Rightarrow> ''failed'')"

definition wf_stop :: "uuid \<Rightarrow> uuid \<Rightarrow> time \<Rightarrow> run_ref \<Rightarrow> wf \<times> db \<Rightarrow> (wf \<times> db) option" where
  "wf_stop eid oid now q x = (case x of (w, d) \<Rightarrow> (case wf_phase w of
       Stopping r \<Rightarrow> (case stop_runner False eid oid now q d of
           Inl _ \<Rightarrow> None
         | Inr d' \<Rightarrow> Some (w\<lparr>wf_phase := Done r, wf_status := result_status r\<rparr>, d'))
     | _ \<Rightarrow> None))"

definition wf_fail :: "(json \<Rightarrow> string) \<Rightarrow> uuid \<Rightarrow> uuid \<Rightarrow> time \<Rightarrow> run_ref \<Rightarrow> wf \<times> db \<Rightarrow> (wf \<times> db) option" where
  "wf_fail str eid oid now q x = (case x of (w, d) \<Rightarrow> (case wf_phase w of
       Failing m \<Rightarrow> (case fail_run str eid oid now q [(''code'', JStr ''WORKFLOW_FAILED''), (''message'', JStr m)] d of
           Inl _ \<Rightarrow> None
         | Inr d' \<Rightarrow> Some (w\<lparr>wf_phase := Done (RFailed m), wf_status := ''failed''\<rparr>, d'))
     | _ \<Rightarrow> None))"

section \<open>Runs of the workflow\<close>

inductive wf_step :: "(json \<Rightarrow> string) \<Rightarrow> (activity_error \<Rightarrow> string) \<Rightarrow> run_ref \<Rightarrow> wf \<times> db \<Rightarrow> wf \<times> db \<Rightarrow> bool"
  for str describe q where
  input: "wf_step str describe q (w, d) (wf_submit_input i v key w, d)"
| approval: "wf_step str describe q (w, d) (wf_submit_approval i s key w, d)"
| cancel: "wf_step str describe q (w, d) (wf_cancel_run w, d)"
| attempt: "wf_attempt describe eid oid now q b x = Some y \<Longrightarrow> wf_step str describe q x y"
| cancel_segment: "wf_cancel_segment eid oid now q b x = Some y \<Longrightarrow> wf_step str describe q x y"
| gate: "wf_gate w = Some w' \<Longrightarrow> wf_step str describe q (w, d) (w', d)"
| finish_cancelled: "wf_finish_cancelled eid oid now q x = Some y \<Longrightarrow> wf_step str describe q x y"
| stop: "wf_stop eid oid now q x = Some y \<Longrightarrow> wf_step str describe q x y"
| fail: "wf_fail str eid oid now q x = Some y \<Longrightarrow> wf_step str describe q x y"

inductive_cases wf_stepE: "wf_step str describe q x y"

abbreviation wf_steps :: "(json \<Rightarrow> string) \<Rightarrow> (activity_error \<Rightarrow> string) \<Rightarrow> run_ref \<Rightarrow> wf \<times> db \<Rightarrow> wf \<times> db \<Rightarrow> bool" where
  "wf_steps str describe q \<equiv> (wf_step str describe q)\<^sup>*\<^sup>*"

section \<open>Invariants\<close>

lemmas wf_moves = wf_attempt_def wf_cancel_segment_def wf_gate_def wf_finish_cancelled_def wf_stop_def wf_fail_def
  wf_segment_done_def

lemmas wf_signals = wf_submit_input_def wf_submit_approval_def wf_cancel_run_def

lemma segment_attempt_keeps [inv_intros]: "log_inv d \<Longrightarrow> log_inv (snd (segment_attempt eid oid now q p b d))"
  by (auto simp: segment_attempt_def execute_run_keeps resume_run_keeps split: option.split prod.split)

lemma wf_step_log_inv:
  assumes "wf_step str describe q x y" "log_inv (snd x)"
  shows "log_inv (snd y)"
  using assms
proof (induction rule: wf_step.induct)
  case (attempt eid oid now b x y)
  obtain w d where x: "x = (w, d)" by (cases x)
  have "\<exists>w'. y = (w', snd (segment_attempt eid oid now q (case wf_phase w of Running n p \<Rightarrow> p) b d))"
    using attempt(1) by (auto simp: x wf_attempt_def split: phase.splits prod.splits sum.splits if_splits)
  then show ?case using attempt(2) segment_attempt_keeps by (auto simp: x)
next
  case (cancel_segment eid oid now b x y)
  then show ?case
    by (auto simp: wf_cancel_segment_def segment_attempt_keeps split: prod.splits phase.splits if_splits)
next
  case (finish_cancelled eid oid now x y)
  then show ?case
    by (auto simp: wf_finish_cancelled_def split: prod.splits phase.splits if_splits sum.splits intro: stop_runner_keeps)
next
  case (stop eid oid now x y)
  then show ?case
    by (auto simp: wf_stop_def split: prod.splits phase.splits if_splits sum.splits intro: stop_runner_keeps)
next
  case (fail eid oid now x y)
  then show ?case
    by (auto simp: wf_fail_def split: prod.splits phase.splits if_splits sum.splits intro: fail_run_keeps)
qed auto

text \<open>What a result says is what the tables say: for a failure the state \<open>FAILED\<close> with the payload of the event that
  \<open>fail_run\<close> records. The exception is a run that has already ended when the failure is recorded; \<open>fail_run\<close> then changes nothing.\<close>

definition workflow_error :: "(json \<Rightarrow> string) \<Rightarrow> string \<Rightarrow> obj" where
  "workflow_error str m = failed_payload str [(''code'', JStr ''WORKFLOW_FAILED''), (''message'', JStr m)]"

definition result_ok :: "(json \<Rightarrow> string) \<Rightarrow> run_ref \<Rightarrow> wf_result \<Rightarrow> db \<Rightarrow> bool" where
  "result_ok str q r d = (case (repo_get_conversation (rf_conversation q) d, r) of
       (None, REnded _ _ _) \<Rightarrow> False
     | (None, _) \<Rightarrow> True
     | (Some c, REnded st res err) \<Rightarrow> terminal st \<and> state (conv_run c) = st
         \<and> result_summary (conv_run c) = res \<and> run_error (conv_run c) = err
     | (Some c, RCancelled) \<Rightarrow> state (conv_run c) = CANCELLED
     | (Some c, RFailed m) \<Rightarrow> state (conv_run c) = FAILED \<and> run_error (conv_run c) = Some (workflow_error str m))"

definition already_ended :: "run_ref \<Rightarrow> db \<Rightarrow> bool" where
  "already_ended q d = (case repo_get_conversation (rf_conversation q) d of None \<Rightarrow> False | Some c \<Rightarrow> terminal (state (conv_run c)))"

definition wf_inv :: "(json \<Rightarrow> string) \<Rightarrow> run_ref \<Rightarrow> wf \<times> db \<Rightarrow> bool" where
  "wf_inv str q x = (case wf_phase (fst x) of
       Running n p \<Rightarrow> n < maximum_attempts
     | Stopping r \<Rightarrow> (\<forall>m. r \<noteq> RFailed m) \<and> result_ok str q r (snd x)
     | Done r \<Rightarrow> (\<forall>m. r \<noteq> RFailed m) \<longrightarrow> result_ok str q r (snd x)
     | _ \<Rightarrow> True)"

lemma deliver_id: "deliver xs (c, d) = (err, c', d') \<Longrightarrow> conv_id c' = conv_id c"
proof (induction xs arbitrary: c d)
  case (Cons x xs)
  then show ?case by (cases "sink x (c, d)") (auto dest: sink_append)
qed simp

lemma after_segment_ended:
  assumes "after_segment b cid d = (Inr (Ended st res err), d')"
  shows "\<exists>c. repo_get_conversation cid d' = Some c \<and> terminal st \<and> state (conv_run c) = st
    \<and> result_summary (conv_run c) = res \<and> run_error (conv_run c) = err"
  using assms by (auto simp: after_segment_def split: option.splits sum.splits if_splits)

lemma drive_ended:
  assumes "drive b (c, d) = (Inr (Ended st res err), d')"
  shows "\<exists>c'. repo_get_conversation (conv_id c) d' = Some c' \<and> terminal st \<and> state (conv_run c') = st
    \<and> result_summary (conv_run c') = res \<and> run_error (conv_run c') = err"
proof -
  obtain e c1 d1 where dl: "deliver (bh_deliveries b) (c, d) = (e, c1, d1)" by (metis surj_pair)
  with assms have "after_segment b (conv_id c) d1 = (Inr (Ended st res err), d')"
    by (auto simp: drive_def deliver_id split: option.splits)
  then show ?thesis by (rule after_segment_ended)
qed

lemma segment_attempt_drives:
  assumes "segment_attempt eid oid now q p b d = (Inr s, d')"
  shows "\<exists>c d1. conv_id c = rf_conversation q \<and> drive b (c, d1) = (Inr s, d')"
proof (cases p)
  case None
  with assms have "execute_run now q b d = (Inr s, d')" by (simp add: segment_attempt_def)
  then obtain c where "repo_get_conversation (rf_conversation q) d = Some c" "drive b (c, d) = (Inr s, d')"
    by (auto simp: execute_run_def split: option.splits)
  then show ?thesis using repo_get_conversation_id by blast
next
  case (Some kd)
  obtain k dec where kd: "kd = (k, dec)" by (cases kd)
  from assms Some kd have "resume_run eid oid now q k dec b d = (Inr s, d')" by (simp add: segment_attempt_def)
  then obtain c x c1 d1 where c: "repo_get_conversation (rf_conversation q) d = Some c"
    and s: "sink x (c\<lparr>conv_run := (conv_run c)\<lparr>state := RUNNING\<rparr>\<rparr>, d) = Inr (c1, d1)"
    and dr: "drive b (c1, d1) = (Inr s, d')"
    by (auto simp: resume_run_def split: option.splits sum.splits)
  have "conv_id c1 = rf_conversation q" using sink_id [OF s] repo_get_conversation_id [OF c] by simp
  with dr show ?thesis by blast
qed

lemma segment_attempt_ended:
  assumes "segment_attempt eid oid now q p b d = (Inr (Ended st res err), d')"
  shows "result_ok str q (REnded st res err) d'"
proof -
  from segment_attempt_drives [OF assms] obtain c d1 where "conv_id c = rf_conversation q"
    and dr: "drive b (c, d1) = (Inr (Ended st res err), d')" by blast
  with drive_ended [OF dr] obtain c' where "repo_get_conversation (rf_conversation q) d' = Some c'" "terminal st"
    "state (conv_run c') = st" "result_summary (conv_run c') = res" "run_error (conv_run c') = err" by auto
  then show ?thesis by (simp add: result_ok_def)
qed

lemma drive_not_cancelled: "fst (drive b cd) \<noteq> Inr SegCancelled"
  by (auto simp: drive_def after_segment_def split: option.split sum.split prod.split)

lemma stop_runner_result: "stop_runner True eid oid now q d = Inr d' \<Longrightarrow> result_ok str q RCancelled d'"
proof (cases "repo_get_conversation (rf_conversation q) d")
  case (Some c)
  then show "stop_runner True eid oid now q d = Inr d' \<Longrightarrow> result_ok str q RCancelled d'"
    using stop_runner_row [OF Some] by (force simp: result_ok_def)
qed (simp add: stop_runner_def result_ok_def)

lemma fail_run_result:
  assumes "fail_run str eid oid now q [(''code'', JStr ''WORKFLOW_FAILED''), (''message'', JStr m)] d = Inr d'"
  shows "result_ok str q (RFailed m) d' \<or> already_ended q d \<and> d' = d"
proof (cases "repo_get_conversation (rf_conversation q) d")
  case (Some c)
  show ?thesis
  proof (cases "terminal (state (conv_run c))")
    case False
    from fail_run_row [OF assms Some this] obtain c' where "repo_get_conversation (rf_conversation q) d' = Some c'"
      "state (conv_run c') = FAILED" "run_error (conv_run c') = Some (workflow_error str m)"
      unfolding workflow_error_def by blast
    then show ?thesis by (simp add: result_ok_def)
  qed (use assms Some in \<open>simp add: fail_run_def already_ended_def\<close>)
qed (use assms in \<open>simp add: fail_run_def result_ok_def\<close>)

lemma wf_inv_signal [simp]:
  "wf_inv str q (wf_submit_input i v key w, d) = wf_inv str q (w, d)"
  "wf_inv str q (wf_submit_approval i s key w, d) = wf_inv str q (w, d)"
  "wf_inv str q (wf_cancel_run w, d) = wf_inv str q (w, d)"
  by (simp_all add: wf_inv_def wf_signals split: option.split phase.split)

lemma attempt_wf_inv:
  assumes "wf_attempt describe eid oid now q b (w, d) = Some y" "wf_inv str q (w, d)"
  shows "wf_inv str q y"
proof -
  from assms(1) obtain n p where p: "wf_phase w = Running n p" by (auto simp: wf_attempt_def split: phase.splits)
  obtain r d' where a: "segment_attempt eid oid now q p b d = (r, d')" by (metis surj_pair)
  show ?thesis
  proof (cases r)
    case (Inr s)
    have "s \<noteq> SegCancelled"
      using segment_attempt_drives [of eid oid now q p b d s d'] drive_not_cancelled a Inr by (metis fst_conv)
    then show ?thesis
      using assms p a Inr segment_attempt_ended
      by (cases s) (auto simp: wf_attempt_def wf_segment_done_def wf_inv_def)
  qed (use assms p a in \<open>auto simp: wf_attempt_def wf_inv_def split: if_splits\<close>)
qed

lemma wf_step_inv:
  assumes "wf_step str describe q x y" "wf_inv str q x"
  shows "wf_inv str q y"
  using assms
proof (induction rule: wf_step.induct)
  case (attempt eid oid now b x y)
  then show ?case by (cases x) (auto intro: attempt_wf_inv)
next
  case (cancel_segment eid oid now b x y)
  then show ?case by (auto simp: wf_cancel_segment_def wf_inv_def split: prod.splits phase.splits if_splits)
next
  case (gate w w' d)
  then show ?case
    by (auto simp: wf_gate_def wf_inv_def maximum_attempts_def split: phase.splits if_splits option.splits)
next
  case (finish_cancelled eid oid now x y)
  then show ?case
    by (auto simp: wf_finish_cancelled_def wf_segment_done_def wf_inv_def dest: stop_runner_result
        split: prod.splits phase.splits if_splits sum.splits)
next
  case (stop eid oid now x y)
  then show ?case
    by (auto simp: wf_stop_def wf_inv_def stop_runner_def split: prod.splits phase.splits if_splits sum.splits)
next
  case (fail eid oid now x y)
  then show ?case
    by (auto simp: wf_fail_def wf_inv_def split: prod.splits phase.splits if_splits sum.splits)
qed simp_all

lemma wf_steps_inv: "wf_steps str describe q x y \<Longrightarrow> wf_inv str q x \<Longrightarrow> log_inv (snd x) \<Longrightarrow> wf_inv str q y \<and> log_inv (snd y)"
  by (induction rule: rtranclp_induct) (auto intro: wf_step_inv wf_step_log_inv)

text \<open>A workflow that returned a failure came from recording it.\<close>

lemma failure_recorded:
  assumes "wf_steps str describe q (wf_start, d0) y" "log_inv d0" "wf_phase (fst y) = Done (RFailed m)"
  shows "\<exists>w1 d1 eid oid now. wf_steps str describe q (wf_start, d0) (w1, d1) \<and> wf_phase w1 = Failing m
    \<and> fail_run str eid oid now q [(''code'', JStr ''WORKFLOW_FAILED''), (''message'', JStr m)] d1 = Inr (snd y)"
  using assms(1,3)
proof (induction arbitrary: rule: rtranclp_induct)
  case (step y z)
  obtain w d where y: "y = (w, d)" by (cases y)
  have i: "wf_inv str q (w, d)" using wf_steps_inv [OF step.hyps(1)] assms(2) by (simp add: y wf_inv_def wf_start_def maximum_attempts_def)
  show ?case using step.hyps(2)
  proof (cases rule: wf_step.cases)
    case (fail eid oid now)
    then obtain m' where "wf_phase w = Failing m'" by (auto simp: y wf_fail_def split: phase.splits)
    then have "wf_phase w = Failing m"
      "fail_run str eid oid now q [(''code'', JStr ''WORKFLOW_FAILED''), (''message'', JStr m)] d = Inr (snd z)"
      using fail step.prems by (auto simp: y wf_fail_def split: sum.splits)
    then show ?thesis using step.hyps(1) y by blast
  next
    case (stop eid oid now)
    then show ?thesis using step.prems i
      by (auto simp: y wf_stop_def wf_inv_def split: phase.splits sum.splits)
  qed (use step y in \<open>auto simp: wf_signals wf_moves split: option.splits phase.splits sum.splits if_splits prod.splits segment.splits\<close>)
qed (simp add: wf_start_def)

lemma wf_start_inv [simp]: "wf_inv str q (wf_start, d)"
  by (simp add: wf_inv_def wf_start_def maximum_attempts_def)

lemma wf_step_keys: "wf_step str describe q x y \<Longrightarrow> set (wf_keys (fst x)) \<subseteq> set (wf_keys (fst y))"
  by (erule wf_stepE) (auto simp: wf_signals wf_moves
      split: option.splits prod.splits phase.splits sum.splits if_splits segment.splits)

lemma wf_steps_keys: "wf_steps str describe q x y \<Longrightarrow> set (wf_keys (fst x)) \<subseteq> set (wf_keys (fst y))"
  by (induction rule: rtranclp_induct) (use wf_step_keys in blast)+

text \<open>With a fresh identifier the activities that record the end of a run are accepted.\<close>

lemma fresh_delivery:
  obtains eid oid :: uuid where "eid \<notin> er_id ` set (t_events d)" "oid \<notin> ob_id ` set (t_outbox d)"
  by (meson ex_new_if_finite finite_imageI finite_set infinite_UNIV_listI)

lemma sink_fresh:
  assumes "log_inv d" "synced (c, d)" "ev_id (dl_event x) \<notin> er_id ` set (t_events d)"
    "dl_outbox x \<notin> ob_id ` set (t_outbox d)"
  obtains cd where "sink x (c\<lparr>conv_run := (conv_run c)\<lparr>state := st\<rparr>\<rparr>, d) = Inr cd"
proof -
  let ?c = "c\<lparr>conv_run := (conv_run c)\<lparr>state := st\<rparr>\<rparr>"
  from assms(2) obtain row where row: "db_get cr_id (conv_id c) (t_conversations d) = Some row"
    and c: "c = conversation_from_row row" by (auto simp: synced_def repo_get_conversation_def)
  have sq: "cr_last_seq row = last_seq (conv_run c)" by (simp add: c conversation_from_row_def)
  have "(conv_id c, cr_last_seq row + 1) \<notin> event_key ` set (t_events d)"
    using log_inv_seqs [OF assms(1) row] by fastforce
  then have "\<exists>d'. append_event (dl_outbox x) (dl_now x) (?c\<lparr>conv_run := event_to_state (dl_event x) (conv_run ?c)\<rparr>)
      ((dl_event x)\<lparr>ev_seq := last_seq (conv_run ?c) + 1\<rparr>) d = Inr d'"
    using assms(3,4) row sq by (simp add: append_event_def commit_event_Inr)
  then show thesis using that by (auto simp: sink_def Let_def)
qed

lemma fail_run_possible: "log_inv d \<Longrightarrow> \<exists>eid oid d'. fail_run str eid oid now q err d = Inr d'"
proof -
  assume i: "log_inv d"
  obtain eid oid where f: "eid \<notin> er_id ` set (t_events d)" "oid \<notin> ob_id ` set (t_outbox d)"
    using fresh_delivery by blast
  show ?thesis
  proof (cases "repo_get_conversation (rf_conversation q) d")
    case (Some c)
    obtain cd where "sink (failed_delivery str eid oid now err c) (c, d) = Inr cd"
      using sink_fresh [OF i repo_get_synced [OF Some], of "failed_delivery str eid oid now err c" "state (conv_run c)"] f
      by (auto simp: failed_delivery_def mk_event_def)
    then have "\<exists>d'. fail_run str eid oid now q err d = Inr d'"
      by (cases "terminal (state (conv_run c))") (auto simp: fail_run_def Some failed_delivery_def)
    then show ?thesis by blast
  qed (simp add: fail_run_def)
qed

lemma stop_runner_possible: "log_inv d \<Longrightarrow> \<exists>eid oid d'. stop_runner True eid oid now q d = Inr d'"
proof -
  assume i: "log_inv d"
  obtain eid oid where f: "eid \<notin> er_id ` set (t_events d)" "oid \<notin> ob_id ` set (t_outbox d)"
    using fresh_delivery by blast
  show ?thesis
  proof (cases "repo_get_conversation (rf_conversation q) d")
    case (Some c)
    let ?x = "\<lparr>dl_outbox = oid, dl_now = now,
      dl_event = mk_event eid now (run_id (conv_run c)) 0 ''run.cancelled'' [] ''agentsupport''\<rparr>"
    obtain cd where "sink ?x (c\<lparr>conv_run := (conv_run c)\<lparr>state := CANCELLED\<rparr>\<rparr>, d) = Inr cd"
      using sink_fresh [OF i repo_get_synced [OF Some], of ?x CANCELLED] f by (auto simp: mk_event_def)
    then have "\<exists>d'. stop_runner True eid oid now q d = Inr d'" by (simp add: stop_runner_def Some)
    then show ?thesis by blast
  qed (simp add: stop_runner_def)
qed

section \<open>Properties\<close>

text \<open>C25. The result of a workflow is durable. However signals, attempts of the segments and cancellations
  interleave, when the workflow returns the conversation is gone or its stored run is in a terminal state that
  agrees with the result: the state, result and error of the returned dictionary for a run that ended, \<open>CANCELLED\<close>
  for a cancelled one, \<open>FAILED\<close> with the reported message for a failed one. Only a workflow that fails after an
  attempt has already stored the end of the run differs: recording the failure then leaves everything as that
  attempt left it. No segment was attempted more than three times, and the event log is intact.\<close>

theorem workflow_result_durable:
  assumes "wf_steps str describe q (wf_start, d) (w, d')" "log_inv d"
  shows "log_inv d' \<and> (\<forall>r. wf_phase w = Done r \<longrightarrow> result_ok str q r d'
        \<or> (\<exists>m w1. r = RFailed m \<and> wf_steps str describe q (wf_start, d) (w1, d') \<and> wf_phase w1 = Failing m
             \<and> already_ended q d'))
    \<and> (\<forall>r c. wf_phase w = Done r \<and> repo_get_conversation (rf_conversation q) d' = Some c
         \<longrightarrow> terminal (state (conv_run c)))
    \<and> (\<forall>n p. wf_phase w = Running n p \<longrightarrow> n < 3)"
proof -
  from wf_steps_inv [OF assms(1)] assms(2) have i: "wf_inv str q (w, d')" "log_inv d'" by simp_all
  have d: "result_ok str q r d' \<or> (\<exists>m w1. r = RFailed m \<and> wf_steps str describe q (wf_start, d) (w1, d')
      \<and> wf_phase w1 = Failing m \<and> already_ended q d')" if "wf_phase w = Done r" for r
  proof (cases r)
    case (RFailed m)
    then show ?thesis using failure_recorded [OF assms] that fail_run_result by fastforce
  qed (use i(1) that in \<open>auto simp: wf_inv_def\<close>)
  have "terminal (state (conv_run c))" if "wf_phase w = Done r" "repo_get_conversation (rf_conversation q) d' = Some c" for r c
    using d [OF that(1)] that(2) by (cases r) (auto simp: result_ok_def already_ended_def)
  moreover have "\<forall>n p. wf_phase w = Running n p \<longrightarrow> n < 3" using i(1) by (auto simp: wf_inv_def maximum_attempts_def)
  ultimately show ?thesis using d i(2) by blast
qed

theorem workflow_result_durable_witness:
  "\<exists>w d' c. wf_steps (\<lambda>_. []) (\<lambda>_. []) demo_ref (wf_start, demo_run_db) (w, d') \<and> wf_phase w = Done RCancelled
     \<and> repo_get_conversation ''c1'' d' = Some c \<and> state (conv_run c) = CANCELLED"
proof -
  let ?b = "\<lparr>bh_deliveries = [], bh_error = Some ''gone'', bh_checkpoint = Inl []\<rparr>"
  let ?S = "wf_step (\<lambda>_. []) (\<lambda>_. []) demo_ref"
  let ?w1 = "wf_cancel_run wf_start"
  let ?w2 = "?w1\<lparr>wf_phase := Cancelling False\<rparr>"
  let ?w3 = "wf_segment_done SegCancelled ?w2"
  let ?w4 = "?w3\<lparr>wf_phase := Done RCancelled, wf_status := ''cancelled''\<rparr>"
  have q: "rf_conversation demo_ref = ''c1''" by (simp add: demo_ref_def)
  have s1: "?S (wf_start, demo_run_db) (?w1, demo_run_db)" by (rule wf_step.cancel)
  have ex: "snd (segment_attempt [] [] 0 demo_ref None ?b demo_run_db) = demo_run_db"
    by (simp add: segment_attempt_def execute_run_def drive_def split: option.split)
  have s2: "?S (?w1, demo_run_db) (?w2, demo_run_db)"
    by (rule wf_step.cancel_segment [of "[]" "[]" 0 demo_ref ?b])
      (simp add: wf_cancel_segment_def wf_cancel_run_def wf_start_def ex)
  obtain eid oid d' where st: "stop_runner True eid oid 0 demo_ref demo_run_db = Inr d'"
    using stop_runner_possible [OF demo_run_inv] by blast
  have s3: "?S (?w2, demo_run_db) (?w3, d')"
    by (rule wf_step.finish_cancelled [of eid oid 0]) (simp add: wf_finish_cancelled_def st)
  have s4: "?S (?w3, d') (?w4, d')"
    by (rule wf_step.stop [of "[]" "[]" 0]) (simp add: wf_stop_def stop_runner_def wf_segment_done_def result_status_def)
  from s1 s2 s3 s4 have p: "?S\<^sup>*\<^sup>* (wf_start, demo_run_db) (?w4, d')"
    by (meson converse_rtranclp_into_rtranclp rtranclp.rtrancl_refl)
  have "result_ok (\<lambda>_. []) demo_ref RCancelled d'"
    using workflow_result_durable [OF p demo_run_inv] by simp
  moreover obtain c where "repo_get_conversation ''c1'' d' = Some c"
    using stop_runner_row [of demo_ref demo_run_db demo_conv] st demo_run_get(1) q by fastforce
  ultimately show ?thesis using p q by (intro exI [of _ ?w4] exI [of _ d'] exI [of _ c]) (simp add: result_ok_def)
qed

text \<open>C26. A workflow is never stuck. From every reachable state that is not final, except a gate nobody has
  answered or cancelled, some continuation moves the workflow to another phase: in particular the record of
  a failure or of a cancellation is always accepted with a fresh identifier.\<close>

theorem workflow_progress:
  assumes "wf_steps str describe q (wf_start, d0) (w, d)" "log_inv d0"
    "\<And>r. wf_phase w \<noteq> Done r"
    "\<And>k. wf_phase w = Gate k \<Longrightarrow> wf_input w \<noteq> None \<or> wf_approval w \<noteq> None \<or> wf_cancel w"
  shows "\<exists>w' d'. wf_step str describe q (w, d) (w', d') \<and> wf_phase w' \<noteq> wf_phase w"
proof (cases "wf_phase w")
  case (Running n p)
  let ?b = "\<lparr>bh_deliveries = [], bh_error = Some ''unavailable'', bh_checkpoint = Inl []\<rparr>"
  have "wf_attempt describe [] [] 0 q ?b (w, d) \<noteq> None"
    by (simp add: wf_attempt_def Running split: prod.split sum.split)
  then obtain y where y: "wf_attempt describe [] [] 0 q ?b (w, d) = Some y" by blast
  then have "wf_phase (fst y) \<noteq> wf_phase w"
    by (auto simp: wf_attempt_def wf_segment_done_def Running split: prod.splits sum.splits if_splits segment.splits)
  then show ?thesis using wf_step.attempt [OF y] by (metis prod.collapse)
next
  case (Gate k)
  from assms(4) [OF Gate] obtain w' where w': "wf_gate w = Some w'" "wf_phase w' \<noteq> wf_phase w"
    by (cases "wf_cancel w"; cases "wf_input w"; cases "wf_approval w") (auto simp: wf_gate_def Gate)
  then show ?thesis using wf_step.gate by blast
next
  case (Cancelling g)
  from wf_steps_inv [OF assms(1)] assms(2) have "log_inv d" by simp
  then obtain eid oid d' where "stop_runner True eid oid 0 q d = Inr d'" using stop_runner_possible by blast
  then have "\<exists>w'. wf_finish_cancelled eid oid 0 q (w, d) = Some (w', d') \<and> wf_phase w' \<noteq> wf_phase w"
    by (simp add: wf_finish_cancelled_def Cancelling wf_segment_done_def)
  then show ?thesis using wf_step.finish_cancelled by blast
next
  case (Stopping r)
  then have "\<exists>w'. wf_stop [] [] 0 q (w, d) = Some (w', d) \<and> wf_phase w' \<noteq> wf_phase w"
    by (simp add: wf_stop_def stop_runner_def)
  then show ?thesis using wf_step.stop by blast
next
  case (Failing m)
  from wf_steps_inv [OF assms(1)] assms(2) have "log_inv d" by simp
  then obtain eid oid d' where
    "fail_run str eid oid 0 q [(''code'', JStr ''WORKFLOW_FAILED''), (''message'', JStr m)] d = Inr d'"
    using fail_run_possible by blast
  then have "\<exists>w'. wf_fail str eid oid 0 q (w, d) = Some (w', d') \<and> wf_phase w' \<noteq> wf_phase w"
    by (simp add: wf_fail_def Failing)
  then show ?thesis using wf_step.fail by blast
qed (use assms(3) in simp)

theorem workflow_progress_witness:
  "\<exists>w' d'. wf_step (\<lambda>_. []) (\<lambda>_. []) demo_ref (wf_start, demo_run_db) (w', d') \<and> wf_phase w' \<noteq> Running 0 None"
  using workflow_progress [of "\<lambda>_. []" "\<lambda>_. []" demo_ref demo_run_db wf_start demo_run_db] demo_run_inv
  by (simp add: wf_start_def)

text \<open>A keyed signal has its effect once. After a signal with an idempotency key was handled, and whatever
  happened since, another input or approval with the same key leaves the workflow unchanged.\<close>

theorem workflow_signal_once:
  assumes "wf_steps str describe q (wf_submit_input i v (Some key) w, d) (w', d')"
  shows "wf_submit_input i' v' (Some key) w' = w' \<and> wf_submit_approval i' s' (Some key) w' = w'"
proof -
  have "key \<in> set (wf_keys (wf_submit_input i v (Some key) w))" by (simp add: wf_submit_input_def)
  then have "key \<in> set (wf_keys w')" using wf_steps_keys [OF assms] by auto
  then show ?thesis by (simp add: wf_submit_input_def wf_submit_approval_def)
qed

theorem workflow_signal_once_witness:
  "wf_submit_approval ''a'' ''approve'' (Some ''k'') (wf_submit_input ''i'' JNull (Some ''k'') wf_start) =
     wf_submit_input ''i'' JNull (Some ''k'') wf_start"
  using workflow_signal_once [of "\<lambda>_. []" "\<lambda>_. []" demo_ref "''i''" JNull "''k''" wf_start demo_run_db
      "wf_submit_input ''i'' JNull (Some ''k'') wf_start" demo_run_db] by simp

text \<open>C27. An answer that was not consumed at its gate is consumed at the next one. When an input and an
  approval both wait at a gate, the gate continues with the input and keeps the approval; if an attempt of that segment
  ends at a new gate, the condition of the new gate holds at once, without any signal in between, and the workflow
  resumes the run with the old approval, whatever interaction the new gate asks about.\<close>

theorem leftover_approval_answers_next_gate:
  assumes "wf_phase w = Gate k1" "\<not> wf_cancel w" "wf_input w = Some (i, v)" "wf_approval w = Some (a, s)"
    "segment_attempt eid oid now q (Some (k1, InputDecision i v)) b d = (Inr (Waiting k2), d')"
  shows "case wf_gate w of None \<Rightarrow> False | Some w1 \<Rightarrow> wf_phase w1 = Running 0 (Some (k1, InputDecision i v)) \<and>
    (case wf_attempt describe eid oid now q b (w1, d) of None \<Rightarrow> False | Some (w2, d2) \<Rightarrow> d2 = d' \<and> wf_phase w2 = Gate k2 \<and>
      (case wf_gate w2 of None \<Rightarrow> False | Some w3 \<Rightarrow>
         wf_phase w3 = Running 0 (Some (k2, ApprovalDecided a s)) \<and> wf_approval w3 = None \<and> wf_keys w3 = wf_keys w))"
  using assms by (simp add: wf_gate_def wf_attempt_def wf_segment_done_def)

text \<open>A run whose answer to one gate leads to another.\<close>

definition demo_checkpoint :: "uuid \<Rightarrow> checkpoint" where
  "demo_checkpoint k = \<lparr>cp_id = k, cp_conversation = ''c1'', cp_run_id = ''r1'', cp_last_event_seq = 0,
     cp_context_bundle = \<lparr>cb_task = [], cb_conversation = ''c1'', cb_workspace_ref = [], cb_recent_events = [],
       cb_skill_catalog = [], cb_tool_policy = [], cb_mcp_refs = []\<rparr>, cp_pending_interaction = None,
     cp_pending_tool_calls = [], cp_tool_batch_hash = None, cp_tool_policy_hash = None, cp_tool_versions_hash = None,
     cp_workspace_ref = [], cp_workspace_write_lease_epoch = 0, cp_core_type = ''fake'', cp_core_version = ''1'',
     cp_context_bundle_hash = [], cp_created_at = 0\<rparr>"

definition demo_gate_db :: db where
  "demo_gate_db = demo_run_db\<lparr>t_checkpoints := [checkpoint_to_row (demo_checkpoint ''k1'')]\<rparr>"

definition demo_second_gate :: behaviour where
  "demo_second_gate = \<lparr>bh_deliveries = [\<lparr>dl_outbox = ''o2'', dl_now = 6,
     dl_event = mk_event ''e2'' 6 ''r1'' 0 ''interaction.requested'' [(''interaction_id'', JStr ''other'')] ''runner''\<rparr>],
     bh_error = None, bh_checkpoint = Inr (demo_checkpoint ''k2'')\<rparr>"

definition demo_waiting :: wf where
  "demo_waiting = wf_start\<lparr>wf_phase := Gate ''k1'', wf_input := Some (''i'', JNull), wf_approval := Some (''a'', ''approve'')\<rparr>"

lemma demo_resume:
  "\<exists>d'. segment_attempt ''e1'' ''o1'' 5 demo_ref (Some (''k1'', InputDecision ''i'' JNull)) demo_second_gate demo_gate_db =
     (Inr (Waiting ''k2''), d')"
proof -
  let ?ev = "decision_event ''e1'' 5 (run_id (conv_run demo_conv)) (InputDecision ''i'' JNull)"
  let ?x1 = "\<lparr>dl_outbox = ''o1'', dl_now = 5, dl_event = ?ev\<rparr>"
  let ?x2 = "hd (bh_deliveries demo_second_gate)"
  have t: "t_conversations demo_gate_db = t_conversations demo_run_db" "t_events demo_gate_db = []" "t_outbox demo_gate_db = []"
    by (simp_all add: demo_gate_db_def demo_run_db_def demo_db_def)
  have i: "log_inv demo_gate_db"
    using demo_run_inv log_inv_tables [of demo_gate_db demo_run_db] by (simp add: t demo_run_db_def demo_db_def)
  have get: "repo_get_conversation ''c1'' demo_gate_db = Some demo_conv"
    using demo_run_get(1) by (simp add: repo_get_conversation_def t)
  have res: "repo_get_session 5 ''s1'' demo_gate_db \<noteq> None" "repo_get_workspace ''w1'' demo_gate_db \<noteq> None"
    using demo_run_get(2,3) by (simp_all add: repo_get_session_def repo_get_workspace_def demo_gate_db_def)
  have cp: "repo_get_checkpoint ''k1'' demo_gate_db = Inr (Some (demo_checkpoint ''k1''))"
    by (simp add: repo_get_checkpoint_def demo_gate_db_def db_get_Cons checkpoint_to_row_def demo_checkpoint_def
        checkpoint_from_row_def pending_calls_of_def obj_get_def batch_hash_of_def column_or_policy_def str_true_def or_else_def)
  have "ev_id (dl_event ?x1) \<notin> er_id ` set (t_events demo_gate_db)" "dl_outbox ?x1 \<notin> ob_id ` set (t_outbox demo_gate_db)"
    by (simp_all add: t)
  from sink_fresh [OF i repo_get_synced [OF get] this, of RUNNING] obtain c1 d1 where
    s1: "sink ?x1 (demo_conv\<lparr>conv_run := (conv_run demo_conv)\<lparr>state := RUNNING\<rparr>\<rparr>, demo_gate_db) = Inr (c1, d1)"
    by (metis surj_pair)
  have y1: "synced (c1, d1)" "conv_id c1 = ''c1''"
    using sink_row [OF s1, of demo_conv RUNNING] get by (simp_all add: demo_conv_def)
  have "t_events d1 = [event_to_row ''c1'' (?ev\<lparr>ev_seq := 1\<rparr>)]" "map ob_id (t_outbox d1) = [''o1'']"
    using sink_append [OF s1]
    by (auto simp: append_event_def commit_event_Inr t demo_conv_def new_run_def outbox_of_def)
  then have f: "fresh [?x2] d1"
    by (auto simp: fresh_def demo_second_gate_def mk_event_def event_to_row_def decision_event_def dest: arg_cong [of _ _ set])
  have k1: "t_checkpoints d1 = t_checkpoints demo_gate_db"
    using sink_append [OF s1] by (auto simp: append_event_def commit_event_Inr)
  obtain d2 where s2: "sink ?x2 (c1, d1) = Inr (c1\<lparr>conv_run := project_one ?x2 (conv_run c1)\<rparr>, d2)"
    using sink_accepts [OF sink_keeps [OF s1 i] y1(1) f] by blast
  have "repo_get_conversation ''c1'' d2 = Some (c1\<lparr>conv_run := project_one ?x2 (conv_run c1)\<rparr>)"
    using sink_synced [OF s2 y1(1)] y1(2) by (simp add: synced_def)
  moreover have "state (project_one ?x2 (conv_run c1)) = WAITING_INPUT"
    by (simp add: project_one_def event_to_state_def demo_second_gate_def mk_event_def)
  moreover have "\<exists>d'. save_checkpoint (demo_checkpoint ''k2'') d2 = Inr d'"
    using sink_append [OF s2] k1
    by (auto simp: append_event_def commit_event_Inr save_checkpoint_def db_add_def demo_gate_db_def checkpoint_to_row_def
        demo_checkpoint_def)
  ultimately have "\<exists>d'. after_segment demo_second_gate ''c1'' d2 = (Inr (Waiting ''k2''), d')"
    by (auto simp: after_segment_def demo_second_gate_def) (simp add: demo_checkpoint_def)
  moreover have "drive demo_second_gate (c1, d1) = after_segment demo_second_gate ''c1'' d2"
    using s2 y1(2) by (simp add: drive_def demo_second_gate_def)
  ultimately show ?thesis
    using get res cp s1 by (auto simp: segment_attempt_def resume_run_def demo_ref_def)
qed

theorem leftover_approval_answers_next_gate_witness:
  "case wf_gate demo_waiting of None \<Rightarrow> False | Some w1 \<Rightarrow>
    (case wf_attempt (\<lambda>_. []) ''e1'' ''o1'' 5 demo_ref demo_second_gate (w1, demo_gate_db) of None \<Rightarrow> False | Some (w2, d2) \<Rightarrow>
      (case wf_gate w2 of None \<Rightarrow> False | Some w3 \<Rightarrow>
         wf_phase w3 = Running 0 (Some (''k2'', ApprovalDecided ''a'' ''approve''))))"
proof -
  obtain d' where s: "segment_attempt ''e1'' ''o1'' 5 demo_ref (Some (''k1'', InputDecision ''i'' JNull)) demo_second_gate
    demo_gate_db = (Inr (Waiting ''k2''), d')" using demo_resume by blast
  have "wf_phase demo_waiting = Gate ''k1''" "\<not> wf_cancel demo_waiting" "wf_input demo_waiting = Some (''i'', JNull)"
    "wf_approval demo_waiting = Some (''a'', ''approve'')" by (simp_all add: demo_waiting_def wf_start_def)
  from leftover_approval_answers_next_gate [OF this s, of "\<lambda>_. []"] show ?thesis by (auto split: option.splits)
qed

end
