(* ===== verification/Control_Plane.thy ===== *)
theory Control_Plane
  imports Repo_Log Repo_Admin
begin

text \<open>
  Operations of the application service that face the API, in Temporal mode (a repository is required there and
  is authoritative): idempotency, the tool policy of a run, the answers to interactions and
  cancellation, and the catalogue of MCP servers. An operation returns its result or error together with the new
  state, because an exception does not undo what was already sent or committed. \<open>accepts\<close> says
  which calls the Temporal client delivers without raising; \<open>hash\<close> is \<open>_hash_request\<close>.

  The in-memory copies of resources are not consulted in Temporal mode and are left out, except the idempotency
  records.
\<close>

section \<open>State\<close>

datatype temporal_call =
    SignalInput uuid string json "string option"
  | SignalApproval uuid string string "string option"
  | SignalCancel uuid

record idempotency_record =
  ir_request_hash :: string
  ir_resource :: uuid
  ir_created_at :: time

type_synonym idem_cache = "((string \<times> string) \<times> idempotency_record) list"

record svc =
  sv_db :: db
  sv_idem :: idem_cache
  sv_calls :: "temporal_call list"

section \<open>Idempotency\<close>

definition svc_idempotent :: "idem_cache \<Rightarrow> string \<Rightarrow> string option \<Rightarrow> string \<Rightarrow> service_error + uuid option" where
  "svc_idempotent m scope key h = (case key of None \<Rightarrow> Inr None | Some k \<Rightarrow>
     if k = [] then Inr None
     else (case map_of m (scope, k) of
         None \<Rightarrow> Inr None
       | Some r \<Rightarrow> if ir_request_hash r \<noteq> h then Inl (ServiceError ''IDEMPOTENCY_CONFLICT'' 409)
                   else Inr (Some (ir_resource r))))"

definition svc_remember :: "time \<Rightarrow> string \<Rightarrow> string option \<Rightarrow> string \<Rightarrow> uuid \<Rightarrow> idem_cache \<Rightarrow> idem_cache" where
  "svc_remember now scope key h rid m = (case key of None \<Rightarrow> m | Some k \<Rightarrow>
     if k = [] then m
     else AList.update (scope, k) \<lparr>ir_request_hash = h, ir_resource = rid, ir_created_at = now\<rparr> m)"

definition svc_remember_persisted :: "time \<Rightarrow> string \<Rightarrow> string option \<Rightarrow> string \<Rightarrow> uuid \<Rightarrow> svc \<Rightarrow> (service_error + unit) \<times> svc" where
  "svc_remember_persisted now scope key h rid s =
     (let s1 = s\<lparr>sv_idem := svc_remember now scope key h rid (sv_idem s)\<rparr> in
      if \<not> str_true key then (Inr (), s1)
      else (case remember_idempotent now scope key h rid (sv_db s1) of
          Inl (RepositoryConflict _) \<Rightarrow> (Inl (ServiceError ''IDEMPOTENCY_CONFLICT'' 409), s1)
        | Inl e \<Rightarrow> (Inl (Raised e), s1)
        | Inr d \<Rightarrow> (Inr (), s1\<lparr>sv_db := d\<rparr>)))"

text \<open>The idempotency part of \<open>prune_retained_state\<close>; the checkpoints it also drops are cached only outside Temporal mode.\<close>

definition prune_idempotency :: "int \<Rightarrow> time \<Rightarrow> idem_cache \<Rightarrow> idem_cache" where
  "prune_idempotency window now m = filter (\<lambda>(_, r). \<not> ir_created_at r < now - hours window) m"

section \<open>Tool policies\<close>

definition SILENT_MODE_TOOLS :: "string list" where
  "SILENT_MODE_TOOLS = [''bash'', ''str_replace_based_edit_tool'', ''json_edit_tool'', ''word_edit_tool'',
     ''excel_edit_tool'', ''pdf_tool'', ''document_convert_tool'', ''task_done'']"

definition ASK_USER_TOOL :: string where
  "ASK_USER_TOOL = ''ask_user''"

definition default_tool_policy :: obj where
  "default_tool_policy = [
     (''allowed_tools'', JArr (map JStr [''bash'', ''str_replace_based_edit_tool'', ''json_edit_tool'', ''word_edit_tool'',
        ''excel_edit_tool'', ''pdf_tool'', ''document_convert_tool'', ''sequentialthinking'', ''task_done''])),
     (''approval_required_tools'', JArr (map JStr [''bash'', ''str_replace_based_edit_tool'', ''json_edit_tool'',
        ''word_edit_tool'', ''excel_edit_tool'', ''pdf_tool'', ''document_convert_tool'']))]"

definition tool_policy_for_session :: "session \<Rightarrow> obj" where
  "tool_policy_for_session s = (case sess_config s of
       None \<Rightarrow> default_tool_policy
     | Some cfg \<Rightarrow>
         if \<not> is_empty cfg
            \<and> (truthy (obj_get (tool_policy_dict cfg) ''allowed_tools'' JNull)
               \<or> truthy (obj_get (tool_policy_dict cfg) ''approval_required_tools'' JNull))
         then tool_policy_dict cfg
         else default_tool_policy)"

fun mode_value :: "conversation_mode \<Rightarrow> string" where
  "mode_value DEFAULT = ''default''"
| "mode_value NO_APPROVAL = ''no_approval''"
| "mode_value SILENT = ''silent''"

text \<open>\<open>prompt\<close> is the constant \<open>_GENERATION_PROMPT\<close>.\<close>

definition is_skill_generation_task :: "string \<Rightarrow> string \<Rightarrow> bool" where
  "is_skill_generation_task prompt task = (task \<noteq> [] \<and> py_startswith task prompt)"

definition tool_policy_for_conversation :: "string \<Rightarrow> conversation \<Rightarrow> session \<Rightarrow> obj" where
  "tool_policy_for_conversation prompt c s =
     (let policy = tool_policy_for_session s in
      case conv_mode c of
        DEFAULT \<Rightarrow> policy
      | NO_APPROVAL \<Rightarrow> AList.update ''mode'' (JStr (mode_value NO_APPROVAL))
          (AList.update ''approval_required_tools'' (JArr []) policy)
      | SILENT \<Rightarrow>
          (let allowed = SILENT_MODE_TOOLS @ (if is_skill_generation_task prompt (conv_task c) then [ASK_USER_TOOL] else []) in
           AList.update ''mode'' (JStr (mode_value SILENT)) (AList.update ''approval_required_tools'' (JArr [])
             (AList.update ''allowed_tools'' (JArr (map JStr allowed)) policy))))"

section \<open>Interactions\<close>

definition svc_conversation :: "uuid \<Rightarrow> svc \<Rightarrow> service_error + conversation" where
  "svc_conversation cid s = (case repo_get_conversation cid (sv_db s) of
       None \<Rightarrow> Inl (ServiceError ''CONVERSATION_NOT_FOUND'' 404)
     | Some c \<Rightarrow> Inr c)"

definition check_expected_seq :: "conversation \<Rightarrow> int option \<Rightarrow> service_error option" where
  "check_expected_seq c expected = (case expected of None \<Rightarrow> None | Some n \<Rightarrow>
     if n \<noteq> last_seq (conv_run c) then Some (ServiceError ''CONFLICT'' 409) else None)"

definition check_interaction :: "conversation \<Rightarrow> string \<Rightarrow> service_error option" where
  "check_interaction c iid =
     (if state (conv_run c) \<noteq> WAITING_INPUT \<and> state (conv_run c) \<noteq> PAUSED
         \<or> or_else (pending_interaction (conv_run c)) [] = []
      then Some (ServiceError ''INVALID_STATE'' 409)
      else if obj_get (or_else (pending_interaction (conv_run c)) []) ''interaction_id'' JNull \<noteq> JStr iid
      then Some (ServiceError ''INTERACTION_NOT_FOUND'' 409)
      else None)"

definition opt_int :: "int option \<Rightarrow> json" where
  "opt_int n = (case n of None \<Rightarrow> JNull | Some i \<Rightarrow> JInt i)"

definition send :: "(temporal_call \<Rightarrow> bool) \<Rightarrow> temporal_call \<Rightarrow> svc \<Rightarrow> (service_error + unit) \<times> svc" where
  "send accepts call s = (if accepts call then (Inr (), s\<lparr>sv_calls := sv_calls s @ [call]\<rparr>)
     else (Inl (ServiceError ''TEMPORAL_SIGNAL_FAILED'' 409), s))"

text \<open>
  What \<open>submit_input\<close> and \<open>submit_approval\<close> do after the conversation was read: look the key up in the
  repository, check the sequence number and the interaction, signal the workflow, remember the key.
\<close>

definition answer :: "(temporal_call \<Rightarrow> bool) \<Rightarrow> bool \<Rightarrow> time \<Rightarrow> string \<Rightarrow> string \<Rightarrow> temporal_call \<Rightarrow> conversation \<Rightarrow> string
    \<Rightarrow> int option \<Rightarrow> string option \<Rightarrow> svc \<Rightarrow> (service_error + conversation) \<times> svc" where
  "answer accepts temporal now scope h call c iid expected key s =
     (if \<not> temporal then (Inl (ServiceError ''TEMPORAL_UNAVAILABLE'' 503), s)
      else case (if str_true key then find_idempotent (sv_db s) scope key h else Inr None) of
        Inl e \<Rightarrow> (Inl (Raised e), s)
      | Inr (Some existing) \<Rightarrow> (svc_conversation existing s, s)
      | Inr None \<Rightarrow>
          (case check_expected_seq c expected of Some e \<Rightarrow> (Inl e, s) | None \<Rightarrow>
           (case check_interaction c iid of Some e \<Rightarrow> (Inl e, s) | None \<Rightarrow>
            (case send accepts call s of
               (Inl e, s1) \<Rightarrow> (Inl e, s1)
             | (Inr _, s1) \<Rightarrow>
                 (case svc_remember_persisted now scope key h (conv_id c) s1 of
                    (Inl e, s2) \<Rightarrow> (Inl e, s2)
                  | (Inr _, s2) \<Rightarrow> (Inr c, s2))))))"

definition submit_input :: "(obj \<Rightarrow> string) \<Rightarrow> (temporal_call \<Rightarrow> bool) \<Rightarrow> bool \<Rightarrow> time \<Rightarrow> uuid \<Rightarrow> string \<Rightarrow> json
    \<Rightarrow> int option \<Rightarrow> string option \<Rightarrow> svc \<Rightarrow> (service_error + conversation) \<times> svc" where
  "submit_input hash accepts temporal now cid iid v expected key s =
     (case svc_conversation cid s of
        Inl e \<Rightarrow> (Inl e, s)
      | Inr c \<Rightarrow> answer accepts temporal now ''input''
          (hash [(''conversation_id'', JStr cid), (''interaction_id'', JStr iid), (''value'', v),
                 (''expected_seq'', opt_int expected)])
          (SignalInput (run_id (conv_run c)) iid v key) c iid expected key s)"

definition submit_approval :: "(obj \<Rightarrow> string) \<Rightarrow> (temporal_call \<Rightarrow> bool) \<Rightarrow> bool \<Rightarrow> time \<Rightarrow> uuid \<Rightarrow> string \<Rightarrow> string
    \<Rightarrow> int option \<Rightarrow> string option \<Rightarrow> svc \<Rightarrow> (service_error + conversation) \<times> svc" where
  "submit_approval hash accepts temporal now cid aid dec expected key s =
     (if dec \<noteq> ''APPROVE_ONCE'' \<and> dec \<noteq> ''REJECT'' then (Inl (ServiceError ''INVALID_DECISION'' 422), s)
      else case svc_conversation cid s of
        Inl e \<Rightarrow> (Inl e, s)
      | Inr c \<Rightarrow> answer accepts temporal now ''approval''
          (hash [(''conversation_id'', JStr cid), (''approval_id'', JStr aid), (''decision'', JStr dec),
                 (''expected_seq'', opt_int expected)])
          (SignalApproval (run_id (conv_run c)) aid dec key) c aid expected key s)"

text \<open>\<open>cancel\<close> does not look its key up: a repeated request is signalled again.\<close>

definition cancel_conversation :: "(obj \<Rightarrow> string) \<Rightarrow> (temporal_call \<Rightarrow> bool) \<Rightarrow> bool \<Rightarrow> time \<Rightarrow> uuid
    \<Rightarrow> int option \<Rightarrow> string option \<Rightarrow> svc \<Rightarrow> (service_error + conversation) \<times> svc" where
  "cancel_conversation hash accepts temporal now cid expected key s =
     (case svc_conversation cid s of
        Inl e \<Rightarrow> (Inl e, s)
      | Inr c \<Rightarrow>
          (let h = hash [(''conversation_id'', JStr cid), (''expected_seq'', opt_int expected)];
               finish = (\<lambda>s1. case svc_remember_persisted now ''cancel'' key h (conv_id c) s1 of
                   (Inl e, s2) \<Rightarrow> (Inl e, s2) | (Inr _, s2) \<Rightarrow> (Inr c, s2)) in
           if \<not> temporal then (Inl (ServiceError ''TEMPORAL_UNAVAILABLE'' 503), s)
           else if terminal (state (conv_run c)) then finish s
           else (case check_expected_seq c expected of Some e \<Rightarrow> (Inl e, s) | None \<Rightarrow>
             (case send accepts (SignalCancel (run_id (conv_run c))) s of
                (Inl e, s1) \<Rightarrow> (Inl e, s1)
              | (Inr _, s1) \<Rightarrow> finish s1))))"

section \<open>MCP servers\<close>

definition mcp_id_char :: "char \<Rightarrow> bool" where
  "mcp_id_char ch = (is_alnum_ascii ch \<or> ch = CHR ''.'' \<or> ch = CHR ''_'' \<or> ch = CHR ''-'')"

definition valid_mcp_server_id :: "string \<Rightarrow> bool" where
  "valid_mcp_server_id sid = (case sid of [] \<Rightarrow> False | ch # rest \<Rightarrow> is_alnum_ascii ch \<and> list_all mcp_id_char rest)"

definition mcp_server_id_of :: "json \<Rightarrow> service_error + string" where
  "mcp_server_id_of ref = (case ref of
       JStr sid \<Rightarrow> Inr sid
     | JObj o' \<Rightarrow> (case obj_get o' ''server_id'' JNull of
           JStr sid \<Rightarrow> if sid \<noteq> [] then Inr sid else Inl (ServiceError ''MCP_REF_INVALID'' 422)
         | _ \<Rightarrow> Inl (ServiceError ''MCP_REF_INVALID'' 422))
     | _ \<Rightarrow> Inl (ServiceError ''MCP_REF_INVALID'' 422))"

definition get_mcp_server :: "string \<Rightarrow> db \<Rightarrow> service_error + mcp_server" where
  "get_mcp_server sid d = (case repo_get_mcp_server sid d of
       None \<Rightarrow> Inl (ServiceError ''MCP_SERVER_NOT_FOUND'' 404)
     | Some m \<Rightarrow> Inr m)"

fun validate_mcp_refs :: "json list \<Rightarrow> db \<Rightarrow> service_error option" where
  "validate_mcp_refs [] d = None"
| "validate_mcp_refs (ref # refs) d = (case mcp_server_id_of ref of
       Inl e \<Rightarrow> Some e
     | Inr sid \<Rightarrow> (case get_mcp_server sid d of
           Inl e \<Rightarrow> Some e
         | Inr m \<Rightarrow> if mcp_enabled m then validate_mcp_refs refs d else Some (ServiceError ''MCP_SERVER_DISABLED'' 422)))"

text \<open>\<open>server\<close> holds the arguments of the request; its two time stamps are the time of the call.\<close>

definition create_mcp_server :: "mcp_server \<Rightarrow> db \<Rightarrow> service_error + (mcp_server \<times> db)" where
  "create_mcp_server m d =
     (if \<not> valid_mcp_server_id (mcp_server_id m) then Inl (ServiceError ''MCP_SERVER_INVALID'' 422)
      else if mcp_transport m \<notin> set SUPPORTED_TRANSPORTS then Inl (ServiceError ''MCP_TRANSPORT_UNSUPPORTED'' 422)
      else if mcp_transport m = ''http'' \<and> \<not> str_true (mcp_http_url m) then Inl (ServiceError ''MCP_SERVER_INVALID'' 422)
      else if mcp_transport m = ''sse'' \<and> \<not> str_true (mcp_sse_url m) then Inl (ServiceError ''MCP_SERVER_INVALID'' 422)
      else if mcp_transport m = ''stdio'' \<and> \<not> str_true (mcp_command m) then Inl (ServiceError ''MCP_SERVER_INVALID'' 422)
      else Inr (m, save_mcp_server m d))"

record mcp_patch =
  mp_name :: "string option"
  mp_http_url :: "string option"
  mp_sse_url :: "string option"
  mp_headers :: "(string \<times> string) list option"
  mp_command :: "string option"
  mp_args :: "string list option"
  mp_env :: "(string \<times> string) list option"
  mp_cwd :: "string option"
  mp_description :: "string option"
  mp_enabled :: "bool option"

definition given :: "'a option \<Rightarrow> 'a option \<Rightarrow> 'a option" where
  "given new old = (case new of None \<Rightarrow> old | Some _ \<Rightarrow> new)"

definition update_mcp_server :: "string \<Rightarrow> mcp_patch \<Rightarrow> db \<Rightarrow> service_error + (mcp_server \<times> db)" where
  "update_mcp_server sid p d = (case get_mcp_server sid d of
       Inl e \<Rightarrow> Inl e
     | Inr m \<Rightarrow>
         (let m' = m\<lparr>mcp_name := or_else (mp_name p) (mcp_name m), mcp_http_url := given (mp_http_url p) (mcp_http_url m),
            mcp_sse_url := given (mp_sse_url p) (mcp_sse_url m), mcp_headers := or_else (mp_headers p) (mcp_headers m),
            mcp_command := given (mp_command p) (mcp_command m), mcp_args := or_else (mp_args p) (mcp_args m),
            mcp_env := or_else (mp_env p) (mcp_env m), mcp_cwd := given (mp_cwd p) (mcp_cwd m),
            mcp_description := or_else (mp_description p) (mcp_description m),
            mcp_enabled := or_else (mp_enabled p) (mcp_enabled m)\<rparr> in
          Inr (m', save_mcp_server m' d)))"

definition delete_mcp_server :: "string \<Rightarrow> db \<Rightarrow> service_error + db" where
  "delete_mcp_server sid d = (let (removed, d') = repo_delete_mcp_server sid d in
     if removed then Inr d' else Inl (ServiceError ''MCP_SERVER_NOT_FOUND'' 404))"

section \<open>The interface of an idempotency store\<close>

text \<open>A store answers a key it has not seen with nothing, a key with the same request with the resource of the first
  request, and the same key with another request with an error.\<close>

locale idempotency_store =
  fixes look :: "'s \<Rightarrow> string \<Rightarrow> string option \<Rightarrow> string \<Rightarrow> 'e + uuid option"
    and remember :: "time \<Rightarrow> string \<Rightarrow> string option \<Rightarrow> string \<Rightarrow> uuid \<Rightarrow> 's \<Rightarrow> 'e + 's"
  assumes look_unkeyed: "\<not> str_true key \<Longrightarrow> look s scope key h = Inr None"
    and look_same: "remember now scope key h rid s = Inr s' \<Longrightarrow> look s scope key h = Inr None \<Longrightarrow> str_true key
      \<Longrightarrow> look s' scope key h = Inr (Some rid)"
    and look_conflict: "look s scope key h = Inr (Some rid) \<Longrightarrow> h' \<noteq> h \<Longrightarrow> \<exists>e. look s scope key h' = Inl e"
    and look_other: "remember now scope key h rid s = Inr s' \<Longrightarrow> (scope', key') \<noteq> (scope, key)
      \<Longrightarrow> look s' scope' key' h' = look s scope' key' h'"
    and remember_possible: "look s scope key h = Inr None \<Longrightarrow> \<exists>s'. remember now scope key h rid s = Inr s'"
begin

text \<open>Runs of operations that look a key up and remember it when it is new.\<close>

inductive requests :: "'s \<Rightarrow> 's \<Rightarrow> bool" where
  idle: "requests s s"
| request: "requests s s1 \<Longrightarrow> look s1 scope key h = Inr None \<Longrightarrow> remember now scope key h rid s1 = Inr s2 \<Longrightarrow> requests s s2"

lemma look_stable:
  assumes "requests s s'" "look s scope key h = Inr (Some rid)"
  shows "look s' scope key h = Inr (Some rid)"
  using assms
proof (induction rule: requests.induct)
  case (request s s1 scope' key' h' now rid' s2)
  have "(scope, key) \<noteq> (scope', key')"
  proof
    assume e: "(scope, key) = (scope', key')"
    have l: "look s1 scope key h = Inr (Some rid)" by (rule request.IH [OF request.prems])
    show False
    proof (cases "h' = h")
      case False
      from look_conflict [OF l False] show False using request.hyps(2) e by auto
    qed (use l request.hyps(2) e in simp)
  qed
  from look_other [OF request.hyps(3) this] show ?case using request.IH [OF request.prems] by simp
qed

end

section \<open>Both stores meet it\<close>

lemma map_of_alist_update: "map_of (AList.update k v m) k' = (if k' = k then Some v else map_of m k')"
  by (simp add: update_conv')

interpretation db_idem: idempotency_store idempotent_resource remember_idempotent
proof (unfold_locales, goal_cases)
  case (2 now scope key h rid s s')
  then obtain k where k: "key = Some k" "k \<noteq> []" by (auto simp: str_true_def split: option.splits)
  with 2 have n: "db_get idem_key (scope, k) (t_idempotency s) = None"
    by (auto simp: idempotent_resource_def split: option.splits if_splits)
  show ?case using 2(1)
    by (auto simp: remember_idempotent_def save_idempotency_def idempotent_resource_def k n db_add_def
        db_get_append db_get_Cons split: if_splits)
next
  case (3 s scope key h rid h')
  then show ?case by (auto simp: idempotent_resource_def split: option.splits if_splits)
next
  case (4 now scope key h rid s s' scope' key' h')
  then show ?case
    by (auto simp: remember_idempotent_def save_idempotency_def idempotent_resource_def db_add_Some
        db_get_append db_get_Cons split: option.splits if_splits sum.splits)
next
  case (5 s scope key h now rid)
  then show ?case
    by (auto simp: remember_idempotent_def save_idempotency_def idempotent_resource_def db_add_def db_get_None
        split: option.splits if_splits)
qed (auto simp: idempotent_resource_def str_true_def split: option.splits)

interpretation mem_idem: idempotency_store svc_idempotent "\<lambda>now scope key h rid m. Inr (svc_remember now scope key h rid m)"
proof (unfold_locales, goal_cases)
  case (2 now scope key h rid s s')
  then obtain k where "key = Some k" "k \<noteq> []" by (auto simp: str_true_def split: option.splits)
  then show ?case using 2(1) by (auto simp: svc_remember_def svc_idempotent_def map_of_alist_update)
next
  case (3 s scope key h rid h')
  then show ?case by (auto simp: svc_idempotent_def split: option.splits if_splits)
next
  case (4 now scope key h rid s s' scope' key' h')
  then show ?case
    by (cases key; cases key') (auto simp: svc_remember_def svc_idempotent_def map_of_alist_update split: if_splits)
qed (auto simp: svc_idempotent_def str_true_def split: option.splits)

section \<open>Lemmas on answers\<close>

lemma check_expected_seq_None: "check_expected_seq c e = None \<longleftrightarrow> e = None \<or> e = Some (last_seq (conv_run c))"
  by (auto simp: check_expected_seq_def split: option.splits)

lemma check_interaction_None:
  "check_interaction c i = None \<longleftrightarrow> state (conv_run c) \<in> {WAITING_INPUT, PAUSED}
     \<and> (\<exists>p. pending_interaction (conv_run c) = Some p \<and> map_of p ''interaction_id'' = Some (JStr i))"
  by (auto simp: check_interaction_def or_else_def obj_get_def split: option.splits)

lemma remember_persisted_calls: "sv_calls (snd (svc_remember_persisted now scope key h rid s)) = sv_calls s"
  by (auto simp: svc_remember_persisted_def Let_def split: sum.split db_error.split)

text \<open>An answer that reached Temporal passed both checks; if it also returned, its key is in the repository.\<close>

lemma answer_sent:
  assumes "answer accepts temporal now scope h call c iid expected key s = (r, s1)" "sv_calls s1 \<noteq> sv_calls s"
  shows "check_expected_seq c expected = None \<and> check_interaction c iid = None \<and> sv_calls s1 = sv_calls s @ [call]
    \<and> (\<forall>c'. r = Inr c' \<and> str_true key \<longrightarrow> c' = c \<and> idempotent_resource (sv_db s1) scope key h = Inr (Some (conv_id c)))"
proof -
  let ?s0 = "s\<lparr>sv_calls := sv_calls s @ [call]\<rparr>"
  obtain x s2 where rp: "svc_remember_persisted now scope key h (conv_id c) ?s0 = (x, s2)" by (metis surj_pair)
  from assms have fresh: "str_true key \<longrightarrow> idempotent_resource (sv_db s) scope key h = Inr None"
    and ck: "check_expected_seq c expected = None" "check_interaction c iid = None"
    and s1: "s1 = s2" and r: "r = map_sum id (\<lambda>_. c) x"
    using rp by (auto simp: answer_def send_def find_idempotent_def split: if_splits sum.splits option.splits)
  have calls: "sv_calls s1 = sv_calls s @ [call]"
    using remember_persisted_calls [of now scope key h "conv_id c" ?s0] by (simp add: rp s1)
  have "idempotent_resource (sv_db s1) scope key h = Inr (Some (conv_id c))" if "x = Inr ()" "str_true key"
  proof -
    from rp that have "remember_idempotent now scope key h (conv_id c) (sv_db s) = Inr (sv_db s1)"
      by (auto simp: svc_remember_persisted_def s1 Let_def split: sum.splits db_error.splits)
    then show ?thesis using db_idem.look_same fresh that(2) by blast
  qed
  then show ?thesis using ck calls by (cases x) (auto simp: r)
qed

lemma answer_replay:
  "str_true key \<Longrightarrow> idempotent_resource (sv_db s) scope key h = Inr (Some rid)
     \<Longrightarrow> snd (answer accepts temporal now scope h call c iid expected key s) = s"
  by (simp add: answer_def find_idempotent_def)

lemma idempotent_table: "t_idempotency d = t_idempotency d' \<Longrightarrow> idempotent_resource d scope key h = idempotent_resource d' scope key h"
  by (cases key) (simp_all add: idempotent_resource_def)

section \<open>Properties\<close>

text \<open>C29. An input is signalled only when it is awaited, and once. \<open>submit_input\<close> sends a signal only for a stored
  conversation that waits for input, whose pending interaction is the answered one and whose sequence number is the
  expected one, if any was given; it sends exactly that signal. After it returned, the same request with the same key
  sends nothing and changes nothing, whatever other keyed requests came in between.\<close>

theorem submit_input_signals_once:
  assumes "submit_input hash accepts temporal now cid iid v expected key s = (r, s1)" "sv_calls s1 \<noteq> sv_calls s"
  shows "(\<exists>c. repo_get_conversation cid (sv_db s) = Some c \<and> state (conv_run c) \<in> {WAITING_INPUT, PAUSED}
      \<and> (\<exists>p. pending_interaction (conv_run c) = Some p \<and> map_of p ''interaction_id'' = Some (JStr iid))
      \<and> (expected = None \<or> expected = Some (last_seq (conv_run c)))
      \<and> sv_calls s1 = sv_calls s @ [SignalInput (run_id (conv_run c)) iid v key])
    \<and> ((\<exists>c. r = Inr c) \<and> str_true key \<longrightarrow>
        (\<forall>d2 s2 now2. db_idem.requests (sv_db s1) d2 \<and> t_idempotency (sv_db s2) = t_idempotency d2
           \<longrightarrow> snd (submit_input hash accepts temporal now2 cid iid v expected key s2) = s2))"
proof -
  let ?h = "hash [(''conversation_id'', JStr cid), (''interaction_id'', JStr iid), (''value'', v),
    (''expected_seq'', opt_int expected)]"
  from assms obtain c where c: "repo_get_conversation cid (sv_db s) = Some c"
    and a: "answer accepts temporal now ''input'' ?h (SignalInput (run_id (conv_run c)) iid v key) c iid expected key s = (r, s1)"
    by (auto simp: submit_input_def svc_conversation_def split: option.splits)
  note sent = answer_sent [OF a assms(2)]
  have "snd (submit_input hash accepts temporal now2 cid iid v expected key s2) = s2"
    if "r = Inr c'" "str_true key" "db_idem.requests (sv_db s1) d2" "t_idempotency (sv_db s2) = t_idempotency d2" for c' d2 s2 now2
  proof -
    from sent that(1,2) have "idempotent_resource (sv_db s1) ''input'' key ?h = Inr (Some (conv_id c))" by blast
    from db_idem.look_stable [OF that(3) this] have "idempotent_resource (sv_db s2) ''input'' key ?h = Inr (Some (conv_id c))"
      by (simp add: idempotent_table [OF that(4)])
    with answer_replay [OF that(2)] show ?thesis by (simp add: submit_input_def split: sum.split)
  qed
  then show ?thesis using sent c by (auto simp: check_expected_seq_None check_interaction_None)
qed

definition demo_waiting_svc :: svc where
  "demo_waiting_svc = \<lparr>sv_db = empty_db\<lparr>t_conversations := [(conversation_to_row demo_conv)\<lparr>cr_state := WAITING_INPUT,
     cr_pending_interaction := Some [(''interaction_id'', JStr ''i'')]\<rparr>]\<rparr>, sv_idem = [], sv_calls = []\<rparr>"

theorem submit_input_signals_once_witness:
  "\<exists>s1. sv_calls s1 = [SignalInput ''r1'' ''i'' JNull (Some ''k'')]
     \<and> snd (submit_input (\<lambda>_. ''h'') (\<lambda>_. True) True 8 ''c1'' ''i'' JNull None (Some ''k'') s1) = s1"
proof -
  obtain r s1 where e: "submit_input (\<lambda>_. ''h'') (\<lambda>_. True) True 7 ''c1'' ''i'' JNull None (Some ''k'') demo_waiting_svc = (r, s1)"
    by (metis surj_pair)
  then have r: "\<exists>c. r = Inr c" "sv_calls s1 = [SignalInput ''r1'' ''i'' JNull (Some ''k'')]"
    by (auto simp: submit_input_def svc_conversation_def repo_get_conversation_def demo_waiting_svc_def db_get_Cons
        conversation_to_row_def demo_conv_def new_run_def answer_def str_true_def find_idempotent_def idempotent_resource_def
        check_expected_seq_def check_interaction_def conversation_from_row_def or_else_def obj_get_def send_def
        svc_remember_persisted_def remember_idempotent_def save_idempotency_def db_add_def)
  then have "sv_calls s1 \<noteq> sv_calls demo_waiting_svc" by (simp add: demo_waiting_svc_def)
  from submit_input_signals_once [OF e this] r db_idem.requests.idle [of "sv_db s1"] show ?thesis
    by (intro exI [of _ s1]) (auto simp: str_true_def)
qed

text \<open>The mode of a conversation decides its tools whatever the session declares: a silent run has only the
  tools of the fixed list (and the question tool in a skill generation run) and asks for no approval, a run without
  approvals keeps the session's tools and asks for none, and a default run has the policy of the session.\<close>

theorem conversation_policy_modes:
  "let p = tool_policy_for_conversation prompt c s; session = tool_policy_for_session s in
     (conv_mode c = DEFAULT \<longrightarrow> p = session)
   \<and> (conv_mode c \<noteq> DEFAULT \<longrightarrow> map_of p ''approval_required_tools'' = Some (JArr [])
        \<and> map_of p ''mode'' = Some (JStr (mode_value (conv_mode c))))
   \<and> (conv_mode c = NO_APPROVAL \<longrightarrow> map_of p ''allowed_tools'' = map_of session ''allowed_tools'')
   \<and> (conv_mode c = SILENT \<longrightarrow> (\<exists>tools. map_of p ''allowed_tools'' = Some (JArr (map JStr tools))
        \<and> set tools \<subseteq> set SILENT_MODE_TOOLS \<union> {ASK_USER_TOOL}
        \<and> (\<not> is_skill_generation_task prompt (conv_task c) \<longrightarrow> tools = SILENT_MODE_TOOLS)))"
  by (cases "conv_mode c")
    (auto simp: tool_policy_for_conversation_def Let_def map_of_alist_update
      intro!: exI [of _ "SILENT_MODE_TOOLS @ (if is_skill_generation_task prompt (conv_task c) then [ASK_USER_TOOL] else [])"])

definition demo_session :: session where
  "demo_session = \<lparr>sess_id = ''s1'', sess_workspace = ''w1'', sess_tenant = None, sess_user = None, sess_project = None,
     sess_metadata = [], sess_config = None, sess_lease_epoch = 0, sess_active_run = None, sess_created_at = 0\<rparr>"

theorem conversation_policy_modes_witness:
  "\<exists>tools. map_of (tool_policy_for_conversation ''Distill'' (demo_conv\<lparr>conv_mode := SILENT\<rparr>) demo_session) ''allowed_tools'' =
     Some (JArr (map JStr tools)) \<and> ''sequentialthinking'' \<notin> set tools"
  using conversation_policy_modes [of "''Distill''" "demo_conv\<lparr>conv_mode := SILENT\<rparr>" demo_session]
  by (auto simp: SILENT_MODE_TOOLS_def ASK_USER_TOOL_def Let_def)

end
