(* ===== verification/Presets.thy ===== *)
theory Presets
  imports Repo_Admin Command_Gate
begin

text \<open>
  Tenant presets: the model of \<open>domain/tenant_preset.py\<close> and the operations of \<open>application/preset_ops.py\<close> with a
  repository. Validation of one raw CLI application against its Pydantic model is the parameter \<open>parse\<close>, \<open>resolve\<close> tells
  whether the skill provider knows all the named skills, \<open>str\<close> renders a JSON value that is not a string, \<open>sha\<close> is
  the hexadecimal SHA-256 of a byte string and \<open>digest\<close> that of the dump of an object. One operation reads the
  clock once. A file operation that fails for want of space or permission is not modelled.
\<close>

section \<open>Names\<close>

definition DEFAULT_TENANT_ID :: string where
  "DEFAULT_TENANT_ID = ''default''"

definition MAX_CLI_PACKAGE_BYTES :: nat where
  "MAX_CLI_PACKAGE_BYTES = 64 * 1024 * 1024"

definition cli_id_char :: "char \<Rightarrow> bool" where
  "cli_id_char c = (is_alnum_ascii c \<or> c \<in> {CHR ''.'', CHR ''_'', CHR ''-''})"

definition valid_cli_id :: "string \<Rightarrow> bool" where
  "valid_cli_id v = (case v of [] \<Rightarrow> False
     | c # cs \<Rightarrow> is_alnum_ascii c \<and> list_all cli_id_char cs \<and> length cs \<le> 79)"

definition valid_env_name :: "string \<Rightarrow> bool" where
  "valid_env_name v = (case v of [] \<Rightarrow> False
     | c # cs \<Rightarrow> (is_alnum_ascii c \<and> \<not> is_digit c \<or> c = CHR ''_'') \<and> list_all (\<lambda>d. is_alnum_ascii d \<or> d = CHR ''_'') cs)"

definition normalize_safe_prefix :: "string \<Rightarrow> string" where
  "normalize_safe_prefix v = py_join '' '' (py_split v)"

definition safe_prefix_tokens :: "string \<Rightarrow> string list" where
  "safe_prefix_tokens v = (let n = normalize_safe_prefix v in if n \<noteq> [] then py_split_on CHR '' '' n else [])"

section \<open>Normal forms\<close>

definition normalized_daemon :: "cli_daemon \<Rightarrow> cli_daemon" where
  "normalized_daemon x = x\<lparr>dm_command := normalize_safe_prefix (dm_command x)\<rparr>"

definition normalized_app :: "cli_app \<Rightarrow> cli_app" where
  "normalized_app a = a\<lparr>app_entry := normalize_safe_prefix (app_entry a),
     app_safe_prefixes := filter (\<lambda>x. x \<noteq> []) (dedup (map normalize_safe_prefix (app_safe_prefixes a))),
     app_env := filter (\<lambda>x. x \<noteq> []) (dedup (app_env a)),
     app_daemon := map_option normalized_daemon (app_daemon a)\<rparr>"

definition normalized_preset :: "tenant_preset \<Rightarrow> tenant_preset" where
  "normalized_preset p = p\<lparr>tpr_cli_apps := map normalized_app (tpr_cli_apps p),
     tpr_skills := filter (\<lambda>x. x \<noteq> []) (dedup (tpr_skills p)), tpr_env := filter (\<lambda>x. x \<noteq> []) (dedup (tpr_env p))\<rparr>"

section \<open>Content hash and image tag\<close>

definition image_tag_for :: "string \<Rightarrow> string \<Rightarrow> string" where
  "image_tag_for t h = (let slug = py_strip_by (\<lambda>c. c = CHR ''-'') (map (\<lambda>c. if cli_id_char c then c else CHR ''-'') t) in
     ''agentsupport-runner:'' @ (if slug \<noteq> [] then slug else DEFAULT_TENANT_ID) @ ''-'' @ take 16 h)"

definition json_str :: "string option \<Rightarrow> json" where
  "json_str x = (case x of None \<Rightarrow> JNull | Some v \<Rightarrow> JStr v)"

definition app_payload :: "(string \<times> string) list \<Rightarrow> cli_app \<Rightarrow> json" where
  "app_payload digests a = JObj [(''cli_id'', JStr (app_cli_id a)), (''entry'', JStr (app_entry a)),
     (''description'', JStr (app_description a)), (''safe_prefixes'', JArr (map JStr (app_safe_prefixes a))),
     (''env'', JArr (map JStr (app_env a))), (''package'', json_str (app_package a)),
     (''daemon'', case app_daemon a of None \<Rightarrow> JNull
        | Some x \<Rightarrow> JObj [(''command'', JStr (dm_command x)), (''port'', case dm_port x of None \<Rightarrow> JNull | Some n \<Rightarrow> JInt n)]),
     (''digest'', JStr (or_else (map_of digests (app_cli_id a)) []))]"

definition preset_content_hash :: "(obj \<Rightarrow> string) \<Rightarrow> tenant_preset \<Rightarrow> (string \<times> string) list \<Rightarrow> string" where
  "preset_content_hash digest p digests = (let n = normalized_preset p in
     digest [(''tenant_id'', JStr (tpr_tenant n)), (''name'', JStr (tpr_name n)), (''description'', JStr (tpr_description n)),
       (''cli_apps'', JArr (map (app_payload digests) (tpr_cli_apps n))), (''skills'', JArr (map JStr (tpr_skills n))),
       (''env'', JArr (map JStr (tpr_env n)))])"

section \<open>Fallback to the default preset\<close>

record preset_fields =
  pf_tenant :: string
  pf_from_preset :: bool
  pf_cli_apps :: "cli_app list"
  pf_skills :: "string list"
  pf_env :: "string list"
  pf_used_default :: "bool \<times> bool \<times> bool"
  pf_name :: string

text \<open>\<open>preset.x if preset and preset.x else (default.x if default else [])\<close>.\<close>

definition part :: "(tenant_preset \<Rightarrow> 'a list) \<Rightarrow> tenant_preset option \<Rightarrow> tenant_preset option \<Rightarrow> 'a list" where
  "part f p dflt = (case p of
       Some x \<Rightarrow> if f x \<noteq> [] then f x else (case dflt of Some y \<Rightarrow> f y | None \<Rightarrow> [])
     | None \<Rightarrow> (case dflt of Some y \<Rightarrow> f y | None \<Rightarrow> []))"

definition resolve_preset_fields :: "tenant_preset option \<Rightarrow> tenant_preset option \<Rightarrow> preset_fields" where
  "resolve_preset_fields p dflt =
     (let missing = (\<lambda>b. case p of None \<Rightarrow> True | Some x \<Rightarrow> b x) in
      \<lparr>pf_tenant = (case p of Some x \<Rightarrow> tpr_tenant x | None \<Rightarrow> DEFAULT_TENANT_ID), pf_from_preset = (p \<noteq> None),
       pf_cli_apps = map normalized_app (part tpr_cli_apps p dflt), pf_skills = part tpr_skills p dflt,
       pf_env = part tpr_env p dflt,
       pf_used_default = (missing (\<lambda>x. tpr_cli_apps x = []), missing (\<lambda>x. tpr_skills x = []), missing (\<lambda>x. tpr_env x = [])),
       pf_name = (case p of Some x \<Rightarrow> tpr_name x | None \<Rightarrow> (case dflt of Some y \<Rightarrow> tpr_name y | None \<Rightarrow> []))\<rparr>)"

text \<open>The policy a run carries to the command gate; the loop keeps the first of equal prefixes.\<close>

fun add_prefixes :: "string list \<Rightarrow> string list \<Rightarrow> string list" where
  "add_prefixes [] acc = acc"
| "add_prefixes (p # ps) acc = (let n = normalize_safe_prefix p in
     add_prefixes ps (if n \<noteq> [] \<and> n \<notin> set acc then acc @ [n] else acc))"

record cli_policy =
  pol_tenant :: string
  pol_cli_apps :: "(string \<times> string \<times> string list) list"
  pol_safe_prefixes :: "string list"
  pol_image :: string

definition cli_policy_from_fields :: "preset_fields \<Rightarrow> cli_policy" where
  "cli_policy_from_fields f = \<lparr>pol_tenant = pf_tenant f,
     pol_cli_apps = map (\<lambda>a. (app_cli_id a, app_entry a, app_safe_prefixes a)) (pf_cli_apps f),
     pol_safe_prefixes = add_prefixes (concat (map app_safe_prefixes (pf_cli_apps f))) [],
     pol_image = []\<rparr>"

section \<open>State\<close>

text \<open>The preset directory: per tenant, the directories of its CLI applications with their files.\<close>

type_synonym package_files = "(string \<times> string) list"

record preset_state =
  pt_db :: db
  pt_files :: "(string \<times> (string \<times> package_files) list) list"

abbreviation tenant_dir :: "string \<Rightarrow> preset_state \<Rightarrow> (string \<times> package_files) list" where
  "tenant_dir t s \<equiv> or_else (map_of (pt_files s) t) []"

abbreviation app_file :: "string \<Rightarrow> string \<Rightarrow> string \<Rightarrow> preset_state \<Rightarrow> string option" where
  "app_file t cid name s \<equiv> Option.bind (map_of (tenant_dir t s) cid) (\<lambda>files. map_of files name)"

section \<open>Validation\<close>

abbreviation invalid_preset :: service_error where
  "invalid_preset \<equiv> ServiceError ''TENANT_PRESET_INVALID'' 422"

definition validate_tenant_id :: "string \<Rightarrow> service_error + string" where
  "validate_tenant_id t = (let v = py_strip t in
     if v = [] \<or> length v > 120 \<or> v = ''.'' \<or> v = ''..'' \<or> CHR ''/'' \<in> set v \<or> CHR 0x5C \<in> set v
     then Inl invalid_preset else Inr v)"

definition app_ok :: "string list \<Rightarrow> cli_app \<Rightarrow> bool" where
  "app_ok seen a = (valid_cli_id (app_cli_id a) \<and> app_cli_id a \<notin> set seen \<and> app_entry a \<noteq> []
     \<and> str_true (app_package a) \<and> path_name (the (app_package a)) = the (app_package a)
     \<and> list_all valid_env_name (app_env a)
     \<and> (case app_daemon a of None \<Rightarrow> True
        | Some x \<Rightarrow> dm_command x \<noteq> [] \<and> (case dm_port x of None \<Rightarrow> True | Some n \<Rightarrow> 1 \<le> n \<and> n \<le> 65535)))"

fun validate_apps :: "(json \<Rightarrow> cli_app option) \<Rightarrow> string list \<Rightarrow> json list \<Rightarrow> service_error + cli_app list" where
  "validate_apps parse seen [] = Inr []"
| "validate_apps parse seen (raw # raws) = (case parse raw of
       None \<Rightarrow> Inl invalid_preset
     | Some a \<Rightarrow> (let app = normalized_app a in
         if \<not> app_ok seen app then Inl invalid_preset
         else map_sum id (Cons app) (validate_apps parse (app_cli_id app # seen) raws)))"

fun check_packages :: "(string \<Rightarrow> string) \<Rightarrow> (string \<times> string) list \<Rightarrow> cli_app list \<Rightarrow> service_error + (string \<times> string) list" where
  "check_packages sha files [] = Inr []"
| "check_packages sha files (a # as) = (case map_of files (or_else (app_package a) []) of
       None \<Rightarrow> Inl (ServiceError ''TENANT_PRESET_PACKAGE_MISSING'' 422)
     | Some bytes \<Rightarrow>
         if length bytes > MAX_CLI_PACKAGE_BYTES then Inl (ServiceError ''TENANT_PRESET_PACKAGE_TOO_LARGE'' 413)
         else map_sum id (Cons (app_cli_id a, sha bytes)) (check_packages sha files as))"

text \<open>\<open>[str(item) for item in (metadata.get(k) or []) if str(item).strip()]\<close>; a value that is not iterable raises.\<close>

definition names_of :: "(json \<Rightarrow> string) \<Rightarrow> obj \<Rightarrow> string \<Rightarrow> string list option" where
  "names_of str m k = (let v = obj_get m k JNull in
     if \<not> truthy v then Some []
     else map_option (\<lambda>xs. filter (\<lambda>x. py_strip x \<noteq> []) (map (py_str str) xs)) (py_iter v))"

definition raw_apps :: "obj \<Rightarrow> json list option" where
  "raw_apps m = (let raw = obj_get m ''cli_apps'' JNull in
     if truthy raw then (case raw of JArr xs \<Rightarrow> Some xs | _ \<Rightarrow> None) else Some [])"

definition text_of :: "(json \<Rightarrow> string) \<Rightarrow> obj \<Rightarrow> string \<Rightarrow> string" where
  "text_of str m k = (let v = obj_get m k JNull in if truthy v then py_str str v else [])"

definition validate_preset_payload ::
  "(json \<Rightarrow> cli_app option) \<Rightarrow> (json \<Rightarrow> string) \<Rightarrow> (string \<Rightarrow> string) \<Rightarrow> (string list \<Rightarrow> string \<Rightarrow> bool) \<Rightarrow> time \<Rightarrow> string \<Rightarrow> json
    \<Rightarrow> (string \<times> string) list \<Rightarrow> service_error + (tenant_preset \<times> (string \<times> string) list)" where
  "validate_preset_payload parse str sha resolve now tenant metadata files =
     (case metadata of
        JObj m \<Rightarrow>
          (case raw_apps m of
             None \<Rightarrow> Inl invalid_preset
           | Some raws \<Rightarrow> (case validate_apps parse [] raws of
               Inl e \<Rightarrow> Inl e
             | Inr apps \<Rightarrow> (case check_packages sha files apps of
                 Inl e \<Rightarrow> Inl e
               | Inr digests \<Rightarrow> (case names_of str m ''skills'' of
                   None \<Rightarrow> Inl (Raised TypeError)
                 | Some skills \<Rightarrow>
                     if skills \<noteq> [] \<and> \<not> resolve skills tenant then Inl (ServiceError ''SKILL_NOT_FOUND'' 404)
                     else (case names_of str m ''env'' of
                         None \<Rightarrow> Inl (Raised TypeError)
                       | Some env \<Rightarrow>
                           if \<not> list_all valid_env_name env then Inl invalid_preset
                           else Inr (\<lparr>tpr_tenant = tenant, tpr_name = text_of str m ''name'',
                                      tpr_description = text_of str m ''description'', tpr_cli_apps = apps, tpr_skills = skills,
                                      tpr_env = env, tpr_created_at = now, tpr_updated_at = now\<rparr>, digests))))))
      | _ \<Rightarrow> Inl invalid_preset)"

section \<open>Files\<close>

text \<open>\<open>_write_packages\<close>: the packages are staged and then replace the tenant's directory. Writing to the name \<open>..\<close>
  raises before anything is replaced; the digest is written last, also over a package of the same name.\<close>

fun stage_packages :: "(string \<times> string) list \<Rightarrow> (string \<times> string) list \<Rightarrow> cli_app list \<Rightarrow> (string \<times> package_files) list
    \<Rightarrow> service_error + (string \<times> package_files) list" where
  "stage_packages files digests [] staged = Inr staged"
| "stage_packages files digests (a # as) staged = (case map_of files (or_else (app_package a) []) of
       None \<Rightarrow> Inl (ServiceError ''TENANT_PRESET_PACKAGE_MISSING'' 422)
     | Some bytes \<Rightarrow>
         if or_else (app_package a) [] = ''..'' then Inl (Raised OSError)
         else stage_packages files digests as (AList.update (app_cli_id a)
           (AList.update ''package.sha256'' (or_else (map_of digests (app_cli_id a)) [])
             (AList.update (or_else (app_package a) []) bytes (or_else (map_of staged (app_cli_id a)) []))) staged))"

definition write_packages :: "string \<Rightarrow> tenant_preset \<Rightarrow> (string \<times> string) list \<Rightarrow> (string \<times> string) list \<Rightarrow> preset_state
    \<Rightarrow> service_error + preset_state" where
  "write_packages t p files digests s = (case stage_packages files digests (tpr_cli_apps p) [] of
       Inl e \<Rightarrow> Inl e
     | Inr staged \<Rightarrow> Inr (s\<lparr>pt_files := AList.update t staged (pt_files s)\<rparr>))"

definition package_bytes :: "string \<Rightarrow> cli_app \<Rightarrow> preset_state \<Rightarrow> service_error + string" where
  "package_bytes t a s = (case app_file t (app_cli_id a) (or_else (app_package a) ''None'') s of
       None \<Rightarrow> Inl (ServiceError ''TENANT_PRESET_PACKAGE_MISSING'' 409)
     | Some bytes \<Rightarrow> Inr bytes)"

definition stored_digests :: "tenant_preset \<Rightarrow> preset_state \<Rightarrow> (string \<times> string) list" where
  "stored_digests p s = concat (map (\<lambda>a. case app_file (tpr_tenant p) (app_cli_id a) ''package.sha256'' s of
       None \<Rightarrow> [] | Some x \<Rightarrow> [(app_cli_id a, py_strip x)]) (tpr_cli_apps p))"

section \<open>Operations\<close>

definition svc_get_tenant_preset :: "string \<Rightarrow> preset_state \<Rightarrow> service_error + tenant_preset" where
  "svc_get_tenant_preset t s = (case validate_tenant_id t of Inl e \<Rightarrow> Inl e
     | Inr v \<Rightarrow> (case repo_get_tenant_preset v (pt_db s) of
         None \<Rightarrow> Inl (ServiceError ''TENANT_PRESET_NOT_FOUND'' 404) | Some p \<Rightarrow> Inr p))"

text \<open>The filter of the list is the name as given, not the validated one.\<close>

definition svc_list_preset_builds :: "string option \<Rightarrow> build_status option \<Rightarrow> nat \<Rightarrow> preset_state \<Rightarrow> service_error + preset_build list" where
  "svc_list_preset_builds t st n s = (case (case t of None \<Rightarrow> Inr [] | Some x \<Rightarrow> validate_tenant_id x) of
       Inl e \<Rightarrow> Inl e
     | Inr _ \<Rightarrow> Inr (repo_list_preset_builds t st n (pt_db s)))"

definition svc_get_preset_build :: "string \<Rightarrow> uuid \<Rightarrow> preset_state \<Rightarrow> service_error + preset_build" where
  "svc_get_preset_build t bid s = (case repo_get_preset_build bid (pt_db s) of
       None \<Rightarrow> Inl (ServiceError ''PRESET_BUILD_NOT_FOUND'' 404)
     | Some b \<Rightarrow> if pb_tenant b \<noteq> t then Inl (ServiceError ''PRESET_BUILD_NOT_FOUND'' 404) else Inr b)"

definition latest_ready_image :: "string \<Rightarrow> string option \<Rightarrow> preset_state \<Rightarrow> service_error + string" where
  "latest_ready_image dflt t s =
     (if str_true t \<and> t \<noteq> Some DEFAULT_TENANT_ID
      then (case svc_list_preset_builds t (Some READY) 1 s of
          Inl e \<Rightarrow> Inl e
        | Inr (b # _) \<Rightarrow> Inr (if str_true (pb_image_tag b) then the (pb_image_tag b) else dflt)
        | Inr [] \<Rightarrow> Inr dflt)
      else Inr dflt)"

definition start_preset_build :: "(obj \<Rightarrow> string) \<Rightarrow> uuid \<Rightarrow> time \<Rightarrow> string \<Rightarrow> preset_state \<Rightarrow> (service_error + preset_build) \<times> preset_state" where
  "start_preset_build digest bid now t s =
     (case svc_get_tenant_preset t s of
        Inl e \<Rightarrow> (Inl e, s)
      | Inr p \<Rightarrow>
          (let b = \<lparr>pb_id = bid, pb_tenant = py_strip t, pb_status = PENDING,
                    pb_content_hash = preset_content_hash digest p (stored_digests p s), pb_image_tag = None, pb_error = None,
                    pb_log_tail = [], pb_created_at = now, pb_started_at = None, pb_finished_at = None\<rparr> in
           (Inr b, s\<lparr>pt_db := save_preset_build b (pt_db s)\<rparr>)))"

definition put_tenant_preset ::
  "(json \<Rightarrow> cli_app option) \<Rightarrow> (json \<Rightarrow> string) \<Rightarrow> (string \<Rightarrow> string) \<Rightarrow> (string list \<Rightarrow> string \<Rightarrow> bool) \<Rightarrow> (obj \<Rightarrow> string) \<Rightarrow> uuid \<Rightarrow> time
    \<Rightarrow> string \<Rightarrow> json \<Rightarrow> (string \<times> string) list \<Rightarrow> preset_state
    \<Rightarrow> (service_error + (tenant_preset \<times> string \<times> preset_build)) \<times> preset_state" where
  "put_tenant_preset parse str sha resolve digest bid now t metadata files s =
     (case validate_tenant_id t of
        Inl e \<Rightarrow> (Inl e, s)
      | Inr tenant \<Rightarrow> (case validate_preset_payload parse str sha resolve now tenant metadata files of
          Inl e \<Rightarrow> (Inl e, s)
        | Inr (p0, digests) \<Rightarrow>
            (let h = preset_content_hash digest p0 digests;
                 p = p0\<lparr>tpr_created_at := (case repo_get_tenant_preset tenant (pt_db s) of Some old \<Rightarrow> tpr_created_at old | None \<Rightarrow> now),
                        tpr_updated_at := now\<rparr> in
             case write_packages tenant p files digests s of
               Inl e \<Rightarrow> (Inl e, s)
             | Inr s1 \<Rightarrow>
                 (let s2 = s1\<lparr>pt_db := save_tenant_preset p h (pt_db s1)\<rparr> in
                  case start_preset_build digest bid now tenant s2 of
                    (Inl e, s3) \<Rightarrow> (Inl e, s3)
                  | (Inr b, s3) \<Rightarrow> (Inr (p, h, b), s3)))))"

definition delete_tenant_preset :: "string \<Rightarrow> preset_state \<Rightarrow> (service_error + unit) \<times> preset_state" where
  "delete_tenant_preset t s = (case validate_tenant_id t of
       Inl e \<Rightarrow> (Inl e, s)
     | Inr tenant \<Rightarrow> (case repo_delete_tenant_preset tenant (pt_db s) of
         (removed, d) \<Rightarrow>
           if \<not> removed then (Inl (ServiceError ''TENANT_PRESET_NOT_FOUND'' 404), s\<lparr>pt_db := d\<rparr>)
           else (Inr (), s\<lparr>pt_db := d, pt_files := AList.delete tenant (pt_files s)\<rparr>)))"

definition finish_build :: "time \<Rightarrow> preset_build \<Rightarrow> build_status \<Rightarrow> string option \<Rightarrow> string \<Rightarrow> string option \<Rightarrow> preset_state
    \<Rightarrow> preset_build \<times> preset_state" where
  "finish_build now b st tag log err s =
     (let f = b\<lparr>pb_status := st, pb_image_tag := (if str_true tag then tag else pb_image_tag b),
                pb_log_tail := drop (length log - 4000) log, pb_error := err, pb_finished_at := Some now\<rparr> in
      (f, s\<lparr>pt_db := save_preset_build f (pt_db s)\<rparr>))"

record build_payload =
  bp_build :: preset_build
  bp_image_tag :: string
  bp_cli_apps :: "(cli_app \<times> string) list"
  bp_env :: "string list"

fun packaged_apps :: "string \<Rightarrow> cli_app list \<Rightarrow> preset_state \<Rightarrow> service_error + (cli_app \<times> string) list" where
  "packaged_apps t [] s = Inr []"
| "packaged_apps t (a # as) s = (case package_bytes t a s of
       Inl e \<Rightarrow> Inl e
     | Inr bytes \<Rightarrow> map_sum id (Cons (a, bytes)) (packaged_apps t as s))"

text \<open>The payload carries the bytes in base 64.\<close>

definition svc_claim_preset_build :: "time \<Rightarrow> preset_state \<Rightarrow> (service_error + build_payload option) \<times> preset_state" where
  "svc_claim_preset_build now s =
     (case repo_claim_preset_build now (pt_db s) of
        (None, d) \<Rightarrow> (Inr None, s\<lparr>pt_db := d\<rparr>)
      | (Some b, d) \<Rightarrow>
          (let s1 = s\<lparr>pt_db := d\<rparr> in
           case repo_get_tenant_preset (pb_tenant b) d of
             None \<Rightarrow> (Inr None, snd (finish_build now b BUILD_FAILED None [] (Some ''tenant preset was removed before the build started'') s1))
           | Some p \<Rightarrow> (case packaged_apps (pb_tenant b) (tpr_cli_apps p) s1 of
               Inl e \<Rightarrow> (Inl e, s1)
             | Inr apps \<Rightarrow> (Inr (Some \<lparr>bp_build = b, bp_image_tag = image_tag_for (pb_tenant b) (pb_content_hash b),
                 bp_cli_apps = apps, bp_env = tpr_env p\<rparr>), s1))))"

definition complete_preset_build :: "time \<Rightarrow> uuid \<Rightarrow> build_status \<Rightarrow> string option \<Rightarrow> string \<Rightarrow> string option \<Rightarrow> preset_state
    \<Rightarrow> (service_error + preset_build) \<times> preset_state" where
  "complete_preset_build now bid st tag log err s =
     (case repo_get_preset_build bid (pt_db s) of
        None \<Rightarrow> (Inl (ServiceError ''PRESET_BUILD_NOT_FOUND'' 404), s)
      | Some b \<Rightarrow>
          if st = READY \<and> \<not> str_true tag then (Inl (ServiceError ''PRESET_BUILD_INVALID'' 422), s)
          else (let err' = (if st = BUILD_FAILED \<and> \<not> str_true err then Some ''build failed without a reported reason'' else err) in
                map_prod Inr id (finish_build now b st tag log err' s)))"

definition resolved_fields :: "string option \<Rightarrow> preset_state \<Rightarrow> preset_fields" where
  "resolved_fields t s = resolve_preset_fields
     (if str_true t then repo_get_tenant_preset (the t) (pt_db s) else None)
     (repo_get_tenant_preset DEFAULT_TENANT_ID (pt_db s))"

definition cli_policy_for_session :: "string \<Rightarrow> session \<Rightarrow> preset_state \<Rightarrow> service_error + cli_policy" where
  "cli_policy_for_session dflt x s = (case latest_ready_image dflt (sess_tenant x) s of
       Inl e \<Rightarrow> Inl e
     | Inr img \<Rightarrow> Inr ((cli_policy_from_fields (resolved_fields (sess_tenant x) s))
         \<lparr>pol_tenant := (if str_true (sess_tenant x) then the (sess_tenant x) else DEFAULT_TENANT_ID), pol_image := img\<rparr>))"

definition preset_skills_for_session :: "session \<Rightarrow> preset_state \<Rightarrow> string list" where
  "preset_skills_for_session x s = pf_skills (resolved_fields (sess_tenant x) s)"

section \<open>Words\<close>

lemma py_split_Nil [simp]: "py_split [] = []"
  by (simp add: py_split.simps)

lemma py_split_space: "py_isspace c \<Longrightarrow> py_split (c # s) = py_split s"
  by (simp add: py_split.simps [of "c # s"] py_split.simps [of s])

lemma py_split_word:
  assumes "w \<noteq> []" "list_all (\<lambda>c. \<not> py_isspace c) w" "rest = [] \<or> py_isspace (hd rest)"
  shows "py_split (w @ rest) = w # py_split rest"
proof -
  have "dropWhile py_isspace (w @ rest) = w @ rest" using assms(1,2) by (cases w) simp_all
  moreover have "takeWhile (\<lambda>c. \<not> py_isspace c) (w @ rest) = w"
    using assms(2,3) by (cases rest) (simp_all add: takeWhile_append list_all_iff)
  moreover have "dropWhile (\<lambda>c. \<not> py_isspace c) (w @ rest) = rest"
    using assms(2,3) by (cases rest) (simp_all add: dropWhile_append list_all_iff)
  ultimately show ?thesis using assms(1) by (simp add: py_split.simps [of "w @ rest"])
qed

definition word :: "string \<Rightarrow> bool" where
  "word w = (w \<noteq> [] \<and> list_all (\<lambda>c. \<not> py_isspace c) w)"

lemma py_split_words: "list_all word (py_split s)"
proof (induction s rule: py_split.induct)
  case (1 s)
  let ?t = "dropWhile py_isspace s"
  show ?case
  proof (cases "?t = []")
    case False
    then have "\<not> py_isspace (hd ?t)" by (rule hd_dropWhile)
    then have "word (takeWhile (\<lambda>c. \<not> py_isspace c) ?t)"
      using False by (cases ?t) (auto simp: word_def list_all_iff dest: set_takeWhileD)
    then show ?thesis using 1 [OF refl False] False by (simp add: py_split.simps [of s] Let_def)
  qed (simp add: py_split.simps [of s])
qed

lemma space_isspace [simp]: "py_isspace CHR '' ''"
  by (simp add: py_isspace_def)

lemma py_split_join: "list_all word ws \<Longrightarrow> py_split (py_join '' '' ws) = ws"
proof (induction "'' '' :: string" ws rule: py_join.induct)
  case (2 x)
  then show ?case using py_split_word [of x "[]"] by (simp add: word_def)
next
  case (3 x y ys)
  then have "py_split (x @ '' '' @ py_join '' '' (y # ys)) = x # py_split ('' '' @ py_join '' '' (y # ys))"
    by (intro py_split_word) (simp_all add: word_def)
  then show ?case using 3 by (simp add: py_split_space)
qed simp

lemma normalize_words [simp]: "py_split (normalize_safe_prefix p) = py_split p"
  by (simp add: normalize_safe_prefix_def py_split_join py_split_words)

lemma normalize_idem [simp]: "normalize_safe_prefix (normalize_safe_prefix p) = normalize_safe_prefix p"
  by (simp add: normalize_safe_prefix_def [of "normalize_safe_prefix p"]) (simp add: normalize_safe_prefix_def)

lemma normalize_empty: "normalize_safe_prefix p = [] \<longleftrightarrow> py_split p = []"
  by (metis normalize_safe_prefix_def normalize_words py_join.simps(1) py_split_Nil)

text \<open>The tokens of a prefix are its words.\<close>

lemma split_on_word: "CHR '' '' \<notin> set w \<Longrightarrow> py_split_on CHR '' '' w = [w]"
  by (induction w) auto

lemma split_on_sep: "CHR '' '' \<notin> set w \<Longrightarrow> py_split_on CHR '' '' (w @ CHR '' '' # s) = w # py_split_on CHR '' '' s"
  by (induction w) auto

lemma word_no_blank: "word w \<Longrightarrow> CHR '' '' \<notin> set w"
  by (auto simp: word_def list_all_iff)

lemma split_on_join: "list_all word ws \<Longrightarrow> ws \<noteq> [] \<Longrightarrow> py_split_on CHR '' '' (py_join '' '' ws) = ws"
  by (induction "'' '' :: string" ws rule: py_join.induct) (simp_all add: split_on_word split_on_sep word_no_blank)

lemma safe_prefix_tokens_words: "safe_prefix_tokens p = py_split p"
proof (cases "py_split p = []")
  case True
  then have "normalize_safe_prefix p = []" by (simp add: normalize_empty)
  then show ?thesis using True by (simp add: safe_prefix_tokens_def)
next
  case False
  then have "normalize_safe_prefix p \<noteq> []" by (simp add: normalize_empty)
  moreover have "py_split_on CHR '' '' (normalize_safe_prefix p) = py_split p"
    unfolding normalize_safe_prefix_def using False by (intro split_on_join) (simp_all add: py_split_words)
  ultimately show ?thesis by (simp add: safe_prefix_tokens_def)
qed

section \<open>Normal forms\<close>

lemma dedup_map_idem:
  assumes "\<And>x. f (f x) = f x"
  shows "filter P (dedup (map f (filter P (dedup (map f xs))))) = filter P (dedup (map f xs))"
proof -
  have "map f (filter P (dedup (map f xs))) = filter P (dedup (map f xs))"
    by (rule map_idI) (auto simp: assms)
  then show ?thesis by (simp add: dedup_distinct)
qed

lemma normalized_daemon_idem: "normalized_daemon (normalized_daemon x) = normalized_daemon x"
  by (simp add: normalized_daemon_def)

lemma normalized_app_idem [simp]: "normalized_app (normalized_app a) = normalized_app a"
  using dedup_map_idem [of normalize_safe_prefix "\<lambda>x. x \<noteq> []" "app_safe_prefixes a"]
    dedup_map_idem [of id "\<lambda>x. x \<noteq> []" "app_env a"]
  by (simp add: normalized_app_def option.map_comp comp_def normalized_daemon_idem)

lemma normalized_preset_idem [simp]: "normalized_preset (normalized_preset p) = normalized_preset p"
  using dedup_map_idem [of id "\<lambda>x. x \<noteq> []" "tpr_skills p"] dedup_map_idem [of id "\<lambda>x. x \<noteq> []" "tpr_env p"]
  by (simp add: normalized_preset_def)

lemma content_hash_times [simp]:
  "preset_content_hash digest (p\<lparr>tpr_created_at := a, tpr_updated_at := b\<rparr>) digests = preset_content_hash digest p digests"
  by (simp add: preset_content_hash_def normalized_preset_def Let_def)

lemma content_hash_normal: "preset_content_hash digest (normalized_preset p) digests = preset_content_hash digest p digests"
  by (simp add: preset_content_hash_def Let_def)

section \<open>Validation\<close>

lemma app_ok_fresh: "app_ok seen a \<Longrightarrow> app_cli_id a \<notin> set seen \<and> app_ok [] a"
  by (simp add: app_ok_def)

lemma validate_apps_ok:
  "validate_apps parse seen raws = Inr apps \<Longrightarrow>
     distinct (map app_cli_id apps) \<and> set (map app_cli_id apps) \<inter> set seen = {}
     \<and> (\<forall>a\<in>set apps. normalized_app a = a \<and> app_ok [] a)"
proof (induction parse seen raws arbitrary: apps rule: validate_apps.induct)
  case (2 parse seen raw raws)
  from 2(2) obtain a as where a: "parse raw = Some a" "app_ok seen (normalized_app a)"
    "validate_apps parse (app_cli_id (normalized_app a) # seen) raws = Inr as" "apps = normalized_app a # as"
    by (cases "parse raw"; cases "validate_apps parse (app_cli_id (normalized_app (the (parse raw))) # seen) raws")
      (auto simp: Let_def split: if_splits)
  from 2(1) [OF a(1) refl _ a(3)] a(2) show ?case
    using app_ok_fresh [OF a(2)] by (auto simp: a(4))
qed simp

lemma check_packages_ok:
  "check_packages sha files apps = Inr digests \<Longrightarrow> distinct (map app_cli_id apps) \<Longrightarrow> a \<in> set apps \<Longrightarrow>
     \<exists>bytes. map_of files (or_else (app_package a) []) = Some bytes \<and> length bytes \<le> MAX_CLI_PACKAGE_BYTES
       \<and> map_of digests (app_cli_id a) = Some (sha bytes)"
proof (induction apps arbitrary: digests)
  case (Cons x xs)
  from Cons.prems(1) obtain bytes ds where b: "map_of files (or_else (app_package x) []) = Some bytes"
    "length bytes \<le> MAX_CLI_PACKAGE_BYTES" "check_packages sha files xs = Inr ds" "digests = (app_cli_id x, sha bytes) # ds"
    by (cases "check_packages sha files xs") (auto split: option.splits if_splits)
  show ?case
  proof (cases "a = x")
    case False
    then have a: "a \<in> set xs" "app_cli_id a \<noteq> app_cli_id x" using Cons.prems(2,3) by (auto simp: image_iff)
    then show ?thesis using Cons.IH [OF b(3)] Cons.prems(2) b(4) by simp
  qed (use b in simp)
qed simp

lemma payload_ok:
  assumes "validate_preset_payload parse str sha resolve now tenant metadata files = Inr (p, digests)"
  shows "tpr_tenant p = tenant \<and> list_all valid_env_name (tpr_env p)
    \<and> (tpr_skills p \<noteq> [] \<longrightarrow> resolve (tpr_skills p) tenant)
    \<and> (\<exists>raws. validate_apps parse [] raws = Inr (tpr_cli_apps p)) \<and> check_packages sha files (tpr_cli_apps p) = Inr digests"
  using assms
  by (auto simp: validate_preset_payload_def Let_def split: json.splits option.splits sum.splits if_splits)

section \<open>Files\<close>

lemma stage_other: "stage_packages files digests as staged = Inr out \<Longrightarrow> k \<notin> app_cli_id ` set as \<Longrightarrow> map_of out k = map_of staged k"
proof (induction as arbitrary: staged)
  case (Cons a as)
  from Cons.prems(1) obtain x where x: "stage_packages files digests as (AList.update (app_cli_id a) x staged) = Inr out"
    by (auto split: option.splits if_splits)
  from Cons.IH [OF x] Cons.prems(2) show ?case by (simp add: update_conv')
qed simp

lemma staged_app:
  assumes "stage_packages files digests as staged = Inr out" "distinct (map app_cli_id as)" "a \<in> set as"
    "app_cli_id ` set as \<inter> fst ` set staged = {}"
  shows "\<exists>bytes. map_of files (or_else (app_package a) []) = Some bytes
    \<and> map_of out (app_cli_id a) = Some (AList.update ''package.sha256'' (or_else (map_of digests (app_cli_id a)) [])
        [(or_else (app_package a) [], bytes)])"
  using assms
proof (induction as arbitrary: staged)
  case (Cons x as)
  from Cons.prems(1) obtain bytes where b: "map_of files (or_else (app_package x) []) = Some bytes"
    by (auto split: option.splits)
  have fresh: "map_of staged (app_cli_id x) = None" using Cons.prems(4) by (auto simp: map_of_eq_None_iff)
  let ?st = "AList.update (app_cli_id x) (AList.update ''package.sha256'' (or_else (map_of digests (app_cli_id x)) [])
      [(or_else (app_package x) [], bytes)]) staged"
  have st: "stage_packages files digests as ?st = Inr out"
    using Cons.prems(1) b by (auto simp: fresh or_else_def split: if_splits)
  show ?case
  proof (cases "a = x")
    case True
    then show ?thesis using stage_other [OF st, of "app_cli_id x"] Cons.prems(2) b by (simp add: update_conv')
  next
    case False
    moreover have "app_cli_id ` set as \<inter> fst ` set ?st = {}"
      using Cons.prems(2,4) by (auto simp: dom_update)
    ultimately show ?thesis using Cons.IH [OF st] Cons.prems(2,3) by simp
  qed
qed simp

section \<open>Upload\<close>

lemma strip_idem: "py_strip_by P (py_strip_by P s) = py_strip_by P s"
proof -
  let ?u = "dropWhile P s" let ?r = "rev (dropWhile P (rev ?u))"
  have "?u = ?r @ rev (takeWhile P (rev ?u))" by (metis rev_append rev_rev_ident takeWhile_dropWhile_id)
  moreover have "?u \<noteq> [] \<Longrightarrow> \<not> P (hd ?u)" by (rule hd_dropWhile)
  ultimately have "?r \<noteq> [] \<Longrightarrow> \<not> P (hd ?r)" by (metis append_is_Nil_conv hd_append2)
  then have "dropWhile P ?r = ?r" by (metis dropWhile.simps(1) dropWhile_eq_self_iff)
  then show ?thesis by (simp add: py_strip_by_def)
qed

lemma validated_tenant: "validate_tenant_id t = Inr v \<Longrightarrow> v = py_strip t \<and> validate_tenant_id v = Inr v"
  by (auto simp: validate_tenant_id_def Let_def strip_idem split: if_splits)

lemma get_saved_preset:
  "repo_get_tenant_preset k (save_tenant_preset p h d) =
    (if k = tpr_tenant p then Some (case repo_get_tenant_preset k d of None \<Rightarrow> p | Some old \<Rightarrow> p\<lparr>tpr_created_at := tpr_created_at old\<rparr>)
     else repo_get_tenant_preset k d)"
  using preset_store.get_save [of k "\<lparr>pr_preset = p, pr_content_hash = h\<rparr>" d]
  by (auto simp: repo_get_tenant_preset_def merge_tenant_preset_def dest: db_get_key split: option.split)

lemma save_build_preset [simp]: "repo_get_tenant_preset k (save_preset_build b d) = repo_get_tenant_preset k d"
  by (simp add: save_preset_build_def repo_get_tenant_preset_def)

lemma save_preset_builds [simp]: "t_builds (save_tenant_preset p h d) = t_builds d"
  by (simp add: save_tenant_preset_def)

text \<open>What a successful upload did.\<close>

lemma put_result:
  assumes "put_tenant_preset parse str sha resolve digest bid now t metadata files s = (Inr (p, h, b), s')"
  shows "\<exists>p0 digests staged. validate_tenant_id t = Inr (tpr_tenant p)
    \<and> validate_preset_payload parse str sha resolve now (tpr_tenant p) metadata files = Inr (p0, digests)
    \<and> stage_packages files digests (tpr_cli_apps p) [] = Inr staged
    \<and> p = p0\<lparr>tpr_created_at := (case repo_get_tenant_preset (tpr_tenant p) (pt_db s) of Some old \<Rightarrow> tpr_created_at old | None \<Rightarrow> now),
             tpr_updated_at := now\<rparr>
    \<and> h = preset_content_hash digest p digests
    \<and> pt_files s' = AList.update (tpr_tenant p) staged (pt_files s)
    \<and> pt_db s' = save_preset_build b (save_tenant_preset p h (pt_db s))
    \<and> b = \<lparr>pb_id = bid, pb_tenant = tpr_tenant p, pb_status = PENDING, pb_content_hash = preset_content_hash digest p (stored_digests p s'),
           pb_image_tag = None, pb_error = None, pb_log_tail = [], pb_created_at = now, pb_started_at = None, pb_finished_at = None\<rparr>"
proof -
  from assms obtain tenant p0 digests where v: "validate_tenant_id t = Inr tenant"
    "validate_preset_payload parse str sha resolve now tenant metadata files = Inr (p0, digests)"
    by (auto simp: put_tenant_preset_def split: sum.splits)
  define q where "q = p0\<lparr>tpr_created_at := (case repo_get_tenant_preset tenant (pt_db s) of Some old \<Rightarrow> tpr_created_at old | None \<Rightarrow> now),
             tpr_updated_at := now\<rparr>"
  have tn: "tpr_tenant q = tenant" using payload_ok [OF v(2)] by (simp add: q_def)
  have hq: "preset_content_hash digest p0 ds = preset_content_hash digest q ds" for ds by (simp add: q_def)
  have wr: "write_packages tenant q files digests s \<noteq> Inl e" for e
    using assms by (auto simp: put_tenant_preset_def v Let_def q_def)
  then obtain staged where st: "stage_packages files digests (tpr_cli_apps q) [] = Inr staged"
    by (cases "stage_packages files digests (tpr_cli_apps q) []") (auto simp: write_packages_def)
  have got: "repo_get_tenant_preset tenant (save_tenant_preset q (preset_content_hash digest q digests) (pt_db s)) = Some q"
    using payload_ok [OF v(2)] by (auto simp: get_saved_preset q_def split: option.split)
  have vt: "validate_tenant_id tenant = Inr tenant" "py_strip tenant = tenant"
    using validated_tenant [OF v(1)] validated_tenant [of tenant tenant] by auto
  have "p = q \<and> h = preset_content_hash digest q digests \<and> pt_files s' = AList.update tenant staged (pt_files s)
    \<and> pt_db s' = save_preset_build b (save_tenant_preset q h (pt_db s))
    \<and> b = \<lparr>pb_id = bid, pb_tenant = tenant, pb_status = PENDING, pb_content_hash = preset_content_hash digest q (stored_digests q s'),
           pb_image_tag = None, pb_error = None, pb_log_tail = [], pb_created_at = now, pb_started_at = None, pb_finished_at = None\<rparr>"
    using assms unfolding put_tenant_preset_def v(1) sum.case v(2) prod.case Let_def q_def [symmetric]
    by (auto simp: write_packages_def st start_preset_build_def svc_get_tenant_preset_def vt got hq stored_digests_def Let_def)
  then show ?thesis using v st tn by (auto simp: q_def)
qed

lemma upload_apps:
  assumes "put_tenant_preset parse str sha resolve digest bid now t metadata files s = (Inr (p, h, b), s')"
    "a \<in> set (tpr_cli_apps p)"
  shows "\<exists>bytes. map_of files (or_else (app_package a) []) = Some bytes
    \<and> app_file (tpr_tenant p) (app_cli_id a) ''package.sha256'' s' = Some (sha bytes)
    \<and> (app_package a \<noteq> Some ''package.sha256'' \<longrightarrow> package_bytes (tpr_tenant p) a s' = Inr bytes)
    \<and> length bytes \<le> MAX_CLI_PACKAGE_BYTES \<and> app_package a \<noteq> None"
proof -
  from put_result [OF assms(1)] obtain p0 digests staged where
    v: "validate_preset_payload parse str sha resolve now (tpr_tenant p) metadata files = Inr (p0, digests)"
    and st: "stage_packages files digests (tpr_cli_apps p) [] = Inr staged"
    and p: "p = p0\<lparr>tpr_created_at := (case repo_get_tenant_preset (tpr_tenant p) (pt_db s) of Some old \<Rightarrow> tpr_created_at old | None \<Rightarrow> now),
             tpr_updated_at := now\<rparr>"
    and f: "pt_files s' = AList.update (tpr_tenant p) staged (pt_files s)" by blast
  have apps: "tpr_cli_apps p0 = tpr_cli_apps p" by (subst p) simp
  from payload_ok [OF v] obtain raws where "validate_apps parse [] raws = Inr (tpr_cli_apps p)"
    and cp: "check_packages sha files (tpr_cli_apps p) = Inr digests" by (auto simp: apps)
  from validate_apps_ok [OF this(1)] have di: "distinct (map app_cli_id (tpr_cli_apps p))" and ok: "app_ok [] a" using assms(2) by auto
  from check_packages_ok [OF cp di assms(2)] obtain bytes where b: "map_of files (or_else (app_package a) []) = Some bytes"
    "length bytes \<le> MAX_CLI_PACKAGE_BYTES" "map_of digests (app_cli_id a) = Some (sha bytes)" by auto
  from staged_app [OF st di assms(2)] b have
    m: "map_of staged (app_cli_id a) = Some (AList.update ''package.sha256'' (sha bytes) [(or_else (app_package a) [], bytes)])"
    by (simp add: or_else_def)
  have "app_package a \<noteq> None" using ok by (auto simp: app_ok_def str_true_def split: option.splits)
  then show ?thesis using b m by (auto simp: f update_conv' package_bytes_def or_else_def)
qed

lemma packaged_upload:
  assumes "\<And>a. a \<in> set as \<Longrightarrow> package_bytes t a s = Inr (g a)"
  shows "packaged_apps t as s = Inr (map (\<lambda>a. (a, g a)) as)"
  using assms by (induction as) auto

lemma upload_hash:
  assumes "put_tenant_preset parse str sha resolve digest bid now t metadata files s = (Inr (p, h, b), s')" "\<And>x. py_strip (sha x) = sha x"
  shows "pb_content_hash b = h"
proof -
  from put_result [OF assms(1)] obtain p0 digests where
    v: "validate_preset_payload parse str sha resolve now (tpr_tenant p) metadata files = Inr (p0, digests)"
    and p: "p = p0\<lparr>tpr_created_at := (case repo_get_tenant_preset (tpr_tenant p) (pt_db s) of Some old \<Rightarrow> tpr_created_at old | None \<Rightarrow> now),
             tpr_updated_at := now\<rparr>"
    and h: "h = preset_content_hash digest p digests" "pb_content_hash b = preset_content_hash digest p (stored_digests p s')" by auto
  have apps: "tpr_cli_apps p0 = tpr_cli_apps p" by (subst p) simp
  from payload_ok [OF v] obtain raws where "validate_apps parse [] raws = Inr (tpr_cli_apps p)"
    and cp: "check_packages sha files (tpr_cli_apps p) = Inr digests" by (auto simp: apps)
  from validate_apps_ok [OF this(1)] have di: "distinct (map app_cli_id (tpr_cli_apps p))" by simp
  have sd: "stored_digests p s' = digests"
  proof -
    have "check_packages sha files as = Inr ds \<Longrightarrow> set as \<subseteq> set (tpr_cli_apps p) \<Longrightarrow>
        concat (map (\<lambda>a. case app_file (tpr_tenant p) (app_cli_id a) ''package.sha256'' s' of
          None \<Rightarrow> [] | Some x \<Rightarrow> [(app_cli_id a, py_strip x)]) as) = ds" for as ds
    proof (induction as arbitrary: ds)
      case (Cons a as)
      from Cons.prems(1) obtain bytes ds' where b: "map_of files (or_else (app_package a) []) = Some bytes"
        "check_packages sha files as = Inr ds'" "ds = (app_cli_id a, sha bytes) # ds'"
        by (cases "check_packages sha files as") (auto split: option.splits if_splits)
      from upload_apps [OF assms(1), of a] Cons.prems(2) b(1)
      have "app_file (tpr_tenant p) (app_cli_id a) ''package.sha256'' s' = Some (sha bytes)" by auto
      then show ?case using Cons.IH [OF b(2)] Cons.prems(2) b(3) by (simp add: assms(2))
    qed simp
    then show ?thesis using cp by (simp add: stored_digests_def)
  qed
  then show ?thesis by (simp add: h)
qed

definition demo_app :: cli_app where
  "demo_app = \<lparr>app_cli_id = ''mt'', app_entry = ''mt'', app_description = [], app_safe_prefixes = [''mt  list''], app_env = [],
     app_package = Some ''mt.tgz'', app_daemon = None\<rparr>"

definition demo_put :: "(service_error + (tenant_preset \<times> string \<times> preset_build)) \<times> preset_state" where
  "demo_put = put_tenant_preset (\<lambda>_. Some demo_app) (\<lambda>_. []) (\<lambda>_. ''d1'') (\<lambda>_ _. True) (\<lambda>_. ''0123456789abcdef'') ''b'' 5 ''acme''
     (JObj [(''cli_apps'', JArr [JNull])]) [(''mt.tgz'', ''bytes'')] \<lparr>pt_db = empty_db, pt_files = []\<rparr>"

definition demo_preset :: tenant_preset where
  "demo_preset = \<lparr>tpr_tenant = ''acme'', tpr_name = [], tpr_description = [], tpr_cli_apps = [demo_app\<lparr>app_safe_prefixes := [''mt list'']\<rparr>],
     tpr_skills = [], tpr_env = [], tpr_created_at = 5, tpr_updated_at = 5\<rparr>"

lemma demo_payload:
  "validate_preset_payload (\<lambda>_. Some demo_app) (\<lambda>_. []) (\<lambda>_. ''d1'') (\<lambda>_ _. True) 5 ''acme''
     (JObj [(''cli_apps'', JArr [JNull])]) [(''mt.tgz'', ''bytes'')] = Inr (demo_preset, [(''mt'', ''d1'')])"
proof -
  have n: "normalized_app demo_app = demo_app\<lparr>app_safe_prefixes := [''mt list'']\<rparr>" by code_simp
  have ok: "app_ok [] (demo_app\<lparr>app_safe_prefixes := [''mt list'']\<rparr>)" by code_simp
  have pk: "app_package (demo_app\<lparr>app_safe_prefixes := [''mt list'']\<rparr>) = Some ''mt.tgz''"
    "app_cli_id (demo_app\<lparr>app_safe_prefixes := [''mt list'']\<rparr>) = ''mt''" by (simp_all add: demo_app_def)
  show ?thesis
    by (simp add: validate_preset_payload_def raw_apps_def obj_get_def Let_def n ok pk or_else_def MAX_CLI_PACKAGE_BYTES_def
        names_of_def text_of_def demo_preset_def)
qed

lemma demo_put_result: "\<exists>b s'. demo_put = (Inr (demo_preset, ''0123456789abcdef'', b), s')
    \<and> repo_get_tenant_preset ''acme'' (pt_db s') = Some demo_preset \<and> t_builds (pt_db s') = [b] \<and> pb_status b = PENDING \<and> pb_tenant b = ''acme''"
proof -
  have "validate_tenant_id ''acme'' = Inr ''acme''" by code_simp
  moreover have "py_strip ''acme'' = ''acme''" by code_simp
  ultimately have t: "validate_tenant_id ''acme'' = Inr ''acme''" "py_strip ''acme'' = ''acme''" by auto
  have q: "demo_preset\<lparr>tpr_created_at := 5, tpr_updated_at := 5\<rparr> = demo_preset" by (simp add: demo_preset_def)
  have st: "\<exists>staged. stage_packages [(''mt.tgz'', ''bytes'')] [(''mt'', ''d1'')] (tpr_cli_apps demo_preset) [] = Inr staged"
    by (simp add: demo_preset_def demo_app_def or_else_def)
  then obtain staged where st: "stage_packages [(''mt.tgz'', ''bytes'')] [(''mt'', ''d1'')] (tpr_cli_apps demo_preset) [] = Inr staged" by blast
  show ?thesis
    by (simp add: demo_put_def put_tenant_preset_def t demo_payload Let_def write_packages_def start_preset_build_def preset_content_hash_def
        svc_get_tenant_preset_def get_saved_preset repo_get_tenant_preset_def [of _ empty_db] q st save_preset_build_def db_upsert_def)
      (simp add: demo_preset_def repo_get_tenant_preset_def save_tenant_preset_def db_upsert_def db_get_Cons t)
qed

section \<open>Properties\<close>

text \<open>C31. The type of an accepted preset. When validation accepts an upload, the applications are in normal form, have
  distinct valid identifiers, an entry, valid environment names and daemon ports and a plain package name; each
  package was uploaded, is within the size limit, and has its digest recorded; the preset's environment names are valid.\<close>

theorem accepted_preset_wellformed:
  assumes "validate_preset_payload parse str sha resolve now tenant metadata files = Inr (p, digests)"
  shows "distinct (map app_cli_id (tpr_cli_apps p)) \<and> list_all valid_env_name (tpr_env p) \<and> tpr_tenant p = tenant
    \<and> map normalized_app (tpr_cli_apps p) = tpr_cli_apps p
    \<and> (\<forall>a\<in>set (tpr_cli_apps p). app_ok [] a
        \<and> (\<exists>bytes. map_of files (or_else (app_package a) []) = Some bytes \<and> length bytes \<le> MAX_CLI_PACKAGE_BYTES
            \<and> map_of digests (app_cli_id a) = Some (sha bytes)))"
proof -
  from payload_ok [OF assms] obtain raws where p: "validate_apps parse [] raws = Inr (tpr_cli_apps p)"
    "check_packages sha files (tpr_cli_apps p) = Inr digests" "tpr_tenant p = tenant" "list_all valid_env_name (tpr_env p)" by auto
  from validate_apps_ok [OF p(1)] check_packages_ok [OF p(2)] p(3,4) show ?thesis
    by (auto simp: map_idI)
qed

theorem accepted_preset_wellformed_witness:
  "\<exists>p digests. validate_preset_payload (\<lambda>_. Some demo_app) (\<lambda>_. []) (\<lambda>_. ''d1'') (\<lambda>_ _. True) 5 ''acme''
       (JObj [(''cli_apps'', JArr [JNull])]) [(''mt.tgz'', ''bytes'')] = Inr (p, digests)
     \<and> map app_safe_prefixes (tpr_cli_apps p) = [[''mt list'']] \<and> map normalized_app (tpr_cli_apps p) = tpr_cli_apps p"
proof -
  show ?thesis using accepted_preset_wellformed [OF demo_payload] demo_payload by (simp add: demo_preset_def)
qed

text \<open>What a claim returns, in terms of the oldest pending build and the preset its tenant has by then.\<close>

lemma claim_payload:
  assumes "sort_key pb_created_at (filter (\<lambda>x. pb_status x = PENDING) (t_builds (pt_db s))) = b # rest"
    "repo_get_tenant_preset (pb_tenant b) (pt_db s) = Some p"
    "\<And>a. a \<in> set (tpr_cli_apps p) \<Longrightarrow> package_bytes (pb_tenant b) a s = Inr (g a)"
  shows "fst (svc_claim_preset_build later s) = Inr (Some \<lparr>bp_build = b\<lparr>pb_status := BUILDING, pb_started_at := Some later\<rparr>,
         bp_image_tag = image_tag_for (pb_tenant b) (pb_content_hash b), bp_cli_apps = map (\<lambda>a. (a, g a)) (tpr_cli_apps p), bp_env = tpr_env p\<rparr>)"
proof -
  obtain d' where cl: "repo_claim_preset_build later (pt_db s) = (Some (b\<lparr>pb_status := BUILDING, pb_started_at := Some later\<rparr>), d')"
      "t_presets d' = t_presets (pt_db s)" using assms(1) by (simp add: repo_claim_preset_build_def)
  have got: "repo_get_tenant_preset (pb_tenant b) d' = Some p" using assms(2) cl(2) by (simp add: repo_get_tenant_preset_def)
  have "package_bytes (pb_tenant b) a (s\<lparr>pt_db := d'\<rparr>) = Inr (g a)" if "a \<in> set (tpr_cli_apps p)" for a
    using assms(3) [OF that] by (simp add: package_bytes_def)
  from packaged_upload [of "tpr_cli_apps p", OF this] show ?thesis
    by (simp add: svc_claim_preset_build_def cl(1) got Let_def)
qed

lemma uploaded_bytes:
  assumes "put_tenant_preset parse str sha resolve digest bid now t metadata files s = (Inr (p, h, b), s')"
    "a \<in> set (tpr_cli_apps p)" "app_package a \<noteq> Some ''package.sha256''"
    "map_of (pt_files s2) (tpr_tenant p) = map_of (pt_files s') (tpr_tenant p)"
  shows "package_bytes (tpr_tenant p) a s2 = Inr (the (map_of files (the (app_package a))))"
proof -
  from upload_apps [OF assms(1,2)] assms(3) obtain bytes where
    "map_of files (or_else (app_package a) []) = Some bytes" "package_bytes (tpr_tenant p) a s' = Inr bytes" "app_package a \<noteq> None" by auto
  then show ?thesis using assms(4) by (auto simp: package_bytes_def or_else_def)
qed

text \<open>C32. From upload to build. After a successful upload the repository returns the preset as uploaded, and the new
  build is pending and carries the content hash of the upload. Once this build is the oldest pending one, and if its
  tenant has neither uploaded nor deleted since (its stored preset and its files are those of the upload), the next claim
  returns exactly this build, now running, under the image tag of that hash and with the uploaded bytes of every
  package, in the order of the applications. The hypotheses on the upload: the build identifier is new, a SHA-256 digest
  has no surrounding blanks, and no package is itself called \<open>package.sha256\<close>, the name of the digest file.\<close>

theorem upload_reaches_build:
  assumes "put_tenant_preset parse str sha resolve digest bid now t metadata files s = (Inr (p, h, b), s')"
    "\<And>x. py_strip (sha x) = sha x" "repo_get_preset_build bid (pt_db s) = None"
    "\<forall>a\<in>set (tpr_cli_apps p). app_package a \<noteq> Some ''package.sha256''"
    and "sort_key pb_created_at (filter (\<lambda>x. pb_status x = PENDING) (t_builds (pt_db s2))) = b # rest"
    "repo_get_tenant_preset (tpr_tenant p) (pt_db s2) = Some p"
    "map_of (pt_files s2) (tpr_tenant p) = map_of (pt_files s') (tpr_tenant p)"
  shows "repo_get_tenant_preset (tpr_tenant p) (pt_db s') = Some p
    \<and> repo_get_preset_build bid (pt_db s') = Some b \<and> pb_status b = PENDING \<and> pb_content_hash b = h
    \<and> fst (svc_claim_preset_build later s2) = Inr (Some \<lparr>bp_build = b\<lparr>pb_status := BUILDING, pb_started_at := Some later\<rparr>,
         bp_image_tag = image_tag_for (tpr_tenant p) h,
         bp_cli_apps = map (\<lambda>a. (a, the (map_of files (the (app_package a))))) (tpr_cli_apps p), bp_env = tpr_env p\<rparr>)"
proof -
  from put_result [OF assms(1)] obtain p0 where
    p: "p = p0\<lparr>tpr_created_at := (case repo_get_tenant_preset (tpr_tenant p) (pt_db s) of Some old \<Rightarrow> tpr_created_at old | None \<Rightarrow> now),
             tpr_updated_at := now\<rparr>"
    and d: "pt_db s' = save_preset_build b (save_tenant_preset p h (pt_db s))"
    and b: "pb_id b = bid" "pb_tenant b = tpr_tenant p" "pb_status b = PENDING" by auto
  have created: "tpr_created_at p = (case repo_get_tenant_preset (tpr_tenant p) (pt_db s) of Some old \<Rightarrow> tpr_created_at old | None \<Rightarrow> now)"
    by (subst p) simp
  have got: "repo_get_tenant_preset (tpr_tenant p) (pt_db s') = Some p"
    using created by (auto simp: d get_saved_preset split: option.splits)
  have rows: "t_builds (pt_db s') = t_builds (pt_db s) @ [b]"
    using assms(3) b(1) by (simp add: d save_preset_build_def db_upsert_def repo_get_preset_build_def)
  have gb: "repo_get_preset_build bid (pt_db s') = Some b"
    using assms(3) b(1) by (simp add: repo_get_preset_build_def rows db_get_append db_get_Cons)
  have "package_bytes (pb_tenant b) a s2 = Inr (the (map_of files (the (app_package a))))" if "a \<in> set (tpr_cli_apps p)" for a
    using uploaded_bytes [OF assms(1) that _ assms(7)] assms(4) that b(2) by simp
  from claim_payload [OF assms(5) _ this, where later = later] show ?thesis
    using got gb b upload_hash [OF assms(1,2)] assms(6) by simp
qed

theorem upload_reaches_build_witness:
  "\<exists>p b s'. demo_put = (Inr (p, ''0123456789abcdef'', b), s') \<and> map (map_option bp_image_tag) [projr (fst (svc_claim_preset_build 6 s'))]
     = [Some ''agentsupport-runner:acme-0123456789abcdef'']"
proof -
  from demo_put_result obtain b s' where r: "demo_put = (Inr (demo_preset, ''0123456789abcdef'', b), s')"
    and s: "repo_get_tenant_preset ''acme'' (pt_db s') = Some demo_preset" "t_builds (pt_db s') = [b]" "pb_status b = PENDING" by blast
  have pk: "\<forall>a\<in>set (tpr_cli_apps demo_preset). app_package a \<noteq> Some ''package.sha256''" by (simp add: demo_preset_def demo_app_def)
  have d: "py_strip ''d1'' = ''d1''" by code_simp
  have tag: "image_tag_for ''acme'' ''0123456789abcdef'' = ''agentsupport-runner:acme-0123456789abcdef''" by code_simp
  have q: "sort_key pb_created_at (filter (\<lambda>x. pb_status x = PENDING) (t_builds (pt_db s'))) = [b]"
    "repo_get_tenant_preset (tpr_tenant demo_preset) (pt_db s') = Some demo_preset"
    using s by (simp_all add: demo_preset_def)
  from upload_reaches_build [OF r [unfolded demo_put_def] d _ pk q refl, of 6]
  have "fst (svc_claim_preset_build 6 s') = Inr (Some \<lparr>bp_build = b\<lparr>pb_status := BUILDING, pb_started_at := Some 6\<rparr>,
         bp_image_tag = image_tag_for (tpr_tenant demo_preset) ''0123456789abcdef'',
         bp_cli_apps = map (\<lambda>a. (a, the (map_of [(''mt.tgz'', ''bytes'')] (the (app_package a))))) (tpr_cli_apps demo_preset),
         bp_env = tpr_env demo_preset\<rparr>)"
    by (simp add: repo_get_preset_build_def)
  then show ?thesis using r tag by (intro exI [of _ demo_preset] exI [of _ b] exI [of _ s']) (simp add: demo_preset_def)
qed

lemma add_prefixes_words:
  "(\<exists>p\<in>set (add_prefixes ps acc). P (py_split p)) \<longleftrightarrow>
     (\<exists>p\<in>set acc. P (py_split p)) \<or> (\<exists>p\<in>set ps. py_split p \<noteq> [] \<and> P (py_split p))"
proof (induction ps arbitrary: acc)
  case (Cons p ps)
  have "(\<exists>q\<in>set (if normalize_safe_prefix p \<noteq> [] \<and> normalize_safe_prefix p \<notin> set acc then acc @ [normalize_safe_prefix p] else acc). P (py_split q))
      \<longleftrightarrow> (\<exists>q\<in>set acc. P (py_split q)) \<or> py_split p \<noteq> [] \<and> P (py_split p)"
  proof (cases "normalize_safe_prefix p \<noteq> [] \<and> normalize_safe_prefix p \<notin> set acc")
    case False
    then have "\<exists>q\<in>set acc. P (py_split q)" if "py_split p \<noteq> []" "P (py_split p)"
      using that by (intro bexI [of _ "normalize_safe_prefix p"]) (auto simp: normalize_empty)
    then show ?thesis unfolding if_not_P [OF False] by blast
  qed (auto simp: normalize_empty)
  with Cons.IH show ?case by (auto simp: Let_def)
qed simp

lemma normalized_words:
  "(\<exists>p\<in>set (app_safe_prefixes (normalized_app a)). py_split p \<noteq> [] \<and> P (py_split p))
     \<longleftrightarrow> (\<exists>p\<in>set (app_safe_prefixes a). py_split p \<noteq> [] \<and> P (py_split p))"
  by (auto simp: normalized_app_def normalize_empty)

text \<open>C33. What a tenant declares is what the command gate lets through. For a session whose policy can be built,
  the gate matches a command against the policy's safe prefixes exactly when its words start with the words of a
  prefix that a CLI application declares, where the applications are those of the tenant's preset, or those of the
  default preset when the tenant has none or declares no application.\<close>

theorem declared_prefixes_reach_gate:
  assumes "cli_policy_for_session dflt x s = Inr pol"
  shows "match_declared_prefix ts (pol_safe_prefixes pol) \<noteq> None \<longleftrightarrow>
    (\<exists>a\<in>set (part tpr_cli_apps (if str_true (sess_tenant x) then repo_get_tenant_preset (the (sess_tenant x)) (pt_db s) else None)
              (repo_get_tenant_preset DEFAULT_TENANT_ID (pt_db s))).
       \<exists>p\<in>set (app_safe_prefixes a). py_split p \<noteq> [] \<and> (\<exists>rest. ts = py_split p @ rest))"
proof -
  let ?apps = "part tpr_cli_apps (if str_true (sess_tenant x) then repo_get_tenant_preset (the (sess_tenant x)) (pt_db s) else None)
              (repo_get_tenant_preset DEFAULT_TENANT_ID (pt_db s))"
  have pol: "pol_safe_prefixes pol = add_prefixes (concat (map app_safe_prefixes (map normalized_app ?apps))) []"
    using assms by (auto simp: cli_policy_for_session_def cli_policy_from_fields_def resolved_fields_def resolve_preset_fields_def
        Let_def split: sum.splits)
  let ?P = "\<lambda>ws. ws \<noteq> [] \<and> (\<exists>rest. ts = ws @ rest)"
  have "match_declared_prefix ts (pol_safe_prefixes pol) \<noteq> None \<longleftrightarrow> (\<exists>p\<in>set (pol_safe_prefixes pol). ?P (py_split p))"
    by (rule match_declared_iff)
  also have "\<dots> \<longleftrightarrow> (\<exists>a\<in>set ?apps. \<exists>p\<in>set (app_safe_prefixes (normalized_app a)). py_split p \<noteq> [] \<and> ?P (py_split p))"
    unfolding pol add_prefixes_words [where P = ?P] by auto
  also have "\<dots> \<longleftrightarrow> (\<exists>a\<in>set ?apps. \<exists>p\<in>set (app_safe_prefixes a). py_split p \<noteq> [] \<and> ?P (py_split p))"
    unfolding normalized_words [where P = ?P] ..
  finally show ?thesis by simp
qed

theorem declared_prefixes_reach_gate_witness:
  "\<exists>pol. cli_policy_for_session ''img'' \<lparr>sess_id = ''s'', sess_workspace = ''w'', sess_tenant = Some ''acme'', sess_user = None, sess_project = None,
       sess_metadata = [], sess_config = None, sess_lease_epoch = 0, sess_active_run = None, sess_created_at = 0\<rparr> (snd demo_put) = Inr pol
     \<and> match_declared_prefix [''mt'', ''list'', ''-a''] (pol_safe_prefixes pol) \<noteq> None"
proof -
  let ?x = "\<lparr>sess_id = ''s'', sess_workspace = ''w'', sess_tenant = Some ''acme'', sess_user = None, sess_project = None,
       sess_metadata = [], sess_config = None, sess_lease_epoch = 0, sess_active_run = None, sess_created_at = 0\<rparr>"
  from demo_put_result obtain b s' where r: "demo_put = (Inr (demo_preset, ''0123456789abcdef'', b), s')"
    "repo_get_tenant_preset ''acme'' (pt_db s') = Some demo_preset" "t_builds (pt_db s') = [b]" "pb_status b = PENDING" by blast
  have "validate_tenant_id ''acme'' = Inr ''acme''" by code_simp
  then have "\<exists>pol. cli_policy_for_session ''img'' ?x (snd demo_put) = Inr pol"
    by (simp add: cli_policy_for_session_def latest_ready_image_def svc_list_preset_builds_def repo_list_preset_builds_def r
        str_true_def DEFAULT_TENANT_ID_def)
  then obtain pol where pol: "cli_policy_for_session ''img'' ?x (snd demo_put) = Inr pol" by blast
  have w: "py_split ''mt list'' = [''mt'', ''list'']" by code_simp
  have "match_declared_prefix [''mt'', ''list'', ''-a''] (pol_safe_prefixes pol) \<noteq> None"
    unfolding declared_prefixes_reach_gate [OF pol]
    by (simp add: r part_def str_true_def) (simp add: demo_preset_def w)
  then show ?thesis using pol by blast
qed

text \<open>A report on a build is not checked against its status: a finished build can be reported again.\<close>

lemma finished_build_reopened:
  assumes "repo_get_preset_build bid (pt_db s) = Some b"
  shows "\<exists>c s'. complete_preset_build now bid BUILD_FAILED None [] None s = (Inr c, s')
    \<and> repo_get_preset_build bid (pt_db s') = Some c \<and> pb_status c = BUILD_FAILED"
proof -
  have "pb_id b = bid" using assms by (auto simp: repo_get_preset_build_def dest: db_get_key)
  then show ?thesis
    using assms by (auto simp: complete_preset_build_def finish_build_def Let_def str_true_def build_store.get_save merge_preset_build_def)
qed

text \<open>A build that is still pending when its tenant uploads again is built under its old hash from the new upload.\<close>

lemma reupload_changes_pending_build:
  assumes "put_tenant_preset parse str sha resolve digest bid now t metadata files s = (Inr (p, h, b2), s')"
    "\<forall>a\<in>set (tpr_cli_apps p). app_package a \<noteq> Some ''package.sha256''"
    and "sort_key pb_created_at (filter (\<lambda>x. pb_status x = PENDING) (t_builds (pt_db s'))) = b # rest" "pb_tenant b = tpr_tenant p"
    "repo_get_tenant_preset (tpr_tenant p) (pt_db s') = Some p"
  shows "fst (svc_claim_preset_build later s') = Inr (Some \<lparr>bp_build = b\<lparr>pb_status := BUILDING, pb_started_at := Some later\<rparr>,
         bp_image_tag = image_tag_for (tpr_tenant p) (pb_content_hash b),
         bp_cli_apps = map (\<lambda>a. (a, the (map_of files (the (app_package a))))) (tpr_cli_apps p), bp_env = tpr_env p\<rparr>)"
proof -
  have "package_bytes (pb_tenant b) a s' = Inr (the (map_of files (the (app_package a))))" if "a \<in> set (tpr_cli_apps p)" for a
    using uploaded_bytes [OF assms(1) that _ refl] assms(2,4) that by simp
  from claim_payload [OF assms(3) _ this, where later = later] show ?thesis using assms(4,5) by simp
qed

text \<open>A claim whose package is gone leaves the build running and reports an error.\<close>

lemma claim_without_package_stuck:
  assumes "repo_claim_preset_build now (pt_db s) = (Some b, d)" "repo_get_tenant_preset (pb_tenant b) d = Some p"
    "tpr_cli_apps p = a # as" "map_of (pt_files s) (pb_tenant b) = None"
  shows "svc_claim_preset_build now s = (Inl (ServiceError ''TENANT_PRESET_PACKAGE_MISSING'' 409), s\<lparr>pt_db := d\<rparr>)"
  using assms by (simp add: svc_claim_preset_build_def Let_def package_bytes_def or_else_def)

end
