(* ===== verification/Workspace_Store.thy ===== *)
theory Workspace_Store
  imports Schema
begin

text \<open>
  The local workspace provider and its version snapshots, \<open>adapters/workspace/providers.py\<close>. A directory tree lists what is
  below the directory: each entry is a path (its components) with a file, a symbolic link with its text, or a directory;
  a directory that has entries need not be listed itself. The root directory \<open>ws_root\<close> (its absolute path, without links) holds one tree per
  workspace and, below \<open>.versions\<close>, the snapshots of each; \<open>ws_elsewhere\<close> is the part of the file system outside it that
  a link can lead to, with absolute paths. \<open>ws_paths\<close> is the table \<open>_paths\<close> of the process, which starts empty and holds
  the workspaces that this process created. A fresh identifier and the time are arguments; \<open>manifest\<close> renders the manifest of a snapshot,
  and \<open>list_versions\<close> is taken to read back what was written; a version identifier is one component of a path. A call
  that fails for want of space or permission is not modelled.
\<close>

section \<open>State\<close>

datatype node = File string | Link string | Dir

type_synonym tree = "(string list \<times> node) list"

record snapshot =
  sn_workspace :: uuid
  sn_version :: string
  sn_name :: "string option"
  sn_created_at :: time
  sn_tree :: tree

record ws_store =
  ws_root :: "string list"
  ws_elsewhere :: tree
  ws_dirs :: "(uuid \<times> tree) list"
  ws_snapshots :: "snapshot list"
  ws_paths :: "uuid list"

datatype fs_error = UnknownWorkspace | FileNotFound | IsADirectory | Unreachable

abbreviation snapshot_key :: "snapshot \<Rightarrow> uuid \<times> string" where
  "snapshot_key x \<equiv> (sn_workspace x, sn_version x)"

definition MANIFEST_NAME :: string where
  "MANIFEST_NAME = ''manifest.json''"

definition VERSIONS_DIRNAME :: string where
  "VERSIONS_DIRNAME = ''.versions''"

text \<open>\<open>shutil.copytree\<close> with \<open>symlinks=True\<close> and an \<open>ignore\<close> callback: a link is copied as a link; the callback is asked in
  every directory, so a name is left out at every depth.\<close>

definition copytree :: "string \<Rightarrow> tree \<Rightarrow> tree" where
  "copytree ignored t = filter (\<lambda>(p, _). ignored \<notin> set p) t"

definition write_file :: "string list \<Rightarrow> string \<Rightarrow> tree \<Rightarrow> tree" where
  "write_file p content t = AList.update p (File content) t"

section \<open>Following links\<close>

text \<open>What is at a path of a tree, and which tree an absolute path leads into.\<close>

definition tree_node :: "tree \<Rightarrow> string list \<Rightarrow> node option" where
  "tree_node t p = (if p = [] then Some Dir
     else case map_of t p of
       Some n \<Rightarrow> Some n
     | None \<Rightarrow> if list_ex (\<lambda>(q, _). length p < length q \<and> take (length p) q = p) t then Some Dir else None)"

datatype place = In_Workspace uuid "string list" | In_Version uuid string "string list" | Store_Dir | Outside

definition place_of :: "string list \<Rightarrow> string list \<Rightarrow> place" where
  "place_of root p = (if take (length root) p \<noteq> root then Outside
     else case drop (length root) p of
       [] \<Rightarrow> Store_Dir
     | a # q \<Rightarrow> if a \<noteq> VERSIONS_DIRNAME then In_Workspace a q
         else (case q of w # v # r \<Rightarrow> In_Version w v r | _ \<Rightarrow> Store_Dir))"

definition node_at :: "ws_store \<Rightarrow> string list \<Rightarrow> node option" where
  "node_at s p = (case place_of (ws_root s) p of
       In_Workspace w q \<Rightarrow> (case map_of (ws_dirs s) w of None \<Rightarrow> None | Some t \<Rightarrow> tree_node t q)
     | In_Version w v q \<Rightarrow> (case db_get snapshot_key (w, v) (ws_snapshots s) of None \<Rightarrow> None | Some x \<Rightarrow> tree_node (sn_tree x) q)
     | Store_Dir \<Rightarrow> Some Dir
     | Outside \<Rightarrow> if take (length p) (ws_root s) = p then Some Dir else tree_node (ws_elsewhere s) p)"

text \<open>The walk along a path from the directory \<open>cur\<close>, through at most \<open>n\<close> links; the last component need not exist.\<close>

fun walk :: "(string list \<Rightarrow> node option) \<Rightarrow> nat \<Rightarrow> string list \<Rightarrow> string list \<Rightarrow> string list option" where
  "walk look n cur [] = Some cur"
| "walk look n cur (c # cs) =
     (if c = [] \<or> c = ''.'' then walk look n cur cs
      else if c = ''..'' then walk look n (butlast cur) cs
      else case look (cur @ [c]) of
        Some (Link text) \<Rightarrow> (case n of 0 \<Rightarrow> None
          | Suc m \<Rightarrow> walk look m (if py_startswith text ''/'' then [] else cur) (py_split_on (CHR ''/'') text @ cs))
      | Some Dir \<Rightarrow> walk look n (cur @ [c]) cs
      | _ \<Rightarrow> if cs = [] then Some (cur @ [c]) else None)"

definition MAX_LINKS :: nat where
  "MAX_LINKS = 40"

definition put_file :: "string list \<Rightarrow> string \<Rightarrow> ws_store \<Rightarrow> ws_store" where
  "put_file p content s = (case place_of (ws_root s) p of
       In_Workspace w q \<Rightarrow> s\<lparr>ws_dirs := AList.map_entry w (write_file q content) (ws_dirs s)\<rparr>
     | In_Version w v q \<Rightarrow> s\<lparr>ws_snapshots := db_set snapshot_key (w, v) (\<lambda>x. x\<lparr>sn_tree := write_file q content (sn_tree x)\<rparr>) (ws_snapshots s)\<rparr>
     | Store_Dir \<Rightarrow> s
     | Outside \<Rightarrow> s\<lparr>ws_elsewhere := write_file p content (ws_elsewhere s)\<rparr>)"

text \<open>\<open>(dir / name).write_text\<close> and \<open>(dir / name).is_file()\<close>: both follow links.\<close>

definition write_text :: "string list \<Rightarrow> string \<Rightarrow> string \<Rightarrow> ws_store \<Rightarrow> fs_error + ws_store" where
  "write_text dir name content s = (case walk (node_at s) MAX_LINKS dir [name] of
       None \<Rightarrow> Inl Unreachable
     | Some q \<Rightarrow> if node_at s q = Some Dir then Inl IsADirectory else Inr (put_file q content s))"

definition is_file :: "string list \<Rightarrow> string \<Rightarrow> ws_store \<Rightarrow> bool" where
  "is_file dir name s = (case walk (node_at s) MAX_LINKS dir [name] of
       None \<Rightarrow> False
     | Some q \<Rightarrow> (case node_at s q of Some (File _) \<Rightarrow> True | _ \<Rightarrow> False))"

definition version_dir :: "uuid \<Rightarrow> string \<Rightarrow> ws_store \<Rightarrow> string list" where
  "version_dir w vid s = ws_root s @ [VERSIONS_DIRNAME, w, vid]"

section \<open>The provider\<close>

definition local_create :: "uuid \<Rightarrow> string \<Rightarrow> uuid option \<Rightarrow> ws_store \<Rightarrow> uuid \<times> ws_store" where
  "local_create fresh name wid s =
     (let w = or_else wid fresh; s1 = s\<lparr>ws_paths := List.insert w (ws_paths s)\<rparr> in
      case map_of (ws_dirs s) w of
        Some _ \<Rightarrow> (w, s1)
      | None \<Rightarrow> (w, s1\<lparr>ws_dirs := AList.update w (write_file [''.workspace''] (name @ [char_of (10 :: nat)]) []) (ws_dirs s)\<rparr>))"

text \<open>\<open>path\<close> answers for the workspaces of this process only.\<close>

definition local_path :: "uuid \<Rightarrow> ws_store \<Rightarrow> fs_error + uuid" where
  "local_path w s = (if w \<in> set (ws_paths s) then Inr w else Inl UnknownWorkspace)"

definition kubernetes_create :: "uuid \<Rightarrow> uuid option \<Rightarrow> uuid \<times> string" where
  "kubernetes_create fresh wid = (let w = or_else wid fresh in (w, ''pvc://workspace-'' @ w))"

section \<open>Snapshots\<close>

text \<open>Whatever is raised after the copy removes the new snapshot.\<close>

definition create_version :: "(snapshot \<Rightarrow> string) \<Rightarrow> string \<Rightarrow> time \<Rightarrow> uuid \<Rightarrow> string option \<Rightarrow> ws_store \<Rightarrow> fs_error + (string \<times> ws_store)" where
  "create_version manifest vid now w name s = (case local_path w s of
       Inl e \<Rightarrow> Inl e
     | Inr _ \<Rightarrow> (case map_of (ws_dirs s) w of
         None \<Rightarrow> Inl FileNotFound
       | Some t \<Rightarrow>
           (let x = \<lparr>sn_workspace = w, sn_version = vid, sn_name = name, sn_created_at = now, sn_tree = copytree ''.agentsupport'' t\<rparr> in
            case write_text (version_dir w vid s) MANIFEST_NAME (manifest x) (s\<lparr>ws_snapshots := ws_snapshots s @ [x]\<rparr>) of
              Inl e \<Rightarrow> Inl e
            | Inr s1 \<Rightarrow> Inr (vid, s1))))"

definition list_versions :: "uuid \<Rightarrow> ws_store \<Rightarrow> snapshot list" where
  "list_versions w s = sort_key sn_created_at
     (filter (\<lambda>x. sn_workspace x = w \<and> is_file (version_dir w (sn_version x) s) MANIFEST_NAME s) (ws_snapshots s))"

definition find_version :: "uuid \<Rightarrow> string \<Rightarrow> ws_store \<Rightarrow> snapshot option" where
  "find_version w vid s = (if is_file (version_dir w vid s) MANIFEST_NAME s then db_get snapshot_key (w, vid) (ws_snapshots s) else None)"

definition restore_version :: "uuid \<Rightarrow> string \<Rightarrow> ws_store \<Rightarrow> fs_error + ws_store" where
  "restore_version w vid s = (case local_path w s of
       Inl e \<Rightarrow> Inl e
     | Inr _ \<Rightarrow> (case find_version w vid s of
         None \<Rightarrow> Inl FileNotFound
       | Some x \<Rightarrow> Inr (s\<lparr>ws_dirs := AList.update w (copytree MANIFEST_NAME (sn_tree x)) (ws_dirs s)\<rparr>)))"

text \<open>An error in the write leaves the directory of the clone behind.\<close>

definition create_from_version :: "uuid \<Rightarrow> uuid \<Rightarrow> string \<Rightarrow> ws_store \<Rightarrow> (fs_error + uuid) \<times> ws_store" where
  "create_from_version clone w vid s = (case find_version w vid s of
       None \<Rightarrow> (Inl FileNotFound, s)
     | Some x \<Rightarrow>
         (let s1 = s\<lparr>ws_dirs := AList.update clone (copytree MANIFEST_NAME (sn_tree x)) (ws_dirs s)\<rparr> in
          case write_text (ws_root s @ [clone]) ''.workspace'' (''eval-clone'' @ [char_of (10 :: nat)]) s1 of
            Inl e \<Rightarrow> (Inl e, s1)
          | Inr s2 \<Rightarrow> (Inr clone, s2\<lparr>ws_paths := List.insert clone (ws_paths s2)\<rparr>)))"

definition delete_workspace :: "uuid \<Rightarrow> ws_store \<Rightarrow> fs_error + ws_store" where
  "delete_workspace w s = (case local_path w s of
       Inl e \<Rightarrow> Inl e
     | Inr _ \<Rightarrow> Inr (s\<lparr>ws_dirs := AList.delete w (ws_dirs s), ws_paths := removeAll w (ws_paths s)\<rparr>))"

section \<open>Histories\<close>

text \<open>An entry at the top of a tree that is no link.\<close>

definition no_link :: "string \<Rightarrow> tree \<Rightarrow> bool" where
  "no_link name t = (case map_of t [name] of Some (Link _) \<Rightarrow> False | _ \<Rightarrow> True)"

text \<open>What happens to the store: the operations, a run that leaves any tree in an existing workspace, and a restart of
  the process. A fresh version identifier and a fresh clone are new. No workspace that is snapshotted has a link called \<open>manifest.json\<close> at its top, and no
  snapshot that is cloned a link called \<open>.workspace\<close>; what happens otherwise is shown at the end.\<close>

inductive ws_steps :: "(snapshot \<Rightarrow> string) \<Rightarrow> ws_store \<Rightarrow> ws_store \<Rightarrow> bool" for manifest where
  ws_idle: "ws_steps manifest s s"
| ws_create: "ws_steps manifest s s1 \<Longrightarrow> local_create fresh name wid s1 = (w, s2) \<Longrightarrow> ws_steps manifest s s2"
| ws_snapshot: "ws_steps manifest s s1 \<Longrightarrow> vid \<notin> sn_version ` set (ws_snapshots s1)
    \<Longrightarrow> map_of (ws_dirs s1) w = Some t \<Longrightarrow> no_link MANIFEST_NAME t
    \<Longrightarrow> create_version manifest vid now w name s1 = Inr (vid, s2) \<Longrightarrow> ws_steps manifest s s2"
| ws_restore: "ws_steps manifest s s1 \<Longrightarrow> restore_version w vid s1 = Inr s2 \<Longrightarrow> ws_steps manifest s s2"
| ws_clone: "ws_steps manifest s s1 \<Longrightarrow> clone \<notin> insert VERSIONS_DIRNAME (fst ` set (ws_dirs s1))
    \<Longrightarrow> find_version w vid s1 = Some x \<Longrightarrow> no_link ''.workspace'' (sn_tree x)
    \<Longrightarrow> create_from_version clone w vid s1 = (r, s2) \<Longrightarrow> ws_steps manifest s s2"
| ws_delete: "ws_steps manifest s s1 \<Longrightarrow> delete_workspace w s1 = Inr s2 \<Longrightarrow> ws_steps manifest s s2"
| ws_run: "ws_steps manifest s s1 \<Longrightarrow> w \<in> fst ` set (ws_dirs s1) \<Longrightarrow> ws_steps manifest s (s1\<lparr>ws_dirs := AList.update w t (ws_dirs s1)\<rparr>)"
| ws_restart: "ws_steps manifest s s1 \<Longrightarrow> ws_steps manifest s (s1\<lparr>ws_paths := []\<rparr>)"

section \<open>Lemmas\<close>

lemma map_of_copytree: "map_of (copytree n t) p = (if n \<in> set p then None else map_of t p)"
  by (induction t) (auto simp: copytree_def)

lemma map_of_write: "map_of (write_file p c t) q = (if q = p then Some (File c) else map_of t q)"
  by (simp add: write_file_def update_conv')

lemma walk_direct: "c \<notin> {[], ''.'', ''..''} \<Longrightarrow> (\<And>l. look (cur @ [c]) \<noteq> Some (Link l)) \<Longrightarrow> walk look n cur [c] = Some (cur @ [c])"
  by (auto split: option.split node.split)

lemma place_version [simp]: "place_of root (root @ VERSIONS_DIRNAME # w # v # q) = In_Version w v q"
  by (simp add: place_of_def)

lemma place_workspace: "w \<noteq> VERSIONS_DIRNAME \<Longrightarrow> place_of root (root @ w # q) = In_Workspace w q"
  by (simp add: place_of_def)

lemma no_link_node: "no_link name t \<Longrightarrow> tree_node t [name] \<noteq> Some (Link l)"
  by (auto simp: no_link_def tree_node_def split: option.splits)

lemma no_link_copytree: "no_link name t \<Longrightarrow> no_link name (copytree n t)"
  by (auto simp: no_link_def map_of_copytree split: option.splits)

lemma special_names [simp]: "MANIFEST_NAME \<notin> {[], ''.'', ''..''}" "''.workspace'' \<notin> {[], ''.'', ''..'' :: string}"
  by (simp_all add: MANIFEST_NAME_def)

text \<open>A write to a name at the top of a snapshot or of a workspace that is no link stays there.\<close>

lemma write_version:
  assumes "db_get snapshot_key (w, v) (ws_snapshots s) = Some x" "no_link MANIFEST_NAME (sn_tree x)"
    "write_text (version_dir w v s) MANIFEST_NAME c s = Inr s'"
  shows "s' = s\<lparr>ws_snapshots := db_set snapshot_key (w, v) (\<lambda>x. x\<lparr>sn_tree := write_file [MANIFEST_NAME] c (sn_tree x)\<rparr>) (ws_snapshots s)\<rparr>"
proof -
  let ?p = "ws_root s @ [VERSIONS_DIRNAME, w, v, MANIFEST_NAME]"
  have n: "node_at s ?p = tree_node (sn_tree x) [MANIFEST_NAME]" using assms(1) by (simp add: node_at_def)
  have "walk (node_at s) MAX_LINKS (version_dir w v s) [MANIFEST_NAME] = Some (version_dir w v s @ [MANIFEST_NAME])"
    by (rule walk_direct) (use n no_link_node [OF assms(2)] in \<open>simp_all add: version_dir_def MANIFEST_NAME_def\<close>)
  then show ?thesis using assms(3) by (auto simp: write_text_def version_dir_def put_file_def split: if_splits)
qed

lemma write_workspace:
  assumes "w \<noteq> VERSIONS_DIRNAME" "map_of (ws_dirs s) w = Some t" "no_link ''.workspace'' t"
  shows "write_text (ws_root s @ [w]) ''.workspace'' c s = (if tree_node t [''.workspace''] = Some Dir then Inl IsADirectory
      else Inr (s\<lparr>ws_dirs := AList.map_entry w (write_file [''.workspace''] c) (ws_dirs s)\<rparr>))"
proof -
  let ?p = "ws_root s @ [w, ''.workspace'']"
  have n: "node_at s ?p = tree_node t [''.workspace'']" using assms(1,2) by (simp add: node_at_def place_workspace)
  have "walk (node_at s) MAX_LINKS (ws_root s @ [w]) [''.workspace''] = Some (ws_root s @ [w] @ [''.workspace''])"
    using walk_direct [of "''.workspace''" "node_at s" "ws_root s @ [w]" MAX_LINKS] n no_link_node [OF assms(3)] by simp
  then show ?thesis using assms(1) n by (simp add: write_text_def put_file_def place_workspace)
qed

lemma created_version:
  assumes "create_version manifest vid now w name s = Inr (vid, s')" "vid \<notin> sn_version ` set (ws_snapshots s)"
    "map_of (ws_dirs s) w = Some t" "no_link MANIFEST_NAME t"
  shows "\<exists>x c. s' = s\<lparr>ws_snapshots := ws_snapshots s @ [x]\<rparr> \<and> snapshot_key x = (w, vid)
    \<and> sn_tree x = write_file [MANIFEST_NAME] c (copytree ''.agentsupport'' t)"
proof -
  define x where "x = \<lparr>sn_workspace = w, sn_version = vid, sn_name = name, sn_created_at = now, sn_tree = copytree ''.agentsupport'' t\<rparr>"
  let ?s = "s\<lparr>ws_snapshots := ws_snapshots s @ [x]\<rparr>" and ?f = "\<lambda>x. x\<lparr>sn_tree := write_file [MANIFEST_NAME] (manifest x) (sn_tree x)\<rparr>"
  have w: "write_text (version_dir w vid ?s) MANIFEST_NAME (manifest x) ?s = Inr s'"
    using assms(1,3) by (auto simp: create_version_def Let_def x_def version_dir_def split: sum.splits)
  have old: "snapshot_key y \<noteq> (w, vid)" if "y \<in> set (ws_snapshots s)" for y using assms(2) that by auto
  then have none: "db_get snapshot_key (w, vid) (ws_snapshots s) = None" by (auto simp: db_get_None)
  then have "db_get snapshot_key (w, vid) (ws_snapshots ?s) = Some x" by (simp add: db_get_append db_get_Cons x_def)
  from write_version [OF this _ w] have "s' = ?s\<lparr>ws_snapshots := db_set snapshot_key (w, vid)
      (\<lambda>y. y\<lparr>sn_tree := write_file [MANIFEST_NAME] (manifest x) (sn_tree y)\<rparr>) (ws_snapshots s @ [x])\<rparr>"
    using no_link_copytree [OF assms(4)] by (simp add: x_def)
  also have "db_set snapshot_key (w, vid) (\<lambda>y. y\<lparr>sn_tree := write_file [MANIFEST_NAME] (manifest x) (sn_tree y)\<rparr>) (ws_snapshots s @ [x])
      = ws_snapshots s @ [?f x]"
    using old by (auto simp: db_set_def x_def intro!: map_idI dest: old)
  finally show ?thesis by (intro exI [of _ "?f x"] exI [of _ "manifest x"]) (simp add: x_def)
qed

lemma find_version_stored:
  assumes "db_get snapshot_key (w, vid) (ws_snapshots s) = Some x" "map_of (sn_tree x) [MANIFEST_NAME] = Some (File c)"
  shows "find_version w vid s = Some x"
proof -
  let ?p = "ws_root s @ [VERSIONS_DIRNAME, w, vid, MANIFEST_NAME]"
  have n: "node_at s ?p = Some (File c)" using assms by (simp add: node_at_def tree_node_def)
  have "walk (node_at s) MAX_LINKS (version_dir w vid s) [MANIFEST_NAME] = Some (version_dir w vid s @ [MANIFEST_NAME])"
    by (rule walk_direct) (use n in \<open>simp_all add: version_dir_def MANIFEST_NAME_def\<close>)
  then show ?thesis using assms(1) n by (simp add: find_version_def is_file_def version_dir_def)
qed

lemma find_version_get: "find_version w vid s = Some x \<Longrightarrow> db_get snapshot_key (w, vid) (ws_snapshots s) = Some x"
  by (auto simp: find_version_def split: if_splits)

text \<open>A clone whose snapshot has no link called \<open>.workspace\<close> changes its own directory only.\<close>

lemma clone_store:
  assumes "clone \<noteq> VERSIONS_DIRNAME" "find_version w vid s = Some x" "no_link ''.workspace'' (sn_tree x)"
  shows "create_from_version clone w vid s =
    (let t = copytree MANIFEST_NAME (sn_tree x); s1 = s\<lparr>ws_dirs := AList.update clone t (ws_dirs s)\<rparr> in
     if tree_node t [''.workspace''] = Some Dir then (Inl IsADirectory, s1)
     else (Inr clone, s1\<lparr>ws_dirs := AList.map_entry clone (write_file [''.workspace''] (''eval-clone'' @ [char_of (10 :: nat)])) (ws_dirs s1),
                        ws_paths := List.insert clone (ws_paths s)\<rparr>))"
proof -
  let ?t = "copytree MANIFEST_NAME (sn_tree x)" and ?c = "''eval-clone'' @ [char_of (10 :: nat)]"
  let ?s = "s\<lparr>ws_dirs := AList.update clone ?t (ws_dirs s)\<rparr>"
  have "write_text (ws_root s @ [clone]) ''.workspace'' ?c ?s = (if tree_node ?t [''.workspace''] = Some Dir then Inl IsADirectory
      else Inr (?s\<lparr>ws_dirs := AList.map_entry clone (write_file [''.workspace''] ?c) (ws_dirs ?s)\<rparr>))"
    using write_workspace [OF assms(1), of ?s ?t ?c] no_link_copytree [OF assms(3)] by (simp add: update_conv')
  then show ?thesis using assms(2) by (simp add: create_from_version_def Let_def)
qed

lemma snapshots_kept:
  assumes "ws_steps manifest s s'" "db_get snapshot_key k (ws_snapshots s) = Some x"
  shows "db_get snapshot_key k (ws_snapshots s') = Some x"
  using assms
proof (induction rule: ws_steps.induct)
  case (ws_snapshot s s1 vid w t now name s2)
  from created_version [OF ws_snapshot.hyps(5,2-4)] obtain y where "ws_snapshots s2 = ws_snapshots s1 @ [y]" by auto
  then show ?case using ws_snapshot.IH [OF ws_snapshot.prems] by (simp add: db_get_append)
next
  case (ws_clone s s1 clone w vid x' r s2)
  have "clone \<noteq> VERSIONS_DIRNAME" using ws_clone.hyps(2) by simp
  from clone_store [OF this ws_clone.hyps(3,4)] ws_clone.hyps(5) have "ws_snapshots s2 = ws_snapshots s1"
    by (auto simp: Let_def split: if_splits)
  then show ?case using ws_clone.IH [OF ws_clone.prems] by simp
qed (auto simp: local_create_def restore_version_def delete_workspace_def Let_def split: option.splits sum.splits)

text \<open>What restoring a snapshot leaves of the tree it was taken from.\<close>

definition baseline :: "tree \<Rightarrow> string list \<Rightarrow> node option" where
  "baseline t p = (if ''.agentsupport'' \<in> set p \<or> MANIFEST_NAME \<in> set p then None else map_of t p)"

definition below :: "tree \<Rightarrow> string list \<Rightarrow> bool" where
  "below t p = (\<exists>q \<in> fst ` set t. length p < length q \<and> take (length p) q = p)"

lemma tree_node_dir: "tree_node t p = Some Dir \<longleftrightarrow> p = [] \<or> map_of t p = Some Dir \<or> map_of t p = None \<and> below t p"
proof -
  have "list_ex (\<lambda>(q, _). length p < length q \<and> take (length p) q = p) t = below t p"
    by (force simp: list_ex_iff below_def)
  then show ?thesis by (auto simp: tree_node_def split: option.splits)
qed

lemma tree_node_copytree:
  assumes "tree_node (copytree n t) p = Some Dir"
  shows "tree_node t p = Some Dir"
proof -
  have "n \<notin> set p" if "n \<notin> set q" "take (length p) q = p" for q
    using that set_take_subset [of "length p" q] by auto
  moreover have "fst ` set (copytree n t) = {q \<in> fst ` set t. n \<notin> set q}" by (force simp: copytree_def)
  ultimately have "below (copytree n t) p \<Longrightarrow> below t p \<and> n \<notin> set p" by (auto simp: below_def)
  with assms show ?thesis by (auto simp: tree_node_dir map_of_copytree split: if_splits)
qed

lemma tree_node_write:
  assumes "p \<noteq> q" "length q \<le> length p"
  shows "tree_node (write_file q c t) p = Some Dir \<longleftrightarrow> tree_node t p = Some Dir"
proof -
  have "below (write_file q c t) p = below t p" using assms(2) by (auto simp: below_def write_file_def dom_update)
  then show ?thesis using assms(1) by (auto simp: tree_node_dir map_of_write)
qed

section \<open>Properties\<close>


text \<open>The witness: a workspace with a link is snapshotted, emptied by a run and restored.\<close>

definition demo_tree :: tree where
  "demo_tree = [([''a''], File ''1''), ([''sub'', ''manifest.json''], File ''2''), ([''l''], Link ''a'')]"

definition demo_store :: ws_store where
  "demo_store = \<lparr>ws_root = [''srv''], ws_elsewhere = [], ws_dirs = [(''w'', demo_tree)], ws_snapshots = [], ws_paths = [''w'']\<rparr>"


section \<open>Behaviours worth knowing\<close>

text \<open>After a restart no workspace can be snapshotted or restored until it is created again.\<close>

lemma restart_forgets_paths:
  "create_version manifest vid now w name (s\<lparr>ws_paths := []\<rparr>) = Inl UnknownWorkspace
   \<and> restore_version w vid (s\<lparr>ws_paths := []\<rparr>) = Inl UnknownWorkspace"
  by (simp add: create_version_def restore_version_def local_path_def)

text \<open>A workspace file called \<open>manifest.json\<close> is lost by a snapshot and its restore.\<close>

lemma manifest_file_lost: "baseline [([''manifest.json''], n)] [''manifest.json''] = None"
  by (simp add: baseline_def MANIFEST_NAME_def)

text \<open>A link called \<open>manifest.json\<close> sends the manifest to where it leads: to another file of the new snapshot, to a snapshot of another
  workspace, or out of the root directory. With a directory of that name no version can be made.\<close>

definition linked :: "tree \<Rightarrow> ws_store" where
  "linked t = \<lparr>ws_root = [''srv'', ''ws''], ws_elsewhere = [([''srv'', ''keys''], File ''k'')], ws_dirs = [(''w'', t)],
     ws_snapshots = [\<lparr>sn_workspace = ''w2'', sn_version = ''v2'', sn_name = None, sn_created_at = 0, sn_tree = [([''b''], File ''2'')]\<rparr>],
     ws_paths = [''w'']\<rparr>"

definition versioned :: "tree \<Rightarrow> fs_error + ws_store" where
  "versioned t = map_sum id snd (create_version (\<lambda>_. ''{}'') ''v'' 1 ''w'' None (linked t))"

lemma manifest_through_link:
  "map_sum id (\<lambda>s. map sn_tree (ws_snapshots s)) (versioned [([''a''], File ''1''), ([''manifest.json''], Link ''a'')])
     = Inr [[([''b''], File ''2'')], [([''a''], File ''{}''), ([''manifest.json''], Link ''a'')]]"
  "map_sum id (\<lambda>s. map sn_tree (ws_snapshots s)) (versioned [([''manifest.json''], Link ''../../w2/v2/b'')])
     = Inr [[([''b''], File ''{}'')], [([''manifest.json''], Link ''../../w2/v2/b'')]]"
  "map_sum id ws_elsewhere (versioned [([''manifest.json''], Link ''/srv/keys'')]) = Inr [([''srv'', ''keys''], File ''{}'')]"
  "map_sum id ws_elsewhere (versioned [([''manifest.json''], Dir)]) = Inl IsADirectory"
  "map_sum id ws_elsewhere (versioned [([''manifest.json'', ''x''], File ''1'')]) = Inl IsADirectory"
  by code_simp+

text \<open>In the same way a link called \<open>.workspace\<close> in a snapshot makes the clone write elsewhere, and a directory makes it fail with
  the copied directory left behind.\<close>

definition cloned :: "tree \<Rightarrow> (fs_error + uuid) \<times> ws_store" where
  "cloned t = create_from_version ''c'' ''w'' ''v'' ((linked [])\<lparr>ws_snapshots := [\<lparr>sn_workspace = ''w'', sn_version = ''v'', sn_name = None,
     sn_created_at = 0, sn_tree = ([''manifest.json''], File ''{}'') # t\<rparr>]\<rparr>)"

lemma clone_through_link:
  "map_prod id ws_elsewhere (cloned [([''.workspace''], Link ''/srv/keys'')])
     = (Inr ''c'', [([''srv'', ''keys''], File (''eval-clone'' @ [char_of (10 :: nat)]))])"
  "map_prod id (map fst \<circ> ws_dirs) (cloned [([''.workspace''], Dir)]) = (Inl IsADirectory, [''w'', ''c''])"
  by code_simp+

end
