(* ===== verification/Skill_Store.thy ===== *)
theory Skill_Store
  imports Command_Gate
begin

text \<open>
  The skill source of a deployment, \<open>adapters/skills/local.py\<close>: a directory tree with one directory per skill in the
  shared namespace and, below \<open>tenants/<tenant>\<close>, in each tenant's. The tree is the list of its files, each a
  path below the configured root with its bytes; directories without files are not kept, and there are no symbolic
  links, so that resolving a path is a matter of its components: a name is split at its slashes, \<open>..\<close> goes up. A path that leaves the
  root keeps its leading \<open>..\<close> (or \<open>/\<close> for an absolute one) and is no path of the tree. Bytes are characters, which is how ASCII text decodes;
  \<open>sha\<close> is the hexadecimal SHA-256. An archive is the list of its entries, as \<open>zipfile\<close> reads it.
\<close>

section \<open>Front matter\<close>

abbreviation nl :: char where "nl \<equiv> CHR 0x0A"
abbreviation cr :: char where "cr \<equiv> CHR 0x0D"

text \<open>
  The regular expression matches \<open>---\<close>, white space, a line end, the shortest body, a line end, \<open>---\<close>, and white space up
  to a line end or the end of the text. The first white space is as long as possible; it may run over
  several lines and gives back lines when the rest does not match.
\<close>

definition fm_tail :: "string \<Rightarrow> bool" where
  "fm_tail s = (let run = takeWhile py_isspace s in nl \<in> set run \<or> run = s)"

definition fm_closes :: "string \<Rightarrow> bool" where
  "fm_closes s = (let r = (if py_startswith s [cr, nl] then tl s else s) in
     py_startswith r (nl # ''---'') \<and> fm_tail (drop 4 r))"

fun fm_body :: "string \<Rightarrow> string option" where
  "fm_body [] = (if fm_closes [] then Some [] else None)"
| "fm_body (c # s) = (if fm_closes (c # s) then Some [] else map_option (Cons c) (fm_body s))"

definition after_newline :: "string \<Rightarrow> string list" where
  "after_newline s = (if py_startswith s [cr, nl] then [drop 2 s] else if py_startswith s [nl] then [drop 1 s] else [])"

fun first_some :: "'a option list \<Rightarrow> 'a option" where
  "first_some [] = None"
| "first_some (x # xs) = (case x of Some v \<Rightarrow> Some v | None \<Rightarrow> first_some xs)"

definition frontmatter_block :: "string \<Rightarrow> string option" where
  "frontmatter_block s =
     (if \<not> py_startswith s ''---'' then None
      else (let t = drop 3 s; n = length (takeWhile py_isspace t) in
            first_some (map fm_body (concat (map (\<lambda>k. after_newline (drop k t)) (rev [0..<Suc n]))))))"

text \<open>\<open>str.splitlines\<close> and \<open>str.partition\<close>.\<close>

definition line_end :: "char \<Rightarrow> bool" where
  "line_end c = (let n = of_char c :: nat in 10 \<le> n \<and> n \<le> 13 \<or> 28 \<le> n \<and> n \<le> 30 \<or> n = 133)"

fun splitlines :: "string \<Rightarrow> string \<Rightarrow> string list" where
  "splitlines acc [] = (if acc = [] then [] else [rev acc])"
| "splitlines acc (c # s) =
     (if c = cr \<and> s \<noteq> [] \<and> hd s = nl then splitlines acc s
      else if line_end c then rev acc # splitlines [] s
      else splitlines (c # acc) s)"

definition partition_at :: "char \<Rightarrow> string \<Rightarrow> (string \<times> string) option" where
  "partition_at c s = (case dropWhile (\<lambda>x. x \<noteq> c) s of [] \<Rightarrow> None | _ # v \<Rightarrow> Some (takeWhile (\<lambda>x. x \<noteq> c) s, v))"

fun fm_fields :: "string list \<Rightarrow> (string \<times> string) list \<Rightarrow> (string \<times> string) list" where
  "fm_fields [] acc = acc"
| "fm_fields (l # ls) acc = fm_fields ls
     (if py_strip l = [] \<or> py_startswith (py_lstrip_by py_isspace l) ''#'' then acc
      else (case partition_at CHR '':'' l of
          None \<Rightarrow> acc
        | Some (k, v) \<Rightarrow> AList.update (py_strip k)
            (py_strip_by (\<lambda>c. c = CHR 0x27) (py_strip_by (\<lambda>c. c = CHR 0x22) (py_strip v))) acc))"

definition parse_skill_frontmatter :: "string \<Rightarrow> (string \<times> string) list" where
  "parse_skill_frontmatter content = (case frontmatter_block content of
       None \<Rightarrow> [] | Some b \<Rightarrow> fm_fields (splitlines [] b) [])"

text \<open>Reading a file as text turns every line end into a line feed.\<close>

fun universal_newlines :: "string \<Rightarrow> string" where
  "universal_newlines [] = []"
| "universal_newlines (c # s) = (if c = cr then nl # universal_newlines (if s \<noteq> [] \<and> hd s = nl then tl s else s)
     else c # universal_newlines s)"

definition skill_catalog_entry :: "string \<Rightarrow> string \<Rightarrow> string \<times> string \<times> string" where
  "skill_catalog_entry sid content = (let fm = parse_skill_frontmatter content in
     (sid, or_else (map_of fm ''name'') [], or_else (map_of fm ''description'') []))"

section \<open>State\<close>

type_synonym skill_tree = "(string list \<times> string) list"

datatype skill_error = SkillValueError | SkillNotFound | SkillOSError

definition MAX_UPLOAD_SIZE :: nat where "MAX_UPLOAD_SIZE = 2 * 1024 * 1024"
definition MAX_ENTRY_SIZE :: nat where "MAX_ENTRY_SIZE = 2 * 1024 * 1024"
definition MAX_UNPACKED_SIZE :: nat where "MAX_UNPACKED_SIZE = 10 * 1024 * 1024"
definition MAX_ENTRY_COUNT :: nat where "MAX_ENTRY_COUNT = 200"

text \<open>The files below a directory, with their paths relative to it.\<close>

definition below :: "string list \<Rightarrow> skill_tree \<Rightarrow> skill_tree" where
  "below d t = map (\<lambda>(p, c). (drop (length d) p, c)) (filter (\<lambda>(p, _). take (length d) p = d) t)"

definition rmtree :: "string list \<Rightarrow> skill_tree \<Rightarrow> skill_tree" where
  "rmtree d t = filter (\<lambda>(p, _). take (length d) p \<noteq> d) t"

section \<open>Lookup\<close>

text \<open>\<open>(d / s).resolve()\<close> and \<open>Path.parent\<close>.\<close>

fun resolved :: "string list \<Rightarrow> string list \<Rightarrow> string list" where
  "resolved d [] = d"
| "resolved d (c # cs) =
     (if c = [] \<or> c = ''.'' then resolved d cs
      else if c = ''..'' then resolved (if d = [] \<or> last d = ''..'' then d @ [''..''] else butlast d) cs
      else resolved (d @ [c]) cs)"

definition subdir :: "string list \<Rightarrow> string \<Rightarrow> string list" where
  "subdir d s = (if py_startswith s ''/'' then ''/'' # resolved [] (py_split_on (CHR ''/'') s)
     else resolved d (py_split_on (CHR ''/'') s))"

definition parent_dir :: "string list \<Rightarrow> string list" where
  "parent_dir d = (if d = [''/''] then d else if d = [] \<or> last d = ''..'' then d @ [''..''] else butlast d)"

definition valid_skill_id :: "string \<Rightarrow> bool" where
  "valid_skill_id sid = (case sid of [] \<Rightarrow> False
     | c # cs \<Rightarrow> is_alnum_ascii c \<and> list_all (\<lambda>x. is_alnum_ascii x \<or> x \<in> {CHR ''.'', CHR ''_'', CHR ''-''}) cs)"

definition valid_tenant :: "string \<Rightarrow> bool" where
  "valid_tenant t = (t \<noteq> [] \<and> length t \<le> 120 \<and> CHR ''/'' \<notin> set t \<and> CHR 0x5C \<notin> set t)"

definition skill_namespace :: "string option \<Rightarrow> skill_error + string list" where
  "skill_namespace tenant = (case tenant of None \<Rightarrow> Inr []
     | Some t \<Rightarrow> if \<not> valid_tenant t \<or> t \<in> {''.'', ''..''} then Inl SkillValueError
         else (let root = subdir [] ''tenants''; ns = subdir root t in
               if parent_dir ns \<noteq> root then Inl SkillValueError else Inr ns))"

definition search_namespaces :: "string option \<Rightarrow> skill_error + string list list" where
  "search_namespaces tenant = (case skill_namespace tenant of
       Inl e \<Rightarrow> Inl e | Inr ns \<Rightarrow> Inr (if ns = [] then [[]] else [ns, []]))"

text \<open>The namespace that holds the skill, first the tenant's, then the shared one.\<close>

fun find_skill :: "string \<Rightarrow> skill_tree \<Rightarrow> string list list \<Rightarrow> skill_error + (string \<times> string list)" where
  "find_skill sid t [] = Inl SkillNotFound"
| "find_skill sid t (ns # nss) = (let source = subdir ns sid in
     if parent_dir source \<noteq> ns then Inl SkillValueError
     else case map_of t (source @ [''SKILL.md'']) of Some c \<Rightarrow> Inr (c, source) | None \<Rightarrow> find_skill sid t nss)"

definition resolve_one :: "string \<Rightarrow> string option \<Rightarrow> skill_tree \<Rightarrow> skill_error + (string \<times> string list)" where
  "resolve_one sid tenant t =
     (if \<not> valid_skill_id sid then Inl SkillValueError
      else case search_namespaces tenant of Inl e \<Rightarrow> Inl e | Inr nss \<Rightarrow> find_skill sid t nss)"

fun resolve_skills :: "string list \<Rightarrow> string option \<Rightarrow> skill_tree \<Rightarrow> skill_error + (string \<times> string list) list" where
  "resolve_skills [] tenant t = Inr []"
| "resolve_skills (sid # sids) tenant t = (case resolve_one sid tenant t of
       Inl e \<Rightarrow> Inl e
     | Inr r \<Rightarrow> map_sum id (Cons r) (resolve_skills sids tenant t))"

definition skill_catalog :: "string list \<Rightarrow> string option \<Rightarrow> skill_tree \<Rightarrow> skill_error + (string \<times> string \<times> string) list" where
  "skill_catalog sids tenant t = map_sum id (\<lambda>rs. map2 (\<lambda>sid (c, _). skill_catalog_entry sid (universal_newlines c)) sids rs)
     (resolve_skills sids tenant t)"

definition skill_package :: "string list \<Rightarrow> string option \<Rightarrow> skill_tree \<Rightarrow> skill_error + (string \<times> skill_tree) list" where
  "skill_package sids tenant t = map_sum id (\<lambda>rs. map2 (\<lambda>sid (_, dir). (sid, sort_key fst (below dir t))) sids rs)
     (resolve_skills sids tenant t)"

text \<open>The skills of a directory: the children with a \<open>SKILL.md\<close>.\<close>

definition skills_in :: "string list \<Rightarrow> skill_tree \<Rightarrow> (string \<times> string) list" where
  "skills_in ns t = map (\<lambda>(p, c). (hd p, c)) (filter (\<lambda>(p, _). length p = 2 \<and> last p = ''SKILL.md'') (below ns t))"

definition list_skills :: "(string \<Rightarrow> string) \<Rightarrow> string option \<Rightarrow> skill_tree \<Rightarrow> skill_error + (string \<times> string) list" where
  "list_skills sha tenant t = (case search_namespaces tenant of
       Inl e \<Rightarrow> Inl e
     | Inr nss \<Rightarrow> Inr (sort_key fst (fold (\<lambda>ns found. fold (\<lambda>(sid, c). AList.update sid (sha c)) (skills_in ns t) found) (rev nss) [])))"

definition describe_skill :: "(string \<Rightarrow> string) \<Rightarrow> string \<Rightarrow> string option \<Rightarrow> skill_tree
    \<Rightarrow> skill_error + (string \<times> string \<times> (string \<times> nat) list)" where
  "describe_skill sha sid tenant t = (case resolve_one sid tenant t of
       Inl e \<Rightarrow> Inl e
     | Inr (c, dir) \<Rightarrow> Inr (sid, sha c, sort_key fst (map (\<lambda>(p, b). (py_join ''/'' p, length b)) (below dir t))))"

section \<open>Installation\<close>

text \<open>Writing a file: its parts may not be a directory of the package, nor lie below one of its files.\<close>

definition stage_file :: "string list \<Rightarrow> string \<Rightarrow> skill_tree \<Rightarrow> skill_tree option" where
  "stage_file p b t = (if p = [] \<or> list_ex (\<lambda>(q, _). q \<noteq> p \<and> (take (length q) p = q \<or> take (length p) q = p)) t then None
     else Some (AList.update p b t))"

fun stage_files :: "(string \<times> string) list \<Rightarrow> nat \<Rightarrow> skill_tree \<Rightarrow> skill_error + skill_tree" where
  "stage_files [] n t = Inr t"
| "stage_files ((name, b) # fs) n t =
     (if fst (path_of name) \<noteq> [] \<or> ''..'' \<in> set (snd (path_of name)) then Inl SkillValueError
      else if length b > MAX_ENTRY_SIZE then Inl SkillValueError
      else case stage_file (snd (path_of name)) b t of
        None \<Rightarrow> Inl SkillOSError
      | Some t' \<Rightarrow> if n + length b > MAX_UNPACKED_SIZE then Inl SkillValueError else stage_files fs (n + length b) t')"

definition install_skill :: "(string \<Rightarrow> string) \<Rightarrow> string \<Rightarrow> (string \<times> string) list \<Rightarrow> string option \<Rightarrow> skill_tree
    \<Rightarrow> skill_error + ((string \<times> string) \<times> skill_tree)" where
  "install_skill sha sid files tenant t =
     (if \<not> valid_skill_id sid \<or> or_else (map_of files ''SKILL.md'') [] = [] then Inl SkillValueError
      else case skill_namespace tenant of
        Inl e \<Rightarrow> Inl e
      | Inr ns \<Rightarrow> (case stage_files files 0 [] of
          Inl e \<Rightarrow> Inl e
        | Inr st \<Rightarrow>
            (let md = or_else (map_of st [''SKILL.md'']) []; fm = parse_skill_frontmatter (universal_newlines md) in
             if or_else (map_of fm ''name'') [] = [] \<or> or_else (map_of fm ''description'') [] = [] then Inl SkillValueError
             else Inr ((sid, sha md), rmtree (subdir ns sid) t @ map (\<lambda>(p, b). (subdir ns sid @ p, b)) st))))"

record zip_entry =
  ze_filename :: string
  ze_is_dir :: bool
  ze_data :: string

fun zip_files :: "zip_entry list \<Rightarrow> nat \<Rightarrow> (string \<times> string) list \<Rightarrow> skill_error + (string \<times> string) list" where
  "zip_files [] n acc = Inr acc"
| "zip_files (e # es) n acc =
     (if ze_is_dir e then zip_files es n acc
      else if fst (path_of (ze_filename e)) \<noteq> [] \<or> ''..'' \<in> set (snd (path_of (ze_filename e))) then Inl SkillValueError
      else if length (ze_data e) > MAX_ENTRY_SIZE then Inl SkillValueError
      else if n + length (ze_data e) > MAX_UNPACKED_SIZE then Inl SkillValueError
      else zip_files es (n + length (ze_data e)) (AList.update (ze_filename e) (ze_data e) acc))"

definition install_zip :: "(string \<Rightarrow> zip_entry list) \<Rightarrow> (string \<Rightarrow> string) \<Rightarrow> string \<Rightarrow> string \<Rightarrow> string option \<Rightarrow> skill_tree
    \<Rightarrow> skill_error + ((string \<times> string) \<times> skill_tree)" where
  "install_zip unzip sha sid payload tenant t =
     (if length payload > MAX_UPLOAD_SIZE then Inl SkillValueError
      else if length (unzip payload) > MAX_ENTRY_COUNT then Inl SkillValueError
      else case zip_files (unzip payload) 0 [] of
        Inl e \<Rightarrow> Inl e
      | Inr files \<Rightarrow> install_skill sha sid files tenant t)"

definition remove_skill :: "string \<Rightarrow> string option \<Rightarrow> skill_tree \<Rightarrow> skill_error + (bool \<times> skill_tree)" where
  "remove_skill sid tenant t =
     (if \<not> valid_skill_id sid then Inl SkillValueError
      else case skill_namespace tenant of
        Inl e \<Rightarrow> Inl e
      | Inr ns \<Rightarrow> (let target = subdir ns sid in
          if parent_dir target \<noteq> ns then Inl SkillValueError
          else if below target t = [] then Inr (False, t) else Inr (True, rmtree target t)))"

section \<open>What the checks on names are for\<close>

text \<open>A name that passes the check is one component, so that the paths stay where they seem to be.\<close>

lemma split_on_one: "c \<notin> set s \<Longrightarrow> py_split_on c s = [s]"
  by (induction s) auto

lemma subdir_component:
  assumes "CHR ''/'' \<notin> set s" "s \<notin> {[], ''.'', ''..''}"
  shows "subdir d s = d @ [s]" "parent_dir (d @ [s]) = d"
proof -
  have "\<not> py_startswith s ''/''" using assms(1) by (cases s) (auto simp: py_startswith_def)
  then show "subdir d s = d @ [s]" using assms by (simp add: subdir_def split_on_one)
  have "s \<noteq> ''/''" using assms(1) by auto
  then show "parent_dir (d @ [s]) = d" using assms(2) by (auto simp: parent_dir_def)
qed

lemma valid_component: "valid_skill_id sid \<Longrightarrow> CHR ''/'' \<notin> set sid \<and> sid \<notin> {[], ''.'', ''..''}"
  by (cases sid) (auto simp: valid_skill_id_def list_all_iff is_alnum_ascii_def)

lemma valid_subdir:
  assumes "valid_skill_id sid"
  shows "subdir d sid = d @ [sid]" "parent_dir (d @ [sid]) = d"
  using subdir_component valid_component [OF assms] by blast+

lemma skill_namespace_eq: "skill_namespace tenant = (case tenant of None \<Rightarrow> Inr []
     | Some t \<Rightarrow> if \<not> valid_tenant t \<or> t \<in> {''.'', ''..''} then Inl SkillValueError else Inr [''tenants'', t])"
proof (cases tenant)
  case (Some t)
  have root: "subdir [] ''tenants'' = [''tenants'']" by code_simp
  have "subdir [''tenants''] t = [''tenants'', t]" "parent_dir [''tenants'', t] = [''tenants'']" if "valid_tenant t" "t \<notin> {''.'', ''..''}"
    using subdir_component [of t "[''tenants'']"] that by (auto simp: valid_tenant_def)
  then show ?thesis using Some by (auto simp: skill_namespace_def root Let_def)
qed (simp add: skill_namespace_def)

definition skill_file :: "string list \<Rightarrow> string \<Rightarrow> skill_tree \<Rightarrow> string option" where
  "skill_file ns sid t = map_of t (ns @ [sid, ''SKILL.md''])"

lemma find_skill_eq: "valid_skill_id sid \<Longrightarrow> find_skill sid t nss = (case find (\<lambda>ns. skill_file ns sid t \<noteq> None) nss of
    None \<Rightarrow> Inl SkillNotFound | Some ns \<Rightarrow> Inr (the (skill_file ns sid t), ns @ [sid]))"
  by (induction nss) (auto simp: valid_subdir skill_file_def split: option.splits)

lemma resolve_one_eq: "resolve_one sid tenant t =
     (if \<not> valid_skill_id sid then Inl SkillValueError
      else case search_namespaces tenant of
        Inl e \<Rightarrow> Inl e
      | Inr nss \<Rightarrow> (case find (\<lambda>ns. skill_file ns sid t \<noteq> None) nss of
          None \<Rightarrow> Inl SkillNotFound
        | Some ns \<Rightarrow> Inr (the (skill_file ns sid t), ns @ [sid])))"
  by (simp add: resolve_one_def find_skill_eq split: sum.split)

lemma install_skill_eq: "install_skill sha sid files tenant t =
     (if \<not> valid_skill_id sid \<or> or_else (map_of files ''SKILL.md'') [] = [] then Inl SkillValueError
      else case skill_namespace tenant of
        Inl e \<Rightarrow> Inl e
      | Inr ns \<Rightarrow> (case stage_files files 0 [] of
          Inl e \<Rightarrow> Inl e
        | Inr st \<Rightarrow>
            (let md = or_else (map_of st [''SKILL.md'']) []; fm = parse_skill_frontmatter (universal_newlines md) in
             if or_else (map_of fm ''name'') [] = [] \<or> or_else (map_of fm ''description'') [] = [] then Inl SkillValueError
             else Inr ((sid, sha md), rmtree (ns @ [sid]) t @ map (\<lambda>(p, b). (ns @ sid # p, b)) st))))"
  by (cases "valid_skill_id sid") (simp_all add: install_skill_def valid_subdir Let_def split: sum.split)

lemma remove_skill_eq: "remove_skill sid tenant t =
     (if \<not> valid_skill_id sid then Inl SkillValueError
      else case skill_namespace tenant of
        Inl e \<Rightarrow> Inl e
      | Inr ns \<Rightarrow> if below (ns @ [sid]) t = [] then Inr (False, t) else Inr (True, rmtree (ns @ [sid]) t))"
  by (cases "valid_skill_id sid") (simp_all add: remove_skill_def valid_subdir Let_def split: sum.split)

section \<open>Lemmas on trees\<close>

abbreviation under :: "string list \<Rightarrow> string list \<Rightarrow> bool" where
  "under d p \<equiv> take (length d) p = d"

lemma map_of_rmtree: "map_of (rmtree d t) p = (if under d p then None else map_of t p)"
  by (induction t) (auto simp: rmtree_def)

lemma map_of_moved: "map_of (map (\<lambda>(p, b). (d @ p, b)) t) q = (if under d q then map_of t (drop (length d) q) else None)"
proof (induction t)
  case (Cons x t)
  obtain p b where x: "x = (p, b)" by (metis surj_pair)
  have "q = d @ p \<longleftrightarrow> under d q \<and> drop (length d) q = p" by (metis append_eq_conv_conj)
  then show ?case using Cons by (auto simp: x)
qed simp

lemma below_rmtree [simp]: "below d (rmtree d t) = []"
  by (induction t) (auto simp: below_def rmtree_def)

lemma below_moved [simp]: "below d (map (\<lambda>(p, b). (d @ p, b)) t) = t"
  by (induction t) (auto simp: below_def)

lemma below_append: "below d (s @ t) = below d s @ below d t"
  by (simp add: below_def)

text \<open>The staged files: a later file of the same path wins.\<close>

definition package_map :: "(string \<times> string) list \<Rightarrow> string list \<Rightarrow> string option" where
  "package_map files = map_of (rev (map (\<lambda>(n, b). (snd (path_of n), b)) files))"

lemma stage_files_map:
  "stage_files files n t = Inr st \<Longrightarrow> map_of st = (\<lambda>p. case package_map files p of Some b \<Rightarrow> Some b | None \<Rightarrow> map_of t p)"
proof (induction files n t rule: stage_files.induct)
  case (2 name b fs n t)
  from 2(2) obtain t' where t': "stage_file (snd (path_of name)) b t = Some t'" "stage_files fs (n + length b) t' = Inr st"
      "\<not> (fst (path_of name) \<noteq> [] \<or> ''..'' \<in> set (snd (path_of name)))" "\<not> length b > MAX_ENTRY_SIZE" "\<not> n + length b > MAX_UNPACKED_SIZE"
    by (auto split: if_splits option.splits)
  have u: "t' = AList.update (snd (path_of name)) b t" using t'(1) by (auto simp: stage_file_def split: if_splits)
  from 2(1) [OF t'(3,4,1,5,2)] show ?case
    by (auto simp: u package_map_def update_conv' map_add_def fun_eq_iff split: option.split)
qed (simp add: package_map_def)

lemma install_result:
  assumes "install_skill sha sid files tenant t = Inr (m, t')"
  shows "\<exists>ns st md. skill_namespace tenant = Inr ns \<and> valid_skill_id sid \<and> stage_files files 0 [] = Inr st \<and> map_of st = package_map files
    \<and> map_of st [''SKILL.md''] = Some md \<and> m = (sid, sha md)
    \<and> t' = rmtree (ns @ [sid]) t @ map (\<lambda>(p, b). ((ns @ [sid]) @ p, b)) st"
proof -
  from assms obtain ns st where ns: "skill_namespace tenant = Inr ns" "stage_files files 0 [] = Inr st" "valid_skill_id sid"
    and f: "map_of files ''SKILL.md'' \<noteq> None"
    and t': "m = (sid, sha (or_else (map_of st [''SKILL.md'']) []))" "t' = rmtree (ns @ [sid]) t @ map (\<lambda>(p, b). (ns @ sid # p, b)) st"
    by (auto simp: install_skill_eq Let_def or_else_def split: if_splits sum.splits option.splits)
  have st: "map_of st = package_map files" using stage_files_map [OF ns(2)] by (auto simp: fun_eq_iff split: option.splits)
  have "snd (path_of ''SKILL.md'') = [''SKILL.md'']" by code_simp
  moreover from f obtain b where "(''SKILL.md'', b) \<in> set files" by (auto dest: map_of_SomeD)
  ultimately have "[''SKILL.md''] \<in> fst ` set (rev (map (\<lambda>(n, b). (snd (path_of n), b)) files))" by force
  then obtain md where "package_map files [''SKILL.md''] = Some md"
    unfolding package_map_def by (metis map_of_eq_None_iff not_None_eq)
  with st ns t' show ?thesis by (auto simp: or_else_def)
qed

lemma installed_package:
  assumes "install_skill sha sid files tenant t = Inr (m, t')"
  shows "\<exists>ns st md. skill_namespace tenant = Inr ns \<and> valid_skill_id sid \<and> stage_files files 0 [] = Inr st \<and> map_of st = package_map files
    \<and> map_of st [''SKILL.md''] = Some md \<and> m = (sid, sha md) \<and> resolve_one sid tenant t' = Inr (md, ns @ [sid])
    \<and> skill_package [sid] tenant t' = Inr [(sid, sort_key fst st)]
    \<and> (\<forall>p. \<not> under (ns @ [sid]) p \<longrightarrow> map_of t' p = map_of t p)"
proof -
  from install_result [OF assms] obtain ns st md where r: "skill_namespace tenant = Inr ns" "valid_skill_id sid"
    "map_of st = package_map files" "map_of st [''SKILL.md''] = Some md" "m = (sid, sha md)"
    "t' = rmtree (ns @ [sid]) t @ map (\<lambda>(p, b). ((ns @ [sid]) @ p, b)) st" and sf: "stage_files files 0 [] = Inr st" by auto
  have get: "map_of t' p = (if under (ns @ [sid]) p then map_of st (drop (length (ns @ [sid])) p) else map_of t p)" for p
    unfolding r(6) map_of_append map_add_def map_of_moved map_of_rmtree by (simp split: option.split)
  have "skill_file ns sid t' = Some md" using r(4) get [of "ns @ [sid, ''SKILL.md'']"] by (simp add: skill_file_def)
  then have res: "resolve_one sid tenant t' = Inr (md, ns @ [sid])"
    using r(1,2) by (cases "ns = []") (simp_all add: resolve_one_eq search_namespaces_def)
  have "below (ns @ [sid]) t' = st" unfolding r(6) below_append below_rmtree below_moved by simp
  then have "skill_package [sid] tenant t' = Inr [(sid, sort_key fst st)]" by (simp add: skill_package_def res)
  then show ?thesis using r(1-5) sf res get by auto
qed

section \<open>Properties\<close>

text \<open>What was installed is what is served. After a skill is installed, resolving it in the same namespace gives the
  installed \<open>SKILL.md\<close>, with its digest in the manifest, and its package holds exactly the files of the upload, sorted by
  path; every file outside the skill's own directory is as it was.\<close>

theorem installed_skill_served:
  assumes "install_skill sha sid files tenant t = Inr (m, t')"
  shows "\<exists>ns st md. skill_namespace tenant = Inr ns \<and> map_of st = package_map files
    \<and> map_of st [''SKILL.md''] = Some md \<and> m = (sid, sha md) \<and> resolve_one sid tenant t' = Inr (md, ns @ [sid])
    \<and> skill_package [sid] tenant t' = Inr [(sid, sort_key fst st)]
    \<and> (\<forall>p. \<not> under (ns @ [sid]) p \<longrightarrow> map_of t' p = map_of t p)"
  using installed_package [OF assms] by blast

theorem installed_skill_served_witness:
  "\<exists>m t'. install_skill (\<lambda>_. ''d'') ''s1'' [(''SKILL.md'', ''---'' @ nl # ''name: a'' @ nl # ''description: b'' @ nl # ''---'' @ [nl]),
       (''bin/x'', ''1'')] (Some ''acme'') [([''tenants'', ''acme'', ''s1'', ''old''], ''0'')] = Inr (m, t')
     \<and> map_of t' [''tenants'', ''acme'', ''s1'', ''old''] = None \<and> map_of t' [''tenants'', ''acme'', ''s1'', ''bin'', ''x''] = Some ''1''"
proof -
  let ?md = "''---'' @ nl # ''name: a'' @ nl # ''description: b'' @ nl # ''---'' @ [nl]"
  let ?files = "[(''SKILL.md'', ?md), (''bin/x'', ''1'')]" and ?t = "[([''tenants'', ''acme'', ''s1'', ''old''], ''0'')]"
  have p: "path_of ''SKILL.md'' = ([], [''SKILL.md''])" "path_of ''bin/x'' = ([], [''bin'', ''x''])" by code_simp+
  have fm: "parse_skill_frontmatter (universal_newlines ?md) = [(''name'', ''a''), (''description'', ''b'')]" by code_simp
  have v: "valid_skill_id ''s1''" by code_simp
  have "\<exists>m t'. install_skill (\<lambda>_. ''d'') ''s1'' ?files (Some ''acme'') ?t = Inr (m, t')
      \<and> t' = map (\<lambda>(p, b). ([''tenants'', ''acme'', ''s1''] @ p, b)) [([''SKILL.md''], ?md), ([''bin'', ''x''], ''1'')]"
    using fm by (simp add: install_skill_eq v p skill_namespace_eq valid_tenant_def stage_file_def or_else_def Let_def rmtree_def
        MAX_ENTRY_SIZE_def MAX_UNPACKED_SIZE_def)
  then obtain m t' where i: "install_skill (\<lambda>_. ''d'') ''s1'' ?files (Some ''acme'') ?t = Inr (m, t')"
    "t' = map (\<lambda>(p, b). ([''tenants'', ''acme'', ''s1''] @ p, b)) [([''SKILL.md''], ?md), ([''bin'', ''x''], ''1'')]" by blast
  from installed_skill_served [OF i(1)] have "resolve_one ''s1'' (Some ''acme'') t' \<noteq> Inl SkillNotFound" by auto
  then show ?thesis using i by (intro exI [of _ m] exI [of _ t']) simp
qed

text \<open>What a namespace can see: the shared directories, and for a tenant also its own.\<close>

definition visible :: "string option \<Rightarrow> string list \<Rightarrow> bool" where
  "visible tenant p = (take 1 p \<noteq> [''tenants''] \<or> (case tenant of None \<Rightarrow> False | Some x \<Rightarrow> take 2 p = [''tenants'', x]))"

abbreviation seen :: "string option \<Rightarrow> skill_tree \<Rightarrow> skill_tree" where
  "seen tenant t \<equiv> filter (\<lambda>(p, _). visible tenant p) t"

lemma map_of_seen: "visible tenant p \<Longrightarrow> map_of (seen tenant t) p = map_of t p"
  by (induction t) auto

lemma below_seen:
  assumes "\<And>p. under d p \<Longrightarrow> visible tenant p"
  shows "below d (seen tenant t) = below d t"
  unfolding below_def filter_filter using assms by (auto intro!: arg_cong [where f = "map _"] filter_cong)

lemma namespace_visible:
  assumes "skill_namespace tenant = Inr ns" "sid \<noteq> ''tenants''" "d = ns @ [sid] \<or> d = [sid]" "under d p"
  shows "visible tenant p"
proof (cases tenant)
  case None
  then have "d = [sid]" using assms(1,3) by (auto simp: skill_namespace_eq valid_tenant_def)
  then show ?thesis using assms(2,4) by (cases p) (auto simp: visible_def)
next
  case (Some x)
  then have ns: "ns = [''tenants'', x]" using assms(1) by (auto simp: skill_namespace_eq valid_tenant_def split: if_splits)
  show ?thesis
  proof (cases "d = [sid]")
    case True
    then show ?thesis using assms(2,4) by (cases p) (auto simp: visible_def)
  next
    case False
    then have "take 3 p = [''tenants'', x, sid]" using assms(3,4) ns by (auto simp: numeral_3_eq_3)
    then have "take 2 (take 3 p) = [''tenants'', x]" by simp
    then show ?thesis by (simp add: visible_def Some)
  qed
qed

lemma resolve_one_seen:
  assumes "sid \<noteq> ''tenants''"
  shows "resolve_one sid tenant (seen tenant t) = resolve_one sid tenant t"
proof (cases "skill_namespace tenant")
  case (Inr ns)
  have "skill_file n sid (seen tenant t) = skill_file n sid t" if "n \<in> set (if ns = [] then [[]] else [ns, []])" for n
    unfolding skill_file_def by (rule map_of_seen, rule namespace_visible [OF Inr assms, of "n @ [sid]"])
      (use that in \<open>auto split: if_splits\<close>)
  then show ?thesis by (auto simp: resolve_one_eq search_namespaces_def Inr)
qed (simp add: resolve_one_eq search_namespaces_def)

lemma resolve_one_dir:
  "resolve_one sid tenant t = Inr (c, d) \<Longrightarrow> skill_namespace tenant = Inr ns \<Longrightarrow> d = ns @ [sid] \<or> d = [sid]"
  by (auto simp: resolve_one_eq search_namespaces_def split: if_splits option.splits)

lemma package_seen:
  assumes "''tenants'' \<notin> set sids"
  shows "skill_package sids tenant (seen tenant t) = skill_package sids tenant t"
proof -
  have r: "resolve_skills sids tenant (seen tenant t) = resolve_skills sids tenant t"
    using assms by (induction sids) (auto simp: resolve_one_seen split: sum.split)
  have d: "list_all2 (\<lambda>sid (c, d). below d (seen tenant t) = below d t) sids rs" if "resolve_skills sids tenant t = Inr rs" for rs
    using assms that
  proof (induction sids arbitrary: rs)
    case (Cons sid sids)
    from Cons.prems(2) obtain c dir rs' where x: "resolve_one sid tenant t = Inr (c, dir)" "resolve_skills sids tenant t = Inr rs'" "rs = (c, dir) # rs'"
      by (cases "resolve_skills sids tenant t") (auto split: sum.splits)
    from x(1) obtain ns where ns: "skill_namespace tenant = Inr ns"
      by (auto simp: resolve_one_eq search_namespaces_def split: if_splits sum.splits)
    have "sid \<noteq> ''tenants''" using Cons.prems(1) by auto
    then have "below dir (seen tenant t) = below dir t"
      using namespace_visible [OF ns _ resolve_one_dir [OF x(1) ns]] by (intro below_seen) auto
    then show ?case using Cons.IH [OF _ x(2)] Cons.prems(1) x(3) by simp
  qed simp
  show ?thesis
  proof (cases "resolve_skills sids tenant t")
    case (Inr rs)
    have "map2 (\<lambda>sid (_, dir). (sid, sort_key fst (below dir (seen tenant t)))) sids rs = map2 (\<lambda>sid (_, dir). (sid, sort_key fst (below dir t))) sids rs"
      using d [OF Inr] by (induction rule: list_all2_induct) auto
    then show ?thesis by (simp add: skill_package_def r Inr)
  qed (simp add: skill_package_def r)
qed

lemma rmtree_seen:
  assumes "\<And>p. under d p \<Longrightarrow> \<not> visible tenant p"
  shows "seen tenant (rmtree d t) = seen tenant t"
  unfolding rmtree_def filter_filter using assms by (auto intro!: filter_cong)

lemma other_tenant_unseen:
  assumes "tenant \<noteq> Some x" "under ([''tenants'', x] @ r) p"
  shows "\<not> visible tenant p"
proof -
  have "take 2 (take (length ([''tenants'', x] @ r)) p) = [''tenants'', x]" using assms(2) by simp
  then have two: "take 2 p = [''tenants'', x]" by (simp add: numeral_2_eq_2)
  then have one: "take 1 p = [''tenants'']" by (cases p) auto
  show ?thesis unfolding visible_def one two using assms(1) by (auto split: option.split)
qed

text \<open>C36. A tenant's skills are its own. Whatever names are given, installing or removing a skill of one tenant, if it is not refused,
  changes nothing in the packages that another tenant, or the shared namespace, is served, as long as these do not include the skill
  identifier \<open>tenants\<close>, which names the directory that holds all tenants. Names with slashes or dots do not get around this: the checks on
  them are what keeps the path of a skill inside the directory of its tenant.\<close>

theorem tenant_skills_isolated:
  assumes "install_skill sha sid files (Some x) t = Inr (m, t') \<or> remove_skill sid (Some x) t = Inr (b, t')"
    "tenant \<noteq> Some x" "''tenants'' \<notin> set sids"
  shows "skill_package sids tenant t' = skill_package sids tenant t"
proof -
  have un: "\<not> visible tenant p" if "under [''tenants'', x, sid] p" for p
    using other_tenant_unseen [OF assms(2), of "[sid]" p] that by simp
  have "seen tenant t' = seen tenant t"
  proof (cases "install_skill sha sid files (Some x) t = Inr (m, t')")
    case True
    from install_result [OF this] obtain ns st where r: "skill_namespace (Some x) = Inr ns"
      "t' = rmtree (ns @ [sid]) t @ map (\<lambda>(p, b). ((ns @ [sid]) @ p, b)) st" by auto
    then have ns: "ns = [''tenants'', x]" by (auto simp: skill_namespace_eq valid_tenant_def split: if_splits)
    have "seen tenant (map (\<lambda>(p, b). ((ns @ [sid]) @ p, b)) st) = []"
      using un by (auto simp: filter_empty_conv ns)
    then show ?thesis using rmtree_seen [of "ns @ [sid]" tenant t] un by (simp add: r(2) ns)
  next
    case False
    with assms(1) have "remove_skill sid (Some x) t = Inr (b, t')" by simp
    then have "t' = t \<or> t' = rmtree [''tenants'', x, sid] t"
      by (auto simp: remove_skill_eq skill_namespace_eq valid_tenant_def split: if_splits sum.splits)
    then show ?thesis using rmtree_seen [of "[''tenants'', x, sid]" tenant t] un by auto
  qed
  then show ?thesis using package_seen [OF assms(3), of tenant t] package_seen [OF assms(3), of tenant t'] by simp
qed

theorem tenant_skills_isolated_witness:
  "remove_skill ''s1'' (Some ''acme'') [([''tenants'', ''acme'', ''s1'', ''SKILL.md''], ''0''), ([''s1'', ''SKILL.md''], ''1'')]
     = Inr (True, [([''s1'', ''SKILL.md''], ''1'')])
   \<and> skill_package [''s1''] (Some ''beta'') [([''s1'', ''SKILL.md''], ''1'')]
     = skill_package [''s1''] (Some ''beta'') [([''tenants'', ''acme'', ''s1'', ''SKILL.md''], ''0''), ([''s1'', ''SKILL.md''], ''1'')]"
proof -
  have r: "remove_skill ''s1'' (Some ''acme'') [([''tenants'', ''acme'', ''s1'', ''SKILL.md''], ''0''), ([''s1'', ''SKILL.md''], ''1'')]
     = Inr (True, [([''s1'', ''SKILL.md''], ''1'')])" by code_simp
  show ?thesis
    using r tenant_skills_isolated [OF disjI2 [OF r], of "Some ''beta''" "[''s1'']"] by simp
qed

text \<open>Removing the shared skill \<open>tenants\<close> removes the skills of all tenants.\<close>

lemma remove_tenants_directory:
  assumes "below [''tenants''] t \<noteq> []"
  shows "\<exists>t'. remove_skill ''tenants'' None t = Inr (True, t') \<and> (\<forall>x p. map_of t' ([''tenants'', x] @ p) = None)"
proof -
  have "valid_skill_id ''tenants''" by code_simp
  then have "remove_skill ''tenants'' None t = Inr (True, rmtree [''tenants''] t)"
    using assms by (simp add: remove_skill_eq skill_namespace_eq valid_tenant_def)
  then show ?thesis by (simp add: map_of_rmtree)
qed

text \<open>Without the checks the paths would lead elsewhere.\<close>

lemma unchecked_names:
  "subdir [''tenants'', ''acme''] ''../beta/s'' = [''tenants'', ''beta'', ''s'']" "subdir [''tenants''] ''acme/../beta'' = [''tenants'', ''beta'']"
  "subdir [''tenants'', ''acme''] ''../../../keys'' = [''..'', ''keys'']" "\<not> valid_skill_id ''../beta/s''" "\<not> valid_tenant ''acme/../beta''"
  by code_simp+

end
