(* ===== verification/Sessions.thy ===== *)
theory Sessions
  imports Control_Plane Presets Skill_Store Workspace_Store
begin

text \<open>
  Workspaces, sessions and conversations of the application service in Temporal mode: \<open>workspace_ops.py\<close>,
  \<open>session_ops.py\<close>, the creation and continuation of conversations in \<open>conversation_ops.py\<close> and the event queries of
  \<open>event_ops.py\<close>. The service uses the repository, the local workspace provider, the skill source and the preset
  policy of the other theories. Its caches of workspaces and sessions are written but read only for a replay out of the
  in-memory idempotency records. The lease table of the retired inline mode stays empty. \<open>hash\<close> is \<open>_hash_request\<close>,
  \<open>root_of\<close> the directory of a workspace, \<open>accepts\<close> tells which runs the Temporal client starts without raising;
  fresh identifiers and the time are arguments. The report of what was created on the way is left out.
\<close>

section \<open>State\<close>

record start_request =
  sq_run :: uuid
  sq_conversation :: uuid
  sq_session :: uuid
  sq_workspace :: uuid
  sq_task :: string
  sq_skills :: "string list"
  sq_tool_policy :: obj
  sq_cli_policy :: cli_policy
  sq_mcp_refs :: "json list"

record app_state =
  ap_svc :: svc
  ap_sessions :: "(uuid \<times> session) list"
  ap_workspaces :: "(uuid \<times> workspace) list"
  ap_store :: ws_store
  ap_skills :: skill_tree
  ap_runs :: "start_request list"

record app_config =
  ac_auto_create_missing :: bool
  ac_auto_create_scopes :: string
  ac_default_runner_image :: string
  ac_temporal :: bool

abbreviation ap_db :: "app_state \<Rightarrow> db" where "ap_db s \<equiv> sv_db (ap_svc s)"

abbreviation with_db :: "db \<Rightarrow> app_state \<Rightarrow> app_state" where
  "with_db d s \<equiv> s\<lparr>ap_svc := (ap_svc s)\<lparr>sv_db := d\<rparr>\<rparr>"

abbreviation cache_workspace :: "workspace \<Rightarrow> app_state \<Rightarrow> app_state" where
  "cache_workspace w s \<equiv> s\<lparr>ap_workspaces := AList.update (ws_id w) w (ap_workspaces s)\<rparr>"

abbreviation cache_session :: "session \<Rightarrow> app_state \<Rightarrow> app_state" where
  "cache_session x s \<equiv> s\<lparr>ap_sessions := AList.update (sess_id x) x (ap_sessions s)\<rparr>"

definition ap_remember :: "time \<Rightarrow> string \<Rightarrow> string option \<Rightarrow> string \<Rightarrow> uuid \<Rightarrow> app_state \<Rightarrow> app_state" where
  "ap_remember now scope key h rid s = s\<lparr>ap_svc := (ap_svc s)\<lparr>sv_idem := svc_remember now scope key h rid (sv_idem (ap_svc s))\<rparr>\<rparr>"

section \<open>Automatic creation\<close>

definition auto_create_scopes_set :: "app_config \<Rightarrow> string list" where
  "auto_create_scopes_set cfg = (let raw = py_strip (ac_auto_create_scopes cfg) in
     if raw = ''all'' then [''all''] else filter (\<lambda>x. x \<noteq> []) (map py_strip (py_split_on CHR '','' raw)))"

definition auto_create :: "app_config \<Rightarrow> string \<Rightarrow> bool" where
  "auto_create cfg scope = (ac_auto_create_missing cfg
     \<and> (''all'' \<in> set (auto_create_scopes_set cfg) \<or> scope \<in> set (auto_create_scopes_set cfg)))"

section \<open>Workspaces\<close>

definition conflict_409 :: "db_error \<Rightarrow> service_error" where
  "conflict_409 e = (case e of RepositoryConflict _ \<Rightarrow> ServiceError ''IDEMPOTENCY_CONFLICT'' 409 | _ \<Rightarrow> Raised e)"

definition svc_get_workspace :: "uuid \<Rightarrow> app_state \<Rightarrow> (service_error + workspace) \<times> app_state" where
  "svc_get_workspace wid s = (case repo_get_workspace wid (ap_db s) of
       None \<Rightarrow> (Inl (ServiceError ''WORKSPACE_NOT_FOUND'' 404), s)
     | Some w \<Rightarrow> (Inr w, cache_workspace w s))"

definition svc_list_workspaces :: "nat option \<Rightarrow> nat \<Rightarrow> app_state \<Rightarrow> workspace list" where
  "svc_list_workspaces n off s = repo_list_workspaces n off (ap_db s)"

definition create_workspace :: "(obj \<Rightarrow> string) \<Rightarrow> (uuid \<Rightarrow> string) \<Rightarrow> uuid \<Rightarrow> time \<Rightarrow> string \<Rightarrow> string option \<Rightarrow> uuid option \<Rightarrow> app_state
    \<Rightarrow> (service_error + workspace) \<times> app_state" where
  "create_workspace hash root_of fresh now name key wid s =
     (case Option.bind wid (\<lambda>w. repo_get_workspace w (ap_db s)) of
        Some w \<Rightarrow> (Inr w, cache_workspace w s)
      | None \<Rightarrow>
          (let h = hash [(''name'', JStr name)];
               create = (\<lambda>s. let (w, st) = local_create fresh name wid (ap_store s); s1 = s\<lparr>ap_store := st\<rparr> in
                 case repo_create_workspace fresh now name (root_of w) h key (Some w) (ap_db s1) of
                   Inl e \<Rightarrow> (Inl (conflict_409 e), s1)
                 | Inr (None, d) \<Rightarrow> (Inl (Raised AttributeError), with_db d s1)
                 | Inr (Some x, d) \<Rightarrow> (Inr x, ap_remember now ''workspace'' key h (ws_id x) (cache_workspace x (with_db d s1)))) in
           case svc_idempotent (sv_idem (ap_svc s)) ''workspace'' key h of
             Inl e \<Rightarrow> (Inl e, s)
           | Inr (Some i) \<Rightarrow> (case map_of (ap_workspaces s) i of None \<Rightarrow> (Inl (Raised KeyError), s) | Some w \<Rightarrow> (Inr w, s))
           | Inr None \<Rightarrow>
               if \<not> str_true key then create s
               else (case find_idempotent (ap_db s) ''workspace'' key h of
                   Inl e \<Rightarrow> (Inl (conflict_409 e), s)
                 | Inr None \<Rightarrow> create s
                 | Inr (Some i) \<Rightarrow> (case repo_get_workspace i (ap_db s) of
                     None \<Rightarrow> create s
                   | Some w \<Rightarrow> (Inr w, ap_remember now ''workspace'' key h (ws_id w) (cache_workspace w s))))))"

definition resolve_workspace :: "app_config \<Rightarrow> (obj \<Rightarrow> string) \<Rightarrow> (uuid \<Rightarrow> string) \<Rightarrow> uuid \<Rightarrow> time \<Rightarrow> uuid \<Rightarrow> string option \<Rightarrow> app_state
    \<Rightarrow> (service_error + workspace) \<times> app_state" where
  "resolve_workspace cfg hash root_of fresh now wid name s = (case repo_get_workspace wid (ap_db s) of
       Some w \<Rightarrow> (Inr w, cache_workspace w s)
     | None \<Rightarrow>
         if \<not> auto_create cfg ''workspace'' then (Inl (ServiceError ''WORKSPACE_NOT_FOUND'' 404), s)
         else create_workspace hash root_of fresh now (if str_true name then the name else ''auto'') None (Some wid) s)"

section \<open>Versions\<close>

definition strip_dashes :: "string \<Rightarrow> string" where
  "strip_dashes v = filter (\<lambda>c. c \<noteq> CHR ''-'') v"

definition find_workspace_version :: "uuid \<Rightarrow> string \<Rightarrow> app_state \<Rightarrow> snapshot option" where
  "find_workspace_version wid vid s = find (\<lambda>x. strip_dashes (sn_version x) = strip_dashes vid) (list_versions wid (ap_store s))"

text \<open>The request's keyed operations look the key up in the process and then in the repository; \<open>replay\<close> answers
  a key that was found, or nothing when the answer is gone.\<close>

definition keyed_operation :: "string \<Rightarrow> string option \<Rightarrow> string \<Rightarrow> (uuid \<Rightarrow> app_state \<Rightarrow> 'r option)
    \<Rightarrow> (uuid \<Rightarrow> app_state \<Rightarrow> app_state) \<Rightarrow> (app_state \<Rightarrow> (service_error + 'r) \<times> app_state) \<Rightarrow> app_state \<Rightarrow> (service_error + 'r) \<times> app_state" where
  "keyed_operation scope key h replay note body s =
     (case svc_idempotent (sv_idem (ap_svc s)) scope key h of
        Inl e \<Rightarrow> (Inl e, s)
      | Inr found \<Rightarrow>
          (case Option.bind found (\<lambda>i. replay i s) of
             Some r \<Rightarrow> (Inr r, s)
           | None \<Rightarrow>
               if \<not> str_true key then body s
               else (case find_idempotent (ap_db s) scope key h of
                   Inl e \<Rightarrow> (Inl (conflict_409 e), s)
                 | Inr None \<Rightarrow> body s
                 | Inr (Some i) \<Rightarrow> (case replay i s of Some r \<Rightarrow> (Inr r, note i s) | None \<Rightarrow> body s))))"

definition persist_key :: "time \<Rightarrow> string \<Rightarrow> string option \<Rightarrow> string \<Rightarrow> uuid \<Rightarrow> 'r \<Rightarrow> app_state \<Rightarrow> (service_error + 'r) \<times> app_state" where
  "persist_key now scope key h rid r s = (case svc_remember_persisted now scope key h rid (ap_svc s) of
       (Inl e, v) \<Rightarrow> (Inl e, s\<lparr>ap_svc := v\<rparr>)
     | (Inr _, v) \<Rightarrow> (Inr r, s\<lparr>ap_svc := v\<rparr>))"

definition create_workspace_version :: "(obj \<Rightarrow> string) \<Rightarrow> (snapshot \<Rightarrow> string) \<Rightarrow> string \<Rightarrow> time \<Rightarrow> uuid \<Rightarrow> string option \<Rightarrow> string option \<Rightarrow> app_state
    \<Rightarrow> (service_error + string) \<times> app_state" where
  "create_workspace_version hash manifest vid now wid name key s =
     (case svc_get_workspace wid s of
        (Inl e, s1) \<Rightarrow> (Inl e, s1)
      | (Inr w, s1) \<Rightarrow>
          (let h = hash [(''workspace_id'', JStr wid), (''name'', json_str name)] in
           keyed_operation ''workspace_version'' key h (\<lambda>i s. map_option sn_version (find_workspace_version wid i s))
             (\<lambda>i. ap_remember now ''workspace_version'' key h i)
             (\<lambda>s. case create_version manifest vid now wid name (ap_store s) of
                 Inl UnknownWorkspace \<Rightarrow> (Inl (Raised KeyError), s)
               | Inl _ \<Rightarrow> (Inl (Raised OSError), s)
               | Inr (v, st) \<Rightarrow> persist_key now ''workspace_version'' key h v v (s\<lparr>ap_store := st\<rparr>)) s1))"

definition list_workspace_versions :: "uuid \<Rightarrow> app_state \<Rightarrow> (service_error + snapshot list) \<times> app_state" where
  "list_workspace_versions wid s = (case svc_get_workspace wid s of
       (Inl e, s1) \<Rightarrow> (Inl e, s1)
     | (Inr _, s1) \<Rightarrow> (Inr (list_versions wid (ap_store s1)), s1))"

definition ensure_workspace_idle :: "time \<Rightarrow> uuid \<Rightarrow> app_state \<Rightarrow> service_error option" where
  "ensure_workspace_idle now wid s =
     (if list_ex (\<lambda>x. sess_workspace x = wid) (repo_list_sessions now None None None None 0 (ap_db s))
      then Some (ServiceError ''WORKSPACE_BUSY'' 409) else None)"

text \<open>The result tells whether the request was a replay.\<close>

definition restore_workspace_version :: "(obj \<Rightarrow> string) \<Rightarrow> time \<Rightarrow> uuid \<Rightarrow> string \<Rightarrow> string option \<Rightarrow> app_state
    \<Rightarrow> (service_error + bool) \<times> app_state" where
  "restore_workspace_version hash now wid vid key s =
     (case svc_get_workspace wid s of
        (Inl e, s1) \<Rightarrow> (Inl e, s1)
      | (Inr w, s1) \<Rightarrow>
          (let h = hash [(''workspace_id'', JStr wid), (''version_id'', JStr vid)] in
           keyed_operation ''workspace_version_restore'' key h (\<lambda>_ _. Some True)
             (\<lambda>_. ap_remember now ''workspace_version_restore'' key h (ws_id w))
             (\<lambda>s. case ensure_workspace_idle now wid s of
                 Some e \<Rightarrow> (Inl e, s)
               | None \<Rightarrow> (case restore_version wid vid (ap_store s) of
                   Inl UnknownWorkspace \<Rightarrow> (Inl (Raised KeyError), s)
                 | Inl FileNotFound \<Rightarrow> (Inl (ServiceError ''WORKSPACE_VERSION_NOT_FOUND'' 404), s)
                 | Inl _ \<Rightarrow> (Inl (Raised OSError), s)
                 | Inr st \<Rightarrow> persist_key now ''workspace_version_restore'' key h (ws_id w) False (s\<lparr>ap_store := st\<rparr>))) s1))"

section \<open>Sessions\<close>

text \<open>The filter by workspace is not passed to the repository.\<close>

definition svc_list_sessions :: "time \<Rightarrow> uuid option \<Rightarrow> string option \<Rightarrow> string option \<Rightarrow> string option \<Rightarrow> nat option \<Rightarrow> nat \<Rightarrow> app_state \<Rightarrow> session list" where
  "svc_list_sessions now wid tenant user proj n off s = repo_list_sessions now tenant user proj n off (ap_db s)"

definition svc_get_session :: "time \<Rightarrow> uuid \<Rightarrow> app_state \<Rightarrow> (service_error + session) \<times> app_state" where
  "svc_get_session now sid s = (case repo_get_session now sid (ap_db s) of
       None \<Rightarrow> (Inl (ServiceError ''SESSION_NOT_FOUND'' 404), s)
     | Some x \<Rightarrow> (Inr x, cache_session x s))"

definition validate_skill_ids :: "string list \<Rightarrow> string option \<Rightarrow> app_state \<Rightarrow> service_error option" where
  "validate_skill_ids sids tenant s = (case resolve_skills sids tenant (ap_skills s) of
       Inl _ \<Rightarrow> Some (ServiceError ''SKILL_NOT_FOUND'' 404) | Inr _ \<Rightarrow> None)"

record session_request =
  nr_workspace :: uuid
  nr_session :: "uuid option"
  nr_name :: "string option"
  nr_tenant :: "string option"
  nr_user :: "string option"
  nr_project :: "string option"
  nr_metadata :: obj
  nr_config :: "project_config option"

definition validate_config :: "project_config option \<Rightarrow> string option \<Rightarrow> app_state \<Rightarrow> service_error option" where
  "validate_config cfg tenant s = (case cfg of None \<Rightarrow> None | Some c \<Rightarrow>
     (case validate_skill_ids (map ps_skill_id (cfg_skills c)) tenant s of
        Some e \<Rightarrow> Some e
      | None \<Rightarrow> validate_mcp_refs (res_mcp_refs (cfg_resources c)) (ap_db s)))"

definition session_hash :: "(obj \<Rightarrow> string) \<Rightarrow> session_request \<Rightarrow> string" where
  "session_hash hash q = hash [(''workspace_id'', JStr (nr_workspace q)), (''tenant_id'', json_str (nr_tenant q)),
     (''user_id'', json_str (nr_user q)), (''project_id'', json_str (nr_project q))]"

definition create_session :: "app_config \<Rightarrow> (obj \<Rightarrow> string) \<Rightarrow> (uuid \<Rightarrow> string) \<Rightarrow> uuid \<Rightarrow> time \<Rightarrow> session_request \<Rightarrow> string option \<Rightarrow> app_state
    \<Rightarrow> (service_error + session) \<times> app_state" where
  "create_session cfg hash root_of fresh now q key s =
     (case validate_config (nr_config q) (nr_tenant q) s of
        Some e \<Rightarrow> (Inl e, s)
      | None \<Rightarrow> (case resolve_workspace cfg hash root_of fresh now (nr_workspace q) (nr_name q) s of
          (Inl e, s1) \<Rightarrow> (Inl e, s1)
        | (Inr w, s1) \<Rightarrow> (case Option.bind (nr_session q) (\<lambda>i. repo_get_session now i (ap_db s1)) of
            Some x \<Rightarrow> (Inr x, cache_session x s1)
          | None \<Rightarrow> (case svc_idempotent (sv_idem (ap_svc s1)) ''session'' key (session_hash hash q) of
              Inl e \<Rightarrow> (Inl e, s1)
            | Inr (Some i) \<Rightarrow> (case map_of (ap_sessions s1) i of None \<Rightarrow> (Inl (Raised KeyError), s1) | Some x \<Rightarrow> (Inr x, s1))
            | Inr None \<Rightarrow>
                (case repo_create_session fresh now (ws_id w) (session_hash hash q) key (nr_project q) (nr_session q) (nr_tenant q)
                        (nr_user q) (nr_metadata q) (nr_config q) (ap_db s1) of
                   Inl e \<Rightarrow> (Inl (conflict_409 e), s1)
                 | Inr (None, d) \<Rightarrow> (Inl (Raised AttributeError), with_db d s1)
                 | Inr (Some x, d) \<Rightarrow> (Inr x, ap_remember now ''session'' key (session_hash hash q) (sess_id x) (cache_session x (with_db d s1))))))))"

section \<open>Conversations\<close>

definition skills_for_session :: "session \<Rightarrow> app_state \<Rightarrow> string list" where
  "skills_for_session x s = (let declared = (case sess_config x of None \<Rightarrow> [] | Some c \<Rightarrow> enabled_skill_ids c) in
     if declared \<noteq> [] then declared else preset_skills_for_session x \<lparr>pt_db = ap_db s, pt_files = []\<rparr>)"

definition temporal_run_request :: "app_config \<Rightarrow> string \<Rightarrow> conversation \<Rightarrow> session \<Rightarrow> app_state \<Rightarrow> service_error + start_request" where
  "temporal_run_request cfg prompt c x s =
     (case cli_policy_for_session (ac_default_runner_image cfg) x \<lparr>pt_db = ap_db s, pt_files = []\<rparr> of
        Inl e \<Rightarrow> Inl e
      | Inr policy \<Rightarrow> Inr \<lparr>sq_run = run_id (conv_run c), sq_conversation = conv_id c, sq_session = sess_id x,
          sq_workspace = sess_workspace x, sq_task = conv_task c, sq_skills = skills_for_session x s,
          sq_tool_policy = tool_policy_for_conversation prompt c x, sq_cli_policy = policy,
          sq_mcp_refs = (case conv_mcp_refs c of Some refs \<Rightarrow> refs
             | None \<Rightarrow> (case sess_config x of None \<Rightarrow> [] | Some g \<Rightarrow> res_mcp_refs (cfg_resources g)))\<rparr>)"

definition start_temporal_run :: "app_config \<Rightarrow> string \<Rightarrow> (start_request \<Rightarrow> bool) \<Rightarrow> conversation \<Rightarrow> session \<Rightarrow> app_state
    \<Rightarrow> (service_error + unit) \<times> app_state" where
  "start_temporal_run cfg prompt accepts c x s =
     (if \<not> ac_temporal cfg then (Inl (ServiceError ''TEMPORAL_UNAVAILABLE'' 503), s)
      else case temporal_run_request cfg prompt c x s of
        Inl e \<Rightarrow> (Inl e, s)
      | Inr q \<Rightarrow> if accepts q then (Inr (), s\<lparr>ap_runs := ap_runs s @ [q]\<rparr>)
                 else (Inl (ServiceError ''TEMPORAL_START_FAILED'' 502), s))"

record conversation_request =
  cq_session :: uuid
  cq_task :: string
  cq_parent :: "uuid option"
  cq_workspace :: "uuid option"
  cq_mcp_refs :: "json list option"
  cq_mode :: "conversation_mode option"

definition conversation_hash :: "(obj \<Rightarrow> string) \<Rightarrow> conversation_request \<Rightarrow> string" where
  "conversation_hash hash q = hash [(''session_id'', JStr (cq_session q)), (''task'', JStr (cq_task q)),
     (''parent_conversation_id'', json_str (cq_parent q)), (''mode'', JStr (mode_value (or_else (cq_mode q) DEFAULT)))]"

text \<open>The session of the request, created when it is missing and may be.\<close>

definition conversation_session :: "app_config \<Rightarrow> (obj \<Rightarrow> string) \<Rightarrow> (uuid \<Rightarrow> string) \<Rightarrow> uuid \<Rightarrow> time \<Rightarrow> conversation_request \<Rightarrow> app_state
    \<Rightarrow> (service_error + session) \<times> app_state" where
  "conversation_session cfg hash root_of fresh now q s = (case repo_get_session now (cq_session q) (ap_db s) of
       Some x \<Rightarrow> (Inr x, cache_session x s)
     | None \<Rightarrow>
         if \<not> auto_create cfg ''session'' then (Inl (ServiceError ''SESSION_NOT_FOUND'' 404), s)
         else (case cq_workspace q of
             None \<Rightarrow> (Inl (ServiceError ''SESSION_NOT_FOUND'' 404), s)
           | Some wid \<Rightarrow> create_session cfg hash root_of fresh now \<lparr>nr_workspace = wid, nr_session = Some (cq_session q), nr_name = None,
               nr_tenant = None, nr_user = None, nr_project = None, nr_metadata = [], nr_config = None\<rparr> None s))"

definition parent_valid :: "conversation_request \<Rightarrow> db \<Rightarrow> bool" where
  "parent_valid q d = (case cq_parent q of None \<Rightarrow> True | Some p \<Rightarrow>
     (case repo_get_conversation p d of None \<Rightarrow> False | Some c \<Rightarrow> conv_session c = cq_session q))"

definition svc_create_conversation :: "app_config \<Rightarrow> (obj \<Rightarrow> string) \<Rightarrow> (uuid \<Rightarrow> string) \<Rightarrow> string \<Rightarrow> (start_request \<Rightarrow> bool)
    \<Rightarrow> uuid \<times> uuid \<times> uuid \<Rightarrow> time \<Rightarrow> conversation_request \<Rightarrow> string option \<Rightarrow> app_state \<Rightarrow> (service_error + conversation) \<times> app_state" where
  "svc_create_conversation cfg hash root_of prompt accepts ids now q key s =
     (case ids of (fresh, cid, rid) \<Rightarrow>
       case (case cq_mcp_refs q of None \<Rightarrow> None | Some refs \<Rightarrow> validate_mcp_refs refs (ap_db s)) of
         Some e \<Rightarrow> (Inl e, s)
       | None \<Rightarrow> (case conversation_session cfg hash root_of fresh now q s of
           (Inl e, s1) \<Rightarrow> (Inl e, s1)
         | (Inr x, s1) \<Rightarrow>
             if \<not> parent_valid q (ap_db s1) then (Inl (ServiceError ''PARENT_NOT_FOUND'' 404), s1)
             else (case svc_idempotent (sv_idem (ap_svc s1)) ''conversation'' key (conversation_hash hash q) of
                 Inl e \<Rightarrow> (Inl e, s1)
               | Inr (Some _) \<Rightarrow> (Inl (Raised KeyError), s1)
               | Inr None \<Rightarrow>
                   (let c = \<lparr>conv_id = cid, conv_session = cq_session q, parent_conversation = cq_parent q, conv_task = cq_task q,
                             conv_mcp_refs = cq_mcp_refs q, conv_mode = or_else (cq_mode q) DEFAULT, conv_created_at = now,
                             conv_run = new_run rid\<rparr> in
                    if \<not> ac_temporal cfg then (Inl (ServiceError ''TEMPORAL_UNAVAILABLE'' 503), s1)
                    else (case repo_create_conversation now c (conversation_hash hash q) key (ap_db s1) of
                        Inl e \<Rightarrow> (Inl (conflict_409 e), s1)
                      | Inr (None, d) \<Rightarrow> (Inl (Raised AttributeError), with_db d s1)
                      | Inr (Some p, d) \<Rightarrow>
                          if conv_id p \<noteq> cid then (Inr p, with_db d s1)
                          else (case start_temporal_run cfg prompt accepts p x (with_db d s1) of
                              (Inl e, s2) \<Rightarrow> (Inl e, s2)
                            | (Inr _, s2) \<Rightarrow> (Inr p, s2)))))))"

definition continue_conversation :: "app_config \<Rightarrow> (obj \<Rightarrow> string) \<Rightarrow> (uuid \<Rightarrow> string) \<Rightarrow> string \<Rightarrow> (start_request \<Rightarrow> bool)
    \<Rightarrow> uuid \<times> uuid \<times> uuid \<Rightarrow> time \<Rightarrow> uuid \<Rightarrow> string option \<Rightarrow> app_state \<Rightarrow> (service_error + conversation) \<times> app_state" where
  "continue_conversation cfg hash root_of prompt accepts ids now cid key s =
     (case svc_conversation cid (ap_svc s) of
        Inl e \<Rightarrow> (Inl e, s)
      | Inr c \<Rightarrow>
          if state (conv_run c) \<noteq> FAILED then (Inl (ServiceError ''CONVERSATION_NOT_FAILED'' 409), s)
          else if \<not> truthy (obj_get (or_else (run_error (conv_run c)) []) ''retryable'' JNull)
          then (Inl (ServiceError ''CONVERSATION_NOT_RETRYABLE'' 409), s)
          else svc_create_conversation cfg hash root_of prompt accepts ids now
                 \<lparr>cq_session = conv_session c, cq_task = conv_task c, cq_parent = Some (conv_id c), cq_workspace = None,
                  cq_mcp_refs = conv_mcp_refs c, cq_mode = Some (conv_mode c)\<rparr> key s)"

section \<open>Events\<close>

definition session_labels :: "time \<Rightarrow> uuid \<Rightarrow> app_state \<Rightarrow> string option \<times> string option \<times> string option" where
  "session_labels now sid s = (case repo_get_session now sid (ap_db s) of
       None \<Rightarrow> (None, None, None) | Some x \<Rightarrow> (sess_tenant x, sess_user x, sess_project x))"

definition label_event :: "string option \<times> string option \<times> string option \<Rightarrow> event_envelope \<Rightarrow> event_envelope" where
  "label_event labels e = (case labels of (t, u, p) \<Rightarrow> e\<lparr>ev_tenant := t, ev_user := u, ev_project := p\<rparr>)"

definition svc_events :: "time \<Rightarrow> uuid \<Rightarrow> int \<Rightarrow> nat option \<Rightarrow> app_state \<Rightarrow> service_error + event_envelope list" where
  "svc_events now cid after n s = (case svc_conversation cid (ap_svc s) of
       Inl e \<Rightarrow> Inl e
     | Inr c \<Rightarrow> Inr (map (label_event (session_labels now (conv_session c) s)) (list_events cid after n (ap_db s))))"

definition svc_session_events :: "time \<Rightarrow> uuid \<Rightarrow> int \<Rightarrow> nat option \<Rightarrow> app_state \<Rightarrow> (service_error + event_envelope list) \<times> app_state" where
  "svc_session_events now sid after n s = (case svc_get_session now sid s of
       (Inl e, s1) \<Rightarrow> (Inl e, s1)
     | (Inr x, s1) \<Rightarrow> (Inr (sort_key ev_occurred_at (map (label_event (sess_tenant x, sess_user x, sess_project x))
         (list_session_events sid after n (ap_db s1)))), s1))"

section \<open>Lemmas\<close>

lemma service_session [simp]:
  "repo_get_session now sid (d\<lparr>t_conversations := rows, t_idempotency := keys\<rparr>) = repo_get_session now sid d"
  by (simp add: repo_get_session_def)

lemma service_mcp [simp]:
  "validate_mcp_refs refs (d\<lparr>t_conversations := rows, t_idempotency := keys\<rparr>) = validate_mcp_refs refs d"
  by (induction refs) (auto simp: get_mcp_server_def repo_get_mcp_server_def split: sum.splits)

lemma existing_session:
  "repo_get_session now (cq_session q) (ap_db s) = Some x \<Longrightarrow> conversation_session cfg hash root_of fresh now q s = (Inr x, cache_session x s)"
  by (simp add: conversation_session_def)

text \<open>A key the repository knows is answered with the stored conversation, and no run is started.\<close>

lemma conversation_replay:
  assumes "idempotent_resource (ap_db s) ''conversation'' key (conversation_hash hash q) = Inr (Some i)"
    "repo_get_conversation i (ap_db s) = Some p" "repo_get_session now (cq_session q) (ap_db s) \<noteq> None" "parent_valid q (ap_db s)"
    "(case cq_mcp_refs q of None \<Rightarrow> None | Some refs \<Rightarrow> validate_mcp_refs refs (ap_db s)) = None"
    "svc_idempotent (sv_idem (ap_svc s)) ''conversation'' key (conversation_hash hash q) = Inr None" "ac_temporal cfg" "cid \<noteq> conv_id p"
  shows "\<exists>s'. svc_create_conversation cfg hash root_of prompt accepts (fresh, cid, rid) now q key s = (Inr p, s') \<and> ap_runs s' = ap_runs s \<and> ap_db s' = ap_db s"
proof -
  from assms(3) obtain x where "repo_get_session now (cq_session q) (ap_db s) = Some x" by auto
  from existing_session [OF this] show ?thesis
    using assms by (simp add: svc_create_conversation_def repo_create_conversation_def Let_def)
qed

text \<open>A new key, accepted by the repository: the rows it leaves.\<close>

lemma conversation_created:
  assumes "repo_create_conversation now c h key d = Inr (Some p, d')" "str_true key"
  shows "idempotent_resource d' ''conversation'' key h = Inr (Some (conv_id p)) \<and> (\<exists>keys rows. d' = d\<lparr>t_conversations := rows, t_idempotency := keys\<rparr>)
    \<and> (conv_id p = conv_id c \<longrightarrow> p = c \<or> idempotent_resource d ''conversation'' key h \<noteq> Inr None)
    \<and> repo_get_conversation (conv_id p) d' = Some p \<and> (\<forall>k x. repo_get_conversation k d = Some x \<longrightarrow> repo_get_conversation k d' = Some x)"
proof (cases "idempotent_resource d ''conversation'' key h")
  case (Inr found)
  show ?thesis
  proof (cases found)
    case None
    from assms(1) have n: "cr_id (conversation_to_row c) \<notin> cr_id ` set (t_conversations d)" "p = c"
      and s: "save_idempotency now ''conversation'' key h (conv_id c) (d\<lparr>t_conversations := t_conversations d @ [conversation_to_row c]\<rparr>) = Inr d'"
      by (auto simp: repo_create_conversation_def Inr None insert_conversation_def db_add_def split: if_splits sum.splits)
    from assms(2) obtain k where k: "key = Some k" "k \<noteq> []" by (auto simp: str_true_def split: option.splits)
    from s obtain row where d': "d' = d\<lparr>t_conversations := t_conversations d @ [conversation_to_row c], t_idempotency := t_idempotency d @ [row]\<rparr>"
      "idem_key row = (''conversation'', k)" "ik_request_hash row = h" "ik_resource row = conv_id c" "idem_key row \<notin> idem_key ` set (t_idempotency d)"
      by (auto simp: save_idempotency_def k db_add_def split: if_splits)
    have i: "idempotent_resource d' ''conversation'' key h = Inr (Some (conv_id c))"
      using d' k by (simp add: idempotent_resource_def db_get_append db_get_Cons db_get_None [THEN iffD2])
    have "db_get cr_id (conv_id c) (t_conversations d) = None" using n(1) by (simp add: db_get_None conversation_to_row_def)
    then have "repo_get_conversation (conv_id c) d' = Some c"
      by (simp add: repo_get_conversation_def d'(1) db_get_append db_get_Cons) (simp add: conversation_to_row_def)
    moreover have "repo_get_conversation k d' = Some x" if "repo_get_conversation k d = Some x" for k x
      using that by (auto simp: repo_get_conversation_def d'(1) db_get_append)
    ultimately show ?thesis using i n(2) d'(1) by blast
  next
    case (Some i)
    then have r: "repo_get_conversation i d = Some p" "d' = d" using assms(1) by (auto simp: repo_create_conversation_def Inr)
    then have "conv_id p = i" by (auto simp: repo_get_conversation_def conversation_from_row_def dest: db_get_key)
    moreover have "\<exists>keys rows. d = d\<lparr>t_conversations := rows, t_idempotency := keys\<rparr>"
      by (rule exI [of _ "t_idempotency d"], rule exI [of _ "t_conversations d"]) simp
    ultimately show ?thesis using r(1) Inr Some unfolding r(2) by (metis Inr_inject option.distinct(1))
  qed
qed (use assms in \<open>simp add: repo_create_conversation_def\<close>)

lemma parent_valid_mono:
  "(\<And>k x. repo_get_conversation k d = Some x \<Longrightarrow> repo_get_conversation k d' = Some x) \<Longrightarrow> parent_valid q d \<Longrightarrow> parent_valid q d'"
  by (auto simp: parent_valid_def split: option.splits)

section \<open>Properties\<close>

lemma mcp_no_start_error [simp]: "validate_mcp_refs refs d \<noteq> Some (ServiceError ''TEMPORAL_START_FAILED'' n)"
  by (induction refs) (auto simp: mcp_server_id_of_def get_mcp_server_def split: sum.splits json.splits option.splits if_splits)

lemma idem_no_start_error [simp]: "svc_idempotent m scope key h \<noteq> Inl (ServiceError ''TEMPORAL_START_FAILED'' n)"
  by (auto simp: svc_idempotent_def split: option.splits)

lemma create_conversation_shape:
  assumes "svc_create_conversation cfg hash root_of prompt accepts (fresh, cid, rid) now q key s = (res, s1)"
    "repo_get_session now (cq_session q) (ap_db s) = Some x" "res = Inr c \<or> res = Inl (ServiceError ''TEMPORAL_START_FAILED'' 502)"
  shows "parent_valid q (ap_db s) \<and> ac_temporal cfg
    \<and> (case cq_mcp_refs q of None \<Rightarrow> None | Some refs \<Rightarrow> validate_mcp_refs refs (ap_db s)) = None
    \<and> svc_idempotent (sv_idem (ap_svc s)) ''conversation'' key (conversation_hash hash q) = Inr None
    \<and> sv_idem (ap_svc s1) = sv_idem (ap_svc s)
    \<and> (\<exists>p. repo_create_conversation now \<lparr>conv_id = cid, conv_session = cq_session q, parent_conversation = cq_parent q, conv_task = cq_task q,
             conv_mcp_refs = cq_mcp_refs q, conv_mode = or_else (cq_mode q) DEFAULT, conv_created_at = now, conv_run = new_run rid\<rparr>
           (conversation_hash hash q) key (ap_db s) = Inr (Some p, ap_db s1) \<and> (res = Inr c \<longrightarrow> c = p)
         \<and> (ap_runs s1 = ap_runs s \<or> (res = Inr c \<and> conv_id p = cid \<and> (\<exists>r. ap_runs s1 = ap_runs s @ [r]
              \<and> sq_conversation r = cid \<and> sq_run r = run_id (conv_run p) \<and> sq_session r = sess_id x))))"
  using assms(1) existing_session [OF assms(2), of cfg hash root_of fresh] assms(3)
  by (auto simp: svc_create_conversation_def Let_def start_temporal_run_def temporal_run_request_def conflict_409_def
      split: option.splits sum.splits if_splits db_error.splits)

text \<open>C30. One key, one run. When a conversation is created under an idempotency key, at most one run is started, for
  that conversation; the same request with the same key, with whatever fresh identifiers, returns the same
  conversation and starts nothing. The session of the request exists.\<close>

theorem conversation_started_once:
  assumes "svc_create_conversation cfg hash root_of prompt accepts (fresh, cid, rid) now q key s = (Inr c, s1)" "str_true key"
    "repo_get_session now (cq_session q) (ap_db s) \<noteq> None" "cid' \<noteq> conv_id c"
  shows "(ap_runs s1 = ap_runs s \<or> (\<exists>r. ap_runs s1 = ap_runs s @ [r] \<and> sq_conversation r = conv_id c \<and> sq_run r = run_id (conv_run c)))
    \<and> (\<exists>s2. svc_create_conversation cfg hash root_of prompt accepts' (fresh', cid', rid') now' q key s1 = (Inr c, s2)
          \<and> ap_runs s2 = ap_runs s1 \<and> ap_db s2 = ap_db s1)"
proof -
  from assms(3) obtain x where x: "repo_get_session now (cq_session q) (ap_db s) = Some x" by auto
  from create_conversation_shape [OF assms(1) x, of c] have sh: "parent_valid q (ap_db s)" "ac_temporal cfg"
    "(case cq_mcp_refs q of None \<Rightarrow> None | Some refs \<Rightarrow> validate_mcp_refs refs (ap_db s)) = None"
    "svc_idempotent (sv_idem (ap_svc s1)) ''conversation'' key (conversation_hash hash q) = Inr None"
    and cr: "repo_create_conversation now \<lparr>conv_id = cid, conv_session = cq_session q, parent_conversation = cq_parent q, conv_task = cq_task q,
             conv_mcp_refs = cq_mcp_refs q, conv_mode = or_else (cq_mode q) DEFAULT, conv_created_at = now, conv_run = new_run rid\<rparr>
           (conversation_hash hash q) key (ap_db s) = Inr (Some c, ap_db s1)"
    and runs: "ap_runs s1 = ap_runs s \<or> (conv_id c = cid \<and> (\<exists>r. ap_runs s1 = ap_runs s @ [r] \<and> sq_conversation r = cid \<and> sq_run r = run_id (conv_run c)))"
    by auto
  from conversation_created [OF cr assms(2)] obtain keys rows where k:
    "idempotent_resource (ap_db s1) ''conversation'' key (conversation_hash hash q) = Inr (Some (conv_id c))"
    "ap_db s1 = (ap_db s)\<lparr>t_conversations := rows, t_idempotency := keys\<rparr>" "repo_get_conversation (conv_id c) (ap_db s1) = Some c"
    "\<And>i y. repo_get_conversation i (ap_db s) = Some y \<Longrightarrow> repo_get_conversation i (ap_db s1) = Some y" by blast
  have "repo_get_session now' (cq_session q) (ap_db s1) \<noteq> None" using x by (auto simp: k(2) repo_get_session_def)
  moreover have "parent_valid q (ap_db s1)" by (rule parent_valid_mono [OF k(4) sh(1)])
  moreover have "(case cq_mcp_refs q of None \<Rightarrow> None | Some refs \<Rightarrow> validate_mcp_refs refs (ap_db s1)) = None"
    using sh(3) by (simp add: k(2) cong: option.case_cong)
  ultimately have "\<exists>s2. svc_create_conversation cfg hash root_of prompt accepts' (fresh', cid', rid') now' q key s1 = (Inr c, s2)
      \<and> ap_runs s2 = ap_runs s1 \<and> ap_db s2 = ap_db s1"
    using conversation_replay [OF k(1,3)] sh(2,4) assms(4) by blast
  then show ?thesis using runs by auto
qed

definition demo_service :: app_state where
  "demo_service = \<lparr>ap_svc = \<lparr>sv_db = empty_db\<lparr>t_sessions := [\<lparr>sess_id = ''s1'', sess_workspace = ''w'', sess_tenant = None, sess_user = None,
       sess_project = None, sess_metadata = [], sess_config = None, sess_lease_epoch = 0, sess_active_run = None, sess_created_at = 0\<rparr>]\<rparr>,
       sv_idem = [], sv_calls = []\<rparr>, ap_sessions = [], ap_workspaces = [], ap_store = \<lparr>ws_root = [''srv''], ws_elsewhere = [], ws_dirs = [], ws_snapshots = [], ws_paths = []\<rparr>,
     ap_skills = [], ap_runs = []\<rparr>"

abbreviation demo_cfg :: app_config where
  "demo_cfg \<equiv> \<lparr>ac_auto_create_missing = True, ac_auto_create_scopes = ''all'', ac_default_runner_image = ''img'', ac_temporal = True\<rparr>"

abbreviation demo_request :: conversation_request where
  "demo_request \<equiv> \<lparr>cq_session = ''s1'', cq_task = ''t'', cq_parent = None, cq_workspace = None, cq_mcp_refs = None, cq_mode = None\<rparr>"

theorem conversation_started_once_witness:
  "\<exists>c s1 s2. svc_create_conversation demo_cfg (\<lambda>_. ''h'') (\<lambda>w. w) ''p'' (\<lambda>_. True) (''f'', ''c1'', ''r1'') 5 demo_request (Some ''k'') demo_service = (Inr c, s1)
     \<and> map sq_run (ap_runs s1) = [''r1'']
     \<and> svc_create_conversation demo_cfg (\<lambda>_. ''h'') (\<lambda>w. w) ''p'' (\<lambda>_. True) (''f'', ''c2'', ''r2'') 6 demo_request (Some ''k'') s1 = (Inr c, s2)
     \<and> ap_runs s2 = ap_runs s1"
proof -
  let ?res = "svc_create_conversation demo_cfg (\<lambda>_. ''h'') (\<lambda>w. w) ''p'' (\<lambda>_. True) (''f'', ''c1'', ''r1'') 5 demo_request (Some ''k'') demo_service"
  have "\<exists>c s1. ?res = (Inr c, s1) \<and> conv_id c = ''c1'' \<and> map sq_run (ap_runs s1) = [''r1'']"
    by (simp add: svc_create_conversation_def conversation_session_def demo_service_def repo_get_session_def db_get_Cons parent_valid_def
        svc_idempotent_def repo_create_conversation_def idempotent_resource_def insert_conversation_def db_add_def save_idempotency_def Let_def
        start_temporal_run_def temporal_run_request_def cli_policy_for_session_def latest_ready_image_def str_true_def session_from_row_def new_run_def)
  then obtain c s1 where r: "?res = (Inr c, s1)" "conv_id c = ''c1''" "map sq_run (ap_runs s1) = [''r1'']"
    by (elim exE conjE)
  have x: "repo_get_session 5 (cq_session demo_request) (ap_db demo_service) \<noteq> None" by (simp add: demo_service_def repo_get_session_def db_get_Cons)
  from conversation_started_once [OF r(1) _ x, of "''c2''" "\<lambda>_. True" "''f''" "''r2''" 6] r show ?thesis by (auto simp: str_true_def)
qed

text \<open>A conversation whose run could not be started stays: the retry under the same key answers with it and starts
  no run.\<close>

lemma failed_start_never_started:
  assumes "svc_create_conversation cfg hash root_of prompt accepts (fresh, cid, rid) now q key s = (Inl (ServiceError ''TEMPORAL_START_FAILED'' 502), s1)"
    "str_true key" "repo_get_session now (cq_session q) (ap_db s) \<noteq> None" "\<And>p. repo_get_conversation cid' (ap_db s1) \<noteq> Some p"
  shows "\<exists>p s2. svc_create_conversation cfg hash root_of prompt accepts' (fresh', cid', rid') now' q key s1 = (Inr p, s2)
    \<and> ap_runs s2 = ap_runs s"
proof -
  from assms(3) obtain x where x: "repo_get_session now (cq_session q) (ap_db s) = Some x" by auto
  from create_conversation_shape [OF assms(1) x] obtain p where sh: "parent_valid q (ap_db s)" "ac_temporal cfg"
    "(case cq_mcp_refs q of None \<Rightarrow> None | Some refs \<Rightarrow> validate_mcp_refs refs (ap_db s)) = None"
    "svc_idempotent (sv_idem (ap_svc s1)) ''conversation'' key (conversation_hash hash q) = Inr None" "ap_runs s1 = ap_runs s"
    and cr: "repo_create_conversation now \<lparr>conv_id = cid, conv_session = cq_session q, parent_conversation = cq_parent q, conv_task = cq_task q,
             conv_mcp_refs = cq_mcp_refs q, conv_mode = or_else (cq_mode q) DEFAULT, conv_created_at = now, conv_run = new_run rid\<rparr>
           (conversation_hash hash q) key (ap_db s) = Inr (Some p, ap_db s1)"
    by auto
  from conversation_created [OF cr assms(2)] obtain keys rows where k:
    "idempotent_resource (ap_db s1) ''conversation'' key (conversation_hash hash q) = Inr (Some (conv_id p))"
    "ap_db s1 = (ap_db s)\<lparr>t_conversations := rows, t_idempotency := keys\<rparr>" "repo_get_conversation (conv_id p) (ap_db s1) = Some p"
    "\<And>i y. repo_get_conversation i (ap_db s) = Some y \<Longrightarrow> repo_get_conversation i (ap_db s1) = Some y" by blast
  have "cid' \<noteq> conv_id p" using k(3) assms(4) by auto
  moreover have "repo_get_session now' (cq_session q) (ap_db s1) \<noteq> None" using x by (auto simp: k(2) repo_get_session_def)
  moreover have "parent_valid q (ap_db s1)" by (rule parent_valid_mono [OF k(4) sh(1)])
  moreover have "(case cq_mcp_refs q of None \<Rightarrow> None | Some refs \<Rightarrow> validate_mcp_refs refs (ap_db s1)) = None"
    using sh(3) by (simp add: k(2) cong: option.case_cong)
  ultimately have "\<exists>s2. svc_create_conversation cfg hash root_of prompt accepts' (fresh', cid', rid') now' q key s1 = (Inr p, s2)
      \<and> ap_runs s2 = ap_runs s1 \<and> ap_db s2 = ap_db s1"
    using conversation_replay [OF k(1,3)] sh(2,4) by blast
  then show ?thesis using sh(5) by auto
qed

text \<open>A workspace that any session uses cannot be restored, whether a run is in flight or not.\<close>

lemma restore_refused_for_idle_session:
  assumes "repo_get_workspace wid (ap_db s) = Some w" "\<exists>x\<in>set (t_sessions (ap_db s)). sess_workspace x = wid" "\<not> str_true key"
  shows "fst (restore_workspace_version hash now wid vid key s) = Inl (ServiceError ''WORKSPACE_BUSY'' 409)"
proof -
  have "svc_idempotent m scope key h = Inr None" for m scope h
    using assms(3) by (auto simp: svc_idempotent_def str_true_def split: option.splits)
  moreover have "ensure_workspace_idle now wid (cache_workspace w s) = Some (ServiceError ''WORKSPACE_BUSY'' 409)"
    using assms(2) by (auto simp: ensure_workspace_idle_def repo_list_sessions_def list_ex_iff session_from_row_def)
  ultimately show ?thesis
    using assms(1,3) by (simp add: restore_workspace_version_def svc_get_workspace_def keyed_operation_def Let_def)
qed


end
