(* ===== verification/Skill_Generation.thy ===== *)
theory Skill_Generation
  imports Sessions
begin

text \<open>
  Skill generation, \<open>application/skill_generation_ops.py\<close>: a request runs a conversation over the history of a session,
  its result is turned into a draft, and an approved draft is installed in the skill source. \<open>loads\<close> is
  \<open>json.loads\<close>, with no value for a text it refuses; \<open>render\<close> is the text of the event file and \<open>task_of\<close>
  the task of the conversation, for the path of that file; \<open>cached\<close> is the process's copy of a conversation. The copies of
  requests and drafts hold nothing that the repository does not: rows of either are never deleted. The directory \<open>.agentsupport\<close> of
  a workspace is taken to be no symbolic link.
\<close>

section \<open>Extraction\<close>

text \<open>The regular expression of \<open>_strip_markdown_fence\<close>: the shortest body between the fences.\<close>

definition fence_closes :: "string \<Rightarrow> bool" where
  "fence_closes s = (py_startswith s [nl] \<and> (let r = dropWhile py_isspace (tl s) in
     py_startswith r ''```'' \<and> list_all py_isspace (drop 3 r)))"

fun fence_body :: "string \<Rightarrow> string option" where
  "fence_body [] = None"
| "fence_body (c # s) = (if fence_closes (c # s) then Some [] else map_option (Cons c) (fence_body s))"

definition fence_match :: "string \<Rightarrow> string option" where
  "fence_match text = (let s = dropWhile py_isspace text in
     if \<not> py_startswith s ''```'' then None
     else (let r = drop 3 s; t = (if py_startswith r ''json'' then drop 4 r else r); n = length (takeWhile py_isspace t) in
           first_some (map fence_body (concat (map (\<lambda>k. if py_startswith (drop k t) [nl] then [drop (k + 1) t] else []) (rev [0..<Suc n]))))))"

definition strip_markdown_fence :: "string \<Rightarrow> string" where
  "strip_markdown_fence text = or_else (fence_match text) text"

text \<open>\<open>_extract_skill_content\<close> goes through envelopes and nested texts; it has fuel.\<close>

fun extract_skill_content :: "nat \<Rightarrow> (string \<Rightarrow> json option) \<Rightarrow> json \<Rightarrow> string option option" where
  "extract_skill_content 0 loads v = None"
| "extract_skill_content (Suc fuel) loads v = (case v of
       JStr s \<Rightarrow> (let text = py_strip s in
         if text = [] then Some None
         else (let stripped = strip_markdown_fence text in
               case loads stripped of
                 None \<Rightarrow> Some (if py_startswith stripped ''---'' then Some stripped else None)
               | Some w \<Rightarrow> extract_skill_content fuel loads w))
     | JObj ps \<Rightarrow>
         (case find (\<lambda>k. case obj_get ps k JNull of JStr t \<Rightarrow> py_strip t \<noteq> [] | _ \<Rightarrow> False) [''skill_markdown'', ''skill_content'', ''content''] of
            None \<Rightarrow> Some None
          | Some k \<Rightarrow> extract_skill_content fuel loads (obj_get ps k JNull))
     | _ \<Rightarrow> Some None)"

section \<open>Front matter and identifier of a draft\<close>

fun draft_fields :: "string list \<Rightarrow> (string \<times> string) list \<Rightarrow> (string \<times> string) list" where
  "draft_fields [] acc = acc"
| "draft_fields (l # ls) acc =
     (if py_strip l = ''---'' then acc
      else draft_fields ls (case partition_at CHR '':'' l of
          None \<Rightarrow> acc
        | Some (k, v) \<Rightarrow> AList.update (py_strip k)
            (py_strip_by (\<lambda>c. c = CHR 0x27) (py_strip_by (\<lambda>c. c = CHR 0x22) (py_strip v))) acc))"

definition parse_draft_frontmatter :: "string \<Rightarrow> (string \<times> string) list" where
  "parse_draft_frontmatter content = (case splitlines [] content of
       [] \<Rightarrow> [] | l # ls \<Rightarrow> if py_strip l \<noteq> ''---'' then [] else draft_fields ls [])"

definition slug_char :: "char \<Rightarrow> bool" where
  "slug_char c = (is_alnum_ascii c \<or> c \<in> {CHR ''.'', CHR ''_'', CHR ''-''})"

text \<open>\<open>re.sub(r"[^A-Za-z0-9._-]+", "-", s)\<close>: a run of other characters becomes one dash.\<close>

fun dash_runs :: "bool \<Rightarrow> string \<Rightarrow> string" where
  "dash_runs inside [] = []"
| "dash_runs inside (c # s) = (if slug_char c then c # dash_runs False s
     else if inside then dash_runs True s else CHR ''-'' # dash_runs True s)"

definition slugify_skill_id :: "string \<Rightarrow> string" where
  "slugify_skill_id name = (let slug = py_strip_by (\<lambda>c. c = CHR ''-'' \<or> c = CHR ''.'') (dash_runs False (py_lower (py_strip name))) in
     if slug = [] \<or> \<not> is_alnum_ascii (hd slug) then ''generated-skill'' else slug)"

section \<open>Requests\<close>

definition check_generation_tenant :: "string option \<Rightarrow> string option \<Rightarrow> service_error option" where
  "check_generation_tenant owner caller = (if caller \<noteq> None \<and> owner \<noteq> caller then Some (ServiceError ''SESSION_NOT_FOUND'' 404) else None)"

definition generation_conversation :: "(uuid \<Rightarrow> conversation option) \<Rightarrow> uuid \<Rightarrow> db \<Rightarrow> conversation option" where
  "generation_conversation cached cid d = (case repo_get_conversation cid d of Some c \<Rightarrow> Some c | None \<Rightarrow> cached cid)"

definition persist_generation :: "skill_generation_request \<Rightarrow> db \<Rightarrow> db_error + db" where
  "persist_generation r d = (case get_skill_generation_request (sg_id r) d of
       None \<Rightarrow> create_skill_generation_request r d
     | Some _ \<Rightarrow> Inr (update_skill_generation_request r d))"

definition persist_draft :: "skill_draft \<Rightarrow> db \<Rightarrow> db_error + db" where
  "persist_draft x d = (case get_skill_draft (sd_id x) d of
       None \<Rightarrow> create_skill_draft x d
     | Some _ \<Rightarrow> Inr (update_skill_draft x d))"

definition draft_for_generation :: "uuid \<Rightarrow> db \<Rightarrow> skill_draft option" where
  "draft_for_generation gid d = (case list_skill_drafts None None (Some gid) None 0 d of [] \<Rightarrow> None | x # _ \<Rightarrow> Some x)"

text \<open>The outcome of a finished run: the content of a draft and its front matter, or the error.\<close>

definition generation_outcome :: "nat \<Rightarrow> (string \<Rightarrow> json option) \<Rightarrow> conversation \<Rightarrow> string + (string \<times> (string \<times> string) list)" where
  "generation_outcome fuel loads c =
     (if state (conv_run c) = COMPLETED
      then (case or_else (extract_skill_content fuel loads (result_summary (conv_run c))) None of
          None \<Rightarrow> Inl ''generated SKILL.md must contain frontmatter name and description''
        | Some content \<Rightarrow>
            (let fm = parse_draft_frontmatter content in
             if content = [] \<or> or_else (map_of fm ''name'') [] = [] \<or> or_else (map_of fm ''description'') [] = []
             then Inl ''generated SKILL.md must contain frontmatter name and description'' else Inr (content, fm)))
      else Inl (''generation run ended with '' @ state_value (state (conv_run c))))"

definition draft_of :: "uuid \<Rightarrow> time \<Rightarrow> skill_generation_request \<Rightarrow> uuid \<Rightarrow> string \<Rightarrow> (string \<times> string) list \<Rightarrow> skill_draft" where
  "draft_of fresh now r cid content fm = \<lparr>sd_id = fresh, sd_skill_id = slugify_skill_id (or_else (map_of fm ''name'') []),
     sd_tenant = sg_tenant r, sd_project = sg_project r, sd_source_session = sg_session r, sd_source_conversation = cid,
     sd_generation = sg_id r, sd_status = DRAFT, sd_content = content, sd_frontmatter = fm, sd_created_at = now,
     sd_reviewed_at = None, sd_review_note = None\<rparr>"

text \<open>\<open>_finalize_generation\<close>: the request as it is left, and the repository.\<close>

definition finalize_generation :: "nat \<Rightarrow> (string \<Rightarrow> json option) \<Rightarrow> (uuid \<Rightarrow> conversation option) \<Rightarrow> uuid \<Rightarrow> time \<Rightarrow> skill_generation_request \<Rightarrow> db
    \<Rightarrow> db_error + (skill_generation_request \<times> db)" where
  "finalize_generation fuel loads cached fresh now r d =
     (if sg_status r \<noteq> GEN_PENDING then Inr (r, d)
      else case sg_conversation r of
        None \<Rightarrow> Inr (r, d)
      | Some cid \<Rightarrow> (case generation_conversation cached cid d of
          None \<Rightarrow> Inr (r, d)
        | Some c \<Rightarrow>
            if \<not> terminal (state (conv_run c)) then Inr (r, d)
            else (case generation_outcome fuel loads c of
                Inl err \<Rightarrow>
                  (let r' = r\<lparr>sg_status := GEN_FAILED, sg_error := Some err, sg_completed_at := Some now\<rparr> in
                   map_sum id (Pair r') (persist_generation r' d))
              | Inr (content, fm) \<Rightarrow>
                  (case (if draft_for_generation (sg_id r) d = None then persist_draft (draft_of fresh now r cid content fm) d else Inr d) of
                     Inl e \<Rightarrow> Inl e
                   | Inr d1 \<Rightarrow>
                       (let r' = r\<lparr>sg_status := GEN_COMPLETED, sg_error := None, sg_completed_at := Some now\<rparr> in
                        map_sum id (Pair r') (persist_generation r' d1))))))"

fun finalize_all :: "nat \<Rightarrow> (string \<Rightarrow> json option) \<Rightarrow> (uuid \<Rightarrow> conversation option) \<Rightarrow> (uuid \<Rightarrow> uuid) \<Rightarrow> time \<Rightarrow> skill_generation_request list \<Rightarrow> db
    \<Rightarrow> db_error + db" where
  "finalize_all fuel loads cached fresh now [] d = Inr d"
| "finalize_all fuel loads cached fresh now (r # rs) d = (case finalize_generation fuel loads cached (fresh (sg_id r)) now r d of
       Inl e \<Rightarrow> Inl e | Inr (_, d1) \<Rightarrow> finalize_all fuel loads cached fresh now rs d1)"

definition svc_list_skill_drafts :: "nat \<Rightarrow> (string \<Rightarrow> json option) \<Rightarrow> (uuid \<Rightarrow> conversation option) \<Rightarrow> (uuid \<Rightarrow> uuid) \<Rightarrow> time
    \<Rightarrow> string option \<Rightarrow> draft_status option \<Rightarrow> nat option \<Rightarrow> nat \<Rightarrow> db \<Rightarrow> db_error + (skill_draft list \<times> db)" where
  "svc_list_skill_drafts fuel loads cached fresh now tenant st n off d =
     (case finalize_all fuel loads cached fresh now (list_skill_generation_requests tenant (Some GEN_PENDING) d) d of
        Inl e \<Rightarrow> Inl e
      | Inr d1 \<Rightarrow> Inr (Repo_Admin.list_skill_drafts tenant st None n off d1, d1))"

definition svc_get_skill_generation :: "nat \<Rightarrow> (string \<Rightarrow> json option) \<Rightarrow> (uuid \<Rightarrow> conversation option) \<Rightarrow> uuid \<Rightarrow> time \<Rightarrow> uuid
    \<Rightarrow> string option \<Rightarrow> db \<Rightarrow> service_error + (skill_generation_request \<times> db)" where
  "svc_get_skill_generation fuel loads cached fresh now rid tenant d =
     (case get_skill_generation_request rid d of
        None \<Rightarrow> Inl (ServiceError ''GENERATION_NOT_FOUND'' 404)
      | Some r \<Rightarrow> (case check_generation_tenant (sg_tenant r) tenant of
          Some e \<Rightarrow> Inl e
        | None \<Rightarrow> map_sum Raised id (finalize_generation fuel loads cached fresh now r d)))"

section \<open>Starting a generation\<close>

text \<open>The event file goes to the session's workspace; the events of silent runs are left out.\<close>

definition event_file :: "uuid \<Rightarrow> string list" where
  "event_file gid = [''.agentsupport'', ''skill-generation-'' @ gid, ''events.jsonl'']"

definition generation_events :: "time \<Rightarrow> uuid \<Rightarrow> app_state \<Rightarrow> event_envelope list" where
  "generation_events now sid s =
     (let silent = map (\<lambda>c. run_id (conv_run c)) (filter (\<lambda>c. conv_mode c = SILENT) (repo_list_conversations (Some sid) None 0 (ap_db s))) in
      case svc_session_events now sid 0 None s of (Inl _, _) \<Rightarrow> [] | (Inr es, _) \<Rightarrow> filter (\<lambda>e. ev_run_id e \<notin> set silent) es)"

definition generate_skill :: "app_config \<Rightarrow> (obj \<Rightarrow> string) \<Rightarrow> (uuid \<Rightarrow> string) \<Rightarrow> string \<Rightarrow> (start_request \<Rightarrow> bool) \<Rightarrow> (event_envelope list \<Rightarrow> string)
    \<Rightarrow> (string list \<Rightarrow> string) \<Rightarrow> nat \<Rightarrow> (string \<Rightarrow> json option) \<Rightarrow> uuid \<times> uuid \<times> uuid \<Rightarrow> uuid \<Rightarrow> uuid \<Rightarrow> time \<Rightarrow> uuid \<Rightarrow> string option \<Rightarrow> app_state
    \<Rightarrow> (service_error + skill_generation_request) \<times> app_state" where
  "generate_skill cfg hash root_of prompt accepts render task_of fuel loads ids gid did now sid tenant s =
     (case svc_get_session now sid s of
        (Inl e, s1) \<Rightarrow> (Inl e, s1)
      | (Inr x, s1) \<Rightarrow> (case check_generation_tenant (sess_tenant x) tenant of
          Some e \<Rightarrow> (Inl e, s1)
        | None \<Rightarrow> (case svc_get_workspace (sess_workspace x) s1 of
            (Inl e, s2) \<Rightarrow> (Inl e, s2)
          | (Inr w, s2) \<Rightarrow>
              (let tree = write_file (event_file gid) (render (generation_events now sid s2)) (or_else (map_of (ws_dirs (ap_store s2)) (ws_id w)) []);
                   s3 = s2\<lparr>ap_store := (ap_store s2)\<lparr>ws_dirs := AList.update (ws_id w) tree (ws_dirs (ap_store s2))\<rparr>\<rparr> in
               case svc_create_conversation cfg hash root_of prompt accepts ids now
                      \<lparr>cq_session = sid, cq_task = prompt @ task_of (event_file gid), cq_parent = None, cq_workspace = Some (sess_workspace x),
                       cq_mcp_refs = None, cq_mode = Some SILENT\<rparr> None s3 of
                 (Inl e, s4) \<Rightarrow> (Inl e, s4)
               | (Inr c, s4) \<Rightarrow>
                   (let r = \<lparr>sg_id = gid, sg_session = sid, sg_conversation = Some (conv_id c), sg_tenant = sess_tenant x, sg_project = sess_project x,
                             sg_status = GEN_PENDING, sg_error = None, sg_created_at = now, sg_completed_at = None\<rparr> in
                    case persist_generation r (ap_db s4) of
                      Inl e \<Rightarrow> (Inl (Raised e), s4)
                    | Inr d \<Rightarrow> (case finalize_generation fuel loads (\<lambda>_. None) did now r d of
                        Inl e \<Rightarrow> (Inl (Raised e), with_db d s4)
                      | Inr (r', d') \<Rightarrow> (Inr r', with_db d' s4)))))))"

section \<open>Review\<close>

definition review_skill_draft :: "(string \<Rightarrow> string) \<Rightarrow> time \<Rightarrow> uuid \<Rightarrow> string option \<Rightarrow> string \<Rightarrow> string option \<Rightarrow> app_state
    \<Rightarrow> (service_error + skill_draft) \<times> app_state" where
  "review_skill_draft sha now did tenant decision note s =
     (case get_skill_draft did (ap_db s) of
        None \<Rightarrow> (Inl (ServiceError ''DRAFT_NOT_FOUND'' 404), s)
      | Some x \<Rightarrow> (case check_generation_tenant (sd_tenant x) tenant of
          Some e \<Rightarrow> (Inl e, s)
        | None \<Rightarrow>
            if sd_status x \<noteq> DRAFT \<and> sd_status x \<noteq> REVIEW then (Inl (ServiceError ''DRAFT_NOT_REVIEWABLE'' 409), s)
            else (let save = (\<lambda>st s. let y = x\<lparr>sd_status := st, sd_reviewed_at := Some now, sd_review_note := note\<rparr> in
                      case persist_draft y (ap_db s) of Inl e \<Rightarrow> (Inl (Raised e), s) | Inr d \<Rightarrow> (Inr y, with_db d s)) in
                  if decision = ''approve''
                  then (case install_skill sha (sd_skill_id x) [(''SKILL.md'', sd_content x)] (sd_tenant x) (ap_skills s) of
                      Inl SkillOSError \<Rightarrow> (Inl (Raised OSError), s)
                    | Inl _ \<Rightarrow> (Inl (Raised ValueError), s)
                    | Inr (_, t) \<Rightarrow> save PUBLISHED (s\<lparr>ap_skills := t\<rparr>))
                  else if decision = ''reject'' then save REJECTED s
                  else (Inl (ServiceError ''DRAFT_REVIEW_INVALID'' 422), s))))"

section \<open>Extraction ends\<close>

text \<open>What the code relies on of \<open>json.loads\<close>: a string in the parsed text is shorter than the text, which has at least
  its two quotes more.\<close>

definition text_bound :: "nat \<Rightarrow> json \<Rightarrow> bool" where
  "text_bound n v = (case v of JStr t \<Rightarrow> length t < n
     | JObj ps \<Rightarrow> (\<forall>k t. map_of ps k = Some (JStr t) \<longrightarrow> length t < n) | _ \<Rightarrow> True)"

definition loads_shrinks :: "(string \<Rightarrow> json option) \<Rightarrow> bool" where
  "loads_shrinks loads = (\<forall>s v. loads s = Some v \<longrightarrow> text_bound (length s) v)"

lemma length_strip: "length (py_strip_by P s) \<le> length s"
  by (metis dual_order.trans length_dropWhile_le length_rev py_strip_by_def)

lemma fence_body_length: "fence_body s = Some b \<Longrightarrow> length b \<le> length s"
  by (induction s arbitrary: b) (auto split: if_splits)

lemma first_some_SomeD: "first_some xs = Some v \<Longrightarrow> Some v \<in> set xs"
  by (induction xs) (auto split: option.splits)

lemma fence_match_length:
  assumes "fence_match text = Some b"
  shows "length b \<le> length text"
proof -
  let ?s = "dropWhile py_isspace text"
  define t where "t = (if py_startswith (drop 3 ?s) ''json'' then drop 4 (drop 3 ?s) else drop 3 ?s)"
  have "length t \<le> length ?s" by (simp add: t_def)
  moreover have "length ?s \<le> length text" by (rule length_dropWhile_le)
  moreover have "first_some (map fence_body (concat (map (\<lambda>k. if py_startswith (drop k t) [nl] then [drop (k + 1) t] else [])
      (rev [0..<Suc (length (takeWhile py_isspace t))])))) = Some b"
  proof -
    have st: "py_startswith ?s ''```''"
    proof (rule ccontr)
      assume "\<not> py_startswith ?s ''```''"
      then show False using assms by (simp add: fence_match_def Let_def)
    qed
    have "fence_match text = first_some (map fence_body (concat (map (\<lambda>k. if py_startswith (drop k t) [nl] then [drop (k + 1) t] else [])
      (rev [0..<Suc (length (takeWhile py_isspace t))]))))"
      unfolding fence_match_def Let_def t_def by (simp only: st simp_thms if_False)
    then show ?thesis using assms by simp
  qed
  then obtain k where "fence_body (drop (k + 1) t) = Some b"
    by (auto dest!: first_some_SomeD split: if_splits simp del: upt_Suc drop_drop)
  then have "length b \<le> length (drop (k + 1) t)" by (rule fence_body_length)
  ultimately show ?thesis by simp
qed

lemma strip_fence_length: "length (strip_markdown_fence (py_strip s)) \<le> length s"
  using length_strip [of py_isspace s]
  by (cases "fence_match (py_strip s)") (auto simp: strip_markdown_fence_def or_else_def dest!: fence_match_length)

lemma extraction_step:
  assumes "loads_shrinks loads" "\<And>t k. length t < n \<Longrightarrow> \<exists>r. \<forall>k. extract_skill_content (2 * length t + 1 + k) loads (JStr t) = Some r"
    "text_bound n v"
  shows "\<exists>r. \<forall>k. extract_skill_content (2 * n + k) loads v = Some r \<or> n = 0"
proof (cases "n = 0")
  case False
  then obtain m where n: "n = Suc m" by (cases n) auto
  have str: "\<exists>r. \<forall>k. extract_skill_content (2 * m + 1 + k) loads (JStr t) = Some r" if t: "length t < n" for t
  proof -
    from assms(2) [OF t] obtain r where r: "\<forall>k. extract_skill_content (2 * length t + 1 + k) loads (JStr t) = Some r" by blast
    have "extract_skill_content (2 * m + 1 + k) loads (JStr t) = Some r" for k
      using r [rule_format, of "2 * (m - length t) + k"] t n by (simp add: algebra_simps)
    then show ?thesis by blast
  qed
  show ?thesis
  proof (cases v)
    case (JStr t)
    then have "length t < n" using assms(3) by (simp add: text_bound_def)
    from str [OF this] obtain r where r: "\<forall>k. extract_skill_content (2 * m + 1 + k) loads (JStr t) = Some r" by blast
    have "extract_skill_content (2 * n + k) loads v = Some r" for k
      using r [rule_format, of "1 + k"] by (simp add: JStr n)
    then show ?thesis by blast
  next
    case (JObj ps)
    let ?f = "find (\<lambda>k. case obj_get ps k JNull of JStr t \<Rightarrow> py_strip t \<noteq> [] | _ \<Rightarrow> False) [''skill_markdown'', ''skill_content'', ''content'']"
    have step: "extract_skill_content (2 * n + k) loads v = (case ?f of None \<Rightarrow> Some None
        | Some j \<Rightarrow> extract_skill_content (2 * m + 1 + k) loads (obj_get ps j JNull))" for k
      by (simp add: JObj n)
    show ?thesis
    proof (cases ?f)
      case None
      then show ?thesis using step by (intro exI [of _ None]) simp
    next
      case (Some j)
      then have "case obj_get ps j JNull of JStr t \<Rightarrow> py_strip t \<noteq> [] | _ \<Rightarrow> False" by (rule find_SomeD [THEN conjunct2])
      then obtain t where t: "obj_get ps j JNull = JStr t" by (cases "obj_get ps j JNull") auto
      then have "map_of ps j = Some (JStr t)" by (auto simp: obj_get_def split: option.splits)
      then have "length t < n" using assms(3) by (auto simp: text_bound_def JObj)
      from str [OF this] obtain r where r: "\<forall>k. extract_skill_content (2 * m + 1 + k) loads (JStr t) = Some r" by blast
      have "extract_skill_content (2 * n + k) loads v = Some r" for k using step [of k] r Some t by simp
      then show ?thesis by blast
    qed
  qed (auto simp: n)
qed simp

lemma extraction_of_text:
  assumes "loads_shrinks loads"
  shows "\<exists>r. \<forall>k. extract_skill_content (2 * length s + 1 + k) loads (JStr s) = Some r"
proof (induction "length s" arbitrary: s rule: less_induct)
  case less
  define u where "u = strip_markdown_fence (py_strip s)"
  have len: "length u \<le> length s" using strip_fence_length by (simp add: u_def)
  have step: "extract_skill_content (2 * length s + 1 + k) loads (JStr s) =
    (if py_strip s = [] then Some None else case loads u of
        None \<Rightarrow> Some (if py_startswith u ''---'' then Some u else None)
      | Some w \<Rightarrow> extract_skill_content (2 * length s + k) loads w)" for k
    unfolding u_def by (simp add: Let_def)
  show ?case
  proof (cases "py_strip s = []")
    case True
    then show ?thesis using step by (intro exI [of _ None]) simp
  next
    case False
    then have pos: "length s \<noteq> 0" by (auto simp: py_strip_by_def)
    show ?thesis
    proof (cases "loads u")
      case None
      then show ?thesis using step False by (intro exI [of _ "if py_startswith u ''---'' then Some u else None"]) simp
    next
      case (Some w)
      have "text_bound (length u) w" using assms Some by (auto simp: loads_shrinks_def)
      then have "text_bound (length s) w" using len by (fastforce simp: text_bound_def split: json.splits)
      from extraction_step [OF assms _ this] less obtain r where "\<forall>k. extract_skill_content (2 * length s + k) loads w = Some r"
        using pos by metis
      then show ?thesis using step False Some by (intro exI [of _ r]) simp
    qed
  qed
qed

lemma extraction_of_object:
  assumes "loads_shrinks loads" "text_bound n (JObj ps)"
  shows "\<exists>r. \<forall>k. extract_skill_content (2 * n + 1 + k) loads (JObj ps) = Some r"
proof (cases "n = 0")
  case False
  from extraction_step [OF assms(1) extraction_of_text [OF assms(1)] assms(2)] False
  obtain r where r: "\<forall>k. extract_skill_content (2 * n + k) loads (JObj ps) = Some r" by metis
  have "extract_skill_content (2 * n + 1 + k) loads (JObj ps) = Some r" for k
    using r [rule_format, of "1 + k"] by simp
  then show ?thesis by blast
next
  case True
  with assms(2) have "find (\<lambda>k. case obj_get ps k JNull of JStr t \<Rightarrow> py_strip t \<noteq> [] | _ \<Rightarrow> False) [''skill_markdown'', ''skill_content'', ''content''] = None"
    by (auto simp: text_bound_def obj_get_def find_None_iff split: json.splits option.splits)
  then show ?thesis by (intro exI [of _ None]) (simp add: True)
qed

section \<open>Identifiers\<close>

lemma dash_runs_chars: "list_all slug_char (dash_runs b s)"
  by (induction b s rule: dash_runs.induct) (auto simp: slug_char_def)

lemma strip_subset: "set (py_strip_by P s) \<subseteq> set s"
  by (auto simp: py_strip_by_def dest!: set_dropWhileD)

lemma slugify_valid: "valid_skill_id (slugify_skill_id name)"
proof -
  define slug where "slug = py_strip_by (\<lambda>c. c = CHR ''-'' \<or> c = CHR ''.'') (dash_runs False (py_lower (py_strip name)))"
  have "list_all slug_char slug"
    using dash_runs_chars [of False "py_lower (py_strip name)"] strip_subset unfolding slug_def list_all_iff by blast
  moreover have "valid_skill_id ''generated-skill''" by code_simp
  ultimately show ?thesis
    by (cases slug) (auto simp: slugify_skill_id_def Let_def slug_def [symmetric] valid_skill_id_def slug_char_def list_all_iff)
qed

definition demo_skill :: string where
  "demo_skill = ''---'' @ nl # ''name: a'' @ nl # ''description: b''"

definition closed_skill :: string where
  "closed_skill = demo_skill @ nl # ''---'' @ [nl]"

definition demo_gen :: skill_generation_request where
  "demo_gen = \<lparr>sg_id = ''g'', sg_session = ''s1'', sg_conversation = Some ''c1'', sg_tenant = None, sg_project = None, sg_status = GEN_PENDING,
     sg_error = None, sg_created_at = 0, sg_completed_at = None\<rparr>"

definition demo_gen_conv :: conversation where
  "demo_gen_conv = demo_conv\<lparr>conv_run := (new_run ''r1'')\<lparr>state := COMPLETED, result_summary := JStr demo_skill\<rparr>\<rparr>"

definition demo_gen_db :: db where
  "demo_gen_db = empty_db\<lparr>t_generations := [demo_gen], t_conversations := [conversation_to_row demo_gen_conv]\<rparr>"

section \<open>Properties\<close>

text \<open>Unwrapping the result of a generation ends. A text of \<open>n\<close> characters needs at most \<open>2 n + 1\<close> calls, an
  envelope one more than its texts; more fuel changes nothing. The hypothesis says that a string inside a JSON
  text is shorter than the text.\<close>

theorem extraction_terminates:
  assumes "loads_shrinks loads"
  shows "(\<exists>r. \<forall>k. extract_skill_content (2 * length s + 1 + k) loads (JStr s) = Some r)
    \<and> (text_bound n (JObj ps) \<longrightarrow> (\<exists>r. \<forall>k. extract_skill_content (2 * n + 1 + k) loads (JObj ps) = Some r))"
  using extraction_of_text [OF assms] extraction_of_object [OF assms] by blast

theorem extraction_terminates_witness:
  "\<exists>r. extract_skill_content 23 (\<lambda>_. None) (JStr ''---'') = Some r"
proof -
  have "loads_shrinks (\<lambda>_. None)" by (simp add: loads_shrinks_def)
  from extraction_terminates [OF this, of "''---''" 0 "[]"] obtain r where "\<forall>k. extract_skill_content (7 + k) (\<lambda>_. None) (JStr ''---'') = Some r"
    by auto
  from this [rule_format, of 16] show ?thesis by simp
qed

text \<open>A finished generation becomes one draft. For a pending request whose run completed with a valid skill and that
  has no draft yet, finalising adds exactly one draft, with the extracted content, the request's tenant and a valid
  skill identifier, stores the request as completed, and finalising the stored request again changes nothing.\<close>

theorem finalize_drafts_once:
  assumes "get_skill_generation_request (sg_id r) d = Some r" "sg_status r = GEN_PENDING" "sg_conversation r = Some cid"
    "generation_conversation cached cid d = Some c" "terminal (state (conv_run c))" "generation_outcome fuel loads c = Inr (content, fm)"
    "draft_for_generation (sg_id r) d = None" "get_skill_draft fresh d = None"
  shows "\<exists>r' d'. finalize_generation fuel loads cached fresh now r d = Inr (r', d') \<and> t_drafts d' = t_drafts d @ [draft_of fresh now r cid content fm]
    \<and> valid_skill_id (sd_skill_id (draft_of fresh now r cid content fm))
    \<and> get_skill_generation_request (sg_id r) d' = Some r' \<and> sg_status r' = GEN_COMPLETED
    \<and> (\<forall>fuel' loads' cached' fresh' now'. finalize_generation fuel' loads' cached' fresh' now' r' d' = Inr (r', d'))"
proof -
  let ?x = "draft_of fresh now r cid content fm" and ?r = "r\<lparr>sg_status := GEN_COMPLETED, sg_error := None, sg_completed_at := Some now\<rparr>"
  have id: "sd_id ?x = fresh" by (simp add: draft_of_def)
  have pd: "persist_draft ?x d = Inr (d\<lparr>t_drafts := t_drafts d @ [?x]\<rparr>)"
  proof -
    have "fresh \<notin> sd_id ` set (t_drafts d)" using assms(8) by (simp add: get_skill_draft_def db_get_None)
    then show ?thesis using assms(8) id by (simp add: persist_draft_def create_skill_draft_def db_add_def)
  qed
  have pg: "persist_generation ?r (d\<lparr>t_drafts := t_drafts d @ [?x]\<rparr>) = Inr (update_skill_generation_request ?r (d\<lparr>t_drafts := t_drafts d @ [?x]\<rparr>))"
    using assms(1) by (simp add: persist_generation_def get_skill_generation_request_def)
  have f: "finalize_generation fuel loads cached fresh now r d = Inr (?r, update_skill_generation_request ?r (d\<lparr>t_drafts := t_drafts d @ [?x]\<rparr>))"
    unfolding finalize_generation_def using assms(2-7) pd pg by (simp add: Let_def)
  have "get_skill_generation_request (sg_id r) (update_skill_generation_request ?r (d\<lparr>t_drafts := t_drafts d @ [?x]\<rparr>)) = Some ?r"
    using assms(1) by (simp add: get_skill_generation_request_def update_skill_generation_request_def db_get_set)
  then show ?thesis using f
    by (auto simp: finalize_generation_def [of _ _ _ _ _ ?r] update_skill_generation_request_def slugify_valid draft_of_def)
qed

theorem finalize_drafts_once_witness:
  "\<exists>r' d'. finalize_generation 9 (\<lambda>_. None) (\<lambda>_. None) ''x'' 7 demo_gen demo_gen_db = Inr (r', d') \<and> map sd_skill_id (t_drafts d') = [''a'']"
proof -
  have g: "get_skill_generation_request (sg_id demo_gen) demo_gen_db = Some demo_gen"
    by (simp add: get_skill_generation_request_def demo_gen_db_def db_get_Cons)
  have c: "generation_conversation (\<lambda>_. None) ''c1'' demo_gen_db = Some demo_gen_conv"
    by (simp add: generation_conversation_def demo_gen_db_def repo_get_conversation_def db_get_Cons)
      (simp add: conversation_to_row_def demo_gen_conv_def demo_conv_def)
  have o: "generation_outcome 9 (\<lambda>_. None) demo_gen_conv = Inr (demo_skill, [(''name'', ''a''), (''description'', ''b'')])" by code_simp
  have sl: "slugify_skill_id ''a'' = ''a''" by code_simp
  have t: "terminal (state (conv_run demo_gen_conv))" by (simp add: demo_gen_conv_def)
  have n: "draft_for_generation (sg_id demo_gen) demo_gen_db = None" "get_skill_draft ''x'' demo_gen_db = None"
    by (simp_all add: draft_for_generation_def list_skill_drafts_def demo_gen_db_def get_skill_draft_def)
  have p: "sg_status demo_gen = GEN_PENDING" "sg_conversation demo_gen = Some ''c1''" by (simp_all add: demo_gen_def)
  from finalize_drafts_once [OF g p c t o n, of 7] show ?thesis
    by (auto simp: demo_gen_db_def draft_of_def or_else_def sl)
qed

text \<open>An approved draft is the skill that is served. When a review approves a draft, the draft is stored as published, the
  skill source resolves the draft's identifier in the draft's namespace to the draft's content, and every later
  review of the draft is refused.\<close>

theorem approved_draft_served:
  assumes "review_skill_draft sha now did tenant ''approve'' note s = (Inr y, s')"
  shows "sd_status y = PUBLISHED \<and> get_skill_draft did (ap_db s') = Some y
    \<and> (\<exists>dir. resolve_one (sd_skill_id y) (sd_tenant y) (ap_skills s') = Inr (sd_content y, dir))
    \<and> (\<forall>now' decision note'. review_skill_draft sha now' did tenant decision note' s' = (Inl (ServiceError ''DRAFT_NOT_REVIEWABLE'' 409), s'))"
proof -
  from assms obtain x where x: "get_skill_draft did (ap_db s) = Some x" "check_generation_tenant (sd_tenant x) tenant = None"
    by (auto simp: review_skill_draft_def split: option.splits)
  have did: "sd_id x = did" using x(1) by (auto simp: get_skill_draft_def dest: db_get_key)
  from assms obtain m t where t: "install_skill sha (sd_skill_id x) [(''SKILL.md'', sd_content x)] (sd_tenant x) (ap_skills s) = Inr (m, t)"
    and y: "y = x\<lparr>sd_status := PUBLISHED, sd_reviewed_at := Some now, sd_review_note := note\<rparr>"
    and s': "s' = with_db (update_skill_draft y (ap_db s)) (s\<lparr>ap_skills := t\<rparr>)"
    by (auto simp: review_skill_draft_def x did Let_def persist_draft_def split: if_splits sum.splits skill_error.splits)
  from install_result [OF t] obtain ns st md where r: "skill_namespace (sd_tenant x) = Inr ns" "valid_skill_id (sd_skill_id x)"
    "map_of st = package_map [(''SKILL.md'', sd_content x)]" "map_of st [''SKILL.md''] = Some md"
    "t = rmtree (ns @ [sd_skill_id x]) (ap_skills s) @ map (\<lambda>(p, b). ((ns @ [sd_skill_id x]) @ p, b)) st" by auto
  have "snd (path_of ''SKILL.md'') = [''SKILL.md'']" by code_simp
  then have md: "md = sd_content x" using r(3,4) by (simp add: package_map_def)
  have "skill_file ns (sd_skill_id x) t = Some md"
    unfolding skill_file_def r(5) map_of_append map_add_def map_of_moved map_of_rmtree using r(4) by simp
  then have "resolve_one (sd_skill_id x) (sd_tenant x) t = Inr (md, ns @ [sd_skill_id x])"
    using r(1,2) by (cases "ns = []") (simp_all add: resolve_one_eq search_namespaces_def)
  moreover have get: "get_skill_draft did (ap_db s') = Some y"
    using x(1) did by (simp add: s' get_skill_draft_def update_skill_draft_def db_get_set y)
  ultimately show ?thesis using x(2) md y s' by (simp add: review_skill_draft_def)
qed

theorem approved_draft_served_witness:
  "\<exists>y s'. review_skill_draft (\<lambda>_. ''d'') 9 ''x'' None ''approve'' None (with_db (empty_db\<lparr>t_drafts :=
       [(draft_of ''x'' 7 demo_gen ''c1'' closed_skill [(''name'', ''a'')])]\<rparr>) demo_service) = (Inr y, s')
     \<and> (\<exists>dir. resolve_one ''a'' None (ap_skills s') = Inr (closed_skill, dir))"
proof -
  let ?x = "draft_of ''x'' 7 demo_gen ''c1'' closed_skill [(''name'', ''a'')]" and ?s = "with_db (empty_db\<lparr>t_drafts := [draft_of ''x'' 7 demo_gen ''c1'' closed_skill [(''name'', ''a'')]]\<rparr>) demo_service"
  have sl: "slugify_skill_id ''a'' = ''a''" by code_simp
  have v: "valid_skill_id ''a''" by code_simp
  have q: "parse_skill_frontmatter (universal_newlines closed_skill) = [(''name'', ''a''), (''description'', ''b'')]" by code_simp
  have path: "path_of ''SKILL.md'' = ([], [''SKILL.md''])" by code_simp
  have l: "length closed_skill = 31" "closed_skill \<noteq> []" by code_simp+
  have x: "sd_skill_id ?x = ''a''" "sd_content ?x = closed_skill" "sd_tenant ?x = None" "sd_status ?x = DRAFT" "sd_id ?x = ''x''"
    by (simp_all add: draft_of_def sl or_else_def demo_gen_def)
  have "\<exists>m t. install_skill (\<lambda>_. ''d'') ''a'' [(''SKILL.md'', closed_skill)] None (ap_skills demo_service) = Inr (m, t)"
    using q l by (auto simp: install_skill_eq skill_namespace_eq valid_tenant_def stage_file_def path v Let_def or_else_def MAX_ENTRY_SIZE_def MAX_UNPACKED_SIZE_def)
  then obtain m t where i: "install_skill (\<lambda>_. ''d'') ''a'' [(''SKILL.md'', closed_skill)] None (ap_skills demo_service) = Inr (m, t)" by blast
  have "\<exists>y s'. review_skill_draft (\<lambda>_. ''d'') 9 ''x'' None ''approve'' None ?s = (Inr y, s') \<and> sd_content y = closed_skill \<and> sd_skill_id y = ''a'' \<and> sd_tenant y = None"
    using x i by (simp add: review_skill_draft_def get_skill_draft_def db_get_Cons check_generation_tenant_def Let_def persist_draft_def)
  then obtain y s' where r: "review_skill_draft (\<lambda>_. ''d'') 9 ''x'' None ''approve'' None ?s = (Inr y, s')"
    "sd_content y = closed_skill" "sd_skill_id y = ''a''" "sd_tenant y = None" by (elim exE conjE)
  from approved_draft_served [OF r(1)] r show ?thesis by (intro exI [of _ y] exI [of _ s']) simp
qed

text \<open>The two parsers of the front matter differ: a draft whose front matter is never closed is accepted and can
  never be installed.\<close>

lemma unclosed_draft_unpublishable:
  assumes "get_skill_draft did (ap_db s) = Some x" "sd_content x = demo_skill" "sd_status x = DRAFT" "valid_skill_id (sd_skill_id x)" "sd_tenant x = None"
  shows "map_of (parse_draft_frontmatter demo_skill) ''name'' = Some ''a'' \<and> map_of (parse_draft_frontmatter demo_skill) ''description'' = Some ''b''
    \<and> review_skill_draft sha now did None ''approve'' note s = (Inl (Raised ValueError), s)"
proof -
  have p: "parse_draft_frontmatter demo_skill = [(''name'', ''a''), (''description'', ''b'')]" by code_simp
  have q: "parse_skill_frontmatter (universal_newlines demo_skill) = []" by code_simp
  have path: "path_of ''SKILL.md'' = ([], [''SKILL.md''])" by code_simp
  have "length demo_skill = 26" by code_simp
  then have "install_skill sha (sd_skill_id x) [(''SKILL.md'', sd_content x)] None (ap_skills s) = Inl SkillValueError"
    using assms(2,4) q by (auto simp: install_skill_eq skill_namespace_eq valid_tenant_def stage_file_def path Let_def or_else_def MAX_ENTRY_SIZE_def MAX_UNPACKED_SIZE_def)
  then show ?thesis using assms p by (simp add: review_skill_draft_def check_generation_tenant_def Let_def)
qed

end
