(* ===== verification/Eval_Verdict.thy ===== *)
theory Eval_Verdict
  imports Complex_Main Domain
begin

text \<open>
  The judging half of the evaluation service: the built-in verifiers of \<open>evaluation/verifiers.py\<close>, the synthesis of a
  case verdict, and the summary and comparison of runs in \<open>evaluation/service.py\<close>. A score is an exact
  rational; the code's floats are 0 and 1 and averages of them. \<open>str\<close> renders a JSON value that is not a string,
  \<open>rnd\<close> is \<open>round(x, n)\<close>, \<open>shell\<close> is what running a command in a directory with a timeout parameter does. A
  verifier that raises yields \<^const>\<open>None\<close>. The reason and evidence texts of a verdict are for the reader of a
  report and are left out.
\<close>

section \<open>Data\<close>

datatype verdict_status = PASS | FAIL | ERROR | UNCERTAIN

record verifier_config =
  vc_type :: string
  vc_params :: obj

record verdict =
  vd_verifier :: string
  vd_status :: verdict_status
  vd_score :: rat

record case_outcome =
  oc_conversation :: uuid
  oc_terminal_state :: string
  oc_events :: "event_envelope list"
  oc_final_result :: "obj option"
  oc_error :: "obj option"
  oc_duration :: rat
  oc_workspace :: uuid
  oc_workspace_path :: string

record case_result =
  cs_case :: uuid
  cs_task :: string
  cs_verdict :: verdict_status
  cs_score :: rat
  cs_verifiers :: "verdict list"
  cs_outcome :: "case_outcome option"
  cs_usage :: "obj option"

text \<open>The bounds \<open>ge=0.0, le=1.0\<close> that the models put on their scores.\<close>

definition valid_score :: "rat \<Rightarrow> bool" where
  "valid_score x = (0 \<le> x \<and> x \<le> 1)"

text \<open>\<open>CaseRunOutcome.usage\<close>: the newest \<open>run.completed\<close> event with a usage; a result that is neither empty nor
  an object has no method \<open>get\<close>, which raises.\<close>

fun usage_of :: "event_envelope list \<Rightarrow> json option option" where
  "usage_of [] = Some None"
| "usage_of (e # es) =
     (if ev_type e = ''run.completed''
      then (case obj_get (ev_payload e) ''result'' JNull of
          JObj r \<Rightarrow> (case obj_get r ''usage'' JNull of JNull \<Rightarrow> usage_of es | u \<Rightarrow> Some (Some u))
        | v \<Rightarrow> if truthy v then None else usage_of es)
      else usage_of es)"

definition outcome_usage :: "case_outcome \<Rightarrow> json option option" where
  "outcome_usage oc = usage_of (rev (oc_events oc))"

section \<open>Verifiers\<close>

definition mk_verdict :: "string \<Rightarrow> verdict_status \<Rightarrow> rat \<Rightarrow> verdict" where
  "mk_verdict vid st sc = \<lparr>vd_verifier = vid, vd_status = st, vd_score = sc\<rparr>"

definition v_terminal_state :: "(json \<Rightarrow> string) \<Rightarrow> case_outcome \<Rightarrow> obj \<Rightarrow> verdict option" where
  "v_terminal_state str oc params = Some
     (if oc_terminal_state oc = py_str str (obj_get params ''expect'' (JStr ''COMPLETED''))
      then mk_verdict ''terminal_state'' PASS 1
      else if oc_terminal_state oc \<in> {''FAILED'', ''CANCELLED'', ''LOST''} then mk_verdict ''terminal_state'' FAIL 0
      else mk_verdict ''terminal_state'' ERROR 0)"

definition v_convergence :: "case_outcome \<Rightarrow> obj \<Rightarrow> verdict option" where
  "v_convergence oc params = (case py_int (obj_get params ''max_error_events'' (JInt 0)) of
       None \<Rightarrow> None
     | Some n \<Rightarrow> Some (if int (length (filter (\<lambda>e. ev_type e = ''run.failed'') (oc_events oc))) > n
         then mk_verdict ''convergence'' FAIL 0 else mk_verdict ''convergence'' PASS 1))"

definition nonempty_text :: "json \<Rightarrow> string list" where
  "nonempty_text v = (case v of JStr s \<Rightarrow> if s \<noteq> [] then [s] else [] | _ \<Rightarrow> [])"

definition result_text :: "case_outcome \<Rightarrow> string list" where
  "result_text oc = nonempty_text (obj_get (or_else (oc_final_result oc) []) ''content'' JNull)
     @ concat (map (\<lambda>e. if ev_type e = ''message'' then nonempty_text (obj_get (ev_payload e) ''content'' JNull) else [])
         (oc_events oc))"

definition v_output_rules :: "(json \<Rightarrow> string) \<Rightarrow> case_outcome \<Rightarrow> obj \<Rightarrow> verdict option" where
  "v_output_rules str oc params =
     (let texts = py_join [char_of (10 :: nat)] (result_text oc) in
      case py_iter (obj_get params ''contains'' (JArr [])) of
        None \<Rightarrow> None
      | Some needles \<Rightarrow>
          if list_ex (\<lambda>n. \<not> py_contains texts (py_str str n)) needles then Some (mk_verdict ''output_rules'' FAIL 0)
          else (case py_iter (obj_get params ''not_contains'' (JArr [])) of
              None \<Rightarrow> None
            | Some bad \<Rightarrow>
                if list_ex (\<lambda>n. py_contains texts (py_str str n)) bad then Some (mk_verdict ''output_rules'' FAIL 0)
                else Some (mk_verdict ''output_rules'' PASS 1)))"

datatype shell_result = ShellRaised | ShellTimeout | ShellExit int

definition v_test_command :: "(json \<Rightarrow> string) \<Rightarrow> (string \<Rightarrow> string \<Rightarrow> json \<Rightarrow> shell_result) \<Rightarrow> case_outcome \<Rightarrow> obj \<Rightarrow> verdict option" where
  "v_test_command str shell oc params =
     (let v = obj_get params ''command'' JNull; command = py_strip (if truthy v then py_str str v else []) in
      if command = [] then Some (mk_verdict ''test_command'' ERROR 0)
      else (case shell command (oc_workspace_path oc) (obj_get params ''timeout_seconds'' (JInt 120)) of
          ShellRaised \<Rightarrow> None
        | ShellTimeout \<Rightarrow> Some (mk_verdict ''test_command'' ERROR 0)
        | ShellExit n \<Rightarrow> Some (if n = 0 then mk_verdict ''test_command'' PASS 1 else mk_verdict ''test_command'' FAIL 0)))"

definition DEFAULT_VERIFIERS :: "string list" where
  "DEFAULT_VERIFIERS = [''terminal_state'', ''convergence'']"

text \<open>An unknown verifier and one that raises both become an \<open>ERROR\<close> verdict under the configured name.\<close>

definition run_verifier :: "(json \<Rightarrow> string) \<Rightarrow> (string \<Rightarrow> string \<Rightarrow> json \<Rightarrow> shell_result) \<Rightarrow> case_outcome \<Rightarrow> verifier_config \<Rightarrow> verdict" where
  "run_verifier str shell oc cfg =
     (let raised = mk_verdict (vc_type cfg) ERROR 0 in
      if vc_type cfg = ''terminal_state'' then or_else (v_terminal_state str oc (vc_params cfg)) raised
      else if vc_type cfg = ''convergence'' then or_else (v_convergence oc (vc_params cfg)) raised
      else if vc_type cfg = ''output_rules'' then or_else (v_output_rules str oc (vc_params cfg)) raised
      else if vc_type cfg = ''test_command'' then or_else (v_test_command str shell oc (vc_params cfg)) raised
      else raised)"

definition verify_case :: "(json \<Rightarrow> string) \<Rightarrow> (string \<Rightarrow> string \<Rightarrow> json \<Rightarrow> shell_result) \<Rightarrow> case_outcome \<Rightarrow> verifier_config list \<Rightarrow> verdict list" where
  "verify_case str shell oc cfgs = map (run_verifier str shell oc)
     (if cfgs \<noteq> [] then cfgs else map (\<lambda>n. \<lparr>vc_type = n, vc_params = []\<rparr>) DEFAULT_VERIFIERS)"

definition average_score :: "verdict list \<Rightarrow> rat" where
  "average_score vs = sum_list (map vd_score vs) / of_nat (length vs)"

definition synthesize :: "verdict list \<Rightarrow> verdict_status \<times> rat" where
  "synthesize vs =
     (if vs = [] then (ERROR, 0)
      else if list_ex (\<lambda>v. vd_status v = ERROR) vs then (ERROR, 0)
      else if list_ex (\<lambda>v. vd_status v = FAIL) vs then (FAIL, 0)
      else if list_ex (\<lambda>v. vd_status v = UNCERTAIN) vs then (UNCERTAIN, average_score vs)
      else (PASS, average_score vs))"

section \<open>Summary\<close>

definition count_verdicts :: "verdict_status \<Rightarrow> case_result list \<Rightarrow> nat" where
  "count_verdicts v rs = length (filter (\<lambda>r. cs_verdict r = v) rs)"

text \<open>\<open>total_usage\<close>; \<open>int(value or 0)\<close> may raise.\<close>

fun add_usage :: "obj \<Rightarrow> (string \<times> int) list \<Rightarrow> (string \<times> int) list option" where
  "add_usage [] acc = Some acc"
| "add_usage ((k, v) # ps) acc = (case (if truthy v then py_int v else Some 0) of
       None \<Rightarrow> None
     | Some n \<Rightarrow> add_usage ps (AList.update k (or_else (map_of acc k) 0 + n) acc))"

fun total_usage :: "case_result list \<Rightarrow> (string \<times> int) list \<Rightarrow> (string \<times> int) list option" where
  "total_usage [] acc = Some acc"
| "total_usage (r # rs) acc = (case add_usage (or_else (cs_usage r) []) acc of None \<Rightarrow> None | Some acc' \<Rightarrow> total_usage rs acc')"

record eval_summary =
  sm_total :: nat
  sm_passed :: nat
  sm_failed :: nat
  sm_error :: nat
  sm_uncertain :: nat
  sm_pass_rate :: rat
  sm_total_duration :: rat
  sm_usage :: "(string \<times> int) list"

definition summarize :: "(nat \<Rightarrow> rat \<Rightarrow> rat) \<Rightarrow> case_result list \<Rightarrow> eval_summary option" where
  "summarize rnd rs =
     (let considered = length rs - count_verdicts ERROR rs in
      case total_usage rs [] of
        None \<Rightarrow> None
      | Some usage \<Rightarrow> Some \<lparr>sm_total = length rs, sm_passed = count_verdicts PASS rs, sm_failed = count_verdicts FAIL rs,
          sm_error = count_verdicts ERROR rs, sm_uncertain = count_verdicts UNCERTAIN rs,
          sm_pass_rate = (if considered \<noteq> 0 then rnd 4 (of_nat (count_verdicts PASS rs) / of_nat considered) else 0),
          sm_total_duration = rnd 3 (sum_list (map (\<lambda>r. case cs_outcome r of None \<Rightarrow> 0 | Some oc \<Rightarrow> oc_duration oc) rs)),
          sm_usage = usage\<rparr>)"

section \<open>Comparison\<close>

datatype change = Regression | Improvement | Unchanged | New

record delta =
  dt_case :: uuid
  dt_baseline_case :: "uuid option"
  dt_task :: string
  dt_baseline :: "verdict_status option"
  dt_candidate :: verdict_status
  dt_change :: change

text \<open>A dictionary built from a list keeps the last of two equal keys.\<close>

definition baseline_of :: "case_result list \<Rightarrow> case_result \<Rightarrow> case_result option" where
  "baseline_of base item = (case map_of (rev (map (\<lambda>r. (cs_case r, r)) base)) (cs_case item) of
       Some r \<Rightarrow> Some r
     | None \<Rightarrow> map_of (rev (map (\<lambda>r. (cs_task r, r)) base)) (cs_task item))"

definition change_of :: "case_result option \<Rightarrow> case_result \<Rightarrow> change" where
  "change_of old item = (case old of None \<Rightarrow> New
     | Some r \<Rightarrow> if cs_verdict r = PASS \<and> cs_verdict item \<noteq> PASS then Regression
                 else if cs_verdict r \<noteq> PASS \<and> cs_verdict item = PASS then Improvement
                 else Unchanged)"

definition delta_of :: "case_result list \<Rightarrow> case_result \<Rightarrow> delta" where
  "delta_of base item = (let old = baseline_of base item in
     \<lparr>dt_case = cs_case item, dt_baseline_case = map_option cs_case old, dt_task = cs_task item,
      dt_baseline = map_option cs_verdict old, dt_candidate = cs_verdict item, dt_change = change_of old item\<rparr>)"

record comparison =
  cm_regressions :: nat
  cm_improvements :: nat
  cm_unchanged :: nat
  cm_deltas :: "delta list"

text \<open>The loop counts as it appends.\<close>

fun compare_loop :: "case_result list \<Rightarrow> case_result list \<Rightarrow> comparison \<Rightarrow> comparison" where
  "compare_loop base [] acc = acc"
| "compare_loop base (x # xs) acc = (let dl = delta_of base x; acc1 = acc\<lparr>cm_deltas := cm_deltas acc @ [dl]\<rparr> in
     compare_loop base xs (case dt_change dl of
         Regression \<Rightarrow> acc1\<lparr>cm_regressions := cm_regressions acc + 1\<rparr>
       | Improvement \<Rightarrow> acc1\<lparr>cm_improvements := cm_improvements acc + 1\<rparr>
       | Unchanged \<Rightarrow> acc1\<lparr>cm_unchanged := cm_unchanged acc + 1\<rparr>
       | New \<Rightarrow> acc1))"

definition compare_runs :: "case_result list \<Rightarrow> case_result list \<Rightarrow> comparison" where
  "compare_runs base cand = compare_loop base cand \<lparr>cm_regressions = 0, cm_improvements = 0, cm_unchanged = 0, cm_deltas = []\<rparr>"

section \<open>Waiting for a run with automatic answers\<close>

text \<open>
  \<open>_wait_with_auto_input\<close>. What one turn of the loop sees is an observation: the projection of the conversation
  (none when it is gone, which raises), the status the workflow query returns (none when the query raises),
  whether the signal is delivered, and how long the calls of the turn take. The clock advances by that time, and by
  one second more when the turn sleeps. The turns are numbered and the loop has fuel; \<open>timeout\<close> is
  \<open>case_timeout_seconds\<close>.
\<close>

record observation =
  ob_conversation :: "(execution_state \<times> obj option) option"
  ob_status :: "string option"
  ob_delivered :: bool
  ob_delay :: rat

datatype wait_end = WaitTimeout | WaitForRun "rat option" | WaitRaised

datatype turn = TurnEnds wait_end | TurnAnswers json | TurnSleeps

definition hashable :: "json \<Rightarrow> bool" where
  "hashable v = (case v of JArr _ \<Rightarrow> False | JObj _ \<Rightarrow> False | _ \<Rightarrow> True)"

definition wait_turn :: "rat option \<Rightarrow> nat \<Rightarrow> observation \<Rightarrow> rat \<Rightarrow> json list \<Rightarrow> turn" where
  "wait_turn timeout limit ob elapsed answered =
     (let rest = map_option (\<lambda>t. t - elapsed) timeout in
      if (case timeout of None \<Rightarrow> False | Some t \<Rightarrow> t \<le> elapsed) then TurnEnds WaitTimeout
      else case ob_conversation ob of
        None \<Rightarrow> TurnEnds WaitRaised
      | Some (st, pending) \<Rightarrow>
          if terminal st then TurnEnds (WaitForRun rest)
          else (case ob_status ob of
              None \<Rightarrow> TurnEnds (WaitForRun rest)
            | Some status \<Rightarrow>
                if status = ''waiting'' \<and> length answered < limit
                then (let i = obj_get (or_else pending []) ''interaction_id'' JNull in
                      if \<not> truthy i then TurnSleeps
                      else if \<not> hashable i then TurnEnds WaitRaised
                      else if i \<in> set answered then TurnSleeps
                      else if ob_delivered ob then TurnAnswers i else TurnEnds WaitRaised)
                else TurnSleeps))"

fun auto_wait :: "nat \<Rightarrow> rat option \<Rightarrow> nat \<Rightarrow> (nat \<Rightarrow> observation) \<Rightarrow> nat \<Rightarrow> rat \<Rightarrow> json list \<Rightarrow> (wait_end \<times> json list) option" where
  "auto_wait 0 timeout limit obs k elapsed answered = None"
| "auto_wait (Suc fuel) timeout limit obs k elapsed answered =
     (case wait_turn timeout limit (obs k) elapsed answered of
        TurnEnds e \<Rightarrow> Some (e, answered)
      | TurnAnswers i \<Rightarrow> auto_wait fuel timeout limit obs (k + 1) (elapsed + ob_delay (obs k)) (answered @ [i])
      | TurnSleeps \<Rightarrow> auto_wait fuel timeout limit obs (k + 1) (elapsed + ob_delay (obs k) + 1) answered)"

section \<open>Lemmas\<close>

lemma valid_01 [simp]: "valid_score 0" "valid_score 1"
  by (simp_all add: valid_score_def)

lemma mk_verdict_sel [simp]: "vd_status (mk_verdict i st sc) = st" "vd_score (mk_verdict i st sc) = sc"
  by (simp_all add: mk_verdict_def)

definition binary :: "verdict \<Rightarrow> bool" where
  "binary v = (vd_status v \<noteq> UNCERTAIN \<and> vd_score v = (if vd_status v = PASS then 1 else 0))"

lemma binary_mk [simp]: "binary (mk_verdict i PASS 1)" "binary (mk_verdict i FAIL 0)" "binary (mk_verdict i ERROR 0)"
  by (simp_all add: binary_def)

lemma verifiers_binary:
  "v_terminal_state str oc ps = Some v \<Longrightarrow> binary v"
  "v_convergence oc ps = Some v \<Longrightarrow> binary v"
  "v_output_rules str oc ps = Some v \<Longrightarrow> binary v"
  "v_test_command str shell oc ps = Some v \<Longrightarrow> binary v"
  by (auto simp: v_terminal_state_def v_convergence_def v_output_rules_def v_test_command_def Let_def
      split: option.splits if_splits shell_result.splits)

lemma binary_or_else: "(\<And>v. x = Some v \<Longrightarrow> binary v) \<Longrightarrow> binary y \<Longrightarrow> binary (or_else x y)"
  by (cases x) (simp_all add: or_else_def)

lemma run_verifier_binary: "binary (run_verifier str shell oc cfg)"
  unfolding run_verifier_def Let_def by (auto intro!: binary_or_else dest: verifiers_binary)

lemma verify_case_binary: "v \<in> set (verify_case str shell oc cfgs) \<Longrightarrow> binary v"
  by (auto simp: verify_case_def run_verifier_binary)

lemma verify_case_nonempty: "verify_case str shell oc cfgs \<noteq> []"
  by (simp add: verify_case_def DEFAULT_VERIFIERS_def)

lemma sum_list_bounds:
  fixes f :: "'a \<Rightarrow> rat"
  assumes "\<forall>x\<in>set xs. 0 \<le> f x \<and> f x \<le> 1"
  shows "0 \<le> sum_list (map f xs) \<and> sum_list (map f xs) \<le> of_nat (length xs)"
  using assms by (induction xs) auto

lemma average_valid: "vs \<noteq> [] \<Longrightarrow> \<forall>v\<in>set vs. valid_score (vd_score v) \<Longrightarrow> valid_score (average_score vs)"
  using sum_list_bounds [of vs vd_score] by (simp add: average_score_def valid_score_def)

lemma synthesize_valid: "\<forall>v\<in>set vs. valid_score (vd_score v) \<Longrightarrow> valid_score (snd (synthesize vs))"
  by (simp add: synthesize_def average_valid)

lemma average_ones: "vs \<noteq> [] \<Longrightarrow> \<forall>v\<in>set vs. vd_score v = 1 \<Longrightarrow> average_score vs = 1"
proof -
  assume a: "vs \<noteq> []" "\<forall>v\<in>set vs. vd_score v = 1"
  from a(2) have "sum_list (map vd_score vs) = of_nat (length vs)" by (induction vs) auto
  then show ?thesis using a(1) by (simp add: average_score_def)
qed

lemma count_split: "length rs = count_verdicts PASS rs + count_verdicts FAIL rs + count_verdicts ERROR rs + count_verdicts UNCERTAIN rs"
proof (induction rs)
  case (Cons r rs)
  then show ?case by (cases "cs_verdict r") (simp_all add: count_verdicts_def)
qed (simp add: count_verdicts_def)

definition usage_ok :: "case_result \<Rightarrow> bool" where
  "usage_ok r = list_all (\<lambda>(k, v). truthy v \<longrightarrow> py_int v \<noteq> None) (or_else (cs_usage r) [])"

lemma add_usage_defined: "add_usage ps acc \<noteq> None \<longleftrightarrow> list_all (\<lambda>(k, v). truthy v \<longrightarrow> py_int v \<noteq> None) ps"
  by (induction ps acc rule: add_usage.induct) (auto split: option.splits)

lemma total_usage_defined: "total_usage rs acc \<noteq> None \<longleftrightarrow> list_all usage_ok rs"
proof (induction rs arbitrary: acc)
  case (Cons r rs)
  then show ?case
    using add_usage_defined [of "or_else (cs_usage r) []" acc] by (auto simp: usage_ok_def split: option.splits)
qed simp

lemma compare_loop_counts:
  "compare_loop base xs acc =
     \<lparr>cm_regressions = cm_regressions acc + length (filter (\<lambda>x. change_of (baseline_of base x) x = Regression) xs),
      cm_improvements = cm_improvements acc + length (filter (\<lambda>x. change_of (baseline_of base x) x = Improvement) xs),
      cm_unchanged = cm_unchanged acc + length (filter (\<lambda>x. change_of (baseline_of base x) x = Unchanged) xs),
      cm_deltas = cm_deltas acc @ map (delta_of base) xs\<rparr>"
proof (induction xs arbitrary: acc)
  case (Cons x xs)
  then show ?case
    by (cases "change_of (baseline_of base x) x") (simp_all add: Let_def delta_of_def)
qed simp

lemma baseline_of_self:
  assumes "distinct (map cs_case rs)" "r \<in> set rs"
  shows "baseline_of rs r = Some r"
proof -
  have "distinct (map fst (rev (map (\<lambda>r. (cs_case r, r)) rs)))" using assms(1) by (simp add: comp_def rev_map [symmetric])
  then have "map_of (rev (map (\<lambda>r. (cs_case r, r)) rs)) (cs_case r) = Some r" using assms(2) by (force intro: map_of_is_SomeI)
  then show ?thesis by (simp add: baseline_of_def)
qed

lemma wait_turn_answers:
  "wait_turn timeout limit ob el ans = TurnAnswers i \<Longrightarrow> i \<notin> set ans \<and> length ans < limit"
  by (auto simp: wait_turn_def Let_def split: if_splits option.splits)

lemma wait_turn_early: "wait_turn (Some t) limit ob el ans \<noteq> TurnEnds WaitTimeout \<Longrightarrow> el < t"
  by (rule ccontr) (simp add: wait_turn_def)

lemma auto_wait_answers:
  assumes "auto_wait fuel timeout limit obs k el ans = Some (e, ans')" "distinct ans" "length ans \<le> limit"
  shows "distinct ans' \<and> length ans' \<le> limit"
  using assms
proof (induction fuel arbitrary: k el ans)
  case (Suc fuel)
  then show ?case by (cases "wait_turn timeout limit (obs k) el ans") (auto dest: wait_turn_answers)
qed simp

lemma ceiling_tick:
  fixes x :: rat
  assumes "0 < x" "0 \<le> d"
  shows "nat \<lceil>x - (d + 1)\<rceil> < nat \<lceil>x\<rceil>"
proof -
  have "\<lceil>x - (d + 1)\<rceil> \<le> \<lceil>x - 1\<rceil>" using assms(2) by (intro ceiling_mono) simp
  also have "\<dots> = \<lceil>x\<rceil> - 1" by simp
  finally show ?thesis using assms(1) by simp
qed

lemma auto_wait_enough:
  assumes "\<forall>k. 0 \<le> ob_delay (obs k)" "(limit - length ans) + nat \<lceil>t - el\<rceil> < fuel"
  shows "auto_wait fuel (Some t) limit obs k el ans \<noteq> None"
  using assms(2)
proof (induction fuel arbitrary: k el ans)
  case (Suc fuel)
  have d: "0 \<le> ob_delay (obs k)" using assms(1) by simp
  show ?case
  proof (cases "wait_turn (Some t) limit (obs k) el ans")
    case (TurnAnswers i)
    have "length ans < limit" using wait_turn_answers [OF TurnAnswers] by simp
    moreover have "nat \<lceil>t - (el + ob_delay (obs k))\<rceil> \<le> nat \<lceil>t - el\<rceil>" using d by (intro nat_mono ceiling_mono) simp
    ultimately show ?thesis using Suc by (simp add: TurnAnswers)
  next
    case TurnSleeps
    then have "el < t" using wait_turn_early [of t limit "obs k" el ans] by simp
    then have "nat \<lceil>t - (el + ob_delay (obs k) + 1)\<rceil> < nat \<lceil>t - el\<rceil>"
      using ceiling_tick [of "t - el" "ob_delay (obs k)"] d by (simp add: algebra_simps)
    then have "(limit - length ans) + nat \<lceil>t - (el + ob_delay (obs k) + 1)\<rceil> < fuel" using Suc.prems by linarith
    from Suc.IH [OF this, of "k + 1"] show ?thesis by (simp add: TurnSleeps)
  qed simp
qed simp

section \<open>Properties\<close>



text \<open>A summary exists exactly when every reported usage value converts to an integer; its four counts
  add up to the number of results, and the cases that passed are among those not counted as errors.\<close>

theorem summary_partition:
  "(summarize rnd rs \<noteq> None \<longleftrightarrow> list_all usage_ok rs)
   \<and> (\<forall>sm. summarize rnd rs = Some sm \<longrightarrow>
        sm_total sm = length rs \<and> sm_passed sm + sm_failed sm + sm_error sm + sm_uncertain sm = sm_total sm
        \<and> sm_passed sm \<le> sm_total sm - sm_error sm)"
  using total_usage_defined [of rs "[]"] count_split [of rs]
  by (auto simp: summarize_def Let_def split: option.splits)

theorem summary_partition_witness:
  "summarize (\<lambda>_ x. x) [\<lparr>cs_case = ''a'', cs_task = [], cs_verdict = PASS, cs_score = 1, cs_verifiers = [],
     cs_outcome = None, cs_usage = Some [(''cached'', JObj [(''read'', JInt 1)])]\<rparr>] = None"
  using summary_partition [of "\<lambda>_ x. x" "[\<lparr>cs_case = ''a'', cs_task = [], cs_verdict = PASS, cs_score = 1, cs_verifiers = [],
     cs_outcome = None, cs_usage = Some [(''cached'', JObj [(''read'', JInt 1)])]\<rparr>]"]
  by (simp add: usage_ok_def or_else_def)

text \<open>The counting loop of \<open>compare\<close> is the comparison it means: there is one delta per candidate result, in order,
  and each counter is the number of deltas of its kind. A run compared with itself has no regression and no
  improvement when its cases are distinct.\<close>

theorem compare_runs_exact:
  "let m = compare_runs base cand in
     cm_deltas m = map (delta_of base) cand
   \<and> cm_regressions m = length (filter (\<lambda>x. dt_change x = Regression) (cm_deltas m))
   \<and> cm_improvements m = length (filter (\<lambda>x. dt_change x = Improvement) (cm_deltas m))
   \<and> cm_unchanged m = length (filter (\<lambda>x. dt_change x = Unchanged) (cm_deltas m))
   \<and> (base = cand \<and> distinct (map cs_case cand) \<longrightarrow> cm_regressions m = 0 \<and> cm_improvements m = 0 \<and> cm_unchanged m = length cand)"
proof -
  have f: "filter (\<lambda>x. dt_change x = ch) (map (delta_of base) cand) = map (delta_of base) (filter (\<lambda>x. change_of (baseline_of base x) x = ch) cand)" for ch
    by (simp add: filter_map comp_def delta_of_def Let_def)
  have self: "change_of (baseline_of cand x) x = Unchanged" if "distinct (map cs_case cand)" "x \<in> set cand" for x
    using baseline_of_self [OF that] by (simp add: change_of_def)
  show ?thesis
    by (auto simp: compare_runs_def compare_loop_counts f Let_def self filter_id_conv filter_empty_conv cong: filter_cong)
qed

theorem compare_runs_exact_witness:
  "cm_regressions (compare_runs
     [\<lparr>cs_case = ''a'', cs_task = ''t'', cs_verdict = PASS, cs_score = 1, cs_verifiers = [], cs_outcome = None, cs_usage = None\<rparr>]
     [\<lparr>cs_case = ''b'', cs_task = ''t'', cs_verdict = FAIL, cs_score = 0, cs_verifiers = [], cs_outcome = None, cs_usage = None\<rparr>]) = 1"
  (is "cm_regressions (compare_runs ?b ?c) = 1")
  using compare_runs_exact [of ?b ?c]
  by (simp add: Let_def delta_of_def baseline_of_def change_of_def)

text \<open>C39. Waiting with automatic answers ends. Under a timeout of \<open>t\<close> seconds and calls that take no negative time, the
  loop ends within \<open>limit + ceil t + 1\<close> turns; it has answered every interaction at most once and at most
  \<open>limit\<close> of them.\<close>

theorem auto_wait_terminates:
  assumes "\<forall>k. 0 \<le> ob_delay (obs k)"
  shows "\<exists>e ans. auto_wait (limit + nat \<lceil>t\<rceil> + 1) (Some t) limit obs 0 0 [] = Some (e, ans)
    \<and> distinct ans \<and> length ans \<le> limit"
proof -
  have "auto_wait (limit + nat \<lceil>t\<rceil> + 1) (Some t) limit obs 0 0 [] \<noteq> None"
    by (rule auto_wait_enough [OF assms]) simp
  then obtain e ans where "auto_wait (limit + nat \<lceil>t\<rceil> + 1) (Some t) limit obs 0 0 [] = Some (e, ans)" by auto
  with auto_wait_answers [OF this] show ?thesis by simp
qed

theorem auto_wait_terminates_witness:
  "\<exists>e ans. auto_wait 13 (Some 2) 10 (\<lambda>k. \<lparr>ob_conversation = Some (WAITING_INPUT, Some [(''interaction_id'', JStr ''i'')]),
     ob_status = Some ''waiting'', ob_delivered = True, ob_delay = 0\<rparr>) 0 0 [] = Some (e, ans) \<and> length ans \<le> 10"
  using auto_wait_terminates [of "\<lambda>k. \<lparr>ob_conversation = Some (WAITING_INPUT, Some [(''interaction_id'', JStr ''i'')]),
     ob_status = Some ''waiting'', ob_delivered = True, ob_delay = 0\<rparr>" 10 2]
  by (auto simp: numeral_eq_Suc)

end
