(* ===== verification/Eval_Store.thy ===== *)
theory Eval_Store
  imports Eval_Verdict Control_Plane "HOL-Library.Multiset"
begin

text \<open>
  The evaluation service over its persistence port \<open>EvalStore\<close>: the in-memory store of \<open>evaluation/store.py\<close> and the
  relational one of \<open>adapters/persistence/sqlalchemy/eval_store.py\<close> both meet the interface \<open>eval_store\<close>, and the
  operations of \<open>EvalService\<close> take a store's operations as arguments. Objects are values: the in-memory store
  hands out the object it keeps, and the service saves an object after it changed it. Idempotency goes through
  the repository, which is present in Temporal mode.
\<close>

section \<open>Data\<close>

record eval_case =
  ec_id :: uuid
  ec_dataset :: uuid
  ec_task :: string
  ec_tags :: "string list"
  ec_verifiers :: "verifier_config list"
  ec_created_at :: time

record eval_dataset =
  ds_id :: uuid
  ds_name :: string
  ds_description :: string
  ds_workspace :: uuid
  ds_baseline :: string
  ds_labels :: "(string \<times> string) list"
  ds_cases :: "eval_case list"
  ds_created_at :: time

datatype eval_status = EvPending | EvRunning | EvCompleted | EvFailed

text \<open>The summary dictionary: the counts, and the entry \<open>error\<close> of a failed run, which replaces the count of
  the same name.\<close>

record eval_run =
  xr_id :: uuid
  xr_dataset :: uuid
  xr_status :: eval_status
  xr_fingerprint :: "(string \<times> string) list"
  xr_results :: "case_result list"
  xr_summary :: "eval_summary option"
  xr_error :: "(string \<times> string) option"
  xr_created_at :: time
  xr_completed_at :: "time option"

section \<open>The in-memory store\<close>

record mem_evals =
  me_datasets :: "(uuid \<times> eval_dataset) list"
  me_runs :: "(uuid \<times> eval_run) list"

definition mem_create_dataset :: "eval_dataset \<Rightarrow> mem_evals \<Rightarrow> db_error + mem_evals" where
  "mem_create_dataset x s = Inr (s\<lparr>me_datasets := AList.update (ds_id x) x (me_datasets s)\<rparr>)"

definition mem_get_dataset :: "uuid \<Rightarrow> mem_evals \<Rightarrow> eval_dataset option" where
  "mem_get_dataset i s = map_of (me_datasets s) i"

definition mem_list_datasets :: "nat \<Rightarrow> nat \<Rightarrow> mem_evals \<Rightarrow> eval_dataset list" where
  "mem_list_datasets n off s = page (Some n) off (sort_key ds_created_at (map snd (me_datasets s)))"

text \<open>A missing dataset is a \<open>KeyError\<close>.\<close>

definition mem_add_case :: "eval_case \<Rightarrow> mem_evals \<Rightarrow> db_error + mem_evals" where
  "mem_add_case c s = (case map_of (me_datasets s) (ec_dataset c) of
       None \<Rightarrow> Inl KeyError
     | Some x \<Rightarrow> Inr (s\<lparr>me_datasets := AList.update (ec_dataset c) (x\<lparr>ds_cases := ds_cases x @ [c]\<rparr>) (me_datasets s)\<rparr>))"

definition mem_save_run :: "(uuid \<Rightarrow> time) \<Rightarrow> eval_run \<Rightarrow> mem_evals \<Rightarrow> db_error + mem_evals" where
  "mem_save_run stamp r s = Inr (s\<lparr>me_runs := AList.update (xr_id r) r (me_runs s)\<rparr>)"

definition mem_get_run :: "uuid \<Rightarrow> mem_evals \<Rightarrow> eval_run option" where
  "mem_get_run i s = map_of (me_runs s) i"

definition mem_list_runs :: "nat \<Rightarrow> nat \<Rightarrow> mem_evals \<Rightarrow> eval_run list" where
  "mem_list_runs n off s = page (Some n) off (sort_key xr_created_at (map snd (me_runs s)))"

section \<open>The relational store\<close>

text \<open>A run row is the run without results, a dataset row the dataset without cases; a result row carries the result,
  its run and its time of insertion. The primary keys are the only constraints; that a run has one row per case
  (\<open>sql_inv\<close> below) is what \<open>save_run\<close> keeps.\<close>

record result_row =
  rs_run :: uuid
  rs_result :: case_result
  rs_created_at :: time

record sql_evals =
  se_datasets :: "eval_dataset list"
  se_cases :: "eval_case list"
  se_runs :: "eval_run list"
  se_results :: "result_row list"

definition dataset_from_row :: "sql_evals \<Rightarrow> eval_dataset \<Rightarrow> eval_dataset" where
  "dataset_from_row s row = row\<lparr>ds_cases := sort_key ec_created_at (filter (\<lambda>c. ec_dataset c = ds_id row) (se_cases s))\<rparr>"

definition run_from_row :: "sql_evals \<Rightarrow> eval_run \<Rightarrow> eval_run" where
  "run_from_row s row = row\<lparr>xr_results := map rs_result (sort_key rs_created_at (filter (\<lambda>x. rs_run x = xr_id row) (se_results s)))\<rparr>"

fun add_case_rows :: "eval_case list \<Rightarrow> eval_case list \<Rightarrow> eval_case list option" where
  "add_case_rows [] rows = Some rows"
| "add_case_rows (c # cs) rows = (case db_add ec_id c rows of None \<Rightarrow> None | Some rows' \<Rightarrow> add_case_rows cs rows')"

definition sql_create_dataset :: "eval_dataset \<Rightarrow> sql_evals \<Rightarrow> db_error + sql_evals" where
  "sql_create_dataset x s = (case (db_add ds_id (x\<lparr>ds_cases := []\<rparr>) (se_datasets s), add_case_rows (ds_cases x) (se_cases s)) of
       (Some ds, Some cs) \<Rightarrow> Inr (s\<lparr>se_datasets := ds, se_cases := cs\<rparr>)
     | _ \<Rightarrow> Inl IntegrityError)"

definition sql_get_dataset :: "uuid \<Rightarrow> sql_evals \<Rightarrow> eval_dataset option" where
  "sql_get_dataset i s = map_option (dataset_from_row s) (db_get ds_id i (se_datasets s))"

definition sql_list_datasets :: "nat \<Rightarrow> nat \<Rightarrow> sql_evals \<Rightarrow> eval_dataset list" where
  "sql_list_datasets n off s = map (dataset_from_row s) (page (Some n) off (sort_key ds_created_at (se_datasets s)))"

definition sql_add_case :: "eval_case \<Rightarrow> sql_evals \<Rightarrow> db_error + sql_evals" where
  "sql_add_case c s = (case db_add ec_id c (se_cases s) of
       None \<Rightarrow> Inl IntegrityError | Some rows \<Rightarrow> Inr (s\<lparr>se_cases := rows\<rparr>))"

text \<open>\<open>save_run\<close>: the run row is inserted, or its status, summary and completion updated; then each result updates
  the row of its case or is inserted, stamped with the time of its insertion, and rows of other cases are
  deleted. \<open>old\<close> are the rows the transaction read before it changed any.\<close>

definition save_result :: "(uuid \<Rightarrow> time) \<Rightarrow> uuid \<Rightarrow> result_row list \<Rightarrow> case_result \<Rightarrow> result_row list \<Rightarrow> result_row list" where
  "save_result stamp rid old x rows =
     (if list_ex (\<lambda>y. rs_run y = rid \<and> cs_case (rs_result y) = cs_case x) old
      then map (\<lambda>y. if rs_run y = rid \<and> cs_case (rs_result y) = cs_case x then y\<lparr>rs_result := x\<rparr> else y) rows
      else rows @ [\<lparr>rs_run = rid, rs_result = x, rs_created_at = stamp (cs_case x)\<rparr>])"

definition saved_results :: "(uuid \<Rightarrow> time) \<Rightarrow> uuid \<Rightarrow> case_result list \<Rightarrow> result_row list \<Rightarrow> result_row list" where
  "saved_results stamp rid xs rows = filter (\<lambda>y. rs_run y = rid \<longrightarrow> cs_case (rs_result y) \<in> set (map cs_case xs))
     (fold (save_result stamp rid rows) xs rows)"

definition sql_save_run :: "(uuid \<Rightarrow> time) \<Rightarrow> eval_run \<Rightarrow> sql_evals \<Rightarrow> db_error + sql_evals" where
  "sql_save_run stamp r s =
     (let runs = (case db_get xr_id (xr_id r) (se_runs s) of
          None \<Rightarrow> se_runs s @ [r\<lparr>xr_results := []\<rparr>]
        | Some _ \<Rightarrow> db_set xr_id (xr_id r) (\<lambda>row. row\<lparr>xr_status := xr_status r, xr_summary := xr_summary r,
            xr_error := xr_error r, xr_completed_at := xr_completed_at r\<rparr>) (se_runs s)) in
      Inr (s\<lparr>se_runs := runs, se_results := saved_results stamp (xr_id r) (xr_results r) (se_results s)\<rparr>))"

definition sql_get_run :: "uuid \<Rightarrow> sql_evals \<Rightarrow> eval_run option" where
  "sql_get_run i s = map_option (run_from_row s) (db_get xr_id i (se_runs s))"

definition sql_list_runs :: "nat \<Rightarrow> nat \<Rightarrow> sql_evals \<Rightarrow> eval_run list" where
  "sql_list_runs n off s = map (run_from_row s) (page (Some n) off (sort_key xr_created_at (se_runs s)))"

section \<open>The port\<close>

text \<open>A run read back is the one saved last, with its results in some order; what identifies the run
  (dataset, fingerprint, creation) stays as it was first saved.\<close>

definition same_run :: "eval_run \<Rightarrow> eval_run \<Rightarrow> bool" where
  "same_run a b = (a\<lparr>xr_results := []\<rparr> = b\<lparr>xr_results := []\<rparr> \<and> mset (xr_results a) = mset (xr_results b))"

definition same_identity :: "eval_run \<Rightarrow> eval_run \<Rightarrow> bool" where
  "same_identity a b = (xr_id a = xr_id b \<and> xr_dataset a = xr_dataset b \<and> xr_fingerprint a = xr_fingerprint b
     \<and> xr_created_at a = xr_created_at b)"

definition clean_run :: "eval_run \<Rightarrow> bool" where
  "clean_run r = distinct (map cs_case (xr_results r))"

locale eval_store =
  fixes create_dataset :: "eval_dataset \<Rightarrow> 's \<Rightarrow> db_error + 's"
    and get_dataset :: "uuid \<Rightarrow> 's \<Rightarrow> eval_dataset option"
    and save_run :: "(uuid \<Rightarrow> time) \<Rightarrow> eval_run \<Rightarrow> 's \<Rightarrow> db_error + 's"
    and get_run :: "uuid \<Rightarrow> 's \<Rightarrow> eval_run option"
    and inv :: "'s \<Rightarrow> bool"
  assumes save_defined: "\<exists>s'. save_run stamp r s = Inr s'"
    and save_inv: "inv s \<Longrightarrow> save_run stamp r s = Inr s' \<Longrightarrow> clean_run r \<Longrightarrow> inv s'"
    and get_saved: "inv s \<Longrightarrow> save_run stamp r s = Inr s' \<Longrightarrow> clean_run r
      \<Longrightarrow> (\<And>old. get_run (xr_id r) s = Some old \<Longrightarrow> same_identity r old)
      \<Longrightarrow> \<exists>r'. get_run (xr_id r) s' = Some r' \<and> same_run r' r"
    and get_other: "save_run stamp r s = Inr s' \<Longrightarrow> i \<noteq> xr_id r \<Longrightarrow> get_run i s' = get_run i s"
    and save_dataset: "save_run stamp r s = Inr s' \<Longrightarrow> get_dataset i s' = get_dataset i s"
    and created: "create_dataset x s = Inr s' \<Longrightarrow> ds_cases x = [] \<Longrightarrow> inv s \<Longrightarrow> get_dataset (ds_id x) s = None
      \<Longrightarrow> get_dataset (ds_id x) s' = Some x"
    and create_inv: "create_dataset x s = Inr s' \<Longrightarrow> ds_cases x = [] \<Longrightarrow> inv s \<Longrightarrow> inv s'"
    and create_run_frame: "create_dataset x s = Inr s' \<Longrightarrow> get_run i s' = get_run i s"
begin

lemma last_save_wins:
  assumes "inv s" "save_run st1 r1 s = Inr s1" "save_run st2 r2 s1 = Inr s2" "clean_run r1" "clean_run r2"
    "get_run (xr_id r1) s = None" "same_identity r2 r1"
  shows "\<exists>r'. get_run (xr_id r1) s2 = Some r' \<and> same_run r' r2"
proof -
  from get_saved [OF assms(1,2,4)] assms(6) obtain r' where r': "get_run (xr_id r1) s1 = Some r'" "same_run r' r1" by auto
  have ids: "xr_id r2 = xr_id r1" using assms(7) by (simp add: same_identity_def)
  have "same_identity r2 r'"
    using r'(2) assms(7) by (cases r1; cases r') (simp add: same_run_def same_identity_def)
  then show ?thesis
    using get_saved [OF save_inv [OF assms(1,2,4)] assms(3,5)] r'(1) by (simp add: ids)
qed

end

section \<open>Both stores meet the port\<close>

interpretation mem_eval: eval_store mem_create_dataset mem_get_dataset mem_save_run mem_get_run "\<lambda>_. True"
  by unfold_locales
    (auto simp: mem_save_run_def mem_get_run_def mem_create_dataset_def mem_get_dataset_def map_of_alist_update same_run_def)

abbreviation result_key :: "result_row \<Rightarrow> uuid \<times> uuid" where
  "result_key y \<equiv> (rs_run y, cs_case (rs_result y))"

definition sql_inv :: "sql_evals \<Rightarrow> bool" where
  "sql_inv s = (keyed xr_id (se_runs s) \<and> keyed result_key (se_results s)
     \<and> list_all (\<lambda>c. ec_dataset c \<in> ds_id ` set (se_datasets s)) (se_cases s)
     \<and> list_all (\<lambda>y. rs_run y \<in> xr_id ` set (se_runs s)) (se_results s))"

text \<open>One step of the loop over the results is an upsert by run and case.\<close>

definition merge_result :: "result_row \<Rightarrow> result_row \<Rightarrow> result_row" where
  "merge_result old new = old\<lparr>rs_result := rs_result new\<rparr>"

abbreviation new_row :: "(uuid \<Rightarrow> time) \<Rightarrow> uuid \<Rightarrow> case_result \<Rightarrow> result_row" where
  "new_row stamp rid x \<equiv> \<lparr>rs_run = rid, rs_result = x, rs_created_at = stamp (cs_case x)\<rparr>"

abbreviation upsert_result :: "(uuid \<Rightarrow> time) \<Rightarrow> uuid \<Rightarrow> case_result \<Rightarrow> result_row list \<Rightarrow> result_row list" where
  "upsert_result stamp rid x rows \<equiv> db_upsert result_key merge_result (new_row stamp rid x) rows"

lemma get_upsert_result:
  "db_get result_key k (upsert_result stamp rid x rows) =
    (if k = (rid, cs_case x) then Some (case db_get result_key k rows of None \<Rightarrow> new_row stamp rid x | Some old \<Rightarrow> old\<lparr>rs_result := x\<rparr>)
     else db_get result_key k rows)"
  by (subst db_get_upsert) (auto simp: merge_result_def split: option.split)

lemma keyed_upsert:
  assumes "keyed pk rows" "\<And>old. pk old = pk r \<Longrightarrow> pk (merge old r) = pk r"
  shows "keyed pk (db_upsert pk merge r rows)"
proof (cases "db_get pk (pk r) rows")
  case None
  then have "pk r \<notin> pk ` set rows" by (simp add: db_get_None)
  then show ?thesis using assms(1) by (simp add: db_upsert_def keyed_def None)
next
  case (Some old)
  have "map pk (db_set pk (pk r) (\<lambda>old. merge old r) rows) = map pk rows"
    using assms(2) by (auto simp: db_set_def)
  then show ?thesis using assms(1) by (simp add: db_upsert_def keyed_def Some)
qed

lemma save_result_upsert:
  assumes "(rid, cs_case x) \<in> result_key ` set old \<longleftrightarrow> (rid, cs_case x) \<in> result_key ` set rows"
  shows "save_result stamp rid old x rows = upsert_result stamp rid x rows"
proof -
  have *: "list_ex (\<lambda>y. rs_run y = rid \<and> cs_case (rs_result y) = cs_case x) old \<longleftrightarrow> (rid, cs_case x) \<in> result_key ` set old"
    by (auto simp: list_ex_iff image_iff)
  then show ?thesis
  proof (cases "db_get result_key (rid, cs_case x) rows")
    case None
    then have "(rid, cs_case x) \<notin> result_key ` set rows" by (simp add: db_get_None)
    with * assms show ?thesis by (simp add: save_result_def db_upsert_def None)
  next
    case (Some y)
    then have "(rid, cs_case x) \<in> result_key ` set rows" using db_get_SomeD [OF Some] by force
    with * assms show ?thesis
      by (auto simp: save_result_def db_upsert_def Some db_set_def merge_result_def intro!: map_cong)
  qed
qed

lemma key_upsert: "result_key ` set (upsert_result stamp rid x rows) = insert (rid, cs_case x) (result_key ` set rows)"
proof -
  have "k \<in> result_key ` set (upsert_result stamp rid x rows) \<longleftrightarrow> k \<in> insert (rid, cs_case x) (result_key ` set rows)" for k
    using db_get_None [of result_key k rows] db_get_None [of result_key k "upsert_result stamp rid x rows"]
    by (auto simp: get_upsert_result split: if_splits)
  then show ?thesis by blast
qed

lemma fold_save_upsert:
  assumes "distinct (map cs_case xs)"
    "\<forall>x\<in>set xs. (rid, cs_case x) \<in> result_key ` set old \<longleftrightarrow> (rid, cs_case x) \<in> result_key ` set rows"
  shows "fold (save_result stamp rid old) xs rows = fold (upsert_result stamp rid) xs rows"
  using assms
proof (induction xs arbitrary: rows)
  case (Cons x xs)
  have "save_result stamp rid old x rows = upsert_result stamp rid x rows"
    using Cons.prems(2) by (intro save_result_upsert) simp
  moreover have "\<forall>y\<in>set xs. (rid, cs_case y) \<in> result_key ` set old \<longleftrightarrow> (rid, cs_case y) \<in> result_key ` set (upsert_result stamp rid x rows)"
    using Cons.prems by (auto simp: key_upsert image_iff)
  ultimately show ?case using Cons by simp
qed simp

lemma fold_upsert_get:
  assumes "distinct (map cs_case xs)"
  shows "db_get result_key k (fold (upsert_result stamp rid) xs rows) =
    (case find (\<lambda>x. k = (rid, cs_case x)) xs of
       None \<Rightarrow> db_get result_key k rows
     | Some x \<Rightarrow> Some (case db_get result_key k rows of None \<Rightarrow> new_row stamp rid x | Some old \<Rightarrow> old\<lparr>rs_result := x\<rparr>))"
  using assms
proof (induction xs arbitrary: rows)
  case (Cons x xs)
  show ?case
  proof (cases "k = (rid, cs_case x)")
    case True
    have "find (\<lambda>y. k = (rid, cs_case y)) xs = None"
      using Cons.prems True by (auto simp: find_None_iff image_iff)
    with Cons.IH [of "upsert_result stamp rid x rows"] Cons.prems show ?thesis by (simp add: get_upsert_result True)
  next
    case False
    have "db_get result_key k (upsert_result stamp rid x rows) = db_get result_key k rows"
      using False by (simp only: get_upsert_result if_False)
    with Cons.IH [of "upsert_result stamp rid x rows"] Cons.prems False show ?thesis
      by (cases "find (\<lambda>x. k = (rid, cs_case x)) xs") simp_all
  qed
qed simp

lemma upsert_keyed: "keyed result_key rows \<Longrightarrow> keyed result_key (upsert_result stamp rid x rows)"
  by (rule keyed_upsert) (auto simp: merge_result_def)

lemma fold_upsert_keyed: "keyed result_key rows \<Longrightarrow> keyed result_key (fold (upsert_result stamp rid) xs rows)"
  by (induction xs arbitrary: rows) (simp_all add: upsert_keyed)

lemma find_case:
  assumes "distinct (map cs_case xs)" "x \<in> set xs"
  shows "find (\<lambda>y. (rid, cs_case x) = (rid, cs_case y)) xs = Some x"
  using assms by (induction xs) (auto simp: image_iff)

text \<open>After the loop and the deletion the rows of the run carry exactly the saved results.\<close>

lemma saved_rows:
  assumes "keyed result_key rows" "distinct (map cs_case xs)"
  shows "keyed result_key (saved_results stamp rid xs rows)
    \<and> rs_result ` {y \<in> set (saved_results stamp rid xs rows). rs_run y = rid} = set xs"
proof -
  define out where "out = saved_results stamp rid xs rows"
  let ?all = "fold (upsert_result stamp rid) xs rows"
  have all: "fold (save_result stamp rid rows) xs rows = ?all" by (rule fold_save_upsert [OF assms(2)]) simp
  have k: "keyed result_key ?all" by (rule fold_upsert_keyed [OF assms(1)])
  have mem: "y \<in> set ?all \<longleftrightarrow> db_get result_key (result_key y) ?all = Some y" for y using db_get_iff [OF k] by auto
  have ko: "keyed result_key out" using k by (simp add: out_def saved_results_def all keyed_def distinct_map_filter)
  have res: "rs_result ` {y \<in> set out. rs_run y = rid} = set xs"
  proof (intro subset_antisym subsetI)
    fix r assume "r \<in> rs_result ` {y \<in> set out. rs_run y = rid}"
    then obtain y where y: "y \<in> set ?all" "rs_run y = rid" "cs_case (rs_result y) \<in> set (map cs_case xs)" "r = rs_result y"
      by (auto simp: out_def saved_results_def all)
    then obtain x where x: "x \<in> set xs" "cs_case x = cs_case (rs_result y)" by auto
    have "db_get result_key (rid, cs_case x) ?all = Some y" using y(1,2) x(2) mem by simp
    then have "rs_result y = x"
      using fold_upsert_get [OF assms(2), of "(rid, cs_case x)" rid stamp rows] find_case [OF assms(2) x(1), of rid]
      by (auto split: option.splits)
    then show "r \<in> set xs" using x(1) y(4) by simp
  next
    fix x assume x: "x \<in> set xs"
    from fold_upsert_get [OF assms(2), of "(rid, cs_case x)" rid stamp rows] find_case [OF assms(2) x, of rid]
    obtain y where y: "db_get result_key (rid, cs_case x) ?all = Some y" "rs_result y = x" by (auto split: option.splits)
    from db_get_SomeD [OF y(1)] have "y \<in> set ?all" "rs_run y = rid" by auto
    with y(2) x have "y \<in> {y \<in> set out. rs_run y = rid}" by (auto simp: out_def saved_results_def all)
    then show "x \<in> rs_result ` {y \<in> set out. rs_run y = rid}" using y(2) by force
  qed
  with ko show ?thesis by (simp add: out_def)
qed

lemma save_result_other: "i \<noteq> rid \<Longrightarrow> filter (\<lambda>y. rs_run y = i) (save_result stamp rid old x rows) = filter (\<lambda>y. rs_run y = i) rows"
  by (induction rows) (auto simp: save_result_def)

lemma saved_results_other:
  assumes "i \<noteq> rid"
  shows "filter (\<lambda>y. rs_run y = i) (saved_results stamp rid xs rows) = filter (\<lambda>y. rs_run y = i) rows"
proof -
  have "filter (\<lambda>y. rs_run y = i) (fold (save_result stamp rid old) xs rs) = filter (\<lambda>y. rs_run y = i) rs" for old rs
    using assms by (induction xs arbitrary: rs) (simp_all add: save_result_other)
  moreover have "filter (\<lambda>y. rs_run y = i) (saved_results stamp rid xs rows) = filter (\<lambda>y. rs_run y = i) (fold (save_result stamp rid rows) xs rows)"
    using assms by (auto simp: saved_results_def intro: filter_cong)
  ultimately show ?thesis by simp
qed

lemma saved_results_run:
  "y \<in> set (saved_results stamp rid xs rows) \<Longrightarrow> rs_run y = rid \<or> y \<in> set rows"
proof (cases "rs_run y = rid")
  case False
  assume "y \<in> set (saved_results stamp rid xs rows)"
  then have "y \<in> set (filter (\<lambda>z. rs_run z = rs_run y) (saved_results stamp rid xs rows))" by simp
  then show ?thesis using saved_results_other [OF False] by auto
qed simp

lemma saved_results_mset:
  assumes "keyed result_key rows" "distinct (map cs_case xs)"
  shows "mset (map rs_result (sort_key rs_created_at (filter (\<lambda>y. rs_run y = rid) (saved_results stamp rid xs rows)))) = mset xs"
proof -
  let ?own = "filter (\<lambda>y. rs_run y = rid) (saved_results stamp rid xs rows)"
  have "distinct (map result_key (saved_results stamp rid xs rows))" using saved_rows [OF assms] by (simp add: keyed_def)
  then have "distinct (map result_key ?own)" by (rule distinct_map_filter)
  moreover have "map result_key ?own = map (Pair rid) (map cs_case (map rs_result ?own))" by simp
  ultimately have "distinct (map rs_result ?own)" by (metis distinct_map)
  moreover have "set (map rs_result ?own) = set xs" using saved_rows [OF assms] by auto
  moreover have "distinct xs" using assms(2) by (metis distinct_map)
  ultimately have "mset (map rs_result ?own) = mset xs" by (metis set_eq_iff_mset_eq_distinct)
  then show ?thesis by (simp add: mset_map mset_sort)
qed

lemma sql_save_runs:
  assumes "sql_save_run stamp r s = Inr s'"
  shows "keyed xr_id (se_runs s) \<Longrightarrow> keyed xr_id (se_runs s')" "xr_id ` set (se_runs s') = insert (xr_id r) (xr_id ` set (se_runs s))"
    "i \<noteq> xr_id r \<Longrightarrow> db_get xr_id i (se_runs s') = db_get xr_id i (se_runs s)"
    "db_get xr_id (xr_id r) (se_runs s') = Some (case db_get xr_id (xr_id r) (se_runs s) of None \<Rightarrow> r\<lparr>xr_results := []\<rparr>
       | Some row \<Rightarrow> row\<lparr>xr_status := xr_status r, xr_summary := xr_summary r, xr_error := xr_error r, xr_completed_at := xr_completed_at r\<rparr>)"
proof -
  have "(keyed xr_id (se_runs s) \<longrightarrow> keyed xr_id (se_runs s')) \<and> xr_id ` set (se_runs s') = insert (xr_id r) (xr_id ` set (se_runs s))
    \<and> (i \<noteq> xr_id r \<longrightarrow> db_get xr_id i (se_runs s') = db_get xr_id i (se_runs s))
    \<and> db_get xr_id (xr_id r) (se_runs s') = Some (case db_get xr_id (xr_id r) (se_runs s) of None \<Rightarrow> r\<lparr>xr_results := []\<rparr>
       | Some row \<Rightarrow> row\<lparr>xr_status := xr_status r, xr_summary := xr_summary r, xr_error := xr_error r, xr_completed_at := xr_completed_at r\<rparr>)"
  proof (cases "db_get xr_id (xr_id r) (se_runs s)")
    case None
    then have "xr_id r \<notin> xr_id ` set (se_runs s)" by (simp add: db_get_None)
    moreover have "se_runs s' = se_runs s @ [r\<lparr>xr_results := []\<rparr>]" using assms by (auto simp: sql_save_run_def None Let_def)
    ultimately show ?thesis by (auto simp: keyed_def None db_get_append db_get_Cons split: option.split)
  next
    case (Some row)
    have m: "xr_id r \<in> xr_id ` set (se_runs s)" using db_get_SomeD [OF Some] by (metis image_eqI)
    have runs: "se_runs s' = db_set xr_id (xr_id r) (\<lambda>row. row\<lparr>xr_status := xr_status r, xr_summary := xr_summary r,
        xr_error := xr_error r, xr_completed_at := xr_completed_at r\<rparr>) (se_runs s)"
      using assms by (auto simp: sql_save_run_def Some Let_def)
    show ?thesis unfolding runs using m by (auto simp: keyed_set image_db_set db_get_set Some)
  qed
  then show "keyed xr_id (se_runs s) \<Longrightarrow> keyed xr_id (se_runs s')" "xr_id ` set (se_runs s') = insert (xr_id r) (xr_id ` set (se_runs s))"
    "i \<noteq> xr_id r \<Longrightarrow> db_get xr_id i (se_runs s') = db_get xr_id i (se_runs s)"
    "db_get xr_id (xr_id r) (se_runs s') = Some (case db_get xr_id (xr_id r) (se_runs s) of None \<Rightarrow> r\<lparr>xr_results := []\<rparr>
       | Some row \<Rightarrow> row\<lparr>xr_status := xr_status r, xr_summary := xr_summary r, xr_error := xr_error r, xr_completed_at := xr_completed_at r\<rparr>)"
    by auto
qed

lemma sql_save_rest:
  "sql_save_run stamp r s = Inr s' \<Longrightarrow> se_datasets s' = se_datasets s \<and> se_cases s' = se_cases s
     \<and> se_results s' = saved_results stamp (xr_id r) (xr_results r) (se_results s)"
  by (auto simp: sql_save_run_def Let_def)

interpretation sql_eval: eval_store sql_create_dataset sql_get_dataset sql_save_run sql_get_run sql_inv
proof (unfold_locales, goal_cases)
  case (1 stamp r s)
  then show ?case by (simp add: sql_save_run_def Let_def)
next
  case (2 s stamp r s')
  note rest = sql_save_rest [OF 2(2)]
  have "keyed result_key (se_results s')"
    using saved_rows 2(1,3) rest by (simp add: sql_inv_def clean_run_def)
  moreover have "list_all (\<lambda>y. rs_run y \<in> xr_id ` set (se_runs s')) (se_results s')"
    using 2(1) rest saved_results_run by (fastforce simp: sql_inv_def list_all_iff sql_save_runs(2) [OF 2(2)])
  ultimately show ?case using 2(1) rest sql_save_runs(1) [OF 2(2)] by (simp add: sql_inv_def)
next
  case (3 s stamp r s')
  note rest = sql_save_rest [OF 3(2)]
  let ?rs = "map rs_result (sort_key rs_created_at (filter (\<lambda>y. rs_run y = xr_id r) (se_results s')))"
  have m: "mset ?rs = mset (xr_results r)"
    using saved_results_mset 3(1,3) rest by (simp add: sql_inv_def clean_run_def)
  show ?case
  proof (cases "db_get xr_id (xr_id r) (se_runs s)")
    case None
    then have "sql_get_run (xr_id r) s' = Some (r\<lparr>xr_results := ?rs\<rparr>)"
      using sql_save_runs(4) [OF 3(2)] by (simp add: sql_get_run_def run_from_row_def)
    then show ?thesis using m by (simp add: same_run_def)
  next
    case (Some row)
    have "same_identity r (run_from_row s row)" using 3(4) Some by (simp add: sql_get_run_def)
    then have idr: "xr_id row = xr_id r" "xr_dataset row = xr_dataset r" "xr_fingerprint row = xr_fingerprint r" "xr_created_at row = xr_created_at r"
      by (simp_all add: same_identity_def run_from_row_def)
    then have "sql_get_run (xr_id r) s' = Some (r\<lparr>xr_results := ?rs\<rparr>)"
      using sql_save_runs(4) [OF 3(2)] Some by (cases r; cases row) (simp add: sql_get_run_def run_from_row_def)
    then show ?thesis using m by (simp add: same_run_def)
  qed
next
  case (4 stamp r s s' i)
  have "run_from_row s' row = run_from_row s row" if "xr_id row = i" for row
    using that 4(2) sql_save_rest [OF 4(1)] saved_results_other by (simp add: run_from_row_def)
  then show ?case
    using sql_save_runs(3) [OF 4(1,2)] by (cases "db_get xr_id i (se_runs s)") (auto simp: sql_get_run_def dest: db_get_key)
next
  case (5 stamp r s s' i)
  have "dataset_from_row s' = dataset_from_row s" using sql_save_rest [OF 5] by (simp add: dataset_from_row_def fun_eq_iff)
  then show ?case using sql_save_rest [OF 5] by (simp add: sql_get_dataset_def)
next
  case (6 x s s')
  then have "db_get ds_id (ds_id x) (se_datasets s) = None" by (simp add: sql_get_dataset_def)
  then have n: "ds_id x \<notin> ds_id ` set (se_datasets s)" by (simp add: db_get_None)
  then have s': "s' = s\<lparr>se_datasets := se_datasets s @ [x\<lparr>ds_cases := []\<rparr>]\<rparr>"
    using 6(1,2) by (auto simp: sql_create_dataset_def db_add_def)
  have "filter (\<lambda>c. ec_dataset c = ds_id x) (se_cases s) = []"
    using 6(3) n by (simp add: filter_empty_conv sql_inv_def list_all_iff) metis
  then show ?case
    using n 6(2) \<open>db_get ds_id (ds_id x) (se_datasets s) = None\<close>
    by (simp add: sql_get_dataset_def s' db_get_append db_get_Cons dataset_from_row_def)
next
  case (7 x s s')
  then show ?case by (auto simp: sql_create_dataset_def sql_inv_def db_add_def list_all_iff split: if_splits)
next
  case (8 x s s' i)
  then have "se_runs s' = se_runs s" "se_results s' = se_results s" by (auto simp: sql_create_dataset_def split: option.splits)
  then show ?case by (simp add: sql_get_run_def run_from_row_def [abs_def])
qed

section \<open>The service\<close>

text \<open>
  The state: the store, the repository with the idempotency table, and the executions that were scheduled in the
  background. \<open>digest\<close> is \<open>_request_digest\<close>; \<open>versions\<close> are the version ids the workspace driver lists.
\<close>

record 's evs =
  es_store :: 's
  es_db :: db
  es_tasks :: "uuid list"

text \<open>\<open>_idempotent\<close> with a repository: look up, load or create, persist and remember. It also tells whether the
  entity was created. Without a key the entity is created and not persisted.\<close>

definition eval_idempotent :: "('e \<Rightarrow> 's \<Rightarrow> db_error + 's) \<Rightarrow> (uuid \<Rightarrow> 's \<Rightarrow> 'e option) \<Rightarrow> ('e \<Rightarrow> uuid)
    \<Rightarrow> time \<Rightarrow> string \<Rightarrow> string option \<Rightarrow> string \<Rightarrow> 'e \<Rightarrow> 's evs \<Rightarrow> (service_error + (bool \<times> 'e)) \<times> 's evs" where
  "eval_idempotent persist load eid now scope key h entity s =
     (if \<not> str_true key then (Inr (True, entity), s)
      else case find_idempotent (es_db s) scope key h of
        Inl (RepositoryConflict _) \<Rightarrow> (Inl (ServiceError ''IDEMPOTENCY_CONFLICT'' 409), s)
      | Inl e \<Rightarrow> (Inl (Raised e), s)
      | Inr (Some rid) \<Rightarrow> (case load rid (es_store s) of
            None \<Rightarrow> (Inl (ServiceError ''IDEMPOTENCY_CONFLICT'' 409), s)
          | Some x \<Rightarrow> (Inr (False, x), s))
      | Inr None \<Rightarrow> (case persist entity (es_store s) of
            Inl e \<Rightarrow> (Inl (Raised e), s)
          | Inr st \<Rightarrow> (case remember_idempotent now scope key h (eid entity) (es_db s) of
                Inl (RepositoryConflict _) \<Rightarrow> (Inl (ServiceError ''IDEMPOTENCY_CONFLICT'' 409), s\<lparr>es_store := st\<rparr>)
              | Inl e \<Rightarrow> (Inl (Raised e), s\<lparr>es_store := st\<rparr>)
              | Inr d \<Rightarrow> (Inr (True, entity), s\<lparr>es_store := st, es_db := d\<rparr>))))"

definition svc_create_dataset :: "(eval_dataset \<Rightarrow> 's \<Rightarrow> db_error + 's) \<Rightarrow> (uuid \<Rightarrow> 's \<Rightarrow> eval_dataset option) \<Rightarrow> (obj \<Rightarrow> string)
    \<Rightarrow> (uuid \<Rightarrow> string list) \<Rightarrow> time \<Rightarrow> eval_dataset \<Rightarrow> string option \<Rightarrow> 's evs \<Rightarrow> (service_error + eval_dataset) \<times> 's evs" where
  "svc_create_dataset create load digest versions now x key s =
     (if ds_baseline x \<notin> set (versions (ds_workspace x)) then (Inl (ServiceError ''WORKSPACE_VERSION_NOT_FOUND'' 404), s)
      else case eval_idempotent create load ds_id now ''eval_dataset'' key
             (digest [(''name'', JStr (ds_name x)), (''workspace_id'', JStr (ds_workspace x)), (''baseline_version'', JStr (ds_baseline x))]) x s of
        (Inl e, s1) \<Rightarrow> (Inl e, s1)
      | (Inr (created, y), s1) \<Rightarrow>
          if \<not> created then (Inr y, s1)
          else if key = None
          then (case create y (es_store s1) of Inl e \<Rightarrow> (Inl (Raised e), s1) | Inr st \<Rightarrow> (Inr y, s1\<lparr>es_store := st\<rparr>))
          else (Inr y, s1))"

definition svc_create_run :: "((uuid \<Rightarrow> time) \<Rightarrow> eval_run \<Rightarrow> 's \<Rightarrow> db_error + 's) \<Rightarrow> (uuid \<Rightarrow> 's \<Rightarrow> eval_run option)
    \<Rightarrow> (uuid \<Rightarrow> 's \<Rightarrow> eval_dataset option) \<Rightarrow> (obj \<Rightarrow> string) \<Rightarrow> (uuid \<Rightarrow> time) \<Rightarrow> uuid \<Rightarrow> time \<Rightarrow> uuid \<Rightarrow> (string \<times> string) list
    \<Rightarrow> string option \<Rightarrow> 's evs \<Rightarrow> (service_error + eval_run) \<times> 's evs" where
  "svc_create_run save load get_ds digest stamp rid now dsid fp key s =
     (case get_ds dsid (es_store s) of
        None \<Rightarrow> (Inl (ServiceError ''EVAL_DATASET_NOT_FOUND'' 404), s)
      | Some _ \<Rightarrow>
          (let r = \<lparr>xr_id = rid, xr_dataset = dsid, xr_status = EvPending, xr_fingerprint = fp, xr_results = [],
                    xr_summary = None, xr_error = None, xr_created_at = now, xr_completed_at = None\<rparr> in
           case eval_idempotent (save stamp) load xr_id now ''eval_run'' key
             (digest [(''dataset_id'', JStr dsid), (''fingerprint'', JObj (map (\<lambda>(k, v). (k, JStr v)) fp))]) r s of
             (Inl e, s1) \<Rightarrow> (Inl e, s1)
           | (Inr (created, y), s1) \<Rightarrow>
               if \<not> created then (Inr y, s1)
               else (case (if key = None then save stamp y (es_store s1) else Inr (es_store s1)) of
                   Inl e \<Rightarrow> (Inl (Raised e), s1)
                 | Inr st \<Rightarrow> (case save stamp (y\<lparr>xr_status := EvRunning\<rparr>) st of
                       Inl e \<Rightarrow> (Inl (Raised e), s1\<lparr>es_store := st\<rparr>)
                     | Inr st' \<Rightarrow> (Inr (y\<lparr>xr_status := EvRunning\<rparr>), s1\<lparr>es_store := st'\<rparr>)))))"

text \<open>\<open>start_run\<close> schedules the execution of every run it finds in state \<open>running\<close>, new or replayed.\<close>

definition svc_start_run :: "((uuid \<Rightarrow> time) \<Rightarrow> eval_run \<Rightarrow> 's \<Rightarrow> db_error + 's) \<Rightarrow> (uuid \<Rightarrow> 's \<Rightarrow> eval_run option)
    \<Rightarrow> (uuid \<Rightarrow> 's \<Rightarrow> eval_dataset option) \<Rightarrow> (obj \<Rightarrow> string) \<Rightarrow> (uuid \<Rightarrow> time) \<Rightarrow> uuid \<Rightarrow> time \<Rightarrow> uuid \<Rightarrow> (string \<times> string) list
    \<Rightarrow> string option \<Rightarrow> 's evs \<Rightarrow> (service_error + eval_run) \<times> 's evs" where
  "svc_start_run save load get_ds digest stamp rid now dsid fp key s =
     (case svc_create_run save load get_ds digest stamp rid now dsid fp key s of
        (Inl e, s1) \<Rightarrow> (Inl e, s1)
      | (Inr r, s1) \<Rightarrow> if xr_status r \<noteq> EvRunning then (Inr r, s1) else (Inr r, s1\<lparr>es_tasks := es_tasks s1 @ [xr_id r]\<rparr>))"

text \<open>\<open>_execute_run\<close>: \<open>exec\<close> is what running and judging one case gives, or the exception, which becomes an error
  result. The entries of an earlier summary win over the new ones. When the summary raises, the exception leaves the
  \<open>finally\<close> block and nothing is saved.\<close>

definition error_result :: "eval_case \<Rightarrow> case_result" where
  "error_result c = \<lparr>cs_case = ec_id c, cs_task = ec_task c, cs_verdict = ERROR, cs_score = 0,
     cs_verifiers = [mk_verdict ''execution'' ERROR 0], cs_outcome = None, cs_usage = None\<rparr>"

definition case_results :: "(eval_case \<Rightarrow> case_result option) \<Rightarrow> eval_case list \<Rightarrow> case_result list" where
  "case_results exec cs = map (\<lambda>c. or_else (exec c) (error_result c)) cs"

definition svc_execute_run :: "((uuid \<Rightarrow> time) \<Rightarrow> eval_run \<Rightarrow> 's \<Rightarrow> db_error + 's) \<Rightarrow> (uuid \<Rightarrow> 's \<Rightarrow> eval_run option)
    \<Rightarrow> (uuid \<Rightarrow> 's \<Rightarrow> eval_dataset option) \<Rightarrow> (nat \<Rightarrow> rat \<Rightarrow> rat) \<Rightarrow> (eval_case \<Rightarrow> case_result option) \<Rightarrow> (uuid \<Rightarrow> time) \<Rightarrow> time
    \<Rightarrow> uuid \<Rightarrow> 's evs \<Rightarrow> (service_error + eval_run) \<times> 's evs" where
  "svc_execute_run save load get_ds rnd exec stamp now rid s =
     (case load rid (es_store s) of
        None \<Rightarrow> (Inl (ServiceError ''EVAL_RUN_NOT_FOUND'' 404), s)
      | Some r \<Rightarrow> (case get_ds (xr_dataset r) (es_store s) of
            None \<Rightarrow> (Inl (ServiceError ''EVAL_RUN_NOT_FOUND'' 404), s)
          | Some x \<Rightarrow>
              (let rs = case_results exec (ds_cases x) in
               case summarize rnd rs of
                 None \<Rightarrow> (Inl (Raised TypeError), s)
               | Some sm \<Rightarrow>
                   (let r' = r\<lparr>xr_results := rs, xr_status := EvCompleted, xr_completed_at := Some now,
                       xr_summary := Some (or_else (xr_summary r) sm)\<rparr> in
                    case save stamp r' (es_store s) of
                      Inl e \<Rightarrow> (Inl (Raised e), s)
                    | Inr st \<Rightarrow> (Inr r', s\<lparr>es_store := st\<rparr>)))))"

text \<open>\<open>_recover_stale_runs\<close> over the listed runs.\<close>

fun recover_stale_runs :: "((uuid \<Rightarrow> time) \<Rightarrow> eval_run \<Rightarrow> 's \<Rightarrow> db_error + 's) \<Rightarrow> (uuid \<Rightarrow> time) \<Rightarrow> time \<Rightarrow> eval_run list \<Rightarrow> 's \<Rightarrow> db_error + (nat \<times> 's)" where
  "recover_stale_runs save stamp now [] s = Inr (0, s)"
| "recover_stale_runs save stamp now (r # rs) s =
     (if xr_status r \<noteq> EvRunning then recover_stale_runs save stamp now rs s
      else case save stamp (r\<lparr>xr_status := EvFailed, xr_completed_at := Some (or_else (xr_completed_at r) now),
             xr_error := Some (''EVAL_PROCESS_RESTARTED'', ''eval run was interrupted by a process restart'')\<rparr>) s of
        Inl e \<Rightarrow> Inl e
      | Inr s1 \<Rightarrow> map_sum id (map_prod Suc id) (recover_stale_runs save stamp now rs s1))"

text \<open>\<open>run_dataset\<close> executes in the foreground what \<open>start_run\<close> schedules.\<close>

definition svc_run_dataset :: "((uuid \<Rightarrow> time) \<Rightarrow> eval_run \<Rightarrow> 's \<Rightarrow> db_error + 's) \<Rightarrow> (uuid \<Rightarrow> 's \<Rightarrow> eval_run option)
    \<Rightarrow> (uuid \<Rightarrow> 's \<Rightarrow> eval_dataset option) \<Rightarrow> (obj \<Rightarrow> string) \<Rightarrow> (nat \<Rightarrow> rat \<Rightarrow> rat) \<Rightarrow> (eval_case \<Rightarrow> case_result option)
    \<Rightarrow> (uuid \<Rightarrow> time) \<Rightarrow> uuid \<Rightarrow> time \<Rightarrow> uuid \<Rightarrow> (string \<times> string) list \<Rightarrow> string option \<Rightarrow> 's evs \<Rightarrow> (service_error + eval_run) \<times> 's evs" where
  "svc_run_dataset save load get_ds digest rnd exec stamp rid now dsid fp key s =
     (case svc_create_run save load get_ds digest stamp rid now dsid fp key s of
        (Inl e, s1) \<Rightarrow> (Inl e, s1)
      | (Inr r, s1) \<Rightarrow> if xr_status r \<noteq> EvRunning then (Inr r, s1)
                       else svc_execute_run save load get_ds rnd exec stamp now (xr_id r) s1)"

definition svc_add_case :: "(eval_case \<Rightarrow> 's \<Rightarrow> db_error + 's) \<Rightarrow> (uuid \<Rightarrow> 's \<Rightarrow> eval_dataset option) \<Rightarrow> eval_case \<Rightarrow> 's evs
    \<Rightarrow> (service_error + eval_case) \<times> 's evs" where
  "svc_add_case add get_ds c s = (case get_ds (ec_dataset c) (es_store s) of
       None \<Rightarrow> (Inl (ServiceError ''EVAL_DATASET_NOT_FOUND'' 404), s)
     | Some _ \<Rightarrow> (case add c (es_store s) of Inl e \<Rightarrow> (Inl (Raised e), s) | Inr st \<Rightarrow> (Inr c, s\<lparr>es_store := st\<rparr>)))"

text \<open>
  \<open>_run_case\<close>. The world \<open>'w\<close> holds the workspaces, sessions and conversations: \<open>clone\<close> is the driver's
  \<open>create_from_version\<close>, \<open>delete\<close> its best-effort \<open>delete_workspace\<close>, and \<open>talk\<close> creates the session and the conversation in the
  clone, waits for its end and collects the outcome, or raises. A usage that is not an object is refused by the
  model of the result.
\<close>

definition judge_case :: "(json \<Rightarrow> string) \<Rightarrow> (string \<Rightarrow> string \<Rightarrow> json \<Rightarrow> shell_result) \<Rightarrow> eval_case \<Rightarrow> case_outcome \<Rightarrow> case_result option" where
  "judge_case str shell c oc =
     (let vs = verify_case str shell oc (ec_verifiers c); (v, sc) = synthesize vs;
          res = (\<lambda>u. \<lparr>cs_case = ec_id c, cs_task = ec_task c, cs_verdict = v, cs_score = sc, cs_verifiers = vs,
                      cs_outcome = Some oc, cs_usage = u\<rparr>) in
      case outcome_usage oc of
        Some None \<Rightarrow> Some (res None)
      | Some (Some (JObj u)) \<Rightarrow> Some (res (Some u))
      | _ \<Rightarrow> None)"

definition run_case :: "(uuid \<Rightarrow> string \<Rightarrow> 'w \<Rightarrow> (uuid \<times> string) option \<times> 'w) \<Rightarrow> (uuid \<Rightarrow> 'w \<Rightarrow> 'w)
    \<Rightarrow> (uuid \<Rightarrow> string \<Rightarrow> eval_case \<Rightarrow> 'w \<Rightarrow> case_outcome option \<times> 'w)
    \<Rightarrow> (json \<Rightarrow> string) \<Rightarrow> (string \<Rightarrow> string \<Rightarrow> json \<Rightarrow> shell_result) \<Rightarrow> eval_dataset \<Rightarrow> eval_case \<Rightarrow> 'w \<Rightarrow> case_result option \<times> 'w" where
  "run_case clone delete talk str shell x c w =
     (case clone (ds_workspace x) (ds_baseline x) w of
        (None, w1) \<Rightarrow> (None, w1)
      | (Some (wid, path), w1) \<Rightarrow> (case talk wid path c w1 of
            (None, w2) \<Rightarrow> (None, delete wid w2)
          | (Some oc, w2) \<Rightarrow> (judge_case str shell c oc, delete wid w2)))"

text \<open>\<open>report\<close>: one line per result, with the counts of its events.\<close>

record report_case =
  rp_case :: uuid
  rp_verdict :: verdict_status
  rp_score :: rat
  rp_duration :: "rat option"
  rp_tool_calls :: nat
  rp_interactions :: nat
  rp_usage :: "obj option"

definition report_line :: "case_result \<Rightarrow> report_case" where
  "report_line r = (let evs = (case cs_outcome r of None \<Rightarrow> [] | Some oc \<Rightarrow> oc_events oc) in
     \<lparr>rp_case = cs_case r, rp_verdict = cs_verdict r, rp_score = cs_score r, rp_duration = map_option oc_duration (cs_outcome r),
      rp_tool_calls = length (filter (\<lambda>e. ev_type e = ''tool.call'') evs),
      rp_interactions = length (filter (\<lambda>e. ev_type e = ''interaction.requested'') evs), rp_usage = cs_usage r\<rparr>)"

definition svc_report :: "(uuid \<Rightarrow> 's \<Rightarrow> eval_run option) \<Rightarrow> uuid \<Rightarrow> 's evs \<Rightarrow> service_error + report_case list" where
  "svc_report load rid s = (case load rid (es_store s) of
       None \<Rightarrow> Inl (ServiceError ''EVAL_RUN_NOT_FOUND'' 404)
     | Some r \<Rightarrow> Inr (map report_line (xr_results r)))"

definition svc_compare :: "(uuid \<Rightarrow> 's \<Rightarrow> eval_run option) \<Rightarrow> uuid \<Rightarrow> uuid \<Rightarrow> 's evs \<Rightarrow> service_error + (bool \<times> comparison)" where
  "svc_compare load bid cid s = (case (load bid (es_store s), load cid (es_store s)) of
       (Some b, Some c) \<Rightarrow> Inr (xr_fingerprint b = xr_fingerprint c, compare_runs (xr_results b) (xr_results c))
     | _ \<Rightarrow> Inl (ServiceError ''EVAL_RUN_NOT_FOUND'' 404))"

section \<open>Facts over the port\<close>

lemma judged_case: "judge_case str shell c oc = Some r \<Longrightarrow> cs_case r = ec_id c"
  by (auto simp: judge_case_def Let_def split: option.splits json.splits prod.splits)

lemma run_case_of: "fst (run_case clone delete talk str shell x c w) = Some r \<Longrightarrow> cs_case r = ec_id c"
  by (auto simp: run_case_def judged_case split: option.splits prod.splits)

lemma case_results_ids:
  assumes "\<And>c r. c \<in> set cs \<Longrightarrow> exec c = Some r \<Longrightarrow> cs_case r = ec_id c"
  shows "map cs_case (case_results exec cs) = map ec_id cs"
  using assms by (auto simp: case_results_def or_else_def error_result_def split: option.split)

abbreviation failed_run :: "time \<Rightarrow> eval_run \<Rightarrow> eval_run" where
  "failed_run now r \<equiv> r\<lparr>xr_status := EvFailed, xr_completed_at := Some (or_else (xr_completed_at r) now),
     xr_error := Some (''EVAL_PROCESS_RESTARTED'', ''eval run was interrupted by a process restart'')\<rparr>"

lemma same_run_status: "same_run a b \<Longrightarrow> xr_status a = xr_status b"
  by (cases a; cases b) (simp add: same_run_def)

context eval_store
begin

lemma execute_saves:
  assumes "inv (es_store s)" "get_run rid (es_store s) = Some r" "xr_id r = rid" "get_dataset (xr_dataset r) (es_store s) = Some x"
    "distinct (map ec_id (ds_cases x))" "\<And>c q. exec c = Some q \<Longrightarrow> cs_case q = ec_id c"
    "summarize rnd (case_results exec (ds_cases x)) = Some sm"
  shows "\<exists>r' q s'. svc_execute_run save_run get_run get_dataset rnd exec stamp now rid s = (Inr r', s')
    \<and> xr_status r' = EvCompleted \<and> xr_results r' = case_results exec (ds_cases x)
    \<and> get_run rid (es_store s') = Some q \<and> same_run q r' \<and> inv (es_store s')"
proof -
  let ?r = "r\<lparr>xr_results := case_results exec (ds_cases x), xr_status := EvCompleted, xr_completed_at := Some now,
      xr_summary := Some (or_else (xr_summary r) sm)\<rparr>"
  have c: "clean_run ?r" using assms(5,6) by (simp add: clean_run_def case_results_ids)
  from save_defined [of stamp ?r "es_store s"] obtain st where st: "save_run stamp ?r (es_store s) = Inr st" by auto
  have "\<exists>q. get_run (xr_id ?r) st = Some q \<and> same_run q ?r"
    by (rule get_saved [OF assms(1) st c]) (use assms(2,3) in \<open>simp add: same_identity_def\<close>)
  moreover have "svc_execute_run save_run get_run get_dataset rnd exec stamp now rid s = (Inr ?r, s\<lparr>es_store := st\<rparr>)"
    using assms(2-4,7) st by (simp add: svc_execute_run_def Let_def)
  ultimately show ?thesis using save_inv [OF assms(1) st c] assms(3) by auto
qed

lemma recovery:
  assumes "inv s" "distinct (map xr_id rs)" "\<And>r. r \<in> set rs \<Longrightarrow> get_run (xr_id r) s = Some r \<and> clean_run r"
  shows "\<exists>s'. recover_stale_runs save_run stamp now rs s = Inr (length (filter (\<lambda>r. xr_status r = EvRunning) rs), s')
    \<and> (\<forall>r\<in>set rs. \<exists>q. get_run (xr_id r) s' = Some q \<and> same_run q (if xr_status r = EvRunning then failed_run now r else r))
    \<and> (\<forall>i. i \<notin> xr_id ` set rs \<longrightarrow> get_run i s' = get_run i s)"
  using assms
proof (induction rs arbitrary: s)
  case Nil
  then show ?case by simp
next
  case (Cons r rs)
  have own: "get_run (xr_id r) s = Some r" "clean_run r" using Cons.prems(3) by auto
  show ?case
  proof (cases "xr_status r = EvRunning")
    case False
    from Cons.IH [of s] Cons.prems obtain s' where s': "recover_stale_runs save_run stamp now rs s = Inr (length (filter (\<lambda>r. xr_status r = EvRunning) rs), s')"
      "\<forall>r\<in>set rs. \<exists>q. get_run (xr_id r) s' = Some q \<and> same_run q (if xr_status r = EvRunning then failed_run now r else r)"
      "\<forall>i. i \<notin> xr_id ` set rs \<longrightarrow> get_run i s' = get_run i s" by auto
    have "get_run (xr_id r) s' = Some r" using s'(3) own(1) Cons.prems(2) by simp
    then show ?thesis using s' False by (simp add: same_run_def)
  next
    case True
    let ?f = "failed_run now r"
    have cl: "clean_run ?f" using own(2) by (simp add: clean_run_def)
    from save_defined [of stamp ?f s] obtain s1 where s1: "save_run stamp ?f s = Inr s1" by auto
    have saved: "\<exists>q. get_run (xr_id ?f) s1 = Some q \<and> same_run q ?f"
      by (rule get_saved [OF Cons.prems(1) s1 cl]) (use own(1) in \<open>simp add: same_identity_def\<close>)
    have other: "get_run (xr_id q) s1 = Some q \<and> clean_run q" if "q \<in> set rs" for q
    proof -
      have "xr_id q \<in> xr_id ` set rs" using that by simp
      then have "xr_id q \<noteq> xr_id ?f" using Cons.prems(2) by auto
      then show ?thesis using that Cons.prems(3) get_other [OF s1, of "xr_id q"] by simp
    qed
    from Cons.IH [OF save_inv [OF Cons.prems(1) s1 cl]] Cons.prems(2) other
    obtain s' where s': "recover_stale_runs save_run stamp now rs s1 = Inr (length (filter (\<lambda>r. xr_status r = EvRunning) rs), s')"
      "\<forall>r\<in>set rs. \<exists>q. get_run (xr_id r) s' = Some q \<and> same_run q (if xr_status r = EvRunning then failed_run now r else r)"
      "\<forall>i. i \<notin> xr_id ` set rs \<longrightarrow> get_run i s' = get_run i s1" by auto
    have "get_run (xr_id r) s' = get_run (xr_id r) s1" using s'(3) Cons.prems(2) by simp
    moreover have "\<forall>i. i \<notin> xr_id ` set (r # rs) \<longrightarrow> get_run i s' = get_run i s" using s'(3) get_other [OF s1] by simp
    ultimately show ?thesis using s'(1,2) s1 saved True by simp
  qed
qed

end


section \<open>The service over the relational store\<close>

lemma listed_run:
  assumes "sql_inv s" "r \<in> set (sql_list_runs n off s)"
  shows "sql_get_run (xr_id r) s = Some r \<and> clean_run r"
proof -
  from assms(2) obtain row where row: "row \<in> set (se_runs s)" "r = run_from_row s row"
    by (auto simp: sql_list_runs_def page_def dest!: in_set_takeD in_set_dropD)
  have "xr_id r = xr_id row" by (simp add: row(2) run_from_row_def)
  moreover have "db_get xr_id (xr_id row) (se_runs s) = Some row" 
    using assms(1) row(1) by (simp add: sql_inv_def db_get_iff)
  moreover have "clean_run r"
  proof -
    let ?own = "filter (\<lambda>y. rs_run y = xr_id row) (se_results s)"
    have "distinct (map result_key ?own)" using assms(1) by (simp add: sql_inv_def keyed_def distinct_map_filter)
    moreover have "map result_key ?own = map (Pair (xr_id row)) (map cs_case (map rs_result ?own))" by simp
    ultimately have "distinct (map cs_case (map rs_result ?own))" by (metis distinct_map)
    moreover have "mset (map cs_case (map rs_result (sort_key rs_created_at ?own))) = mset (map cs_case (map rs_result ?own))" by (simp add: mset_map)
    ultimately show ?thesis by (metis clean_run_def mset_eq_imp_distinct_iff row(2) run_from_row_def eval_run.select_convs(5) eval_run.surjective eval_run.update_convs(5))
  qed
  ultimately show ?thesis by (simp add: sql_get_run_def row(2))
qed

lemma listed_ids:
  assumes "length (se_runs s) \<le> n"
  shows "mset (map xr_id (sql_list_runs n 0 s)) = mset (map xr_id (se_runs s))"
  using assms by (simp add: sql_list_runs_def page_def comp_def run_from_row_def mset_map)

lemma sql_get_run_id: "sql_get_run i s = Some r \<Longrightarrow> i \<in> xr_id ` set (se_runs s) \<and> xr_id r = i"
  by (auto simp: sql_get_run_def run_from_row_def dest: db_get_SomeD)

definition stale_run :: eval_run where
  "stale_run = \<lparr>xr_id = ''r'', xr_dataset = ''d'', xr_status = EvRunning, xr_fingerprint = [],
     xr_results = [], xr_summary = None, xr_error = None, xr_created_at = 1, xr_completed_at = None\<rparr>"

definition waiting_run :: eval_run where
  "waiting_run = \<lparr>xr_id = ''p'', xr_dataset = ''d'', xr_status = EvPending, xr_fingerprint = [],
     xr_results = [], xr_summary = None, xr_error = None, xr_created_at = 2, xr_completed_at = None\<rparr>"

definition stale_store :: sql_evals where
  "stale_store = \<lparr>se_datasets = [], se_cases = [], se_runs = [waiting_run, stale_run], se_results = []\<rparr>"

lemma listed_distinct:
  assumes "sql_inv s"
  shows "distinct (map xr_id (sql_list_runs n off s))"
proof -
  have "mset (map xr_id (sort_key xr_created_at (se_runs s))) = mset (map xr_id (se_runs s))" by (simp add: mset_map)
  then have "distinct (map xr_id (sort_key xr_created_at (se_runs s)))"
    using assms by (metis keyed_def mset_eq_imp_distinct_iff sql_inv_def)
  then show ?thesis
    by (simp add: sql_list_runs_def page_def comp_def run_from_row_def take_map drop_map flip: take_map drop_map)
qed

text \<open>C40. When the evaluation process restarts it reads the oldest ten thousand runs, counts those a previous process
  left \<open>running\<close> and marks each of them failed; the other runs it read, and every run it did not read, are as they
  were. So none is left \<open>running\<close> when there are at most ten thousand runs, and beyond that number a stale run stays
  \<open>running\<close>. The table of runs has one row per id.\<close>

theorem recovery_fails_stale_runs:
  assumes "sql_inv s"
  shows "let rs = sql_list_runs 10000 0 s in \<exists>s'. recover_stale_runs sql_save_run stamp now rs s
      = Inr (length (filter (\<lambda>r. xr_status r = EvRunning) rs), s')
    \<and> (\<forall>r\<in>set rs. \<exists>q. sql_get_run (xr_id r) s' = Some q \<and> same_run q (if xr_status r = EvRunning then failed_run now r else r))
    \<and> (\<forall>i. i \<notin> xr_id ` set rs \<longrightarrow> sql_get_run i s' = sql_get_run i s)
    \<and> (length (se_runs s) \<le> 10000 \<longrightarrow> (\<forall>i r. sql_get_run i s' = Some r \<longrightarrow> xr_status r \<noteq> EvRunning))"
proof -
  let ?rs = "sql_list_runs 10000 0 s"
  from sql_eval.recovery [OF assms listed_distinct [OF assms] listed_run [OF assms, where n = 10000 and off = 0]]
  obtain s' where s': "recover_stale_runs sql_save_run stamp now ?rs s = Inr (length (filter (\<lambda>r. xr_status r = EvRunning) ?rs), s')"
    "\<forall>r\<in>set ?rs. \<exists>q. sql_get_run (xr_id r) s' = Some q \<and> same_run q (if xr_status r = EvRunning then failed_run now r else r)"
    "\<forall>i. i \<notin> xr_id ` set ?rs \<longrightarrow> sql_get_run i s' = sql_get_run i s" by blast
  have "xr_status r \<noteq> EvRunning" if few: "length (se_runs s) \<le> 10000" and r: "sql_get_run i s' = Some r" for i r
  proof (cases "i \<in> xr_id ` set ?rs")
    case True
    then obtain q where q: "q \<in> set ?rs" "xr_id q = i" by auto
    with s'(2) r have "same_run r (if xr_status q = EvRunning then failed_run now q else q)" by force
    then show ?thesis using same_run_status by (fastforce split: if_splits)
  next
    case False
    moreover have "xr_id ` set ?rs = xr_id ` set (se_runs s)" using listed_ids [OF few] by (metis list.set_map mset_eq_setD)
    ultimately show ?thesis using s'(3) r sql_get_run_id by metis
  qed
  with s' show ?thesis unfolding Let_def by blast
qed

theorem recovery_fails_stale_runs_witness:
  "\<exists>s'. recover_stale_runs sql_save_run (\<lambda>_. 0) 9 (sql_list_runs 10000 0 stale_store) stale_store = Inr (1, s')
    \<and> (\<exists>q. sql_get_run ''r'' s' = Some q \<and> xr_status q = EvFailed) \<and> (\<exists>q. sql_get_run ''p'' s' = Some q \<and> xr_status q = EvPending)"
proof -
  have inv: "sql_inv stale_store" by (simp add: sql_inv_def keyed_def stale_store_def stale_run_def waiting_run_def)
  have rs: "sql_list_runs 10000 0 stale_store = [stale_run, waiting_run]"
    by (simp add: sql_list_runs_def page_def run_from_row_def stale_store_def stale_run_def waiting_run_def)
  from recovery_fails_stale_runs [OF inv, of "\<lambda>_. 0" 9] obtain s' where s': 
    "recover_stale_runs sql_save_run (\<lambda>_. 0) 9 [stale_run, waiting_run] stale_store = Inr (1, s')"
    "\<forall>r\<in>{stale_run, waiting_run}. \<exists>q. sql_get_run (xr_id r) s' = Some q \<and> same_run q (if xr_status r = EvRunning then failed_run 9 r else r)"
    unfolding rs Let_def by (auto simp: stale_run_def waiting_run_def)
  from s'(2) obtain q p where "sql_get_run ''r'' s' = Some q" "xr_status q = EvFailed"
    "sql_get_run ''p'' s' = Some p" "xr_status p = EvPending"
    using same_run_status by (fastforce simp: stale_run_def waiting_run_def)
  with s'(1) rs show ?thesis by auto
qed

text \<open>Executing a run over the relational store judges each case of its dataset, in a clone that is deleted
  again, and saves the run as \<open>completed\<close> with one result per case: the verdict of the verifiers, or an \<open>ERROR\<close> result
  when running the case raised. A case that fails takes no other case with it. The hypothesis on the summary is
  that the token counts of the results are numbers.\<close>

theorem executed_run_is_recorded:
  assumes "sql_inv (es_store s)" "sql_get_run rid (es_store s) = Some r" "sql_get_dataset (xr_dataset r) (es_store s) = Some x"
    "distinct (map ec_id (ds_cases x))"
    "summarize rnd (case_results (\<lambda>c. fst (run_case clone delete talk str shell x c (w c))) (ds_cases x)) \<noteq> None"
  shows "\<exists>r' q s'. svc_execute_run sql_save_run sql_get_run sql_get_dataset rnd
        (\<lambda>c. fst (run_case clone delete talk str shell x c (w c))) stamp now rid s = (Inr r', s')
    \<and> sql_get_run rid (es_store s') = Some q \<and> same_run q r' \<and> xr_status q = EvCompleted \<and> sql_inv (es_store s')
    \<and> map cs_case (xr_results r') = map ec_id (ds_cases x)
    \<and> (\<forall>c\<in>set (ds_cases x). \<exists>y\<in>set (xr_results q). cs_case y = ec_id c
        \<and> y = (case clone (ds_workspace x) (ds_baseline x) (w c) of
             (Some (wid, path), w1) \<Rightarrow> or_else (Option.bind (fst (talk wid path c w1)) (judge_case str shell c)) (error_result c)
           | _ \<Rightarrow> error_result c))"
proof -
  let ?exec = "\<lambda>c. fst (run_case clone delete talk str shell x c (w c))"
  have ids: "\<And>c q. ?exec c = Some q \<Longrightarrow> cs_case q = ec_id c" by (rule run_case_of)
  have rid: "xr_id r = rid" using sql_get_run_id [OF assms(2)] by simp
  from assms(5) obtain sm where sm: "summarize rnd (case_results ?exec (ds_cases x)) = Some sm" by auto
  from sql_eval.execute_saves [OF assms(1,2) rid assms(3,4) ids sm, where stamp = stamp and now = now]
  obtain r' q s' where r': "svc_execute_run sql_save_run sql_get_run sql_get_dataset rnd ?exec stamp now rid s = (Inr r', s')"
    "xr_status r' = EvCompleted" "xr_results r' = case_results ?exec (ds_cases x)"
    "sql_get_run rid (es_store s') = Some q" "same_run q r'" "sql_inv (es_store s')" by blast
  have mem: "set (xr_results q) = set (case_results ?exec (ds_cases x))"
    using r'(3,5) by (metis mset_eq_setD same_run_def)
  have body: "or_else (?exec c) (error_result c) = (case clone (ds_workspace x) (ds_baseline x) (w c) of
       (Some (wid, path), w1) \<Rightarrow> or_else (Option.bind (fst (talk wid path c w1)) (judge_case str shell c)) (error_result c)
     | _ \<Rightarrow> error_result c)" for c
    by (auto simp: run_case_def or_else_def split: option.splits prod.splits)
  have "or_else (?exec c) (error_result c) \<in> set (xr_results q) \<and> cs_case (or_else (?exec c) (error_result c)) = ec_id c"
    if "c \<in> set (ds_cases x)" for c
    using that ids by (auto simp: mem case_results_def or_else_def error_result_def split: option.split)
  then have "\<forall>c\<in>set (ds_cases x). \<exists>y\<in>set (xr_results q). cs_case y = ec_id c \<and> y = (case clone (ds_workspace x) (ds_baseline x) (w c) of
       (Some (wid, path), w1) \<Rightarrow> or_else (Option.bind (fst (talk wid path c w1)) (judge_case str shell c)) (error_result c)
     | _ \<Rightarrow> error_result c)" unfolding body [symmetric] by blast
  moreover have "map cs_case (xr_results r') = map ec_id (ds_cases x)" unfolding r'(3) by (rule case_results_ids) (rule ids)
  moreover have "xr_status q = EvCompleted" using same_run_status [OF r'(5)] r'(2) by simp
  ultimately show ?thesis using r'(1,4-6) by blast
qed

theorem executed_run_is_recorded_witness:
  "\<exists>r' q s'. svc_execute_run sql_save_run sql_get_run sql_get_dataset (\<lambda>_ x. x)
       (\<lambda>c. fst (run_case (\<lambda>_ _ w. (Some (''clone'', ''/tmp''), w)) (\<lambda>_ w. w) (\<lambda>_ _ _ w. (None, w)) (\<lambda>_. []) (\<lambda>_ _ _. ShellRaised)
          \<lparr>ds_id = ''d'', ds_name = [], ds_description = [], ds_workspace = ''w'', ds_baseline = ''v1'', ds_labels = [],
            ds_cases = [\<lparr>ec_id = ''c'', ec_dataset = ''d'', ec_task = ''t'', ec_tags = [], ec_verifiers = [], ec_created_at = 1\<rparr>], ds_created_at = 0\<rparr>
          c ())) (\<lambda>_. 3) 4 ''r''
       \<lparr>es_store = \<lparr>se_datasets = [\<lparr>ds_id = ''d'', ds_name = [], ds_description = [], ds_workspace = ''w'', ds_baseline = ''v1'', ds_labels = [],
            ds_cases = [], ds_created_at = 0\<rparr>],
          se_cases = [\<lparr>ec_id = ''c'', ec_dataset = ''d'', ec_task = ''t'', ec_tags = [], ec_verifiers = [], ec_created_at = 1\<rparr>],
          se_runs = [\<lparr>xr_id = ''r'', xr_dataset = ''d'', xr_status = EvRunning, xr_fingerprint = [],
            xr_results = [], xr_summary = None, xr_error = None, xr_created_at = 1, xr_completed_at = None\<rparr>], se_results = []\<rparr>,
        es_db = empty_db, es_tasks = []\<rparr> = (Inr r', s')
     \<and> sql_get_run ''r'' (es_store s') = Some q \<and> xr_status q = EvCompleted \<and> map cs_case (xr_results r') = [''c'']"
  (is "\<exists>r' q s'. svc_execute_run _ _ _ ?rnd (\<lambda>c. fst (run_case ?clone ?del ?talk ?str ?sh ?x c ())) ?stamp ?now ?rid ?s = _ \<and> _")
proof -
  have inv: "sql_inv (es_store ?s)" by (simp add: sql_inv_def keyed_def)
  have run: "sql_get_run ?rid (es_store ?s) = Some \<lparr>xr_id = ''r'', xr_dataset = ''d'', xr_status = EvRunning, xr_fingerprint = [],
            xr_results = [], xr_summary = None, xr_error = None, xr_created_at = 1, xr_completed_at = None\<rparr>"
    by (simp add: sql_get_run_def db_get_def run_from_row_def)
  have ds: "sql_get_dataset (xr_dataset \<lparr>xr_id = ''r'', xr_dataset = ''d'', xr_status = EvRunning, xr_fingerprint = [],
            xr_results = [], xr_summary = None, xr_error = None, xr_created_at = 1, xr_completed_at = None\<rparr>) (es_store ?s) = Some ?x"
    by (simp add: sql_get_dataset_def db_get_def dataset_from_row_def)
  have "summarize ?rnd (case_results (\<lambda>c. fst (run_case ?clone ?del ?talk ?str ?sh ?x c ())) (ds_cases ?x)) \<noteq> None"
    by (simp add: case_results_def run_case_def or_else_def error_result_def summarize_def Let_def)
  from executed_run_is_recorded [OF inv run ds _ this, of ?stamp ?now] show ?thesis by auto
qed

text \<open>A replay of \<open>start_run\<close> that finds the run still \<open>running\<close> schedules its execution once more.\<close>

lemma start_run_replay_schedules:
  assumes "get_ds dsid (es_store s) \<noteq> None" "key = Some k" "k \<noteq> []"
    "find_idempotent (es_db s) ''eval_run'' key
       (digest [(''dataset_id'', JStr dsid), (''fingerprint'', JObj (map (\<lambda>(k, v). (k, JStr v)) fp))]) = Inr (Some i)"
    "load i (es_store s) = Some r" "xr_status r = EvRunning"
  shows "svc_start_run save load get_ds digest stamp rid now dsid fp key s = (Inr r, s\<lparr>es_tasks := es_tasks s @ [xr_id r]\<rparr>)"
  using assms by (auto simp: svc_start_run_def svc_create_run_def eval_idempotent_def str_true_def)

text \<open>With an empty key the created dataset is returned and not stored.\<close>

lemma empty_key_not_stored:
  "ds_baseline x \<in> set (versions (ds_workspace x)) \<Longrightarrow>
     svc_create_dataset create load digest versions now x (Some []) s = (Inr x, s)"
  by (simp add: svc_create_dataset_def eval_idempotent_def str_true_def)

end
