(* ===== verification/Runner_Client.thy ===== *)
theory Runner_Client
  imports Activities Runner_App
begin

text \<open>
  The control plane's client of a runner, \<open>adapters/runner/http.py\<close>, and the event stream the runner serves to it
  (\<open>stream_events\<close> in \<open>session_runner/serving/http/app.py\<close>). While a run is posted, a second coroutine subscribes to the
  stream and hands each event to the sink; when the post returns, the events of its reply that the subscription did not hand on
  follow. The sink may renumber an envelope: it answers with the sequence number the envelope has afterwards, or raises.

  The subscription is a list of attempts, each a refusal or a connection that serves lines for a cursor and then ends or breaks;
  where the list ends the subscription is stopped or cancelled. The HTTP peer, \<open>json.loads\<close> and the validation of an
  envelope are parameters. A sink runs to its end before a cancellation takes effect, since it does not suspend.
\<close>

section \<open>Endpoints\<close>

record client =
  rc_base_url :: string
  rc_run_urls :: "(uuid \<times> string) list"

definition new_client :: "string \<Rightarrow> client" where
  "new_client base = \<lparr>rc_base_url = rstrip_slash base, rc_run_urls = []\<rparr>"

definition register_run_endpoint :: "uuid \<Rightarrow> string option \<Rightarrow> client \<Rightarrow> client" where
  "register_run_endpoint rid u k = (if str_true u
     then k\<lparr>rc_run_urls := AList.update rid (rstrip_slash (the u)) (rc_run_urls k)\<rparr> else k)"

definition unregister_run_endpoint :: "uuid \<Rightarrow> client \<Rightarrow> client" where
  "unregister_run_endpoint rid k = k\<lparr>rc_run_urls := AList.delete rid (rc_run_urls k)\<rparr>"

definition client_url :: "uuid option \<Rightarrow> string \<Rightarrow> client \<Rightarrow> string" where
  "client_url rid path k = (case rid of None \<Rightarrow> rc_base_url k | Some r \<Rightarrow> or_else (map_of (rc_run_urls k) r) (rc_base_url k)) @ path"

section \<open>Requests\<close>

text \<open>A peer answers a request to a URL with JSON, or the client raises (transport error or status).\<close>

datatype http_call = Get string | Post string json

type_synonym 'w peer = "http_call \<Rightarrow> 'w \<Rightarrow> (string + json) \<times> 'w"

definition TERMINAL_RUN_STATUSES :: "string list" where
  "TERMINAL_RUN_STATUSES = [''COMPLETED'', ''FAILED'', ''CANCELLED'', ''LOST'']"

definition reply_terminal :: "json \<Rightarrow> bool" where
  "reply_terminal j = (case j of JObj p \<Rightarrow> (case obj_get p ''status'' JNull of JStr s \<Rightarrow> s \<in> set TERMINAL_RUN_STATUSES | _ \<Rightarrow> False) | _ \<Rightarrow> False)"

definition forget_ended :: "uuid \<Rightarrow> json \<Rightarrow> client \<Rightarrow> client" where
  "forget_ended rid j k = (if reply_terminal j then unregister_run_endpoint rid k else k)"

definition client_health :: "'w peer \<Rightarrow> uuid option \<Rightarrow> client \<Rightarrow> 'w \<Rightarrow> (string + json) \<times> 'w" where
  "client_health peer rid k w = (case peer (Get (client_url rid ''/live'' k)) w of
       (Inl e, w1) \<Rightarrow> (Inl e, w1)
     | (Inr live, w1) \<Rightarrow> (case peer (Get (client_url rid ''/ready'' k)) w1 of
           (Inl e, w2) \<Rightarrow> (Inl e, w2)
         | (Inr ready, w2) \<Rightarrow> (Inr (JObj [(''live'', live), (''ready'', ready)]), w2)))"

definition require_ready :: "'w peer \<Rightarrow> uuid \<Rightarrow> client \<Rightarrow> 'w \<Rightarrow> string option \<times> 'w" where
  "require_ready peer rid k w = (case peer (Get (client_url (Some rid) ''/ready'' k)) w of
       (Inl e, w1) \<Rightarrow> (Some (''session runner is not ready: '' @ e), w1)
     | (Inr _, w1) \<Rightarrow> (None, w1))"

definition run_command :: "'w peer \<Rightarrow> uuid \<Rightarrow> string \<Rightarrow> obj \<Rightarrow> client \<Rightarrow> 'w \<Rightarrow> (string + json) \<times> client \<times> 'w" where
  "run_command peer rid verb body k w = (case peer (Post (client_url (Some rid) (''/runs/'' @ rid @ verb) k) (JObj body)) w of
       (Inl e, w1) \<Rightarrow> (Inl e, k, w1)
     | (Inr j, w1) \<Rightarrow> (Inr j, forget_ended rid j k, w1))"

definition client_accept_input :: "'w peer \<Rightarrow> uuid \<Rightarrow> string \<Rightarrow> json \<Rightarrow> uuid option \<Rightarrow> client \<Rightarrow> 'w \<Rightarrow> (string + json) \<times> client \<times> 'w" where
  "client_accept_input peer rid iid v cmd k w = run_command peer rid ''/input''
     [(''interaction_id'', JStr iid), (''value'', v), (''command_id'', opt_json cmd)] k w"

definition client_accept_approval :: "'w peer \<Rightarrow> uuid \<Rightarrow> string \<Rightarrow> string \<Rightarrow> uuid option \<Rightarrow> client \<Rightarrow> 'w \<Rightarrow> (string + json) \<times> client \<times> 'w" where
  "client_accept_approval peer rid aid dec cmd k w = run_command peer rid ''/approval''
     [(''approval_id'', JStr aid), (''decision'', JStr dec), (''command_id'', opt_json cmd)] k w"

definition client_cancel :: "'w peer \<Rightarrow> uuid \<Rightarrow> uuid option \<Rightarrow> client \<Rightarrow> 'w \<Rightarrow> (string + json) \<times> client \<times> 'w" where
  "client_cancel peer rid cmd k w = run_command peer rid ''/cancel'' [(''command_id'', opt_json cmd)] k w"

definition client_checkpoint :: "'w peer \<Rightarrow> (json \<Rightarrow> checkpoint option) \<Rightarrow> uuid \<Rightarrow> string \<Rightarrow> client \<Rightarrow> 'w \<Rightarrow> (string + checkpoint) \<times> 'w" where
  "client_checkpoint peer validate rid reason k w =
     (case peer (Post (client_url (Some rid) (''/runs/'' @ rid @ ''/checkpoint'') k) (JObj [(''reason'', JStr reason)])) w of
        (Inl e, w1) \<Rightarrow> (Inl e, w1)
      | (Inr j, w1) \<Rightarrow> ((case validate j of None \<Rightarrow> Inl ''ValidationError'' | Some c \<Rightarrow> Inr c), w1))"

section \<open>The event stream\<close>

type_synonym 's sink = "event_envelope \<Rightarrow> 's \<Rightarrow> int option \<times> 's"

text \<open>One pass of the runner over its events: the lines sent and the cursor after it.\<close>

fun scan :: "(json \<Rightarrow> string) \<Rightarrow> (event_envelope \<Rightarrow> string) \<Rightarrow> int \<Rightarrow> event_envelope list \<Rightarrow> string list \<times> int" where
  "scan str dumps cursor [] = ([], cursor)"
| "scan str dumps cursor (e # es) = (if ev_seq e \<le> cursor then scan str dumps cursor es
     else (case scan str dumps (ev_seq e) es of (ls, c) \<Rightarrow> ((''id: '' @ str (JInt (ev_seq e))) # (''data: '' @ dumps e) # [] # ls, c)))"

text \<open>What a pass sees: the status, the events so far, and whether the wait after it times out.\<close>

record stream_pass =
  sp_status :: string
  sp_events :: "event_envelope list"
  sp_idle :: bool

fun stream_body :: "(json \<Rightarrow> string) \<Rightarrow> (event_envelope \<Rightarrow> string) \<Rightarrow> stream_pass list \<Rightarrow> int \<Rightarrow> string list \<times> bool" where
  "stream_body str dumps [] cursor = ([], False)"
| "stream_body str dumps (x # xs) cursor = (case scan str dumps cursor (sp_events x) of (ls, c) \<Rightarrow>
     if sp_status x \<in> set TERMINAL_STATUSES \<and> int (length (sp_events x)) \<le> c then (ls, True)
     else (case stream_body str dumps xs c of (ls', done) \<Rightarrow> (ls @ (if sp_idle x then ['': keepalive'', []] else []) @ ls', done)))"

section \<open>The subscription\<close>

definition parse_line :: "(string \<Rightarrow> json option) \<Rightarrow> (json \<Rightarrow> event_envelope option) \<Rightarrow> string \<Rightarrow> event_envelope option" where
  "parse_line loads validate l = Option.bind (loads (drop 6 l)) validate"

fun consume :: "(string \<Rightarrow> event_envelope option) \<Rightarrow> 's sink \<Rightarrow> string list \<Rightarrow> int \<Rightarrow> 's \<Rightarrow> bool \<times> int \<times> 's" where
  "consume parse snk [] p s = (True, p, s)"
| "consume parse snk (l # ls) p s =
     (if \<not> py_startswith l ''data: '' then consume parse snk ls p s
      else case parse l of
        None \<Rightarrow> (False, p, s)
      | Some e \<Rightarrow> if ev_seq e \<le> p then consume parse snk ls p s
                  else (case snk e s of
                      (None, s1) \<Rightarrow> (False, p, s1)
                    | (Some q, s1) \<Rightarrow> consume parse snk ls q s1))"

text \<open>An attempt is refused with a status, or serves lines for the cursor and ends (\<open>True\<close>) or breaks.\<close>

datatype attempt = Refused int | Served "int \<Rightarrow> string list \<times> bool"

text \<open>The flag of an attempt says that the grace period is over.\<close>

fun stream_run_events :: "(string \<Rightarrow> event_envelope option) \<Rightarrow> 's sink \<Rightarrow> (bool \<times> attempt) list \<Rightarrow> int \<Rightarrow> 's \<Rightarrow> int \<times> 's" where
  "stream_run_events parse snk [] p s = (p, s)"
| "stream_run_events parse snk ((late, Refused code) # as) p s =
     (if code = 404 \<and> late then (p, s) else stream_run_events parse snk as p s)"
| "stream_run_events parse snk ((late, Served f) # as) p s =
     (case consume parse snk (fst (f p)) p s of
        (ok, q, s1) \<Rightarrow> if ok \<and> snd (f p) then (q, s1) else stream_run_events parse snk as q s1)"

text \<open>The tail: the events of the reply the subscription did not hand on, up to the exception that ends it.\<close>

definition seq_of :: "json \<Rightarrow> int option" where
  "seq_of j = (case j of JObj p \<Rightarrow> (let v = obj_get p ''seq'' JNull in if truthy v then py_int v else Some 0) | _ \<Rightarrow> None)"

fun sink_tail :: "(json \<Rightarrow> event_envelope option) \<Rightarrow> 's sink \<Rightarrow> json list \<Rightarrow> int \<Rightarrow> 's \<Rightarrow> string option \<times> 's" where
  "sink_tail validate snk [] seen s = (None, s)"
| "sink_tail validate snk (j # js) seen s = (case seq_of j of
       None \<Rightarrow> (Some ''ValueError'', s)
     | Some n \<Rightarrow> if n \<le> seen then sink_tail validate snk js seen s
                 else (case validate j of
                     None \<Rightarrow> (Some ''ValidationError'', s)
                   | Some e \<Rightarrow> (case snk e s of
                         (None, s1) \<Rightarrow> (Some ''the sink raised'', s1)
                       | (Some _, s1) \<Rightarrow> sink_tail validate snk js n s1)))"

fun sink_all :: "(json \<Rightarrow> event_envelope option) \<Rightarrow> 's sink \<Rightarrow> json list \<Rightarrow> 's \<Rightarrow> string option \<times> 's" where
  "sink_all validate snk [] s = (None, s)"
| "sink_all validate snk (j # js) s = (case validate j of
       None \<Rightarrow> (Some ''ValidationError'', s)
     | Some e \<Rightarrow> (case snk e s of (None, s1) \<Rightarrow> (Some ''the sink raised'', s1) | (Some _, s1) \<Rightarrow> sink_all validate snk js s1))"

definition reply_events :: "json \<Rightarrow> json list" where
  "reply_events j = (case j of JObj p \<Rightarrow> (case obj_get p ''events'' (JArr []) of JArr es \<Rightarrow> es | _ \<Rightarrow> []) | _ \<Rightarrow> [])"

section \<open>A run\<close>

text \<open>\<open>attempts\<close> is what the subscription meets while the run is posted; \<open>s\<close> is the state the sink acts on.\<close>

definition client_run :: "'w peer \<Rightarrow> (string \<Rightarrow> json option) \<Rightarrow> (json \<Rightarrow> event_envelope option) \<Rightarrow> 's sink \<Rightarrow> (bool \<times> attempt) list
    \<Rightarrow> uuid \<Rightarrow> string option \<Rightarrow> json \<Rightarrow> client \<Rightarrow> 'w \<times> 's \<Rightarrow> (string + json) \<times> client \<times> 'w \<times> 's" where
  "client_run peer loads validate snk attempts rid url request k ws = (case ws of (w, s) \<Rightarrow>
     (let k1 = register_run_endpoint rid url k in
      case require_ready peer rid k1 w of
        (Some e, w1) \<Rightarrow> (Inl e, k1, w1, s)
      | (None, w1) \<Rightarrow> (case peer (Post (client_url (Some rid) ''/runs'' k1) request) w1 of (answer, w2) \<Rightarrow>
          (case stream_run_events (parse_line loads validate) snk attempts 0 s of (p, s1) \<Rightarrow>
            (case answer of
               Inl e \<Rightarrow> (Inl e, k1, w2, s1)
             | Inr j \<Rightarrow> (case sink_tail validate snk (reply_events j) p s1 of
                   (Some e, s2) \<Rightarrow> (Inl e, k1, w2, s2)
                 | (None, s2) \<Rightarrow> (Inr j, forget_ended rid j k1, w2, s2)))))))"

definition client_resume :: "'w peer \<Rightarrow> (json \<Rightarrow> event_envelope option) \<Rightarrow> 's sink \<Rightarrow> uuid \<Rightarrow> obj \<Rightarrow> json \<Rightarrow> uuid option \<Rightarrow> obj
    \<Rightarrow> client \<Rightarrow> 'w \<times> 's \<Rightarrow> (string + json) \<times> client \<times> 'w \<times> 's" where
  "client_resume peer validate snk rid cp v cmd extra k ws = (case ws of (w, s) \<Rightarrow>
     (let body = dict_update extra [(''checkpoint'', JObj cp), (''value'', v), (''command_id'', opt_json cmd)] in
      case peer (Post (client_url (Some rid) (''/runs/'' @ rid @ ''/resume'') k) (JObj body)) w of
        (Inl e, w1) \<Rightarrow> (Inl e, k, w1, s)
      | (Inr j, w1) \<Rightarrow> (case sink_all validate snk (reply_events j) s of
            (Some e, s1) \<Rightarrow> (Inl e, k, w1, s1)
          | (None, s1) \<Rightarrow> (Inr j, forget_ended rid j k, w1, s1))))"

section \<open>Delivery in order\<close>

text \<open>The events the data lines of a stream carry are the next ones after the first \<open>k\<close>.\<close>

definition serves :: "(string \<Rightarrow> event_envelope option) \<Rightarrow> event_envelope list \<Rightarrow> nat \<Rightarrow> string list \<Rightarrow> bool" where
  "serves parse evs k ls = (\<exists>m. map parse (filter (\<lambda>l. py_startswith l ''data: '') ls) = map Some (take m (drop k evs)))"

definition attempt_ok :: "(string \<Rightarrow> event_envelope option) \<Rightarrow> event_envelope list \<Rightarrow> attempt \<Rightarrow> bool" where
  "attempt_ok parse evs a = (case a of Refused _ \<Rightarrow> True | Served f \<Rightarrow> \<forall>k\<le>length evs. serves parse evs k (fst (f (int k))))"

definition reply_ok :: "(json \<Rightarrow> event_envelope option) \<Rightarrow> event_envelope list \<Rightarrow> json list \<Rightarrow> bool" where
  "reply_ok validate evs js = (map validate js = map Some evs \<and> map seq_of js = map (\<lambda>e. Some (ev_seq e)) evs)"

text \<open>
  A sink that takes a fixed list of events in order: \<open>stored k s\<close> says that \<open>s\<close> has the first \<open>k\<close> of them. It gives every event the
  number the runner gave it, and may raise without storing.
\<close>

locale ordered_sink =
  fixes snk :: "event_envelope \<Rightarrow> 's \<Rightarrow> int option \<times> 's"
    and stored :: "nat \<Rightarrow> 's \<Rightarrow> bool"
    and evs :: "event_envelope list"
  assumes numbered: "stored k s \<Longrightarrow> i < length evs \<Longrightarrow> ev_seq (evs ! i) = int i + 1"
    and stored_bound: "stored k s \<Longrightarrow> k \<le> length evs"
    and sink_stores: "stored k s \<Longrightarrow> k < length evs \<Longrightarrow> snk (evs ! k) s = (Some q, s') \<Longrightarrow> q = int k + 1 \<and> stored (Suc k) s'"
    and sink_raises: "stored k s \<Longrightarrow> k < length evs \<Longrightarrow> snk (evs ! k) s = (None, s') \<Longrightarrow> stored k s'"
begin

lemma consume_in_order:
  assumes "stored k s" "serves parse evs k ls" "consume parse snk ls (int k) s = (ok, p, s')"
  shows "\<exists>k'. p = int k' \<and> stored k' s'"
  using assms
proof (induction ls arbitrary: k s)
  case (Cons l ls)
  show ?case
  proof (cases "py_startswith l ''data: ''")
    case True
    from Cons.prems(2) True obtain m where
      "map parse (filter (\<lambda>l. py_startswith l ''data: '') (l # ls)) = map Some (take m (drop k evs))"
      unfolding serves_def by blast
    with True have m: "parse l # map parse (filter (\<lambda>l. py_startswith l ''data: '') ls) = map Some (take m (drop k evs))" by simp
    then have "take m (drop k evs) \<noteq> []" by (metis list.distinct(1) list.simps(8))
    then have k: "k < length evs" "0 < m" by auto
    then obtain m' where m': "m = Suc m'" by (cases m) auto
    have "drop k evs = evs ! k # drop (Suc k) evs" using k(1) by (rule Cons_nth_drop_Suc [symmetric])
    with m m' have p: "parse l = Some (evs ! k)" and r: "serves parse evs (Suc k) ls" by (auto simp: serves_def)
    have n: "\<not> ev_seq (evs ! k) \<le> int k" using numbered [OF Cons.prems(1) k(1)] by simp
    obtain a s1 where a: "snk (evs ! k) s = (a, s1)" by (rule prod.exhaust)
    show ?thesis
    proof (cases a)
      case None
      with a p n Cons.prems(3) True sink_raises [OF Cons.prems(1) k(1)] show ?thesis by auto
    next
      case (Some q)
      with a have q: "q = int (Suc k)" "stored (Suc k) s1" using sink_stores [OF Cons.prems(1) k(1)] by auto
      have "consume parse snk ls (int (Suc k)) s1 = (ok, p, s')" using a Some p n Cons.prems(3) True q(1) by simp
      from Cons.IH [OF q(2) r this] show ?thesis .
    qed
  next
    case False
    then have "serves parse evs k ls" "consume parse snk ls (int k) s = (ok, p, s')" using Cons.prems(2,3) by (simp_all add: serves_def)
    from Cons.IH [OF Cons.prems(1) this] show ?thesis .
  qed
qed auto

lemma stream_in_order:
  assumes "stored k s" "list_all (\<lambda>a. attempt_ok parse evs (snd a)) as" "stream_run_events parse snk as (int k) s = (p, s')"
  shows "\<exists>k'. p = int k' \<and> stored k' s'"
  using assms
proof (induction as arbitrary: k s)
  case (Cons x as)
  obtain late a where x: "x = (late, a)" by (rule prod.exhaust)
  show ?case
  proof (cases a)
    case (Refused code)
    then show ?thesis using Cons x by (auto split: if_splits)
  next
    case (Served f)
    obtain ok q s1 where c: "consume parse snk (fst (f (int k))) (int k) s = (ok, q, s1)" by (metis surj_pair)
    have "serves parse evs k (fst (f (int k)))"
      using Cons.prems(2) x Served stored_bound [OF Cons.prems(1)] by (simp add: attempt_ok_def)
    from consume_in_order [OF Cons.prems(1) this c] obtain k' where k': "q = int k'" "stored k' s1" by blast
    show ?thesis
    proof (cases "ok \<and> snd (f (int k))")
      case True
      then show ?thesis using Cons.prems(3) x Served c k' by auto
    next
      case False
      then have "stream_run_events parse snk as (int k') s1 = (p, s')" using Cons.prems(3) x Served c k' by auto
      with Cons.IH [OF k'(2)] Cons.prems(2) show ?thesis by simp
    qed
  qed
qed auto

lemma tail_in_order:
  assumes "stored k s" "reply_ok validate evs js" "i \<le> k" "sink_tail validate snk (drop i js) (int k) s = (err, s')"
  shows "\<exists>k'. stored k' s' \<and> (err = None \<longrightarrow> k' = length evs)
    \<and> ((\<forall>j s. j < length evs \<longrightarrow> stored j s \<longrightarrow> fst (snk (evs ! j) s) \<noteq> None) \<longrightarrow> err = None)"
  using assms
proof (induction "length evs - i" arbitrary: i k s)
  case 0
  have len: "length js = length evs" using 0(3) by (metis length_map reply_ok_def)
  then have "drop i js = []" using 0(1) by simp
  moreover have "k = length evs" using 0(1,4) stored_bound [OF 0(2)] by simp
  ultimately show ?case using 0(2,5) by auto
next
  case (Suc n)
  have i: "i < length evs" using Suc(2) by simp
  have len: "length js = length evs" using Suc.prems(2) by (metis length_map reply_ok_def)
  then have d: "drop i js = js ! i # drop (Suc i) js" using i by (simp add: Cons_nth_drop_Suc)
  have v: "validate (js ! i) = Some (evs ! i)" "seq_of (js ! i) = Some (ev_seq (evs ! i))"
    using Suc.prems(2) i len unfolding reply_ok_def by (metis nth_map)+
  note sq = numbered [OF Suc.prems(1) i]
  show ?case
  proof (cases "i = k")
    case False
    then have "sink_tail validate snk (drop (Suc i) js) (int k) s = (err, s')" using Suc.prems(3,4) d v sq by simp
    with Suc.hyps(1) [of "Suc i", OF _ Suc.prems(1,2)] Suc.prems(3) Suc.hyps(2) False show ?thesis by simp
  next
    case True
    obtain a s1 where a: "snk (evs ! k) s = (a, s1)" by (rule prod.exhaust)
    show ?thesis
    proof (cases a)
      case None
      then show ?thesis using Suc.prems True d v sq a sink_raises [OF Suc.prems(1) i [unfolded True]] i by fastforce
    next
      case (Some q)
      with a True i have st: "stored (Suc k) s1" using sink_stores [OF Suc.prems(1)] by auto
      have "sink_tail validate snk (drop (Suc i) js) (int (Suc k)) s1 = (err, s')"
        using Suc.prems(4) True d v sq a Some by (simp add: add.commute)
      with Suc.hyps(1) [of "Suc i", OF _ st Suc.prems(2)] Suc.hyps(2) True show ?thesis by simp
    qed
  qed
qed

lemma run_in_order:
  assumes "stored 0 s" "list_all (\<lambda>a. attempt_ok (parse_line loads validate) evs (snd a)) attempts"
    and "\<forall>url w j w'. peer (Post url request) w = (Inr j, w') \<longrightarrow> reply_ok validate evs (reply_events j)"
    and "client_run peer loads validate snk attempts rid url request k (w, s) = (res, k', w', s')"
  shows "\<exists>n. stored n s' \<and> ((\<exists>j. res = Inr j) \<longrightarrow> n = length evs)
    \<and> ((\<forall>j s. j < length evs \<longrightarrow> stored j s \<longrightarrow> fst (snk (evs ! j) s) \<noteq> None) \<and> (\<forall>call w. \<exists>j w'. peer call w = (Inr j, w'))
        \<longrightarrow> (\<exists>j. res = Inr j))"
proof -
  let ?k = "register_run_endpoint rid url k"
  obtain e w1 where r: "require_ready peer rid ?k w = (e, w1)" by (rule prod.exhaust)
  show ?thesis
  proof (cases e)
    case (Some x)
    moreover have "\<not> (\<forall>call w. \<exists>j w'. peer call w = (Inr j, w'))"
    proof
      assume "\<forall>call w. \<exists>j w'. peer call w = (Inr j, w')"
      then obtain j w2 where "peer (Get (client_url (Some rid) ''/ready'' ?k)) w = (Inr j, w2)" by blast
      then show False using r Some by (simp add: require_ready_def)
    qed
    moreover have "s' = s" "\<not> (\<exists>j. res = Inr j)" using Some assms(4) r by (auto simp: client_run_def Let_def)
    ultimately show ?thesis using assms(1) by blast
  next
    case None
    obtain a w2 where a: "peer (Post (client_url (Some rid) ''/runs'' ?k) request) w1 = (a, w2)" by (rule prod.exhaust)
    obtain p s1 where st: "stream_run_events (parse_line loads validate) snk attempts (int 0) s = (p, s1)" by (rule prod.exhaust)
    from stream_in_order [OF assms(1,2) st] obtain n where n: "p = int n" "stored n s1" by blast
    show ?thesis
    proof (cases a)
      case (Inl x)
      moreover have "\<not> (\<forall>call w. \<exists>j w'. peer call w = (Inr j, w'))"
        using a Inl by (metis Inl_Inr_False prod.inject)
      moreover have "s' = s1" "\<not> (\<exists>j. res = Inr j)" using Inl assms(4) r None a st by (auto simp: client_run_def Let_def)
      ultimately show ?thesis using n(2) by blast
    next
      case (Inr j)
      obtain err s2 where t: "sink_tail validate snk (drop 0 (reply_events j)) (int n) s1 = (err, s2)" by (rule prod.exhaust)
      have "reply_ok validate evs (reply_events j)" using assms(3) a Inr by (metis (no_types))
      from tail_in_order [OF n(2) this _ t] obtain m where
        m: "stored m s2" "err = None \<longrightarrow> m = length evs"
          "(\<forall>j s. j < length evs \<longrightarrow> stored j s \<longrightarrow> fst (snk (evs ! j) s) \<noteq> None) \<longrightarrow> err = None" by blast
      have "s' = s2" "(\<exists>j. res = Inr j) = (err = None)"
        using assms(4) r None a st n(1) Inr t by (auto simp: client_run_def Let_def split: option.splits)
      with m show ?thesis by blast
    qed
  qed
qed

end

section \<open>What the runner serves\<close>

lemma prefix_of_take: "xs = take m evs \<Longrightarrow> k \<le> length xs \<Longrightarrow> drop k xs = take (m - k) (drop k evs)"
  by (simp add: drop_take)

text \<open>One pass from a cursor sends the rest of the events it sees.\<close>

lemma scan_sends:
  assumes "\<And>i. i < length xs \<Longrightarrow> ev_seq (xs ! i) = int (b + i) + 1" "b \<le> k"
  shows "scan str dumps (int k) xs = (concat (map (\<lambda>e. [''id: '' @ str (JInt (ev_seq e)), ''data: '' @ dumps e, []]) (drop (k - b) xs)),
    int (max k (b + length xs)))"
  using assms
proof (induction xs arbitrary: b k)
  case (Cons x xs)
  have x: "ev_seq x = int b + 1" using Cons.prems(1) [of 0] by simp
  have t: "\<And>i. i < length xs \<Longrightarrow> ev_seq (xs ! i) = int (Suc b + i) + 1" using Cons.prems(1) [of "Suc _"] by force
  show ?case
  proof (cases "b < k")
    case True
    then have "ev_seq x \<le> int k" "k - b = Suc (k - Suc b)" using x by auto
    then show ?thesis using Cons.IH [of "Suc b" k, OF t] True by simp
  next
    case False
    then have e: "k = b" using Cons.prems(2) by simp
    then show ?thesis using Cons.IH [of "Suc b" "Suc b", OF t] x by (simp add: add.commute)
  qed
qed simp

definition numbered_events :: "event_envelope list \<Rightarrow> bool" where
  "numbered_events evs = list_all (\<lambda>i. ev_seq (evs ! i) = int i + 1) [0..<length evs]"

lemma numbered_eventsD: "numbered_events evs \<Longrightarrow> i < length evs \<Longrightarrow> ev_seq (evs ! i) = int i + 1"
  by (simp add: numbered_events_def list_all_iff)

text \<open>A connection sends the events after its cursor, in order and without gaps, however far it gets.\<close>

lemma stream_body_serves:
  assumes "numbered_events evs" "list_all (\<lambda>x. \<exists>m. sp_events x = take m evs) xs" "k \<le> length evs"
    and rt: "\<And>e. e \<in> set evs \<Longrightarrow> parse (''data: '' @ dumps e) = Some e"
  shows "serves parse evs k (fst (stream_body str dumps xs (int k)))"
  using assms(2,3)
proof (induction xs arbitrary: k)
  case Nil
  then show ?case by (auto simp: serves_def intro: exI [of _ 0])
next
  case (Cons x xs)
  from Cons.prems(1) obtain m where m: "sp_events x = take m evs" by auto
  let ?xs = "sp_events x"
  let ?send = "\<lambda>es. concat (map (\<lambda>e. [''id: '' @ str (JInt (ev_seq e)), ''data: '' @ dumps e, []]) es)"
  have "\<And>i. i < length ?xs \<Longrightarrow> ev_seq (?xs ! i) = int (0 + i) + 1" using m numbered_eventsD [OF assms(1)] by simp
  from scan_sends [where b = 0 and k = k, OF this] have sc: "scan str dumps (int k) ?xs = (?send (drop k ?xs), int (max k (length ?xs)))"
    by simp
  define k' where "k' = max k (length ?xs)"
  have k': "k' \<le> length evs" using Cons.prems(2) m by (simp add: k'_def)
  have dr: "drop k evs = drop k ?xs @ drop k' evs"
  proof (cases "k \<le> length ?xs")
    case True
    then have "k' = length ?xs" by (simp add: k'_def)
    moreover have "evs = ?xs @ drop (length ?xs) evs" using m by (cases "m \<le> length evs") simp_all
    ultimately show ?thesis using True by (metis drop_append diff_is_0_eq drop0 append_Nil2)
  next
    case False
    then show ?thesis by (simp add: k'_def)
  qed
  have flt: "map parse (filter (\<lambda>l. py_startswith l ''data: '') (?send es)) = map Some es" if "set es \<subseteq> set evs" for es
    using that
  proof (induction es)
    case (Cons e es)
    have "\<not> py_startswith (''id: '' @ str (JInt (ev_seq e))) ''data: ''" "py_startswith (''data: '' @ dumps e) ''data: ''"
      "\<not> py_startswith [] ''data: ''" by (simp_all add: py_startswith_def)
    with Cons show ?case using rt [of e] by simp
  qed simp
  have sub: "set (drop k ?xs) \<subseteq> set evs" using m by (metis set_drop_subset set_take_subset subset_trans)
  from Cons.IH [OF _ k'] Cons.prems(1) obtain m2 where
    ih: "map parse (filter (\<lambda>l. py_startswith l ''data: '') (fst (stream_body str dumps xs (int k')))) = map Some (take m2 (drop k' evs))"
    by (auto simp: serves_def)
  have "map Some (drop k ?xs) @ map Some (take m2 (drop k' evs)) = map Some (take (length (drop k ?xs) + m2) (drop k evs))"
    by (simp add: dr)
  moreover have "map Some (drop k ?xs) = map Some (take (length (drop k ?xs)) (drop k evs))" by (simp add: dr)
  ultimately show ?case
    using ih flt [OF sub] by (auto simp: serves_def sc k'_def [symmetric] split_beta py_startswith_def)
qed

section \<open>The sink of an activity\<close>

text \<open>
  The sink of \<open>execute_run\<close> as the client calls it. Each call takes the next entry of a list that says whether the store is
  reachable; past its end it is. A call that raises leaves the conversation object projected, though nothing was stored.
  \<open>oid\<close> and \<open>tm\<close> give the identifier of the outbox row and the time of the transaction.
\<close>

definition delivery_of :: "(event_envelope \<Rightarrow> uuid) \<Rightarrow> (event_envelope \<Rightarrow> time) \<Rightarrow> event_envelope \<Rightarrow> delivery" where
  "delivery_of oid tm e = \<lparr>dl_outbox = oid e, dl_now = tm e, dl_event = e\<rparr>"

definition projected :: "event_envelope \<Rightarrow> conversation \<Rightarrow> conversation" where
  "projected e c = c\<lparr>conv_run := event_to_state e (conv_run c)\<rparr>"

definition activity_sink :: "(event_envelope \<Rightarrow> uuid) \<Rightarrow> (event_envelope \<Rightarrow> time) \<Rightarrow> (bool list \<times> conversation \<times> db) sink" where
  "activity_sink oid tm e s = (case s of (up, c, d) \<Rightarrow>
     (case (if up \<noteq> [] \<and> \<not> hd up then Inl IntegrityError else sink (delivery_of oid tm e) (c, d)) of
        Inl _ \<Rightarrow> (None, tl up, projected e c, d)
      | Inr (c', d') \<Rightarrow> (Some (last_seq (conv_run c')), tl up, c', d')))"

lemma event_to_state_idem [simp]: "event_to_state e (event_to_state e r) = event_to_state e r"
  by (simp add: event_to_state_def)

lemma sink_projected: "sink (delivery_of oid tm e) (projected e c, d) = sink (delivery_of oid tm e) (c, d)"
  by (simp add: sink_def projected_def delivery_of_def Let_def split: sum.split)

lemma deliver_snoc: "deliver xs cd = (None, cd') \<Longrightarrow> deliver (xs @ [x]) cd = (case sink x cd' of Inl err \<Rightarrow> (Some err, cd') | Inr cd2 \<Rightarrow> (None, cd2))"
  by (induction xs arbitrary: cd) (auto split: sum.splits)

lemma fresh_take: "fresh xs d \<Longrightarrow> fresh (take k xs) d"
  by (auto simp: fresh_def list_all_iff take_map [symmetric] dest: in_set_takeD)

lemma last_seq_projections: "last_seq (fold project_one xs r) = last_seq r + int (length xs)"
  by (induction xs arbitrary: r) (simp_all add: project_one_def)

text \<open>\<open>s\<close> holds exactly the first \<open>k\<close> events, stored from \<open>(c0, d0)\<close> on, where the log of the run was empty.\<close>

definition run_starts :: "(event_envelope \<Rightarrow> uuid) \<Rightarrow> (event_envelope \<Rightarrow> time) \<Rightarrow> event_envelope list \<Rightarrow> conversation \<Rightarrow> db \<Rightarrow> bool" where
  "run_starts oid tm evs c0 d0 = (numbered_events evs \<and> log_inv d0 \<and> synced (c0, d0) \<and> last_seq (conv_run c0) = 0
     \<and> fresh (map (delivery_of oid tm) evs) d0)"

definition stored_upto :: "(event_envelope \<Rightarrow> uuid) \<Rightarrow> (event_envelope \<Rightarrow> time) \<Rightarrow> event_envelope list \<Rightarrow> conversation \<Rightarrow> db
    \<Rightarrow> nat \<Rightarrow> bool list \<times> conversation \<times> db \<Rightarrow> bool" where
  "stored_upto oid tm evs c0 d0 k s = (run_starts oid tm evs c0 d0 \<and> k \<le> length evs
     \<and> (case s of (up, c, d) \<Rightarrow> \<exists>ck. deliver (map (delivery_of oid tm) (take k evs)) (c0, d0) = (None, ck, d)
          \<and> (c = ck \<or> (k < length evs \<and> c = projected (evs ! k) ck))))"

lemma deliver_prefix:
  assumes "run_starts oid tm evs c0 d0" "k \<le> length evs"
  shows "\<exists>ck dk. deliver (map (delivery_of oid tm) (take k evs)) (c0, d0) = (None, ck, dk) \<and> last_seq (conv_run ck) = int k"
proof -
  have "log_inv d0" "synced (c0, d0)" "fresh (map (delivery_of oid tm) (take k evs)) d0"
    using assms(1) fresh_take [of "map (delivery_of oid tm) evs" d0 k] by (simp_all add: run_starts_def take_map)
  from deliver_all [OF this] show ?thesis using assms by (auto simp: last_seq_projections run_starts_def)
qed

lemma activity_sink_eq:
  assumes "stored_upto oid tm evs c0 d0 k (up, c, d)" "k < length evs"
  obtains ck c' d' where "sink (delivery_of oid tm (evs ! k)) (c, d) = Inr (c', d')" "last_seq (conv_run c') = int k + 1"
    "deliver (map (delivery_of oid tm) (take k evs)) (c0, d0) = (None, ck, d)"
    "deliver (map (delivery_of oid tm) (take (Suc k) evs)) (c0, d0) = (None, c', d')" "c = ck \<or> c = projected (evs ! k) ck"
proof -
  from assms(1) obtain ck where ck: "deliver (map (delivery_of oid tm) (take k evs)) (c0, d0) = (None, ck, d)"
    "c = ck \<or> c = projected (evs ! k) ck" by (auto simp: stored_upto_def)
  from deliver_prefix [of oid tm evs c0 d0 "Suc k"] assms obtain c' d' where
    n: "deliver (map (delivery_of oid tm) (take (Suc k) evs)) (c0, d0) = (None, c', d')" "last_seq (conv_run c') = int k + 1"
    by (auto simp: stored_upto_def)
  have "map (delivery_of oid tm) (take (Suc k) evs) = map (delivery_of oid tm) (take k evs) @ [delivery_of oid tm (evs ! k)]"
    using assms(2) by (simp add: take_Suc_conv_app_nth)
  with n(1) deliver_snoc [OF ck(1), of "delivery_of oid tm (evs ! k)"]
  have "sink (delivery_of oid tm (evs ! k)) (ck, d) = Inr (c', d')" by (simp split: sum.splits)
  then have "sink (delivery_of oid tm (evs ! k)) (c, d) = Inr (c', d')" using ck(2) sink_projected by metis
  then show thesis using that n ck by blast
qed

interpretation act_sink: ordered_sink "activity_sink oid tm" "stored_upto oid tm evs c0 d0" evs
proof
  fix k i s
  assume "stored_upto oid tm evs c0 d0 k s" "i < length evs"
  then show "ev_seq (evs ! i) = int i + 1" using numbered_eventsD by (auto simp: stored_upto_def run_starts_def)
next
  fix k s
  assume "stored_upto oid tm evs c0 d0 k s"
  then show "k \<le> length evs" by (simp add: stored_upto_def)
next
  fix k s q s'
  assume st: "stored_upto oid tm evs c0 d0 k s" "k < length evs" "activity_sink oid tm (evs ! k) s = (Some q, s')"
  obtain up c d where s: "s = (up, c, d)" by (metis surj_pair)
  obtain ck c' d' where k: "sink (delivery_of oid tm (evs ! k)) (c, d) = Inr (c', d')" "last_seq (conv_run c') = int k + 1"
      "deliver (map (delivery_of oid tm) (take k evs)) (c0, d0) = (None, ck, d)"
      "deliver (map (delivery_of oid tm) (take (Suc k) evs)) (c0, d0) = (None, c', d')"
    using activity_sink_eq [OF st(1) [unfolded s] st(2)] by metis
  have "q = int k + 1" "s' = (tl up, c', d')" using st(3) s k(1,2) by (simp_all add: activity_sink_def split: if_splits)
  then show "q = int k + 1 \<and> stored_upto oid tm evs c0 d0 (Suc k) s'"
    using st(1,2) k(4) by (simp add: stored_upto_def)
next
  fix k s s'
  assume st: "stored_upto oid tm evs c0 d0 k s" "k < length evs" "activity_sink oid tm (evs ! k) s = (None, s')"
  obtain up c d where s: "s = (up, c, d)" by (metis surj_pair)
  obtain ck c' d' where k: "sink (delivery_of oid tm (evs ! k)) (c, d) = Inr (c', d')"
      "deliver (map (delivery_of oid tm) (take k evs)) (c0, d0) = (None, ck, d)" "c = ck \<or> c = projected (evs ! k) ck"
    using activity_sink_eq [OF st(1) [unfolded s] st(2)] by metis
  have "projected e (projected e x) = projected e x" for e x by (simp add: projected_def)
  then have "projected (evs ! k) c = projected (evs ! k) ck" using k(3) by auto
  moreover have "s' = (tl up, projected (evs ! k) c, d)" using st(3) s k(1) by (simp add: activity_sink_def split: if_splits)
  ultimately show "stored_upto oid tm evs c0 d0 k s'" using st(1,2) k(2) by (auto simp: stored_upto_def)
qed

section \<open>Properties\<close>

lemma activity_sink_up:
  assumes "stored_upto oid tm evs c0 d0 k s" "k < length evs" "fst s = []"
  shows "\<exists>q s'. activity_sink oid tm (evs ! k) s = (Some q, s') \<and> fst s' = []"
proof -
  obtain up c d where s: "s = (up, c, d)" by (metis surj_pair)
  obtain ck c' d' where "sink (delivery_of oid tm (evs ! k)) (c, d) = Inr (c', d')"
    using activity_sink_eq [OF assms(1) [unfolded s] assms(2)] by metis
  then show ?thesis using s assms(3) by (simp add: activity_sink_def)
qed

interpretation act_sink_up: ordered_sink "activity_sink oid tm" "\<lambda>k s. stored_upto oid tm evs c0 d0 k s \<and> fst s = []" evs
proof
  fix k s q s'
  assume "stored_upto oid tm evs c0 d0 k s \<and> fst s = []" "k < length evs" "activity_sink oid tm (evs ! k) s = (Some q, s')"
  then show "q = int k + 1 \<and> stored_upto oid tm evs c0 d0 (Suc k) s' \<and> fst s' = []"
    using act_sink.sink_stores activity_sink_up [of oid tm evs c0 d0 k s] by fastforce
next
  fix k s s'
  assume "stored_upto oid tm evs c0 d0 k s \<and> fst s = []" "k < length evs" "activity_sink oid tm (evs ! k) s = (None, s')"
  then show "stored_upto oid tm evs c0 d0 k s' \<and> fst s' = []"
    using activity_sink_up [of oid tm evs c0 d0 k s] by fastforce
qed (auto intro: act_sink.numbered act_sink.stored_bound)

lemma renumber_numbered:
  assumes "\<And>i. i < length es \<Longrightarrow> ev_seq (es ! i) = n + int i + 1"
  shows "renumber n (map (delivery_of oid tm) es) = es"
  using assms
proof (induction es arbitrary: n)
  case (Cons e es)
  have e: "ev_seq e = n + 1" using Cons.prems [of 0] by simp
  have "ev_seq (es ! i) = (n + 1) + int i + 1" if "i < length es" for i using Cons.prems [of "Suc i"] that by simp
  from Cons.IH [of "n + 1", OF this] show ?case using e by (cases e) (simp add: delivery_of_def)
qed simp

lemma stored_upto_log:
  assumes "stored_upto oid tm evs c0 d0 n (up, c, d)"
  shows "list_events (conv_id c0) 0 None d = list_events (conv_id c0) 0 None d0 @ map stored_view (take n evs)
    \<and> repo_get_conversation (conv_id c0) d = Some (c0\<lparr>conv_run := fold project_one (map (delivery_of oid tm) (take n evs)) (conv_run c0)\<rparr>)"
proof -
  have r: "log_inv d0" "synced (c0, d0)" "fresh (map (delivery_of oid tm) (take n evs)) d0" "last_seq (conv_run c0) = 0" "numbered_events evs"
    using assms fresh_take [of "map (delivery_of oid tm) evs" d0 n] by (simp_all add: stored_upto_def run_starts_def take_map)
  have "renumber 0 (map (delivery_of oid tm) (take n evs)) = take n evs"
    by (rule renumber_numbered) (use numbered_eventsD [OF r(5)] in simp)
  with deliver_all [OF r(1-3)] r(4) assms show ?thesis by (auto simp: stored_upto_def synced_def)
qed

text \<open>A connection of the runner: it serves the events it has at each pass, a prefix of those of the run.\<close>

definition from_runner :: "(json \<Rightarrow> string) \<Rightarrow> (event_envelope \<Rightarrow> string) \<Rightarrow> event_envelope list \<Rightarrow> attempt \<Rightarrow> bool" where
  "from_runner str dumps evs a = (\<forall>f. a = Served f \<longrightarrow>
     (\<exists>xs. f = stream_body str dumps xs \<and> list_all (\<lambda>x. \<exists>m. sp_events x = take m evs) xs))"

text \<open>\<open>json.dumps\<close>, \<open>json.loads\<close> and the validation of an envelope are inverse on the events of the run.\<close>

definition wire_ok :: "(string \<Rightarrow> json option) \<Rightarrow> (json \<Rightarrow> event_envelope option) \<Rightarrow> (event_envelope \<Rightarrow> string) \<Rightarrow> (event_envelope \<Rightarrow> json)
    \<Rightarrow> event_envelope list \<Rightarrow> bool" where
  "wire_ok loads validate dumps dump evs = list_all (\<lambda>e. loads (dumps e) = Some (dump e) \<and> validate (dump e) = Some e
     \<and> seq_of (dump e) = Some (ev_seq e)) evs"

lemma from_runner_ok:
  assumes "wire_ok loads validate dumps dump evs" "numbered_events evs" "from_runner str dumps evs a"
  shows "attempt_ok (parse_line loads validate) evs a"
proof (cases a)
  case (Served f)
  with assms(3) obtain xs where f: "f = stream_body str dumps xs" "list_all (\<lambda>x. \<exists>m. sp_events x = take m evs) xs"
    by (auto simp: from_runner_def)
  have "parse_line loads validate (''data: '' @ dumps e) = Some e" if "e \<in> set evs" for e
    using assms(1) that by (simp add: parse_line_def wire_ok_def list_all_iff)
  with stream_body_serves [OF assms(2) f(2)] show ?thesis by (simp add: attempt_ok_def Served f(1))
qed (simp add: attempt_ok_def)

lemma wire_reply_ok: "wire_ok loads validate dumps dump evs \<Longrightarrow> reply_ok validate evs (map dump evs)"
  by (simp add: reply_ok_def wire_ok_def list_all_iff)

text \<open>C19. The events of a run reach the log exactly once and in order, whatever happens to the subscription. Refused and broken
  connections, a store that is unreachable at times, a cancelled subscription and a post that fails leave in the log a prefix of
  the events of the run, with the numbers the runner gave them, and the run projected from exactly these; when the client returns, all
  of them. It returns when the runner answers and the store is reachable. The hypotheses: the log of the conversation is empty when
  the run starts, the runner serves its events by \<open>stream_events\<close>, and its reply lists all of them.\<close>

theorem events_delivered_once:
  assumes "run_starts oid tm evs c d" "wire_ok loads validate dumps dump evs"
    and "list_all (\<lambda>a. from_runner str dumps evs (snd a)) attempts"
    and "\<forall>url w j w'. peer (Post url request) w = (Inr j, w') \<longrightarrow> reply_events j = map dump evs"
    and "client_run peer loads validate (activity_sink oid tm) attempts rid url request k (w, up, c, d) = (res, k', w', up', c', d')"
  shows "\<exists>n\<le>length evs. list_events (conv_id c) 0 None d' = list_events (conv_id c) 0 None d @ map stored_view (take n evs)
      \<and> repo_get_conversation (conv_id c) d' = Some (c\<lparr>conv_run := fold project_one (map (delivery_of oid tm) (take n evs)) (conv_run c)\<rparr>)
      \<and> ((\<exists>j. res = Inr j) \<longrightarrow> n = length evs)
      \<and> (up = [] \<and> (\<forall>call w. \<exists>j w'. peer call w = (Inr j, w')) \<longrightarrow> (\<exists>j. res = Inr j))"
proof -
  have num: "numbered_events evs" using assms(1) by (simp add: run_starts_def)
  have as: "list_all (\<lambda>a. attempt_ok (parse_line loads validate) evs (snd a)) attempts"
    using assms(3) from_runner_ok [OF assms(2) num] by (auto simp: list_all_iff)
  have rp: "\<forall>url w j w'. peer (Post url request) w = (Inr j, w') \<longrightarrow> reply_ok validate evs (reply_events j)"
    using assms(4) wire_reply_ok [OF assms(2)] by (metis (no_types))
  have st: "stored_upto oid tm evs c d 0 (up, c, d)" using assms(1) by (simp add: stored_upto_def)
  from act_sink.run_in_order [OF st as rp assms(5)]
  obtain n where
    n: "stored_upto oid tm evs c d n (up', c', d')" "(\<exists>j. res = Inr j) \<longrightarrow> n = length evs" by blast
  have "n \<le> length evs" using n(1) by (rule act_sink.stored_bound)
  moreover have "\<exists>j. res = Inr j" if "up = []" "\<forall>call w. \<exists>j w'. peer call w = (Inr j, w')"
    using act_sink_up.run_in_order [OF _ as rp assms(5), of c d] that st activity_sink_up by fastforce
  ultimately show ?thesis using stored_upto_log [OF n(1)] n(2) by blast
qed

text \<open>A run of two events; the first connection is refused, the second breaks after the first event, the store fails once.\<close>

definition ex_events :: "event_envelope list" where
  "ex_events = [mk_event ''e1'' 5 ''r1'' 1 ''run.running'' [] ''runner'',
     mk_event ''e2'' 6 ''r1'' 2 ''run.completed'' [(''result'', JStr ''ok'')] ''runner'']"

definition ex_dump :: "event_envelope \<Rightarrow> json" where
  "ex_dump e = JObj [(''event_id'', JStr (ev_id e)), (''seq'', JInt (ev_seq e))]"

definition ex_validate :: "json \<Rightarrow> event_envelope option" where
  "ex_validate j = find (\<lambda>e. ex_dump e = j) ex_events"

definition ex_loads :: "string \<Rightarrow> json option" where
  "ex_loads t = map_option ex_dump (find (\<lambda>e. ev_id e = t) ex_events)"

definition ex_peer :: "unit peer" where
  "ex_peer call w = (Inr (JObj [(''status'', JStr ''COMPLETED''), (''events'', JArr (map ex_dump ex_events))]), w)"

definition ex_attempts :: "(bool \<times> attempt) list" where
  "ex_attempts = [(False, Refused 404), (False, Served (stream_body (\<lambda>_. ''n'') ev_id
     [\<lparr>sp_status = ''RUNNING'', sp_events = take 1 ex_events, sp_idle = True\<rparr>]))]"

definition ex_client_result :: "(string + json) \<times> client \<times> unit \<times> bool list \<times> conversation \<times> db" where
  "ex_client_result = client_run ex_peer ex_loads ex_validate (activity_sink ev_id (\<lambda>_. 9)) ex_attempts ''r1'' None JNull
     (new_client ''http://runner/'') ((), [True], demo_conv, demo_run_db)"

lemma ex_events_simps: "length ex_events = 2" "ex_events ! 0 = mk_event ''e1'' 5 ''r1'' 1 ''run.running'' [] ''runner''"
  "ex_events ! 1 = mk_event ''e2'' 6 ''r1'' 2 ''run.completed'' [(''result'', JStr ''ok'')] ''runner''"
  by (simp_all add: ex_events_def)

lemma ex_run_starts: "run_starts ev_id (\<lambda>_. 9) ex_events demo_conv demo_run_db"
proof -
  have "numbered_events ex_events"
    by (simp add: numbered_events_def ex_events_def upt_rec mk_event_def)
  moreover have "fresh (map (delivery_of ev_id (\<lambda>_. 9)) ex_events) demo_run_db"
    by (simp add: fresh_def ex_events_def delivery_of_def demo_run_db_def demo_db_def mk_event_def)
  moreover have "synced (demo_conv, demo_run_db)" "last_seq (conv_run demo_conv) = 0"
    using demo_run_get(1) by (simp_all add: synced_def demo_conv_def new_run_def)
  ultimately show ?thesis using demo_run_inv by (simp add: run_starts_def)
qed

theorem events_delivered_once_witness:
  "\<exists>n\<le>length ex_events. list_events (conv_id demo_conv) 0 None (snd (snd (snd (snd (snd ex_client_result)))))
      = list_events (conv_id demo_conv) 0 None demo_run_db @ map stored_view (take n ex_events)
    \<and> ((\<exists>j. fst ex_client_result = Inr j) \<longrightarrow> n = length ex_events)"
proof -
  have w: "wire_ok ex_loads ex_validate ev_id ex_dump ex_events"
    by (simp add: wire_ok_def ex_loads_def ex_validate_def ex_dump_def ex_events_def mk_event_def seq_of_def obj_get_def)
  have a: "list_all (\<lambda>a. from_runner (\<lambda>_. ''n'') ev_id ex_events (snd a)) ex_attempts"
    by (auto simp: ex_attempts_def from_runner_def intro!: exI [of _ "[\<lparr>sp_status = ''RUNNING'', sp_events = take 1 ex_events, sp_idle = True\<rparr>]"])
  have p: "\<forall>url w j w'. ex_peer (Post url JNull) w = (Inr j, w') \<longrightarrow> reply_events j = map ex_dump ex_events"
    by (simp add: ex_peer_def reply_events_def obj_get_def)
  obtain res k' w' up' c' d' where e: "ex_client_result = (res, k', w', up', c', d')" by (metis surj_pair)
  show ?thesis using events_delivered_once [OF ex_run_starts w a p e [unfolded ex_client_result_def]] by (auto simp: e)
qed

section \<open>Retrying a run\<close>

text \<open>
  A second attempt of \<open>execute_run\<close> posts the same run. A runner that still has it replies with all its events, the first
  of which is in the log already: its identifier is taken, the sink raises and the attempt fails, whatever the runner has to add.
\<close>

lemma retried_run_fails:
  assumes "\<exists>row\<in>set (t_events d). er_id row = ev_id e" "repo_get_conversation (conv_id c) d \<noteq> None"
    "validate j = Some e" "seq_of j = Some 1" "up = []"
  shows "fst (sink_tail validate (activity_sink oid tm) (j # js) 0 (up, c, d)) \<noteq> None"
proof -
  have "\<exists>err. sink (delivery_of oid tm e) (c, d) = Inl err"
    using assms(1) by (auto simp: sink_def delivery_of_def append_event_def commit_event_def add_event_row_def Let_def event_to_row_def db_add_def image_iff
        split: option.splits sum.splits)
  then show ?thesis using assms(3-5) by (auto simp: activity_sink_def)
qed

text \<open>
  A run that stops at a gate is not terminal: its stream stays open, so the client waits for the subscription until the
  drain times out before it goes on, although the comment at that place takes the return of the post for the end of the run.
\<close>

lemma stream_open_at_gate:
  "list_all (\<lambda>x. sp_status x \<notin> set TERMINAL_STATUSES) xs \<Longrightarrow> \<not> snd (stream_body str dumps xs cursor)"
  by (induction xs arbitrary: cursor) (auto simp: split_beta)

end
