(* ===== verification/Runner_Manager.thy ===== *)
theory Runner_Manager
  imports Presets Command_Gate
begin

text \<open>
  The runner manager of a host, \<open>src/runner_manager\<close>: it claims image builds from the control plane, renders a Dockerfile,
  runs \<open>docker build\<close> and reports the outcome; and it starts one runner container per tenant on demand and removes idle ones.
  Docker is reached by its command line: the parameter \<open>sh\<close> runs a command on the world and answers with exit code and output, or
  raises. The control plane is the pair of requests \<open>claim\<close> and \<open>complete\<close>. Further parameters: \<open>resolve\<close> is \<open>Path.resolve\<close> on
  text, \<open>unb64\<close> is \<open>base64.b64decode\<close>, \<open>dumps\<close> is \<open>json.dumps\<close>, and \<open>probes\<close> gives the replies of a runner's \<open>/ready\<close> at the polls
  before the deadline. The staging directory is removed after the build, so it is only the value passed to Docker.
\<close>

section \<open>Commands\<close>

record command_result =
  cm_returncode :: int
  cm_stdout :: string
  cm_stderr :: string

type_synonym 'w shell = "string list \<Rightarrow> 'w \<Rightarrow> (string + command_result) \<times> 'w"

definition LOG_TAIL_CHARS :: nat where
  "LOG_TAIL_CHARS = 4000"

definition cm_log_tail :: "command_result \<Rightarrow> string" where
  "cm_log_tail r = (let c = py_strip (if cm_stderr r \<noteq> [] then cm_stderr r else cm_stdout r) in drop (length c - LOG_TAIL_CHARS) c)"

definition mgr_slug_char :: "char \<Rightarrow> bool" where
  "mgr_slug_char c = (is_alnum_ascii c \<or> c \<in> {CHR ''.'', CHR ''_'', CHR ''-''})"

definition mgr_slug :: "string \<Rightarrow> string" where
  "mgr_slug v = (let s = py_strip_by (\<lambda>c. c = CHR ''-'') (map (\<lambda>c. if mgr_slug_char c then c else CHR ''-'') v) in
     if s = [] then ''default'' else s)"

section \<open>Settings\<close>

record manager_settings =
  ms_docker_transport :: string
  ms_docker_context :: string
  ms_wsl_distribution :: string
  ms_windows :: bool
  ms_base_image :: string
  ms_endpoint_host :: string
  ms_workspace_root :: string
  ms_staging_root :: string
  ms_idle :: time
  ms_environ :: "(string \<times> string) list"
  ms_runner_env :: "(string \<times> string) list"

definition resolved_transport :: "manager_settings \<Rightarrow> string" where
  "resolved_transport ms = (if ms_docker_transport ms \<noteq> ''auto'' then ms_docker_transport ms
     else if ms_docker_context ms \<noteq> [] then ''context'' else if ms_windows ms then ''wsl'' else ''local'')"

definition dict_put :: "(string \<times> string) list \<Rightarrow> (string \<times> string) list \<Rightarrow> (string \<times> string) list" where
  "dict_put new d = fold (\<lambda>(k, v). AList.update k v) new d"

definition passthrough_runner_env :: "manager_settings \<Rightarrow> (string \<times> string) list" where
  "passthrough_runner_env ms = dict_put (ms_runner_env ms)
     (filter (\<lambda>(k, v). list_ex (py_startswith k) [''TRAE_'', ''SESSION_RUNNER_'', ''AGENTSUPPORT_'']) (ms_environ ms))"

definition docker_argv :: "manager_settings \<Rightarrow> string list \<Rightarrow> string list" where
  "docker_argv ms args = (if resolved_transport ms = ''wsl'' then [''wsl'', ''-d'', ms_wsl_distribution ms, ''--'', ''docker''] @ args
     else if resolved_transport ms = ''context'' then [''docker'', ''--context'', ms_docker_context ms] @ args
     else ''docker'' # args)"

definition slashes :: "string \<Rightarrow> string" where
  "slashes s = map (\<lambda>c. if c = backslash then CHR ''/'' else c) s"

definition transport_path :: "(string \<Rightarrow> string) \<Rightarrow> manager_settings \<Rightarrow> string \<Rightarrow> string" where
  "transport_path resolve ms p = (let r = resolve p in
     if resolved_transport ms \<noteq> ''wsl'' then r
     else if 2 < length r \<and> r ! 1 = CHR '':'' then ''/mnt/'' @ py_lower [r ! 0] @ slashes (drop 2 r)
     else slashes r)"

section \<open>The image of a tenant\<close>

definition daemon_command :: "(json \<Rightarrow> string) \<Rightarrow> obj \<Rightarrow> string option" where
  "daemon_command str app = (case obj_get app ''daemon'' JNull of
       JObj d \<Rightarrow> if truthy (obj_get d ''command'' JNull) then Some (py_str str (obj_get d ''command'' JNull)) else None
     | _ \<Rightarrow> None)"

definition app_slug :: "(json \<Rightarrow> string) \<Rightarrow> obj \<Rightarrow> string" where
  "app_slug str app = mgr_slug (dict_text str app ''cli_id'')"

definition daemon_line :: "(json \<Rightarrow> string) \<Rightarrow> obj \<Rightarrow> string list" where
  "daemon_line str app = (case daemon_command str app of None \<Rightarrow> []
     | Some c \<Rightarrow> [''cd /opt/cli/'' @ app_slug str app @ '' && nohup '' @ c @ '' >> /tmp/'' @ app_slug str app @ ''-daemon.log 2>&1 &''])"

text \<open>A word of a shell command in single quotes.\<close>

definition sh_quote :: "string \<Rightarrow> string" where
  "sh_quote l = [squote] @ concat (map (\<lambda>c. if c = squote then [squote, backslash, squote, squote] else [c]) l) @ [squote]"

definition extract_lines :: "string list" where
  "extract_lines = [''RUN set -eu; '' @ [backslash],
     ''    for dir in /opt/cli/*/; do '' @ [backslash],
     ''      for archive in '' @ py_join '' '' (map (\<lambda>e. [dquote] @ ''$dir'' @ [dquote] @ e) [''*.tar.gz'', ''*.tgz'', ''*.tar'']) @ ''; do '' @ [backslash],
     ''        if [ -f '' @ [dquote] @ ''$archive'' @ [dquote] @ '' ]; then tar -xf '' @ [dquote] @ ''$archive'' @ [dquote] @ '' -C ''
       @ [dquote] @ ''$dir'' @ [dquote] @ '' && rm -f '' @ [dquote] @ ''$archive'' @ [dquote] @ ''; fi; '' @ [backslash],
     ''      done; '' @ [backslash], ''    done'']"

definition entry_line :: "(json \<Rightarrow> string) \<Rightarrow> obj \<Rightarrow> string list" where
  "entry_line str app = (let e = path_name (dict_text str app ''entry'') in if e = [] then []
     else [''RUN find /opt/cli -type f -name '' @ [dquote] @ e @ [dquote] @ '' -exec chmod a+x {} +''])"

definition RUNNER_CMD :: string where
  "RUNNER_CMD = ''CMD ['' @ py_join '', '' (map (\<lambda>w. [dquote] @ w @ [dquote])
     [''uvicorn'', ''session_runner.main:app'', ''--host'', ''0.0.0.0'', ''--port'', ''8080'']) @ '']''"

definition daemon_section :: "string list \<Rightarrow> string list" where
  "daemon_section ds = (if ds = [] then []
     else [''RUN printf '' @ sh_quote (''%s'' @ [backslash] @ ''n'') @ '' ''
             @ py_join '' '' (map sh_quote ([''#!/bin/sh'', ''set -u''] @ ds @ [''exec '' @ [dquote] @ ''$@'' @ [dquote]])) @ '' > /opt/cli/entrypoint.sh'',
           ''RUN chmod +x /opt/cli/entrypoint.sh'',
           ''ENTRYPOINT ['' @ [dquote] @ ''/opt/cli/entrypoint.sh'' @ [dquote] @ '']'', RUNNER_CMD])"

definition path_entries :: "(json \<Rightarrow> string) \<Rightarrow> obj list \<Rightarrow> string list" where
  "path_entries str apps = ''/opt/cli/bin'' # concat (map (\<lambda>a. [''/opt/cli/'' @ app_slug str a, ''/opt/cli/'' @ app_slug str a @ ''/bin'']) apps)"

definition dockerfile_lines :: "(json \<Rightarrow> string) \<Rightarrow> string \<Rightarrow> obj list \<Rightarrow> string list \<Rightarrow> string list" where
  "dockerfile_lines str base apps env =
     [''FROM '' @ base, ''USER root'', ''COPY packages /opt/cli''] @ extract_lines @ [''RUN chmod -R a+rX /opt/cli'']
     @ concat (map (entry_line str) apps)
     @ [''ENV PATH='' @ [dquote] @ py_join '':'' (path_entries str apps) @ '':$PATH'' @ [dquote]]
     @ (if env = [] then [] else [''# Environment variable names this preset expects: '' @ py_join '', '' env])
     @ daemon_section (concat (map (daemon_line str) apps)) @ [''USER agent'']"

definition render_dockerfile :: "(json \<Rightarrow> string) \<Rightarrow> string \<Rightarrow> obj list \<Rightarrow> string list \<Rightarrow> string" where
  "render_dockerfile str base apps env = py_join [CHR 0x0A] (dockerfile_lines str base apps env) @ [CHR 0x0A]"

text \<open>The staging directory: for each application its package and its manifest, in a directory of its own.\<close>

definition app_manifest :: "(json \<Rightarrow> string) \<Rightarrow> obj \<Rightarrow> json" where
  "app_manifest str app = JObj [(''cli_id'', JStr (app_slug str app)), (''entry'', obj_get app ''entry'' JNull),
     (''safe_prefixes'', or_default app ''safe_prefixes'' (JArr [])), (''env'', or_default app ''env'' (JArr [])),
     (''daemon'', or_default app ''daemon'' JNull)]"

type_synonym staging = "(string list \<times> string) list"

fun materialize_packages :: "(json \<Rightarrow> string) \<Rightarrow> (json \<Rightarrow> string option) \<Rightarrow> (json \<Rightarrow> string) \<Rightarrow> obj list \<Rightarrow> staging \<Rightarrow> string + staging" where
  "materialize_packages str unb64 dumps [] t = Inr t"
| "materialize_packages str unb64 dumps (a # as) t =
     (let cli = app_slug str a; pkg = dict_text str a ''package'' in
      if cli = [] \<or> pkg = [] then Inl ''cli app payload is missing its id or package name''
      else if path_name pkg \<noteq> pkg then Inl (''package must be a plain file name: '' @ pkg)
      else if pkg = ''..'' then Inl ''IsADirectoryError''
      else case unb64 (or_default a ''package_b64'' (JStr [])) of
        None \<Rightarrow> Inl ''binascii.Error''
      | Some bytes \<Rightarrow> materialize_packages str unb64 dumps as
          (AList.update [''packages'', cli, ''manifest.json''] (dumps (app_manifest str a)) (AList.update [''packages'', cli, pkg] bytes t)))"

section \<open>Builds\<close>

text \<open>The payload of a claim, as the control plane sends it.\<close>

record claim_payload =
  cp_build_id :: string
  cp_image_tag :: string
  cp_cli_apps :: "obj list"
  cp_env :: "string list"

record completion =
  co_status :: build_status
  co_image_tag :: "string option"
  co_log_tail :: string
  co_error :: "string option"

text \<open>What is built and how it ended; \<open>'i\<close> is the world after \<open>docker build\<close>.\<close>

definition build_image :: "(json \<Rightarrow> string) \<Rightarrow> (json \<Rightarrow> string option) \<Rightarrow> (json \<Rightarrow> string) \<Rightarrow> (string \<Rightarrow> string) \<Rightarrow> (staging \<Rightarrow> 'w shell) \<Rightarrow> manager_settings
    \<Rightarrow> claim_payload \<Rightarrow> 'w \<Rightarrow> completion \<times> 'w" where
  "build_image str unb64 dumps resolve sh ms p w =
     (case materialize_packages str unb64 dumps (cp_cli_apps p) [] of
        Inl e \<Rightarrow> (\<lparr>co_status = BUILD_FAILED, co_image_tag = None, co_log_tail = [], co_error = Some e\<rparr>, w)
      | Inr t \<Rightarrow>
          (let t' = AList.update [''Dockerfile''] (render_dockerfile str (ms_base_image ms) (cp_cli_apps p) (cp_env p)) t in
           case sh t' (docker_argv ms [''build'', ''--tag'', cp_image_tag p,
                  transport_path resolve ms (ms_staging_root ms @ ''/'' @ cp_build_id p)]) w of
             (Inl e, w1) \<Rightarrow> (\<lparr>co_status = BUILD_FAILED, co_image_tag = None, co_log_tail = [], co_error = Some e\<rparr>, w1)
           | (Inr r, w1) \<Rightarrow>
               (if cm_returncode r \<noteq> 0
                then \<lparr>co_status = BUILD_FAILED, co_image_tag = None, co_log_tail = cm_log_tail r,
                      co_error = Some (''docker build exited with '' @ str (JInt (cm_returncode r)))\<rparr>
                else \<lparr>co_status = READY, co_image_tag = Some (cp_image_tag p), co_log_tail = cm_log_tail r, co_error = None\<rparr>, w1)))"

definition build_once :: "(json \<Rightarrow> string) \<Rightarrow> (json \<Rightarrow> string option) \<Rightarrow> (json \<Rightarrow> string) \<Rightarrow> (string \<Rightarrow> string) \<Rightarrow> (staging \<Rightarrow> 'w shell) \<Rightarrow> manager_settings
    \<Rightarrow> ('p \<Rightarrow> (string + claim_payload option) \<times> 'p) \<Rightarrow> (string \<Rightarrow> completion \<Rightarrow> 'p \<Rightarrow> string option \<times> 'p)
    \<Rightarrow> 'w \<times> 'p \<Rightarrow> (string + bool) \<times> 'w \<times> 'p" where
  "build_once str unb64 dumps resolve sh ms claim complete wp = (case wp of (w, ps) \<Rightarrow>
     (case claim ps of
        (Inl e, ps1) \<Rightarrow> (Inl e, w, ps1)
      | (Inr None, ps1) \<Rightarrow> (Inr False, w, ps1)
      | (Inr (Some p), ps1) \<Rightarrow>
          (case build_image str unb64 dumps resolve sh ms p w of (c, w1) \<Rightarrow>
            (case complete (cp_build_id p) c ps1 of
               (Some e, ps2) \<Rightarrow> (Inl e, w1, ps2)
             | (None, ps2) \<Rightarrow> (Inr True, w1, ps2)))))"

section \<open>Runners\<close>

record runner_entry =
  re_tenant :: string
  re_container :: string
  re_endpoint :: string
  re_image :: string
  re_started_at :: time
  re_last_used :: time

type_synonym 'w manager = "(string \<times> runner_entry) list \<times> 'w"

definition mgr_runners :: "'w manager \<Rightarrow> runner_entry list" where
  "mgr_runners m = sort_key re_tenant (map snd (fst m))"

definition remove_container :: "'w shell \<Rightarrow> manager_settings \<Rightarrow> string \<Rightarrow> 'w \<Rightarrow> string option \<times> 'w" where
  "remove_container sh ms ref w = (case sh (docker_argv ms [''rm'', ''-f'', ref]) w of
     (Inl e, w1) \<Rightarrow> (Some e, w1) | (Inr _, w1) \<Rightarrow> (None, w1))"

definition container_running :: "'w shell \<Rightarrow> manager_settings \<Rightarrow> string \<Rightarrow> 'w \<Rightarrow> (string + bool) \<times> 'w" where
  "container_running sh ms cid w = (if cid = [] then (Inr False, w)
     else (case sh (docker_argv ms [''inspect'', ''-f'', ''{{.State.Running}}'', cid]) w of
         (Inl e, w1) \<Rightarrow> (Inl e, w1)
       | (Inr r, w1) \<Rightarrow> (Inr (cm_returncode r = 0 \<and> py_strip (cm_stdout r) = ''true''), w1)))"

definition is_linebreak :: "char \<Rightarrow> bool" where
  "is_linebreak c = (let n = of_char c :: nat in 10 \<le> n \<and> n \<le> 13 \<or> 28 \<le> n \<and> n \<le> 30 \<or> n = 133)"

text \<open>\<open>text.strip().splitlines()[-1]\<close>, of a text that is not blank.\<close>

definition last_line :: "string \<Rightarrow> string" where
  "last_line s = rev (takeWhile (\<lambda>c. \<not> is_linebreak c) (rev (py_strip s)))"

definition PORT_FORMAT :: string where
  "PORT_FORMAT = ''{{(index (index .NetworkSettings.Ports '' @ [dquote] @ ''8080/tcp'' @ [dquote] @ '') 0).HostPort}}''"

definition published_port :: "'w shell \<Rightarrow> manager_settings \<Rightarrow> string \<Rightarrow> 'w \<Rightarrow> (string + string) \<times> 'w" where
  "published_port sh ms name w = (case sh (docker_argv ms [''inspect'', ''-f'', PORT_FORMAT, name]) w of
       (Inl e, w1) \<Rightarrow> (Inl e, w1)
     | (Inr r, w1) \<Rightarrow> (if cm_returncode r \<noteq> 0 \<or> py_strip (cm_stdout r) = []
           then Inl (''cannot determine published port for '' @ name) else Inr (last_line (cm_stdout r)), w1))"

datatype probe = ProbeStatus int | ProbeError string

fun wait_ready :: "(json \<Rightarrow> string) \<Rightarrow> string \<Rightarrow> probe list \<Rightarrow> string \<Rightarrow> string option" where
  "wait_ready str ep [] why = Some (''runner not ready at '' @ ep @ '': '' @ why)"
| "wait_ready str ep (ProbeStatus n # ps) why =
     (if n = 200 then None else wait_ready str ep ps (''runner /ready returned '' @ str (JInt n)))"
| "wait_ready str ep (ProbeError e # ps) why = wait_ready str ep ps e"

definition container_name :: "string \<Rightarrow> string" where
  "container_name tenant = ''agentsupport-runner-'' @ mgr_slug tenant"

definition run_argv :: "(string \<Rightarrow> string) \<Rightarrow> manager_settings \<Rightarrow> string \<Rightarrow> string \<Rightarrow> string list" where
  "run_argv resolve ms tenant tag =
     [''run'', ''-d'', ''--name'', container_name tenant, ''--label'', ''agentsupport.runner=1'', ''--label'', ''agentsupport.tenant='' @ tenant,
      ''-p'', ''0:8080'']
     @ (if ms_workspace_root ms = [] then [] else [''-v'', transport_path resolve ms (ms_workspace_root ms) @ '':/workspace-data''])
     @ concat (map (\<lambda>(k, v). [''-e'', k @ ''='' @ v]) (dict_put [(''SESSION_RUNNER_MODE'', ''trae''), (''SESSION_RUNNER_TENANT_ID'', tenant),
          (''SESSION_RUNNER_WORKSPACE_ROOTS'', ''/workspace,/workspace-data'')] (passthrough_runner_env ms)))
     @ [tag]"

text \<open>The second half of \<open>ensure_runner\<close>: replace the container of that name and wait for it.\<close>

definition start_runner :: "(json \<Rightarrow> string) \<Rightarrow> (string \<Rightarrow> string) \<Rightarrow> 'w shell \<Rightarrow> (string \<Rightarrow> probe list) \<Rightarrow> manager_settings \<Rightarrow> time \<Rightarrow> string \<Rightarrow> string
    \<Rightarrow> 'w manager \<Rightarrow> (string + runner_entry) \<times> 'w manager" where
  "start_runner str resolve sh probes ms now tenant tag m = (case m of (rs, w) \<Rightarrow>
     (case remove_container sh ms (container_name tenant) w of
        (Some e, w1) \<Rightarrow> (Inl e, rs, w1)
      | (None, w1) \<Rightarrow> (case sh (docker_argv ms (run_argv resolve ms tenant tag)) w1 of
          (Inl e, w2) \<Rightarrow> (Inl e, rs, w2)
        | (Inr r, w2) \<Rightarrow>
            if cm_returncode r \<noteq> 0
            then (Inl (''failed to start runner '' @ container_name tenant @ '': '' @ cm_log_tail r), rs, w2)
            else (case published_port sh ms (container_name tenant) w2 of
                (Inl e, w3) \<Rightarrow> (Inl e, rs, w3)
              | (Inr port, w3) \<Rightarrow>
                  (let ep = rstrip_slash (ms_endpoint_host ms) @ '':'' @ port in
                   case wait_ready str ep (probes ep) ''runner did not become ready'' of
                     Some e \<Rightarrow> (Inl e, rs, w3)
                   | None \<Rightarrow>
                       (let x = \<lparr>re_tenant = tenant, re_container = (if py_strip (cm_stdout r) = [] then [] else last_line (cm_stdout r)),
                                 re_endpoint = ep, re_image = tag, re_started_at = now, re_last_used = now\<rparr> in
                        (Inr x, AList.update tenant x rs, w3)))))))"

definition ensure_runner :: "(json \<Rightarrow> string) \<Rightarrow> (string \<Rightarrow> string) \<Rightarrow> 'w shell \<Rightarrow> (string \<Rightarrow> probe list) \<Rightarrow> manager_settings \<Rightarrow> time \<Rightarrow> string \<Rightarrow> string
    \<Rightarrow> 'w manager \<Rightarrow> (string + runner_entry) \<times> 'w manager" where
  "ensure_runner str resolve sh probes ms now tenant_id tag m =
     (let tenant = (if tenant_id = [] then ''default'' else tenant_id) in
      case map_of (fst m) tenant of
        None \<Rightarrow> start_runner str resolve sh probes ms now tenant tag m
      | Some x \<Rightarrow> (case container_running sh ms (re_container x) (snd m) of
            (Inl e, w1) \<Rightarrow> (Inl e, fst m, w1)
          | (Inr True, w1) \<Rightarrow>
              (let y = x\<lparr>re_last_used := now, re_image := tag\<rparr> in (Inr y, AList.update tenant y (fst m), w1))
          | (Inr False, w1) \<Rightarrow> start_runner str resolve sh probes ms now tenant tag (fst m, w1)))"

text \<open>\<open>reap_idle\<close> goes over a copy of the runners; an exception leaves what was reclaimed before it.\<close>

fun reap_each :: "'w shell \<Rightarrow> manager_settings \<Rightarrow> time \<Rightarrow> (string \<times> runner_entry) list \<Rightarrow> 'w manager \<Rightarrow> (string + string list) \<times> 'w manager" where
  "reap_each sh ms now [] m = (Inr [], m)"
| "reap_each sh ms now ((t, x) # xs) m =
     (if now - re_last_used x < ms_idle ms then reap_each sh ms now xs m
      else (case remove_container sh ms (re_container x) (snd m) of
          (Some e, w1) \<Rightarrow> (Inl e, fst m, w1)
        | (None, w1) \<Rightarrow> (case reap_each sh ms now xs (AList.delete t (fst m), w1) of (r, m1) \<Rightarrow> (map_sum id (Cons t) r, m1))))"

definition reap_idle :: "'w shell \<Rightarrow> manager_settings \<Rightarrow> time \<Rightarrow> 'w manager \<Rightarrow> (string + string list) \<times> 'w manager" where
  "reap_idle sh ms now m = reap_each sh ms now (fst m) m"

definition mgr_stop_runner :: "'w shell \<Rightarrow> manager_settings \<Rightarrow> string \<Rightarrow> 'w manager \<Rightarrow> (string + bool) \<times> 'w manager" where
  "mgr_stop_runner sh ms t m = (case map_of (fst m) t of
       None \<Rightarrow> (Inr False, m)
     | Some x \<Rightarrow> (case remove_container sh ms (re_container x) (snd m) of
           (Some e, w1) \<Rightarrow> (Inl e, AList.delete t (fst m), w1)
         | (None, w1) \<Rightarrow> (Inr True, AList.delete t (fst m), w1)))"

text \<open>The routes of \<open>app.py\<close>: the token and the default image; an exception becomes a 502.\<close>

definition mgr_authorized :: "string \<Rightarrow> string \<Rightarrow> string option \<Rightarrow> bool" where
  "mgr_authorized token path header = (token = [] \<or> path = ''/health'' \<or> or_else header [] = token)"

definition ensure_runner_route :: "(json \<Rightarrow> string) \<Rightarrow> (string \<Rightarrow> string) \<Rightarrow> 'w shell \<Rightarrow> (string \<Rightarrow> probe list) \<Rightarrow> manager_settings \<Rightarrow> time \<Rightarrow> obj
    \<Rightarrow> 'w manager \<Rightarrow> (int + runner_entry) \<times> 'w manager" where
  "ensure_runner_route str resolve sh probes ms now body m =
     (let t = dict_text str body ''tenant_id''; i = dict_text str body ''image_tag'' in
      case ensure_runner str resolve sh probes ms now (if t = [] then ''default'' else t) (if i = [] then ms_base_image ms else i) m of
        (r, m1) \<Rightarrow> (map_sum (\<lambda>_. 502) id r, m1))"

text \<open>One turn of the background loop.\<close>

definition manager_turn :: "('a \<Rightarrow> (string + bool) \<times> 'a) \<Rightarrow> ('a \<Rightarrow> (string + string list) \<times> 'a) \<Rightarrow> 'a \<Rightarrow> bool \<times> 'a" where
  "manager_turn build reap a = (case build a of
       (Inl e, a1) \<Rightarrow> (False, a1)
     | (Inr worked, a1) \<Rightarrow> (worked, snd (reap a1)))"

section \<open>The control plane as the platform\<close>

text \<open>The payload on the wire: each application dumped, with its package in base 64.\<close>

definition wire_app :: "(string \<Rightarrow> string) \<Rightarrow> cli_app \<times> string \<Rightarrow> obj" where
  "wire_app b64 ab = (case ab of (a, bytes) \<Rightarrow>
     [(''cli_id'', JStr (app_cli_id a)), (''entry'', JStr (app_entry a)), (''description'', JStr (app_description a)),
      (''safe_prefixes'', JArr (map JStr (app_safe_prefixes a))), (''env'', JArr (map JStr (app_env a))), (''package'', json_str (app_package a)),
      (''daemon'', case app_daemon a of None \<Rightarrow> JNull
         | Some x \<Rightarrow> JObj [(''command'', JStr (dm_command x)), (''port'', case dm_port x of None \<Rightarrow> JNull | Some n \<Rightarrow> JInt n)]),
      (''package_b64'', JStr (b64 bytes))])"

definition wire_payload :: "(string \<Rightarrow> string) \<Rightarrow> build_payload \<Rightarrow> claim_payload" where
  "wire_payload b64 p = \<lparr>cp_build_id = pb_id (bp_build p), cp_image_tag = bp_image_tag p,
     cp_cli_apps = map (wire_app b64) (bp_cli_apps p), cp_env = bp_env p\<rparr>"

definition platform_claim :: "(string \<Rightarrow> string) \<Rightarrow> time \<Rightarrow> preset_state \<Rightarrow> (string + claim_payload option) \<times> preset_state" where
  "platform_claim b64 now ps = map_prod (map_sum (\<lambda>_. ''HTTPStatusError'') (map_option (wire_payload b64))) id (svc_claim_preset_build now ps)"

text \<open>The route of a completion: \<open>body.get(key) or None\<close> for the tag and the error.\<close>

definition or_none :: "string option \<Rightarrow> string option" where
  "or_none x = (if str_true x then x else None)"

definition platform_complete :: "time \<Rightarrow> string \<Rightarrow> completion \<Rightarrow> preset_state \<Rightarrow> string option \<times> preset_state" where
  "platform_complete now bid c ps =
     (case complete_preset_build now bid (co_status c) (or_none (co_image_tag c)) (co_log_tail c) (or_none (co_error c)) ps of
        (Inl _, s) \<Rightarrow> (Some ''HTTPStatusError'', s) | (Inr _, s) \<Rightarrow> (None, s))"

section \<open>Builds are reported\<close>

lemma claimed_build_stored:
  assumes "svc_claim_preset_build now ps = (Inr (Some p), ps1)" "keyed pb_id (t_builds (pt_db ps))"
  shows "repo_get_preset_build (pb_id (bp_build p)) (pt_db ps1) = Some (bp_build p)"
    "k \<noteq> pb_id (bp_build p) \<Longrightarrow> repo_get_preset_build k (pt_db ps1) = repo_get_preset_build k (pt_db ps)"
    "str_true (Some (bp_image_tag p))"
proof -
  from assms(1) obtain b d where cl: "repo_claim_preset_build now (pt_db ps) = (Some b, d)" "bp_build p = b" "pt_db ps1 = d"
    "bp_image_tag p = image_tag_for (pb_tenant b) (pb_content_hash b)"
    by (auto simp: svc_claim_preset_build_def Let_def split: prod.splits option.splits sum.splits)
  from claim_build_oldest [OF cl(1)] obtain b0 where b0: "b0 \<in> set (t_builds (pt_db ps))" "pb_status b0 = PENDING"
    "b = b0\<lparr>pb_status := BUILDING, pb_started_at := Some now\<rparr>"
    "t_builds d = db_set pb_id (pb_id b0) (\<lambda>r. if pb_status r = PENDING
       then r\<lparr>pb_status := BUILDING, pb_started_at := Some now\<rparr> else r) (t_builds (pt_db ps))" by blast
  have "db_get pb_id (pb_id b0) (t_builds (pt_db ps)) = Some b0" using assms(2) b0(1) by (simp add: db_get_iff)
  then have get: "repo_get_preset_build k d = (if k = pb_id b0 then Some b else repo_get_preset_build k (pt_db ps))" for k
    using b0(2-) by (simp add: repo_get_preset_build_def db_get_set)
  show "repo_get_preset_build (pb_id (bp_build p)) (pt_db ps1) = Some (bp_build p)"
    "k \<noteq> pb_id (bp_build p) \<Longrightarrow> repo_get_preset_build k (pt_db ps1) = repo_get_preset_build k (pt_db ps)"
    using get b0(3) cl(2,3) by simp_all
  show "str_true (Some (bp_image_tag p))" by (simp add: cl(4) image_tag_for_def str_true_def Let_def)
qed

lemma build_image_outcome:
  "(co_status (fst (build_image str unb64 dumps resolve sh ms p w)) = READY \<and> co_image_tag (fst (build_image str unb64 dumps resolve sh ms p w)) = Some (cp_image_tag p)
      \<and> co_error (fst (build_image str unb64 dumps resolve sh ms p w)) = None)
   \<or> (co_status (fst (build_image str unb64 dumps resolve sh ms p w)) = BUILD_FAILED \<and> co_error (fst (build_image str unb64 dumps resolve sh ms p w)) \<noteq> None)"
  by (auto simp: build_image_def Let_def split: sum.splits prod.splits)

text \<open>\<open>docker build\<close> of the staged packages succeeded.\<close>

definition built :: "(json \<Rightarrow> string) \<Rightarrow> (json \<Rightarrow> string option) \<Rightarrow> (json \<Rightarrow> string) \<Rightarrow> (string \<Rightarrow> string) \<Rightarrow> (staging \<Rightarrow> 'w shell) \<Rightarrow> manager_settings
    \<Rightarrow> claim_payload \<Rightarrow> 'w \<Rightarrow> bool" where
  "built str unb64 dumps resolve sh ms p w = (case materialize_packages str unb64 dumps (cp_cli_apps p) [] of
       Inl _ \<Rightarrow> False
     | Inr t \<Rightarrow> (case fst (sh (AList.update [''Dockerfile''] (render_dockerfile str (ms_base_image ms) (cp_cli_apps p) (cp_env p)) t)
           (docker_argv ms [''build'', ''--tag'', cp_image_tag p, transport_path resolve ms (ms_staging_root ms @ ''/'' @ cp_build_id p)]) w) of
         Inl _ \<Rightarrow> False | Inr r \<Rightarrow> cm_returncode r = 0))"

lemma build_image_ready: "co_status (fst (build_image str unb64 dumps resolve sh ms p w)) = READY \<longleftrightarrow> built str unb64 dumps resolve sh ms p w"
  by (auto simp: build_image_def built_def Let_def split: sum.splits prod.splits)

text \<open>C28. Every build the manager claims ends, and as Docker says. One round of \<open>build_once\<close> against the control plane that hands out a build
  reports it: the build is stored as ready under the image tag it was claimed with exactly when its packages could be staged and
  \<open>docker build\<close> exited with 0, and otherwise as failed with an error; no other build changes.\<close>

theorem build_always_reported:
  assumes "svc_claim_preset_build now ps = (Inr (Some p), ps1)" "keyed pb_id (t_builds (pt_db ps))"
    "build_once str unb64 dumps resolve sh ms (platform_claim b64 now) (platform_complete later) (w, ps) = (res, w', ps')"
  shows "res = Inr True
    \<and> (\<exists>b. repo_get_preset_build (pb_id (bp_build p)) (pt_db ps') = Some b \<and> pb_tenant b = pb_tenant (bp_build p) \<and> pb_finished_at b = Some later
        \<and> (if built str unb64 dumps resolve sh ms (wire_payload b64 p) w
           then pb_status b = READY \<and> pb_image_tag b = Some (bp_image_tag p)
           else pb_status b = BUILD_FAILED \<and> pb_error b \<noteq> None))
    \<and> (\<forall>k. k \<noteq> pb_id (bp_build p) \<longrightarrow> repo_get_preset_build k (pt_db ps') = repo_get_preset_build k (pt_db ps))"
proof -
  note st = claimed_build_stored [OF assms(1,2)]
  let ?p = "wire_payload b64 p" and ?b = "bp_build p"
  obtain c w1 where c: "build_image str unb64 dumps resolve sh ms ?p w = (c, w1)" by (rule prod.exhaust)
  have o1: "co_status c = READY \<and> co_image_tag c = Some (bp_image_tag p) \<and> co_error c = None \<or> co_status c = BUILD_FAILED \<and> co_error c \<noteq> None"
    using build_image_outcome [of str unb64 dumps resolve sh ms ?p w] by (simp add: c) (simp add: wire_payload_def)
  have rd: "co_status c = READY \<longleftrightarrow> built str unb64 dumps resolve sh ms ?p w"
    using build_image_ready [of str unb64 dumps resolve sh ms ?p w] by (simp add: c)
  let ?tag = "or_none (co_image_tag c)" and ?e = "or_none (co_error c)"
  define err where "err = (if co_status c = BUILD_FAILED \<and> \<not> str_true ?e then Some ''build failed without a reported reason'' else ?e)"
  have tag: "co_status c = READY \<Longrightarrow> ?tag = Some (bp_image_tag p)" using st(3) o1 by (auto simp: or_none_def)
  have cm: "complete_preset_build later (pb_id ?b) (co_status c) ?tag (co_log_tail c) ?e ps1
      = map_prod Inr id (finish_build later ?b (co_status c) ?tag (co_log_tail c) err ps1)"
    using st(1,3) o1 tag by (auto simp: complete_preset_build_def err_def Let_def)
  have id: "cp_build_id ?p = pb_id ?b" by (simp add: wire_payload_def)
  have r: "res = Inr True" "ps' = snd (finish_build later ?b (co_status c) ?tag (co_log_tail c) err ps1)"
    using assms(3) cm by (auto simp: build_once_def platform_claim_def assms(1) c id platform_complete_def finish_build_def Let_def)
  let ?f = "?b\<lparr>pb_status := co_status c, pb_image_tag := (if str_true ?tag then ?tag else pb_image_tag ?b),
      pb_log_tail := drop (length (co_log_tail c) - 4000) (co_log_tail c), pb_error := err, pb_finished_at := Some later\<rparr>"
  have db: "pt_db ps' = save_preset_build ?f (pt_db ps1)" by (simp add: r(2) finish_build_def Let_def)
  have gk: "repo_get_preset_build k (pt_db ps') = (if k = pb_id ?b then Some ?f else repo_get_preset_build k (pt_db ps))" for k
    using build_store.get_save [of k ?f "pt_db ps1"] st(1,2) by (auto simp: db merge_preset_build_def)
  have "err \<noteq> None" if "co_status c = BUILD_FAILED" using that by (auto simp: err_def str_true_def split: option.splits if_splits)
  then show ?thesis using r(1) gk o1 rd st(3) tag by auto
qed

definition ex_settings :: manager_settings where
  "ex_settings = \<lparr>ms_docker_transport = ''auto'', ms_docker_context = [], ms_wsl_distribution = ''Ubuntu'', ms_windows = False,
     ms_base_image = ''base'', ms_endpoint_host = ''http://h'', ms_workspace_root = [], ms_staging_root = ''/tmp/b'', ms_idle = seconds 300,
     ms_environ = [], ms_runner_env = []\<rparr>"

definition ex_preset_state :: preset_state where
  "ex_preset_state = \<lparr>pt_db = empty_db\<lparr>t_builds := [demo_build], t_presets := [\<lparr>pr_preset = demo_preset\<lparr>tpr_cli_apps := []\<rparr>, pr_content_hash = ''h''\<rparr>]\<rparr>,
     pt_files = []\<rparr>"

definition ex_build_shell :: "staging \<Rightarrow> unit shell" where
  "ex_build_shell t argv w = (Inr \<lparr>cm_returncode = 0, cm_stdout = ''done'', cm_stderr = []\<rparr>, w)"

theorem build_always_reported_witness:
  "\<exists>w' ps' b. build_once (\<lambda>_. []) (\<lambda>_. Some []) (\<lambda>_. []) id ex_build_shell ex_settings (platform_claim id 7) (platform_complete 8) ((), ex_preset_state)
      = (Inr True, w', ps')
    \<and> repo_get_preset_build ''b1'' (pt_db ps') = Some b \<and> pb_status b = READY"
proof -
  let ?b = "demo_build\<lparr>pb_status := BUILDING, pb_started_at := Some 7\<rparr>"
  let ?p = "\<lparr>bp_build = ?b, bp_image_tag = image_tag_for ''acme'' ''h'', bp_cli_apps = [], bp_env = []\<rparr>"
  obtain ps1 where c: "svc_claim_preset_build 7 ex_preset_state = (Inr (Some ?p), ps1)"
    by (simp add: svc_claim_preset_build_def repo_claim_preset_build_def ex_preset_state_def demo_build_def demo_preset_def
        repo_get_tenant_preset_def db_get_Cons Let_def)
  have k: "keyed pb_id (t_builds (pt_db ex_preset_state))" by (simp add: ex_preset_state_def keyed_def)
  let ?r = "build_once (\<lambda>_. []) (\<lambda>_. Some []) (\<lambda>_. []) id ex_build_shell ex_settings (platform_claim id 7) (platform_complete 8) ((), ex_preset_state)"
  obtain res w' ps' where r: "?r = (res, w', ps')" by (metis surj_pair)
  have "built (\<lambda>_. []) (\<lambda>_. Some []) (\<lambda>_. []) id ex_build_shell ex_settings (wire_payload id ?p) ()"
    by (simp add: built_def wire_payload_def ex_build_shell_def)
  with build_always_reported [OF c k r] have "res = Inr True" "\<exists>b. repo_get_preset_build ''b1'' (pt_db ps') = Some b \<and> pb_status b = READY"
    by (auto simp: demo_build_def)
  with r show ?thesis by metis
qed

section \<open>Containers\<close>

text \<open>
  What the manager relies on in Docker, with \<open>view\<close> the names and identifiers of the containers there are (the manager refers to a
  container by its full name or identifier, never by a prefix of it): a successful \<open>rm -f\<close> removes what has the name or the identifier,
  a failed one nothing; a successful \<open>run -d --name\<close> found the name free and prints the identifier of the container it creates under it, a failed one
  removes nothing (it may leave a container that did not start); \<open>inspect\<close> changes nothing and calls only an existing
  container running; and a command that could not be launched changes nothing.
\<close>

definition refers :: "string \<Rightarrow> string \<times> string \<Rightarrow> bool" where
  "refers ref c = (fst c = ref \<or> snd c = ref)"

definition docker_laws :: "'w shell \<Rightarrow> manager_settings \<Rightarrow> ('w \<Rightarrow> (string \<times> string) list) \<Rightarrow> bool" where
  "docker_laws sh ms view =
     ((\<forall>ref w r w'. sh (docker_argv ms [''rm'', ''-f'', ref]) w = (Inr r, w')
           \<longrightarrow> view w' = (if cm_returncode r = 0 then filter (\<lambda>c. \<not> refers ref c) (view w) else view w))
      \<and> (\<forall>n args w r w'. sh (docker_argv ms (''run'' # ''-d'' # ''--name'' # n # args)) w = (Inr r, w')
           \<longrightarrow> (if cm_returncode r = 0 then py_strip (cm_stdout r) \<noteq> [] \<and> n \<notin> fst ` set (view w) \<and> view w' = view w @ [(n, last_line (cm_stdout r))]
               else set (view w) \<subseteq> set (view w')))
      \<and> (\<forall>fmt ref w a w'. sh (docker_argv ms [''inspect'', ''-f'', fmt, ref]) w = (a, w') \<longrightarrow> view w' = view w)
      \<and> (\<forall>ref w r w'. sh (docker_argv ms [''inspect'', ''-f'', ''{{.State.Running}}'', ref]) w = (Inr r, w') \<and> cm_returncode r = 0
           \<and> py_strip (cm_stdout r) = ''true'' \<longrightarrow> (\<exists>c \<in> set (view w). refers ref c))
      \<and> (\<forall>argv w e w'. sh argv w = (Inl e, w') \<longrightarrow> view w' = view w))"

lemma docker_laws_rm:
  assumes "docker_laws sh ms view" "sh (docker_argv ms [''rm'', ''-f'', ref]) w = (Inr r, w')"
  shows "view w' = (if cm_returncode r = 0 then filter (\<lambda>c. \<not> refers ref c) (view w) else view w)"
  using assms unfolding docker_laws_def by meson

lemma docker_laws_run:
  assumes "docker_laws sh ms view" "sh (docker_argv ms (''run'' # ''-d'' # ''--name'' # n # args)) w = (Inr r, w')"
  shows "if cm_returncode r = 0 then py_strip (cm_stdout r) \<noteq> [] \<and> n \<notin> fst ` set (view w) \<and> view w' = view w @ [(n, last_line (cm_stdout r))]
     else set (view w) \<subseteq> set (view w')"
  using assms unfolding docker_laws_def by meson

lemma docker_laws_inspect:
  assumes "docker_laws sh ms view" "sh (docker_argv ms [''inspect'', ''-f'', fmt, ref]) w = (a, w')"
  shows "view w' = view w"
  using assms unfolding docker_laws_def by meson

lemma docker_laws_running:
  assumes "docker_laws sh ms view" "sh (docker_argv ms [''inspect'', ''-f'', ''{{.State.Running}}'', ref]) w = (Inr r, w')"
    "cm_returncode r = 0" "py_strip (cm_stdout r) = ''true''"
  shows "\<exists>c \<in> set (view w). refers ref c"
  using assms unfolding docker_laws_def by meson

lemma docker_laws_raise:
  assumes "docker_laws sh ms view" "sh argv w = (Inl e, w')"
  shows "view w' = view w"
  using assms unfolding docker_laws_def by meson

lemma remove_container_view:
  assumes "docker_laws sh ms view" "remove_container sh ms ref w = (e, w')"
  shows "view w' = view w \<or> e = None \<and> view w' = filter (\<lambda>c. \<not> refers ref c) (view w)"
proof (cases "sh (docker_argv ms [''rm'', ''-f'', ref]) w")
  case (Pair a w1)
  then show ?thesis using assms(2) docker_laws_rm [OF assms(1)] docker_laws_raise [OF assms(1) ]
    by (cases a) (fastforce simp: remove_container_def split: if_splits)+
qed

lemma published_port_view:
  assumes "docker_laws sh ms view" "published_port sh ms name w = (e, w')"
  shows "view w' = view w"
proof (cases "sh (docker_argv ms [''inspect'', ''-f'', PORT_FORMAT, name]) w")
  case (Pair a w1)
  then show ?thesis using assms(2) docker_laws_inspect [OF assms(1) Pair] by (cases a) (auto simp: published_port_def)
qed

lemma container_running_view:
  assumes "docker_laws sh ms view" "container_running sh ms cid w = (e, w')"
  shows "view w' = view w \<and> (e = Inr True \<longrightarrow> (\<exists>c \<in> set (view w). refers cid c))"
proof (cases "cid = []")
  case False
  show ?thesis
  proof (cases "sh (docker_argv ms [''inspect'', ''-f'', ''{{.State.Running}}'', cid]) w")
    case (Pair a w1)
    then show ?thesis using False assms(2) docker_laws_inspect [OF assms(1) Pair] docker_laws_running [OF assms(1)]
      by (cases a) (auto simp: container_running_def)
  qed
qed (use assms in \<open>auto simp: container_running_def\<close>)

text \<open>Containers the tenant's name does not refer to survive, whatever comes of the start; a runner that was started is the one of that name.\<close>

lemma start_runner_effect:
  assumes "docker_laws sh ms view" "start_runner str resolve sh probes ms now t tag (rs, w) = (res, rs', w')"
  shows "{c \<in> set (view w). \<not> refers (container_name t) c} \<subseteq> set (view w')
    \<and> (case res of Inl _ \<Rightarrow> rs' = rs
       | Inr x \<Rightarrow> rs' = AList.update t x rs \<and> re_tenant x = t \<and> re_image x = tag \<and> re_started_at x = now \<and> re_last_used x = now
           \<and> {c \<in> set (view w'). fst c = container_name t} = {(container_name t, re_container x)})"
proof -
  obtain e w1 where rm: "remove_container sh ms (container_name t) w = (e, w1)" by (rule prod.exhaust)
  have v1: "{c \<in> set (view w). \<not> refers (container_name t) c} \<subseteq> set (view w1)" using remove_container_view [OF assms(1) rm] by auto
  show ?thesis
  proof (cases e)
    case (Some x)
    then show ?thesis using assms(2) rm v1 by (auto simp: start_runner_def)
  next
    case None
    obtain args where argv: "run_argv resolve ms t tag = ''run'' # ''-d'' # ''--name'' # container_name t # args"
      by (simp add: run_argv_def)
    obtain a w2 where run: "sh (docker_argv ms (run_argv resolve ms t tag)) w1 = (a, w2)" by (rule prod.exhaust)
    show ?thesis
    proof (cases a)
      case (Inl x)
      then have "view w2 = view w1" using docker_laws_raise [OF assms(1)] run by blast
      then show ?thesis using assms(2) rm v1 None run Inl by (auto simp: start_runner_def)
    next
      case (Inr r)
      obtain port w3 where pp: "published_port sh ms (container_name t) w2 = (port, w3)" by (rule prod.exhaust)
      note v3 = published_port_view [OF assms(1) pp]
      note v2 = docker_laws_run [OF assms(1), of "container_name t" args w1 r w2]
      show ?thesis
      proof (cases "cm_returncode r = 0")
        case True
        have v2: "py_strip (cm_stdout r) \<noteq> []" "view w2 = view w1 @ [(container_name t, last_line (cm_stdout r))]" "container_name t \<notin> fst ` set (view w1)"
          using v2 run True Inr argv by auto
        then have new: "{c \<in> set (view w3). fst c = container_name t} = {(container_name t, last_line (cm_stdout r))}"
          "{c \<in> set (view w). \<not> refers (container_name t) c} \<subseteq> set (view w3)"
          using v3 v1 by force+
        then show ?thesis using assms(2) rm None run Inr True pp v2(1)
          by (cases port) (auto simp: start_runner_def Let_def split: option.splits)
      next
        case False
        have "set (view w1) \<subseteq> set (view w2)" using v2 run False Inr argv by auto
        then have "{c \<in> set (view w). \<not> refers (container_name t) c} \<subseteq> set (view w2)" using v1 by blast
        then show ?thesis using assms(2) rm None run Inr False by (auto simp: start_runner_def)
      qed
    qed
  qed
qed

lemma ensure_runner_effect:
  assumes "docker_laws sh ms view" "ensure_runner str resolve sh probes ms now tid tag (rs, w) = (res, rs', w')"
    "t = (if tid = [] then ''default'' else tid)"
  shows "{c \<in> set (view w). \<not> refers (container_name t) c} \<subseteq> set (view w')
    \<and> (case res of Inl _ \<Rightarrow> rs' = rs
       | Inr x \<Rightarrow> rs' = AList.update t x rs \<and> re_image x = tag \<and> re_last_used x = now \<and> (\<exists>c \<in> set (view w'). refers (re_container x) c))"
proof -
  have start: ?thesis if "start_runner str resolve sh probes ms now t tag (rs, w1) = (res, rs', w')" "view w1 = view w" for w1
  proof (cases res)
    case (Inr x)
    with start_runner_effect [OF assms(1) that(1)] have "(container_name t, re_container x) \<in> set (view w')" by auto
    then have "\<exists>c \<in> set (view w'). refers (re_container x) c" by (force simp: refers_def)
    with start_runner_effect [OF assms(1) that(1)] that(2) Inr show ?thesis by simp
  qed (use start_runner_effect [OF assms(1) that(1)] that(2) in simp)
  show ?thesis
  proof (cases "map_of rs t")
    case None
    then show ?thesis using assms(2,3) by (intro start [of w]) (simp_all add: ensure_runner_def Let_def split: if_splits)
  next
    case (Some y)
    obtain q w1 where q: "container_running sh ms (re_container y) w = (q, w1)" by (rule prod.exhaust)
    note v = container_running_view [OF assms(1) q]
    consider (err) e where "q = Inl e" | (alive) "q = Inr True" | (gone) "q = Inr False" by (metis sum.exhaust)
    then show ?thesis
    proof cases
      case gone
      then show ?thesis using assms(2,3) Some q v by (intro start [of w1]) (auto simp: ensure_runner_def Let_def split: if_splits)
    qed (use assms(2,3) Some q v in \<open>auto simp: ensure_runner_def Let_def split: if_splits\<close>)
  qed
qed

text \<open>A tenant that asked for a runner has one. When \<open>ensure_runner\<close> answers, the tenant is registered with exactly the runner returned, for the image
  asked for and used now, and Docker has its container; when it fails, the register is as it was. In both cases the entries of the
  other tenants and every container that does not go by the tenant's container name are untouched.\<close>

theorem ensured_runner_serves:
  assumes "docker_laws sh ms view" "ensure_runner str resolve sh probes ms now tid tag (rs, w) = (res, rs', w')"
    "t = (if tid = [] then ''default'' else tid)"
  shows "(case res of Inl _ \<Rightarrow> rs' = rs
      | Inr x \<Rightarrow> map_of rs' t = Some x \<and> re_image x = tag \<and> re_last_used x = now \<and> (\<exists>c \<in> set (view w'). refers (re_container x) c))
    \<and> (\<forall>u. u \<noteq> t \<longrightarrow> map_of rs' u = map_of rs u)
    \<and> (\<forall>c \<in> set (view w). \<not> refers (container_name t) c \<longrightarrow> c \<in> set (view w'))"
  using ensure_runner_effect [OF assms] by (cases res) (auto simp: update_conv')

text \<open>The entry of a tenant whose container Docker calls running, and a container that the start has just created: the identifier
  \<open>docker run\<close> printed, called for the tenant and the image after the check on the old container and its removal.\<close>

definition running_entry :: "'w shell \<Rightarrow> manager_settings \<Rightarrow> string \<Rightarrow> 'w manager \<Rightarrow> runner_entry option" where
  "running_entry sh ms t m = (case map_of (fst m) t of None \<Rightarrow> None
     | Some y \<Rightarrow> if fst (container_running sh ms (re_container y) (snd m)) = Inr True then Some y else None)"

definition just_started :: "(string \<Rightarrow> string) \<Rightarrow> 'w shell \<Rightarrow> manager_settings \<Rightarrow> string \<Rightarrow> string \<Rightarrow> 'w manager \<Rightarrow> runner_entry \<Rightarrow> bool" where
  "just_started resolve sh ms t tag m x =
     (let w0 = (case map_of (fst m) t of None \<Rightarrow> snd m | Some y \<Rightarrow> snd (container_running sh ms (re_container y) (snd m))) in
      case sh (docker_argv ms (run_argv resolve ms t tag)) (snd (remove_container sh ms (container_name t) w0)) of
        (Inl _, _) \<Rightarrow> False
      | (Inr r, _) \<Rightarrow> cm_returncode r = 0 \<and> re_container x = last_line (cm_stdout r))"

lemma start_runner_ran:
  assumes "docker_laws sh ms view" "start_runner str resolve sh probes ms now t tag (rs, w) = (Inr x, rs', w')"
  shows "case sh (docker_argv ms (run_argv resolve ms t tag)) (snd (remove_container sh ms (container_name t) w)) of
        (Inl _, _) \<Rightarrow> False | (Inr r, _) \<Rightarrow> cm_returncode r = 0 \<and> re_container x = last_line (cm_stdout r)"
proof -
  obtain w1 where rm: "remove_container sh ms (container_name t) w = (None, w1)"
    using assms(2) by (auto simp: start_runner_def split: prod.splits option.splits)
  obtain r w2 where run: "sh (docker_argv ms (run_argv resolve ms t tag)) w1 = (Inr r, w2)" "cm_returncode r = 0"
    using assms(2) rm by (auto simp: start_runner_def split: prod.splits sum.splits if_splits)
  obtain args where "run_argv resolve ms t tag = ''run'' # ''-d'' # ''--name'' # container_name t # args" by (simp add: run_argv_def)
  then have "py_strip (cm_stdout r) \<noteq> []" using docker_laws_run [OF assms(1), of "container_name t" args w1 r w2] run by simp
  then show ?thesis using assms(2) rm run
    by (auto simp: start_runner_def Let_def split: prod.splits sum.splits option.splits if_splits)
qed

text \<open>Where the runner that \<open>ensure_runner\<close> returns comes from.\<close>

lemma ensure_runner_origin:
  assumes "docker_laws sh ms view" "ensure_runner str resolve sh probes ms now t tag (rs, w) = (Inr x, rs', w')" "t \<noteq> []"
  shows "case running_entry sh ms t (rs, w) of
      Some y \<Rightarrow> x = y\<lparr>re_last_used := now, re_image := tag\<rparr> \<and> view w' = view w
    | None \<Rightarrow> re_image x = tag \<and> just_started resolve sh ms t tag (rs, w) x
        \<and> {c \<in> set (view w'). fst c = container_name t} = {(container_name t, re_container x)}"
proof (cases "map_of rs t")
  case None
  then have s: "start_runner str resolve sh probes ms now t tag (rs, w) = (Inr x, rs', w')"
    using assms(2,3) by (simp add: ensure_runner_def Let_def)
  show ?thesis using start_runner_effect [OF assms(1) s] start_runner_ran [OF assms(1) s] None
    by (simp add: running_entry_def just_started_def)
next
  case (Some y)
  obtain q w1 where q: "container_running sh ms (re_container y) w = (q, w1)" by (rule prod.exhaust)
  note v = container_running_view [OF assms(1) q]
  consider (err) e where "q = Inl e" | (alive) "q = Inr True" | (gone) "q = Inr False" by (metis sum.exhaust)
  then show ?thesis
  proof cases
    case gone
    then have s: "start_runner str resolve sh probes ms now t tag (rs, w1) = (Inr x, rs', w')"
      using assms(2,3) Some q by (simp add: ensure_runner_def Let_def)
    show ?thesis using start_runner_effect [OF assms(1) s] start_runner_ran [OF assms(1) s] Some q gone
      by (simp add: running_entry_def just_started_def)
  qed (use assms(2,3) Some q v in \<open>auto simp: ensure_runner_def Let_def running_entry_def\<close>)
qed

text \<open>A host for the examples: its containers, with the number of those started so far.\<close>

definition ex_docker :: "((string \<times> string) list \<times> nat) shell" where
  "ex_docker argv w = (case argv of
       [_, a, _, ref] \<Rightarrow> if a = ''rm'' then (Inr \<lparr>cm_returncode = 0, cm_stdout = ref, cm_stderr = []\<rparr>, filter (\<lambda>c. \<not> refers ref c) (fst w), snd w)
                        else (Inl ''unknown'', w)
     | [_, a, _, fmt, ref] \<Rightarrow> if a = ''inspect'' then
           (Inr (if \<exists>c \<in> set (fst w). refers ref c then \<lparr>cm_returncode = 0, cm_stdout = (if fmt = PORT_FORMAT then ''4711'' else ''true''), cm_stderr = []\<rparr>
                 else \<lparr>cm_returncode = 1, cm_stdout = [], cm_stderr = ''No such object''\<rparr>), w)
         else (Inl ''unknown'', w)
     | _ # a # _ # _ # n # _ \<Rightarrow> if a \<noteq> ''run'' then (Inl ''unknown'', w)
         else if n \<in> fst ` set (fst w) then (Inr \<lparr>cm_returncode = 125, cm_stdout = [], cm_stderr = ''Conflict''\<rparr>, w)
         else (let i = replicate (Suc (snd w)) (CHR ''c'') in (Inr \<lparr>cm_returncode = 0, cm_stdout = i, cm_stderr = []\<rparr>, fst w @ [(n, i)], Suc (snd w)))
     | _ \<Rightarrow> (Inl ''unknown'', w))"

lemma ex_docker_id: "py_strip (replicate (Suc n) (CHR ''c'')) = replicate (Suc n) (CHR ''c'')" "last_line (replicate (Suc n) (CHR ''c'')) = replicate (Suc n) (CHR ''c'')"
  by (simp_all add: last_line_def py_strip_by_def is_linebreak_def py_isspace_def del: replicate_Suc)

lemma ex_docker_laws: "docker_laws ex_docker ex_settings fst"
  by (auto simp: docker_laws_def docker_argv_def resolved_transport_def ex_settings_def ex_docker_def Let_def ex_docker_id PORT_FORMAT_def
      simp del: replicate_Suc split: if_splits list.splits)

theorem ensured_runner_serves_witness:
  "\<exists>x rs' w'. ensure_runner (\<lambda>_. []) id ex_docker (\<lambda>_. [ProbeStatus 200]) ex_settings 5 ''acme'' ''img'' ([], [(''other'', ''x'')], 0) = (Inr x, rs', w')
    \<and> map_of rs' ''acme'' = Some x \<and> (\<exists>c \<in> set (fst w'). refers (re_container x) c) \<and> (''other'', ''x'') \<in> set (fst w')"
proof -
  let ?r = "ensure_runner (\<lambda>_. []) id ex_docker (\<lambda>_. [ProbeStatus 200]) ex_settings 5 ''acme'' ''img'' ([], [(''other'', ''x'')], 0)"
  obtain res rs' w' where r: "?r = (res, rs', w')" by (metis surj_pair)
  have "\<not> isl (fst ?r)" by code_simp
  then have ok: "\<exists>x. res = Inr x" using r by (cases res) auto
  have "\<not> refers (container_name ''acme'') (''other'', ''x'')" by code_simp
  with ensured_runner_serves [OF ex_docker_laws r, of "''acme''"] ok r show ?thesis by auto
qed

section \<open>Idle runners\<close>

definition idle_entry :: "manager_settings \<Rightarrow> time \<Rightarrow> runner_entry \<Rightarrow> bool" where
  "idle_entry ms now x = (ms_idle ms \<le> now - re_last_used x)"

lemma reap_each_containers:
  assumes "docker_laws sh ms view" "reap_each sh ms now xs (rs, w) = (res, rs', w')" "c \<in> set (view w)"
    "\<forall>(t, x) \<in> set xs. idle_entry ms now x \<longrightarrow> \<not> refers (re_container x) c"
  shows "c \<in> set (view w')"
  using assms(2-)
proof (induction xs arbitrary: rs w res)
  case (Cons p xs)
  obtain t x where p: "p = (t, x)" by (rule prod.exhaust)
  obtain e w1 where rm: "remove_container sh ms (re_container x) w = (e, w1)" by (rule prod.exhaust)
  have v: "idle_entry ms now x \<Longrightarrow> c \<in> set (view w1)" using remove_container_view [OF assms(1) rm] Cons.prems(2,3) by (auto simp: p)
  have fin: "c \<in> set (view w')" if "reap_each sh ms now xs (rs2, w2) = (r2, rs', w')" "c \<in> set (view w2)" for rs2 w2 r2
    using Cons.IH [OF that] Cons.prems(3) by simp
  show ?case using Cons.prems(1,2) v rm
    by (auto simp: p idle_entry_def split: if_splits option.splits prod.splits intro: fin)
qed simp

lemma reap_each_register:
  assumes "reap_each sh ms now xs (rs, w) = (res, rs', w')"
  shows "map_of rs' t = map_of rs t \<or> map_of rs' t = None \<and> (\<exists>x. (t, x) \<in> set xs \<and> idle_entry ms now x)"
  using assms
proof (induction xs arbitrary: rs w res)
  case (Cons p xs)
  then show ?case
    by (cases p) (fastforce simp: idle_entry_def delete_conv' split: if_splits option.splits prod.splits)
qed simp

lemma reap_each_complete:
  assumes "reap_each sh ms now xs (rs, w) = (Inr ts, rs', w')"
  shows "ts = map fst (filter (\<lambda>(t, x). idle_entry ms now x) xs) \<and> rs' = filter (\<lambda>(t, x). t \<notin> set ts) rs"
  using assms
proof (induction xs arbitrary: rs w ts)
  case Nil
  then show ?case by simp
next
  case (Cons p xs)
  obtain t x where p: "p = (t, x)" by (rule prod.exhaust)
  show ?case
  proof (cases "idle_entry ms now x")
    case False
    then show ?thesis using Cons.IH [of rs w ts] Cons.prems by (simp add: p idle_entry_def not_le)
  next
    case True
    then obtain w1 r where r: "reap_each sh ms now xs (AList.delete t rs, w1) = (r, rs', w')" "map_sum id (Cons t) r = Inr ts"
      using Cons.prems by (auto simp: p idle_entry_def split: option.splits prod.splits)
    then obtain us where us: "reap_each sh ms now xs (AList.delete t rs, w1) = (Inr us, rs', w')" "ts = t # us" by (cases r) auto
    then show ?thesis using Cons.IH [OF us(1)] True by (auto simp: p AList.delete_eq intro!: filter_cong)
  qed
qed

text \<open>\<open>reap_idle\<close> touches idle runners only: every other entry and container stays, and a round that ends has reclaimed exactly the idle ones, in order.\<close>

lemma reap_idle_exact:
  assumes "docker_laws sh ms view" "distinct (map fst rs)" "reap_idle sh ms now (rs, w) = (res, rs', w')"
  shows "\<lbrakk>map_of rs t = Some x; \<not> idle_entry ms now x\<rbrakk> \<Longrightarrow> map_of rs' t = Some x"
    "\<lbrakk>c \<in> set (view w); \<forall>(t, x) \<in> set rs. idle_entry ms now x \<longrightarrow> \<not> refers (re_container x) c\<rbrakk> \<Longrightarrow> c \<in> set (view w')"
    "res = Inr ts \<Longrightarrow> ts = map fst (filter (\<lambda>(t, x). idle_entry ms now x) rs) \<and> rs' = filter (\<lambda>(t, x). \<not> idle_entry ms now x) rs"
proof -
  have r: "reap_each sh ms now rs (rs, w) = (res, rs', w')" using assms(3) by (simp add: reap_idle_def)
  show "map_of rs' t = Some x" if "map_of rs t = Some x" "\<not> idle_entry ms now x"
    using reap_each_register [OF r, of t] that assms(2) by (auto simp: map_of_eq_Some_iff dest: eq_key_imp_eq_value)
  show "c \<in> set (view w')" if "c \<in> set (view w)" "\<forall>(t, x) \<in> set rs. idle_entry ms now x \<longrightarrow> \<not> refers (re_container x) c"
    by (rule reap_each_containers [OF assms(1) r that])
  show "ts = map fst (filter (\<lambda>(t, x). idle_entry ms now x) rs) \<and> rs' = filter (\<lambda>(t, x). \<not> idle_entry ms now x) rs" if ts: "res = Inr ts"
    using reap_each_complete [OF r [unfolded ts]] assms(2) by (auto intro!: filter_cong dest: eq_key_imp_eq_value simp: image_iff)
qed

text \<open>Only \<open>ensure_runner\<close> refreshes \<open>last_used_at\<close>, so a runner is reclaimed the idle time after it was last asked for, whatever it is working on.\<close>

lemma busy_runner_reclaimed:
  assumes "docker_laws sh ms view" "distinct (map fst rs)"
    "ensure_runner str resolve sh probes ms t0 tid tag (rs, w) = (Inr x, rs1, w1)"
    "ms_idle ms \<le> now - t0" "reap_idle sh ms now (rs1, w1) = (Inr ts, rs2, w2)"
  shows "(if tid = [] then ''default'' else tid) \<in> set ts"
proof -
  let ?t = "if tid = [] then ''default'' else tid"
  from ensure_runner_effect [OF assms(1,3) refl] have e: "rs1 = AList.update ?t x rs" "re_last_used x = t0" by auto
  have d: "distinct (map fst rs1)" using assms(2) by (simp add: e(1) distinct_update)
  have "(?t, x) \<in> set rs1" using e(1) by (metis map_of_SomeD map_upd_Some_unfold update_conv')
  moreover have "idle_entry ms now x" using assms(4) e(2) by (simp add: idle_entry_def)
  ultimately show ?thesis using reap_idle_exact(3) [OF assms(1) d assms(5) refl] by force
qed

text \<open>A container that still runs is returned for any image, and registered as running the image asked for.\<close>

lemma reused_runner_relabelled:
  assumes "map_of rs t = Some x" "t \<noteq> []" "container_running sh ms (re_container x) w = (Inr True, w1)"
  shows "ensure_runner str resolve sh probes ms now t tag (rs, w)
    = (Inr (x\<lparr>re_last_used := now, re_image := tag\<rparr>), AList.update t (x\<lparr>re_last_used := now, re_image := tag\<rparr>) rs, w1)"
  using assms by (simp add: ensure_runner_def Let_def)

text \<open>Two tenants whose names have the same slug share a container name: the second start removes the container the first is registered with.\<close>

lemma same_slug_evicts:
  "let ens = ensure_runner (\<lambda>_. []) id ex_docker (\<lambda>_. [ProbeStatus 200]) ex_settings 5;
       (_, m1) = ens ''a/b'' ''img1'' ([], [], 0); (_, rs2, w2) = ens ''a-b'' ''img2'' m1 in
   map fst rs2 = [''a/b'', ''a-b''] \<and> list_all (\<lambda>c. \<not> refers (re_container (snd (rs2 ! 0))) c) (fst w2)"
  by code_simp

end
