(* ===== verification/Skill_Materialize.thy ===== *)
theory Skill_Materialize
  imports Skill_Store "HOL-Library.Multiset"
begin

text \<open>
  How the skills of a run reach the runner's disk: \<open>session_runner/skills_materialize.py\<close>, and the package as \<open>skill_package\<close> of
  the skill source puts it on the wire. The file system is the list of its files, each a path from the root of the system with its
  bytes, and the list of the paths without write permission; directories without files are not kept and removing a tree succeeds.
  Parameters: \<open>str\<close> is \<open>str()\<close> of a value that is not a string, \<open>unb64\<close> is \<open>base64.b64decode\<close>, \<open>b64\<close> its inverse.
\<close>

section \<open>Model\<close>

record skill_fs =
  sf_files :: skill_tree
  sf_readonly :: "string list list"

definition MAX_PACKAGE_BYTES :: nat where
  "MAX_PACKAGE_BYTES = 32 * 1024 * 1024"

definition safe_segment :: "string \<Rightarrow> string option" where
  "safe_segment v = (if v = [] \<or> v \<in> {''.'', ''..''} \<or> CHR ''/'' \<in> set v \<or> backslash \<in> set v \<or> CHR '':'' \<in> set v then None else Some v)"

definition forward_slashes :: "string \<Rightarrow> string" where
  "forward_slashes s = map (\<lambda>c. if c = backslash then CHR ''/'' else c) s"

definition safe_relative_path :: "string \<Rightarrow> string list option" where
  "safe_relative_path v =
     (let normalized = forward_slashes v;
          parts = filter (\<lambda>p. p \<noteq> [] \<and> p \<noteq> ''.'') (py_split_on (CHR ''/'') normalized) in
      if parts = [] \<or> py_startswith normalized ''/'' \<or> ''..'' \<in> set parts \<or> list_ex (\<lambda>p. CHR '':'' \<in> set p) parts then None
      else Some parts)"

text \<open>Every path from the root of the package down to a file of it.\<close>

definition make_read_only :: "string list \<Rightarrow> skill_fs \<Rightarrow> skill_fs" where
  "make_read_only root s = s\<lparr>sf_readonly := root # concat (map (\<lambda>(p, _). map (\<lambda>k. take k p) [length root..<Suc (length p)])
       (filter (\<lambda>(p, _). take (length root) p = root) (sf_files s))) @ sf_readonly s\<rparr>"

definition remove_tree :: "string list \<Rightarrow> skill_fs \<Rightarrow> skill_fs" where
  "remove_tree root s = \<lparr>sf_files = rmtree root (sf_files s), sf_readonly = filter (\<lambda>p. take (length root) p \<noteq> root) (sf_readonly s)\<rparr>"

definition cleanup_skill_package :: "string list \<Rightarrow> skill_fs \<Rightarrow> skill_fs" where
  "cleanup_skill_package root s = remove_tree root s"

fun write_entries :: "(json \<Rightarrow> string) \<Rightarrow> (string \<Rightarrow> string option) \<Rightarrow> string list \<Rightarrow> json list \<Rightarrow> nat \<Rightarrow> skill_fs \<Rightarrow> (string + nat) \<times> skill_fs" where
  "write_entries str unb64 dir [] n s = (Inr n, s)"
| "write_entries str unb64 dir (e # es) n s = (case e of
       JObj d \<Rightarrow> (case safe_relative_path (dict_text str d ''path'') of
           None \<Rightarrow> (Inl ''skill entry escapes the package'', s)
         | Some parts \<Rightarrow> (case unb64 (dict_text str d ''content_b64'') of
             None \<Rightarrow> (Inl ''binascii.Error'', s)
           | Some payload \<Rightarrow>
               if n + length payload > MAX_PACKAGE_BYTES then (Inl ''skill package exceeds the materialization size limit'', s)
               else (case stage_file (dir @ parts) payload (sf_files s) of
                   None \<Rightarrow> (Inl ''OSError'', s)
                 | Some t \<Rightarrow> write_entries str unb64 dir es (n + length payload) (s\<lparr>sf_files := t\<rparr>))))
     | _ \<Rightarrow> (Inl ''AttributeError'', s))"

text \<open>\<open>mkdir(parents=True, exist_ok=True)\<close> fails where a file is in the way.\<close>

definition mkdir_ok :: "string list \<Rightarrow> skill_fs \<Rightarrow> bool" where
  "mkdir_ok dir s = (\<not> list_ex (\<lambda>(q, _). take (length q) dir = q) (sf_files s))"

fun write_skills :: "(json \<Rightarrow> string) \<Rightarrow> (string \<Rightarrow> string option) \<Rightarrow> string list \<Rightarrow> json list \<Rightarrow> nat \<Rightarrow> skill_fs \<Rightarrow> string option \<times> skill_fs" where
  "write_skills str unb64 root [] n s = (None, s)"
| "write_skills str unb64 root (p # ps) n s = (case p of
       JObj d \<Rightarrow> (case safe_segment (dict_text str d ''skill_id'') of
           None \<Rightarrow> (Some ''invalid skill id'', s)
         | Some sid \<Rightarrow>
             if \<not> mkdir_ok (root @ [sid]) s then (Some ''OSError'', s)
             else (case (let v = obj_get d ''files'' JNull in if truthy v then py_iter v else Some []) of
                 None \<Rightarrow> (Some ''TypeError'', s)
               | Some es \<Rightarrow> (case write_entries str unb64 (root @ [sid]) es n s of
                   (Inl e, s1) \<Rightarrow> (Some e, s1)
                 | (Inr n1, s1) \<Rightarrow> write_skills str unb64 root ps n1 s1)))
     | _ \<Rightarrow> (Some ''AttributeError'', s))"

definition materialize_skill_package :: "(json \<Rightarrow> string) \<Rightarrow> (string \<Rightarrow> string option) \<Rightarrow> json list \<Rightarrow> string list \<Rightarrow> skill_fs
    \<Rightarrow> (string + string list option) \<times> skill_fs" where
  "materialize_skill_package str unb64 packages root s =
     (if packages = [] then (Inr None, cleanup_skill_package root s)
      else (case write_skills str unb64 root packages 0 (remove_tree root s) of
          (Some e, s1) \<Rightarrow> (Inl e, s1)
        | (None, s1) \<Rightarrow> (Inr (Some root), make_read_only root s1)))"

text \<open>The dictionaries \<open>skill_package\<close> of the skill source returns.\<close>

definition wire_file :: "(string \<Rightarrow> string) \<Rightarrow> string list \<times> string \<Rightarrow> json" where
  "wire_file b64 f = JObj [(''path'', JStr (forward_slashes (py_join ''/'' (fst f)))), (''content_b64'', JStr (b64 (snd f)))]"

definition wire_package :: "(string \<Rightarrow> string) \<Rightarrow> string \<times> skill_tree \<Rightarrow> json" where
  "wire_package b64 p = JObj [(''skill_id'', JStr (fst p)), (''files'', JArr (map (wire_file b64) (snd p)))]"

section \<open>Paths\<close>

lemma split_sep_no_sep: "p \<in> set (py_split_on c s) \<Longrightarrow> c \<notin> set p"
  by (induction s arbitrary: p) (auto split: if_splits list.splits)

lemma split_sep_nonempty [simp]: "py_split_on c s \<noteq> []"
  by (induction s) (auto split: list.splits)

lemma split_sep_plain: "c \<notin> set p \<Longrightarrow> py_split_on c p = [p]"
  by (induction p) auto

lemma split_sep_append: "c \<notin> set p \<Longrightarrow> py_split_on c (p @ c # s) = p # py_split_on c s"
  by (induction p) auto

lemma split_sep_join: "ps \<noteq> [] \<Longrightarrow> \<forall>p \<in> set ps. c \<notin> set p \<Longrightarrow> py_split_on c (py_join [c] ps) = ps"
  by (induction "[c]" ps rule: py_join.induct) (simp_all add: split_sep_plain split_sep_append)

definition plain_name :: "string \<Rightarrow> bool" where
  "plain_name p = (p \<noteq> [] \<and> p \<noteq> ''.'' \<and> p \<noteq> ''..'' \<and> CHR ''/'' \<notin> set p \<and> CHR '':'' \<notin> set p \<and> backslash \<notin> set p)"

lemma safe_segment_plain: "safe_segment v = Some w \<longleftrightarrow> w = v \<and> plain_name v"
  by (auto simp: safe_segment_def plain_name_def)

lemma safe_relative_path_plain:
  assumes "safe_relative_path v = Some ps"
  shows "ps \<noteq> [] \<and> list_all plain_name ps"
proof -
  have "backslash \<notin> set (forward_slashes v)" by (auto simp: forward_slashes_def)
  moreover have "set p \<subseteq> set s" if "p \<in> set (py_split_on c s)" for p c s
    using that by (induction s arbitrary: p) (fastforce split: if_splits list.splits)+
  ultimately show ?thesis using assms split_sep_no_sep
    by (fastforce simp: safe_relative_path_def Let_def list_all_iff list_ex_iff plain_name_def split: if_splits)
qed

lemma py_join_chars: "set (py_join sep ps) \<subseteq> \<Union> (set ` set ps) \<union> set sep"
  by (induction sep ps rule: py_join.induct) auto

lemma forward_slashes_id: "backslash \<notin> set s \<Longrightarrow> forward_slashes s = s"
  by (induction s) (auto simp: forward_slashes_def)

lemma shipped_path:
  assumes "ps \<noteq> []" "list_all plain_name ps"
  shows "safe_relative_path (forward_slashes (py_join ''/'' ps)) = Some ps"
proof -
  have "backslash \<notin> set (py_join ''/'' ps)" using py_join_chars [of "''/''" ps] assms(2) by (fastforce simp: plain_name_def list_all_iff)
  then have f: "forward_slashes (forward_slashes (py_join ''/'' ps)) = py_join ''/'' ps" by (simp add: forward_slashes_id)
  have s: "py_split_on (CHR ''/'') (py_join ''/'' ps) = ps" using assms by (intro split_sep_join) (auto simp: plain_name_def list_all_iff)
  have h: "\<not> py_startswith (py_join ''/'' ps) ''/''"
    using assms by (cases ps rule: remdups_adj.cases) (auto simp: plain_name_def py_startswith_def neq_Nil_conv)
  have "filter (\<lambda>p. p \<noteq> [] \<and> p \<noteq> ''.'') ps = ps" using assms(2) by (auto simp: filter_id_conv plain_name_def list_all_iff)
  then show ?thesis using assms h by (auto simp: safe_relative_path_def f s plain_name_def list_all_iff list_ex_iff Let_def)
qed

section \<open>Files stay in the package\<close>

definition tree_size :: "skill_tree \<Rightarrow> nat" where
  "tree_size t = sum_list (map (\<lambda>(_, b). length b) t)"

lemma tree_size_simps [simp]: "tree_size [] = 0" "tree_size ((p, b) # t) = length b + tree_size t" "tree_size (s @ t) = tree_size s + tree_size t"
  by (simp_all add: tree_size_def)

lemma below_update_size: "tree_size (below d (AList.update p b t)) \<le> tree_size (below d t) + length b"
  by (induction t) (auto simp: below_def)

text \<open>A package being written: at most \<open>n\<close> bytes below the root, in plain paths, and nothing changed elsewhere.\<close>

definition within :: "string list \<Rightarrow> skill_fs \<Rightarrow> nat \<Rightarrow> skill_fs \<Rightarrow> bool" where
  "within root s n s' = (tree_size (below root (sf_files s')) \<le> n \<and> n \<le> MAX_PACKAGE_BYTES
     \<and> (\<forall>p \<in> fst ` set (sf_files s'). under root p \<longrightarrow> (\<exists>sid ps. p = root @ sid # ps \<and> ps \<noteq> [] \<and> list_all plain_name (sid # ps)))
     \<and> (\<forall>p. \<not> under root p \<longrightarrow> map_of (sf_files s') p = map_of (sf_files s) p) \<and> sf_readonly s' = sf_readonly s)"

lemma within_write:
  assumes "within root s n s1" "stage_file (root @ sid # ps) b (sf_files s1) = Some t" "plain_name sid" "ps \<noteq> []" "list_all plain_name ps"
    "n + length b \<le> MAX_PACKAGE_BYTES"
  shows "within root s (n + length b) (s1\<lparr>sf_files := t\<rparr>)"
proof -
  have t: "t = AList.update (root @ sid # ps) b (sf_files s1)" using assms(2) by (auto simp: stage_file_def split: if_splits)
  have "tree_size (below root t) \<le> n + length b"
    using below_update_size [of root "root @ sid # ps" b "sf_files s1"] assms(1) by (simp add: within_def t)
  moreover have "fst ` set t = insert (root @ sid # ps) (fst ` set (sf_files s1))" by (simp add: t dom_update)
  moreover have "map_of t p = map_of (sf_files s) p" if "\<not> under root p" for p
    using that assms(1) by (auto simp: t within_def update_conv')
  ultimately show ?thesis using assms by (auto simp: within_def)
qed

lemma write_entries_within:
  assumes "write_entries str unb64 (root @ [sid]) es n s1 = (r, s')" "within root s n s1" "plain_name sid"
  shows "\<exists>m. within root s m s' \<and> (\<forall>k. r = Inr k \<longrightarrow> m = k)"
  using assms(1,2)
proof (induction es arbitrary: n s1)
  case (Cons e es)
  have go: ?case if "safe_relative_path v = Some ps" "stage_file ((root @ [sid]) @ ps) b (sf_files s1) = Some t" "n + length b \<le> MAX_PACKAGE_BYTES"
    "write_entries str unb64 (root @ [sid]) es (n + length b) (s1\<lparr>sf_files := t\<rparr>) = (r, s')" for v ps b t
  proof -
    have "within root s (n + length b) (s1\<lparr>sf_files := t\<rparr>)"
      using that safe_relative_path_plain [OF that(1)] assms(3) by (intro within_write [OF Cons.prems(2)]) auto
    then show ?thesis by (rule Cons.IH [OF that(4)])
  qed
  show ?case
  proof (cases e)
    case (JObj d)
    with Cons.prems show ?thesis by (auto split: option.splits if_splits intro: go simp: not_less)
  qed (use Cons.prems in auto)
qed auto

lemma write_packages_within:
  assumes "write_skills str unb64 root ps n s1 = (r, s')" "within root s n s1"
  shows "\<exists>m. within root s m s'"
  using assms
proof (induction ps arbitrary: n s1)
  case (Cons p ps)
  have go: ?case if "safe_segment v = Some sid" "write_entries str unb64 (root @ [sid]) es n s1 = (q, s2)"
    "case q of Inl e \<Rightarrow> s' = s2 | Inr k \<Rightarrow> write_skills str unb64 root ps k s2 = (r, s')" for v sid es q s2
    using write_entries_within [OF that(2) Cons.prems(2)] that(1,3) Cons.IH by (auto simp: safe_segment_plain split: sum.splits)
  show ?case
  proof (cases p)
    case (JObj d)
    with Cons.prems show ?thesis by (auto simp: Let_def split: option.splits if_splits prod.splits sum.splits intro: go Cons.IH)
  qed (use Cons.prems in auto)
qed auto

lemma within_start: "within root (remove_tree root s) 0 (remove_tree root s)"
proof -
  have "below root (rmtree root (sf_files s)) = []" by simp
  moreover have "\<not> under root p" if "p \<in> fst ` set (rmtree root (sf_files s))" for p using that by (auto simp: rmtree_def)
  ultimately show ?thesis by (auto simp: within_def remove_tree_def)
qed

lemma read_only_below:
  assumes "(p, b) \<in> set (sf_files s)" "under root p" "length root \<le> k"
  shows "take k p \<in> set (sf_readonly (make_read_only root s))"
proof -
  have l: "length root \<le> length p" using assms(2) by (metis length_take min.cobounded1)
  have "take k p = take (min k (length p)) p" by (simp add: min_def)
  moreover have "min k (length p) \<in> set [length root..<Suc (length p)]" using assms(3) l by auto
  ultimately have "take k p \<in> set (map (\<lambda>k. take k p) [length root..<Suc (length p)])" by (metis image_eqI set_map)
  then show ?thesis using assms(1,2) by (force simp: make_read_only_def simp del: upt_Suc)
qed

text \<open>C37. Skills stay in their directory. Whatever package a run brings and however materialising it ends, no file outside the run's skill
  directory changes, every file below it lies in a skill's directory at a path without \<open>..\<close>, absolute or drive
  parts, and together they stay within the size limit; after success every file and directory of it is read-only.\<close>

theorem skills_stay_in_their_root:
  assumes "materialize_skill_package str unb64 packages root s = (res, s')"
  shows "(\<forall>p. \<not> under root p \<longrightarrow> map_of (sf_files s') p = map_of (sf_files s) p)
    \<and> (\<forall>p \<in> fst ` set (sf_files s'). under root p \<longrightarrow> (\<exists>sid ps. p = root @ sid # ps \<and> ps \<noteq> [] \<and> list_all plain_name (sid # ps)))
    \<and> tree_size (below root (sf_files s')) \<le> MAX_PACKAGE_BYTES
    \<and> (res = Inr (Some r) \<longrightarrow> (\<forall>p \<in> fst ` set (sf_files s'). under root p \<longrightarrow> (\<forall>k \<ge> length root. take k p \<in> set (sf_readonly s'))))"
proof -
  obtain s1 m where w: "within root (remove_tree root s) m s1" "sf_files s' = sf_files s1" "res = Inr (Some r) \<Longrightarrow> s' = make_read_only root s1"
  proof (cases "packages = []")
    case True
    with assms within_start [of root s] show ?thesis by (intro that [of 0 "remove_tree root s"]) (auto simp: materialize_skill_package_def cleanup_skill_package_def)
  next
    case False
    obtain e s1 where e: "write_skills str unb64 root packages 0 (remove_tree root s) = (e, s1)" by (rule prod.exhaust)
    from write_packages_within [OF e within_start] obtain m where "within root (remove_tree root s) m s1" by blast
    with assms False e show ?thesis
      by (intro that [of m s1]) (auto simp: materialize_skill_package_def make_read_only_def split: option.splits)
  qed
  have "map_of (sf_files s') p = map_of (sf_files s) p" if "\<not> under root p" for p
    using w(1,2) that by (simp add: within_def remove_tree_def map_of_rmtree)
  moreover have "take k p \<in> set (sf_readonly s')" if "res = Inr (Some r)" "p \<in> fst ` set (sf_files s')" "under root p" "k \<ge> length root" for p k
    using w(2) w(3) [OF that(1)] that(2-) read_only_below by fastforce
  ultimately show ?thesis using w(1,2) by (auto simp: within_def)
qed

theorem skills_stay_in_their_root_witness: "\<exists>res s'. materialize_skill_package (\<lambda>_. []) Some
    [JObj [(''skill_id'', JStr ''s1''), (''files'', JArr [JObj [(''path'', JStr ''../../etc/passwd''), (''content_b64'', JStr ''x'')]])]]
    [''skills'', ''r1''] \<lparr>sf_files = [([''etc'', ''passwd''], ''root'')], sf_readonly = []\<rparr> = (res, s')
  \<and> map_of (sf_files s') [''etc'', ''passwd''] = Some ''root''"
proof -
  let ?m = "materialize_skill_package (\<lambda>_. []) Some
    [JObj [(''skill_id'', JStr ''s1''), (''files'', JArr [JObj [(''path'', JStr ''../../etc/passwd''), (''content_b64'', JStr ''x'')]])]]
    [''skills'', ''r1''] \<lparr>sf_files = [([''etc'', ''passwd''], ''root'')], sf_readonly = []\<rparr>"
  obtain res s' where m: "?m = (res, s')" by (rule prod.exhaust)
  have "map_of (sf_files s') [''etc'', ''passwd''] = Some ''root''" using skills_stay_in_their_root [OF m, of undefined] by simp
  with m show ?thesis by blast
qed

section \<open>An installed skill reaches the run\<close>

text \<open>Trees a directory can hold: no file lies below another.\<close>

definition loose :: "skill_tree \<Rightarrow> bool" where
  "loose t = (distinct (map fst t) \<and> (\<forall>p \<in> fst ` set t. \<forall>q \<in> fst ` set t. under p q \<longrightarrow> p = q))"

lemma stage_file_loose:
  assumes "stage_file p b t = Some t'" "loose t"
  shows "loose t' \<and> fst ` set t' = insert p (fst ` set t) \<and> tree_size t' \<le> tree_size t + length b"
proof -
  have t': "t' = AList.update p b t" and f: "\<And>q. q \<in> fst ` set t \<Longrightarrow> q \<noteq> p \<Longrightarrow> \<not> under q p \<and> \<not> under p q"
    using assms(1) by (force simp: stage_file_def list_ex_iff split: if_splits)+
  have "tree_size (AList.update p b t) \<le> tree_size t + length b" by (induction t) auto
  then show ?thesis using assms(2) f by (auto simp: t' loose_def distinct_update dom_update)
qed

lemma stage_files_loose:
  assumes "stage_files files n t = Inr st" "loose t" "tree_size t \<le> n" "n \<le> MAX_UNPACKED_SIZE"
  shows "loose st \<and> tree_size st \<le> MAX_UNPACKED_SIZE \<and> (\<forall>p \<in> fst ` set st. p \<in> fst ` set t \<or> p \<noteq> [] \<and> ''..'' \<notin> set p \<and> p \<in> (\<lambda>(name, _). snd (path_of name)) ` set files)"
  using assms
proof (induction files n t rule: stage_files.induct)
  case (2 name b fs n t)
  then obtain t' where t': "stage_file (snd (path_of name)) b t = Some t'" "stage_files fs (n + length b) t' = Inr st"
      "\<not> (fst (path_of name) \<noteq> [] \<or> ''..'' \<in> set (snd (path_of name)))" "\<not> length b > MAX_ENTRY_SIZE" "\<not> n + length b > MAX_UNPACKED_SIZE"
    by (auto split: if_splits option.splits)
  have ne: "snd (path_of name) \<noteq> []" using t'(1) by (auto simp: stage_file_def)
  note l = stage_file_loose [OF t'(1) 2(3)]
  have "loose st \<and> tree_size st \<le> MAX_UNPACKED_SIZE \<and> (\<forall>p \<in> fst ` set st. p \<in> fst ` set t' \<or> p \<noteq> [] \<and> ''..'' \<notin> set p \<and> p \<in> (\<lambda>(name, _). snd (path_of name)) ` set fs)"
    using 2(4) l t'(5) by (intro 2(1) [OF t'(3,4,1,5,2)]) auto
  then show ?case using l ne t'(3) by auto
qed auto

lemma update_absent: "k \<notin> fst ` set xs \<Longrightarrow> AList.update k v xs = xs @ [(k, v)]"
  by (induction xs) auto

lemma write_all:
  assumes "list_all (\<lambda>(p, b). p \<noteq> [] \<and> list_all plain_name p) fs" "loose fs" "n + tree_size fs \<le> MAX_PACKAGE_BYTES"
    "\<forall>q \<in> fst ` set (sf_files s). \<forall>p \<in> fst ` set fs. \<not> under q (dir @ p) \<and> \<not> under (dir @ p) q" "\<And>x. unb64 (b64 x) = Some x"
  shows "write_entries str unb64 dir (map (wire_file b64) fs) n s = (Inr (n + tree_size fs), s\<lparr>sf_files := sf_files s @ map (\<lambda>(p, b). (dir @ p, b)) fs\<rparr>)"
  using assms(1-4)
proof (induction fs arbitrary: n s)
  case (Cons f fs)
  obtain p b where f: "f = (p, b)" by (rule prod.exhaust)
  let ?s = "s\<lparr>sf_files := sf_files s @ [(dir @ p, b)]\<rparr>"
  have ne: "p \<noteq> []" "list_all plain_name p" using Cons.prems(1) by (simp_all add: f)
  let ?d = "[(''path'', JStr (forward_slashes (py_join ''/'' p))), (''content_b64'', JStr (b64 b))]"
  have d: "safe_relative_path (dict_text str ?d ''path'') = Some p" "unb64 (dict_text str ?d ''content_b64'') = Some b"
    using shipped_path [OF ne] assms(5) [of b] by (cases "b64 b = []"; auto simp: dict_text_def obj_get_def py_str_def)+
  have "dir @ p \<notin> fst ` set (sf_files s)" using Cons.prems(4) by (auto simp: f)
  then have st: "stage_file (dir @ p) b (sf_files s) = Some (sf_files s @ [(dir @ p, b)])"
    using Cons.prems(4) ne by (force simp: stage_file_def list_ex_iff f update_absent)
  have "write_entries str unb64 dir (map (wire_file b64) fs) (n + length b) ?s
      = (Inr (n + length b + tree_size fs), ?s\<lparr>sf_files := sf_files ?s @ map (\<lambda>(p, b). (dir @ p, b)) fs\<rparr>)"
    using Cons.prems by (intro Cons.IH) (auto simp: f loose_def)
  moreover have "wire_file b64 f = JObj ?d" by (simp add: wire_file_def f)
  ultimately show ?case using d st Cons.prems(3) by (simp add: f)
qed simp

lemma apart: "\<not> under root q \<Longrightarrow> \<not> under q root \<Longrightarrow> \<not> under q (root @ p) \<and> \<not> under (root @ p) q"
proof (intro conjI notI)
  assume n: "\<not> under root q" "\<not> under q root"
  show False if "under q (root @ p)"
  proof (cases "length q \<le> length root")
    case True
    with that n(2) show False by simp
  next
    case False
    with that have "root @ take (length q - length root) p = q" by simp
    with n(1) show False by (metis append_eq_conv_conj)
  qed
  show False if "under (root @ p) q"
  proof -
    have "take (length root) (take (length (root @ p)) q) = root" using that by simp
    with n(1) show False by (simp add: min_def)
  qed
qed

lemma loose_sort: "loose (sort_key f st) = loose st" "tree_size (sort_key f st) = tree_size st"
proof -
  have m: "mset (map g (sort_key f st)) = mset (map g st)" for g :: "string list \<times> string \<Rightarrow> 'b" by simp
  have "distinct (map fst (sort_key f st)) = distinct (map fst st)" by (rule mset_eq_imp_distinct_iff [OF m])
  then show "loose (sort_key f st) = loose st" by (simp add: loose_def)
  show "tree_size (sort_key f st) = tree_size st" unfolding tree_size_def by (metis m sum_mset_sum_list)
qed

lemma path_of_plain:
  assumes "CHR '':'' \<notin> set name" "backslash \<notin> set name" "''..'' \<notin> set (snd (path_of name))"
  shows "list_all plain_name (snd (path_of name))"
proof -
  have "set p \<subseteq> set s" if "p \<in> set (py_split_on c s)" for p c s
    using that by (induction s arbitrary: p) (fastforce split: if_splits list.splits)+
  then show ?thesis using assms split_sep_no_sep by (fastforce simp: path_of_def list_all_iff plain_name_def)
qed

lemma valid_skill_id_plain: "valid_skill_id sid \<Longrightarrow> plain_name sid"
  by (cases sid) (auto simp: valid_skill_id_def plain_name_def list_all_iff is_alnum_ascii_def)

text \<open>C35. An installed skill reaches the run. A skill that was installed from files whose names have no colon and no backslash is shipped and
  materialised in the runner without error, as exactly the files of the upload, when nothing but directories lies on
  the way to the run's skill directory and decoding base 64 inverts encoding it.\<close>

theorem installed_skill_materialized:
  assumes "install_skill sha sid files tenant t = Inr (m, t')" "\<forall>(name, b) \<in> set files. CHR '':'' \<notin> set name \<and> backslash \<notin> set name"
    "mkdir_ok root (remove_tree root s)" "\<And>x. unb64 (b64 x) = Some x"
  shows "\<exists>pkg s'. skill_package [sid] tenant t' = Inr pkg
    \<and> materialize_skill_package str unb64 (map (wire_package b64) pkg) root s = (Inr (Some root), s')
    \<and> (\<forall>p. map_of (sf_files s') (root @ sid # p) = package_map files p)"
proof -
  from installed_package [OF assms(1)] obtain st where st: "valid_skill_id sid" "stage_files files 0 [] = Inr st" "map_of st = package_map files"
    "skill_package [sid] tenant t' = Inr [(sid, sort_key fst st)]" by blast
  let ?fs = "sort_key fst st" and ?s = "remove_tree root s" and ?dir = "root @ [sid]"
  have l: "loose st" "tree_size st \<le> MAX_UNPACKED_SIZE"
    "\<forall>p \<in> fst ` set st. p \<noteq> [] \<and> ''..'' \<notin> set p \<and> p \<in> (\<lambda>(name, _). snd (path_of name)) ` set files"
    using stage_files_loose [OF st(2)] by (auto simp: loose_def)
  have plain: "list_all (\<lambda>(p, b). p \<noteq> [] \<and> list_all plain_name p) ?fs"
    using l(3) assms(2) path_of_plain by (fastforce simp: list_all_iff)
  have free: "\<forall>q \<in> fst ` set (sf_files ?s). \<not> under root q \<and> \<not> under q root"
    using assms(3) by (auto simp: mkdir_ok_def remove_tree_def rmtree_def list_ex_iff)
  have w: "write_entries str unb64 ?dir (map (wire_file b64) ?fs) 0 ?s = (Inr (0 + tree_size ?fs), ?s\<lparr>sf_files := sf_files ?s @ map (\<lambda>(p, b). (?dir @ p, b)) ?fs\<rparr>)"
  proof (rule write_all [OF plain])
    show "loose ?fs" using l(1) by (simp add: loose_sort)
    show "0 + tree_size ?fs \<le> MAX_PACKAGE_BYTES" using l(2) by (simp add: loose_sort MAX_UNPACKED_SIZE_def MAX_PACKAGE_BYTES_def)
    show "\<forall>q \<in> fst ` set (sf_files ?s). \<forall>p \<in> fst ` set ?fs. \<not> under q (?dir @ p) \<and> \<not> under (?dir @ p) q"
      using free apart unfolding append_assoc by blast
  qed (rule assms(4))
  have mk: "mkdir_ok ?dir ?s" using free apart [of root _ "[sid]"] by (force simp: mkdir_ok_def list_ex_iff)
  let ?s' = "make_read_only root (?s\<lparr>sf_files := sf_files ?s @ map (\<lambda>(p, b). (?dir @ p, b)) ?fs\<rparr>)"
  let ?d = "[(''skill_id'', JStr sid), (''files'', JArr (map (wire_file b64) ?fs))]"
  have sid: "safe_segment (dict_text str ?d ''skill_id'') = Some sid"
    using valid_skill_id_plain [OF st(1)] by (auto simp: dict_text_def obj_get_def py_str_def safe_segment_plain plain_name_def)
  have "write_skills str unb64 root [wire_package b64 (sid, ?fs)] 0 ?s = (None, ?s\<lparr>sf_files := sf_files ?s @ map (\<lambda>(p, b). (?dir @ p, b)) ?fs\<rparr>)"
    using w mk sid by (cases ?fs) (simp_all add: wire_package_def obj_get_def Let_def)
  then have "materialize_skill_package str unb64 (map (wire_package b64) [(sid, ?fs)]) root s = (Inr (Some root), ?s')"
    by (simp add: materialize_skill_package_def)
  moreover have "map_of (sf_files ?s') (root @ sid # p) = package_map files p" for p
  proof -
    have "root @ sid # p \<notin> fst ` set (sf_files ?s)" using free by force
    then have "map_of (sf_files ?s') (root @ sid # p) = map_of (map (\<lambda>(p, b). (?dir @ p, b)) ?fs) (root @ sid # p)"
      by (simp add: make_read_only_def map_add_def map_of_eq_None_iff [symmetric] split: option.split)
    also have "\<dots> = map_of ?fs p" by (simp only: map_of_moved) simp
    also have "\<dots> = map_of st p"
      using l(1) loose_sort(1) [of fst st] map_of_inject_set [of ?fs st] by (simp add: loose_def)
    finally show ?thesis by (simp add: st(3))
  qed
  ultimately show ?thesis using st(4) by blast
qed

theorem installed_skill_materialized_witness:
  "\<exists>m t' pkg s'. install_skill (\<lambda>_. ''d'') ''s1'' [(''SKILL.md'', ''---'' @ nl # ''name: a'' @ nl # ''description: b'' @ nl # ''---'' @ [nl]),
       (''bin/x'', ''1'')] None [] = Inr (m, t')
     \<and> materialize_skill_package (\<lambda>_. []) Some (map (wire_package id) pkg) [''skills'', ''r1''] \<lparr>sf_files = [], sf_readonly = []\<rparr> = (Inr (Some [''skills'', ''r1'']), s')
     \<and> map_of (sf_files s') [''skills'', ''r1'', ''s1'', ''bin'', ''x''] = Some ''1''"
proof -
  let ?md = "''---'' @ nl # ''name: a'' @ nl # ''description: b'' @ nl # ''---'' @ [nl]"
  let ?files = "[(''SKILL.md'', ?md), (''bin/x'', ''1'')]" and ?s = "\<lparr>sf_files = [], sf_readonly = []\<rparr>"
  have p: "path_of ''SKILL.md'' = ([], [''SKILL.md''])" "path_of ''bin/x'' = ([], [''bin'', ''x''])" by code_simp+
  have fm: "parse_skill_frontmatter (universal_newlines ?md) = [(''name'', ''a''), (''description'', ''b'')]" by code_simp
  have v: "valid_skill_id ''s1''" by code_simp
  obtain m t' where i: "install_skill (\<lambda>_. ''d'') ''s1'' ?files None [] = Inr (m, t')"
    using fm by (simp add: install_skill_eq v p skill_namespace_eq valid_tenant_def stage_file_def or_else_def Let_def rmtree_def
        MAX_ENTRY_SIZE_def MAX_UNPACKED_SIZE_def)
  have n: "\<forall>(name, b) \<in> set ?files. CHR '':'' \<notin> set name \<and> backslash \<notin> set name" by simp
  have mk: "mkdir_ok [''skills'', ''r1''] (remove_tree [''skills'', ''r1''] ?s)" by (simp add: mkdir_ok_def remove_tree_def rmtree_def)
  have pm: "package_map ?files [''bin'', ''x''] = Some ''1''" by (simp add: package_map_def p)
  from installed_skill_materialized [OF i n mk, of Some id "\<lambda>_. []"] obtain pkg s' where
    "materialize_skill_package (\<lambda>_. []) Some (map (wire_package id) pkg) [''skills'', ''r1''] ?s = (Inr (Some [''skills'', ''r1'']), s')"
    "\<forall>p. map_of (sf_files s') ([''skills'', ''r1''] @ ''s1'' # p) = package_map ?files p" by auto
  moreover from this(2) have "map_of (sf_files s') [''skills'', ''r1'', ''s1'', ''bin'', ''x''] = Some ''1''" using pm by simp
  ultimately show ?thesis using i by blast
qed

text \<open>A name with a colon is installed and shipped, and refused by every runner.\<close>

lemma colon_name_installed: "stage_files [(''SKILL.md'', ''x''), (''a:b'', ''y'')] 0 [] = Inr [([''SKILL.md''], ''x''), ([''a:b''], ''y'')]"
proof -
  have "path_of ''SKILL.md'' = ([], [''SKILL.md''])" "path_of ''a:b'' = ([], [''a:b''])" by code_simp+
  then show ?thesis by (simp add: stage_file_def MAX_ENTRY_SIZE_def MAX_UNPACKED_SIZE_def)
qed

lemma colon_name_refused: "write_entries str unb64 dir (wire_file b64 ([''a:b''], x) # es) n s = (Inl ''skill entry escapes the package'', s)"
proof -
  have "safe_relative_path (forward_slashes (py_join ''/'' [''a:b''])) = None" by code_simp
  moreover have "dict_text str [(''path'', JStr (forward_slashes (py_join ''/'' [''a:b'']))), (''content_b64'', JStr (b64 x))] ''path'' = forward_slashes (py_join ''/'' [''a:b''])"
    by (simp add: dict_text_def obj_get_def py_str_def forward_slashes_def)
  ultimately show ?thesis by (simp add: wire_file_def)
qed

end
