(* ===== verification/Runner_Registration.thy ===== *)
theory Runner_Registration
  imports Runner_Registry
begin

text \<open>
  The registration client of a runner process, \<open>session_runner/registration.py\<close>, against the registry operations of the control plane.
  Every exchange goes over a \<open>link\<close>: it gets through, the request is lost, or the control plane acts and its reply is lost; any
  exception of the client library is one of the last two. The client is verified against the interface of a registry and then
  for the registry over the repository. Parameters are those of \<open>Runner_Registry\<close>; the interval between heartbeats appears as the times
  at which they are sent.
\<close>

section \<open>The client\<close>

datatype link = Through | RequestLost | ReplyLost

record reg_client =
  rcl_request :: runner_registration_request
  rcl_bootstrap :: string
  rcl_response :: "(uuid \<times> string) option"

definition RUNNER_CAPABILITIES :: "string list" where
  "RUNNER_CAPABILITIES = [''run'', ''input'', ''checkpoint'', ''cancel'', ''events'', ''resume'']"

text \<open>\<open>_env\<close>: the stripped value of a variable; an unset or empty one is \<open>None\<close>.\<close>

definition env_text :: "(string \<Rightarrow> string option) \<Rightarrow> string \<Rightarrow> string option" where
  "env_text env n = (if str_true (env n) then map_option py_strip (env n) else None)"

definition env_or :: "(string \<Rightarrow> string option) \<Rightarrow> string \<Rightarrow> string \<Rightarrow> string" where
  "env_or env n d = (if str_true (env_text env n) then the (env_text env n) else d)"

definition runner_registration_client_from_env :: "(string \<Rightarrow> string option) \<Rightarrow> string \<Rightarrow> string option \<Rightarrow> reg_client option" where
  "runner_registration_client_from_env env mode endpoint =
     (if \<not> str_true (env_text env ''AGENTSUPPORT_CONTROL_PLANE_URL'') \<or> \<not> str_true (env_text env ''SESSION_RUNNER_TOKEN'') then None
      else Some \<lparr>rcl_request = \<lparr>rq_provider = env_or env ''SESSION_RUNNER_PROVIDER'' mode,
             rq_endpoint = rstrip_slash (if str_true endpoint then the endpoint else env_or env ''SESSION_RUNNER_ENDPOINT'' ''http://127.0.0.1:8080''),
             rq_version = env_or env ''SESSION_RUNNER_VERSION'' ''0.1.0'', rq_capabilities = RUNNER_CAPABILITIES,
             rq_metadata = [(''tenant_id'', JStr (env_or env ''SESSION_RUNNER_TENANT_ID'' []))]\<rparr>,
           rcl_bootstrap = env_or env ''SESSION_RUNNER_TOKEN'' [], rcl_response = None\<rparr>)"

definition client_register ::
  "(uuid \<Rightarrow> time \<Rightarrow> runner_registration_request \<Rightarrow> string \<Rightarrow> 's \<Rightarrow> registry_conflict + (runner_registration \<times> 's))
   \<Rightarrow> (string \<Rightarrow> string) \<Rightarrow> string option \<Rightarrow> uuid \<Rightarrow> time \<Rightarrow> string \<Rightarrow> link \<Rightarrow> reg_client \<times> 's \<Rightarrow> bool \<times> reg_client \<times> 's" where
  "client_register register hash cfg rid now token l cs = (case cs of (c, s) \<Rightarrow>
     if l = RequestLost then (False, c, s)
     else (case register_runner register hash cfg rid now token (rcl_request c) (Some (rcl_bootstrap c)) s of
         Inl e \<Rightarrow> (False, c, s)
       | Inr (res, s1) \<Rightarrow> if l = ReplyLost then (False, c, s1) else (True, c\<lparr>rcl_response := Some res\<rparr>, s1)))"

definition READY_BEAT :: runner_heartbeat where
  "READY_BEAT = \<lparr>hb_status = ''READY'', hb_load = 0, hb_capabilities = None\<rparr>"

definition heartbeat_once ::
  "(uuid \<Rightarrow> 's \<Rightarrow> string option) \<Rightarrow> (uuid \<Rightarrow> string \<Rightarrow> int \<Rightarrow> string list option \<Rightarrow> time \<Rightarrow> 's \<Rightarrow> runner_registration option \<times> 's)
   \<Rightarrow> (string \<Rightarrow> string) \<Rightarrow> time \<Rightarrow> link \<Rightarrow> reg_client \<times> 's \<Rightarrow> bool \<times> reg_client \<times> 's" where
  "heartbeat_once token_hash heartbeat hash now l cs = (case cs of (c, s) \<Rightarrow>
     (case rcl_response c of None \<Rightarrow> (False, c, s)
      | Some (rid, token) \<Rightarrow>
          if l = RequestLost then (False, c, s)
          else (case runner_heartbeat_op token_hash heartbeat hash now rid READY_BEAT (Some token) s of
              Inl e \<Rightarrow> (False, c, s)
            | Inr (e, s1) \<Rightarrow> (l = Through, c, s1))))"

definition client_deregister ::
  "(uuid \<Rightarrow> 's \<Rightarrow> string option) \<Rightarrow> (uuid \<Rightarrow> 's \<Rightarrow> bool \<times> 's) \<Rightarrow> (string \<Rightarrow> string) \<Rightarrow> link \<Rightarrow> reg_client \<times> 's \<Rightarrow> bool \<times> reg_client \<times> 's" where
  "client_deregister token_hash deregister hash l cs = (case cs of (c, s) \<Rightarrow>
     (case rcl_response c of None \<Rightarrow> (False, c, s)
      | Some (rid, token) \<Rightarrow>
          if l = RequestLost then (False, c, s)
          else (case runner_deregister_op token_hash deregister hash rid (Some token) s of
              Inl e \<Rightarrow> (False, c, s)
            | Inr s1 \<Rightarrow> (l = Through, c, s1))))"

text \<open>The heartbeat task between start and stop, interleaved with the pruning of the control plane.\<close>

datatype beat_event = Beat time link | Prune time

fun beat_time :: "beat_event \<Rightarrow> time" where
  "beat_time (Beat t _) = t"
| "beat_time (Prune t) = t"

fun registration_step ::
  "(uuid \<Rightarrow> 's \<Rightarrow> string option) \<Rightarrow> (uuid \<Rightarrow> string \<Rightarrow> int \<Rightarrow> string list option \<Rightarrow> time \<Rightarrow> 's \<Rightarrow> runner_registration option \<times> 's)
   \<Rightarrow> (time \<Rightarrow> time \<Rightarrow> 's \<Rightarrow> uuid list \<times> 's) \<Rightarrow> (string \<Rightarrow> string) \<Rightarrow> time \<Rightarrow> beat_event \<Rightarrow> reg_client \<times> 's \<Rightarrow> reg_client \<times> 's" where
  "registration_step token_hash heartbeat expire hash timeout (Beat now l) cs = snd (heartbeat_once token_hash heartbeat hash now l cs)"
| "registration_step token_hash heartbeat expire hash timeout (Prune now) cs = (fst cs, snd (prune_stale_runners expire now timeout (snd cs)))"

text \<open>Every pruning comes within the timeout of a heartbeat the control plane received, the first being the registration at \<open>t0\<close>.\<close>

fun timely :: "time \<Rightarrow> time \<Rightarrow> beat_event list \<Rightarrow> bool" where
  "timely timeout t0 [] = True"
| "timely timeout t0 (Beat t l # es) = timely timeout (if l = RequestLost then t0 else t) es"
| "timely timeout t0 (Prune t # es) = (t - timeout \<le> t0 \<and> timely timeout t0 es)"

section \<open>Against the interface\<close>

context runner_registry
begin

lemma beaten:
  assumes "invar s" "get rid s = Some r" "token_hash rid s = Some (hash token)" "token \<noteq> []" "rcl_response c = Some (rid, token)"
    "l \<noteq> RequestLost"
  shows "\<exists>s1. heartbeat_once token_hash heartbeat hash now l (c, s) = (l = Through, c, s1) \<and> invar s1
    \<and> get rid s1 = Some (beat ''READY'' 0 None now r) \<and> token_hash rid s1 = Some (hash token)"
proof -
  obtain res s1 where h: "heartbeat rid ''READY'' 0 None now s = (res, s1)" by (rule prod.exhaust)
  from heartbeat_ok [OF assms(1) h, of rid] assms(2,3) have
    "invar s1" "res = Some (beat ''READY'' 0 None now r)" "get rid s1 = res" "token_hash rid s1 = Some (hash token)" by auto
  then show ?thesis using assms h
    by (auto simp: heartbeat_once_def runner_heartbeat_op_def verify_runner_token_def str_true_def READY_BEAT_def)
qed

text \<open>A registered runner with timely heartbeats is never pruned.\<close>

lemma kept_alive:
  assumes "invar s" "get rid s = Some r" "rr_status r = ''READY''" "rr_last_heartbeat_at r = t0" "token_hash rid s = Some (hash token)" "token \<noteq> []"
    "rcl_response c = Some (rid, token)" "timely timeout t0 es" "fold (registration_step token_hash heartbeat expire_stale hash timeout) es (c, s) = (c', s')"
  shows "\<exists>r'. get rid s' = Some r' \<and> rr_status r' = ''READY'' \<and> rr_capabilities r' = rr_capabilities r \<and> c' = c \<and> invar s'"
  using assms
proof (induction es arbitrary: s r t0)
  case (Cons e es)
  show ?case
  proof (cases e)
    case (Beat now l)
    show ?thesis
    proof (cases "l = RequestLost")
      case True
      have "registration_step token_hash heartbeat expire_stale hash timeout e (c, s) = (c, s)" using Cons.prems(7) by (simp add: Beat True heartbeat_once_def split: prod.split)
      then show ?thesis using Cons.prems by (intro Cons.IH [of s r t0]) (auto simp: Beat True)
    next
      case False
      from beaten [where now = now and hash = hash, OF Cons.prems(1,2,5,6,7) False] obtain s1 where s1: "heartbeat_once token_hash heartbeat hash now l (c, s) = (l = Through, c, s1)"
        "invar s1" "get rid s1 = Some (beat ''READY'' 0 None now r)" "token_hash rid s1 = Some (hash token)" by blast
      from Cons.IH [OF s1(2,3) _ _ s1(4) Cons.prems(6,7), of now] show ?thesis
        using Cons.prems(8,9) s1(1) False by (simp add: Beat beat_def or_else_def)
    qed
  next
    case (Prune now)
    obtain n s1 where p: "prune_stale_runners expire_stale now timeout s = (n, s1)" by (rule prod.exhaust)
    then obtain stale where x: "expire_stale now timeout s = (stale, s1)" by (auto simp: prune_stale_runners_def split: prod.splits)
    have "invar s1" "get rid s1 = Some r" "token_hash rid s1 = Some (hash token)"
      using expire_ok [OF Cons.prems(1) x, of rid] Cons.prems(2,4,5,8) by (auto simp: Prune)
    from Cons.IH [OF this(1,2) Cons.prems(3,4) this(3) Cons.prems(6,7)] show ?thesis
      using Cons.prems(8,9) p by (simp add: Prune)
  qed
qed auto

text \<open>A runner the control plane does not know stays unknown: no heartbeat registers it again.\<close>

lemma never_returns:
  assumes "invar s" "rcl_response c = None \<or> rcl_response c = Some (rid, token) \<and> get rid s = None"
    "fold (registration_step token_hash heartbeat expire_stale hash timeout) es (c, s) = (c', s')"
  shows "get k s = None \<longrightarrow> get k s' = None"
  using assms
proof (induction es arbitrary: s)
  case (Cons e es)
  obtain s1 where s1: "registration_step token_hash heartbeat expire_stale hash timeout e (c, s) = (c, s1)" "invar s1" "\<And>k. get k s = None \<longrightarrow> get k s1 = None"
  proof (cases e)
    case (Beat now l)
    have "heartbeat_once token_hash heartbeat hash now l (c, s) = (False, c, s)"
      using Cons.prems(1,2) token_domain [OF Cons.prems(1), of rid]
      by (auto simp: heartbeat_once_def runner_heartbeat_op_def verify_runner_token_def split: option.splits prod.splits if_splits)
    then show ?thesis using that [of s] Cons.prems(1) by (simp add: Beat)
  next
    case (Prune now)
    obtain stale s1 where x: "expire_stale now timeout s = (stale, s1)" by (rule prod.exhaust)
    then show ?thesis using that [of s1] expire_ok [OF Cons.prems(1) x] by (simp add: Prune prune_stale_runners_def)
  qed
  have pre: "rcl_response c = None \<or> rcl_response c = Some (rid, token) \<and> get rid s1 = None" using Cons.prems(2) s1(3) by blast
  have f: "fold (registration_step token_hash heartbeat expire_stale hash timeout) es (c, s1) = (c', s')" using Cons.prems(3) s1(1) by simp
  show ?case using Cons.IH [OF s1(2) pre f] s1(3) [of k] by simp
qed auto

end

section \<open>Properties\<close>

text \<open>C9. Heartbeats keep a runner in service. After a registration that got through, as long as no pruning pass comes later than the timeout
  after the last heartbeat the control plane received, whichever replies are lost, the runner stays registered in the
  shared registry, ready, with the capabilities it announced, and the client keeps its identity.\<close>

theorem heartbeats_keep_runner:
  assumes "sql_reg_inv d" "get_runner_registration rid d = None" "token \<noteq> []"
    "client_register sql_register hash cfg rid t0 token Through (c, d) = (True, c1, d1)" "timely timeout t0 es"
    "fold (registration_step get_runner_registration_hash update_runner_registration expire_runner_registrations hash timeout) es (c1, d1) = (c2, d2)"
  shows "rcl_response c2 = Some (rid, token)
    \<and> (\<exists>r. get_runner_registration rid d2 = Some r \<and> r \<in> set (sql_list_ready (Some (rq_capabilities (rcl_request c))) d2))"
proof -
  from assms(4) obtain res where reg: "register_runner sql_register hash cfg rid t0 token (rcl_request c) (Some (rcl_bootstrap c)) d = Inr (res, d1)"
    and c1: "c1 = c\<lparr>rcl_response := Some res\<rparr>" by (auto simp: client_register_def split: sum.splits prod.splits)
  then obtain e where r: "sql_register rid t0 (rcl_request c) (hash token) d = Inr (e, d1)" and res: "res = (rr_id e, token)"
    by (auto simp: register_runner_def split: if_splits sum.splits registry_conflict.splits)
  from sql_reg.register_ok [OF assms(1,2) r, of rid] have e: "sql_reg_inv d1" "e = new_registration rid t0 (rcl_request c)"
    "get_runner_registration rid d1 = Some e" "get_runner_registration_hash rid d1 = Some (hash token)" by auto
  then have f: "rr_status e = ''READY''" "rr_last_heartbeat_at e = t0" "rr_id e = rid" "rr_capabilities e = rq_capabilities (rcl_request c)"
    by (simp_all add: new_registration_def)
  then have "rcl_response c1 = Some (rid, token)" by (simp add: c1 res)
  from sql_reg.kept_alive [OF e(1,3) f(1,2) e(4) assms(3) this assms(5,6)] obtain r' where r': "get_runner_registration rid d2 = Some r'"
    "rr_status r' = ''READY''" "rr_capabilities r' = rr_capabilities e" "c2 = c1" "sql_reg_inv d2" by blast
  have "rr_id r' = rid" using r'(1) by (auto simp: get_runner_registration_def dest: db_get_key)
  then have "r' \<in> set (sql_list_ready (Some (rq_capabilities (rcl_request c))) d2)"
    using r' f(4) by (simp add: sql_reg.ready_iff [OF r'(5)] covers_def)
  then show ?thesis using r'(1,4) c1 res f(3) by auto
qed

theorem heartbeats_keep_runner_witness:
  "\<exists>c1 d1 c2 d2. client_register sql_register rev (Some ''boot'') ''r1'' 5 ''secret'' Through
      (\<lparr>rcl_request = demo_request, rcl_bootstrap = ''boot'', rcl_response = None\<rparr>, empty_db) = (True, c1, d1)
    \<and> fold (registration_step get_runner_registration_hash update_runner_registration expire_runner_registrations rev 30)
        [Beat 20 Through, Prune 45, Beat 46 RequestLost, Prune 50] (c1, d1) = (c2, d2)
    \<and> rcl_response c2 = Some (''r1'', ''secret'') \<and> get_runner_registration ''r1'' d2 \<noteq> None"
proof -
  let ?c = "\<lparr>rcl_request = demo_request, rcl_bootstrap = ''boot'', rcl_response = None\<rparr>"
  obtain c1 d1 where r: "client_register sql_register rev (Some ''boot'') ''r1'' 5 ''secret'' Through (?c, empty_db) = (True, c1, d1)"
    by (simp add: client_register_def register_runner_def str_true_def sql_register_def list_ready_runner_registrations_def
        save_runner_registration_def Let_def)
  have i: "sql_reg_inv empty_db" "get_runner_registration ''r1'' empty_db = None" "''secret'' \<noteq> []"
    by (simp_all add: get_runner_registration_def)
  let ?es = "[Beat 20 Through, Prune 45, Beat 46 RequestLost, Prune 50]"
  have t: "timely 30 5 ?es" by simp
  obtain c2 d2 where f: "fold (registration_step get_runner_registration_hash update_runner_registration expire_runner_registrations rev 30) ?es (c1, d1) = (c2, d2)"
    by (rule prod.exhaust)
  from heartbeats_keep_runner [OF i r t f] r f show ?thesis by auto
qed

text \<open>A registration that failed at start, or a registration the control plane dropped, is never made again by the client.\<close>

lemma lost_registration_stays_lost:
  assumes "sql_reg_inv d" "rcl_response c = None \<or> rcl_response c = Some (rid, token) \<and> get_runner_registration rid d = None"
    "fold (registration_step get_runner_registration_hash update_runner_registration expire_runner_registrations hash timeout) es (c, d) = (c', d')"
    "get_runner_registration k d = None"
  shows "get_runner_registration k d' = None"
  using sql_reg.never_returns [OF assms(1-3)] assms(4) by blast

end
