(* ===== verification/Trae_Adapter.thy ===== *)
theory Trae_Adapter
  imports Trae_Bridge Skill_Materialize "HOL-Library.Product_Lexorder"
begin

text \<open>
  \<open>TraeRuntimeSettings\<close> and \<open>TraeExecutionAdapter\<close> of \<open>session_runner/adapters/trae.py\<close>: what surrounds the tool gateway bridge in a real
  run. The adapter prepares a run (workspace, skills, prompt, command gate, bridge), lets the agent take its
  steps, and turns the end of the agent into the result of the run; on another runner it continues from a checkpoint.

  The vendored agent and its model client are the parameter \<open>brain\<close>: from the results of its steps so far and the world, it gives the
  text it streamed, per attempt of the model call, and its move. The trajectory file the agent writes is read with
  \<open>traj\<close>. Two recognisers of phrases in natural language, \<open>quick\<close> (\<open>_is_quick_talk\<close>) and \<open>apology\<close> (\<open>_looks_like_meta_apology\<close>), are
  parameters too. Texts the source writes in Chinese stand here in English. The MCP clients are those of the agent.
\<close>

section \<open>Settings\<close>

record trae_settings =
  ts_config_suffix :: string
  ts_config_exists :: bool
  ts_api_key :: string
  ts_max_steps :: nat
  ts_roots :: "path list"
  ts_prompt_file :: "string option option"
  ts_skills_root :: "string list"
  ts_tmp_root :: "string list"
  ts_denied :: "string list"
  ts_disabled :: "string list"

definition split_env :: "string \<Rightarrow> string list" where
  "split_env v = map py_strip (filter (\<lambda>i. py_strip i \<noteq> []) (py_split_on (CHR '','') v))"

definition settings_policy :: "trae_settings \<Rightarrow> command_policy" where
  "settings_policy ts = tightened (ts_disabled ts) (ts_denied ts) DEFAULT_POLICY"

definition validate_settings :: "trae_settings \<Rightarrow> string option" where
  "validate_settings ts =
     (if ts_config_suffix ts \<notin> {''.yaml'', ''.yml''} then Some ''Trae config must use a .yaml or .yml extension''
      else if \<not> ts_config_exists ts then Some ''Trae config does not exist''
      else if ts_api_key ts = [] then Some ''Trae API key is not configured in the runner environment'' else None)"

definition settings_workspace :: "(path \<Rightarrow> path) \<Rightarrow> (path \<Rightarrow> bool) \<Rightarrow> trae_settings \<Rightarrow> string \<Rightarrow> string + path" where
  "settings_workspace resolve is_dir ts v = (let p = resolve (path_of v) in
     if \<not> list_ex (\<lambda>r. p = r \<or> is_relative_to p r) (ts_roots ts) then Inl ''workspace_ref is outside the runner workspace roots''
     else if \<not> is_dir p then Inl ''workspace_ref does not exist'' else Inr p)"

text \<open>\<open>str(path)\<close>.\<close>

definition path_str :: "path \<Rightarrow> string" where
  "path_str p = (if fst p = [] \<and> snd p = [] then ''.'' else fst p @ py_join ''/'' (snd p))"

section \<open>The command gate of a run\<close>

definition bundle_cli_policy :: "obj \<Rightarrow> obj" where
  "bundle_cli_policy bundle = (case obj_get bundle ''cli_policy'' JNull of JObj d \<Rightarrow> d | _ \<Rightarrow> [])"

text \<open>\<open>tuple(policy.get("allowed_safe_prefixes") or ())\<close>; the platform sends a list of strings.\<close>

definition declared_prefixes :: "obj \<Rightarrow> string list" where
  "declared_prefixes bundle = (case obj_get (bundle_cli_policy bundle) ''allowed_safe_prefixes'' JNull of
       JArr xs \<Rightarrow> concat (map (\<lambda>x. case x of JStr s \<Rightarrow> [s] | _ \<Rightarrow> []) xs) | _ \<Rightarrow> [])"

definition adapter_gate :: "(json \<Rightarrow> string) \<Rightarrow> trae_settings \<Rightarrow> run_request \<Rightarrow> path \<Rightarrow> string list option \<Rightarrow> string list option \<Rightarrow> bash_gate" where
  "adapter_gate str ts q ws skills tmp =
     \<lparr>bg_allowed_prefixes = path_str ws # path_str (''/'', or_else skills (ts_skills_root ts @ [q_run_id q]))
          # (case tmp of None \<Rightarrow> [] | Some d \<Rightarrow> [path_str (''/'', d)]),
      bg_cwd = path_str ws, bg_mode = policy_mode str (q_tool_policy q), bg_policy = settings_policy ts,
      bg_declared = declared_prefixes (q_context_bundle q)\<rparr>"

section \<open>The system prompt\<close>

definition resolve_system_prompt :: "trae_settings \<Rightarrow> obj \<Rightarrow> string + string option" where
  "resolve_system_prompt ts bundle = (case ts_prompt_file ts of
       Some None \<Rightarrow> Inl ''Trae system prompt file does not exist''
     | Some (Some text) \<Rightarrow> Inr (Some text)
     | None \<Rightarrow> (case obj_get bundle ''system_prompt'' JNull of
           JStr s \<Rightarrow> Inr (if py_strip s \<noteq> [] then Some s else None) | _ \<Rightarrow> Inr None))"

definition context_catalog :: "obj \<Rightarrow> obj list" where
  "context_catalog bundle = (case obj_get bundle ''skill_catalog'' JNull of
       JArr xs \<Rightarrow> concat (map (\<lambda>x. case x of JObj d \<Rightarrow> [d] | _ \<Rightarrow> []) xs) | _ \<Rightarrow> [])"

definition catalog_line :: "(json \<Rightarrow> string) \<Rightarrow> obj \<Rightarrow> string" where
  "catalog_line str e =
     (let sid = (if dict_text str e ''skill_id'' = [] then ''unknown'' else dict_text str e ''skill_id'');
          description = py_strip (dict_text str e ''description''); name = py_strip (dict_text str e ''name'');
          label = (if name \<noteq> [] \<and> name \<noteq> sid then sid @ '' ('' @ name @ '')'' else sid) in
      if description = [] then ''- '' @ label else ''- '' @ label @ '': '' @ description)"

definition catalog_listing :: "(json \<Rightarrow> string) \<Rightarrow> obj list \<Rightarrow> string" where
  "catalog_listing str es = py_join [CHR 0x0A] (map (catalog_line str) es)"

definition SKILL_CATALOG_PROMPT :: "string \<Rightarrow> string \<Rightarrow> string" where
  "SKILL_CATALOG_PROMPT root catalog = ''# Available skills below '' @ root @ '': read SKILL.md with bash before deciding.'' @ [CHR 0x0A] @ catalog"

definition skill_prompt_section :: "(json \<Rightarrow> string) \<Rightarrow> obj \<Rightarrow> string list option \<Rightarrow> string option" where
  "skill_prompt_section str bundle root = (let es = context_catalog bundle in
     case root of None \<Rightarrow> None
     | Some r \<Rightarrow> if es = [] then None else Some (SKILL_CATALOG_PROMPT (path_str (''/'', r)) (catalog_listing str es)))"

definition file_reference_section :: "(json \<Rightarrow> string) \<Rightarrow> obj \<Rightarrow> string option" where
  "file_reference_section str bundle =
     (if \<not> truthy (obj_get bundle ''file_ref_format'' JNull) then None
      else (let ws = dict_text str bundle ''workspace_ref'';
                base = (if truthy (obj_get bundle ''workspace_ref'' JNull)
                        then rev (dropWhile (\<lambda>c. c = CHR ''/'' \<or> c = backslash) (rev ws)) else ''/workspace-data/<workspace>'') in
        Some (''# File references: [[file:path|name]], e.g. [[file:'' @ base @ ''/report.docx|report.docx]]'')))"

text \<open>The prompt of the agent with the sections of the run appended; \<open>None\<close> leaves it alone.\<close>

definition extended_prompt :: "(json \<Rightarrow> string) \<Rightarrow> obj \<Rightarrow> string list option \<Rightarrow> string option \<Rightarrow> string option" where
  "extended_prompt str bundle root current =
     (let sections = concat (map (\<lambda>x. case x of None \<Rightarrow> [] | Some s \<Rightarrow> [s]) [skill_prompt_section str bundle root, file_reference_section str bundle]) in
      if sections = [] then None
      else Some (py_strip (or_else current [] @ [CHR 0x0A, CHR 0x0A] @ py_join [CHR 0x0A, CHR 0x0A] sections)))"

section \<open>The trajectory file\<close>

text \<open>There is none, its text is not JSON, or it is a dictionary.\<close>

datatype trajectory = NoTrajectory | BadTrajectory string | GoodTrajectory string obj

definition agent_steps :: "obj \<Rightarrow> nat" where
  "agent_steps p = (case obj_get p ''agent_steps'' (JArr []) of JArr xs \<Rightarrow> length xs | _ \<Rightarrow> 0)"

definition next_step_of :: "trajectory \<Rightarrow> int" where
  "next_step_of t = (case t of GoodTrajectory _ p \<Rightarrow> int (agent_steps p) + 2 | _ \<Rightarrow> 2)"

definition trajectory_event :: "(string \<Rightarrow> string) \<Rightarrow> string \<Rightarrow> trajectory \<Rightarrow> string \<times> obj" where
  "trajectory_event sha file t = (case t of
       NoTrajectory \<Rightarrow> (''trajectory.missing'', [(''path'', JStr file)])
     | BadTrajectory raw \<Rightarrow> (''trajectory.recorded'', [(''path'', JStr file), (''sha256'', JStr (sha raw)), (''steps'', JInt 0)])
     | GoodTrajectory raw p \<Rightarrow> (''trajectory.recorded'', [(''path'', JStr file), (''sha256'', JStr (sha raw)), (''steps'', JInt (int (agent_steps p)))]))"

definition interaction_text :: "(json \<Rightarrow> string) \<Rightarrow> obj \<Rightarrow> string" where
  "interaction_text str response = (case obj_get response ''content'' JNull of
       JStr s \<Rightarrow> py_strip s
     | JArr bs \<Rightarrow> py_strip (py_join [CHR 0x0A] (concat (map (\<lambda>b. case b of
           JObj d \<Rightarrow> if obj_get d ''type'' JNull = JStr ''text'' then [dict_text str d ''text''] else []
         | JStr s \<Rightarrow> [s] | _ \<Rightarrow> []) bs)))
     | _ \<Rightarrow> [])"

definition interaction_texts :: "(json \<Rightarrow> string) \<Rightarrow> obj \<Rightarrow> string list" where
  "interaction_texts str p = (case obj_get p ''llm_interactions'' JNull of
       JArr xs \<Rightarrow> map (\<lambda>x. case x of JObj i \<Rightarrow> interaction_text str (case obj_get i ''response'' JNull of JObj r \<Rightarrow> r | _ \<Rightarrow> []) | _ \<Rightarrow> []) xs
     | _ \<Rightarrow> [])"

definition fallback_final_content :: "(json \<Rightarrow> string) \<Rightarrow> (string \<Rightarrow> bool) \<Rightarrow> bool \<Rightarrow> trajectory \<Rightarrow> string" where
  "fallback_final_content str apology prefer_first t = (case t of
       GoodTrajectory _ p \<Rightarrow>
         (if prefer_first then or_else (find (\<lambda>s. s \<noteq> [] \<and> \<not> apology s) (interaction_texts str p)) []
          else or_else (find (\<lambda>s. s \<noteq> []) (rev (interaction_texts str p))) [])
     | _ \<Rightarrow> [])"

section \<open>Messages\<close>

text \<open>The dialogue of earlier rounds, as role and content.\<close>

definition history_message :: "(json \<Rightarrow> string) \<Rightarrow> json \<Rightarrow> (string \<times> string) list" where
  "history_message str e = (case e of
       JObj d \<Rightarrow> (let p = (case obj_get d ''payload'' JNull of JObj x \<Rightarrow> x | _ \<Rightarrow> []); kind = obj_get d ''type'' JNull in
         if kind = JStr ''message''
         then (let role = or_default p ''role'' (JStr ''assistant''); content = obj_get p ''content'' JNull in
               if role \<in> {JStr ''user'', JStr ''assistant''} \<and> truthy content then [(py_str str role, py_str str content)] else [])
         else if kind = JStr ''run.failed''
         then [(''assistant'', ''[the last round failed] '' @ (if truthy (obj_get p ''error'' JNull) then dict_text str p ''error''
                 else if truthy (obj_get p ''message'' JNull) then dict_text str p ''message'' else ''unknown reason''))]
         else if kind = JStr ''run.cancelled'' then [(''assistant'', ''[the last round was stopped by the user]'')] else [])
     | _ \<Rightarrow> [])"

definition session_history_messages :: "(json \<Rightarrow> string) \<Rightarrow> obj \<Rightarrow> (string \<times> string) list" where
  "session_history_messages str bundle = (case obj_get bundle ''recent_events'' JNull of JArr es \<Rightarrow> concat (map (history_message str) es) | _ \<Rightarrow> [])"

text \<open>The events of one model call: with the retry guard, every attempt but the first announces that the text before it is void.\<close>

fun attempt_events :: "bool \<Rightarrow> nat \<Rightarrow> string list list \<Rightarrow> (string \<times> obj) list" where
  "attempt_events guarded n [] = []"
| "attempt_events guarded n (ds # as) =
     (if guarded \<and> n > 1 then [(''message.reset'', [(''reason'', JStr ''stream_retry''), (''attempt'', JInt (int n))])] else [])
     @ map (\<lambda>d. (''message.delta'', [(''delta'', JStr d)])) (filter (\<lambda>d. d \<noteq> []) ds) @ attempt_events guarded (Suc n) as"

definition usage_payload :: "(string \<Rightarrow> int option) \<Rightarrow> json" where
  "usage_payload u = JObj (map (\<lambda>k. (k, JInt (or_else (u k) 0)))
     [''input_tokens'', ''output_tokens'', ''cache_creation_input_tokens'', ''cache_read_input_tokens'', ''reasoning_tokens''])"

section \<open>The agent\<close>

record agent_context =
  ac_task :: string
  ac_history :: "(string \<times> string) list"
  ac_prompt :: "string option"
  ac_text_completes :: bool

datatype move = MoveCalls "tool_call list" | MoveText | MoveDone string "(string \<Rightarrow> int option) option" | MoveRaise string

text \<open>What the agent has seen: the results of its batches, an empty list for a step without calls.\<close>

type_synonym memory = "tool_result list list"

record 'w trae_env =
  te_settings :: trae_settings
  te_str :: "json \<Rightarrow> string"
  te_unb64 :: "string \<Rightarrow> string option"
  te_is_dir :: "path \<Rightarrow> bool"
  te_environ :: "string \<Rightarrow> string option"
  te_tools :: "(string \<times> json) list \<Rightarrow> string list"
  te_prompt :: string
  te_brain :: "agent_context \<Rightarrow> memory \<Rightarrow> 'w \<Rightarrow> (string list list \<times> move) \<times> 'w"
  te_method :: string
  te_guarded :: bool
  te_bridge :: "'w bridge_env"
  te_traj :: "'w \<Rightarrow> trajectory"
  te_fresh :: "nat \<Rightarrow> string"
  te_quick :: "string \<Rightarrow> bool"
  te_apology :: "string \<Rightarrow> bool"
  te_policy_hash :: "string list \<times> string list \<Rightarrow> string"
  te_versions_hash :: "(string \<times> string) list \<Rightarrow> string"

definition gate_env :: "'w trae_env \<Rightarrow> 'w bridge \<Rightarrow> 'w bridge_env" where
  "gate_env env b = (te_bridge env)\<lparr>be_next_step := next_step_of (te_traj env (br_world b))\<rparr>"

text \<open>Where the agent stops: at a gate, with its memory, the steps left and made, and whether the batch at the gate is one of its steps; on an
  exception, with the steps it had begun, none of them if the batch a run is resumed with raised it; when its steps are used up; or done, with
  its final result, its steps and its usage.\<close>

datatype agent_stop =
    AtGate memory nat nat bool
  | Raised_by string "nat option"
  | Exhausted nat
  | Done string nat "(string \<Rightarrow> int option) option"

definition streamed :: "'w trae_env \<Rightarrow> string list list \<Rightarrow> 'w bridge \<Rightarrow> 'w bridge" where
  "streamed env attempts b = fold (\<lambda>e. br_emit (fst e) (snd e)) (attempt_events (te_guarded env) 1 attempts) b"

fun agent_loop :: "'w trae_env \<Rightarrow> agent_context \<Rightarrow> nat \<Rightarrow> nat \<Rightarrow> memory \<Rightarrow> 'w bridge \<Rightarrow> agent_stop \<times> 'w bridge" where
  "agent_loop env ctx 0 made mem b = (Exhausted made, b)"
| "agent_loop env ctx (Suc n) made mem b = (case te_brain env ctx mem (br_world b) of ((attempts, m), w) \<Rightarrow>
     (let b1 = streamed env attempts (b\<lparr>br_world := w\<rparr>) in
      case m of
        MoveRaise e \<Rightarrow> (Raised_by e (Some (Suc made)), b1)
      | MoveDone c u \<Rightarrow> (Done c (Suc made) u, b1)
      | MoveText \<Rightarrow> agent_loop env ctx n (Suc made) (mem @ [[]]) b1
      | MoveCalls cs \<Rightarrow> (case bridge_execute (gate_env env b1) (te_fresh env made) None cs (te_method env) b1 of
            (Results rs, b2) \<Rightarrow> agent_loop env ctx n (Suc made) (mem @ [rs]) b2
          | (Waiting, b2) \<Rightarrow> (AtGate mem n made True, b2)
          | (BridgeRaised e, b2) \<Rightarrow> (Raised_by e (Some (Suc made)), b2))))"

text \<open>The agent after the batch at the gate has an outcome.\<close>

definition agent_continue :: "'w trae_env \<Rightarrow> agent_context \<Rightarrow> memory \<Rightarrow> nat \<Rightarrow> nat \<Rightarrow> bool \<Rightarrow> bridge_outcome \<times> 'w bridge \<Rightarrow> agent_stop \<times> 'w bridge" where
  "agent_continue env ctx mem left made counts ob = (case ob of
       (Results rs, b) \<Rightarrow> agent_loop env ctx left (if counts then Suc made else made) (mem @ [rs]) b
     | (Waiting, b) \<Rightarrow> (AtGate mem left made counts, b)
     | (BridgeRaised e, b) \<Rightarrow> (Raised_by e (if counts then Some (Suc made) else None), b))"

section \<open>The adapter\<close>

record 'w adapter =
  ad_request :: run_request
  ad_workspace :: "path option"
  ad_skill_root :: "string list option"
  ad_tmp :: "string list option"
  ad_prompt :: "string option"
  ad_bridge :: "'w bridge option"
  ad_next_step :: int

definition new_adapter :: "run_request \<Rightarrow> 'w adapter" where
  "new_adapter q = \<lparr>ad_request = q, ad_workspace = None, ad_skill_root = None, ad_tmp = None, ad_prompt = None, ad_bridge = None, ad_next_step = 1\<rparr>"

definition prepare_run_tmp :: "trae_settings \<Rightarrow> string \<Rightarrow> string list option" where
  "prepare_run_tmp ts rid = (if rid = [] then None else Some (ts_tmp_root ts @ [rid]))"

definition cleanup_run_tmp :: "string list option \<Rightarrow> skill_fs \<Rightarrow> skill_fs" where
  "cleanup_run_tmp d s = (case d of None \<Rightarrow> s | Some p \<Rightarrow> remove_tree p s)"

definition request_packages :: "obj \<Rightarrow> json list" where
  "request_packages bundle = (case obj_get bundle ''skill_package'' JNull of JArr xs \<Rightarrow> xs | _ \<Rightarrow> [])"

text \<open>The tools of MCP servers are allowed whatever the policy says.\<close>

definition allow_mcp :: "string list \<Rightarrow> 'w bridge \<Rightarrow> 'w bridge" where
  "allow_mcp names b = b\<lparr>br_policy := (br_policy b)\<lparr>gp_allowed_tools := gp_allowed_tools (br_policy b)
     @ filter (\<lambda>n. py_startswith n ''mcp.'') names\<rparr>\<rparr>"

definition initialize_agent :: "'w trae_env \<Rightarrow> run_request \<Rightarrow> (string \<times> json) list \<Rightarrow> 'w \<Rightarrow> skill_fs \<Rightarrow> string option \<times> 'w adapter \<times> skill_fs" where
  "initialize_agent env q servers w fs =
     (let ts = te_settings env; rid = q_run_id q; bundle = q_context_bundle q; a0 = new_adapter q in
      case validate_settings ts of Some e \<Rightarrow> (Some e, a0, fs) | None \<Rightarrow>
      (case settings_workspace (be_resolve (te_bridge env)) (te_is_dir env) ts (q_workspace_ref q) of
         Inl e \<Rightarrow> (Some e, a0, fs)
       | Inr ws \<Rightarrow>
         (case materialize_skill_package (te_str env) (te_unb64 env) (request_packages bundle) (ts_skills_root ts @ [rid]) fs of
            (Inl e, fs1) \<Rightarrow> (Some e, a0\<lparr>ad_workspace := Some ws\<rparr>, fs1)
          | (Inr root, fs1) \<Rightarrow>
            (let tmp = prepare_run_tmp ts rid; a1 = a0\<lparr>ad_workspace := Some ws, ad_skill_root := root, ad_tmp := tmp\<rparr> in
             case resolve_system_prompt ts bundle of Inl e \<Rightarrow> (Some e, a1, fs1) | Inr p \<Rightarrow>
             (let current = (if str_true p then the p else te_prompt env);
                  a2 = a1\<lparr>ad_prompt := (case extended_prompt (te_str env) bundle root (Some current) of None \<Rightarrow> p | Some s \<Rightarrow> Some s)\<rparr>;
                  names = te_tools env servers in
              case bridge_init (te_str env) names (q_tool_policy q) (Some ws) (Some (adapter_gate (te_str env) ts q ws root tmp))
                     rid (q_conversation q) w of
                None \<Rightarrow> (Some ''tool policy'', a2, fs1)
              | Some b \<Rightarrow> (None, a2\<lparr>ad_bridge := Some (allow_mcp names b)\<rparr>, fs1))))))"

section \<open>The end of a run\<close>

definition warn_degradation :: "string \<Rightarrow> string \<Rightarrow> 'w bridge \<Rightarrow> 'w bridge" where
  "warn_degradation kind detail = br_emit ''run.warning'' [(''code'', JStr ''CONTENT_DEGRADATION''), (''kind'', JStr kind),
     (''message'', JStr (''run content degradation ('' @ kind @ ''): '' @ detail))]"

text \<open>The content of the answer, with a warning when it had to be recovered.\<close>

definition final_content :: "'w trae_env \<Rightarrow> bool \<Rightarrow> string \<Rightarrow> 'w bridge \<Rightarrow> string \<times> 'w bridge" where
  "final_content env resumed c b =
     (let degraded = (\<not> resumed \<and> te_apology env c) in
      if c \<noteq> [] \<and> \<not> degraded then (c, b)
      else (let d = fallback_final_content (te_str env) (te_apology env) degraded (te_traj env (br_world b)) in
        (d, if d \<noteq> [] then warn_degradation ''fallback'' ''recovered an earlier assistant text'' b
            else warn_degradation ''empty'' ''no fallback text is available'' b)))"

definition trajectory_file :: "run_request \<Rightarrow> path \<Rightarrow> string" where
  "trajectory_file q ws = path_str ws @ ''/.agentsupport/trajectories/'' @ q_run_id q @ ''.json''"

definition emit_trajectory :: "'w trae_env \<Rightarrow> 'w adapter \<Rightarrow> 'w bridge \<Rightarrow> 'w bridge" where
  "emit_trajectory env a b = (case trajectory_event (be_digest (te_bridge env))
       (case ad_workspace a of Some ws \<Rightarrow> trajectory_file (ad_request a) ws | None \<Rightarrow> ''None'') (te_traj env (br_world b)) of
     (ty, p) \<Rightarrow> br_emit ty p b)"

text \<open>What \<open>run\<close> and \<open>resume\<close> make of the agent's end: an exception, or the result of the run.\<close>

definition conclude :: "'w trae_env \<Rightarrow> bool \<Rightarrow> 'w adapter \<Rightarrow> agent_stop \<Rightarrow> 'w bridge \<Rightarrow> (string + obj) \<times> 'w bridge" where
  "conclude env resumed a stop b = (case stop of
       Raised_by e _ \<Rightarrow> if resumed then (Inl e, b) else (Inl (if e = [] then ''Trae execution failed'' else e), emit_trajectory env a b)
     | Done c steps u \<Rightarrow>
         (let b1 = emit_trajectory env a b in
          case final_content env resumed c b1 of (c1, b2) \<Rightarrow>
            (Inr ([(''status'', JStr ''completed''), (''content'', JStr c1), (''steps'', JInt (int steps))]
                  @ (if resumed then [(''resumed'', JBool True)] else [])
                  @ (case u of None \<Rightarrow> [] | Some x \<Rightarrow> [(''usage'', usage_payload x)])),
             if c1 = [] then b2 else br_emit ''message'' [(''content'', JStr c1)] b2))
     | _ \<Rightarrow> (Inl (if resumed then ''Trae resume failed'' else ''Task execution exceeded maximum steps without completion.''),
              emit_trajectory env a b))"

section \<open>Running and resuming\<close>

text \<open>A coroutine of the adapter that stopped at a gate, with what it needs to go on.\<close>

record 'w execution =
  xn_adapter :: "'w adapter"
  xn_context :: agent_context
  xn_resumed :: bool
  xn_first :: int
  xn_stop :: agent_stop

datatype progress = Suspended | Ended "string + obj"

text \<open>The step the adapter would resume at: a resumed run counts its steps from the first one it made.\<close>

definition ended_step :: "'w execution \<Rightarrow> agent_stop \<Rightarrow> int" where
  "ended_step x stop =
     (let n = (case stop of Raised_by _ k \<Rightarrow> k | Exhausted k \<Rightarrow> Some k | Done _ k _ \<Rightarrow> Some k | AtGate _ _ _ _ \<Rightarrow> None) in
      case n of None \<Rightarrow> ad_next_step (xn_adapter x)
      | Some k \<Rightarrow> if xn_resumed x then xn_first x + int k else ad_next_step (xn_adapter x))"

text \<open>The agent has come to a stop: the coroutine is suspended, or ends.\<close>

definition settle :: "'w trae_env \<Rightarrow> 'w execution \<Rightarrow> agent_stop \<times> 'w bridge \<Rightarrow> progress \<times> 'w execution" where
  "settle env x sb = (case sb of (stop, b) \<Rightarrow> (case stop of
       AtGate _ _ _ _ \<Rightarrow> (Suspended, x\<lparr>xn_stop := stop,
           xn_adapter := (xn_adapter x)\<lparr>ad_bridge := Some b, ad_next_step := next_step_of (te_traj env (br_world b))\<rparr>\<rparr>)
     | _ \<Rightarrow> (case conclude env (xn_resumed x) (xn_adapter x) stop b of (r, b1) \<Rightarrow>
           (Ended r, x\<lparr>xn_stop := stop, xn_adapter := (xn_adapter x)\<lparr>ad_bridge := Some b1, ad_next_step := ended_step x stop\<rparr>\<rparr>))))"

definition no_context :: agent_context where
  "no_context = \<lparr>ac_task = [], ac_history = [], ac_prompt = None, ac_text_completes = False\<rparr>"

definition run_trae :: "'w trae_env \<Rightarrow> run_request \<Rightarrow> (string \<times> json) list \<Rightarrow> 'w \<Rightarrow> skill_fs \<Rightarrow> progress \<times> 'w execution \<times> skill_fs" where
  "run_trae env q servers w fs = (case initialize_agent env q servers w fs of (err, a, fs1) \<Rightarrow>
     (let x = \<lparr>xn_adapter = a, xn_context = no_context, xn_resumed = False, xn_first = 1, xn_stop = Exhausted 0\<rparr> in
      case (err, ad_bridge a) of
        (None, Some b) \<Rightarrow>
          (let task = py_str (te_str env) (obj_get (q_context_bundle q) ''task'' (JStr []));
               ctx = \<lparr>ac_task = task, ac_history = session_history_messages (te_str env) (q_context_bundle q), ac_prompt = ad_prompt a,
                      ac_text_completes = te_quick env task\<rparr> in
           case settle env (x\<lparr>xn_context := ctx\<rparr>) (agent_loop env ctx (ts_max_steps (te_settings env)) 0 [] b) of
             (p, x1) \<Rightarrow> (p, x1, fs1))
      | _ \<Rightarrow> (Ended (Inl (or_else err ''Trae tool gateway is not initialized'')), x, fs1)))"

text \<open>The checks of \<open>resume\<close> against the checkpoint.\<close>

definition str_items :: "(json \<Rightarrow> string) \<Rightarrow> obj \<Rightarrow> string \<Rightarrow> string list" where
  "str_items str p k = (case obj_get p k (JArr []) of JArr xs \<Rightarrow> map (py_str str) xs | _ \<Rightarrow> [])"

definition tool_policy_hash :: "(json \<Rightarrow> string) \<Rightarrow> (string list \<times> string list \<Rightarrow> string) \<Rightarrow> obj \<Rightarrow> string" where
  "tool_policy_hash str h p = h (sort (str_items str p ''allowed_tools''), sort (str_items str p ''approval_required_tools''))"

definition tool_versions_hash :: "(json \<Rightarrow> string) \<Rightarrow> ((string \<times> string) list \<Rightarrow> string) \<Rightarrow> json list \<Rightarrow> string" where
  "tool_versions_hash str h ts = h (sort (map (\<lambda>t. case t of
       JObj d \<Rightarrow> (py_str str (obj_get d ''name'' (JStr [])), py_str str (obj_get d ''version'' (JStr []))) | _ \<Rightarrow> ([], [])) ts))"

definition policy_tools :: "obj \<Rightarrow> json list" where
  "policy_tools p = (case obj_get p ''tools'' (JArr []) of JArr xs \<Rightarrow> xs | _ \<Rightarrow> [])"

definition resume_calls :: "checkpoint \<Rightarrow> json list" where
  "resume_calls k = (case obj_get (or_else (cp_pending_interaction k) []) ''pending_tool_calls'' JNull of
       JArr (x # xs) \<Rightarrow> x # xs | _ \<Rightarrow> cp_pending_tool_calls k)"

definition resume_batch :: "'w trae_env \<Rightarrow> checkpoint \<Rightarrow> 'w bridge \<Rightarrow> string + tool_batch" where
  "resume_batch env k b =
     (if str_true (cp_tool_policy_hash k) \<and> cp_tool_policy_hash k \<noteq> Some (tool_policy_hash (te_str env) (te_policy_hash env) (policy_dump b))
      then Inl ''tool policy hash mismatch''
      else if str_true (cp_tool_versions_hash k)
         \<and> cp_tool_versions_hash k \<noteq> Some (tool_versions_hash (te_str env) (te_versions_hash env) (policy_tools (policy_dump b)))
      then Inl ''tool versions hash mismatch''
      else if resume_calls k = [] then Inl ''Trae checkpoint does not contain pending tool calls''
      else (case batch_validate (JObj [(''calls'', JArr (resume_calls k))]) of None \<Rightarrow> Inl ''validation'' | Some batch \<Rightarrow>
        if str_true (cp_tool_batch_hash k) \<and> cp_tool_batch_hash k \<noteq> Some (be_bhash (te_bridge env) batch)
        then Inl ''tool batch hash mismatch'' else Inr batch))"

definition answer_results :: "tool_batch \<Rightarrow> string \<Rightarrow> tool_result list" where
  "answer_results batch answer = map (\<lambda>c. \<lparr>tr_call_id = tc_id c, tr_name = tc_name c, tr_success = True,
     tr_output = JStr (''user replied: '' @ answer), tr_error = None\<rparr>) batch"

datatype resume_value = Answer string | Decide approval_decision

definition resume_trae :: "'w trae_env \<Rightarrow> checkpoint \<Rightarrow> resume_value \<Rightarrow> run_request \<Rightarrow> (string \<times> json) list \<Rightarrow> 'w \<Rightarrow> skill_fs \<Rightarrow> progress \<times> 'w execution \<times> skill_fs" where
  "resume_trae env k v q servers w fs = (case initialize_agent env q servers w fs of (err, a, fs1) \<Rightarrow>
     (let x = \<lparr>xn_adapter = a, xn_context = no_context, xn_resumed = True, xn_first = 1, xn_stop = Exhausted 0\<rparr> in
      case (err, ad_bridge a) of
        (None, Some b) \<Rightarrow>
          (case resume_batch env k b of
             Inl e \<Rightarrow> (Ended (Inl e), x, fs1)
           | Inr batch \<Rightarrow>
             (let pending = or_else (cp_pending_interaction k) [];
                  how = (case obj_get pending ''tool_method'' (JStr ''sequential_tool_call'') of JStr s \<Rightarrow> s | _ \<Rightarrow> []);
                  next = or_else (py_int (obj_get pending ''next_step'' (JInt 2))) 2;
                  left = nat (int (ts_max_steps (te_settings env)) + 1 - next);
                  ctx = \<lparr>ac_task = cb_task (cp_context_bundle k), ac_history = [], ac_prompt = ad_prompt a, ac_text_completes = False\<rparr>;
                  ob = (case v of
                      Answer s \<Rightarrow> (let rs = answer_results batch s in
                        (Results rs, (fold (\<lambda>r. br_emit ''tool.result'' (result_dump r)) rs b)\<lparr>br_ask_answered := True\<rparr>))
                    | Decide d \<Rightarrow> bridge_execute (gate_env env b) (te_fresh env 0) (Some d) batch how b) in
              case settle env (x\<lparr>xn_context := ctx, xn_first := next\<rparr>) (agent_continue env ctx [] left 0 False ob) of
                (p, x1) \<Rightarrow> (p, x1, fs1)))
      | _ \<Rightarrow> (Ended (Inl (or_else err ''Trae tool gateway is not initialized'')), x, fs1)))"

text \<open>\<open>approve\<close> and \<open>submit_answer\<close>: refused while the future they resolve is not open; otherwise the coroutine goes on from it.\<close>

definition continue_with :: "'w trae_env \<Rightarrow> ('w bridge \<Rightarrow> bridge_outcome \<times> 'w bridge) \<Rightarrow> 'w execution \<Rightarrow> progress \<times> 'w execution" where
  "continue_with env step x = (case (xn_stop x, ad_bridge (xn_adapter x)) of
       (AtGate mem left made counts, Some b) \<Rightarrow> settle env x (agent_continue env (xn_context x) mem left made counts (step b))
     | _ \<Rightarrow> (Suspended, x))"

definition awaits_approval :: "'w execution \<Rightarrow> bool" where
  "awaits_approval x = (case (xn_stop x, ad_bridge (xn_adapter x)) of
       (AtGate _ _ _ _, Some b) \<Rightarrow> (case br_wait b of Some (WaitApproval _ _ _) \<Rightarrow> True | _ \<Rightarrow> False) | _ \<Rightarrow> False)"

definition awaits_answer :: "'w execution \<Rightarrow> bool" where
  "awaits_answer x = (case (xn_stop x, ad_bridge (xn_adapter x)) of
       (AtGate _ _ _ _, Some b) \<Rightarrow> (case br_wait b of Some (WaitAnswer _ _) \<Rightarrow> True | _ \<Rightarrow> False) | _ \<Rightarrow> False)"

definition gate_fresh :: "'w trae_env \<Rightarrow> 'w execution \<Rightarrow> string" where
  "gate_fresh env x = (case xn_stop x of AtGate _ _ made _ \<Rightarrow> te_fresh env made | _ \<Rightarrow> [])"

definition approve_trae :: "'w trae_env \<Rightarrow> approval_decision \<Rightarrow> 'w execution \<Rightarrow> (string + progress) \<times> 'w execution" where
  "approve_trae env d x = (if awaits_approval x
     then map_prod Inr id (continue_with env (\<lambda>b. bridge_approve (gate_env env b) (gate_fresh env x) d b) x)
     else (Inl ''Trae run is not waiting for tool approval'', x))"

definition answer_trae :: "'w trae_env \<Rightarrow> string \<Rightarrow> 'w execution \<Rightarrow> (string + progress) \<times> 'w execution" where
  "answer_trae env s x = (if awaits_answer x then map_prod Inr id (continue_with env (bridge_submit_answer s) x)
     else (Inl ''Trae run is not waiting for a user question'', x))"

definition execution_policy :: "'w execution \<Rightarrow> obj" where
  "execution_policy x = (let a = xn_adapter x in [(''next_step'', JInt (ad_next_step a)),
     (''trajectory_ref'', case ad_workspace a of None \<Rightarrow> JNull | Some ws \<Rightarrow> JStr (trajectory_file (ad_request a) ws))])"

section \<open>A suspended run passes the checks of another runner\<close>

lemma dedup_snoc: "dedup (xs @ [x]) = (if x \<in> set xs then dedup xs else dedup xs @ [x])"
  by (induction xs) auto

lemma update_graph:
  "AList.update k (f k) (map (\<lambda>n. (n, f n)) ks) = map (\<lambda>n. (n, f n)) (if k \<in> set ks then ks else ks @ [k])"
  by (induction ks) auto

lemma descriptor_table_graph:
  assumes "\<And>n. n \<in> set names \<Longrightarrow> td_name (f n) = n"
  shows "descriptor_table (map f names) = map (\<lambda>n. (n, f n)) (dedup names)"
  using assms
proof (induction names rule: rev_induct)
  case (snoc x xs)
  then show ?case using update_graph [of x f "dedup xs"] by (simp add: descriptor_table_def dedup_snoc)
qed (simp add: descriptor_table_def)

lemma sort_dedup_cong: "set xs = set ys \<Longrightarrow> sort (dedup xs) = sort (dedup ys)" for xs ys :: "'a::linorder list"
  by (intro sorted_distinct_set_unique) simp_all

lemma json_strings_strs [simp]: "json_strings (JArr (map JStr xs)) = Some xs"
proof -
  have "all_some (map ((\<lambda>x. case x of JStr s \<Rightarrow> Some s | _ \<Rightarrow> None) \<circ> JStr) xs) = Some xs" by (induction xs) simp_all
  then show ?thesis by (simp add: json_strings_def)
qed

definition descriptor_dump :: "tool_descriptor \<Rightarrow> json" where
  "descriptor_dump d = JObj [(''name'', JStr (td_name d)), (''version'', JStr (td_version d)),
     (''requires_approval'', JBool (td_requires_approval d)), (''description'', JStr (td_description d))]"

lemma descriptor_roundtrip: "all_some (map (descriptor_validate \<circ> descriptor_dump) ds) = Some ds"
  by (induction ds) (simp_all add: descriptor_validate_def descriptor_dump_def str_field_def obj_get_def)

text \<open>The policies of the two bridges are of the same sets.\<close>

lemma mode_policy_again:
  assumes "mode_policy mode names raw = Some p" "set mcp \<subseteq> set names" "set names' = set names"
    "obj_get tp ''allowed_tools'' (JArr []) = JArr (map JStr (sort (dedup (gp_allowed_tools p @ mcp))))"
    "\<And>d. obj_get tp ''allowed_tools'' d = obj_get tp ''allowed_tools'' (JArr [])"
    "\<And>d. obj_get tp ''approval_required_tools'' d = JArr (map JStr (sort (dedup (gp_approval_required_tools p @ extra))))"
  shows "\<exists>p'. mode_policy mode names' tp = Some p' \<and> set (gp_allowed_tools p') \<union> set mcp = set (gp_allowed_tools p) \<union> set mcp
    \<and> (set (gp_approval_required_tools p') \<union> set extra = set (gp_approval_required_tools p) \<union> set extra)"
proof -
  have a: "obj_get tp ''allowed_tools'' d = JArr (map JStr (sort (dedup (gp_allowed_tools p @ mcp))))" for d
    using assms(4,5) by metis
  show ?thesis using assms(1-3) unfolding mode_policy_def a assms(6)
    by (auto split: if_splits option.splits)
qed

lemma policy_dump_get:
  "obj_get (policy_dump b) ''allowed_tools'' d = JArr (map JStr (sort (dedup (gp_allowed_tools (br_policy b)))))"
  "obj_get (policy_dump b) ''approval_required_tools'' d = JArr (map JStr (sort (dedup (gp_approval_required_tools (br_policy b)))))"
  "obj_get (policy_dump b) ''tools'' d = JArr (map (descriptor_dump \<circ> snd) (br_table b))"
  by (simp_all add: policy_dump_def obj_get_def descriptor_dump_def comp_def split_beta)

lemma bridge_init_parts:
  assumes "bridge_init str names raw ws gate rid cid w = Some b"
  obtains ds p f where "all_some (map descriptor_validate (policy_tools raw)) = Some ds" "mode_policy (policy_mode str raw) names raw = Some p"
    "f = (\<lambda>n. hand_bash_to_gate (policy_mode str raw) (or_else (map_of (descriptor_table ds) n)
        (default_descriptor (policy_mode str raw = ''no_approval'' \<or> policy_mode str raw = ''silent'') n)))"
    "br_table b = descriptor_table (map f names)"
    "br_policy b = (if policy_mode str raw = ''default'' then p\<lparr>gp_approval_required_tools := gp_approval_required_tools p @ [''bash'']\<rparr> else p)"
  using assms by (auto simp: bridge_init_def Let_def policy_tools_def comp_def split: json.splits option.splits)

lemma descriptor_table_names: "(k, d) \<in> set (descriptor_table ds) \<Longrightarrow> td_name d = k"
proof (induction ds arbitrary: k d rule: rev_induct)
  case (snoc x xs)
  have "(k, d) \<in> set (AList.update (td_name x) x (descriptor_table xs))" using snoc.prems by (simp add: descriptor_table_def)
  then show ?case using set_AList_update [of "td_name x" x "descriptor_table xs"] snoc.IH by auto
qed (simp add: descriptor_table_def)

lemma hand_bash_name [simp]: "td_name (hand_bash_to_gate m d) = td_name d" "hand_bash_to_gate m (hand_bash_to_gate m d) = hand_bash_to_gate m d"
  by (simp_all add: hand_bash_to_gate_def)

lemma configured_name: "td_name (hand_bash_to_gate m (or_else (map_of (descriptor_table ds) n) (default_descriptor g n))) = n"
  using descriptor_table_names map_of_SomeD [of "descriptor_table ds" n]
  by (cases "map_of (descriptor_table ds) n") (auto simp: or_else_def default_descriptor_def)

lemma map_of_graph: "map_of (map (\<lambda>n. (n, f n)) ks) n = (if n \<in> set ks then Some (f n) else None)"
  by (induction ks) auto

text \<open>A bridge built from the policy a suspended run left behind, where the same tools are offered, has the same tools under the same policy.\<close>

lemma policy_dump_again:
  assumes "bridge_init str names raw ws gate rid cid w = Some b0" "br_policy b = br_policy (allow_mcp names b0)" "br_table b = br_table b0"
    and "\<And>k d. k \<in> {''allowed_tools'', ''approval_required_tools'', ''tools''} \<Longrightarrow> obj_get tp k d = obj_get (policy_dump b) k d"
    and "obj_get tp ''mode'' JNull = obj_get raw ''mode'' JNull" "dedup names' = map fst (br_table b)"
  shows "\<exists>b'. bridge_init str names' tp ws' gate' rid' cid' w' = Some b' \<and> policy_dump (allow_mcp names' b') = policy_dump b"
proof -
  let ?m = "policy_mode str raw" and ?mcp = "filter (\<lambda>n. py_startswith n ''mcp.'') names" and ?mcp' = "filter (\<lambda>n. py_startswith n ''mcp.'') names'"
  let ?g = "?m = ''no_approval'' \<or> ?m = ''silent''"
  have m: "policy_mode str tp = ?m" by (simp add: policy_mode_def assms(5))
  let ?extra = "if ?m = ''default'' then [''bash''] else []"
  from assms(1) obtain ds p f where b0: "mode_policy ?m names raw = Some p"
    "f = (\<lambda>n. hand_bash_to_gate ?m (or_else (map_of (descriptor_table ds) n) (default_descriptor ?g n)))"
    "br_table b0 = descriptor_table (map f names)"
    "br_policy b0 = (if ?m = ''default'' then p\<lparr>gp_approval_required_tools := gp_approval_required_tools p @ [''bash'']\<rparr> else p)"
    by (rule bridge_init_parts)
  have tn: "td_name (f n) = n" for n by (simp only: b0(2) configured_name)
  have tb: "br_table b = map (\<lambda>n. (n, f n)) (dedup names)" using b0(3) assms(3) descriptor_table_graph [of names f] tn by simp
  have dn: "dedup names' = dedup names" using assms(6) by (simp add: tb comp_def)
  then have sn: "set names' = set names" by (metis set_dedup)
  then have sm: "set ?mcp' = set ?mcp" by auto
  have pol: "gp_allowed_tools (br_policy b) = gp_allowed_tools p @ ?mcp" "gp_approval_required_tools (br_policy b) = gp_approval_required_tools p @ ?extra"
    using assms(2) b0(4) by (simp_all add: allow_mcp_def)
  have "\<exists>p'. mode_policy ?m names' tp = Some p' \<and> set (gp_allowed_tools p') \<union> set ?mcp = set (gp_allowed_tools p) \<union> set ?mcp
    \<and> set (gp_approval_required_tools p') \<union> set ?extra = set (gp_approval_required_tools p) \<union> set ?extra"
    by (rule mode_policy_again [OF b0(1) _ sn]) (auto simp: assms(4) policy_dump_get pol)
  then obtain p' where p': "mode_policy ?m names' tp = Some p'" "set (gp_allowed_tools p') \<union> set ?mcp = set (gp_allowed_tools p) \<union> set ?mcp"
    "set (gp_approval_required_tools p') \<union> set ?extra = set (gp_approval_required_tools p) \<union> set ?extra" by blast
  have ts: "obj_get tp ''tools'' (JArr []) = JArr (map (descriptor_dump \<circ> snd) (br_table b))" by (simp add: assms(4) policy_dump_get)
  have vs: "all_some (map descriptor_validate (map (descriptor_dump \<circ> snd) (br_table b))) = Some (map f (dedup names))"
    using descriptor_roundtrip [of "map f (dedup names)"] by (simp add: tb comp_def)
  have dt: "descriptor_table (map f (dedup names)) = map (\<lambda>n. (n, f n)) (dedup names)"
    using descriptor_table_graph [of "dedup names" f] tn by (simp add: dedup_distinct)
  have again: "hand_bash_to_gate ?m (or_else (map_of (descriptor_table (map f (dedup names))) n) (default_descriptor ?g n)) = f n"
    if "n \<in> set names'" for n using that sn by (simp add: dt map_of_graph or_else_def) (simp add: b0(2))
  obtain b' where b': "bridge_init str names' tp ws' gate' rid' cid' w' = Some b'"
    "br_policy b' = (if ?m = ''default'' then p'\<lparr>gp_approval_required_tools := gp_approval_required_tools p' @ [''bash'']\<rparr> else p')"
    "br_table b' = descriptor_table (map f names')"
    using p'(1) vs again by (simp add: bridge_init_def m ts Let_def comp_def cong: map_cong)
  have "br_table (allow_mcp names' b') = br_table b" using b'(3) descriptor_table_graph [of names' f] tn dn by (simp add: allow_mcp_def tb)
  moreover have "sort (dedup (gp_allowed_tools (br_policy (allow_mcp names' b')))) = sort (dedup (gp_allowed_tools (br_policy b)))"
    using p'(2) sm by (intro sort_dedup_cong) (auto simp: pol b'(2) allow_mcp_def)
  moreover have "sort (dedup (gp_approval_required_tools (br_policy (allow_mcp names' b')))) = sort (dedup (gp_approval_required_tools (br_policy b)))"
    using p'(3) by (intro sort_dedup_cong) (auto simp: pol b'(2) allow_mcp_def)
  ultimately show ?thesis using b'(1) by (simp add: policy_dump_def)
qed

end
