(* ===== verification/Trae_App.thy ===== *)
theory Trae_App
  imports Trae_Adapter
begin

text \<open>
  The HTTP handlers of the runner, \<open>session_runner/serving/http/app.py\<close>, in \<open>trae\<close> mode, the one it is deployed in. A run has an
  execution of the adapter and a background task that drives it (\<open>drive_trae\<close>); a handler that starts or answers a run waits until the task
  has come to the next gate or to its end, so that a request is one step: the task runs in it from where it was
  suspended. Executions are kept beside the registry; a run that enters the registry anew has none. Where a request
  takes the paths without an execution, the handlers of \<open>Runner_App\<close> answer it.
\<close>

section \<open>State\<close>

record 'w trae_app =
  ta_reg :: registry
  ta_execs :: "(uuid \<times> 'w execution) list"
  ta_world :: 'w
  ta_fs :: skill_fs

text \<open>An execution goes on in the present world, and what its bridge emits from here on is new.\<close>

definition primed :: "'w \<Rightarrow> 'w execution \<Rightarrow> 'w execution" where
  "primed w x = x\<lparr>xn_adapter := (xn_adapter x)\<lparr>ad_bridge :=
     map_option (\<lambda>b. b\<lparr>br_world := w, br_events := []\<rparr>) (ad_bridge (xn_adapter x))\<rparr>\<rparr>"

definition execution_events :: "'w execution \<Rightarrow> (string \<times> obj) list" where
  "execution_events x = (case ad_bridge (xn_adapter x) of None \<Rightarrow> [] | Some b \<Rightarrow> br_events b)"

definition execution_world :: "'w \<Rightarrow> 'w execution \<Rightarrow> 'w" where
  "execution_world w x = (case ad_bridge (xn_adapter x) of None \<Rightarrow> w | Some b \<Rightarrow> br_world b)"

definition waiting_batch :: "'w execution \<Rightarrow> tool_batch option" where
  "waiting_batch x = (case ad_bridge (xn_adapter x) of None \<Rightarrow> None | Some b \<Rightarrow> (case br_wait b of
       Some (WaitApproval calls _ _) \<Rightarrow> Some calls | Some (WaitAnswer calls _) \<Rightarrow> Some calls | None \<Rightarrow> None))"

section \<open>Driving a run\<close>

definition cleanup_execution :: "'w execution \<Rightarrow> skill_fs \<Rightarrow> skill_fs" where
  "cleanup_execution x fs = (let a = xn_adapter x in
     cleanup_run_tmp (ad_tmp a) (case ad_skill_root a of None \<Rightarrow> fs | Some r \<Rightarrow> cleanup_skill_package r fs))"

text \<open>What \<open>on_waiting\<close> and the end of \<open>drive_trae\<close> make of the run, after the events of the bridge.\<close>

definition driven :: "(int \<Rightarrow> uuid) \<Rightarrow> time \<Rightarrow> progress \<times> 'w execution \<Rightarrow> run_state \<Rightarrow> skill_fs \<Rightarrow> run_state \<times> skill_fs" where
  "driven ids now px s fs = (case px of (p, x) \<Rightarrow>
     (let s1 = fold (\<lambda>e. emit ids now (fst e) (snd e)) (execution_events x) s in
      case p of
        Suspended \<Rightarrow> (s1\<lparr>rs_status := ''WAITING_INPUT'', rs_pending := Some (snd (last (execution_events x))), rs_tool_batch := waiting_batch x\<rparr>, fs)
      | Ended r \<Rightarrow>
          ((case r of
              Inl e \<Rightarrow> emit ids now ''run.failed'' [(''code'', JStr ''TRAE_RUNTIME_ERROR''), (''message'', JStr e), (''retryable'', JBool True)]
                (s1\<lparr>rs_status := ''FAILED'', rs_pending := None\<rparr>)
            | Inr d \<Rightarrow> emit ids now ''run.completed'' [(''result'', JObj d)] (s1\<lparr>rs_status := ''COMPLETED'', rs_pending := None\<rparr>)),
           cleanup_execution x fs)))"

definition put_driven :: "registry \<Rightarrow> uuid \<Rightarrow> 'w execution \<Rightarrow> run_state \<times> skill_fs \<Rightarrow> 'w trae_app \<Rightarrow> 'w trae_app" where
  "put_driven g rid x sf a = a\<lparr>ta_reg := reg_put rid (fst sf) g, ta_execs := AList.update rid x (ta_execs a),
     ta_world := execution_world (ta_world a) x, ta_fs := snd sf\<rparr>"

definition put_run :: "registry \<Rightarrow> uuid \<Rightarrow> run_state \<Rightarrow> 'w trae_app \<Rightarrow> 'w trae_app" where
  "put_run g rid s a = a\<lparr>ta_reg := reg_put rid s g\<rparr>"

definition start_run_trae :: "'w trae_env \<Rightarrow> lease_env \<Rightarrow> (int \<Rightarrow> uuid) \<Rightarrow> time \<Rightarrow> run_request \<Rightarrow> 'w trae_app \<Rightarrow> (http_error + json) \<times> 'w trae_app" where
  "start_run_trae env lease ids now q a = (case validate_container_fence lease q of Some e \<Rightarrow> (Inl e, a) | None \<Rightarrow>
     (case reg_get now (q_run_id q) (ta_reg a) of
        (Some s, g1) \<Rightarrow> (case validate_duplicate_run s q of
            Some e \<Rightarrow> (Inl e, a\<lparr>ta_reg := g1\<rparr>)
          | None \<Rightarrow> (Inr (reply (q_run_id q) (rs_status s) (rs_events s)), a\<lparr>ta_reg := g1\<rparr>))
      | (None, _) \<Rightarrow>
          (let rid = q_run_id q; g1 = reg_set now rid (new_run_state q) (ta_reg a);
               a1 = a\<lparr>ta_execs := AList.delete rid (ta_execs a)\<rparr>;
               s1 = emit ids now ''run.started'' [(''conversation_id'', JStr (q_conversation q))] (new_run_state q) in
           case build_mcp_server_configs (te_str env) (te_environ env) (mcp_refs_of q) [] of
             Inl e \<Rightarrow> (Inl (Crash e), put_run g1 rid s1 a1)
           | Inr servers \<Rightarrow> (case run_trae env q servers (ta_world a) (ta_fs a) of (p, x, fs1) \<Rightarrow>
               (let sf = driven ids now (p, x) (s1\<lparr>rs_status := ''RUNNING''\<rparr>) fs1 in
                (Inr (reply rid (rs_status (fst sf)) (rs_events (fst sf))), put_driven g1 rid x sf a1))))))"

text \<open>The reply to a command that let an execution go on.\<close>

definition reply_driven :: "(int \<Rightarrow> uuid) \<Rightarrow> time \<Rightarrow> uuid \<Rightarrow> uuid option \<Rightarrow> nat \<Rightarrow> run_state \<Rightarrow> registry \<Rightarrow> progress \<times> 'w execution \<times> skill_fs
    \<Rightarrow> 'w trae_app \<Rightarrow> (http_error + json) \<times> 'w trae_app" where
  "reply_driven ids now rid cmd first s g pxf a = (case pxf of (p, x, fs) \<Rightarrow>
     (let sf = driven ids now (p, x) s fs in
      case finish_command rid cmd first (fst sf) of (r, s2) \<Rightarrow> (Inr r, put_driven g rid x (s2, snd sf) a)))"

definition running :: "run_state \<Rightarrow> run_state" where
  "running s = s\<lparr>rs_status := ''RUNNING'', rs_pending := None\<rparr>"

text \<open>The execution is told; where it refuses, the run keeps the status \<open>RUNNING\<close> that was set before.\<close>

definition tell :: "(int \<Rightarrow> uuid) \<Rightarrow> time \<Rightarrow> uuid \<Rightarrow> uuid option \<Rightarrow> nat \<Rightarrow> run_state \<Rightarrow> registry \<Rightarrow> (string + progress) \<times> 'w execution
    \<Rightarrow> 'w trae_app \<Rightarrow> (http_error + json) \<times> 'w trae_app" where
  "tell ids now rid cmd first s g rx a = (case rx of
       (Inl e, _) \<Rightarrow> (Inl (HTTPException 409 e), put_run g rid s a)
     | (Inr p, x) \<Rightarrow> reply_driven ids now rid cmd first s g (p, x, ta_fs a) a)"

section \<open>Handlers\<close>

definition lift_app :: "(http_error + 'r) \<times> 'w app \<Rightarrow> 'w trae_app \<Rightarrow> (http_error + 'r) \<times> 'w trae_app" where
  "lift_app ra a = (case ra of (r, g, w) \<Rightarrow> (r, a\<lparr>ta_reg := g, ta_world := w\<rparr>))"

definition accept_approval_trae :: "'w trae_env \<Rightarrow> digests \<Rightarrow> 'w tools \<Rightarrow> (int \<Rightarrow> uuid) \<Rightarrow> time \<Rightarrow> uuid \<Rightarrow> approval_post \<Rightarrow> 'w trae_app
    \<Rightarrow> (http_error + json) \<times> 'w trae_app" where
  "accept_approval_trae env hx t ids now rid q a =
     (case (map_of (rg_runs (ta_reg a)) rid, map_of (ta_execs a) rid) of
        (Some s, Some x) \<Rightarrow>
          (let g1 = observe now rid (ta_reg a) in
           case cached_command (po_command q) s of Some r \<Rightarrow> (Inr r, a\<lparr>ta_reg := g1\<rparr>) | None \<Rightarrow>
           (case (if rs_status s \<noteq> ''WAITING_INPUT'' then [] else or_else (rs_pending s) []) of
              [] \<Rightarrow> (Inl (HTTPException 409 ''run is not waiting for approval''), a\<lparr>ta_reg := g1\<rparr>)
            | p0 # ps \<Rightarrow>
                (case map_of (p0 # ps) ''interaction_id'' of
                   None \<Rightarrow> (Inl (Crash ''KeyError''), a\<lparr>ta_reg := g1\<rparr>)
                 | Some i \<Rightarrow>
                     if i \<noteq> JStr (po_approval q) then (Inl (HTTPException 409 ''approval mismatch''), a\<lparr>ta_reg := g1\<rparr>)
                     else (case decision_of (po_decision q) of
                         None \<Rightarrow> (Inl (HTTPException 422 ''invalid approval decision''), a\<lparr>ta_reg := g1\<rparr>)
                       | Some d \<Rightarrow> tell ids now rid (po_command q) (length (rs_events s)) (running s) g1
                           (approve_trae env d (primed (ta_world a) x)) a))))
      | _ \<Rightarrow> lift_app (accept_approval hx t ids now rid q (ta_reg a, ta_world a)) a)"

definition accept_input_trae :: "'w trae_env \<Rightarrow> (int \<Rightarrow> uuid) \<Rightarrow> time \<Rightarrow> uuid \<Rightarrow> input_request \<Rightarrow> 'w trae_app \<Rightarrow> (http_error + json) \<times> 'w trae_app" where
  "accept_input_trae env ids now rid q a =
     (case (map_of (rg_runs (ta_reg a)) rid, map_of (ta_execs a) rid) of
        (Some s, Some x) \<Rightarrow>
          (let p = or_else (rs_pending s) [] in
           if cached_command (in_command q) s = None \<and> rs_status s = ''WAITING_INPUT'' \<and> map_of p ''interaction_id'' = Some (JStr (in_interaction q))
              \<and> obj_get p ''kind'' JNull = JStr ''question''
           then tell ids now rid (in_command q) (length (rs_events s)) (running s) (observe now rid (ta_reg a))
                  (answer_trae env (py_str (te_str env) (in_value q)) (primed (ta_world a) x)) a
           else lift_app (accept_input ids now rid q (ta_reg a, ta_world a)) a)
      | _ \<Rightarrow> lift_app (accept_input ids now rid q (ta_reg a, ta_world a)) a)"

text \<open>Cancelling the task: its futures are done, and its directories are removed.\<close>

definition suspended :: "'w execution \<Rightarrow> bool" where
  "suspended x = (case xn_stop x of AtGate _ _ _ _ \<Rightarrow> True | _ \<Rightarrow> False)"

definition cancel_execution :: "'w execution \<Rightarrow> 'w execution" where
  "cancel_execution x = x\<lparr>xn_stop := Exhausted 0, xn_adapter := (xn_adapter x)\<lparr>ad_bridge :=
     map_option (\<lambda>b. b\<lparr>br_wait := None\<rparr>) (ad_bridge (xn_adapter x))\<rparr>\<rparr>"

definition cancel_trae :: "(int \<Rightarrow> uuid) \<Rightarrow> time \<Rightarrow> uuid \<Rightarrow> uuid option \<Rightarrow> 'w trae_app \<Rightarrow> (http_error + json) \<times> 'w trae_app" where
  "cancel_trae ids now rid cmd a = (case lift_app (cancel_run ids now rid cmd (ta_reg a, ta_world a)) a of (r, a1) \<Rightarrow>
     (case (map_of (rg_runs (ta_reg a)) rid, map_of (ta_execs a) rid) of
        (Some s, Some x) \<Rightarrow> if cached_command cmd s = None \<and> rs_status s \<noteq> ''CANCELLED'' \<and> suspended x
            then (r, a1\<lparr>ta_execs := AList.update rid (cancel_execution x) (ta_execs a1), ta_fs := cleanup_execution x (ta_fs a1)\<rparr>)
            else (r, a1)
      | _ \<Rightarrow> (r, a1)))"

definition checkpoint_trae :: "(json \<Rightarrow> string) \<Rightarrow> digests \<Rightarrow> (int \<Rightarrow> uuid) \<Rightarrow> uuid \<Rightarrow> time \<Rightarrow> uuid \<Rightarrow> string \<Rightarrow> 'w trae_app
    \<Rightarrow> (http_error + checkpoint) \<times> 'w trae_app" where
  "checkpoint_trae str hx ids kid now rid why a = (case reg_get now rid (ta_reg a) of
       (None, g1) \<Rightarrow> (Inl (HTTPException 404 ''run not found''), a\<lparr>ta_reg := g1\<rparr>)
     | (Some s, g1) \<Rightarrow> (case checkpoint_of str hx (case map_of (ta_execs a) rid of None \<Rightarrow> [] | Some x \<Rightarrow> execution_policy x) kid now rid s of
           None \<Rightarrow> (Inl (Crash ''validation''), a\<lparr>ta_reg := g1\<rparr>)
         | Some k \<Rightarrow> (Inr k, put_run g1 rid (emit ids now ''checkpoint.created'' [(''checkpoint_id'', JStr kid), (''reason'', JStr why)] s) a)))"

definition resume_known_trae :: "'w trae_env \<Rightarrow> digests \<Rightarrow> 'w tools \<Rightarrow> (int \<Rightarrow> uuid) \<Rightarrow> time \<Rightarrow> uuid \<Rightarrow> resume_request \<Rightarrow> nat \<Rightarrow> run_state
    \<Rightarrow> registry \<Rightarrow> 'w trae_app \<Rightarrow> (http_error + json) \<times> 'w trae_app" where
  "resume_known_trae env hx t ids now rid q first s g a =
     (let k = re_checkpoint q; cmd = re_command q in
      case cached_command cmd s of Some r \<Rightarrow> (Inr r, put_run g rid s a) | None \<Rightarrow>
      (case build_mcp_server_configs (te_str env) (te_environ env) (cb_mcp_refs (cp_context_bundle k)) [] of
         Inl e \<Rightarrow> (Inl (Crash e), put_run g rid s a)
       | Inr servers \<Rightarrow>
         if cp_pending_tool_calls k = []
         then (case resume_known (te_str env) (te_environ env) hx t ids now rid q first s (ta_world a) of (r, s1, w) \<Rightarrow> (r, (put_run g rid s1 a)\<lparr>ta_world := w\<rparr>))
         else
           (let s1 = running (emit ids now ''checkpoint.restored'' [(''checkpoint_id'', JStr (cp_id k))] s);
                again = (\<lambda>v. reply_driven ids now rid cmd first s1 g (resume_trae env k v (rs_request s) servers (ta_world a) (ta_fs a)) a) in
            if obj_get (or_else (cp_pending_interaction k) []) ''kind'' JNull = JStr ''question''
            then (let answer = py_str (te_str env) (re_value q) in
                  case map_of (ta_execs a) rid of
                    Some x \<Rightarrow> tell ids now rid cmd first s1 g (answer_trae env answer (primed (ta_world a) x)) a
                  | None \<Rightarrow> again (Answer answer))
            else (case decision_of (py_str (te_str env) (re_value q)) of
                None \<Rightarrow> (Inl (HTTPException 422 ''tool batch resume requires an approval decision''), put_run g rid s1 a)
              | Some d \<Rightarrow> (case map_of (ta_execs a) rid of
                    Some x \<Rightarrow> tell ids now rid cmd first s1 g (approve_trae env d (primed (ta_world a) x)) a
                  | None \<Rightarrow> again (Decide d))))))"

definition resume_run_trae :: "'w trae_env \<Rightarrow> digests \<Rightarrow> 'w tools \<Rightarrow> lease_env \<Rightarrow> uuid \<Rightarrow> (int \<Rightarrow> uuid) \<Rightarrow> time \<Rightarrow> uuid \<Rightarrow> resume_request \<Rightarrow> 'w trae_app
    \<Rightarrow> (http_error + json) \<times> 'w trae_app" where
  "resume_run_trae env hx t lease fresh ids now rid q a = (case reg_get now rid (ta_reg a) of
       (Some s, g1) \<Rightarrow> resume_known_trae env hx t ids now rid q (length (rs_events s)) s g1 a
     | (None, g1) \<Rightarrow> (case restore_run lease fresh now rid q g1 of
           (Inl e, g2) \<Rightarrow> (Inl e, a\<lparr>ta_reg := g2, ta_execs := AList.delete rid (ta_execs a)\<rparr>)
         | (Inr s, g2) \<Rightarrow> resume_known_trae env hx t ids now rid q 0 s g2 (a\<lparr>ta_execs := AList.delete rid (ta_execs a)\<rparr>)))"

section \<open>Gates are announced\<close>

text \<open>The interaction \<open>p\<close> describes the gate the bridge waits at.\<close>

definition opened :: "'w trae_env \<Rightarrow> obj \<Rightarrow> 'w bridge \<Rightarrow> bool" where
  "opened env p b = (\<exists>n. let e = (te_bridge env)\<lparr>be_next_step := n\<rparr> in case br_wait b of
       None \<Rightarrow> False
     | Some (WaitApproval calls how auth) \<Rightarrow> calls \<noteq> [] \<and> au_approval_id auth \<noteq> None \<and>
         p = interaction_of e [(''interaction_id'', opt_json (au_approval_id auth)), (''kind'', JStr ''approval'')] calls how b
     | Some (WaitAnswer calls how) \<Rightarrow> calls \<noteq> [] \<and> (\<exists>i question.
         p = interaction_of e [(''interaction_id'', JStr i), (''kind'', JStr ''question''), (''question'', JStr question)] calls how b))"

definition announced :: "'w trae_env \<Rightarrow> 'w bridge \<Rightarrow> bool" where
  "announced env b = (br_events b \<noteq> [] \<and> opened env (snd (last (br_events b))) b)"

lemma policy_dump_cong: "br_policy b' = br_policy b \<Longrightarrow> br_table b' = br_table b \<Longrightarrow> policy_dump b' = policy_dump b"
  by (simp add: policy_dump_def)

lemma interaction_of_cong:
  "br_policy b' = br_policy b \<Longrightarrow> br_table b' = br_table b \<Longrightarrow> interaction_of e op cs how b' = interaction_of e op cs how b"
  using policy_dump_cong [of b' b] by (simp add: interaction_of_def)

lemma announcedI:
  assumes "e = (te_bridge env)\<lparr>be_next_step := n\<rparr>"
  shows "calls \<noteq> [] \<Longrightarrow> au_approval_id auth \<noteq> None \<Longrightarrow> announced env (br_emit ty (interaction_of e [(''interaction_id'', opt_json (au_approval_id auth)), (''kind'', JStr ''approval'')] calls how b)
      (b\<lparr>br_wait := Some (WaitApproval calls how auth)\<rparr>))"
    "calls \<noteq> [] \<Longrightarrow> announced env (br_emit ty (interaction_of e [(''interaction_id'', JStr i), (''kind'', JStr ''question''), (''question'', JStr qu)] calls how b)
      (b\<lparr>br_wait := Some (WaitAnswer calls how)\<rparr>))"
  by (auto simp: announced_def opened_def br_emit_def Let_def assms interaction_of_def policy_dump_def intro!: exI [of _ n])

lemma after_authorization_announced:
  assumes "after_authorization e fresh auth d calls how b = (Waiting, b')" "e = (te_bridge env)\<lparr>be_next_step := n\<rparr>"
  shows "announced env b'"
proof -
  have "bridge_dispatch e calls how b \<noteq> (Waiting, b')"
    by (auto simp: bridge_dispatch_def store_results_def Let_def split: prod.splits sum.splits option.splits if_splits)
  with assms(1) have "ask_user e fresh calls how b = (Waiting, b')"
    by (auto simp: after_authorization_def rejected_batch_def Let_def split: if_splits)
  then show ?thesis using announcedI(2) [OF assms(2)]
    by (auto simp: ask_user_def store_results_def Let_def split: list.splits if_splits prod.splits)
qed

lemma gate_env_upd: "gate_env env b = (te_bridge env)\<lparr>be_next_step := next_step_of (te_traj env (br_world b))\<rparr>"
  by (simp add: gate_env_def)

lemma requires_approval_id:
  "au_status (authorize dg bh tb pol calls) = REQUIRES_APPROVAL \<Longrightarrow> calls \<noteq> []"
  "au_status (authorize dg bh tb pol calls) = REQUIRES_APPROVAL \<Longrightarrow> au_approval_id (authorize dg bh tb pol calls) \<noteq> None"
  by (auto simp: authorize_def Let_def split: if_splits)

lemma execute_announced:
  assumes "bridge_execute (gate_env env b0) fresh restored calls how b = (Waiting, b')"
  shows "announced env b'"
  using assms after_authorization_announced [OF _ gate_env_upd] announcedI(1) [OF gate_env_upd requires_approval_id]
  by (auto simp: bridge_execute_def store_results_def Let_def split: if_splits prod.splits)

lemma approve_announced:
  assumes "bridge_approve (gate_env env b0) fresh d b = (Waiting, b')"
  shows "announced env b'"
  using assms after_authorization_announced [OF _ gate_env_upd] by (auto simp: bridge_approve_def split: option.splits wait.splits)

lemma submit_not_waiting: "bridge_submit_answer s b \<noteq> (Waiting, b')"
  by (auto simp: bridge_submit_answer_def store_results_def split: option.splits wait.splits list.splits prod.splits)

lemma agent_loop_announced:
  "agent_loop env ctx n made mem b = (AtGate m l k c, b') \<Longrightarrow> announced env b'"
proof (induction n arbitrary: made mem b)
  case (Suc n)
  obtain attempts mv w where t: "te_brain env ctx mem (br_world b) = ((attempts, mv), w)" by (metis surj_pair)
  let ?b = "streamed env attempts (b\<lparr>br_world := w\<rparr>)"
  show ?case
  proof (cases mv)
    case (MoveCalls cs)
    obtain out b2 where x: "bridge_execute (gate_env env ?b) (te_fresh env made) None cs (te_method env) ?b = (out, b2)" by (rule prod.exhaust)
    then show ?thesis using Suc.prems t MoveCalls by (cases out) (auto simp: Let_def dest: Suc.IH execute_announced)
  next
    case MoveText
    then show ?thesis using Suc.prems t by (auto simp: Let_def dest: Suc.IH)
  qed (use Suc.prems t in \<open>auto simp: Let_def\<close>)
qed simp

lemma agent_continue_announced:
  assumes "agent_continue env ctx mem left made counts ob = (AtGate m l k c, b')" "\<And>b. ob = (Waiting, b) \<Longrightarrow> announced env b"
  shows "announced env b'"
  using assms by (auto simp: agent_continue_def split: prod.splits bridge_outcome.splits dest: agent_loop_announced)

section \<open>A run that waits is at the gate it announced\<close>

definition gate_open :: "'w trae_env \<Rightarrow> obj \<Rightarrow> 'w execution \<Rightarrow> bool" where
  "gate_open env p x = (suspended x \<and> (\<exists>b. ad_bridge (xn_adapter x) = Some b \<and> opened env p b))"

lemma settle_open:
  assumes "settle env x sb = (Suspended, x')" "\<And>m l k c b. sb = (AtGate m l k c, b) \<Longrightarrow> announced env b"
  shows "gate_open env (snd (last (execution_events x'))) x'"
  using assms by (auto simp: settle_def gate_open_def suspended_def execution_events_def announced_def split: prod.splits agent_stop.splits)

lemma run_trae_open:
  assumes "run_trae env q servers w fs = (Suspended, x, fs')"
  shows "gate_open env (snd (last (execution_events x))) x"
  using assms by (auto simp: run_trae_def Let_def split: prod.splits option.splits intro!: settle_open agent_loop_announced)

lemma continued_open:
  assumes "settle env y (agent_continue env ctx mem left made counts ob) = (Suspended, x)" "\<And>b. ob = (Waiting, b) \<Longrightarrow> announced env b"
  shows "gate_open env (snd (last (execution_events x))) x"
  using assms(1) by (rule settle_open) (rule agent_continue_announced [OF _ assms(2)])

lemma resume_trae_open:
  assumes "resume_trae env k v q servers w fs = (Suspended, x, fs')"
  shows "gate_open env (snd (last (execution_events x))) x"
  using assms
  by (auto simp: resume_trae_def Let_def split: prod.splits option.splits sum.splits resume_value.splits
      elim!: continued_open dest: execute_announced)

lemma continue_open:
  assumes "continue_with env f x = (Suspended, x')" "awaits_approval x \<or> awaits_answer x" "\<And>b b'. f b = (Waiting, b') \<Longrightarrow> announced env b'"
  shows "gate_open env (snd (last (execution_events x'))) x'"
  using assms by (auto simp: continue_with_def awaits_approval_def awaits_answer_def split: agent_stop.splits option.splits
      elim!: continued_open)

lemma approve_trae_open:
  assumes "approve_trae env d x = (Inr Suspended, x')"
  shows "gate_open env (snd (last (execution_events x'))) x'"
proof -
  let ?f = "\<lambda>b. bridge_approve (gate_env env b) (gate_fresh env x) d b"
  from assms have "awaits_approval x" "continue_with env ?f x = (Suspended, x')"
    by (auto simp: approve_trae_def map_prod_def split: if_splits prod.splits)
  then show ?thesis using continue_open [of env ?f x x'] approve_announced by blast
qed

lemma answer_trae_open:
  assumes "answer_trae env v x = (Inr Suspended, x')"
  shows "gate_open env (snd (last (execution_events x'))) x'"
proof -
  from assms have "awaits_answer x" "continue_with env (bridge_submit_answer v) x = (Suspended, x')"
    by (auto simp: answer_trae_def map_prod_def split: if_splits prod.splits)
  then show ?thesis using continue_open [of env "bridge_submit_answer v" x x'] submit_not_waiting by blast
qed

definition run_waits :: "'w trae_env \<Rightarrow> 'w execution option \<Rightarrow> run_state \<Rightarrow> bool" where
  "run_waits env x s = (rs_status s = ''WAITING_INPUT'' \<longrightarrow> (\<forall>p. rs_pending s = Some p \<longrightarrow> (\<exists>y. x = Some y \<and> gate_open env p y \<and> rs_tool_batch s = waiting_batch y)))"

definition trae_inv :: "'w trae_env \<Rightarrow> 'w trae_app \<Rightarrow> bool" where
  "trae_inv env a = (\<forall>rid s. map_of (rg_runs (ta_reg a)) rid = Some s \<longrightarrow> run_waits env (map_of (ta_execs a) rid) s)"

lemma run_waits_not [simp]: "rs_status s \<noteq> ''WAITING_INPUT'' \<Longrightarrow> run_waits env x s"
  by (simp add: run_waits_def)

lemma gate_open_primed [simp]: "gate_open env p (primed w x) = gate_open env p x"
proof -
  have i: "interaction_of e op cs how (b\<lparr>br_world := w, br_events := []\<rparr>) = interaction_of e op cs how b" for e op cs how and b :: "'a bridge"
    by (rule interaction_of_cong) simp_all
  have "opened env p (b\<lparr>br_world := w, br_events := []\<rparr>) = opened env p b" for b
    by (cases "br_wait b") (auto simp: opened_def Let_def i split: wait.split)
  then show ?thesis by (auto simp: gate_open_def primed_def suspended_def map_option_case split: option.splits)
qed

lemma driven_waits:
  assumes "p = Suspended \<Longrightarrow> gate_open env (snd (last (execution_events x))) x"
  shows "run_waits env (Some x) (fst (driven ids now (p, x) s fs))"
  using assms by (cases p) (auto simp: driven_def run_waits_def Let_def split: sum.splits)

text \<open>No run starts to wait.\<close>

definition quiet :: "registry \<Rightarrow> registry \<Rightarrow> bool" where
  "quiet g g' = (\<forall>k s'. map_of (rg_runs g') k = Some s' \<longrightarrow> rs_status s' = ''WAITING_INPUT'' \<longrightarrow> rs_pending s' = None
     \<or> (\<exists>s. map_of (rg_runs g) k = Some s \<and> rs_status s = ''WAITING_INPUT'' \<and> rs_pending s = rs_pending s'
        \<and> rs_tool_batch s = rs_tool_batch s'))"

lemma quiet_refl [simp]: "quiet g g"
  by (simp add: quiet_def)

lemma quiet_observe [simp]: "quiet g (observe now k g') = quiet g g'"
  by (simp add: quiet_def)

lemma put_get [simp]: "map_of (rg_runs (reg_put rid s g)) rid = Some s"
  by (simp add: reg_put_def update_conv')

lemma quiet_put:
  assumes "quiet g g'" "rs_status s = ''WAITING_INPUT'' \<Longrightarrow> rs_pending s = None
    \<or> (\<exists>s0. map_of (rg_runs g) rid = Some s0 \<and> rs_status s0 = ''WAITING_INPUT'' \<and> rs_pending s0 = rs_pending s \<and> rs_tool_batch s0 = rs_tool_batch s)"
  shows "quiet g (reg_put rid s g')"
  using assms by (auto simp: quiet_def reg_put_def update_conv')

lemma quiet_set: "quiet g g' \<Longrightarrow> rs_status s \<noteq> ''WAITING_INPUT'' \<Longrightarrow> quiet g (reg_set now rid s g')"
  unfolding reg_set_def quiet_observe by (rule quiet_put) (auto simp: quiet_def prune_def Let_def split: if_splits)

lemma remember_pending [simp]: "rs_pending (remember_command cmd r s) = rs_pending s" "rs_tool_batch (remember_command cmd r s) = rs_tool_batch s"
  by (simp_all add: remember_command_def split: option.split)

lemma emit_pending [simp]: "rs_pending (emit ids now ty p s) = rs_pending s"
  by (simp add: emit_def Let_def)

lemma finish_quiet: "finish_command rid cmd n s = (r, s') \<Longrightarrow> rs_status s' = rs_status s \<and> rs_pending s' = rs_pending s \<and> rs_tool_batch s' = rs_tool_batch s"
  by (auto simp: finish_command_def Let_def)

lemma accept_input_quiet: "quiet g (fst (snd (accept_input ids now rid q (g, w))))"
  by (auto simp: accept_input_def reg_get_def Let_def split: prod.splits option.splits list.splits if_splits
      intro!: quiet_put dest!: finish_quiet)

lemma accept_approval_quiet: "quiet g (fst (snd (accept_approval hx t ids now rid q (g, w))))"
  by (auto simp: accept_approval_def reg_get_def Let_def split: prod.splits option.splits list.splits if_splits sum.splits
      intro!: quiet_put dest!: finish_quiet execute_tool_batch_Inr)

lemma cancel_run_quiet: "quiet g (fst (snd (cancel_run ids now rid cmd (g, w))))"
  by (auto simp: cancel_run_def reg_get_def Let_def split: prod.splits option.splits list.splits if_splits
      intro!: quiet_put dest!: finish_quiet)

lemma resume_known_quiet:
  "resume_known str vars hx t ids now rid q first s w = (r, s', w') \<Longrightarrow> s' = s \<or> rs_pending s' = None \<or> rs_status s' = ''COMPLETED''"
  by (auto simp: resume_known_def Let_def split: option.splits sum.splits if_splits prod.splits
      dest!: finish_quiet execute_tool_batch_Inr)

lemma trae_inv_quiet:
  assumes "trae_inv env a" "quiet (ta_reg a) (ta_reg a')" "ta_execs a' = ta_execs a"
  shows "trae_inv env a'"
  using assms unfolding trae_inv_def quiet_def run_waits_def by (metis option.distinct(1))

lemma trae_inv_put:
  assumes "trae_inv env a" "quiet (ta_reg a) g" "ta_reg a' = reg_put rid s g"
    "\<And>k. k \<noteq> rid \<Longrightarrow> map_of (ta_execs a') k = map_of (ta_execs a) k" "run_waits env (map_of (ta_execs a') rid) s"
  shows "trae_inv env a'"
  unfolding trae_inv_def
proof (intro allI impI)
  fix k s' assume s': "map_of (rg_runs (ta_reg a')) k = Some s'"
  show "run_waits env (map_of (ta_execs a') k) s'"
  proof (cases "k = rid")
    case True
    then show ?thesis using s' assms(3,5) by (simp add: reg_put_def update_conv')
  next
    case False
    then have "map_of (rg_runs g) k = Some s'" using s' assms(3) by (simp add: reg_put_def update_conv')
    then show ?thesis using assms(1,2) False assms(4) unfolding trae_inv_def quiet_def run_waits_def by (metis option.distinct(1))
  qed
qed

definition announces :: "'w trae_env \<Rightarrow> progress \<Rightarrow> 'w execution \<Rightarrow> bool" where
  "announces env p x = (p = Suspended \<longrightarrow> gate_open env (snd (last (execution_events x))) x)"

lemma put_driven_inv:
  assumes "trae_inv env a" "quiet (ta_reg a) g" "announces env p x" "rs_status s = rs_status (fst (driven ids now (p, x) s0 fs))"
    "rs_pending s = rs_pending (fst (driven ids now (p, x) s0 fs))" "rs_tool_batch s = rs_tool_batch (fst (driven ids now (p, x) s0 fs))" "\<And>k. k \<noteq> rid \<Longrightarrow> map_of ex k = map_of (ta_execs a) k"
  shows "trae_inv env (put_driven g rid x (s, fs') (a\<lparr>ta_execs := ex\<rparr>))"
proof (rule trae_inv_put [OF assms(1,2)])
  show "run_waits env (map_of (ta_execs (put_driven g rid x (s, fs') (a\<lparr>ta_execs := ex\<rparr>))) rid) s"
    using driven_waits [of p env x ids now s0 fs] assms(3-6) by (simp add: put_driven_def update_conv' run_waits_def announces_def)
qed (simp_all add: put_driven_def update_conv' assms(7))

lemma reply_driven_inv:
  assumes "trae_inv env a" "quiet (ta_reg a) g" "announces env p x"
  shows "trae_inv env (snd (reply_driven ids now rid cmd first s g (p, x, fs) a))"
proof -
  obtain s1 fs1 where d: "driven ids now (p, x) s fs = (s1, fs1)" by (rule prod.exhaust)
  obtain r s2 where f: "finish_command rid cmd first s1 = (r, s2)" by (rule prod.exhaust)
  have "trae_inv env (put_driven g rid x (s2, fs1) (a\<lparr>ta_execs := ta_execs a\<rparr>))"
    by (rule put_driven_inv [OF assms, where ?s0.0 = s and fs = fs and ids = ids and now = now]) (use d finish_quiet [OF f] in simp_all)
  then show ?thesis by (simp add: reply_driven_def d f Let_def)
qed

lemma put_run_inv:
  assumes "trae_inv env a" "quiet (ta_reg a) g" "rs_status s = ''WAITING_INPUT'' \<Longrightarrow> rs_pending s = None"
  shows "trae_inv env (put_run g rid s a)"
  by (rule trae_inv_put [OF assms(1,2)]) (use assms(3) in \<open>auto simp: put_run_def run_waits_def\<close>)

lemma tell_inv:
  assumes "trae_inv env a" "quiet (ta_reg a) g" "rs_pending s = None" "\<And>x'. rx = (Inr Suspended, x') \<Longrightarrow> announces env Suspended x'"
  shows "trae_inv env (snd (tell ids now rid cmd first s g rx a))"
proof (cases rx)
  case (Pair r x)
  then show ?thesis using assms
    by (cases r) (auto simp: tell_def announces_def intro!: put_run_inv reply_driven_inv)
qed

lemma approve_announces: "approve_trae env d x = (Inr Suspended, x') \<Longrightarrow> announces env Suspended x'"
  by (simp add: announces_def approve_trae_open)

lemma answer_announces: "answer_trae env v x = (Inr Suspended, x') \<Longrightarrow> announces env Suspended x'"
  by (simp add: announces_def answer_trae_open)

lemma lift_app_inv:
  assumes "trae_inv env a" "quiet (ta_reg a) (fst (snd ra))"
  shows "trae_inv env (snd (lift_app ra a))"
  by (rule trae_inv_quiet [OF assms(1)]) (use assms(2) in \<open>auto simp: lift_app_def split: prod.splits\<close>)

lemma observe_inv_trae: "trae_inv env a \<Longrightarrow> trae_inv env (a\<lparr>ta_reg := observe now rid (ta_reg a)\<rparr>)"
  by (simp add: trae_inv_def)

lemma running_pending [simp]: "rs_pending (running s) = None" "rs_status (running s) = ''RUNNING''"
  by (simp_all add: running_def)

lemma accept_approval_trae_inv: "trae_inv env a \<Longrightarrow> trae_inv env (snd (accept_approval_trae env hx t ids now rid q a))"
  by (auto simp: accept_approval_trae_def Let_def accept_approval_quiet split: option.splits list.splits
      intro!: lift_app_inv observe_inv_trae tell_inv dest: approve_announces)

lemma accept_input_trae_inv: "trae_inv env a \<Longrightarrow> trae_inv env (snd (accept_input_trae env ids now rid q a))"
  by (auto simp: accept_input_trae_def Let_def accept_input_quiet split: option.splits
      intro!: lift_app_inv tell_inv dest: answer_announces)

lemma checkpoint_trae_inv: "trae_inv env a \<Longrightarrow> trae_inv env (snd (checkpoint_trae str hx ids kid now rid why a))"
  by (auto simp: checkpoint_trae_def reg_get_def put_run_def split: option.splits intro!: observe_inv_trae)
     (rule trae_inv_quiet, assumption, auto intro!: quiet_put)+

lemma start_run_trae_inv:
  assumes "trae_inv env a"
  shows "trae_inv env (snd (start_run_trae env lease ids now q a))"
proof -
  have q: "quiet (ta_reg a) (reg_set now rid (new_run_state q) (ta_reg a))" for rid
    by (rule quiet_set) (simp_all add: new_run_state_def)
  have p: "trae_inv env (a\<lparr>ta_execs := AList.delete rid (ta_execs a), ta_reg := reg_put rid (emit ids now ty py (new_run_state q)) (reg_set now rid (new_run_state q) (ta_reg a))\<rparr>)"
    for rid ty py
    by (rule trae_inv_put [OF assms q]) (auto simp: delete_conv' new_run_state_def)
  have d: "trae_inv env (put_driven (reg_set now rid (new_run_state q) (ta_reg a)) rid x (driven ids now (y, x) s fs) (a\<lparr>ta_execs := AList.delete rid (ta_execs a)\<rparr>))"
    if "run_trae env q servers w fs0 = (y, x, fs)" for rid x s fs w servers fs0 y
  proof -
    have n: "announces env y x" using that run_trae_open by (auto simp: announces_def)
    show ?thesis using put_driven_inv [OF assms q [of rid] n, where s = "fst (driven ids now (y, x) s fs)" and ids = ids and now = now and ?s0.0 = s and fs = fs
        and rid = rid and fs' = "snd (driven ids now (y, x) s fs)" and ex = "AList.delete rid (ta_execs a)"]
      by (simp add: delete_conv')
  qed
  show ?thesis using assms p d
    by (auto simp: start_run_trae_def reg_get_def Let_def put_run_def split: option.splits sum.splits prod.splits intro!: observe_inv_trae)
qed

lemma cancel_trae_inv:
  assumes "trae_inv env a"
  shows "trae_inv env (snd (cancel_trae ids now rid cmd a))"
proof -
  obtain r a1 where l: "lift_app (cancel_run ids now rid cmd (ta_reg a, ta_world a)) a = (r, a1)" by (rule prod.exhaust)
  have i: "trae_inv env a1" using lift_app_inv [OF assms cancel_run_quiet, of ids now rid cmd "ta_world a"] l by (metis snd_conv)
  have st: "rs_status s1 = ''CANCELLED''"
    if "map_of (rg_runs (ta_reg a)) rid = Some s" "cached_command cmd s = None" "rs_status s \<noteq> ''CANCELLED''"
      "map_of (rg_runs (ta_reg a1)) rid = Some s1" for s s1
    using that l by (auto simp: lift_app_def cancel_run_def reg_get_def Let_def split: prod.splits dest!: finish_quiet)
  have "trae_inv env (a1\<lparr>ta_execs := AList.update rid x (ta_execs a1), ta_fs := fs\<rparr>)"
    if "map_of (rg_runs (ta_reg a)) rid = Some s" "cached_command cmd s = None" "rs_status s \<noteq> ''CANCELLED''" for s x fs
    using i st [OF that] unfolding trae_inv_def by (auto simp: update_conv')
  then show ?thesis using i by (auto simp: cancel_trae_def l split: option.splits)
qed

lemma resume_trae_announces: "resume_trae env k v q servers w fs = (p, x, fs') \<Longrightarrow> announces env p x"
  by (auto simp: announces_def resume_trae_open)

lemma again_inv:
  assumes "trae_inv env a" "quiet (ta_reg a) g"
  shows "trae_inv env (snd (reply_driven ids now rid cmd first s g (resume_trae env k v q servers w fs) a))"
proof -
  obtain p x fs' where "resume_trae env k v q servers w fs = (p, x, fs')" by (rule prod_cases3)
  then show ?thesis using reply_driven_inv [OF assms resume_trae_announces] by metis
qed

lemma resume_known_trae_inv:
  assumes "trae_inv env a" "quiet (ta_reg a) g"
    "rs_status s = ''WAITING_INPUT'' \<Longrightarrow> rs_pending s = None \<or> (map_of (rg_runs (ta_reg a)) rid = Some s)"
  shows "trae_inv env (snd (resume_known_trae env hx t ids now rid q first s g a))"
proof -
  have same: "trae_inv env (put_run g rid s a)"
    by (rule trae_inv_quiet [OF assms(1)]) (use assms(2,3) in \<open>auto simp: put_run_def intro!: quiet_put\<close>)
  have known: "trae_inv env ((put_run g rid s1 a)\<lparr>ta_world := w\<rparr>)"
    if "resume_known (te_str env) (te_environ env) hx t ids now rid q first s (ta_world a) = (r, s1, w)" for r s1 w
    by (rule trae_inv_quiet [OF assms(1)])
       (use resume_known_quiet [OF that] assms(2,3) in \<open>auto simp: put_run_def intro!: quiet_put\<close>)
  show ?thesis using same known assms(1,2)
    by (auto simp: resume_known_trae_def Let_def split: option.splits sum.splits prod.splits
        intro!: tell_inv put_run_inv again_inv dest: approve_announces answer_announces)
qed

lemma resume_run_trae_inv:
  assumes "trae_inv env a"
  shows "trae_inv env (snd (resume_run_trae env hx t lease fresh ids now rid q a))"
proof (cases "map_of (rg_runs (ta_reg a)) rid")
  case (Some s)
  then show ?thesis using resume_known_trae_inv [OF assms, of "observe now rid (ta_reg a)" s rid]
    by (simp add: resume_run_trae_def reg_get_def)
next
  case None
  let ?a = "a\<lparr>ta_execs := AList.delete rid (ta_execs a)\<rparr>"
  have i: "trae_inv env ?a" using assms None unfolding trae_inv_def by (auto simp: delete_conv')
  obtain res g2 where r: "restore_run lease fresh now rid q (observe now rid (ta_reg a)) = (res, g2)" by (rule prod.exhaust)
  have q: "quiet (ta_reg a) g2" "\<And>s. res = Inr s \<Longrightarrow> rs_status s = ''STARTING''"
    using r by (auto simp: restore_run_def Let_def new_run_state_def split: option.splits json.splits intro!: quiet_put quiet_set)
  show ?thesis
  proof (cases res)
    case (Inl e)
    then show ?thesis using trae_inv_quiet [OF i, of "a\<lparr>ta_reg := g2, ta_execs := AList.delete rid (ta_execs a)\<rparr>"] q(1) None r by (simp add: resume_run_trae_def reg_get_def)
  next
    case (Inr s)
    then show ?thesis using resume_known_trae_inv [OF i, of g2 s rid] q None r by (simp add: resume_run_trae_def reg_get_def)
  qed
qed

section \<open>Reachable runners\<close>

text \<open>One handled request, whatever it is and whatever it replied, or a change of the world by others.\<close>

inductive trae_step :: "'w trae_env \<Rightarrow> 'w trae_app \<Rightarrow> 'w trae_app \<Rightarrow> bool" for env where
  started: "trae_step env a (snd (start_run_trae env lease ids now q a))"
| input: "trae_step env a (snd (accept_input_trae env ids now rid iq a))"
| decided: "trae_step env a (snd (accept_approval_trae env hx t ids now rid aq a))"
| cancelled: "trae_step env a (snd (cancel_trae ids now rid cmd a))"
| checkpointed: "trae_step env a (snd (checkpoint_trae str hx ids kid now rid why a))"
| resumed: "trae_step env a (snd (resume_run_trae env hx t lease fresh ids now rid rq a))"
| listed: "trae_step env a (snd (lift_app (run_events now rid after (ta_reg a, ta_world a)) a))"
| elsewhere: "trae_step env a (a\<lparr>ta_world := w\<rparr>)"

definition new_trae_app :: "time \<Rightarrow> nat \<Rightarrow> 'w \<Rightarrow> skill_fs \<Rightarrow> 'w trae_app" where
  "new_trae_app retain limit w fs =
     \<lparr>ta_reg = \<lparr>rg_runs = [], rg_terminal_at = [], rg_retain = retain, rg_max = limit\<rparr>, ta_execs = [], ta_world = w, ta_fs = fs\<rparr>"

definition trae_reachable :: "'w trae_env \<Rightarrow> 'w trae_app \<Rightarrow> bool" where
  "trae_reachable env a = (\<exists>retain limit w fs. (trae_step env)\<^sup>*\<^sup>* (new_trae_app retain limit w fs) a)"

lemma trae_step_inv: "trae_step env a a' \<Longrightarrow> trae_inv env a \<Longrightarrow> trae_inv env a'"
proof (induction rule: trae_step.induct)
  case (listed a now rid after)
  have "quiet (ta_reg a) (fst (snd (run_events now rid after (ta_reg a, ta_world a))))"
    by (simp add: run_events_def reg_get_def split: option.split)
  with listed show ?case by (rule lift_app_inv)
next
  case (elsewhere a w)
  then show ?case by (simp add: trae_inv_def)
qed (rule start_run_trae_inv accept_input_trae_inv accept_approval_trae_inv cancel_trae_inv checkpoint_trae_inv resume_run_trae_inv; assumption)+

lemma trae_reachable_inv: "trae_reachable env a \<Longrightarrow> trae_inv env a"
proof -
  assume "trae_reachable env a"
  then obtain retain limit w fs where "(trae_step env)\<^sup>*\<^sup>* (new_trae_app retain limit w fs) a" by (auto simp: trae_reachable_def)
  then show ?thesis
  proof (induction rule: rtranclp_induct)
    case base
    then show ?case by (simp add: trae_inv_def new_trae_app_def)
  qed (rule trae_step_inv)
qed

section \<open>A question or a gate can be answered\<close>

lemma opened_interaction:
  assumes "opened env p b"
  shows "\<exists>i. map_of p ''interaction_id'' = Some (JStr i)
    \<and> (obj_get p ''kind'' JNull = JStr ''approval'' \<and> (\<exists>c h u. br_wait b = Some (WaitApproval c h u))
     \<or> obj_get p ''kind'' JNull = JStr ''question'' \<and> (\<exists>c h. br_wait b = Some (WaitAnswer c h)))"
proof (cases "br_wait b")
  case (Some u)
  then show ?thesis using assms by (cases u) (auto simp: opened_def Let_def interaction_of_def obj_get_def opt_json_def)
qed (use assms in \<open>simp add: opened_def Let_def\<close>)

lemma gate_open_awaits:
  assumes "gate_open env p x"
  shows "obj_get p ''kind'' JNull = JStr ''approval'' \<Longrightarrow> awaits_approval x"
    "obj_get p ''kind'' JNull = JStr ''question'' \<Longrightarrow> awaits_answer x"
proof -
  from assms obtain b m l k c where b: "ad_bridge (xn_adapter x) = Some b" "opened env p b" "xn_stop x = AtGate m l k c"
    by (auto simp: gate_open_def suspended_def split: agent_stop.splits)
  show "obj_get p ''kind'' JNull = JStr ''approval'' \<Longrightarrow> awaits_approval x"
    "obj_get p ''kind'' JNull = JStr ''question'' \<Longrightarrow> awaits_answer x"
    using opened_interaction [OF b(2)] b(1,3) by (auto simp: awaits_approval_def awaits_answer_def)
qed

lemma awaits_Inr:
  "awaits_approval x \<Longrightarrow> \<exists>y z. approve_trae env d x = (Inr y, z)" "awaits_answer x \<Longrightarrow> \<exists>y z. answer_trae env v x = (Inr y, z)"
  by (simp_all add: approve_trae_def answer_trae_def map_prod_def split: prod.split)

text \<open>
  What is left at a gate: two for every step the agent may still make, and for the batch at the gate two while it waits for an approval, which
  may be followed by its question, and one while it waits for the answer.
\<close>

definition gates_left :: "'w execution \<Rightarrow> nat" where
  "gates_left x = (case xn_stop x of AtGate _ left _ _ \<Rightarrow> 2 * left + (if awaits_approval x then 2 else 1) | _ \<Rightarrow> 0)"

lemma agent_loop_left: "agent_loop env ctx n made mem b = (AtGate m l k c, b') \<Longrightarrow> l < n"
proof (induction n arbitrary: made mem b)
  case (Suc n)
  obtain attempts mv w where t: "te_brain env ctx mem (br_world b) = ((attempts, mv), w)" by (metis surj_pair)
  let ?b = "streamed env attempts (b\<lparr>br_world := w\<rparr>)"
  show ?case
  proof (cases mv)
    case (MoveCalls cs)
    obtain out b2 where x: "bridge_execute (gate_env env ?b) (te_fresh env made) None cs (te_method env) ?b = (out, b2)" by (rule prod.exhaust)
    then show ?thesis using Suc.prems t MoveCalls by (cases out) (auto simp: Let_def dest: Suc.IH)
  next
    case MoveText
    then show ?thesis using Suc.prems t by (auto simp: Let_def dest: Suc.IH)
  qed (use Suc.prems t in \<open>auto simp: Let_def\<close>)
qed simp

lemma after_authorization_asks:
  assumes "after_authorization e fresh auth d calls how b = (Waiting, b')"
  shows "\<exists>c h. br_wait b' = Some (WaitAnswer c h)"
proof -
  have "bridge_dispatch e calls how b \<noteq> (Waiting, b')"
    by (auto simp: bridge_dispatch_def store_results_def Let_def split: prod.splits sum.splits option.splits if_splits)
  with assms have "ask_user e fresh calls how b = (Waiting, b')"
    by (auto simp: after_authorization_def rejected_batch_def Let_def split: if_splits)
  then show ?thesis by (auto simp: ask_user_def store_results_def br_emit_def Let_def split: list.splits if_splits prod.splits)
qed

lemma approve_asks: "bridge_approve e fresh d b = (Waiting, b') \<Longrightarrow> \<exists>c h. br_wait b' = Some (WaitAnswer c h)"
  by (auto simp: bridge_approve_def dest: after_authorization_asks split: option.splits wait.splits)

lemma settle_left:
  assumes "settle env x (AtGate m l k c, b) = (p, x')"
  shows "gates_left x' \<le> 2 * l + 2" "br_wait b = Some (WaitAnswer cs how) \<Longrightarrow> gates_left x' = 2 * l + 1"
  using assms by (auto simp: settle_def gates_left_def awaits_approval_def)

lemma continue_left:
  assumes "continue_with env f x = (Suspended, x')" "awaits_approval x \<or> awaits_answer x"
    "\<And>b b'. f b = (Waiting, b') \<Longrightarrow> awaits_approval x \<and> (\<exists>c h. br_wait b' = Some (WaitAnswer c h))"
  shows "gates_left x' < gates_left x"
proof -
  from assms(2) obtain m l k c b where x: "xn_stop x = AtGate m l k c" "ad_bridge (xn_adapter x) = Some b"
    by (auto simp: awaits_approval_def awaits_answer_def split: agent_stop.splits option.splits)
  have s: "settle env x (agent_continue env (xn_context x) m l k c (f b)) = (Suspended, x')" using assms(1) x by (simp add: continue_with_def)
  obtain out b1 where f: "f b = (out, b1)" by (rule prod.exhaust)
  have g: "gates_left x = 2 * l + (if awaits_approval x then 2 else 1)" by (simp add: gates_left_def x(1))
  show ?thesis
  proof (cases out)
    case (Results rs)
    obtain st b2 where a: "agent_loop env (xn_context x) l (if c then Suc k else k) (m @ [rs]) b1 = (st, b2)" by (rule prod.exhaust)
    then have "settle env x (st, b2) = (Suspended, x')" using s f Results by (simp add: agent_continue_def)
    moreover from this obtain m2 l2 k2 c2 where st: "st = AtGate m2 l2 k2 c2" by (cases st) (auto simp: settle_def split: prod.splits)
    moreover have "l2 < l" using a agent_loop_left unfolding st by blast
    ultimately show ?thesis using settle_left(1) [of env x m2 l2 k2 c2 b2] g by fastforce
  next
    case Waiting
    then obtain cs how where w: "awaits_approval x" "br_wait b1 = Some (WaitAnswer cs how)" using assms(3) f by blast
    then show ?thesis using s f Waiting g settle_left(2) [of env x m l k c b1] by (simp add: agent_continue_def)
  next
    case (BridgeRaised e)
    then show ?thesis using s f by (auto simp: agent_continue_def settle_def split: prod.splits if_splits)
  qed
qed

lemma approve_continues:
  "approve_trae env d x = (Inr p, y) \<longleftrightarrow> awaits_approval x
     \<and> continue_with env (\<lambda>b. bridge_approve (gate_env env b) (gate_fresh env x) d b) x = (p, y)"
  by (auto simp: approve_trae_def map_prod_def split: prod.splits)

lemma answer_continues:
  "answer_trae env v x = (Inr p, y) \<longleftrightarrow> awaits_answer x \<and> continue_with env (bridge_submit_answer v) x = (p, y)"
  by (auto simp: answer_trae_def map_prod_def split: prod.splits)

lemma approve_left:
  assumes "approve_trae env d x = (Inr Suspended, y)"
  shows "gates_left y < gates_left x"
proof -
  from assms have w: "awaits_approval x" and c: "continue_with env (\<lambda>b. bridge_approve (gate_env env b) (gate_fresh env x) d b) x = (Suspended, y)"
    by (simp_all add: approve_continues)
  show ?thesis by (rule continue_left [OF c]) (use w approve_asks in auto)
qed

lemma answer_left:
  assumes "answer_trae env v x = (Inr Suspended, y)"
  shows "gates_left y < gates_left x"
proof -
  from assms have w: "awaits_answer x" and c: "continue_with env (bridge_submit_answer v) x = (Suspended, y)"
    by (simp_all add: answer_continues)
  show ?thesis by (rule continue_left [OF c]) (use w submit_not_waiting in auto)
qed

lemma gates_left_primed [simp]: "gates_left (primed w x) = gates_left x"
  by (auto simp: gates_left_def primed_def awaits_approval_def split: agent_stop.split option.split)

text \<open>
  A run was told: the request succeeds, and the run has ended, or is suspended at a gate with less left than before, whose interaction is the
  payload of its last event.
\<close>

definition answered :: "'w trae_env \<Rightarrow> uuid \<Rightarrow> 'w execution \<Rightarrow> (http_error + json) \<times> 'w trae_app \<Rightarrow> bool" where
  "answered env rid x ra = ((\<exists>v. fst ra = Inr v) \<and> (\<exists>s y. map_of (rg_runs (ta_reg (snd ra))) rid = Some s \<and> map_of (ta_execs (snd ra)) rid = Some y
     \<and> (rs_status s \<in> {''COMPLETED'', ''FAILED''} \<and> rs_pending s = None \<and> \<not> suspended y
        \<or> rs_status s = ''WAITING_INPUT'' \<and> gates_left y < gates_left x \<and> rs_events s \<noteq> []
           \<and> (\<exists>p. rs_pending s = Some p \<and> ev_payload (last (rs_events s)) = p \<and> gate_open env p y))))"

lemma emitted_last:
  assumes "es \<noteq> []"
  shows "rs_events (fold (\<lambda>e. emit ids now (fst e) (snd e)) es s) \<noteq> []
    \<and> ev_payload (last (rs_events (fold (\<lambda>e. emit ids now (fst e) (snd e)) es s))) = snd (last es)"
  using assms by (induction es rule: rev_induct) (auto simp: emit_def Let_def mk_event_def)

lemma finish_events: "finish_command rid cmd n s = (r, s') \<Longrightarrow> rs_events s' = rs_events s"
  by (auto simp: finish_command_def Let_def remember_command_def split: option.splits)

lemma settle_ended: "settle env x sb = (Ended r, y) \<Longrightarrow> \<not> suspended y"
  by (auto simp: settle_def suspended_def split: prod.splits agent_stop.splits)

lemma told_ended:
  "approve_trae env d x = (Inr (Ended r), y) \<Longrightarrow> \<not> suspended y" "answer_trae env v x = (Inr (Ended r), y) \<Longrightarrow> \<not> suspended y"
  by (auto simp: approve_trae_def answer_trae_def map_prod_def continue_with_def awaits_approval_def awaits_answer_def
      split: if_splits prod.splits agent_stop.splits option.splits dest: settle_ended)

lemma answered_tell:
  assumes "rx = (Inr p, y)" "p = Suspended \<Longrightarrow> announces env Suspended y \<and> gates_left y < gates_left x \<and> execution_events y \<noteq> []"
    "\<And>r. p = Ended r \<Longrightarrow> \<not> suspended y"
  shows "answered env rid x (tell ids now rid cmd first s g rx a)"
proof -
  obtain s1 fs1 where d: "driven ids now (p, y) s (ta_fs a) = (s1, fs1)" by (rule prod.exhaust)
  obtain v s2 where f: "finish_command rid cmd first s1 = (v, s2)" by (rule prod.exhaust)
  show ?thesis
  proof (cases p)
    case Suspended
    then show ?thesis using assms(2) d f finish_quiet [OF f] finish_events [OF f] emitted_last [of "execution_events y" ids now s]
      by (auto simp: answered_def tell_def reply_driven_def assms(1) Let_def put_driven_def update_conv' driven_def announces_def)
  next
    case (Ended r)
    then have "rs_status s1 \<in> {''COMPLETED'', ''FAILED''} \<and> rs_pending s1 = None" using d by (auto simp: driven_def Let_def split: sum.splits)
    then show ?thesis using Ended assms(3) d f finish_quiet [OF f]
      by (auto simp: answered_def tell_def reply_driven_def assms(1) Let_def put_driven_def update_conv')
  qed
qed

lemma settle_events:
  assumes "settle env x sb = (Suspended, x')" "\<And>m l k c b. sb = (AtGate m l k c, b) \<Longrightarrow> announced env b"
  shows "execution_events x' \<noteq> []"
  using assms by (auto simp: settle_def execution_events_def announced_def split: prod.splits agent_stop.splits)

lemma continue_events:
  assumes "continue_with env f x = (Suspended, x')" "awaits_approval x \<or> awaits_answer x" "\<And>b b'. f b = (Waiting, b') \<Longrightarrow> announced env b'"
  shows "execution_events x' \<noteq> []"
  using assms by (auto simp: continue_with_def awaits_approval_def awaits_answer_def split: agent_stop.splits option.splits
      elim!: settle_events intro: agent_continue_announced)

lemma told_events:
  "approve_trae env d x = (Inr Suspended, y) \<Longrightarrow> execution_events y \<noteq> []" "answer_trae env v x = (Inr Suspended, y) \<Longrightarrow> execution_events y \<noteq> []"
proof -
  assume "approve_trae env d x = (Inr Suspended, y)"
  then have w: "awaits_approval x" and c: "continue_with env (\<lambda>b. bridge_approve (gate_env env b) (gate_fresh env x) d b) x = (Suspended, y)"
    by (simp_all add: approve_continues)
  show "execution_events y \<noteq> []" by (rule continue_events [OF c]) (use w approve_announced in auto)
next
  assume "answer_trae env v x = (Inr Suspended, y)"
  then have w: "awaits_answer x" and c: "continue_with env (bridge_submit_answer v) x = (Suspended, y)"
    by (simp_all add: answer_continues)
  show "execution_events y \<noteq> []" by (rule continue_events [OF c]) (use w submit_not_waiting in auto)
qed

section \<open>Properties\<close>

text \<open>C13. A run that waits can be answered, and an answer takes it on. In every state a runner reaches by handling requests, a run that waits with an
  interaction is suspended at the very gate the interaction describes. With the identifier it shows an approval takes either decision, or a
  question takes any answer: the request succeeds, and the run has ended, or is suspended at a gate announced by its last event at which
  strictly fewer gates can follow. So nobody is asked more often than twice for every step the agent may make.\<close>

theorem waiting_run_answered:
  assumes "trae_reachable env a" "map_of (rg_runs (ta_reg a)) rid = Some s" "rs_status s = ''WAITING_INPUT''" "rs_pending s = Some p"
    "cached_command cmd s = None"
  shows "\<exists>i x. map_of p ''interaction_id'' = Some (JStr i) \<and> map_of (ta_execs a) rid = Some x \<and> gate_open env p x
    \<and> ((obj_get p ''kind'' JNull = JStr ''approval'' \<and> (\<forall>d\<in>{''APPROVE_ONCE'', ''REJECT''}.
          answered env rid x (accept_approval_trae env hx t ids now rid \<lparr>po_approval = i, po_decision = d, po_command = cmd\<rparr> a)))
     \<or> (obj_get p ''kind'' JNull = JStr ''question'' \<and> (\<forall>v.
          answered env rid x (accept_input_trae env ids now rid \<lparr>in_interaction = i, in_value = v, in_command = cmd\<rparr> a))))"
proof -
  from trae_reachable_inv [OF assms(1)] assms(2-4) obtain x where x: "map_of (ta_execs a) rid = Some x" "gate_open env p x"
    unfolding trae_inv_def run_waits_def by blast
  then obtain b where "opened env p b" by (auto simp: gate_open_def)
  from opened_interaction [OF this] obtain i where i: "map_of p ''interaction_id'' = Some (JStr i)"
    and k: "obj_get p ''kind'' JNull = JStr ''approval'' \<or> obj_get p ''kind'' JNull = JStr ''question''" by blast
  from i obtain q qs where p: "p = q # qs" by (cases p) auto
  have g: "gate_open env p (primed (ta_world a) x)" using x(2) by simp
  have "answered env rid x (accept_approval_trae env hx t ids now rid \<lparr>po_approval = i, po_decision = d, po_command = cmd\<rparr> a)"
    if "obj_get p ''kind'' JNull = JStr ''approval''" "d \<in> {''APPROVE_ONCE'', ''REJECT''}" for d
  proof -
    note h = that
    obtain dec where d: "decision_of d = Some dec" using h(2) by (auto simp: decision_of_def)
    obtain y z where r: "approve_trae env dec (primed (ta_world a) x) = (Inr y, z)"
      using awaits_Inr(1) [OF gate_open_awaits(1) [OF g h(1)]] by blast
    then have "answered env rid x (tell ids now rid cmd first s' g' (Inr y, z) a)" for first s' g'
      by (intro answered_tell [OF refl]) (auto dest: approve_announces approve_left told_events told_ended)
    with r show ?thesis using assms(2-5) x(1) i p d by (simp add: accept_approval_trae_def or_else_def)
  qed
  moreover have "answered env rid x (accept_input_trae env ids now rid \<lparr>in_interaction = i, in_value = v, in_command = cmd\<rparr> a)"
    if "obj_get p ''kind'' JNull = JStr ''question''" for v
  proof -
    note h = that
    obtain y z where r: "answer_trae env (py_str (te_str env) v) (primed (ta_world a) x) = (Inr y, z)"
      using awaits_Inr(2) [OF gate_open_awaits(2) [OF g h]] by blast
    then have "answered env rid x (tell ids now rid cmd first s' g' (Inr y, z) a)" for first s' g'
      by (intro answered_tell [OF refl]) (auto dest: answer_announces answer_left told_events told_ended)
    with r show ?thesis using assms(2-5) x(1) i h by (simp add: accept_input_trae_def or_else_def)
  qed
  ultimately show ?thesis using i k x by blast
qed

section \<open>An example\<close>

definition ex_settings :: trae_settings where
  "ex_settings = \<lparr>ts_config_suffix = ''.yaml'', ts_config_exists = True, ts_api_key = ''k'', ts_max_steps = 3, ts_roots = [path_of ''/w''],
     ts_prompt_file = None, ts_skills_root = [''skills''], ts_tmp_root = [''tmp''], ts_denied = [], ts_disabled = []\<rparr>"

definition ex_question :: tool_call where
  "ex_question = \<lparr>tc_id = ''q1'', tc_name = ''ask_user'', tc_arguments = [(''question'', JStr ''which?'')]\<rparr>"

definition ex_trae_env :: "(unit \<times> tool_call list) trae_env" where
  "ex_trae_env = \<lparr>te_settings = ex_settings, te_str = (\<lambda>_. ''?''), te_unb64 = (\<lambda>_. None), te_is_dir = (\<lambda>_. True), te_environ = (\<lambda>_. None),
     te_tools = (\<lambda>_. [''ask_user'', ''task_done'']), te_prompt = ''p'',
     te_brain = (\<lambda>ctx mem w. if mem = [] then (([[''let me ask'']], MoveCalls [ex_question]), w) else (([], MoveDone ''done'' None), w)),
     te_method = ''sequential_tool_call'', te_guarded = True, te_bridge = ex_bridge_env\<lparr>be_resolve := id\<rparr>, te_traj = (\<lambda>_. NoTrajectory),
     te_fresh = (\<lambda>n. ''i1''), te_quick = (\<lambda>_. False), te_apology = (\<lambda>_. False), te_policy_hash = (\<lambda>_. ''ph''), te_versions_hash = (\<lambda>_. ''vh'')\<rparr>"

definition ex_trae_request :: run_request where
  "ex_trae_request = \<lparr>q_run_id = ''r'', q_conversation = ''v'', q_session = ''s'', q_container = ''c'', q_lease_epoch = 1, q_fence_epoch = 0,
     q_correlation = ''k'', q_context_bundle = [(''task'', JStr ''t'')], q_workspace_ref = ''/w'', q_tool_policy = [], q_core_version = ''1''\<rparr>"

definition ex_trae_app :: "(unit \<times> tool_call list) trae_app" where
  "ex_trae_app = new_trae_app 60 10 ((), []) \<lparr>sf_files = [], sf_readonly = []\<rparr>"

definition ex_started :: "(unit \<times> tool_call list) trae_app" where
  "ex_started = snd (start_run_trae ex_trae_env Unset (\<lambda>n. ''e'') 0 ex_trae_request ex_trae_app)"

lemma ex_started_reachable: "trae_reachable ex_trae_env ex_started"
  unfolding trae_reachable_def ex_started_def ex_trae_app_def by (blast intro: trae_step.started)

definition ex_run :: run_state where
  "ex_run = the (map_of (rg_runs (ta_reg ex_started)) ''r'')"

definition ex_interaction :: obj where
  "ex_interaction = the (rs_pending ex_run)"

lemma ex_run_waits:
  "map_of (rg_runs (ta_reg ex_started)) ''r'' = Some ex_run" "rs_status ex_run = ''WAITING_INPUT''" "rs_pending ex_run = Some ex_interaction"
  "cached_command (Some ''c1'') ex_run = None" "map_of ex_interaction ''interaction_id'' = Some (JStr ''i1'')"
  "obj_get ex_interaction ''kind'' JNull = JStr ''question''"
  by code_simp+

definition ex_execution :: "(unit \<times> tool_call list) execution" where
  "ex_execution = the (map_of (ta_execs ex_started) ''r'')"

lemma ex_execution: "map_of (ta_execs ex_started) ''r'' = Some ex_execution"
proof -
  have "(case map_of (ta_execs ex_started) ''r'' of None \<Rightarrow> False | Some _ \<Rightarrow> True)" by code_simp
  then show ?thesis by (simp add: ex_execution_def split: option.splits)
qed

theorem waiting_run_answered_witness:
  "answered ex_trae_env ''r'' ex_execution (accept_input_trae ex_trae_env (\<lambda>n. ''e'') 1 ''r''
       \<lparr>in_interaction = ''i1'', in_value = JStr ''this'', in_command = Some ''c1''\<rparr> ex_started)
   \<and> map_option rs_status (map_of (rg_runs (ta_reg (snd (accept_input_trae ex_trae_env (\<lambda>n. ''e'') 1 ''r''
       \<lparr>in_interaction = ''i1'', in_value = JStr ''this'', in_command = Some ''c1''\<rparr> ex_started)))) ''r'') = Some ''COMPLETED''"
proof
  show "answered ex_trae_env ''r'' ex_execution (accept_input_trae ex_trae_env (\<lambda>n. ''e'') 1 ''r''
       \<lparr>in_interaction = ''i1'', in_value = JStr ''this'', in_command = Some ''c1''\<rparr> ex_started)"
    using waiting_run_answered [OF ex_started_reachable ex_run_waits(1-4)] ex_run_waits(5,6) ex_execution by fastforce
qed code_simp

section \<open>Behaviours worth knowing\<close>

definition wedged :: "uuid \<Rightarrow> 'w trae_app \<Rightarrow> bool" where
  "wedged rid a = (\<exists>s. map_of (rg_runs (ta_reg a)) rid = Some s \<and> rs_status s = ''RUNNING'' \<and> rs_pending s = None)"

lemma wedged_put_run: "wedged rid (put_run g rid s a) \<longleftrightarrow> rs_status s = ''RUNNING'' \<and> rs_pending s = None"
  by (simp add: wedged_def put_run_def)

text \<open>An approval posted for a question is refused, but the run has left \<open>WAITING_INPUT\<close> and its interaction is gone.\<close>

lemma approval_for_question_wedges:
  assumes "trae_reachable env a" "map_of (rg_runs (ta_reg a)) rid = Some s" "rs_status s = ''WAITING_INPUT''" "rs_pending s = Some p"
    "cached_command cmd s = None" "obj_get p ''kind'' JNull = JStr ''question''" "map_of p ''interaction_id'' = Some (JStr i)"
    "d \<in> {''APPROVE_ONCE'', ''REJECT''}"
  shows "\<exists>a'. accept_approval_trae env hx t ids now rid \<lparr>po_approval = i, po_decision = d, po_command = cmd\<rparr> a
      = (Inl (HTTPException 409 ''Trae run is not waiting for tool approval''), a') \<and> wedged rid a'"
proof -
  from trae_reachable_inv [OF assms(1)] assms(2-4) obtain x where x: "map_of (ta_execs a) rid = Some x" "gate_open env p x"
    unfolding trae_inv_def run_waits_def by blast
  have g: "gate_open env p (primed (ta_world a) x)" using x(2) by simp
  then have "awaits_answer (primed (ta_world a) x)" using assms(6) by (rule gate_open_awaits)
  then have "\<not> awaits_approval (primed (ta_world a) x)"
    by (auto simp: awaits_answer_def awaits_approval_def split: agent_stop.splits option.splits wait.splits)
  moreover obtain dec where "decision_of d = Some dec" using assms(8) by (auto simp: decision_of_def)
  moreover obtain q qs where "p = q # qs" using assms(7) by (cases p) auto
  ultimately show ?thesis using assms(2-5,7) x(1)
    by (auto simp: accept_approval_trae_def or_else_def approve_trae_def tell_def wedged_put_run)
qed

text \<open>So is a resume with a value that is no decision, and with it the run stays as it is until a checkpoint of it is resumed or it is cancelled.\<close>

lemma resume_invalid_decision_wedges:
  assumes "map_of (rg_runs (ta_reg a)) rid = Some s" "cached_command (re_command q) s = None"
    "build_mcp_server_configs (te_str env) (te_environ env) (cb_mcp_refs (cp_context_bundle (re_checkpoint q))) [] = Inr servers"
    "cp_pending_tool_calls (re_checkpoint q) \<noteq> []" "obj_get (or_else (cp_pending_interaction (re_checkpoint q)) []) ''kind'' JNull \<noteq> JStr ''question''"
    "decision_of (py_str (te_str env) (re_value q)) = None"
  shows "\<exists>a'. resume_run_trae env hx t lease fresh ids now rid q a
      = (Inl (HTTPException 422 ''tool batch resume requires an approval decision''), a') \<and> wedged rid a'"
  using assms by (simp add: resume_run_trae_def reg_get_def resume_known_trae_def Let_def wedged_put_run)

text \<open>A resume that comes after its run has ended takes a finished run back to \<open>RUNNING\<close>, where nothing drives it.\<close>

lemma late_resume_wedges:
  assumes "map_of (rg_runs (ta_reg a)) rid = Some s" "map_of (ta_execs a) rid = Some x" "\<not> suspended x" "cached_command (re_command q) s = None"
    "build_mcp_server_configs (te_str env) (te_environ env) (cb_mcp_refs (cp_context_bundle (re_checkpoint q))) [] = Inr servers"
    "cp_pending_tool_calls (re_checkpoint q) \<noteq> []" "obj_get (or_else (cp_pending_interaction (re_checkpoint q)) []) ''kind'' JNull \<noteq> JStr ''question''"
    "decision_of (py_str (te_str env) (re_value q)) = Some d"
  shows "\<exists>a'. resume_run_trae env hx t lease fresh ids now rid q a
      = (Inl (HTTPException 409 ''Trae run is not waiting for tool approval''), a') \<and> wedged rid a'"
proof -
  have "\<not> awaits_approval (primed (ta_world a) x)"
    using assms(3) by (auto simp: awaits_approval_def suspended_def primed_def split: agent_stop.splits)
  then show ?thesis using assms
    by (simp add: resume_run_trae_def reg_get_def resume_known_trae_def Let_def approve_trae_def tell_def wedged_put_run)
qed

text \<open>A run whose MCP configuration cannot be built is registered all the same: the request fails, and its repetition is answered with a run
  in status \<open>STARTING\<close>, which nothing starts.\<close>

lemma start_mcp_failure_sticks:
  assumes "validate_container_fence lease q = None" "map_of (rg_runs (ta_reg a)) (q_run_id q) = None"
    "build_mcp_server_configs (te_str env) (te_environ env) (mcp_refs_of q) [] = Inl e"
  shows "\<exists>a'. start_run_trae env lease ids now q a = (Inl (Crash e), a')
    \<and> (\<exists>evs. fst (start_run_trae env lease ids now q a') = Inr (reply (q_run_id q) ''STARTING'' evs))"
proof -
  have d: "validate_duplicate_run (emit ids now ty p (new_run_state q)) q = None" for ty p
    by (simp add: validate_duplicate_run_def new_run_state_def)
  have st: "rs_status (new_run_state q) = ''STARTING''" by (simp add: new_run_state_def)
  show ?thesis using assms by (auto simp: start_run_trae_def reg_get_def Let_def put_run_def d st)
qed

end
