(* ===== verification/Trae_Resume.thy ===== *)
theory Trae_Resume
  imports Trae_App
begin

text \<open>
  A run suspended on one runner goes on where another runner resumes it. The checkpoint of \<open>Trae_App\<close> passes the checks of
  \<open>Trae_Adapter\<close> on any runner that offers the same tools: the policy and the versions it is compared with are those of a bridge built from
  the policy in the checkpoint.
\<close>

section \<open>The rights of a bridge\<close>

text \<open>Its policy and its table of tools. No step of the bridge or of the agent changes them.\<close>

definition rights :: "'w bridge \<Rightarrow> gateway_policy \<times> (string \<times> tool_descriptor) list" where
  "rights b = (br_policy b, br_table b)"

lemma same_core_rights: "same_core b b' \<Longrightarrow> rights b' = rights b"
  by (simp add: rights_def same_core_fields)

lemma rights_update [simp]:
  "rights (b\<lparr>br_world := w\<rparr>) = rights b" "rights (b\<lparr>br_events := es\<rparr>) = rights b" "rights (b\<lparr>br_wait := x\<rparr>) = rights b"
  "rights (b\<lparr>br_ask_answered := v\<rparr>) = rights b" "rights (br_emit ty p b) = rights b"
  by (simp_all add: rights_def br_emit_def)

lemma rights_fold_emit [simp]: "rights (fold (\<lambda>x. br_emit (f x) (g x)) xs b) = rights b"
  by (induction xs arbitrary: b) simp_all

lemma execute_rights: "rights (snd (bridge_execute e fresh r calls how b)) = rights b"
proof (cases rule: execute_cases [of e fresh r calls how b])
  case quiet
  then show ?thesis by (simp add: same_core_rights)
next
  case (run auth b2)
  then have "same_core b (snd (bridge_execute e fresh r calls how b))" using after_authorization_frame(1) same_core_trans by metis
  then show ?thesis by (rule same_core_rights)
qed

lemma approve_rights: "rights (snd (bridge_approve e fresh d b)) = rights b"
  by (auto simp: bridge_approve_def same_core_rights [OF after_authorization_frame(1)] split: option.splits wait.splits)

lemma submit_rights: "rights (snd (bridge_submit_answer s b)) = rights b"
proof -
  have "rights (snd (store_results rs (b\<lparr>br_wait := None, br_ask_answered := True\<rparr>))) = rights b" for rs
    using same_core_rights [of "b\<lparr>br_wait := None, br_ask_answered := True\<rparr>" "snd (store_results rs (b\<lparr>br_wait := None, br_ask_answered := True\<rparr>))"]
    by (simp add: rights_def)
  then show ?thesis by (auto simp: bridge_submit_answer_def split: option.splits wait.splits list.splits)
qed

lemma streamed_rights [simp]: "rights (streamed env attempts b) = rights b"
  by (simp add: streamed_def)

lemma agent_loop_rights: "rights (snd (agent_loop env ctx n made mem b)) = rights b"
proof (induction n arbitrary: made mem b)
  case (Suc n)
  obtain attempts mv w where t: "te_brain env ctx mem (br_world b) = ((attempts, mv), w)" by (metis surj_pair)
  let ?b = "streamed env attempts (b\<lparr>br_world := w\<rparr>)"
  show ?case
  proof (cases mv)
    case (MoveCalls cs)
    obtain out b2 where x: "bridge_execute (gate_env env ?b) (te_fresh env made) None cs (te_method env) ?b = (out, b2)" by (rule prod.exhaust)
    then have "rights b2 = rights b" using execute_rights [of "gate_env env ?b" "te_fresh env made" None cs "te_method env" ?b] by simp
    with x show ?thesis using t MoveCalls Suc.IH by (cases out) (simp_all add: Let_def)
  qed (use t Suc.IH in \<open>simp_all add: Let_def\<close>)
qed simp

lemma agent_continue_rights: "rights (snd (agent_continue env ctx mem left made counts ob)) = rights (snd ob)"
  by (cases ob) (auto simp: agent_continue_def agent_loop_rights split: bridge_outcome.split)

lemma conclude_rights [simp]: "rights (snd (conclude env resumed a stop b)) = rights b"
  by (auto simp: conclude_def emit_trajectory_def final_content_def warn_degradation_def Let_def split: agent_stop.split prod.splits if_splits)

section \<open>Equipped executions\<close>

text \<open>The bridge of the execution offers what one built for the request offers.\<close>

definition equipped :: "'w trae_env \<Rightarrow> run_request \<Rightarrow> 'w execution \<Rightarrow> bool" where
  "equipped env q x = (\<forall>b. ad_bridge (xn_adapter x) = Some b \<longrightarrow> (\<exists>servers ws gate rid cid (w::'w) b0.
     bridge_init (te_str env) (te_tools env servers) (q_tool_policy q) ws gate rid cid w = Some b0
       \<and> rights b = rights (allow_mcp (te_tools env servers) b0)))"

lemma equippedI:
  "equipped env q x \<Longrightarrow> ad_bridge (xn_adapter x) = Some b \<Longrightarrow> ad_bridge (xn_adapter x') = Some b' \<Longrightarrow> rights b' = rights b \<Longrightarrow> equipped env q x'"
  by (simp add: equipped_def)

lemma settle_bridge:
  assumes "settle env x sb = (p, x')"
  shows "\<exists>b'. ad_bridge (xn_adapter x') = Some b' \<and> rights b' = rights (snd sb)"
proof (cases sb)
  case (Pair stop b)
  obtain r b1 where c: "conclude env (xn_resumed x) (xn_adapter x) stop b = (r, b1)" by (rule prod.exhaust)
  then have "rights b1 = rights b" using conclude_rights [of env "xn_resumed x" "xn_adapter x" stop b] by simp
  with assms c Pair show ?thesis by (cases stop) (auto simp: settle_def)
qed

lemma settle_equipped:
  fixes w :: 'w and b0 :: "'w bridge" and env :: "'w trae_env"
  assumes "settle env x sb = (p, x')" "rights (snd sb) = rights b"
    "bridge_init (te_str env) (te_tools env servers) (q_tool_policy q) ws gate rid cid w = Some b0" "rights b = rights (allow_mcp (te_tools env servers) b0)"
  shows "equipped env q x'"
proof -
  obtain b' where "ad_bridge (xn_adapter x') = Some b'" "rights b' = rights (snd sb)" using settle_bridge [OF assms(1)] by blast
  then show ?thesis unfolding equipped_def using assms(2-4) by (metis option.inject)
qed

lemma initialize_bridge:
  assumes "initialize_agent env q servers w fs = (err, a, fs')" "ad_bridge a = Some b"
  shows "\<exists>ws gate b0. bridge_init (te_str env) (te_tools env servers) (q_tool_policy q) ws gate (q_run_id q) (q_conversation q) w = Some b0
    \<and> b = allow_mcp (te_tools env servers) b0"
  using assms by (fastforce simp: initialize_agent_def new_adapter_def Let_def split: option.splits sum.splits prod.splits)


lemma initialize_equipped:
  assumes "initialize_agent env q servers w fs = (err, a, fs')"
  shows "equipped env q \<lparr>xn_adapter = a, xn_context = c, xn_resumed = r, xn_first = i, xn_stop = st\<rparr>"
  using initialize_bridge [OF assms] by (fastforce simp: equipped_def)

lemma run_trae_equipped:
  assumes "run_trae env q servers w fs = (p, x, fs')"
  shows "equipped env q x"
proof -
  obtain err a fs1 where i: "initialize_agent env q servers w fs = (err, a, fs1)" by (rule prod_cases3)
  show ?thesis
  proof (cases "err = None \<and> ad_bridge a \<noteq> None")
    case True
    then obtain b where b: "ad_bridge a = Some b" by auto
    from initialize_bridge [OF i b] obtain ws gate b0
      where b0: "bridge_init (te_str env) (te_tools env servers) (q_tool_policy q) ws gate (q_run_id q) (q_conversation q) w = Some b0" "b = allow_mcp (te_tools env servers) b0"
      by blast
    show ?thesis using assms True b i b0
      by (auto simp: run_trae_def Let_def agent_loop_rights split: prod.splits intro!: settle_equipped)
  next
    case False
    then show ?thesis using assms i initialize_equipped [OF i] by (auto simp: run_trae_def Let_def split: option.splits)
  qed
qed

lemma resume_trae_equipped:
  assumes "resume_trae env k v q servers w fs = (p, x, fs')"
  shows "equipped env q x"
proof -
  obtain err a fs1 where i: "initialize_agent env q servers w fs = (err, a, fs1)" by (rule prod_cases3)
  show ?thesis
  proof (cases "err = None \<and> ad_bridge a \<noteq> None")
    case True
    then obtain b where b: "ad_bridge a = Some b" by auto
    from initialize_bridge [OF i b] obtain ws gate b0
      where b0: "bridge_init (te_str env) (te_tools env servers) (q_tool_policy q) ws gate (q_run_id q) (q_conversation q) w = Some b0" "b = allow_mcp (te_tools env servers) b0"
      by blast
    show ?thesis
    proof (cases "resume_batch env k b")
      case (Inl e)
      then show ?thesis using assms True b i initialize_equipped [OF i] by (auto simp: resume_trae_def Let_def)
    next
      case (Inr batch)
      show ?thesis using assms True b i b0 Inr
        by (auto simp: resume_trae_def Let_def agent_continue_rights execute_rights split: prod.splits resume_value.splits intro!: settle_equipped)
    qed
  next
    case False
    then show ?thesis using assms i initialize_equipped [OF i] by (auto simp: resume_trae_def Let_def split: option.splits)
  qed
qed

lemma continue_equipped:
  assumes "continue_with env f x = (p, x')" "equipped env q x" "\<And>b. rights (snd (f b)) = rights b"
  shows "equipped env q x'"
proof (cases "(xn_stop x, ad_bridge (xn_adapter x))")
  case (Pair st ob)
  then show ?thesis
  proof (cases "\<exists>m l k c b. st = AtGate m l k c \<and> ob = Some b")
    case True
    then obtain m l k c b where st: "st = AtGate m l k c" "ob = Some b" by blast
    then have s: "settle env x (agent_continue env (xn_context x) m l k c (f b)) = (p, x')" using assms(1) Pair by (simp add: continue_with_def)
    from settle_bridge [OF s] obtain b' where "ad_bridge (xn_adapter x') = Some b'" "rights b' = rights b"
      by (auto simp: agent_continue_rights assms(3))
    then show ?thesis using assms(2) Pair st by (auto intro: equippedI)
  next
    case False
    then have "x' = x" using assms(1) Pair by (auto simp: continue_with_def split: agent_stop.splits option.splits)
    then show ?thesis using assms(2) by simp
  qed
qed

lemma approve_trae_equipped:
  assumes "approve_trae env d x = (r, x')" "equipped env q x"
  shows "equipped env q x'"
proof (cases "awaits_approval x")
  case True
  let ?f = "\<lambda>b. bridge_approve (gate_env env b) (gate_fresh env x) d b"
  from assms(1) True obtain p where "continue_with env ?f x = (p, x')" by (auto simp: approve_trae_def map_prod_def split: prod.splits)
  then show ?thesis using assms(2) by (rule continue_equipped) (rule approve_rights)
qed (use assms in \<open>simp add: approve_trae_def\<close>)

lemma answer_trae_equipped:
  assumes "answer_trae env v x = (r, x')" "equipped env q x"
  shows "equipped env q x'"
proof (cases "awaits_answer x")
  case True
  from assms(1) True obtain p where "continue_with env (bridge_submit_answer v) x = (p, x')" by (auto simp: answer_trae_def map_prod_def split: prod.splits)
  then show ?thesis using assms(2) by (rule continue_equipped) (rule submit_rights)
qed (use assms in \<open>simp add: answer_trae_def\<close>)

lemma equipped_update [simp]: "equipped env q (primed w x) = equipped env q x" "equipped env q (cancel_execution x) = equipped env q x"
  by (auto simp: equipped_def primed_def cancel_execution_def)


section \<open>The executions of a runner are equipped\<close>

definition kit_inv :: "'w trae_env \<Rightarrow> 'w trae_app \<Rightarrow> bool" where
  "kit_inv env a = (\<forall>rid s x. map_of (rg_runs (ta_reg a)) rid = Some s \<longrightarrow> map_of (ta_execs a) rid = Some x \<longrightarrow> equipped env (rs_request s) x)"

text \<open>Other runs than \<open>rid\<close> are of the requests they were.\<close>

definition kept :: "uuid \<Rightarrow> registry \<Rightarrow> registry \<Rightarrow> bool" where
  "kept rid g g' = (\<forall>k s'. k \<noteq> rid \<longrightarrow> map_of (rg_runs g') k = Some s' \<longrightarrow> (\<exists>s. map_of (rg_runs g) k = Some s \<and> rs_request s = rs_request s'))"

lemma kept_refl [simp]: "kept rid g g"
  by (simp add: kept_def)

lemma kept_observe [simp]: "kept rid g (observe now k g') = kept rid g g'"
  by (simp add: kept_def)

lemma kept_put [simp]: "kept rid g (reg_put rid s g') = kept rid g g'"
  by (simp add: kept_def reg_put_def update_conv')

lemma kept_set [simp]: "kept rid g g' \<Longrightarrow> kept rid g (reg_set now rid s g')"
  unfolding reg_set_def kept_observe kept_put by (auto simp: kept_def prune_def Let_def split: if_splits)

lemma kit_inv_step:
  assumes "kit_inv env a" "kept rid (ta_reg a) (ta_reg a')" "\<And>k. k \<noteq> rid \<Longrightarrow> map_of (ta_execs a') k = map_of (ta_execs a) k"
    "\<And>s x. map_of (rg_runs (ta_reg a')) rid = Some s \<Longrightarrow> map_of (ta_execs a') rid = Some x \<Longrightarrow> equipped env (rs_request s) x"
  shows "kit_inv env a'"
  unfolding kit_inv_def
proof (intro allI impI)
  fix k s x assume k: "map_of (rg_runs (ta_reg a')) k = Some s" "map_of (ta_execs a') k = Some x"
  show "equipped env (rs_request s) x"
  proof (cases "k = rid")
    case False
    then obtain s0 where "map_of (rg_runs (ta_reg a)) k = Some s0" "rs_request s0 = rs_request s" using assms(2) k(1) by (auto simp: kept_def)
    then show ?thesis using assms(1,3) False k(2) unfolding kit_inv_def by metis
  qed (use assms(4) k in simp)
qed

lemma emit_all_request [simp]: "rs_request (fold (\<lambda>e. emit ids now (f e) (g e)) es s) = rs_request s"
  by (induction es arbitrary: s) simp_all

lemma driven_request [simp]: "rs_request (fst (driven ids now px s fs)) = rs_request s"
  by (auto simp: driven_def Let_def split: prod.split progress.split sum.split)

lemma remember_request [simp]: "rs_request (remember_command cmd r s) = rs_request s"
  by (simp add: remember_command_def split: option.split)

lemma finish_request: "finish_command rid cmd n s = (r, s') \<Longrightarrow> rs_request s' = rs_request s"
  by (auto simp: finish_command_def Let_def)

lemma batch_request: "execute_tool_batch hx t ids now dec s w = Inr (s', w') \<Longrightarrow> rs_request s' = rs_request s"
  by (auto simp: execute_tool_batch_def Let_def split: option.splits sum.splits)

text \<open>A request answered without an execution leaves the run with its request.\<close>

definition same_run :: "uuid \<Rightarrow> registry \<Rightarrow> registry \<Rightarrow> bool" where
  "same_run rid g g' = (kept rid g g' \<and> (\<forall>s'. map_of (rg_runs g') rid = Some s'
     \<longrightarrow> (\<exists>s. map_of (rg_runs g) rid = Some s \<and> rs_request s = rs_request s')))"

lemma same_run_refl [simp]: "same_run rid g g"
  by (simp add: same_run_def)

lemma same_run_observe [simp]: "same_run rid g (observe now k g') = same_run rid g g'"
  by (simp add: same_run_def)

lemma same_run_put: "kept rid g g' \<Longrightarrow> map_of (rg_runs g) rid = Some s0 \<Longrightarrow> rs_request s = rs_request s0 \<Longrightarrow> same_run rid g (reg_put rid s g')"
  by (simp add: same_run_def)

lemma delegated_same_run:
  "same_run rid g (fst (snd (accept_input ids now rid iq (g, w))))"
  "same_run rid g (fst (snd (accept_approval hx t ids now rid aq (g, w))))"
  "same_run rid g (fst (snd (cancel_run ids now rid cmd (g, w))))"
  "same_run rid g (fst (snd (run_events now rid after (g, w))))"
  by (auto simp: accept_input_def accept_approval_def cancel_run_def run_events_def reg_get_def Let_def
      split: prod.splits option.splits list.splits if_splits sum.splits intro!: same_run_put dest!: finish_request batch_request)

lemma kit_inv_same:
  assumes "kit_inv env a" "same_run rid (ta_reg a) (ta_reg a')" "\<And>k. k \<noteq> rid \<Longrightarrow> map_of (ta_execs a') k = map_of (ta_execs a) k"
    "\<And>s x. map_of (rg_runs (ta_reg a)) rid = Some s \<Longrightarrow> map_of (ta_execs a') rid = Some x \<Longrightarrow> equipped env (rs_request s) x"
  shows "kit_inv env a'"
proof (rule kit_inv_step [OF assms(1)])
  fix s x assume "map_of (rg_runs (ta_reg a')) rid = Some s" "map_of (ta_execs a') rid = Some x"
  then show "equipped env (rs_request s) x" using assms(2,4) unfolding same_run_def by metis
qed (use assms(2,3) in \<open>simp_all add: same_run_def\<close>)

lemma kit_inv_lift:
  assumes "kit_inv env a" "same_run rid (ta_reg a) (fst (snd ra))"
  shows "kit_inv env (snd (lift_app ra a))"
proof (rule kit_inv_same [OF assms(1), of rid])
  show "equipped env (rs_request s) x" if "map_of (rg_runs (ta_reg a)) rid = Some s" "map_of (ta_execs (snd (lift_app ra a))) rid = Some x" for s x
    using assms(1) that unfolding kit_inv_def by (auto simp: lift_app_def split: prod.splits)
qed (use assms(2) in \<open>auto simp: lift_app_def split: prod.splits\<close>)

lemma put_run_kit:
  assumes "kit_inv env a" "kept rid (ta_reg a) g" "\<And>x. map_of (ta_execs a) rid = Some x \<Longrightarrow> equipped env (rs_request s) x"
  shows "kit_inv env (put_run g rid s a)"
  by (rule kit_inv_step [OF assms(1), of rid]) (use assms(2,3) in \<open>auto simp: put_run_def\<close>)

lemma reply_driven_kit:
  assumes "kit_inv env a" "kept rid (ta_reg a) g" "equipped env (rs_request s) x"
  shows "kit_inv env (snd (reply_driven ids now rid cmd first s g (p, x, fs) a))"
proof -
  obtain r s2 where f: "finish_command rid cmd first (fst (driven ids now (p, x) s fs)) = (r, s2)" by (rule prod.exhaust)
  show ?thesis
    by (rule kit_inv_step [OF assms(1)])
       (use assms(2,3) finish_request [OF f] in \<open>auto simp: reply_driven_def Let_def f put_driven_def update_conv'\<close>)
qed

lemma tell_kit:
  assumes "kit_inv env a" "kept rid (ta_reg a) g" "\<And>x. map_of (ta_execs a) rid = Some x \<Longrightarrow> equipped env (rs_request s) x"
    "equipped env (rs_request s) (snd rx)"
  shows "kit_inv env (snd (tell ids now rid cmd first s g rx a))"
proof (cases rx)
  case (Pair r x)
  then show ?thesis using assms by (cases r) (auto simp: tell_def intro!: put_run_kit reply_driven_kit)
qed


lemma kit_inv_get: "kit_inv env a \<Longrightarrow> map_of (rg_runs (ta_reg a)) rid = Some s \<Longrightarrow> map_of (ta_execs a) rid = Some x \<Longrightarrow> equipped env (rs_request s) x"
  by (simp add: kit_inv_def)

lemma kit_inv_observe: "kit_inv env a \<Longrightarrow> kit_inv env (a\<lparr>ta_reg := observe now rid (ta_reg a)\<rparr>)"
  by (simp add: kit_inv_def)

lemma running_request [simp]: "rs_request (running s) = rs_request s"
  by (simp add: running_def)

lemma told_equipped:
  "equipped env q x \<Longrightarrow> equipped env q (snd (approve_trae env d x))" "equipped env q x \<Longrightarrow> equipped env q (snd (answer_trae env v x))"
  by (metis approve_trae_equipped prod.collapse) (metis answer_trae_equipped prod.collapse)

lemma accept_approval_kit: "kit_inv env a \<Longrightarrow> kit_inv env (snd (accept_approval_trae env hx t ids now rid q a))"
  by (auto simp: accept_approval_trae_def Let_def split: option.splits list.splits
      intro!: kit_inv_lift delegated_same_run kit_inv_observe tell_kit told_equipped dest: kit_inv_get)

lemma accept_input_kit: "kit_inv env a \<Longrightarrow> kit_inv env (snd (accept_input_trae env ids now rid q a))"
  by (auto simp: accept_input_trae_def Let_def split: option.splits
      intro!: kit_inv_lift delegated_same_run tell_kit told_equipped dest: kit_inv_get)

lemma checkpoint_kit: "kit_inv env a \<Longrightarrow> kit_inv env (snd (checkpoint_trae str hx ids kid now rid why a))"
  by (auto simp: checkpoint_trae_def reg_get_def split: option.splits intro!: kit_inv_observe put_run_kit dest: kit_inv_get)

lemma cancel_kit:
  assumes "kit_inv env a"
  shows "kit_inv env (snd (cancel_trae ids now rid cmd a))"
proof -
  obtain r a1 where l: "lift_app (cancel_run ids now rid cmd (ta_reg a, ta_world a)) a = (r, a1)" by (rule prod.exhaust)
  have i: "kit_inv env a1" using kit_inv_lift [OF assms delegated_same_run(3)] l by (metis snd_conv)
  have sr: "same_run rid (ta_reg a) (ta_reg a1)" "ta_execs a1 = ta_execs a"
    using delegated_same_run(3) [of rid "ta_reg a" ids now cmd "ta_world a"] l by (auto simp: lift_app_def split: prod.splits)
  have "kit_inv env (a1\<lparr>ta_execs := AList.update rid (cancel_execution x) (ta_execs a1), ta_fs := fs\<rparr>)"
    if "map_of (rg_runs (ta_reg a)) rid = Some s" "map_of (ta_execs a) rid = Some x" for s x fs
    by (rule kit_inv_same [OF assms, of rid]) (use sr kit_inv_get [OF assms that] that in \<open>auto simp: update_conv'\<close>)
  then show ?thesis using i by (auto simp: cancel_trae_def l split: option.splits)
qed

lemma start_run_kit:
  assumes "kit_inv env a"
  shows "kit_inv env (snd (start_run_trae env lease ids now q a))"
proof -
  let ?a = "\<lambda>rid. a\<lparr>ta_execs := AList.delete rid (ta_execs a)\<rparr>"
  have put: "kit_inv env (put_run (reg_set now rid (new_run_state q) (ta_reg a)) rid s (?a rid))" for rid s
    by (rule kit_inv_step [OF assms, of rid]) (auto simp: put_run_def delete_conv')
  have drv: "kit_inv env (put_driven (reg_set now rid (new_run_state q) (ta_reg a)) rid x (driven ids now (p, x) s fs) (?a rid))"
    if "run_trae env q servers w fs0 = (p, x, fs)" "rs_request s = q" for rid x s fs w servers fs0 p
    by (rule kit_inv_step [OF assms, of rid]) (use that run_trae_equipped [OF that(1)] in \<open>auto simp: put_driven_def update_conv' delete_conv'\<close>)
  have q: "rs_request (new_run_state q) = q" by (simp add: new_run_state_def)
  show ?thesis using assms put drv q
    by (auto simp: start_run_trae_def reg_get_def Let_def split: option.splits sum.splits prod.splits intro!: kit_inv_observe)
qed

lemma resume_known_request: "resume_known str vars hx t ids now rid q first s w = (r, s', w') \<Longrightarrow> rs_request s' = rs_request s"
  by (auto simp: resume_known_def load_batch_def Let_def split: option.splits sum.splits if_splits prod.splits
      dest!: finish_request batch_request)

lemma resume_known_kit:
  assumes "kit_inv env a" "kept rid (ta_reg a) g" "\<And>x. map_of (ta_execs a) rid = Some x \<Longrightarrow> equipped env (rs_request s) x"
  shows "kit_inv env (snd (resume_known_trae env hx t ids now rid q first s g a))"
proof -
  have put: "kit_inv env (put_run g rid s1 a)" if "rs_request s1 = rs_request s" for s1
    using assms that by (intro put_run_kit) auto
  have world: "kit_inv env (b\<lparr>ta_world := w\<rparr>) = kit_inv env b" for b :: "'a trae_app" and w by (simp add: kit_inv_def)
  have again: "kit_inv env (snd (reply_driven ids now rid cmd first s1 g (resume_trae env k v (rs_request s) servers w fs) a))"
    if "rs_request s1 = rs_request s" for s1 k v servers w fs cmd
  proof -
    obtain p x fs' where r: "resume_trae env k v (rs_request s) servers w fs = (p, x, fs')" by (rule prod_cases3)
    show ?thesis using reply_driven_kit [OF assms(1,2), of s1 x] resume_trae_equipped [OF r] that by (simp add: r)
  qed
  show ?thesis using assms put again
    by (auto simp: resume_known_trae_def Let_def world split: option.splits sum.splits prod.splits
        intro!: tell_kit told_equipped dest: resume_known_request)
qed

lemma resume_run_kit:
  assumes "kit_inv env a"
  shows "kit_inv env (snd (resume_run_trae env hx t lease fresh ids now rid q a))"
proof (cases "map_of (rg_runs (ta_reg a)) rid")
  case (Some s)
  then show ?thesis using resume_known_kit [OF assms, of rid "observe now rid (ta_reg a)" s] kit_inv_get [OF assms Some]
    by (simp add: resume_run_trae_def reg_get_def)
next
  case None
  let ?a = "a\<lparr>ta_execs := AList.delete rid (ta_execs a)\<rparr>"
  have i: "kit_inv env ?a" using assms None unfolding kit_inv_def by (auto simp: delete_conv')
  obtain res g2 where r: "restore_run lease fresh now rid q (observe now rid (ta_reg a)) = (res, g2)" by (rule prod.exhaust)
  have k: "kept rid (ta_reg a) g2" using r by (auto simp: restore_run_def Let_def split: option.splits json.splits)
  show ?thesis
  proof (cases res)
    case (Inl e)
    have "kit_inv env (a\<lparr>ta_reg := g2, ta_execs := AList.delete rid (ta_execs a)\<rparr>)"
      by (rule kit_inv_step [OF assms, of rid]) (use k in \<open>auto simp: delete_conv'\<close>)
    then show ?thesis using Inl None r by (simp add: resume_run_trae_def reg_get_def)
  next
    case (Inr s)
    then show ?thesis using resume_known_kit [OF i, of rid g2 s] k None r by (simp add: resume_run_trae_def reg_get_def delete_conv')
  qed
qed

lemma kit_step: "trae_step env a a' \<Longrightarrow> kit_inv env a \<Longrightarrow> kit_inv env a'"
proof (induction rule: trae_step.induct)
  case (listed a now rid after)
  then show ?case by (rule kit_inv_lift [OF _ delegated_same_run(4)])
next
  case (elsewhere a w)
  then show ?case by (simp add: kit_inv_def)
qed (rule start_run_kit accept_input_kit accept_approval_kit cancel_kit checkpoint_kit resume_run_kit; assumption)+

lemma trae_reachable_kit: "trae_reachable env a \<Longrightarrow> kit_inv env a"
proof -
  assume "trae_reachable env a"
  then obtain retain limit w fs where "(trae_step env)\<^sup>*\<^sup>* (new_trae_app retain limit w fs) a" by (auto simp: trae_reachable_def)
  then show ?thesis
  proof (induction rule: rtranclp_induct)
    case base
    then show ?case by (simp add: kit_inv_def new_trae_app_def)
  qed (rule kit_step)
qed


section \<open>What a checkpoint of a suspended run says\<close>

lemma dict_update_Cons [simp]: "dict_update ((k, v) # e) d = dict_update e (AList.update k v d)" "dict_update [] d = d"
  by (simp_all add: dict_update_def)

lemma obj_get_update [simp]: "obj_get (AList.update k v d) k' x = (if k = k' then v else obj_get d k' x)"
  by (simp add: obj_get_def update_conv')

text \<open>The tool policy of the checkpoint before the hashes are put in.\<close>

definition unhashed_policy :: "digests \<Rightarrow> obj \<Rightarrow> obj \<Rightarrow> run_state \<Rightarrow> obj" where
  "unhashed_policy hx extra dump s =
     (let tp = dict_update dump (q_tool_policy (rs_request s));
          tp1 = (case rs_tool_batch s of None \<Rightarrow> tp | Some b \<Rightarrow>
            dict_update [(''tool_batch'', batch_dump b), (''tool_batch_hash'', JStr (hx_batch hx b)), (''pending_tool_calls'', JArr (map call_dump b))] tp) in
      AList.update ''command_results'' (JObj (rs_command_results s)) (dict_update extra tp1))"

lemma checkpoint_policy_cases:
  assumes "checkpoint_policy hx extra s = Some tp" "rs_pending s = Some p" "obj_get p ''tool_policy'' (JObj []) = JObj dump"
  shows "\<exists>raw. arr_field (unhashed_policy hx extra dump s) ''tools'' = Some raw
    \<and> (let tp3 = AList.update ''tool_policy_hash'' (JStr (hx_policy hx (unhashed_policy hx extra dump s))) (unhashed_policy hx extra dump s) in
       tp = tp3 \<or> tp = AList.update ''tool_versions_hash'' (JStr (hx_versions hx raw)) tp3)"
  using assms by (auto simp: checkpoint_policy_def unhashed_policy_def Let_def split: option.splits if_splits)

lemma unhashed_get:
  "obj_get (unhashed_policy hx (execution_policy x) (policy_dump b) s) ''allowed_tools'' d = obj_get (policy_dump b) ''allowed_tools'' d"
  "obj_get (unhashed_policy hx (execution_policy x) (policy_dump b) s) ''approval_required_tools'' d = obj_get (policy_dump b) ''approval_required_tools'' d"
  "obj_get (unhashed_policy hx (execution_policy x) (policy_dump b) s) ''tools'' d = obj_get (policy_dump b) ''tools'' d"
  "obj_get (unhashed_policy hx (execution_policy x) (policy_dump b) s) ''mode'' d = obj_get (q_tool_policy (rs_request s)) ''mode'' d"
  by (simp_all add: unhashed_policy_def execution_policy_def Let_def policy_dump_get split: option.split)
    (auto simp: policy_dump_def descriptor_dump_def)

text \<open>The policy of the checkpoint is the one the bridge dumped in the interaction, but for the mode, which is that of the request.\<close>

lemma checkpoint_policy_fields:
  assumes "checkpoint_policy hx (execution_policy x) s = Some tp" "rs_pending s = Some p" "obj_get p ''tool_policy'' (JObj []) = JObj (policy_dump b)"
  shows "k \<in> {''allowed_tools'', ''approval_required_tools'', ''tools''} \<Longrightarrow> obj_get tp k d = obj_get (policy_dump b) k d"
    "obj_get tp ''mode'' JNull = obj_get (q_tool_policy (rs_request s)) ''mode'' JNull"
    "map_of tp ''tool_policy_hash'' = Some (JStr (hx_policy hx (unhashed_policy hx (execution_policy x) (policy_dump b) s)))"
  using checkpoint_policy_cases [OF assms] unhashed_get [of hx x b s]
  by (auto simp: Let_def update_conv')


lemma checkpoint_of_fields:
  assumes "checkpoint_of str hx extra kid now rid s = Some k"
  shows "checkpoint_policy hx extra s = Some (cb_tool_policy (cp_context_bundle k))" "cp_pending_interaction k = rs_pending s"
    "cp_tool_batch_hash k = map_option (hx_batch hx) (rs_tool_batch s)"
    "cp_tool_policy_hash k = (case map_of (cb_tool_policy (cp_context_bundle k)) ''tool_policy_hash'' of Some (JStr h) \<Rightarrow> Some h | _ \<Rightarrow> None)"
    "cp_tool_versions_hash k = (case arr_field (cb_tool_policy (cp_context_bundle k)) ''tools'' of Some (x # xs) \<Rightarrow> Some (hx_versions hx (x # xs)) | _ \<Rightarrow> None)"
  using assms by (auto simp: checkpoint_of_def Let_def split: option.splits)

lemma opened_fields:
  assumes "opened env p b"
  shows "\<exists>calls. calls \<noteq> [] \<and> (\<exists>how au. br_wait b = Some (WaitApproval calls how au) \<or> br_wait b = Some (WaitAnswer calls how))
    \<and> obj_get p ''tool_policy'' (JObj []) = JObj (policy_dump b) \<and> obj_get p ''pending_tool_calls'' JNull = JArr (map call_dump calls)"
proof (cases "br_wait b")
  case (Some u)
  then show ?thesis using assms by (cases u) (auto simp: opened_def Let_def interaction_of_def obj_get_def)
qed (use assms in \<open>simp add: opened_def Let_def\<close>)

lemma tool_policy_hash_cong:
  "obj_get p ''allowed_tools'' (JArr []) = obj_get p' ''allowed_tools'' (JArr []) \<Longrightarrow>
   obj_get p ''approval_required_tools'' (JArr []) = obj_get p' ''approval_required_tools'' (JArr []) \<Longrightarrow>
   tool_policy_hash str h p = tool_policy_hash str h p'"
  by (simp add: tool_policy_hash_def str_items_def)

section \<open>Property\<close>

text \<open>C14. A suspended run can be moved. In every reachable state of a runner, the checkpoint of a run that waits passes the policy, versions and
  batch checks with which another runner resumes it, if that runner has the tools the suspended run has and computes the same hashes. It works
  under the same tool policy there, and the batch it resumes is exactly the calls that wait here.\<close>

theorem suspended_run_portable:
  fixes env :: "'w trae_env"
  assumes "trae_reachable env a" "map_of (rg_runs (ta_reg a)) rid = Some s" "rs_status s = ''WAITING_INPUT''" "rs_pending s = Some p"
    and "checkpoint_trae str hx ids kid now rid why a = (Inr k, a')"
    and "hx_batch hx = be_bhash (te_bridge env)" "\<And>o1. hx_policy hx o1 = tool_policy_hash (te_str env) (te_policy_hash env) o1"
      "\<And>ts. hx_versions hx ts = tool_versions_hash (te_str env) (te_versions_hash env) ts"
  shows "\<exists>x b calls. map_of (ta_execs a) rid = Some x \<and> ad_bridge (xn_adapter x) = Some b \<and> waiting_batch x = Some calls
    \<and> (\<forall>(env' :: 'w trae_env) rq fresh servers w fs ad fs' b'. te_str env' = te_str env \<and> te_policy_hash env' = te_policy_hash env
        \<and> te_versions_hash env' = te_versions_hash env \<and> be_bhash (te_bridge env') = be_bhash (te_bridge env)
        \<and> dedup (te_tools env' servers) = map fst (br_table b) \<and> re_checkpoint rq = k
        \<and> initialize_agent env' (restored_request fresh rid rq) servers w fs = (None, ad, fs') \<and> ad_bridge ad = Some b'
      \<longrightarrow> policy_dump b' = policy_dump b \<and> resume_batch env' k b' = Inr calls)"
proof -
  from trae_reachable_inv [OF assms(1)] assms(2-4) obtain x where x: "map_of (ta_execs a) rid = Some x" "gate_open env p x" "rs_tool_batch s = waiting_batch x"
    unfolding trae_inv_def run_waits_def by blast
  from x(2) obtain b where b: "ad_bridge (xn_adapter x) = Some b" "opened env p b" by (auto simp: gate_open_def)
  from opened_fields [OF b(2)] obtain calls where calls: "calls \<noteq> []" "waiting_batch x = Some calls"
    "obj_get p ''tool_policy'' (JObj []) = JObj (policy_dump b)" "obj_get p ''pending_tool_calls'' JNull = JArr (map call_dump calls)"
    using b(1) by (auto simp: waiting_batch_def)
  have "equipped env (rs_request s) x" using kit_inv_get [OF trae_reachable_kit [OF assms(1)] assms(2) x(1)] .
  then obtain servers ws gate rd cid w0 b0 where kit: "bridge_init (te_str env) (te_tools env servers) (q_tool_policy (rs_request s)) ws gate rd cid (w0::'w) = Some b0"
    "br_policy b = br_policy (allow_mcp (te_tools env servers) b0)" "br_table b = br_table b0"
    using b(1) by (auto simp: equipped_def rights_def allow_mcp_def)
  let ?tp = "cb_tool_policy (cp_context_bundle k)" and ?u = "unhashed_policy hx (execution_policy x) (policy_dump b) s"
  from assms(5) have "checkpoint_of str hx (execution_policy x) kid now rid s = Some k"
    using assms(2) x(1) by (auto simp: checkpoint_trae_def reg_get_def split: option.splits)
  note k = checkpoint_of_fields [OF this]
  note tp = checkpoint_policy_fields [OF k(1) assms(4) calls(3)]
  have ph: "cp_tool_policy_hash k = Some (hx_policy hx ?u)" by (simp add: k(4) tp(3))
  have ts: "obj_get ?tp ''tools'' d = JArr (map (descriptor_dump \<circ> snd) (br_table b))" for d using tp(1) by (simp add: policy_dump_get)
  have vh: "cp_tool_versions_hash k = (case policy_tools (policy_dump b) of [] \<Rightarrow> None | t # ts \<Rightarrow> Some (hx_versions hx (t # ts)))"
    by (simp add: k(5) arr_field_def ts policy_tools_def policy_dump_get split: list.split)
  have "policy_dump b' = policy_dump b \<and> resume_batch env' k b' = Inr calls"
    if "te_str env' = te_str env" "te_policy_hash env' = te_policy_hash env" "te_versions_hash env' = te_versions_hash env"
      "be_bhash (te_bridge env') = be_bhash (te_bridge env)" "dedup (te_tools env' servers') = map fst (br_table b)" "re_checkpoint rq = k"
      "initialize_agent env' (restored_request fresh rid rq) servers' w fs = (None, ad, fs')" "ad_bridge ad = Some b'"
    for env' :: "'w trae_env" and rq fresh servers' w fs ad fs' b'
  proof -
    note h = that
    have q: "q_tool_policy (restored_request fresh rid rq) = ?tp" using h(6) by (simp add: restored_request_def Let_def)
    from initialize_bridge [OF h(7,8)] obtain ws' gate' b1 where b1:
      "bridge_init (te_str env) (te_tools env' servers') ?tp ws' gate' (q_run_id (restored_request fresh rid rq)) (q_conversation (restored_request fresh rid rq)) w = Some b1"
      "b' = allow_mcp (te_tools env' servers') b1" using h(1) q by metis
    have dump: "policy_dump b' = policy_dump b"
      using policy_dump_again [OF kit tp(1) tp(2) h(5), of ws' gate' "q_run_id (restored_request fresh rid rq)" "q_conversation (restored_request fresh rid rq)" w] b1 by auto
    have "tool_policy_hash (te_str env) (te_policy_hash env) ?u = tool_policy_hash (te_str env) (te_policy_hash env) (policy_dump b)"
      by (rule tool_policy_hash_cong) (simp_all add: unhashed_get)
    moreover have "batch_validate (JObj [(''calls'', JArr (map call_dump calls))]) = Some calls" using batch_roundtrip [of calls] by (simp add: batch_dump_def)
    moreover have "resume_calls k = map call_dump calls" using calls(1,4) k(2) assms(4) by (cases calls) (simp_all add: resume_calls_def or_else_def)
    ultimately show ?thesis using dump h(1-4) calls ph vh x(3) k(3) assms(6-8)
      by (cases "policy_tools (policy_dump b)") (simp_all add: resume_batch_def str_true_def)
  qed
  with x(1) b(1) calls(2) show ?thesis by (intro exI [of _ x] exI [of _ b] exI [of _ calls]) auto
qed


section \<open>An example\<close>

definition ex_hx :: digests where
  "ex_hx = \<lparr>hx_digest = (\<lambda>s. s), hx_batch = be_bhash (te_bridge ex_trae_env),
     hx_policy = tool_policy_hash (te_str ex_trae_env) (te_policy_hash ex_trae_env),
     hx_versions = tool_versions_hash (te_str ex_trae_env) (te_versions_hash ex_trae_env), hx_context = (\<lambda>_. ''c'')\<rparr>"

definition ex_checkpointed :: "(http_error + checkpoint) \<times> (unit \<times> tool_call list) trae_app" where
  "ex_checkpointed = checkpoint_trae (te_str ex_trae_env) ex_hx (\<lambda>n. ''e'') ''k1'' 2 ''r'' ''moved'' ex_started"

definition ex_resume :: resume_request where
  "ex_resume = \<lparr>re_checkpoint = projr (fst ex_checkpointed), re_value = JStr ''this'', re_command = None, re_session = None,
     re_container = None, re_lease_epoch = None, re_fence_epoch = None, re_correlation = None\<rparr>"

definition ex_elsewhere :: "string option \<times> (unit \<times> tool_call list) adapter \<times> skill_fs" where
  "ex_elsewhere = initialize_agent ex_trae_env (restored_request ''s2'' ''r'' ex_resume) [] ((), []) \<lparr>sf_files = [], sf_readonly = []\<rparr>"

definition ex_bridge_elsewhere :: "(unit \<times> tool_call list) bridge" where
  "ex_bridge_elsewhere = the (ad_bridge (fst (snd ex_elsewhere)))"

lemma ex_bridge: "\<exists>b. ad_bridge (xn_adapter ex_execution) = Some b \<and> map fst (br_table b) = [''ask_user'', ''task_done'']"
proof -
  have "(case ad_bridge (xn_adapter ex_execution) of None \<Rightarrow> False | Some b \<Rightarrow> map fst (br_table b) = [''ask_user'', ''task_done''])" by code_simp
  then show ?thesis by (simp split: option.splits)
qed

theorem suspended_run_portable_witness:
  "resume_batch ex_trae_env (projr (fst ex_checkpointed)) ex_bridge_elsewhere = Inr [ex_question]"
proof -
  have c: "(case fst ex_checkpointed of Inl _ \<Rightarrow> False | Inr _ \<Rightarrow> True)" "fst ex_elsewhere = None"
    "(case ad_bridge (fst (snd ex_elsewhere)) of None \<Rightarrow> False | Some _ \<Rightarrow> True)"
    "map_option waiting_batch (map_of (ta_execs ex_started) ''r'') = Some (Some [ex_question])"
    by code_simp+
  have k: "checkpoint_trae (te_str ex_trae_env) ex_hx (\<lambda>n. ''e'') ''k1'' 2 ''r'' ''moved'' ex_started = (Inr (projr (fst ex_checkpointed)), snd ex_checkpointed)"
    using c(1) by (cases ex_checkpointed) (auto simp: ex_checkpointed_def split: sum.splits)
  have i: "initialize_agent ex_trae_env (restored_request ''s2'' ''r'' ex_resume) [] ((), []) \<lparr>sf_files = [], sf_readonly = []\<rparr>
      = (None, fst (snd ex_elsewhere), snd (snd ex_elsewhere))" "ad_bridge (fst (snd ex_elsewhere)) = Some ex_bridge_elsewhere"
    using c(2,3) by (cases ex_elsewhere; auto simp: ex_elsewhere_def ex_bridge_elsewhere_def split: option.splits)+
  have t: "dedup (te_tools ex_trae_env xs) = [''ask_user'', ''task_done'']" for xs by (simp add: ex_trae_env_def)
  have h: "hx_batch ex_hx = be_bhash (te_bridge ex_trae_env)" "\<And>o1. hx_policy ex_hx o1 = tool_policy_hash (te_str ex_trae_env) (te_policy_hash ex_trae_env) o1"
    "\<And>ts. hx_versions ex_hx ts = tool_versions_hash (te_str ex_trae_env) (te_versions_hash ex_trae_env) ts"
    by (simp_all add: ex_hx_def)
  have re: "re_checkpoint ex_resume = projr (fst ex_checkpointed)" by (simp add: ex_resume_def)
  from suspended_run_portable [OF ex_started_reachable ex_run_waits(1-3) k h] obtain x b calls
    where x: "map_of (ta_execs ex_started) ''r'' = Some x" "ad_bridge (xn_adapter x) = Some b" "waiting_batch x = Some calls"
      and all: "\<forall>(env' :: (unit \<times> tool_call list) trae_env) rq fresh servers w fs ad fs' b'. te_str env' = te_str ex_trae_env \<and> te_policy_hash env' = te_policy_hash ex_trae_env
        \<and> te_versions_hash env' = te_versions_hash ex_trae_env \<and> be_bhash (te_bridge env') = be_bhash (te_bridge ex_trae_env)
        \<and> dedup (te_tools env' servers) = map fst (br_table b) \<and> re_checkpoint rq = projr (fst ex_checkpointed)
        \<and> initialize_agent env' (restored_request fresh ''r'' rq) servers w fs = (None, ad, fs') \<and> ad_bridge ad = Some b'
      \<longrightarrow> policy_dump b' = policy_dump b \<and> resume_batch env' (projr (fst ex_checkpointed)) b' = Inr calls" by (elim exE conjE) (rule that)
  have "dedup (te_tools ex_trae_env []) = map fst (br_table b)" using x(1,2) ex_execution ex_bridge t by auto
  with all [rule_format, of ex_trae_env "[]" ex_resume "''s2''" "((), [])" "\<lparr>sf_files = [], sf_readonly = []\<rparr>"] i re
  have "resume_batch ex_trae_env (projr (fst ex_checkpointed)) ex_bridge_elsewhere = Inr calls" by blast
  with x c(4) show ?thesis by simp
qed

end
