(* ===== verification/Document_Tools.thy ===== *)
theory Document_Tools
  imports Trae_Adapter
begin

text \<open>
  The document tools of the runner, \<open>session_runner/tools/document_tools.py\<close>: Word, Excel and PDF files and their conversion. A tool
  takes the arguments of a call and a file system and returns its output or the error it raises, with the file system, which keeps
  what was written before the error. The document libraries (python-docx, openpyxl, reportlab, PyMuPDF, Office through
  pywin32) are the parameter \<open>doc_lib\<close>; documents are opaque values, files are byte strings. The file system has no links of its own: they
  are in \<open>Path.resolve\<close>, a parameter. The last part puts the tools behind the sandbox of the silent mode in \<open>Trae_Bridge\<close>.
\<close>

section \<open>Files\<close>

record doc_fs =
  df_files :: "(path \<times> string) list"
  df_dirs :: "path list"

abbreviation file_at :: "doc_fs \<Rightarrow> path \<Rightarrow> string option" where
  "file_at fs p \<equiv> map_of (df_files fs) p"

definition is_file :: "doc_fs \<Rightarrow> path \<Rightarrow> bool" where
  "is_file fs p = (file_at fs p \<noteq> None)"

definition is_dir :: "doc_fs \<Rightarrow> path \<Rightarrow> bool" where
  "is_dir fs p = (p \<in> set (df_dirs fs))"

definition path_exists :: "doc_fs \<Rightarrow> path \<Rightarrow> bool" where
  "path_exists fs p = (is_file fs p \<or> is_dir fs p)"

definition path_parent :: "path \<Rightarrow> path" where
  "path_parent p = (fst p, butlast (snd p))"

definition ancestors :: "path \<Rightarrow> path list" where
  "ancestors p = map (\<lambda>n. (fst p, take n (snd p))) [0..<Suc (length (snd p))]"

text \<open>\<open>mkdir(parents=True, exist_ok=True)\<close>.\<close>

definition mkdirs :: "path \<Rightarrow> doc_fs \<Rightarrow> string + doc_fs" where
  "mkdirs p fs = (if is_file fs p then Inl ''FileExistsError'' else if list_ex (is_file fs) (ancestors p) then Inl ''NotADirectoryError''
     else Inr (fs\<lparr>df_dirs := df_dirs fs @ filter (\<lambda>d. \<not> is_dir fs d) (ancestors p)\<rparr>))"

definition write_file :: "path \<Rightarrow> string \<Rightarrow> doc_fs \<Rightarrow> string + doc_fs" where
  "write_file p bytes fs = (if is_dir fs p then Inl ''IsADirectoryError'' else if \<not> is_dir fs (path_parent p) then Inl ''FileNotFoundError''
     else Inr (fs\<lparr>df_files := AList.update p bytes (df_files fs)\<rparr>))"

text \<open>\<open>Path.suffix\<close> and \<open>with_suffix\<close>.\<close>

definition name_suffix :: "string \<Rightarrow> string" where
  "name_suffix n = (let ext = takeWhile (\<lambda>c. c \<noteq> CHR ''.'') (rev n); stem = drop (Suc (length ext)) (rev n) in
     if length ext < length n \<and> stem \<noteq> [] \<and> ext \<noteq> [] then CHR ''.'' # rev ext else [])"

definition path_suffix :: "path \<Rightarrow> string" where
  "path_suffix p = (if snd p = [] then [] else name_suffix (last (snd p)))"

definition with_suffix :: "string \<Rightarrow> path \<Rightarrow> path" where
  "with_suffix s p = (let n = last (snd p) in (fst p, butlast (snd p) @ [take (length n - length (name_suffix n)) n @ s]))"

section \<open>Libraries\<close>

text \<open>\<open>find_spec("win32com.client")\<close> imports the package \<open>win32com\<close> first and raises where there is none.\<close>

datatype pywin32 = NoPackage | NoClient | Client

record ('d, 'x) doc_lib =
  dl_repr :: "json \<Rightarrow> string"
  dl_str :: "json \<Rightarrow> string"
  dl_loads :: "string \<Rightarrow> json option"
  dl_dumps :: "json \<Rightarrow> string"
  dl_resolve :: "path \<Rightarrow> path"
  dl_cwd :: path
  dl_home :: "string \<Rightarrow> path option"
  dl_docx_new :: 'd
  dl_docx_load :: "string \<Rightarrow> string + 'd"
  dl_docx_save :: "'d \<Rightarrow> string"
  dl_docx_add :: "string option \<Rightarrow> string \<Rightarrow> 'd \<Rightarrow> string + 'd"
  dl_docx_texts :: "'d \<Rightarrow> string list"
  dl_docx_tables :: "'d \<Rightarrow> string list list list"
  dl_docx_set :: "nat \<Rightarrow> string \<Rightarrow> 'd \<Rightarrow> string + 'd"
  dl_xlsx_new :: 'x
  dl_xlsx_load :: "string \<Rightarrow> string + 'x"
  dl_xlsx_save :: "'x \<Rightarrow> string"
  dl_xlsx_sheets :: "'x \<Rightarrow> string list"
  dl_xlsx_active :: "'x \<Rightarrow> string"
  dl_xlsx_retitle :: "string \<Rightarrow> 'x \<Rightarrow> string + 'x"
  dl_xlsx_append :: "string \<Rightarrow> json list \<Rightarrow> 'x \<Rightarrow> string + 'x"
  dl_xlsx_set :: "string \<Rightarrow> string \<Rightarrow> json \<Rightarrow> 'x \<Rightarrow> string + 'x"
  dl_xlsx_rows :: "string \<Rightarrow> string option \<Rightarrow> 'x \<Rightarrow> string + json list list"
  dl_pdf_build :: "string option \<Rightarrow> string list \<Rightarrow> string + string"
  dl_pdf_pages :: "string \<Rightarrow> string + string list"
  dl_pdf_merge :: "string list \<Rightarrow> string"
  dl_pdf_page :: "nat \<Rightarrow> string \<Rightarrow> string"
  dl_pdf_stamp :: "string \<Rightarrow> string \<Rightarrow> bool \<Rightarrow> string + string"
  dl_win32 :: pywin32
  dl_dispatch :: "string \<Rightarrow> string option"
  dl_member :: "string \<Rightarrow> string \<Rightarrow> bool"
  dl_office :: "string \<Rightarrow> string \<Rightarrow> string + string"

section \<open>Arguments\<close>

datatype doc_error = ToolError string | RaisedError string

type_synonym doc_result = "(doc_error + string) \<times> doc_fs"

definition MAX_OUTPUT_CHARS :: nat where
  "MAX_OUTPUT_CHARS = 20000"

definition maybe_truncate :: "string \<Rightarrow> string" where
  "maybe_truncate t = (if length t > MAX_OUTPUT_CHARS then take MAX_OUTPUT_CHARS t @ CHR 0x0A # ''<... output clipped ...>'' else t)"

definition expanduser :: "(string \<Rightarrow> path option) \<Rightarrow> path \<Rightarrow> string + path" where
  "expanduser home p =
     (if fst p = [] \<and> snd p \<noteq> [] \<and> take 1 (hd (snd p)) = ''~''
      then (case home (drop 1 (hd (snd p))) of None \<Rightarrow> Inl ''RuntimeError'' | Some h \<Rightarrow> Inr (fst h, snd h @ tl (snd p)))
      else Inr p)"

definition resolve_value :: "('d, 'x) doc_lib \<Rightarrow> json \<Rightarrow> doc_error + path" where
  "resolve_value lib v = (case v of
       JStr s \<Rightarrow> (case expanduser (dl_home lib) (path_of s) of
           Inl e \<Rightarrow> Inl (RaisedError e) | Inr p \<Rightarrow> Inr (dl_resolve lib (path_join (dl_cwd lib) p)))
     | _ \<Rightarrow> Inl (RaisedError ''TypeError''))"

definition coerce_scalar :: "('d, 'x) doc_lib \<Rightarrow> json \<Rightarrow> json" where
  "coerce_scalar lib v = (case v of JStr s \<Rightarrow> or_else (dl_loads lib s) v | _ \<Rightarrow> v)"

definition as_paragraphs :: "('d, 'x) doc_lib \<Rightarrow> json \<Rightarrow> doc_error + string list" where
  "as_paragraphs lib v = (case v of
       JNull \<Rightarrow> Inr [] | JStr s \<Rightarrow> Inr [s] | JArr xs \<Rightarrow> Inr (map (py_str (dl_str lib)) xs)
     | _ \<Rightarrow> Inl (ToolError (CHR 0x27 # ''paragraphs' must be a list of strings'')))"

text \<open>A title that is a string with something in it.\<close>

definition title_of :: "obj \<Rightarrow> string option" where
  "title_of args = (case obj_get args ''title'' JNull of JStr t \<Rightarrow> if py_strip t \<noteq> [] then Some (py_strip t) else None | _ \<Rightarrow> None)"

definition nonempty_str :: "json \<Rightarrow> string option" where
  "nonempty_str v = (case v of JStr s \<Rightarrow> if s \<noteq> [] then Some s else None | _ \<Rightarrow> None)"

definition nonempty_list :: "json \<Rightarrow> json list option" where
  "nonempty_list v = (case v of JArr (x # xs) \<Rightarrow> Some (x # xs) | _ \<Rightarrow> None)"

definition fail :: "doc_error \<Rightarrow> doc_fs \<Rightarrow> doc_result" where
  "fail e fs = (Inl e, fs)"

text \<open>Write a file and reply; or make the directory it goes to first.\<close>

definition save_as :: "path \<Rightarrow> string \<Rightarrow> string \<Rightarrow> doc_fs \<Rightarrow> doc_result" where
  "save_as p bytes out fs = (case write_file p bytes fs of Inl e \<Rightarrow> (Inl (RaisedError e), fs) | Inr fs1 \<Rightarrow> (Inr out, fs1))"

definition in_parent :: "path \<Rightarrow> (doc_fs \<Rightarrow> doc_result) \<Rightarrow> doc_fs \<Rightarrow> doc_result" where
  "in_parent p k fs = (case mkdirs (path_parent p) fs of Inl e \<Rightarrow> (Inl (RaisedError e), fs) | Inr fs1 \<Rightarrow> k fs1)"

text \<open>The command and the path every tool but the converter starts with.\<close>

definition with_command :: "('d, 'x) doc_lib \<Rightarrow> string list \<Rightarrow> string \<Rightarrow> string \<Rightarrow> obj \<Rightarrow> doc_fs \<Rightarrow> (string \<Rightarrow> path \<Rightarrow> doc_result) \<Rightarrow> doc_result" where
  "with_command lib commands suffix why args fs k =
     (case obj_get args ''command'' JNull of
        JStr cmd \<Rightarrow>
          if cmd \<notin> set commands then fail (ToolError (''unsupported command: '' @ dl_repr lib (JStr cmd))) fs
          else (case resolve_value lib (obj_get args ''path'' (JStr [])) of
              Inl e \<Rightarrow> fail e fs
            | Inr p \<Rightarrow> if py_lower (path_suffix p) \<noteq> suffix then fail (ToolError why) fs else k cmd p)
      | v \<Rightarrow> fail (ToolError (''unsupported command: '' @ dl_repr lib v)) fs)"


section \<open>Word\<close>

definition WORD_COMMANDS :: "string list" where
  "WORD_COMMANDS = [''create'', ''read'', ''append'', ''replace'']"

definition nl :: string where
  "nl = [CHR 0x0A]"

definition numbered :: "string list \<Rightarrow> string list" where
  "numbered ts = map (\<lambda>(i, t). decimal i @ '': '' @ t) (filter (\<lambda>(i, t). t \<noteq> []) (zip [1..<Suc (length ts)] ts))"

definition word_lines :: "('d, 'x) doc_lib \<Rightarrow> path \<Rightarrow> 'd \<Rightarrow> string list" where
  "word_lines lib p d =
     [''Document: '' @ path_str p, ''Paragraphs:'']
     @ numbered (dl_docx_texts lib d)
     @ (if dl_docx_tables lib d = [] then [] else (''Tables ('' @ decimal (length (dl_docx_tables lib d)) @ ''):'')
          # concat (map (\<lambda>(i, rows). (''Table '' @ decimal i @ '':'')
              # map (\<lambda>row. py_join '' | '' (map (\<lambda>c. py_strip (map (\<lambda>x. if x = CHR 0x0A then CHR '' '' else x) c)) row)) rows)
              (zip [1..<Suc (length (dl_docx_tables lib d))] (dl_docx_tables lib d))))"

text \<open>\<open>add_paragraph\<close> one by one; the library refuses text that no XML document can hold.\<close>

fun add_paragraphs :: "('d, 'x) doc_lib \<Rightarrow> (string option \<times> string) list \<Rightarrow> 'd \<Rightarrow> doc_error + 'd" where
  "add_paragraphs lib [] d = Inr d"
| "add_paragraphs lib ((style, t) # ts) d = (case dl_docx_add lib style t d of
       Inl e \<Rightarrow> Inl (RaisedError e) | Inr d1 \<Rightarrow> add_paragraphs lib ts d1)"

fun set_paragraphs :: "('d, 'x) doc_lib \<Rightarrow> string \<Rightarrow> nat list \<Rightarrow> 'd \<Rightarrow> doc_error + 'd" where
  "set_paragraphs lib new [] d = Inr d"
| "set_paragraphs lib new (i # is) d = (case dl_docx_set lib i new d of
       Inl e \<Rightarrow> Inl (RaisedError e) | Inr d1 \<Rightarrow> set_paragraphs lib new is d1)"

definition save_doc :: "('d, 'x) doc_lib \<Rightarrow> path \<Rightarrow> string \<Rightarrow> doc_fs \<Rightarrow> doc_error + 'd \<Rightarrow> doc_result" where
  "save_doc lib p out fs d = (case d of Inl e \<Rightarrow> fail e fs | Inr y \<Rightarrow> save_as p (dl_docx_save lib y) out fs)"

definition title_line :: "obj \<Rightarrow> (string option \<times> string) list" where
  "title_line args = (case title_of args of None \<Rightarrow> [] | Some t \<Rightarrow> [(Some ''Title'', t)])"

definition word_create :: "('d, 'x) doc_lib \<Rightarrow> obj \<Rightarrow> path \<Rightarrow> doc_fs \<Rightarrow> doc_result" where
  "word_create lib args p fs =
     (if path_exists fs p then fail (ToolError (''file already exists, use read/append/replace: '' @ path_str p)) fs
      else in_parent p (\<lambda>fs1. case add_paragraphs lib (title_line args) (dl_docx_new lib) of
          Inl e \<Rightarrow> fail e fs1
        | Inr d0 \<Rightarrow> (case as_paragraphs lib (obj_get args ''paragraphs'' JNull) of
              Inl e \<Rightarrow> fail e fs1
            | Inr ps \<Rightarrow> save_doc lib p (''Created Word document: '' @ path_str p) fs1 (add_paragraphs lib (map (Pair None) ps) d0))) fs)"

definition word_append :: "('d, 'x) doc_lib \<Rightarrow> obj \<Rightarrow> path \<Rightarrow> 'd \<Rightarrow> doc_fs \<Rightarrow> doc_result" where
  "word_append lib args p d fs = (case as_paragraphs lib (obj_get args ''paragraphs'' JNull) of
       Inl e \<Rightarrow> fail e fs
     | Inr [] \<Rightarrow> fail (ToolError ''`append` requires non-empty `paragraphs`'') fs
     | Inr ps \<Rightarrow> save_doc lib p (''Appended '' @ decimal (length ps) @ '' paragraph(s) to '' @ path_str p) fs
         (add_paragraphs lib (map (Pair None) ps) d))"

definition word_replace :: "('d, 'x) doc_lib \<Rightarrow> obj \<Rightarrow> path \<Rightarrow> 'd \<Rightarrow> doc_fs \<Rightarrow> doc_result" where
  "word_replace lib args p d fs = (case nonempty_str (obj_get args ''old_text'' JNull) of
       None \<Rightarrow> fail (ToolError ''`replace` requires non-empty `old_text`'') fs
     | Some old \<Rightarrow> (case obj_get args ''new_text'' JNull of
           JStr new \<Rightarrow>
             (let hits = filter (\<lambda>i. dl_docx_texts lib d ! i = old) [0..<length (dl_docx_texts lib d)] in
              if hits = [] then fail (ToolError (''no paragraph matches old_text: '' @ dl_repr lib (JStr old))) fs
              else save_doc lib p (''Replaced '' @ decimal (length hits) @ '' paragraph(s) in '' @ path_str p) fs (set_paragraphs lib new hits d))
         | _ \<Rightarrow> fail (ToolError ''`replace` requires `new_text`'') fs))"

definition word_execute :: "('d, 'x) doc_lib \<Rightarrow> obj \<Rightarrow> doc_fs \<Rightarrow> doc_result" where
  "word_execute lib args fs = with_command lib WORD_COMMANDS ''.docx'' ''word_edit_tool only supports .docx files'' args fs (\<lambda>cmd p.
     if cmd = ''create'' then word_create lib args p fs
     else (case file_at fs p of None \<Rightarrow> fail (ToolError (''file does not exist: '' @ path_str p)) fs
       | Some bytes \<Rightarrow> (case dl_docx_load lib bytes of Inl e \<Rightarrow> fail (RaisedError e) fs | Inr d \<Rightarrow>
           if cmd = ''read'' then (Inr (maybe_truncate (py_join nl (word_lines lib p d))), fs)
           else if cmd = ''append'' then word_append lib args p d fs
           else word_replace lib args p d fs)))"

section \<open>Excel\<close>

definition EXCEL_COMMANDS :: "string list" where
  "EXCEL_COMMANDS = [''create'', ''read'', ''set_cell'', ''update'', ''append_rows'', ''to_csv'']"

text \<open>The rows go in one by one; the first that is no list, or that the sheet refuses, ends the call before anything is saved.\<close>

fun append_rows :: "('d, 'x) doc_lib \<Rightarrow> string \<Rightarrow> json list \<Rightarrow> 'x \<Rightarrow> doc_error + 'x" where
  "append_rows lib sheet [] x = Inr x"
| "append_rows lib sheet (r # rs) x = (case r of
       JArr vs \<Rightarrow> (case dl_xlsx_append lib sheet (map (coerce_scalar lib) vs) x of
           Inl e \<Rightarrow> Inl (RaisedError e) | Inr x1 \<Rightarrow> append_rows lib sheet rs x1)
     | _ \<Rightarrow> Inl (ToolError ''each row in `rows` must be a list''))"

fun set_cells :: "('d, 'x) doc_lib \<Rightarrow> string \<Rightarrow> obj \<Rightarrow> 'x \<Rightarrow> doc_error + 'x" where
  "set_cells lib sheet [] x = Inr x"
| "set_cells lib sheet ((c, v) # cs) x = (case dl_xlsx_set lib sheet c (coerce_scalar lib v) x of
       Inl e \<Rightarrow> Inl (RaisedError e) | Inr x1 \<Rightarrow> set_cells lib sheet cs x1)"

text \<open>\<open>csv.writer\<close> with its defaults.\<close>

definition csv_field :: "bool \<Rightarrow> string \<Rightarrow> string" where
  "csv_field alone s =
     (if list_ex (\<lambda>c. c \<in> {CHR '','', CHR 0x22, CHR 0x0A, CHR 0x0D}) s \<or> alone \<and> s = []
      then CHR 0x22 # concat (map (\<lambda>c. if c = CHR 0x22 then [c, c] else [c]) s) @ [CHR 0x22] else s)"

definition csv_row :: "string list \<Rightarrow> string" where
  "csv_row fs = py_join '','' (map (csv_field (length fs = 1)) fs) @ [CHR 0x0D, CHR 0x0A]"

definition cell_text :: "('d, 'x) doc_lib \<Rightarrow> json \<Rightarrow> string" where
  "cell_text lib v = (if v = JNull then [] else py_str (dl_str lib) v)"

definition save_book :: "('d, 'x) doc_lib \<Rightarrow> path \<Rightarrow> string \<Rightarrow> doc_fs \<Rightarrow> doc_error + 'x \<Rightarrow> doc_result" where
  "save_book lib p out fs x = (case x of Inl e \<Rightarrow> fail e fs | Inr y \<Rightarrow> save_as p (dl_xlsx_save lib y) out fs)"

definition excel_create :: "('d, 'x) doc_lib \<Rightarrow> obj \<Rightarrow> string option \<Rightarrow> path \<Rightarrow> doc_fs \<Rightarrow> doc_result" where
  "excel_create lib args sheet p fs =
     (if path_exists fs p then fail (ToolError (''file already exists, use read/set_cell/update/append_rows: '' @ path_str p)) fs
      else (case nonempty_list (obj_get args ''rows'' JNull) of None \<Rightarrow> fail (ToolError ''`create` requires non-empty `rows`'') fs | Some rows \<Rightarrow>
        in_parent p (\<lambda>fs1.
          (case (if str_true sheet then dl_xlsx_retitle lib (take 31 (the sheet)) (dl_xlsx_new lib) else Inr (dl_xlsx_new lib)) of
             Inl e \<Rightarrow> fail (RaisedError e) fs1
           | Inr x \<Rightarrow> save_book lib p (''Created Excel workbook: '' @ path_str p) fs1 (append_rows lib (dl_xlsx_active lib x) rows x))) fs))"

definition excel_read :: "('d, 'x) doc_lib \<Rightarrow> obj \<Rightarrow> string \<Rightarrow> path \<Rightarrow> 'x \<Rightarrow> doc_error + string" where
  "excel_read lib args sheet p x =
     (case (case obj_get args ''range'' JNull of JNull \<Rightarrow> Inr [] | JStr r \<Rightarrow> Inr r | _ \<Rightarrow> Inl (ToolError ''`range` must be a string'')) of
        Inl e \<Rightarrow> Inl e
      | Inr r \<Rightarrow> (case dl_xlsx_rows lib sheet (if r = [] then None else Some r) x of
            Inl e \<Rightarrow> Inl (RaisedError e)
          | Inr rows \<Rightarrow> Inr (maybe_truncate (dl_dumps lib (JObj [(''file'', JStr (path_str p)), (''sheet'', JStr sheet),
              (''range'', JStr (if r = [] then ''used'' else r)), (''rows'', JArr (map JArr rows))])))))"

definition excel_set_cell :: "('d, 'x) doc_lib \<Rightarrow> obj \<Rightarrow> string \<Rightarrow> path \<Rightarrow> 'x \<Rightarrow> doc_fs \<Rightarrow> doc_result" where
  "excel_set_cell lib args sheet p x fs = (case nonempty_str (obj_get args ''cell'' JNull) of
       None \<Rightarrow> fail (ToolError ''`set_cell` requires `cell` (e.g. B2)'') fs
     | Some c \<Rightarrow> save_book lib p (''Set '' @ sheet @ ''!'' @ c @ '' in '' @ path_str p) fs
         (set_cells lib sheet [(c, obj_get args ''value'' JNull)] x))"

definition excel_update :: "('d, 'x) doc_lib \<Rightarrow> obj \<Rightarrow> string \<Rightarrow> path \<Rightarrow> 'x \<Rightarrow> doc_fs \<Rightarrow> doc_result" where
  "excel_update lib args sheet p x fs = (case obj_get args ''cells'' JNull of
       JObj (c # cs) \<Rightarrow> save_book lib p (''Updated '' @ decimal (length (c # cs)) @ '' cell(s) in '' @ path_str p) fs (set_cells lib sheet (c # cs) x)
     | _ \<Rightarrow> fail (ToolError ''`update` requires non-empty `cells` mapping'') fs)"

text \<open>Where \<open>to_csv\<close> writes. The file is opened by name, so it is the file that a link of this name leads to.\<close>

definition csv_target :: "('d, 'x) doc_lib \<Rightarrow> obj \<Rightarrow> path \<Rightarrow> doc_error + path" where
  "csv_target lib args p =
     (if obj_get args ''output_path'' JNull = JNull then Inr (with_suffix ''.csv'' p)
      else (case resolve_value lib (JStr (py_str (dl_str lib) (obj_get args ''output_path'' JNull))) of
          Inl e \<Rightarrow> Inl e
        | Inr t \<Rightarrow> if py_lower (path_suffix t) \<noteq> ''.csv'' then Inl (ToolError ''`output_path` must end with .csv'') else Inr t))"

definition excel_to_csv :: "('d, 'x) doc_lib \<Rightarrow> obj \<Rightarrow> string \<Rightarrow> path \<Rightarrow> 'x \<Rightarrow> doc_fs \<Rightarrow> doc_result" where
  "excel_to_csv lib args sheet p x fs = (case csv_target lib args p of
       Inl e \<Rightarrow> fail e fs
     | Inr t \<Rightarrow> in_parent t (\<lambda>fs1. case write_file (dl_resolve lib t) [] fs1 of
           Inl e \<Rightarrow> fail (RaisedError e) fs1
         | Inr fs2 \<Rightarrow> (case dl_xlsx_rows lib sheet None x of
               Inl e \<Rightarrow> fail (RaisedError e) fs2
             | Inr rows \<Rightarrow> save_as (dl_resolve lib t) (concat (map (\<lambda>r. csv_row (map (cell_text lib) r)) rows))
                 (''Exported sheet '' @ dl_repr lib (JStr sheet) @ '' to CSV: '' @ path_str t) fs2)) fs)"

definition excel_append :: "('d, 'x) doc_lib \<Rightarrow> obj \<Rightarrow> string \<Rightarrow> path \<Rightarrow> 'x \<Rightarrow> doc_fs \<Rightarrow> doc_result" where
  "excel_append lib args sheet p x fs = (case nonempty_list (obj_get args ''rows'' JNull) of
       None \<Rightarrow> fail (ToolError ''`append_rows` requires non-empty `rows`'') fs
     | Some rows \<Rightarrow> save_book lib p (''Appended '' @ decimal (length rows) @ '' row(s) to '' @ path_str p) fs (append_rows lib sheet rows x))"

definition excel_execute :: "('d, 'x) doc_lib \<Rightarrow> obj \<Rightarrow> doc_fs \<Rightarrow> doc_result" where
  "excel_execute lib args fs = with_command lib EXCEL_COMMANDS ''.xlsx'' ''excel_edit_tool only supports .xlsx files'' args fs (\<lambda>cmd p.
     case (case obj_get args ''sheet_name'' JNull of JNull \<Rightarrow> Inr None | JStr n \<Rightarrow> Inr (Some n) | _ \<Rightarrow> Inl (ToolError ''`sheet_name` must be a string'')) of
       Inl e \<Rightarrow> fail e fs
     | Inr want \<Rightarrow>
       if cmd = ''create'' then excel_create lib args want p fs
       else (case file_at fs p of None \<Rightarrow> fail (ToolError (''file does not exist: '' @ path_str p)) fs
         | Some bytes \<Rightarrow> (case dl_xlsx_load lib bytes of Inl e \<Rightarrow> fail (RaisedError e) fs | Inr x \<Rightarrow>
             if str_true want \<and> the want \<notin> set (dl_xlsx_sheets lib x) then fail (RaisedError ''KeyError'') fs
             else (let sheet = (if str_true want then the want else dl_xlsx_active lib x) in
               if cmd = ''read'' then (excel_read lib args sheet p x, fs)
               else if cmd = ''set_cell'' then excel_set_cell lib args sheet p x fs
               else if cmd = ''update'' then excel_update lib args sheet p x fs
               else if cmd = ''to_csv'' then excel_to_csv lib args sheet p x fs
               else excel_append lib args sheet p x fs))))"

section \<open>PDF\<close>

definition PDF_COMMANDS :: "string list" where
  "PDF_COMMANDS = [''create'', ''read'', ''merge'', ''split'', ''watermark'']"

definition pdf_create :: "('d, 'x) doc_lib \<Rightarrow> obj \<Rightarrow> doc_fs \<Rightarrow> doc_result" where
  "pdf_create lib args fs =
     (case resolve_value lib (if truthy (obj_get args ''output_path'' JNull) then obj_get args ''output_path'' JNull else obj_get args ''path'' (JStr [])) of
        Inl e \<Rightarrow> fail e fs
      | Inr t \<Rightarrow>
          if py_lower (path_suffix t) \<noteq> ''.pdf'' then fail (ToolError ''`output_path` must end with .pdf'') fs
          else if path_exists fs t then fail (ToolError (''file already exists: '' @ path_str t)) fs
          else (case as_paragraphs lib (obj_get args ''paragraphs'' JNull) of
              Inl e \<Rightarrow> fail e fs
            | Inr [] \<Rightarrow> fail (ToolError ''`create` requires non-empty `paragraphs`'') fs
            | Inr ps \<Rightarrow> in_parent t (\<lambda>fs1. case dl_pdf_build lib (title_of args) ps of
                  Inl e \<Rightarrow> fail (RaisedError e) fs1 | Inr bytes \<Rightarrow> save_as t bytes (''Created PDF: '' @ path_str t) fs1) fs))"

definition pdf_read :: "('d, 'x) doc_lib \<Rightarrow> path \<Rightarrow> string \<Rightarrow> doc_error + string" where
  "pdf_read lib p bytes = (case dl_pdf_pages lib bytes of
       Inl e \<Rightarrow> Inl (RaisedError e)
     | Inr ps \<Rightarrow> Inr (maybe_truncate (py_join nl ([''Document: '' @ path_str p, ''Pages: '' @ decimal (length ps)]
         @ concat (map (\<lambda>(i, t). [''--- page '' @ decimal i @ '' ---'', if py_strip t = [] then ''(no extractable text)'' else py_strip t])
             (zip [1..<Suc (length ps)] ps))))))"

fun merge_sources :: "('d, 'x) doc_lib \<Rightarrow> doc_fs \<Rightarrow> json list \<Rightarrow> doc_error + string list" where
  "merge_sources lib fs [] = Inr []"
| "merge_sources lib fs (v # vs) = (case resolve_value lib v of
       Inl e \<Rightarrow> Inl e
     | Inr p \<Rightarrow> (case file_at fs p of
           None \<Rightarrow> Inl (ToolError (''input PDF does not exist: '' @ path_str p))
         | Some bytes \<Rightarrow> (case dl_pdf_pages lib bytes of
               Inl e \<Rightarrow> Inl (RaisedError e)
             | Inr _ \<Rightarrow> (case merge_sources lib fs vs of Inl e \<Rightarrow> Inl e | Inr bs \<Rightarrow> Inr (bytes # bs)))))"

definition pdf_merge :: "('d, 'x) doc_lib \<Rightarrow> obj \<Rightarrow> doc_fs \<Rightarrow> doc_result" where
  "pdf_merge lib args fs = (case nonempty_list (obj_get args ''paths'' JNull) of
       None \<Rightarrow> fail (ToolError ''`merge` requires non-empty `paths`'') fs
     | Some paths \<Rightarrow> (case nonempty_str (obj_get args ''output_path'' JNull) of
           None \<Rightarrow> fail (ToolError ''`merge` requires `output_path`'') fs
         | Some o1 \<Rightarrow> (case merge_sources lib fs paths of Inl e \<Rightarrow> fail e fs | Inr bs \<Rightarrow>
             (case resolve_value lib (JStr o1) of Inl e \<Rightarrow> fail e fs | Inr t \<Rightarrow>
               in_parent t (save_as t (dl_pdf_merge lib bs) (''Merged '' @ decimal (length paths) @ '' PDF(s) into '' @ path_str t)) fs))))"

text \<open>\<open>page-0007.pdf\<close>; a page is written to the file its name leads to.\<close>

definition page_name :: "int \<Rightarrow> string" where
  "page_name i = (let d = decimal (nat i) in ''page-'' @ replicate (4 - length d) (CHR ''0'') @ d @ ''.pdf'')"

fun split_pages :: "('d, 'x) doc_lib \<Rightarrow> path \<Rightarrow> string \<Rightarrow> nat \<Rightarrow> json list \<Rightarrow> path list \<Rightarrow> doc_fs \<Rightarrow> doc_result" where
  "split_pages lib dir bytes n [] written fs = (Inr (''Split pages:'' @ nl @ py_join nl (map path_str written)), fs)"
| "split_pages lib dir bytes n (v # vs) written fs = (case v of
       JInt i \<Rightarrow>
         if i < 1 \<or> i > int n then fail (ToolError (''page '' @ py_str (dl_str lib) v @ '' out of range (1..'' @ decimal n @ '')'')) fs
         else (let t = path_join dir ([], [page_name i]) in
           case write_file (dl_resolve lib t) (dl_pdf_page lib (nat (i - 1)) bytes) fs of
             Inl e \<Rightarrow> fail (RaisedError e) fs
           | Inr fs1 \<Rightarrow> split_pages lib dir bytes n vs (written @ [t]) fs1)
     | _ \<Rightarrow> fail (ToolError ''each `pages` entry must be an integer'') fs)"

definition pdf_split :: "('d, 'x) doc_lib \<Rightarrow> obj \<Rightarrow> string \<Rightarrow> doc_fs \<Rightarrow> doc_result" where
  "pdf_split lib args bytes fs = (case nonempty_list (obj_get args ''pages'' JNull) of
       None \<Rightarrow> fail (ToolError ''`split` requires non-empty `pages`'') fs
     | Some pages \<Rightarrow> (case nonempty_str (obj_get args ''output_path'' JNull) of
           None \<Rightarrow> fail (ToolError ''`split` requires `output_path` (an existing directory)'') fs
         | Some o1 \<Rightarrow> (case resolve_value lib (JStr o1) of Inl e \<Rightarrow> fail e fs | Inr dir \<Rightarrow>
             if \<not> is_dir fs dir then fail (ToolError (''split output directory does not exist: '' @ path_str dir)) fs
             else (case dl_pdf_pages lib bytes of Inl e \<Rightarrow> fail (RaisedError e) fs
               | Inr ps \<Rightarrow> split_pages lib dir bytes (length ps) pages [] fs))))"

definition pdf_watermark :: "('d, 'x) doc_lib \<Rightarrow> obj \<Rightarrow> path \<Rightarrow> string \<Rightarrow> doc_fs \<Rightarrow> doc_result" where
  "pdf_watermark lib args p bytes fs = (case nonempty_str (obj_get args ''text'' JNull) of
       None \<Rightarrow> fail (ToolError ''`watermark` requires non-empty `text`'') fs
     | Some text \<Rightarrow> (case nonempty_str (obj_get args ''output_path'' JNull) of
           None \<Rightarrow> fail (ToolError ''`watermark` requires `output_path`'') fs
         | Some o1 \<Rightarrow> (case resolve_value lib (JStr o1) of Inl e \<Rightarrow> fail e fs | Inr t \<Rightarrow>
             in_parent t (\<lambda>fs1. case dl_pdf_stamp lib text bytes (t = p) of
                 Inl e \<Rightarrow> fail (RaisedError e) fs1
               | Inr out \<Rightarrow> save_as t out (''Watermarked '' @ path_str p @ '' -> '' @ path_str t) fs1) fs)))"

definition pdf_execute :: "('d, 'x) doc_lib \<Rightarrow> obj \<Rightarrow> doc_fs \<Rightarrow> doc_result" where
  "pdf_execute lib args fs = with_command lib PDF_COMMANDS ''.pdf'' ''pdf_tool only supports .pdf files'' args fs (\<lambda>cmd p.
     if cmd = ''create'' then pdf_create lib args fs
     else (case file_at fs p of None \<Rightarrow> fail (ToolError (''file does not exist: '' @ path_str p)) fs
       | Some bytes \<Rightarrow>
           if cmd = ''read'' then (pdf_read lib p bytes, fs)
           else if cmd = ''merge'' then pdf_merge lib args fs
           else if cmd = ''split'' then pdf_split lib args bytes fs
           else pdf_watermark lib args p bytes fs))"

section \<open>Conversion\<close>

text \<open>\<open>getattr\<close> with the dotted name the converter passes; the application must have a member of that name.\<close>

definition office_do :: "('d, 'x) doc_lib \<Rightarrow> string \<Rightarrow> string \<Rightarrow> string \<Rightarrow> doc_error + string" where
  "office_do lib prog opener bytes = (if \<not> dl_member lib prog opener then Inl (RaisedError ''AttributeError'')
     else (case dl_office lib prog bytes of Inl e \<Rightarrow> Inl (RaisedError e) | Inr out \<Rightarrow> Inr out))"

definition convert_office :: "('d, 'x) doc_lib \<Rightarrow> string \<Rightarrow> string \<Rightarrow> string \<Rightarrow> path \<Rightarrow> path \<Rightarrow> doc_fs \<Rightarrow> doc_result" where
  "convert_office lib prog opener bytes p t fs = in_parent t (\<lambda>fs1. case dl_dispatch lib prog of
       Some e \<Rightarrow> fail (ToolError (prog @ '' is not available on this host; install Microsoft Office: '' @ e)) fs1
     | None \<Rightarrow> (case office_do lib prog opener bytes of
           Inl e \<Rightarrow> fail e fs1
         | Inr out \<Rightarrow> save_as t out (''Converted '' @ path_str p @ '' -> '' @ path_str t) fs1)) fs"

definition convert_execute :: "('d, 'x) doc_lib \<Rightarrow> obj \<Rightarrow> doc_fs \<Rightarrow> doc_result" where
  "convert_execute lib args fs = (case obj_get args ''command'' JNull of
       JStr cmd \<Rightarrow>
         if cmd \<notin> {''docx_to_pdf'', ''xlsx_to_pdf''} then fail (ToolError (''unsupported command: '' @ dl_repr lib (JStr cmd))) fs
         else (case resolve_value lib (obj_get args ''input_path'' (JStr [])) of Inl e \<Rightarrow> fail e fs | Inr p \<Rightarrow>
           (case resolve_value lib (obj_get args ''output_path'' (JStr [])) of Inl e \<Rightarrow> fail e fs | Inr t \<Rightarrow>
             (case file_at fs p of None \<Rightarrow> fail (ToolError (''input file does not exist: '' @ path_str p)) fs
              | Some bytes \<Rightarrow>
                  if py_lower (path_suffix t) \<noteq> ''.pdf'' then fail (ToolError ''`output_path` must end with .pdf'') fs
                  else if t = p then fail (ToolError ''`output_path` must differ from `input_path`'') fs
                  else (case dl_win32 lib of
                      NoPackage \<Rightarrow> fail (RaisedError ''ModuleNotFoundError'') fs
                    | NoClient \<Rightarrow> fail (ToolError ''pywin32 is not installed; Office COM conversion is unavailable'') fs
                    | Client \<Rightarrow>
                        if cmd = ''docx_to_pdf''
                        then (if py_lower (path_suffix p) \<noteq> ''.docx'' then fail (ToolError ''docx_to_pdf requires a .docx input'') fs
                              else convert_office lib ''Word.Application'' ''Documents.Open'' bytes p t fs)
                        else (if py_lower (path_suffix p) \<noteq> ''.xlsx'' then fail (ToolError ''xlsx_to_pdf requires a .xlsx input'') fs
                              else convert_office lib ''Excel.Application'' ''Workbooks.Open'' bytes p t fs)))))
     | v \<Rightarrow> fail (ToolError (''unsupported command: '' @ dl_repr lib v)) fs)"

text \<open>The tools by their names.\<close>

definition document_tool :: "('d, 'x) doc_lib \<Rightarrow> string \<Rightarrow> (obj \<Rightarrow> doc_fs \<Rightarrow> doc_result) option" where
  "document_tool lib name =
     (if name = ''word_edit_tool'' then Some (word_execute lib) else if name = ''excel_edit_tool'' then Some (excel_execute lib)
      else if name = ''pdf_tool'' then Some (pdf_execute lib) else if name = ''document_convert_tool'' then Some (convert_execute lib) else None)"


section \<open>What a tool writes\<close>

definition writes_only :: "(path \<Rightarrow> bool) \<Rightarrow> doc_fs \<Rightarrow> doc_result \<Rightarrow> bool" where
  "writes_only P fs r = (\<forall>q. file_at (snd r) q \<noteq> file_at fs q \<longrightarrow> P q)"

named_theorems doc_frames

lemma writes_fail [doc_frames, simp]: "writes_only P fs (fail e fs)" "writes_only P fs (r, fs)"
  by (simp_all add: writes_only_def fail_def)

lemma write_file_frame: "write_file p bytes fs = Inr fs' \<Longrightarrow> file_at fs' q = (if q = p then Some bytes else file_at fs q)"
  by (auto simp: write_file_def update_conv' split: if_splits)

lemma writes_save [doc_frames]: "P p \<Longrightarrow> writes_only P fs (save_as p bytes out fs)"
  by (auto simp: writes_only_def save_as_def write_file_frame split: sum.splits if_splits)

lemma writes_after: "write_file p bytes fs = Inr fs1 \<Longrightarrow> P p \<Longrightarrow> writes_only P fs1 r \<Longrightarrow> writes_only P fs r"
  using write_file_frame unfolding writes_only_def by metis

lemma mkdirs_files: "mkdirs p fs = Inr fs' \<Longrightarrow> df_files fs' = df_files fs"
  by (auto simp: mkdirs_def split: if_splits)

lemma writes_in_parent [doc_frames]:
  assumes "\<And>fs1. df_files fs1 = df_files fs \<Longrightarrow> writes_only P fs1 (k fs1)"
  shows "writes_only P fs (in_parent p k fs)"
  using assms mkdirs_files by (fastforce simp: in_parent_def writes_only_def split: sum.splits)

lemma writes_same_files: "df_files fs1 = df_files fs \<Longrightarrow> writes_only P fs1 r \<Longrightarrow> writes_only P fs r"
  by (simp add: writes_only_def)

lemma writes_save_doc [doc_frames]: "P p \<Longrightarrow> writes_only P fs (save_doc lib p out fs d)"
  by (auto simp: save_doc_def intro: doc_frames split: sum.splits)

lemma writes_save_book [doc_frames]: "P p \<Longrightarrow> writes_only P fs (save_book lib p out fs x)"
  by (auto simp: save_book_def intro: doc_frames split: sum.splits)

lemma writes_with_command [doc_frames]:
  assumes "\<And>cmd p. obj_get args ''command'' JNull = JStr cmd \<Longrightarrow> resolve_value lib (obj_get args ''path'' (JStr [])) = Inr p \<Longrightarrow> writes_only P fs (k cmd p)"
  shows "writes_only P fs (with_command lib cs suffix why args fs k)"
  using assms by (auto simp: with_command_def intro: doc_frames split: json.splits sum.splits)

abbreviation path_arg :: "('d, 'x) doc_lib \<Rightarrow> obj \<Rightarrow> string \<Rightarrow> path \<Rightarrow> bool" where
  "path_arg lib args k q \<equiv> resolve_value lib (obj_get args k (JStr [])) = Inr q"

lemma word_command_writes:
  assumes "P p"
  shows "writes_only P fs (word_create lib args p fs)" "writes_only P fs (word_append lib args p d fs)"
    "writes_only P fs (word_replace lib args p d fs)"
  using assms by (auto simp: word_create_def word_append_def word_replace_def Let_def intro!: doc_frames
      split: option.splits sum.splits list.splits json.splits)

lemma word_writes: "writes_only (path_arg lib args ''path'') fs (word_execute lib args fs)"
  unfolding word_execute_def
  by (rule writes_with_command) (auto intro!: word_command_writes split: option.splits sum.splits)

text \<open>The csv file of \<open>to_csv\<close>, the files of \<open>split\<close>.\<close>

definition excel_target :: "('d, 'x) doc_lib \<Rightarrow> obj \<Rightarrow> doc_fs \<Rightarrow> path \<Rightarrow> bool" where
  "excel_target lib args fs q = (\<exists>p. path_arg lib args ''path'' p \<and> (q = p \<or> is_file fs p \<and> obj_get args ''command'' JNull = JStr ''to_csv''
     \<and> (\<exists>t. csv_target lib args p = Inr t \<and> q = dl_resolve lib t)))"

lemma excel_command_writes:
  assumes "path_arg lib args ''path'' p"
  shows "writes_only (excel_target lib args fs) fs (excel_create lib args want p fs)"
    "writes_only (excel_target lib args fs) fs (excel_set_cell lib args sheet p x fs)"
    "writes_only (excel_target lib args fs) fs (excel_update lib args sheet p x fs)"
    "writes_only (excel_target lib args fs) fs (excel_append lib args sheet p x fs)"
  using assms
  by (auto simp: excel_create_def excel_set_cell_def excel_update_def excel_append_def excel_target_def intro!: doc_frames
      split: option.splits sum.splits list.splits json.splits)

lemma to_csv_writes:
  assumes "path_arg lib args ''path'' p" "is_file fs p" "obj_get args ''command'' JNull = JStr ''to_csv''"
  shows "writes_only (excel_target lib args fs) fs (excel_to_csv lib args sheet p x fs)"
proof (cases "csv_target lib args p")
  case (Inr t)
  then have t: "excel_target lib args fs (dl_resolve lib t)" unfolding excel_target_def using assms by metis
  show ?thesis
    unfolding excel_to_csv_def Inr sum.case
  proof (rule writes_in_parent)
    fix fs1
    show "writes_only (excel_target lib args fs) fs1 (case write_file (dl_resolve lib t) [] fs1 of
           Inl e \<Rightarrow> fail (RaisedError e) fs1
         | Inr fs2 \<Rightarrow> (case dl_xlsx_rows lib sheet None x of
               Inl e \<Rightarrow> fail (RaisedError e) fs2
             | Inr rows \<Rightarrow> save_as (dl_resolve lib t) (concat (map (\<lambda>r. csv_row (map (cell_text lib) r)) rows))
                 (''Exported sheet '' @ dl_repr lib (JStr sheet) @ '' to CSV: '' @ path_str t) fs2))"
      by (cases "write_file (dl_resolve lib t) [] fs1"; cases "dl_xlsx_rows lib sheet None x")
         (simp_all only: sum.case writes_fail writes_after [where P = "excel_target lib args fs", OF _ t] writes_save [where P = "excel_target lib args fs", OF t])
  qed
qed (simp add: excel_to_csv_def)

lemma excel_writes: "writes_only (excel_target lib args fs) fs (excel_execute lib args fs)"
  unfolding excel_execute_def
  by (rule writes_with_command)
     (auto simp: Let_def is_file_def intro!: excel_command_writes to_csv_writes doc_frames split: option.splits sum.splits json.splits)

definition pdf_target :: "('d, 'x) doc_lib \<Rightarrow> obj \<Rightarrow> path \<Rightarrow> bool" where
  "pdf_target lib args q =
     (if truthy (obj_get args ''output_path'' JNull)
      then (\<exists>t. resolve_value lib (obj_get args ''output_path'' JNull) = Inr t \<and> (q = t \<or> (\<exists>i. q = dl_resolve lib (path_join t ([], [page_name i])))))
      else path_arg lib args ''path'' q)"

lemma split_writes: "(\<And>i. P (dl_resolve lib (path_join dir ([], [page_name i])))) \<Longrightarrow> writes_only P fs (split_pages lib dir bytes n vs written fs)"
proof (induction vs arbitrary: written fs)
  case (Cons v vs)
  show ?case
  proof (cases v)
    case (JInt i)
    let ?t = "path_join dir ([], [page_name i])"
    show ?thesis
    proof (cases "write_file (dl_resolve lib ?t) (dl_pdf_page lib (nat (i - 1)) bytes) fs")
      case (Inr fs1)
      have "writes_only P fs1 (split_pages lib dir bytes n vs (written @ [?t]) fs1)" using Cons by simp
      then have "writes_only P fs (split_pages lib dir bytes n vs (written @ [?t]) fs1)"
        using write_file_frame [OF Inr] Cons.prems unfolding writes_only_def by metis
      then show ?thesis using JInt Inr by simp
    qed (use JInt in simp)
  qed simp_all
qed simp

lemma nonempty_str_truthy: "nonempty_str v = Some s \<Longrightarrow> v = JStr s \<and> truthy v"
  by (auto simp: nonempty_str_def split: json.splits if_splits)

lemma pdf_command_writes:
  "writes_only (pdf_target lib args) fs (pdf_create lib args fs)"
  "writes_only (pdf_target lib args) fs (pdf_merge lib args fs)"
  "writes_only (pdf_target lib args) fs (pdf_split lib args bytes fs)"
  "writes_only (pdf_target lib args) fs (pdf_watermark lib args p bytes fs)"
  by (auto simp: pdf_create_def pdf_merge_def pdf_split_def pdf_watermark_def pdf_target_def intro!: doc_frames split_writes
      split: option.splits sum.splits list.splits if_splits dest!: nonempty_str_truthy)

lemma pdf_writes: "writes_only (pdf_target lib args) fs (pdf_execute lib args fs)"
  unfolding pdf_execute_def
  by (rule writes_with_command) (auto intro!: pdf_command_writes split: option.splits)

lemma office_writes: "P t \<Longrightarrow> writes_only P fs (convert_office lib prog opener bytes p t fs)"
  by (auto simp: convert_office_def intro!: doc_frames split: option.splits sum.splits)

lemma office_writes_eq: "writes_only ((=) t) fs (convert_office lib prog opener bytes p t fs)"
  by (rule office_writes) simp

lemma convert_writes: "writes_only (path_arg lib args ''output_path'') fs (convert_execute lib args fs)"
proof (cases "resolve_value lib (obj_get args ''output_path'' (JStr []))")
  case (Inl e)
  show ?thesis
    by (cases "obj_get args ''command'' JNull"; cases "resolve_value lib (obj_get args ''input_path'' (JStr []))")
       (simp_all add: convert_execute_def Inl)
next
  case (Inr t)
  note t = this
  show ?thesis
  proof (cases "resolve_value lib (obj_get args ''input_path'' (JStr []))")
    case (Inl e)
    show ?thesis by (cases "obj_get args ''command'' JNull") (simp_all add: convert_execute_def Inl)
  next
    case (Inr p)
    show ?thesis
      by (cases "obj_get args ''command'' JNull"; cases "file_at fs p"; cases "dl_win32 lib")
         (simp_all add: convert_execute_def Inr t office_writes_eq)
  qed
qed

section \<open>What is written is read\<close>

text \<open>What python-docx promises of a document that it made itself.\<close>

definition docx_laws :: "('d, 'x) doc_lib \<Rightarrow> bool" where
  "docx_laws lib =
     ((\<forall>d. dl_docx_load lib (dl_docx_save lib d) = Inr d) \<and> dl_docx_texts lib (dl_docx_new lib) = [] \<and> dl_docx_tables lib (dl_docx_new lib) = []
      \<and> (\<forall>st t d d1. dl_docx_add lib st t d = Inr d1 \<longrightarrow>
           dl_docx_texts lib d1 = dl_docx_texts lib d @ [t] \<and> dl_docx_tables lib d1 = dl_docx_tables lib d))"

definition holds_texts :: "('d, 'x) doc_lib \<Rightarrow> path \<Rightarrow> string list \<Rightarrow> doc_fs \<Rightarrow> bool" where
  "holds_texts lib p ts fs = (\<exists>d. file_at fs p = Some (dl_docx_save lib d) \<and> dl_docx_texts lib d = ts \<and> dl_docx_tables lib d = [])"

lemma added_texts:
  assumes "docx_laws lib"
  shows "add_paragraphs lib ts d = Inr d1 \<Longrightarrow>
    dl_docx_texts lib d1 = dl_docx_texts lib d @ map snd ts \<and> dl_docx_tables lib d1 = dl_docx_tables lib d"
proof (induction ts arbitrary: d)
  case (Cons a ts)
  then show ?case using assms by (cases a) (fastforce simp: docx_laws_def split: sum.splits)
qed simp

lemma saved_doc:
  assumes "save_doc lib p out fs x = (Inr r, fs1)"
  obtains d where "x = Inr d" "file_at fs1 p = Some (dl_docx_save lib d)"
  using assms by (auto simp: save_doc_def save_as_def fail_def write_file_frame split: sum.splits)

lemma word_at:
  assumes "path_arg lib args ''path'' p" "obj_get args ''command'' JNull = JStr cmd" "cmd \<in> set WORD_COMMANDS"
    "py_lower (path_suffix p) = ''.docx''" "cmd \<noteq> ''create''" "file_at fs p = Some (dl_docx_save lib d)" "docx_laws lib"
  shows "word_execute lib args fs =
    (if cmd = ''read'' then (Inr (maybe_truncate (py_join nl (word_lines lib p d))), fs)
     else if cmd = ''append'' then word_append lib args p d fs else word_replace lib args p d fs)"
  using assms by (simp add: word_execute_def with_command_def docx_laws_def)

lemma created_texts:
  assumes "docx_laws lib" "word_create lib args p fs = (Inr out, fs1)"
  shows "\<exists>ps. as_paragraphs lib (obj_get args ''paragraphs'' JNull) = Inr ps \<and> holds_texts lib p (map snd (title_line args) @ ps) fs1"
proof -
  obtain fs0 d0 ps where *: "add_paragraphs lib (title_line args) (dl_docx_new lib) = Inr d0"
      "as_paragraphs lib (obj_get args ''paragraphs'' JNull) = Inr ps"
      "save_doc lib p (''Created Word document: '' @ path_str p) fs0 (add_paragraphs lib (map (Pair None) ps) d0) = (Inr out, fs1)"
    using assms(2) by (auto simp: word_create_def in_parent_def fail_def split: if_splits sum.splits)
  obtain d where d: "add_paragraphs lib (map (Pair None) ps) d0 = Inr d" "file_at fs1 p = Some (dl_docx_save lib d)"
    using *(3) by (rule saved_doc)
  have "dl_docx_texts lib (dl_docx_new lib) = []" "dl_docx_tables lib (dl_docx_new lib) = []" using assms(1) by (simp_all add: docx_laws_def)
  then have "holds_texts lib p (map snd (title_line args) @ ps) fs1"
    using added_texts [OF assms(1) *(1)] added_texts [OF assms(1) d(1)] d(2) by (auto simp: holds_texts_def comp_def)
  then show ?thesis using *(2) by blast
qed

lemma appended_texts:
  assumes "docx_laws lib" "word_append lib args p d fs = (Inr out, fs1)" "dl_docx_tables lib d = []"
  shows "\<exists>ps. as_paragraphs lib (obj_get args ''paragraphs'' JNull) = Inr ps \<and> holds_texts lib p (dl_docx_texts lib d @ ps) fs1"
proof -
  obtain ps where ps: "as_paragraphs lib (obj_get args ''paragraphs'' JNull) = Inr ps"
      "save_doc lib p (''Appended '' @ decimal (length ps) @ '' paragraph(s) to '' @ path_str p) fs
         (add_paragraphs lib (map (Pair None) ps) d) = (Inr out, fs1)"
    using assms(2) by (auto simp: word_append_def fail_def split: sum.splits list.splits)
  obtain d1 where "add_paragraphs lib (map (Pair None) ps) d = Inr d1" "file_at fs1 p = Some (dl_docx_save lib d1)"
    using ps(2) by (rule saved_doc)
  then show ?thesis using added_texts [OF assms(1)] ps(1) assms(3) by (fastforce simp: holds_texts_def comp_def)
qed

lemma command_ok:
  assumes "fst (with_command lib cs sfx why args fs k) = Inr out"
  shows "\<exists>cmd p. obj_get args ''command'' JNull = JStr cmd \<and> cmd \<in> set cs \<and> path_arg lib args ''path'' p \<and> py_lower (path_suffix p) = sfx"
  using assms by (auto simp: with_command_def fail_def split: json.splits sum.splits if_splits)

text \<open>
  A Word document that the tool made reads back as it was written: when a \<open>create\<close> succeeds, then an \<open>append\<close> on the same path, a
  \<open>read\<close> of that path prints the title, the paragraphs of the first and those of the second call, in order, each with its number, empty ones
  left out but counted, clipped at the output limit.
\<close>

theorem word_written_is_read:
  assumes "docx_laws lib" "path_arg lib a1 ''path'' p" "path_arg lib a2 ''path'' p" "path_arg lib a3 ''path'' p"
    and "obj_get a1 ''command'' JNull = JStr ''create''" "obj_get a2 ''command'' JNull = JStr ''append''" "obj_get a3 ''command'' JNull = JStr ''read''"
    and "word_execute lib a1 fs = (Inr o1, fs1)" "word_execute lib a2 fs1 = (Inr o2, fs2)"
  shows "\<exists>ps1 ps2. as_paragraphs lib (obj_get a1 ''paragraphs'' JNull) = Inr ps1 \<and> as_paragraphs lib (obj_get a2 ''paragraphs'' JNull) = Inr ps2
    \<and> word_execute lib a3 fs2 = (Inr (maybe_truncate (py_join nl ([''Document: '' @ path_str p, ''Paragraphs:'']
        @ numbered (map snd (title_line a1) @ ps1 @ ps2)))), fs2)"
proof -
  have sfx: "py_lower (path_suffix p) = ''.docx''"
    using command_ok [OF arg_cong [OF assms(8), of fst, unfolded word_execute_def fst_conv]] assms(2) by auto
  have "word_create lib a1 p fs = (Inr o1, fs1)"
    using assms(2,5,8) sfx by (simp add: word_execute_def with_command_def WORD_COMMANDS_def)
  from created_texts [OF assms(1) this] obtain ps1 d where 1: "as_paragraphs lib (obj_get a1 ''paragraphs'' JNull) = Inr ps1"
      "file_at fs1 p = Some (dl_docx_save lib d)" "dl_docx_texts lib d = map snd (title_line a1) @ ps1" "dl_docx_tables lib d = []"
    by (auto simp: holds_texts_def)
  have "word_append lib a2 p d fs1 = (Inr o2, fs2)"
    using assms(9) word_at [OF assms(3,6) _ sfx _ 1(2) assms(1)] by (simp add: WORD_COMMANDS_def)
  from appended_texts [OF assms(1) this 1(4)] obtain ps2 d2 where 2: "as_paragraphs lib (obj_get a2 ''paragraphs'' JNull) = Inr ps2"
      "file_at fs2 p = Some (dl_docx_save lib d2)" "dl_docx_texts lib d2 = dl_docx_texts lib d @ ps2" "dl_docx_tables lib d2 = []"
    by (auto simp: holds_texts_def)
  have "word_execute lib a3 fs2 = (Inr (maybe_truncate (py_join nl (word_lines lib p d2))), fs2)"
    using word_at [OF assms(4,7) _ sfx _ 2(2) assms(1)] by (simp add: WORD_COMMANDS_def)
  then show ?thesis using 1(1,3) 2(1,3,4) by (simp add: word_lines_def)
qed

section \<open>Behind the sandbox\<close>

lemma absolute_not_blank: "fst (path_of s) \<noteq> [] \<Longrightarrow> py_strip s \<noteq> []"
proof -
  assume "fst (path_of s) \<noteq> []"
  then obtain t where "s = CHR ''/'' # t"
    by (cases s) (auto simp: path_of_def py_startswith_def split: if_splits)
  moreover have "\<not> py_isspace (CHR ''/'')" by (simp add: py_isspace_def)
  ultimately show ?thesis by (auto simp: py_strip_by_def dropWhile_eq_Nil_conv)
qed

lemma resolve_absolute:
  assumes "fst (path_of s) \<noteq> []"
  shows "resolve_value lib (JStr s) = Inr (dl_resolve lib (path_of s))"
  using assms by (simp add: resolve_value_def expanduser_def path_join_def)

lemma unsandboxed_path_inside:
  assumes "sandbox_problem env b c = None" "br_workspace b = Some ws" "k \<in> set (path_keys (tc_name c))"
    "tc_name c \<in> set DOCUMENT_TOOL_NAMES" "obj_get (tc_arguments c) k JNull = JStr s" "fst (path_of s) \<noteq> []"
  shows "is_relative_to (be_resolve env (path_of s)) (be_resolve env ws)"
proof -
  have "\<not> (\<exists>k \<in> set (path_keys (tc_name c)). case obj_get (tc_arguments c) k JNull of
      JStr p \<Rightarrow> py_strip p \<noteq> [] \<and> outside_workspace env ws p | _ \<Rightarrow> False)"
    using assms(1,2,4) by (auto simp: sandbox_problem_def find_None_iff split: option.splits if_splits)
  then have "\<not> outside_workspace env ws s" using assms(3,5) absolute_not_blank [OF assms(6)] by force
  then show ?thesis using assms(6) by (auto simp: outside_workspace_def Let_def is_relative_to_def)
qed

lemma obj_get_default: "obj_get o1 k JNull = JStr s \<Longrightarrow> obj_get o1 k d = JStr s"
  by (auto simp: obj_get_def or_else_def split: option.splits)

lemma sibling_inside:
  assumes "is_relative_to p root" "p \<noteq> root"
  shows "is_relative_to (with_suffix sfx p) root"
proof -
  have len: "length (snd root) < length (snd p)"
  proof (rule ccontr)
    assume "\<not> ?thesis"
    then have "take (length (snd root)) (snd p) = snd p" by simp
    then show False using assms by (auto simp: is_relative_to_def prod_eq_iff)
  qed
  then have "take (length (snd root)) (butlast (snd p) @ xs) = take (length (snd root)) (snd p)" for xs
    by (simp add: butlast_conv_take)
  then show ?thesis using assms(1) by (simp add: is_relative_to_def with_suffix_def Let_def)
qed

text \<open>The argument that names where a tool writes when there is no \<open>output_path\<close>.\<close>

definition write_key :: "string \<Rightarrow> string" where
  "write_key name = (if name = ''document_convert_tool'' then ''output_path'' else ''path'')"

lemma tool_writes:
  assumes "document_tool lib name = Some run"
    and "name \<noteq> ''document_convert_tool'' \<longrightarrow> obj_get args ''output_path'' JNull = JNull"
    and "file_at (snd (run args fs)) q \<noteq> file_at fs q"
  shows "\<exists>p. path_arg lib args (write_key name) p \<and> (q = p \<or> is_file fs p \<and> name = ''excel_edit_tool'' \<and> obj_get args ''command'' JNull = JStr ''to_csv''
    \<and> q = dl_resolve lib (with_suffix ''.csv'' p))"
proof -
  consider "run = word_execute lib" "write_key name = ''path''" | "run = excel_execute lib" "write_key name = ''path''" "name = ''excel_edit_tool''"
      "obj_get args ''output_path'' JNull = JNull" | "run = pdf_execute lib" "write_key name = ''path''" "obj_get args ''output_path'' JNull = JNull"
    | "run = convert_execute lib" "write_key name = ''output_path''"
    using assms(1,2) by (auto simp: document_tool_def write_key_def split: if_splits)
  then show ?thesis
  proof cases
    case 1
    then show ?thesis using word_writes [of lib args fs] assms(3) unfolding writes_only_def by metis
  next
    case 2
    then have "excel_target lib args fs q" using excel_writes [of lib args fs] assms(3) unfolding writes_only_def by blast
    then show ?thesis using 2 by (auto simp: excel_target_def csv_target_def)
  next
    case 3
    then have "pdf_target lib args q" using pdf_writes [of lib args fs] assms(3) unfolding writes_only_def by blast
    then show ?thesis using 3 by (auto simp: pdf_target_def)
  next
    case 4
    then show ?thesis using convert_writes [of lib args fs] assms(3) unfolding writes_only_def by metis
  qed
qed

text \<open>C15. What the sandbox of the silent mode gives. A document tool is called with absolute paths and no \<open>output_path\<close> (the converter
  excepted, whose output path the sandbox checks), and where it exports a workbook the csv file beside it is no symbolic link; the bridge is in
  the silent mode and has cleared the call; the tool resolves paths as the sandbox does. Then every file that the tool creates or changes,
  whatever command and whatever error ends it, lies below the workspace.
\<close>

theorem silent_documents_stay_inside:
  assumes "document_tool lib (tc_name c) = Some run"
    and "br_mode b = ''silent''" "br_workspace b = Some ws" "cleared env b op c"
    and "dl_resolve lib = be_resolve env" "\<not> is_file fs (be_resolve env ws)"
    and "list_all (\<lambda>k. case obj_get (tc_arguments c) k JNull of JStr s \<Rightarrow> fst (path_of s) \<noteq> [] | _ \<Rightarrow> False) (path_keys (tc_name c))"
    and "tc_name c \<noteq> ''document_convert_tool'' \<longrightarrow> obj_get (tc_arguments c) ''output_path'' JNull = JNull"
    and "\<And>p. tc_name c = ''excel_edit_tool'' \<Longrightarrow> obj_get (tc_arguments c) ''command'' JNull = JStr ''to_csv'' \<Longrightarrow>
       path_arg lib (tc_arguments c) ''path'' p \<Longrightarrow> dl_resolve lib (with_suffix ''.csv'' p) = with_suffix ''.csv'' p"
    and "file_at (snd (run (tc_arguments c) fs)) q \<noteq> file_at fs q"
  shows "is_relative_to q (be_resolve env ws)"
proof -
  obtain p where p: "path_arg lib (tc_arguments c) (write_key (tc_name c)) p" "q = p \<or> is_file fs p \<and> tc_name c = ''excel_edit_tool''
      \<and> obj_get (tc_arguments c) ''command'' JNull = JStr ''to_csv'' \<and> q = dl_resolve lib (with_suffix ''.csv'' p)"
    using tool_writes [OF assms(1,8,10)] by blast
  then have q: "q = p \<or> is_file fs p \<and> q = with_suffix ''.csv'' p"
    using assms(9) [of p] by (auto simp del: split_paired_All simp: write_key_def)
  have k: "write_key (tc_name c) \<in> set (path_keys (tc_name c))" by (simp add: write_key_def path_keys_def)
  obtain s where s: "obj_get (tc_arguments c) (write_key (tc_name c)) JNull = JStr s" "fst (path_of s) \<noteq> []"
    using bspec [OF assms(7) [unfolded list_all_iff] k] by (cases "obj_get (tc_arguments c) (write_key (tc_name c)) JNull") auto
  have "p = be_resolve env (path_of s)"
    using p(1) by (simp add: obj_get_default [OF s(1)] resolve_absolute [OF s(2)] assms(5))
  moreover have "tc_name c \<in> set DOCUMENT_TOOL_NAMES"
    using assms(1) by (auto simp: document_tool_def DOCUMENT_TOOL_NAMES_def split: if_splits)
  moreover have "sandbox_problem env b c = None" using assms(2,4) by (simp add: cleared_def)
  ultimately have "is_relative_to p (be_resolve env ws)"
    using unsandboxed_path_inside [OF _ assms(3) k _ s] by blast
  then show ?thesis using q assms(6) sibling_inside by blast
qed

text \<open>A library in which a document is the list of its paragraphs and a file their text, a book the rows of one sheet.\<close>

definition ex_encode :: "string \<Rightarrow> string" where
  "ex_encode t = concat (map (\<lambda>c. [CHR ''+'', c]) t) @ ''.''"

fun ex_decode :: "string \<Rightarrow> string \<Rightarrow> string list" where
  "ex_decode acc [] = []"
| "ex_decode acc [x] = [acc]"
| "ex_decode acc (x # c # s) = (if x = CHR ''.'' then acc # ex_decode [] (c # s) else ex_decode (acc @ [c]) s)"

definition ex_lib :: "(string list, json list list) doc_lib" where
  "ex_lib = \<lparr>dl_repr = (\<lambda>_. ''?''), dl_str = (\<lambda>v. case v of JInt i \<Rightarrow> decimal (nat i) | _ \<Rightarrow> ''?''), dl_loads = (\<lambda>_. None), dl_dumps = (\<lambda>_. ''{}''), dl_resolve = (\<lambda>p. p),
     dl_cwd = path_of ''/srv'', dl_home = (\<lambda>_. Some (path_of ''/root'')),
     dl_docx_new = [], dl_docx_load = (\<lambda>b. Inr (ex_decode [] b)), dl_docx_save = concat o map ex_encode,
     dl_docx_add = (\<lambda>_ t d. Inr (d @ [t])), dl_docx_texts = (\<lambda>d. d), dl_docx_tables = (\<lambda>_. []), dl_docx_set = (\<lambda>i t d. Inr (d[i := t])),
     dl_xlsx_new = [], dl_xlsx_load = (\<lambda>_. Inr [[JStr ''1'', JNull]]), dl_xlsx_save = (\<lambda>_. ''xlsx''), dl_xlsx_sheets = (\<lambda>_. [''S'']),
     dl_xlsx_active = (\<lambda>_. ''S''), dl_xlsx_retitle = (\<lambda>_ x. Inr x), dl_xlsx_append = (\<lambda>_ r x. Inr (x @ [r])),
     dl_xlsx_set = (\<lambda>_ _ _ x. Inr x), dl_xlsx_rows = (\<lambda>_ _ x. Inr x),
     dl_pdf_build = (\<lambda>_ ps. Inr (concat ps)), dl_pdf_pages = (\<lambda>b. Inr [b]), dl_pdf_merge = concat, dl_pdf_page = (\<lambda>_ b. b),
     dl_pdf_stamp = (\<lambda>t b _. Inr (b @ t)), dl_win32 = NoPackage, dl_dispatch = (\<lambda>_. None), dl_member = (\<lambda>_ m. CHR ''.'' \<notin> set m),
     dl_office = (\<lambda>_ b. Inr b)\<rparr>"

definition ex_fs :: doc_fs where
  "ex_fs = \<lparr>df_files = [(path_of ''/w/a.xlsx'', ''xlsx''), (path_of ''/w/a.pdf'', ''p'')],
     df_dirs = map path_of [''/'', ''/w'', ''/srv'', ''/out'']\<rparr>"

definition ex_silent :: "(unit \<times> tool_call list) bridge" where
  "ex_silent = the (bridge_init (\<lambda>_. ''?'') DOCUMENT_TOOL_NAMES
     [(''mode'', JStr ''silent''), (''allowed_tools'', JArr (map JStr DOCUMENT_TOOL_NAMES))] (Some (path_of ''/w'')) None ''r'' ''v'' ((), []))"

definition ex_op :: bridge_op where
  "ex_op = OpExecute ''q'' None [] ''sequential_tool_call''"

lemma ex_silent_fields:
  "br_mode ex_silent = ''silent''" "br_workspace ex_silent = Some (path_of ''/w'')" "br_gate ex_silent = None"
  "br_ask_gate ex_silent = False"
  by code_simp+

definition ex_create_call :: tool_call where
  "ex_create_call = \<lparr>tc_id = ''c1'', tc_name = ''word_edit_tool'', tc_arguments = [(''command'', JStr ''create''),
     (''path'', JStr ''/w/doc/n.docx''), (''title'', JStr ''T''), (''paragraphs'', JArr [JStr ''x'', JStr [], JStr ''y''])]\<rparr>"

text \<open>What is left to check of a call in that bridge.\<close>

lemma ex_cleared:
  assumes "tc_name c \<in> set DOCUMENT_TOOL_NAMES" "sandbox_problem ex_bridge_env ex_silent c = None"
    "\<not> needs_approval ex_bridge_env ex_silent c"
  shows "cleared ex_bridge_env ex_silent ex_op c"
proof -
  have "list_all (\<lambda>n. map_of (br_table ex_silent) n \<noteq> None \<and> n \<in> set (gp_allowed_tools (br_policy ex_silent)) \<and> n \<noteq> ASK_USER_NAME)
      DOCUMENT_TOOL_NAMES" by code_simp
  then show ?thesis
    using assms by (auto simp: cleared_def gate_cleared_def ex_silent_fields list_all_iff)
qed

definition ex_export_call :: tool_call where
  "ex_export_call = \<lparr>tc_id = ''c2'', tc_name = ''excel_edit_tool'', tc_arguments = [(''command'', JStr ''to_csv''), (''path'', JStr ''/w/a.xlsx'')]\<rparr>"

theorem silent_documents_stay_inside_witness:
  "\<exists>q. file_at (snd (excel_execute ex_lib (tc_arguments ex_export_call) ex_fs)) q \<noteq> file_at ex_fs q
     \<and> is_relative_to q (be_resolve ex_bridge_env (path_of ''/w''))"
proof -
  let ?q = "path_of ''/w/a.csv''"
  have c: "cleared ex_bridge_env ex_silent ex_op ex_export_call" by (rule ex_cleared) code_simp+
  have t: "document_tool ex_lib (tc_name ex_export_call) = Some (excel_execute ex_lib)"
    by (simp add: document_tool_def ex_export_call_def)
  have r: "dl_resolve ex_lib = be_resolve ex_bridge_env" by (simp add: ex_lib_def ex_bridge_env_def)
  have k: "\<not> is_file ex_fs (be_resolve ex_bridge_env (path_of ''/w''))"
    "list_all (\<lambda>k. case obj_get (tc_arguments ex_export_call) k JNull of JStr s \<Rightarrow> fst (path_of s) \<noteq> [] | _ \<Rightarrow> False) (path_keys (tc_name ex_export_call))"
    "tc_name ex_export_call \<noteq> ''document_convert_tool'' \<longrightarrow> obj_get (tc_arguments ex_export_call) ''output_path'' JNull = JNull"
    by code_simp+
  have l: "dl_resolve ex_lib (with_suffix ''.csv'' p) = with_suffix ''.csv'' p" for p by (simp add: ex_lib_def)
  have w: "file_at (snd (excel_execute ex_lib (tc_arguments ex_export_call) ex_fs)) ?q \<noteq> file_at ex_fs ?q" by code_simp
  show ?thesis
    using silent_documents_stay_inside [OF t ex_silent_fields(1,2) c r k l w] w by blast
qed

lemma ex_decode_encode: "ex_decode acc (concat (map (\<lambda>c. [CHR ''+'', c]) t) @ CHR ''.'' # s) = ex_decode (acc @ t) (CHR ''.'' # s)"
  by (induction t arbitrary: acc) simp_all

lemma ex_decode_saved: "ex_decode [] (concat (map ex_encode d)) = d"
proof (induction d)
  case (Cons t d)
  have "ex_decode t (CHR ''.'' # s) = t # ex_decode [] s" for s by (cases s) simp_all
  then show ?case using Cons by (simp add: ex_encode_def ex_decode_encode)
qed simp

lemma ex_docx_laws: "docx_laws ex_lib"
  by (simp add: docx_laws_def ex_lib_def ex_decode_saved)

definition ex_doc_args :: "string \<Rightarrow> string list \<Rightarrow> obj" where
  "ex_doc_args cmd ps = [(''command'', JStr cmd), (''path'', JStr ''/w/n.docx''), (''title'', JStr ''T''), (''paragraphs'', JArr (map JStr ps))]"

theorem word_written_is_read_witness:
  "\<exists>fs2. word_execute ex_lib (ex_doc_args ''read'' []) fs2
     = (Inr (py_join nl [''Document: /w/n.docx'', ''Paragraphs:'', ''1: T'', ''2: x'', ''4: y'']), fs2)"
proof -
  let ?a1 = "ex_doc_args ''create'' [''x'', []]" and ?a2 = "ex_doc_args ''append'' [''y'']" and ?a3 = "ex_doc_args ''read'' []"
  let ?p = "path_of ''/w/n.docx''"
  let ?r1 = "word_execute ex_lib ?a1 ex_fs"
  let ?r2 = "word_execute ex_lib ?a2 (snd ?r1)"
  have p: "path_arg ex_lib ?a1 ''path'' ?p" "path_arg ex_lib ?a2 ''path'' ?p" "path_arg ex_lib ?a3 ''path'' ?p"
    by (simp_all add: ex_doc_args_def obj_get_def, code_simp+)
  have c: "obj_get ?a1 ''command'' JNull = JStr ''create''" "obj_get ?a2 ''command'' JNull = JStr ''append''"
    "obj_get ?a3 ''command'' JNull = JStr ''read''" by (simp_all add: ex_doc_args_def obj_get_def)
  have "case fst ?r1 of Inl _ \<Rightarrow> False | Inr _ \<Rightarrow> True" "case fst ?r2 of Inl _ \<Rightarrow> False | Inr _ \<Rightarrow> True" by code_simp+
  then have "\<exists>o1. fst ?r1 = Inr o1" "\<exists>o2. fst ?r2 = Inr o2" by (auto split: sum.splits)
  then obtain o1 o2 where r: "?r1 = (Inr o1, snd ?r1)" "?r2 = (Inr o2, snd ?r2)" by (metis prod.collapse)
  have ps: "as_paragraphs ex_lib (obj_get ?a1 ''paragraphs'' JNull) = Inr [''x'', []]"
    "as_paragraphs ex_lib (obj_get ?a2 ''paragraphs'' JNull) = Inr [''y'']" by code_simp+
  have out: "maybe_truncate (py_join nl ([''Document: '' @ path_str ?p, ''Paragraphs:''] @ numbered (map snd (title_line ?a1) @ [''x'', []] @ [''y''])))
    = py_join nl [''Document: /w/n.docx'', ''Paragraphs:'', ''1: T'', ''2: x'', ''4: y'']" by code_simp
  show ?thesis
    using word_written_is_read [OF ex_docx_laws p c r] ps out by auto
qed

section \<open>What the sandbox leaves open\<close>

text \<open>
  \<open>_sandbox_problem\<close> checks \<open>path\<close> only, so that \<open>output_path\<close> takes a file out of the workspace; and it resolves a relative path against
  the workspace and leaves a tilde as it is, where the tools resolve against the working directory of the process and expand the home directory.
\<close>

definition ex_csv_call :: tool_call where
  "ex_csv_call = \<lparr>tc_id = ''c2'', tc_name = ''excel_edit_tool'', tc_arguments = [(''command'', JStr ''to_csv''),
     (''path'', JStr ''/w/a.xlsx''), (''output_path'', JStr ''/out/a.csv'')]\<rparr>"

lemma output_path_escapes:
  "cleared ex_bridge_env ex_silent ex_op ex_csv_call"
  "file_at (snd (excel_execute ex_lib (tc_arguments ex_csv_call) ex_fs)) (path_of ''/out/a.csv'') = Some (''1,'' @ [CHR 0x0D, CHR 0x0A])"
  "\<not> is_relative_to (path_of ''/out/a.csv'') (path_of ''/w'')"
  by (rule ex_cleared, code_simp+)

text \<open>And the csv file beside a workbook is opened by name: where it is a link, the export goes where the link leads.\<close>

definition ex_link_lib :: "(string list, json list list) doc_lib" where
  "ex_link_lib = ex_lib\<lparr>dl_resolve := (\<lambda>p. if p = path_of ''/w/a.csv'' then path_of ''/out/b.csv'' else p)\<rparr>"

lemma csv_link_escapes:
  "cleared (ex_bridge_env\<lparr>be_resolve := dl_resolve ex_link_lib\<rparr>) ex_silent ex_op ex_export_call"
  "file_at (snd (excel_execute ex_link_lib (tc_arguments ex_export_call) ex_fs)) (path_of ''/out/b.csv'') = Some (''1,'' @ [CHR 0x0D, CHR 0x0A])"
proof -
  have "sandbox_problem (ex_bridge_env\<lparr>be_resolve := dl_resolve ex_link_lib\<rparr>) ex_silent ex_export_call = None"
    "\<not> needs_approval (ex_bridge_env\<lparr>be_resolve := dl_resolve ex_link_lib\<rparr>) ex_silent ex_export_call" by code_simp+
  moreover have "map_of (br_table ex_silent) (tc_name ex_export_call) \<noteq> None
      \<and> tc_name ex_export_call \<in> set (gp_allowed_tools (br_policy ex_silent)) \<and> tc_name ex_export_call \<noteq> ASK_USER_NAME" by code_simp
  ultimately show "cleared (ex_bridge_env\<lparr>be_resolve := dl_resolve ex_link_lib\<rparr>) ex_silent ex_op ex_export_call"
    by (auto simp: cleared_def gate_cleared_def ex_silent_fields)
qed code_simp

definition ex_relative_call :: "string \<Rightarrow> tool_call" where
  "ex_relative_call p = \<lparr>tc_id = ''c3'', tc_name = ''word_edit_tool'', tc_arguments = [(''command'', JStr ''create''), (''path'', JStr p),
     (''paragraphs'', JStr ''x'')]\<rparr>"

lemma relative_path_escapes:
  "cleared ex_bridge_env ex_silent ex_op (ex_relative_call ''n.docx'')"
  "file_at (snd (word_execute ex_lib (tc_arguments (ex_relative_call ''n.docx'')) ex_fs)) (path_of ''/srv/n.docx'') = Some ''+x.''"
  "cleared ex_bridge_env ex_silent ex_op (ex_relative_call ''~/n.docx'')"
  "file_at (snd (word_execute ex_lib (tc_arguments (ex_relative_call ''~/n.docx'')) ex_fs)) (path_of ''/root/n.docx'') = Some ''+x.''"
  by (rule ex_cleared, code_simp, code_simp, code_simp, code_simp, rule ex_cleared, code_simp+)

text \<open>The pages of a \<open>split\<close> before the first bad one are on disk when it fails.\<close>

lemma split_is_not_atomic:
  "fst (pdf_execute ex_lib [(''command'', JStr ''split''), (''path'', JStr ''/w/a.pdf''), (''output_path'', JStr ''/w''),
     (''pages'', JArr [JInt 1, JInt 2])] ex_fs) = Inl (ToolError ''page 2 out of range (1..1)'')"
  "file_at (snd (pdf_execute ex_lib [(''command'', JStr ''split''), (''path'', JStr ''/w/a.pdf''), (''output_path'', JStr ''/w''),
     (''pages'', JArr [JInt 1, JInt 2])] ex_fs)) (path_of ''/w/page-0001.pdf'') = Some ''p''"
  by code_simp+

text \<open>
  The converter never succeeds on a host whose Office objects have no member with a dot in its name: \<open>getattr\<close> takes \<open>Documents.Open\<close> as one
  name. And without pywin32 \<open>find_spec\<close> raises before the tool can say that it is missing.
\<close>

lemma conversion_fails:
  assumes "\<And>prog m. CHR ''.'' \<in> set m \<Longrightarrow> \<not> dl_member lib prog m"
  shows "\<exists>e. fst (convert_execute lib args fs) = Inl e"
proof -
  have m: "\<not> dl_member lib prog (''Documents.Open'')" "\<not> dl_member lib prog (''Workbooks.Open'')" for prog
    using assms by simp_all
  have office: "\<exists>e. fst (convert_office lib prog m bytes p t fs) = Inl e" if "\<not> dl_member lib prog m" for prog m bytes p t
    using that by (simp add: convert_office_def in_parent_def office_do_def fail_def split: sum.split option.split)
  show ?thesis
    by (cases "obj_get args ''command'' JNull"; cases "resolve_value lib (obj_get args ''input_path'' (JStr []))";
        cases "resolve_value lib (obj_get args ''output_path'' (JStr []))")
       (simp_all add: convert_execute_def office m fail_def split: option.split pywin32.split)
qed

lemma resolve_raises: "resolve_value lib v = Inl e \<Longrightarrow> \<exists>m. e = RaisedError m"
  by (auto simp: resolve_value_def split: json.splits sum.splits)

lemma missing_package_not_reported:
  assumes "dl_win32 lib = NoPackage"
  shows "fst (convert_execute lib args fs) \<noteq> Inl (ToolError ''pywin32 is not installed; Office COM conversion is unavailable'')"
  by (cases "obj_get args ''command'' JNull"; cases "resolve_value lib (obj_get args ''input_path'' (JStr []))";
      cases "resolve_value lib (obj_get args ''output_path'' (JStr []))")
     (auto simp: convert_execute_def assms fail_def dest: resolve_raises split: option.split)

end
