(* ===== verification/Run_Request.thy ===== *)
theory Run_Request
  imports Trae_Adapter Sessions Activities Runner_Manager Skill_Materialize
begin

text \<open>
  The request a run is sent to a runner with: \<open>_build_run_request\<close> and its helpers in \<open>execution/temporal/activities.py\<close>, the same history
  and MCP references as the application service builds them (\<open>application/service.py\<close>, \<open>application/skill_mcp_ops.py\<close>), and the choice of
  the runner with the help of the runner manager. The last sections follow the request to the engine: what the agent is told of the earlier
  conversations of its session (\<open>Trae_Adapter\<close>), which MCP servers it gets, and which container it runs in (\<open>Runner_Manager\<close>).
  \<open>datetime.isoformat\<close> and the rendering of a time in a JSON dump are parameters.
\<close>

section \<open>The history of a session\<close>

record stamps =
  st_iso :: "time \<Rightarrow> string"
  st_json :: "time \<Rightarrow> string"

definition instruction :: "stamps \<Rightarrow> conversation \<Rightarrow> json" where
  "instruction k c = JObj [(''type'', JStr ''message''), (''payload'', JObj [(''content'', JStr (conv_task c)), (''role'', JStr ''user'')]),
     (''source'', JStr ''agentsupport''), (''conversation_id'', JStr (conv_id c)), (''occurred_at'', JStr (st_iso k (conv_created_at c)))]"

text \<open>\<open>event.model_dump(mode="json")\<close>.\<close>

definition stamped_dump :: "stamps \<Rightarrow> event_envelope \<Rightarrow> json" where
  "stamped_dump k e = JObj [(''schema_version'', JStr (ev_schema_version e)), (''event_id'', JStr (ev_id e)),
     (''run_id'', JStr (ev_run_id e)), (''seq'', JInt (ev_seq e)), (''type'', JStr (ev_type e)),
     (''payload'', JObj (ev_payload e)), (''tenant_id'', opt_json (ev_tenant e)),
     (''user_id'', opt_json (ev_user e)), (''project_id'', opt_json (ev_project e)),
     (''source'', JStr (ev_source e)), (''occurred_at'', JStr (st_json k (ev_occurred_at e)))]"

definition silent_run_ids :: "conversation list \<Rightarrow> uuid list" where
  "silent_run_ids cs = map (\<lambda>c. run_id (conv_run c)) (filter (\<lambda>c. conv_mode c = SILENT) cs)"

text \<open>\<open>event.get("occurred_at") or ""\<close>; both renderings are strings.\<close>

definition occurred_key :: "json \<Rightarrow> string" where
  "occurred_key j = (case j of JObj o1 \<Rightarrow> (case obj_get o1 ''occurred_at'' JNull of JStr s \<Rightarrow> s | _ \<Rightarrow> []) | _ \<Rightarrow> [])"

definition audible :: "conversation list \<Rightarrow> event_envelope \<Rightarrow> bool" where
  "audible cs e = (silent_run_ids cs = [] \<or> ev_run_id e \<notin> set (silent_run_ids cs))"

definition run_recent_events :: "stamps \<Rightarrow> uuid \<Rightarrow> uuid \<Rightarrow> db \<Rightarrow> json list" where
  "run_recent_events k sid cid d =
     (let cs = repo_list_conversations (Some sid) None 0 d;
          injected = map (instruction k) (filter (\<lambda>c. conv_mode c \<noteq> SILENT) (sort_key conv_created_at (filter (\<lambda>c. conv_id c \<noteq> cid) cs)));
          events = filter (audible cs) (list_session_events sid 0 None d) in
      sort_key occurred_key (injected @ map (stamped_dump k) events))"

text \<open>The service: with a repository as the activity does it, else from its own conversations and the in-memory event store.\<close>

definition merged_history :: "stamps \<Rightarrow> uuid \<Rightarrow> conversation list \<Rightarrow> event_envelope list \<Rightarrow> json list" where
  "merged_history k cid cs es =
     sort_key occurred_key
       (map (instruction k) (sort_key conv_created_at (filter (\<lambda>c. conv_id c \<noteq> cid \<and> conv_mode c \<noteq> SILENT) cs))
        @ map (stamped_dump k) (filter (audible cs) es))"

definition session_recent_events :: "stamps \<Rightarrow> (db + conversation list \<times> (uuid \<Rightarrow> event_envelope list)) \<Rightarrow> session \<Rightarrow> conversation \<Rightarrow> json list" where
  "session_recent_events k src x c = (case src of
       Inl d \<Rightarrow> merged_history k (conv_id c) (repo_list_conversations (Some (sess_id x)) None 0 d) (list_session_events (sess_id x) 0 None d)
     | Inr (cs0, events_in) \<Rightarrow>
         (let cs = filter (\<lambda>v. conv_session v = sess_id x) cs0 in
          merged_history k (conv_id c) cs (sort_key ev_occurred_at (concat (map (\<lambda>v. events_in (conv_id v)) cs)))))"

section \<open>MCP references\<close>

definition mcp_ref_dump :: "mcp_server \<Rightarrow> json" where
  "mcp_ref_dump m = JObj [(''server_id'', JStr (mcp_server_id m)), (''transport'', JStr (mcp_transport m)),
     (''http_url'', opt_json (mcp_http_url m)), (''sse_url'', opt_json (mcp_sse_url m)),
     (''headers'', JObj (map (\<lambda>(h, v). (h, JStr v)) (mcp_headers m))), (''command'', opt_json (mcp_command m)),
     (''args'', JArr (map JStr (mcp_args m))), (''env'', JObj (map (\<lambda>(n, v). (n, JStr v)) (mcp_env m))),
     (''cwd'', opt_json (mcp_cwd m)), (''description'', JStr (mcp_description m))]"

text \<open>The activity leaves out what it cannot resolve, the service refuses it.\<close>

fun run_mcp_refs :: "json list \<Rightarrow> db \<Rightarrow> json list" where
  "run_mcp_refs [] d = []"
| "run_mcp_refs (r # rs) d =
     (case (case r of JObj o1 \<Rightarrow> obj_get o1 ''server_id'' JNull | _ \<Rightarrow> r) of
        JStr sid \<Rightarrow>
          if sid = [] then run_mcp_refs rs d
          else (case repo_get_mcp_server sid d of None \<Rightarrow> run_mcp_refs rs d | Some m \<Rightarrow> mcp_ref_dump m # run_mcp_refs rs d)
      | _ \<Rightarrow> run_mcp_refs rs d)"

fun dumped_refs :: "json list \<Rightarrow> db \<Rightarrow> service_error + json list" where
  "dumped_refs [] d = Inr []"
| "dumped_refs (r # rs) d = (case mcp_server_id_of r of
       Inl e \<Rightarrow> Inl e
     | Inr sid \<Rightarrow> (case get_mcp_server sid d of
           Inl e \<Rightarrow> Inl e
         | Inr m \<Rightarrow> (case dumped_refs rs d of Inl e \<Rightarrow> Inl e | Inr js \<Rightarrow> Inr (mcp_ref_dump m # js))))"

definition svc_resolve_mcp_refs :: "json list option \<Rightarrow> session \<Rightarrow> db \<Rightarrow> service_error + json list" where
  "svc_resolve_mcp_refs refs x d = dumped_refs (case refs of Some rs \<Rightarrow> rs
     | None \<Rightarrow> (case sess_config x of None \<Rightarrow> [] | Some g \<Rightarrow> res_mcp_refs (cfg_resources g))) d"

section \<open>The request\<close>

definition build_workspace_ref :: "string option \<Rightarrow> string \<Rightarrow> string" where
  "build_workspace_ref root dir = (if str_true root
     then path_str (path_join (path_of (CHR ''/'' # dropWhile (\<lambda>c. c = CHR ''/'') (map (\<lambda>c. if c = backslash then CHR ''/'' else c) (the root))))
            ([], [path_name dir]))
     else dir)"

definition cli_policy_dump :: "cli_policy \<Rightarrow> json" where
  "cli_policy_dump p = JObj [(''tenant_id'', JStr (pol_tenant p)),
     (''cli_apps'', JArr (map (\<lambda>(i, e, ps). JObj [(''cli_id'', JStr i), (''entry'', JStr e), (''safe_prefixes'', JArr (map JStr ps))]) (pol_cli_apps p))),
     (''allowed_safe_prefixes'', JArr (map JStr (pol_safe_prefixes p))), (''image'', JStr (pol_image p))]"

definition catalog_dump :: "string \<times> string \<times> string \<Rightarrow> json" where
  "catalog_dump e = (case e of (i, n, t) \<Rightarrow> JObj [(''skill_id'', JStr i), (''name'', JStr n), (''description'', JStr t)])"

definition build_run_request :: "stamps \<Rightarrow> (string \<Rightarrow> string) \<Rightarrow> string option \<Rightarrow> uuid \<Rightarrow> start_request \<Rightarrow> conversation \<Rightarrow> session \<Rightarrow> workspace
    \<Rightarrow> skill_tree \<Rightarrow> db \<Rightarrow> skill_error + run_request" where
  "build_run_request k b64 root corr q c x w t d =
     (let ref = build_workspace_ref root (ws_root_path w) in
      case skill_catalog (sq_skills q) (sess_tenant x) t of Inl e \<Rightarrow> Inl e | Inr cat \<Rightarrow>
      (case skill_package (sq_skills q) (sess_tenant x) t of Inl e \<Rightarrow> Inl e | Inr pkg \<Rightarrow>
         Inr \<lparr>q_run_id = run_id (conv_run c), q_conversation = conv_id c, q_session = sess_id x, q_container = ''temporal'',
           q_lease_epoch = sess_lease_epoch x, q_fence_epoch = sess_lease_epoch x, q_correlation = corr,
           q_context_bundle = [(''task'', JStr (conv_task c)), (''conversation_id'', JStr (conv_id c)), (''workspace_ref'', JStr ref),
             (''recent_events'', JArr (run_recent_events k (sess_id x) (conv_id c) d)),
             (''skill_catalog'', JArr (map catalog_dump cat)), (''skill_package'', JArr (map (wire_package b64) pkg)),
             (''tool_policy'', JObj (sq_tool_policy q)), (''cli_policy'', cli_policy_dump (sq_cli_policy q)),
             (''file_ref_format'', JBool (case sess_config x of None \<Rightarrow> False | Some g \<Rightarrow> cfg_file_ref_format g)),
             (''mcp_refs'', JArr (run_mcp_refs (sq_mcp_refs q) d))],
           q_workspace_ref = ref, q_tool_policy = sq_tool_policy q, q_core_version = ''0.1.0''\<rparr>))"

section \<open>The runner\<close>

record manager_access =
  ma_url :: string
  ma_token :: string
  ma_default_image :: string

text \<open>
  \<open>post\<close> sends a body with headers and gives the decoded reply, or None where the client raises or the status is an error; the world
  is what the manager acts on. A reply that is no object has no \<open>get\<close>, which raises.
\<close>

definition wanted_image :: "manager_access \<Rightarrow> string option \<Rightarrow> db \<Rightarrow> string" where
  "wanted_image ma tenant d = (case tenant of
       None \<Rightarrow> ma_default_image ma
     | Some t \<Rightarrow> if t = [] then ma_default_image ma
         else (case latest_ready_build t d of
             None \<Rightarrow> ma_default_image ma | Some b \<Rightarrow> if str_true (pb_image_tag b) then the (pb_image_tag b) else ma_default_image ma))"

definition ensure_runner_url :: "(json \<Rightarrow> string) \<Rightarrow> (string \<Rightarrow> (string \<times> string) list \<Rightarrow> obj \<Rightarrow> 'w \<Rightarrow> json option \<times> 'w) \<Rightarrow> manager_access
    \<Rightarrow> string option \<Rightarrow> db \<Rightarrow> 'w \<Rightarrow> (string + string option) \<times> 'w" where
  "ensure_runner_url str post ma tenant d w =
     (let url = py_strip (ma_url ma) in
      if url = [] then (Inr None, w)
      else (case post (rstrip_slash url @ ''/ensure-runner'') (if ma_token ma = [] then [] else [(''X-Runner-Manager-Token'', ma_token ma)])
              [(''tenant_id'', JStr (if str_true tenant then the tenant else ''default'')), (''image_tag'', JStr (wanted_image ma tenant d))] w of
          (None, w1) \<Rightarrow> (Inr None, w1)
        | (Some (JObj body), w1) \<Rightarrow>
            (Inr (if truthy (obj_get body ''endpoint'' JNull) then Some (py_str str (obj_get body ''endpoint'' JNull)) else None), w1)
        | (Some _, w1) \<Rightarrow> (Inl ''AttributeError'', w1)))"

definition choose_runner_url :: "(json \<Rightarrow> string) \<Rightarrow> (string \<Rightarrow> (string \<times> string) list \<Rightarrow> obj \<Rightarrow> 'w \<Rightarrow> json option \<times> 'w) \<Rightarrow> manager_access
    \<Rightarrow> string option \<Rightarrow> string option \<Rightarrow> db \<Rightarrow> 'w \<Rightarrow> (string + string) \<times> 'w" where
  "choose_runner_url str post ma static tenant d w =
     (if str_true (registered_runner_url str d tenant) then (Inr (the (registered_runner_url str d tenant)), w)
      else (case ensure_runner_url str post ma tenant d w of
          (Inl e, w1) \<Rightarrow> (Inl e, w1)
        | (Inr u, w1) \<Rightarrow> (Inr (if str_true u then the u else static_runner_url static), w1)))"

section \<open>Sorting\<close>

lemma insort_key_cong:
  "(\<And>y. y \<in> set xs \<Longrightarrow> (f x \<le> f y) = (g x \<le> g y)) \<Longrightarrow> insort_key f x xs = insort_key g x xs"
  by (induction xs) auto

lemma sort_key_cong:
  assumes "\<And>x y. x \<in> set xs \<Longrightarrow> y \<in> set xs \<Longrightarrow> (f x \<le> f y) = (g x \<le> g y)"
  shows "sort_key f xs = sort_key g xs"
  using assms
proof (induction xs)
  case (Cons x xs)
  then have "sort_key f xs = sort_key g xs" by simp
  moreover have "insort_key f x (sort_key g xs) = insort_key g x (sort_key g xs)"
    by (rule insort_key_cong) (use Cons.prems in simp)
  ultimately show ?case by simp
qed simp

lemma insort_key_map: "insort_key f (r x) (map r xs) = map r (insort_key (\<lambda>a. f (r a)) x xs)"
  by (induction xs) simp_all

lemma sort_key_map: "sort_key f (map r xs) = map r (sort_key (\<lambda>a. f (r a)) xs)"
  by (induction xs) (simp_all add: insort_key_map)

lemma conversations_sorted: "sorted (map conv_created_at (filter P (repo_list_conversations sid None 0 d)))"
proof -
  have "sorted (map conv_created_at (repo_list_conversations sid None 0 d))"
    by (simp add: repo_list_conversations_def page_def conversation_from_row_def comp_def)
  then show ?thesis by (rule sorted_filter)
qed

section \<open>Both paths build the same history\<close>

lemma same_history: "run_recent_events k (sess_id x) (conv_id c) d = session_recent_events k (Inl d) x c"
proof -
  let ?cs = "repo_list_conversations (Some (sess_id x)) None 0 d"
  have "filter (\<lambda>c. conv_mode c \<noteq> SILENT) (sort_key conv_created_at (filter (\<lambda>v. conv_id v \<noteq> conv_id c) ?cs))
      = sort_key conv_created_at (filter (\<lambda>v. conv_id v \<noteq> conv_id c \<and> conv_mode v \<noteq> SILENT) ?cs)"
    by (simp add: sort_key_id_if_sorted conversations_sorted conj_commute)
  then show ?thesis by (simp add: run_recent_events_def session_recent_events_def merged_history_def Let_def)
qed

section \<open>What the agent is told\<close>

datatype moment = Said conversation | Happened event_envelope

definition moment_time :: "moment \<Rightarrow> int" where
  "moment_time m = (case m of Said c \<Rightarrow> 2 * conv_created_at c | Happened e \<Rightarrow> 2 * ev_occurred_at e + 1)"

text \<open>The moments of a session that a run of one of its conversations is to know, and their order: the code sorts by the
  text of the time stamps, an \<open>isoformat\<close> for an instruction and the JSON rendering for an event, and keeps the order of equal ones.\<close>

definition moments_of :: "uuid \<Rightarrow> uuid \<Rightarrow> db \<Rightarrow> moment list" where
  "moments_of sid cid d = (let cs = repo_list_conversations (Some sid) None 0 d in
     map Said (filter (\<lambda>c. conv_id c \<noteq> cid \<and> conv_mode c \<noteq> SILENT) cs)
       @ map Happened (filter (\<lambda>e. \<forall>c \<in> set cs. conv_mode c = SILENT \<longrightarrow> run_id (conv_run c) \<noteq> ev_run_id e) (list_session_events sid 0 None d)))"

definition moment_text :: "stamps \<Rightarrow> moment \<Rightarrow> string" where
  "moment_text k m = (case m of Said c \<Rightarrow> st_iso k (conv_created_at c) | Happened e \<Rightarrow> st_json k (ev_occurred_at e))"

definition session_moments :: "stamps \<Rightarrow> uuid \<Rightarrow> uuid \<Rightarrow> db \<Rightarrow> moment list" where
  "session_moments k sid cid d = sort_key (moment_text k) (moments_of sid cid d)"

text \<open>What a moment adds to the dialogue: the task of a conversation as a user message, or what the engine makes of the type and payload of an event.\<close>

definition moment_lines :: "(json \<Rightarrow> string) \<Rightarrow> moment \<Rightarrow> (string \<times> string) list" where
  "moment_lines str m = (case m of
       Said c \<Rightarrow> if conv_task c = [] then [] else [(''user'', conv_task c)]
     | Happened e \<Rightarrow> history_message str (JObj [(''type'', JStr (ev_type e)), (''payload'', JObj (ev_payload e))]))"

definition session_times :: "uuid \<Rightarrow> db \<Rightarrow> time list" where
  "session_times sid d = map conv_created_at (repo_list_conversations (Some sid) None 0 d) @ map ev_occurred_at (list_session_events sid 0 None d)"

text \<open>The renderings of the times are ordered as the times are, an instruction before an event of the same time.\<close>

definition orderly :: "stamps \<Rightarrow> time list \<Rightarrow> bool" where
  "orderly k ts = list_all (\<lambda>s. list_all (\<lambda>t. (st_iso k s \<le> st_iso k t) = (s \<le> t) \<and> (st_json k s \<le> st_json k t) = (s \<le> t)
     \<and> (st_iso k s \<le> st_json k t) = (s \<le> t) \<and> (st_json k s \<le> st_iso k t) = (s < t)) ts) ts"

definition moment_json :: "stamps \<Rightarrow> moment \<Rightarrow> json" where
  "moment_json k m = (case m of Said c \<Rightarrow> instruction k c | Happened e \<Rightarrow> stamped_dump k e)"

lemma occurred_moment: "occurred_key (moment_json k m) = moment_text k m"
  by (cases m) (simp_all add: moment_json_def moment_text_def instruction_def stamped_dump_def occurred_key_def obj_get_def)

lemma history_moment: "history_message str (moment_json k m) = moment_lines str m"
  by (cases m) (auto simp: moment_json_def moment_lines_def instruction_def stamped_dump_def history_message_def Let_def obj_get_def
      or_default_def py_str_def)

lemma recent_events_moments:
  "run_recent_events k sid cid d = map (moment_json k) (session_moments k sid cid d)"
proof -
  let ?cs = "repo_list_conversations (Some sid) None 0 d"
  have "audible ?cs = (\<lambda>e. \<forall>c \<in> set ?cs. conv_mode c = SILENT \<longrightarrow> run_id (conv_run c) \<noteq> ev_run_id e)"
    by (force simp: audible_def silent_run_ids_def filter_empty_conv fun_eq_iff)
  then have "run_recent_events k sid cid d = sort_key occurred_key (map (moment_json k) (moments_of sid cid d))"
    by (simp add: run_recent_events_def moments_of_def Let_def sort_key_id_if_sorted conversations_sorted moment_json_def comp_def conj_commute)
  also have "\<dots> = map (moment_json k) (session_moments k sid cid d)"
    by (simp add: sort_key_map occurred_moment session_moments_def)
  finally show ?thesis .
qed

lemma moments_by_time:
  assumes "orderly k (session_times sid d)"
  shows "session_moments k sid cid d = sort_key moment_time (moments_of sid cid d)"
  unfolding session_moments_def
proof (rule sort_key_cong)
  fix m n assume "m \<in> set (moments_of sid cid d)" "n \<in> set (moments_of sid cid d)"
  then show "(moment_text k m \<le> moment_text k n) = (moment_time m \<le> moment_time n)"
    using assms by (auto simp: moment_text_def moment_time_def moments_of_def orderly_def session_times_def list_all_iff Let_def)
qed

text \<open>C20. What an agent knows of its session. The dialogue the engine puts before the task of a run that the platform requested is exactly that of the
  session's moments: the instruction of every other conversation that is not silent, and what the engine makes of every stored event of the
  session that no silent conversation's run made, each once. They come in the order of their rendered time stamps. Where the renderings of the
  times at hand are ordered as text as the times are, this is the order of time, an instruction before what happens at the same time; a time
  without a fraction of a second can break this, as \<open>whole_second_sorts_late\<close> below shows.
\<close>

theorem agent_history_exact:
  assumes "build_run_request k b64 root corr q c x w t d = Inr rq"
  shows "session_history_messages str (q_context_bundle rq) = concat (map (moment_lines str) (session_moments k (sess_id x) (conv_id c) d))
    \<and> (orderly k (session_times (sess_id x) d) \<longrightarrow>
         session_moments k (sess_id x) (conv_id c) d = sort_key moment_time (moments_of (sess_id x) (conv_id c) d))"
proof -
  have "obj_get (q_context_bundle rq) ''recent_events'' JNull = JArr (run_recent_events k (sess_id x) (conv_id c) d)"
    using assms by (auto simp: build_run_request_def Let_def obj_get_def split: sum.splits)
  then show ?thesis
    by (simp add: session_history_messages_def recent_events_moments moments_by_time comp_def history_moment)
qed

section \<open>The MCP servers of the agent\<close>

lemma dumped_refs_same: "repo_get_mcp_server [] d = None \<Longrightarrow> dumped_refs refs d = Inr js \<Longrightarrow> run_mcp_refs refs d = js"
  by (induction refs arbitrary: js)
    (auto simp: mcp_server_id_of_def get_mcp_server_def repo_get_mcp_server_def split: json.splits sum.splits option.splits if_splits)

text \<open>A value as the runner reads it: \<open>$NAME\<close> stands for a variable of its environment.\<close>

definition expanded :: "(string \<Rightarrow> string option) \<Rightarrow> string \<Rightarrow> string" where
  "expanded env v = (if py_startswith v ''$'' then or_else (env (drop 1 v)) [] else v)"

definition agent_mcp_config :: "(string \<Rightarrow> string option) \<Rightarrow> mcp_server \<Rightarrow> json" where
  "agent_mcp_config env m = (let dict = (\<lambda>xs. JObj (map (\<lambda>(n, v). (n, JStr (expanded env v))) xs)) in
     if mcp_transport m = ''http'' then JObj [(''http_url'', opt_json (mcp_http_url m)), (''headers'', dict (mcp_headers m))]
     else if mcp_transport m = ''sse'' then JObj [(''url'', opt_json (mcp_sse_url m)), (''headers'', dict (mcp_headers m))]
     else JObj [(''command'', opt_json (mcp_command m)), (''args'', JArr (map JStr (mcp_args m))), (''env'', dict (mcp_env m)),
                (''cwd'', opt_json (mcp_cwd m))])"

text \<open>A server as registration leaves it, the variables it names set in the runner.\<close>

definition servable :: "(string \<Rightarrow> string option) \<Rightarrow> mcp_server \<Rightarrow> bool" where
  "servable env m = (valid_mcp_server_id (mcp_server_id m) \<and> mcp_transport m \<in> set SUPPORTED_TRANSPORTS
     \<and> list_all (\<lambda>(_, v). py_startswith v ''$'' \<longrightarrow> env (drop 1 v) \<noteq> None) (mcp_headers m @ mcp_env m))"

lemma headers_expanded:
  "list_all (\<lambda>(_, v). py_startswith v ''$'' \<longrightarrow> env (drop 1 v) \<noteq> None) hs \<Longrightarrow>
   resolve_headers env (map (\<lambda>(h, v). (h, JStr v)) hs) = Inr (map (\<lambda>(h, v). (h, JStr (expanded env v))) hs)"
  by (induction hs) (auto simp: resolve_header_value_def expanded_def or_else_def split: option.splits)

lemma config_of_servable:
  assumes "servable env m"
  shows "\<exists>o1. mcp_ref_dump m = JObj o1 \<and> mcp_config str env o1 = Inr (Some (mcp_server_id m, agent_mcp_config env m))"
proof -
  have h: "resolve_headers env (map (\<lambda>(h, v). (h, JStr v)) (mcp_headers m)) = Inr (map (\<lambda>(h, v). (h, JStr (expanded env v))) (mcp_headers m))"
    "resolve_headers env (map (\<lambda>(h, v). (h, JStr v)) (mcp_env m)) = Inr (map (\<lambda>(h, v). (h, JStr (expanded env v))) (mcp_env m))"
    using assms by (auto simp: servable_def intro!: headers_expanded)
  have id: "mcp_server_id m \<noteq> []" using assms by (auto simp: servable_def valid_mcp_server_id_def)
  have f: "dict_field o1 key = Inr (map (\<lambda>(h, v). (h, JStr v)) hs)" if "obj_get o1 key JNull = JObj (map (\<lambda>(h, v). (h, JStr v)) hs)" for o1 key hs
    using that by (cases hs) (simp_all add: dict_field_def Let_def)
  obtain o1 where o1: "mcp_ref_dump m = JObj o1" by (simp add: mcp_ref_dump_def)
  have g: "obj_get o1 ''server_id'' (JStr []) = JStr (mcp_server_id m)" "obj_get o1 ''transport'' JNull = JStr (mcp_transport m)"
    "obj_get o1 ''http_url'' JNull = opt_json (mcp_http_url m)" "obj_get o1 ''sse_url'' JNull = opt_json (mcp_sse_url m)"
    "obj_get o1 ''headers'' JNull = JObj (map (\<lambda>(h, v). (h, JStr v)) (mcp_headers m))"
    "obj_get o1 ''env'' JNull = JObj (map (\<lambda>(h, v). (h, JStr v)) (mcp_env m))"
    "obj_get o1 ''command'' JNull = opt_json (mcp_command m)" "obj_get o1 ''args'' JNull = JArr (map JStr (mcp_args m))"
    "obj_get o1 ''cwd'' JNull = opt_json (mcp_cwd m)"
    using o1 by (auto simp: mcp_ref_dump_def obj_get_def)
  have args: "py_iter (or_default o1 ''args'' (JArr [])) = Some (map JStr (mcp_args m))"
    by (cases "mcp_args m") (simp_all add: or_default_def g)
  have t: "mcp_transport m \<in> {''http'', ''sse'', ''stdio''}" using assms by (auto simp: servable_def SUPPORTED_TRANSPORTS_def)
  have "mcp_config str env o1 = Inr (Some (mcp_server_id m, agent_mcp_config env m))"
    using t id by (auto simp: mcp_config_def Let_def g f [OF g(5)] f [OF g(6)] h args agent_mcp_config_def py_str_def)
  then show ?thesis using o1 by blast
qed

lemma configs_of_refs:
  assumes "validate_mcp_refs refs d = None" "\<And>m. m \<in> set (t_mcp_servers d) \<Longrightarrow> servable env m"
  shows "\<exists>cfgs. build_mcp_server_configs str env (run_mcp_refs refs d) acc = Inr cfgs
    \<and> (\<forall>sid. map_of cfgs sid = (if \<exists>r \<in> set refs. mcp_server_id_of r = Inr sid
        then map_option (agent_mcp_config env) (repo_get_mcp_server sid d) else map_of acc sid))"
  using assms(1)
proof (induction refs arbitrary: acc)
  case (Cons r refs)
  then obtain sid m where m: "mcp_server_id_of r = Inr sid" "repo_get_mcp_server sid d = Some m" "validate_mcp_refs refs d = None"
    by (auto simp: get_mcp_server_def split: sum.splits option.splits if_splits)
  have in_table: "m \<in> set (t_mcp_servers d)" "mcp_server_id m = sid" using m(2) by (auto simp: repo_get_mcp_server_def dest: db_get_SomeD)
  have ne: "sid \<noteq> []" using assms(2) [OF in_table(1)] in_table(2) by (auto simp: servable_def valid_mcp_server_id_def)
  obtain o1 where o1: "mcp_ref_dump m = JObj o1" "mcp_config str env o1 = Inr (Some (sid, agent_mcp_config env m))"
    using config_of_servable [OF assms(2) [OF in_table(1)]] in_table(2) by blast
  have "run_mcp_refs (r # refs) d = JObj o1 # run_mcp_refs refs d"
    using m(1,2) ne o1(1) by (auto simp: mcp_server_id_of_def split: json.splits if_splits)
  then have step: "build_mcp_server_configs str env (run_mcp_refs (r # refs) d) acc
      = build_mcp_server_configs str env (run_mcp_refs refs d) (AList.update sid (agent_mcp_config env m) acc)"
    by (simp add: o1(2))
  from Cons.IH [OF m(3)] show ?case unfolding step using m(1,2) by (fastforce simp: update_conv')
qed simp

text \<open>C21. The MCP configuration of a run. The references of the conversation were accepted when it was created, and every server of the registry is
  as registration leaves it and names, in its headers and its environment, only variables that the runner has set. Then the configuration the
  runner builds from the run request is complete: it is built without an error and has an entry for exactly the servers referred to, each with
  the address or command, arguments, working directory, and headers or environment it was registered with, a value \<open>$NAME\<close> replaced by the variable.
  What the agent does with an entry is the vendored client's: it connects to servers with a command only.
\<close>

theorem registered_servers_configured:
  assumes "build_run_request k b64 root corr q c x w t d = Inr rq" "validate_mcp_refs (sq_mcp_refs q) d = None"
    and "list_all (servable env) (t_mcp_servers d)"
  shows "\<exists>cfgs. build_mcp_server_configs str env (mcp_refs_of rq) [] = Inr cfgs
    \<and> (\<forall>sid. map_of cfgs sid = (if \<exists>r \<in> set (sq_mcp_refs q). mcp_server_id_of r = Inr sid
        then map_option (agent_mcp_config env) (repo_get_mcp_server sid d) else None))"
proof -
  have refs: "mcp_refs_of rq = run_mcp_refs (sq_mcp_refs q) d"
    using assms(1) by (auto simp: build_run_request_def mcp_refs_of_def Let_def obj_get_def split: sum.splits)
  have "m \<in> set (t_mcp_servers d) \<Longrightarrow> servable env m" for m using assms(3) by (simp add: list_all_iff)
  from configs_of_refs [OF assms(2) this, of str "[]"] show ?thesis unfolding refs map_of.simps .
qed

section \<open>Where a run goes\<close>

text \<open>The runner manager behind \<open>POST /ensure-runner\<close>: its middleware, the route, and the reply as the client takes it.\<close>

definition runner_reply :: "(time \<Rightarrow> string) \<Rightarrow> runner_entry \<Rightarrow> json" where
  "runner_reply at x = JObj [(''tenant_id'', JStr (re_tenant x)), (''container_id'', JStr (re_container x)), (''endpoint'', JStr (re_endpoint x)),
     (''image_tag'', JStr (re_image x)), (''started_at'', JStr (at (re_started_at x))), (''last_used_at'', JStr (at (re_last_used x)))]"

definition manager_post :: "(time \<Rightarrow> string) \<Rightarrow> (json \<Rightarrow> string) \<Rightarrow> (string \<Rightarrow> string) \<Rightarrow> 'w shell \<Rightarrow> (string \<Rightarrow> probe list) \<Rightarrow> manager_settings \<Rightarrow> string \<Rightarrow> time
    \<Rightarrow> string \<Rightarrow> (string \<times> string) list \<Rightarrow> obj \<Rightarrow> 'w manager \<Rightarrow> json option \<times> 'w manager" where
  "manager_post at str resolve sh probes ms token now url headers body m =
     (if \<not> mgr_authorized token ''/ensure-runner'' (map_of headers ''X-Runner-Manager-Token'') then (None, m)
      else (case ensure_runner_route str resolve sh probes ms now body m of
          (Inl _, m1) \<Rightarrow> (None, m1) | (Inr x, m1) \<Rightarrow> (Some (runner_reply at x), m1)))"

lemma ensure_answers:
  assumes "py_strip (ma_url ma) \<noteq> []" "ma_token ma = token"
    and "t = (if str_true tenant then the tenant else ''default'')" "img = (if wanted_image ma tenant d = [] then ms_base_image ms else wanted_image ma tenant d)"
  shows "ensure_runner_url str (manager_post at str resolve sh probes ms token now) ma tenant d m =
    (case ensure_runner str resolve sh probes ms now t img m of
       (Inl _, m1) \<Rightarrow> (Inr None, m1) | (Inr x, m1) \<Rightarrow> (Inr (if re_endpoint x = [] then None else Some (re_endpoint x)), m1))"
proof -
  have "t \<noteq> []" using assms(3) by (auto simp: str_true_def split: option.splits)
  then have b: "dict_text str [(''tenant_id'', JStr t), (''image_tag'', JStr i)] ''tenant_id'' = t"
    "dict_text str [(''tenant_id'', JStr t), (''image_tag'', JStr i)] ''image_tag'' = i" for i
    by (simp_all add: dict_text_def obj_get_def Let_def py_str_def)
  have ok: "mgr_authorized token ''/ensure-runner'' (map_of (if ma_token ma = [] then [] else [(''X-Runner-Manager-Token'', ma_token ma)]) ''X-Runner-Manager-Token'')"
    using assms(2) by (simp add: mgr_authorized_def or_else_def)
  obtain r m1 where r: "ensure_runner str resolve sh probes ms now t img m = (r, m1)" by (rule prod.exhaust)
  have route: "ensure_runner_route str resolve sh probes ms now [(''tenant_id'', JStr t), (''image_tag'', JStr (wanted_image ma tenant d))] m = (map_sum (\<lambda>_. 502) id r, m1)"
    using r \<open>t \<noteq> []\<close> assms(4) by (simp add: ensure_runner_route_def b Let_def)
  show ?thesis
    using assms(1) by (cases r) (simp_all add: ensure_runner_url_def Let_def manager_post_def assms(3) [symmetric] ok route r runner_reply_def obj_get_def py_str_def)
qed

text \<open>C23. Where a run of a tenant without a registered runner goes. The activity asks the manager, with the token both share, for a runner with the
  image of the tenant's newest ready build, or the default image. If the manager has an entry for the tenant whose container Docker calls
  running, that container is used as it is, whatever image it was started from, no container is started or removed, and the entry is noted as
  used now and as having the image asked for. Otherwise the container is one that \<open>docker run\<close> has just started with the image asked for, and
  Docker has no other of the tenant's container name. In both cases the run goes to the endpoint of the tenant's entry; when the manager fails, to
  the static runner, and the register is as it was. The entries of the other tenants stay, and so does every container that does not go by the
  tenant's container name, which a tenant with the same slug shares.
\<close>

theorem tenant_run_placed:
  assumes "\<not> str_true (registered_runner_url str d tenant)" "py_strip (ma_url ma) \<noteq> []" "ma_token ma = token" "docker_laws sh ms view"
    and "t = (if str_true tenant then the tenant else ''default'')" "img = (if wanted_image ma tenant d = [] then ms_base_image ms else wanted_image ma tenant d)"
    and "choose_runner_url str (manager_post at str resolve sh probes ms token now) ma static tenant d (rs, w) = (res, rs', w')"
  shows "(case fst (ensure_runner str resolve sh probes ms now t img (rs, w)) of
      Inl _ \<Rightarrow> res = Inr (static_runner_url static) \<and> rs' = rs
    | Inr x \<Rightarrow> res = Inr (if re_endpoint x = [] then static_runner_url static else re_endpoint x)
        \<and> map_of rs' t = Some x \<and> (\<exists>c \<in> set (view w'). refers (re_container x) c)
        \<and> (case running_entry sh ms t (rs, w) of
            Some y \<Rightarrow> x = y\<lparr>re_last_used := now, re_image := img\<rparr> \<and> view w' = view w
          | None \<Rightarrow> re_image x = img \<and> just_started resolve sh ms t img (rs, w) x
              \<and> {c \<in> set (view w'). fst c = container_name t} = {(container_name t, re_container x)}))
    \<and> (\<forall>u. u \<noteq> t \<longrightarrow> map_of rs' u = map_of rs u)
    \<and> (\<forall>c \<in> set (view w). \<not> refers (container_name t) c \<longrightarrow> c \<in> set (view w'))"
proof -
  obtain r rs1 w1 where r: "ensure_runner str resolve sh probes ms now t img (rs, w) = (r, rs1, w1)" by (metis surj_pair)
  have "t \<noteq> []" using assms(5) by (auto simp: str_true_def split: option.splits)
  then have t: "t = (if t = [] then ''default'' else t)" by simp
  have u: "choose_runner_url str (manager_post at str resolve sh probes ms token now) ma static tenant d (rs, w) =
      (case r of Inl _ \<Rightarrow> (Inr (static_runner_url static), rs1, w1)
       | Inr x \<Rightarrow> (Inr (if re_endpoint x = [] then static_runner_url static else re_endpoint x), rs1, w1))"
    using assms(1) by (cases r) (simp_all add: choose_runner_url_def ensure_answers [OF assms(2,3,5,6)] r str_true_def)
  show ?thesis
  proof (cases r)
    case (Inl e)
    then show ?thesis using ensured_runner_serves [OF assms(4) r t] assms(7) unfolding u r by auto
  next
    case (Inr x)
    then have "rs' = rs1" "w' = w1" using assms(7) unfolding u by auto
    with ensured_runner_serves [OF assms(4) r t] ensure_runner_origin [OF assms(4) r [unfolded Inr] \<open>t \<noteq> []\<close>] assms(7) Inr
    show ?thesis unfolding u r by (auto split: option.splits)
  qed
qed

section \<open>Examples\<close>

definition ex_stamps :: stamps where
  "ex_stamps = \<lparr>st_iso = (\<lambda>t. [char_of (64 + nat t), CHR ''+'']), st_json = (\<lambda>t. [char_of (64 + nat t), CHR ''Z''])\<rparr>"

definition ex_round :: "uuid \<Rightarrow> uuid \<Rightarrow> string \<Rightarrow> conversation_mode \<Rightarrow> time \<Rightarrow> conversation" where
  "ex_round cid rid task mode at = \<lparr>conv_id = cid, conv_session = ''s1'', parent_conversation = None, conv_task = task, conv_mcp_refs = None,
     conv_mode = mode, conv_created_at = at, conv_run = new_run rid\<rparr>"

definition ex_said :: "uuid \<Rightarrow> uuid \<Rightarrow> uuid \<Rightarrow> string \<Rightarrow> time \<Rightarrow> event_row" where
  "ex_said eid cid rid text at = event_to_row cid (mk_event eid at rid 1 ''message'' [(''content'', JStr text)] ''runner'')"

definition ex_server :: mcp_server where
  "ex_server = \<lparr>mcp_server_id = ''m1'', mcp_name = ''M'', mcp_transport = ''stdio'', mcp_http_url = None, mcp_sse_url = None,
     mcp_headers = [], mcp_command = Some ''notes'', mcp_args = [''--read''], mcp_env = [(''TOKEN'', ''$TOKEN''), (''LANG'', ''C'')], mcp_cwd = None, mcp_description = [],
     mcp_enabled = True, mcp_created_at = 0, mcp_updated_at = 0\<rparr>"

definition ex_session_db :: db where
  "ex_session_db = empty_db\<lparr>
     t_conversations := map conversation_to_row [ex_round ''c2'' ''r2'' ''now'' DEFAULT 5, ex_round ''c0'' ''r0'' ''first'' DEFAULT 1, ex_round ''c1'' ''r1'' ''hidden'' SILENT 2],
     t_events := [ex_said ''e1'' ''c1'' ''r1'' ''secret'' 4, ex_said ''e0'' ''c0'' ''r0'' ''hi'' 3], t_mcp_servers := [ex_server]\<rparr>"

definition ex_sess :: session where
  "ex_sess = \<lparr>sess_id = ''s1'', sess_workspace = ''w1'', sess_tenant = None, sess_user = None, sess_project = None, sess_metadata = [],
     sess_config = None, sess_lease_epoch = 4, sess_active_run = None, sess_created_at = 0\<rparr>"

definition ex_start :: start_request where
  "ex_start = \<lparr>sq_run = ''r2'', sq_conversation = ''c2'', sq_session = ''s1'', sq_workspace = ''w1'', sq_task = ''now'', sq_skills = [],
     sq_tool_policy = [], sq_cli_policy = \<lparr>pol_tenant = ''default'', pol_cli_apps = [], pol_safe_prefixes = [], pol_image = []\<rparr>,
     sq_mcp_refs = [JStr ''m1'']\<rparr>"

abbreviation ex_built :: "skill_error + run_request" where
  "ex_built \<equiv> build_run_request ex_stamps id (Some ''workspace-data'') ''corr'' ex_start (ex_round ''c2'' ''r2'' ''now'' DEFAULT 5) ex_sess
     \<lparr>ws_id = ''w1'', ws_name = ''W'', ws_root_path = ''/data/ws/w1'', ws_created_at = 0\<rparr> [] ex_session_db"

lemma ex_built_ok: "\<exists>rq. ex_built = Inr rq"
proof -
  have "case ex_built of Inl _ \<Rightarrow> False | Inr _ \<Rightarrow> True" by code_simp
  then show ?thesis by (auto split: sum.splits)
qed

theorem agent_history_exact_witness:
  "\<exists>rq. ex_built = Inr rq \<and> session_history_messages (\<lambda>_. []) (q_context_bundle rq) = [(''user'', ''first''), (''assistant'', ''hi'')]"
proof -
  obtain rq where rq: "ex_built = Inr rq" using ex_built_ok by blast
  have "concat (map (moment_lines (\<lambda>_. [])) (session_moments ex_stamps (sess_id ex_sess) (conv_id (ex_round ''c2'' ''r2'' ''now'' DEFAULT 5)) ex_session_db))
      = [(''user'', ''first''), (''assistant'', ''hi'')]" by code_simp
  with agent_history_exact [OF rq, of "\<lambda>_. []"] rq show ?thesis by simp
qed

theorem registered_servers_configured_witness:
  "\<exists>rq cfgs. ex_built = Inr rq \<and> build_mcp_server_configs (\<lambda>_. []) (map_of [(''TOKEN'', ''abc'')]) (mcp_refs_of rq) [] = Inr cfgs
     \<and> map_of cfgs ''m1'' = Some (JObj [(''command'', JStr ''notes''), (''args'', JArr [JStr ''--read'']),
         (''env'', JObj [(''TOKEN'', JStr ''abc''), (''LANG'', JStr ''C'')]), (''cwd'', JNull)])"
proof -
  obtain rq where rq: "ex_built = Inr rq" using ex_built_ok by blast
  have v: "validate_mcp_refs (sq_mcp_refs ex_start) ex_session_db = None" by code_simp
  have s: "list_all (servable (map_of [(''TOKEN'', ''abc'')])) (t_mcp_servers ex_session_db)" by code_simp
  from registered_servers_configured [OF rq v s, of "\<lambda>_. []"] obtain cfgs where cfgs:
    "build_mcp_server_configs (\<lambda>_. []) (map_of [(''TOKEN'', ''abc'')]) (mcp_refs_of rq) [] = Inr cfgs"
    "map_of cfgs ''m1'' = (if \<exists>r \<in> set (sq_mcp_refs ex_start). mcp_server_id_of r = Inr ''m1''
        then map_option (agent_mcp_config (map_of [(''TOKEN'', ''abc'')])) (repo_get_mcp_server ''m1'' ex_session_db) else None)"
    by blast
  have "\<exists>r \<in> set (sq_mcp_refs ex_start). mcp_server_id_of r = Inr ''m1''" by (simp add: ex_start_def mcp_server_id_of_def)
  moreover have "map_option (agent_mcp_config (map_of [(''TOKEN'', ''abc'')])) (repo_get_mcp_server ''m1'' ex_session_db)
      = Some (JObj [(''command'', JStr ''notes''), (''args'', JArr [JStr ''--read'']),
         (''env'', JObj [(''TOKEN'', JStr ''abc''), (''LANG'', JStr ''C'')]), (''cwd'', JNull)])" by code_simp
  ultimately show ?thesis using rq cfgs by auto
qed

definition ex_access :: manager_access where
  "ex_access = \<lparr>ma_url = ''http://mgr/'', ma_token = ''t'', ma_default_image = ''img''\<rparr>"

theorem tenant_run_placed_witness:
  "\<exists>x rs' w'. choose_runner_url (\<lambda>_. []) (manager_post (\<lambda>_. []) (\<lambda>_. []) id ex_docker (\<lambda>_. [ProbeStatus 200]) ex_settings ''t'' 5) ex_access None
       (Some ''acme'') empty_db ([], [], 0) = (Inr ''http://h:4711'', rs', w')
     \<and> map_of rs' ''acme'' = Some x \<and> re_image x = ''img'' \<and> just_started id ex_docker ex_settings ''acme'' ''img'' ([], [], 0) x"
proof -
  let ?e = "ensure_runner (\<lambda>_. []) id ex_docker (\<lambda>_. [ProbeStatus 200]) ex_settings 5 ''acme'' ''img'' ([], [], 0)"
  let ?c = "choose_runner_url (\<lambda>_. []) (manager_post (\<lambda>_. []) (\<lambda>_. []) id ex_docker (\<lambda>_. [ProbeStatus 200]) ex_settings ''t'' 5) ex_access None
       (Some ''acme'') empty_db ([], [], 0)"
  obtain res rs' w' where c: "?c = (res, rs', w')" by (metis surj_pair)
  have n: "\<not> str_true (registered_runner_url (\<lambda>_. []) empty_db (Some ''acme''))" by code_simp
  have u: "py_strip (ma_url ex_access) \<noteq> []" "ma_token ex_access = ''t''" by code_simp+
  have t: "''acme'' = (if str_true (Some ''acme'') then the (Some ''acme'') else ''default'')" by (simp add: str_true_def)
  have i: "''img'' = (if wanted_image ex_access (Some ''acme'') empty_db = [] then ms_base_image ex_settings else wanted_image ex_access (Some ''acme'') empty_db)"
    by code_simp
  have "case fst ?e of Inl _ \<Rightarrow> False | Inr x \<Rightarrow> re_endpoint x = ''http://h:4711''" by code_simp
  then obtain x where x: "fst ?e = Inr x" "re_endpoint x = ''http://h:4711''" by (auto split: sum.splits)
  have k: "running_entry ex_docker ex_settings ''acme'' ([], [], 0) = None" by code_simp
  from tenant_run_placed [OF n u ex_docker_laws t i c] x c k show ?thesis by auto
qed

section \<open>Behaviours worth knowing\<close>

text \<open>The fence of a request is the lease epoch of its session, so a runner that holds another epoch refuses it.\<close>

lemma request_fence:
  "build_run_request k b64 root corr q c x w t d = Inr rq \<Longrightarrow> (validate_container_fence (Epoch n) rq = None) = (sess_lease_epoch x = n)"
  by (auto simp: build_run_request_def Let_def validate_container_fence_def split: sum.splits)

text \<open>
  The renderings leave out the fraction of a whole second, and the history is sorted as text: what happened on the second sorts after what
  happened within it.
\<close>

definition second_stamps :: stamps where
  "second_stamps = \<lparr>
     st_iso = (\<lambda>t. if t = 0 then ''2026-01-01T00:00:00+00:00'' else ''2026-01-01T00:00:00.500000+00:00''),
     st_json = (\<lambda>t. if t = 0 then ''2026-01-01T00:00:00Z'' else ''2026-01-01T00:00:00.500000Z'')\<rparr>"

lemma whole_second_sorts_late: "st_json second_stamps 1 < st_json second_stamps 0" "\<not> orderly second_stamps [0, 1]"
  by code_simp+

text \<open>A server that was disabled, or removed, after the conversation was created: the first is still sent, the second left out without a word,
  where the service refuses the reference.\<close>

lemma disabled_server_still_sent:
  "run_mcp_refs [JStr ''m1''] (empty_db\<lparr>t_mcp_servers := [ex_server\<lparr>mcp_enabled := False\<rparr>]\<rparr>) = [mcp_ref_dump ex_server]"
  "run_mcp_refs [JStr ''m1''] empty_db = []"
  "dumped_refs [JStr ''m1''] empty_db = Inl (ServiceError ''MCP_SERVER_NOT_FOUND'' 404)"
  by code_simp+

end
