(* ===== verification/Event_Stream.thy ===== *)
theory Event_Stream
  imports Sessions Runner_Client
begin

text \<open>
  The event streams of the control plane as text: \<open>serving/http/routes/events.py\<close> with the generators of \<open>application/event_ops.py\<close>. A
  conversation stream is the list of frames sent on one connection; the database changes while it is open. A client that breaks off and comes
  back with the identifier of the last message it received is followed through any number of connections, each cut anywhere in its text;
  it reads the text as the standard of server-sent events says (\<open>dispatch\<close>, a specification: browsers are not in the repository). The last part has the stream of a session, and the
  lines in which the platform reads the stream of a runner.
\<close>

section \<open>Cursors and limits\<close>

definition is_ascii_digit :: "char \<Rightarrow> bool" where
  "is_ascii_digit c = (let n = of_char c :: nat in 48 \<le> n \<and> n \<le> 57)"

text \<open>\<open>str.isdigit\<close> also holds of the superscripts, which \<open>int\<close> refuses.\<close>

definition py_isdigit :: "char \<Rightarrow> bool" where
  "py_isdigit c = (is_ascii_digit c \<or> (of_char c :: nat) \<in> {178, 179, 185})"

fun digits_value :: "nat \<Rightarrow> string \<Rightarrow> nat" where
  "digits_value n [] = n"
| "digits_value n (c # s) = digits_value (10 * n + (of_char c - 48)) s"

definition resume_seq :: "int option \<Rightarrow> string option \<Rightarrow> string + int" where
  "resume_seq after_seq last_event_id = (case after_seq of
       Some n \<Rightarrow> Inr n
     | None \<Rightarrow> (case last_event_id of
           None \<Rightarrow> Inr 0
         | Some s \<Rightarrow> if s \<noteq> [] \<and> list_all py_isdigit s
             then (if list_all is_ascii_digit s then Inr (int (digits_value 0 s)) else Inl ''ValueError'') else Inr 0))"

text \<open>The limit of a page: the one asked for, else the configured default, where 0 means none.\<close>

definition effective_limit :: "nat option \<Rightarrow> nat \<Rightarrow> nat option" where
  "effective_limit limit dflt = (case limit of Some n \<Rightarrow> Some n | None \<Rightarrow> if dflt = 0 then None else Some dflt)"

datatype 'a http_reply = Unprocessable | Failed service_error | Ok 'a

definition list_events_route :: "time \<Rightarrow> nat \<Rightarrow> uuid \<Rightarrow> int \<Rightarrow> nat option \<Rightarrow> app_state \<Rightarrow> event_envelope list http_reply" where
  "list_events_route now dflt cid after limit s =
     (if after < 0 \<or> (case limit of None \<Rightarrow> False | Some n \<Rightarrow> n < 1 \<or> n > 1000) then Unprocessable
      else (case svc_events now cid after (effective_limit limit dflt) s of Inl e \<Rightarrow> Failed e | Inr es \<Rightarrow> Ok es))"

definition session_events_route :: "time \<Rightarrow> nat \<Rightarrow> uuid \<Rightarrow> int \<Rightarrow> nat option \<Rightarrow> app_state \<Rightarrow> event_envelope list http_reply \<times> app_state" where
  "session_events_route now dflt sid after limit s =
     (if after < 0 \<or> (case limit of None \<Rightarrow> False | Some n \<Rightarrow> n < 1 \<or> n > 1000) then (Unprocessable, s)
      else (case svc_session_events now sid after (effective_limit limit dflt) s of
          (Inl e, s1) \<Rightarrow> (Failed e, s1) | (Inr es, s1) \<Rightarrow> (Ok es, s1)))"

text \<open>\<open>to_int\<close> is \<open>int\<close> of a string, None where it raises.\<close>

definition keepalive_seconds :: "(string \<Rightarrow> int option) \<Rightarrow> string option \<Rightarrow> int" where
  "keepalive_seconds to_int var = (case to_int (or_else var ''15'') of None \<Rightarrow> 15 | Some n \<Rightarrow> max 1 n)"

section \<open>The stream of a conversation\<close>

abbreviation lf :: char where "lf \<equiv> CHR 0x0A"

datatype frame = Event int string | Keepalive

definition frame_text :: "frame \<Rightarrow> string" where
  "frame_text f = (case f of
       Event n body \<Rightarrow> ''id: '' @ decimal (nat n) @ lf # ''data: '' @ body @ [lf, lf]
     | Keepalive \<Rightarrow> '': keepalive'' @ [lf, lf])"

text \<open>\<open>json.dumps(event.model_dump(mode="json"))\<close> of the labelled event.\<close>

definition event_frame :: "(event_envelope \<Rightarrow> string) \<Rightarrow> (string option \<times> string option \<times> string option) \<Rightarrow> event_envelope \<Rightarrow> frame" where
  "event_frame dumps labels e = Event (ev_seq e) (dumps (label_event labels e))"

text \<open>One round of the generator from its cursor: the frames it yields and the cursor after them.\<close>

definition stream_round :: "(event_envelope \<Rightarrow> string) \<Rightarrow> (string option \<times> string option \<times> string option) \<Rightarrow> uuid \<Rightarrow> db \<Rightarrow> int \<Rightarrow> frame list \<times> int" where
  "stream_round dumps labels cid d cursor = (let es = list_events cid cursor None d in
     (map (event_frame dumps labels) es, if es = [] then cursor else ev_seq (last es)))"

section \<open>A client that comes back\<close>

text \<open>The lines of a text that are complete.\<close>

fun complete_lines :: "string \<Rightarrow> string \<Rightarrow> string list" where
  "complete_lines acc [] = []"
| "complete_lines acc (c # s) = (if c = lf then rev acc # complete_lines [] s else complete_lines (c # acc) s)"

text \<open>The standard's reading of lines, for the fields the stream uses: the message identifiers and data a client is handed.\<close>

fun dispatch :: "string \<Rightarrow> string option \<Rightarrow> string list \<Rightarrow> (string \<times> string) list" where
  "dispatch i d [] = []"
| "dispatch i d (l # ls) =
     (if l = [] then (case d of None \<Rightarrow> dispatch i None ls | Some x \<Rightarrow> (i, x) # dispatch i None ls)
      else if py_startswith l ''id: '' then dispatch (drop 4 l) d ls
      else if py_startswith l ''data: '' then dispatch i (Some (case d of None \<Rightarrow> drop 6 l | Some x \<Rightarrow> x @ lf # drop 6 l)) ls
      else dispatch i d ls)"

definition received :: "string \<Rightarrow> string \<Rightarrow> (string \<times> string) list" where
  "received i text = dispatch i None (complete_lines [] text)"

record subscriber =
  su_cursor :: int
  su_sent :: "frame list"
  su_last :: string
  su_got :: "string list"

definition sent_text :: "subscriber \<Rightarrow> string" where
  "sent_text u = concat (map frame_text (su_sent u))"

text \<open>The client after it has received \<open>n\<close> characters of the connection and closed it.\<close>

definition hang_up :: "nat \<Rightarrow> subscriber \<Rightarrow> subscriber" where
  "hang_up n u = (let ms = received (su_last u) (take n (sent_text u)) in
     u\<lparr>su_sent := [], su_got := su_got u @ map snd ms, su_last := (if ms = [] then su_last u else fst (last ms))\<rparr>)"

text \<open>The database and the client, from a first connection on: events are appended anywhere, the open connection is served or kept alive, the
  client breaks off and comes back with the header, which it leaves out before its first message.\<close>

inductive follows_stream :: "(event_envelope \<Rightarrow> string) \<Rightarrow> (string option \<times> string option \<times> string option) \<Rightarrow> uuid \<Rightarrow> db \<times> subscriber \<Rightarrow> bool"
  for dumps labels cid where
  connected: "log_inv d \<Longrightarrow> follows_stream dumps labels cid (d, \<lparr>su_cursor = 0, su_sent = [], su_last = [], su_got = []\<rparr>)"
| appended: "follows_stream dumps labels cid (d, u) \<Longrightarrow> append_event oid now c e d = Inr d' \<Longrightarrow> follows_stream dumps labels cid (d', u)"
| served: "follows_stream dumps labels cid (d, u) \<Longrightarrow> stream_round dumps labels cid d (su_cursor u) = (fs, n) \<Longrightarrow>
    follows_stream dumps labels cid (d, u\<lparr>su_sent := su_sent u @ fs, su_cursor := n\<rparr>)"
| kept_alive: "follows_stream dumps labels cid (d, u) \<Longrightarrow> follows_stream dumps labels cid (d, u\<lparr>su_sent := su_sent u @ [Keepalive]\<rparr>)"
| came_back: "follows_stream dumps labels cid (d, u) \<Longrightarrow> hang_up n u = v \<Longrightarrow>
    resume_seq None (if su_last v = [] then None else Some (su_last v)) = Inr a \<Longrightarrow> follows_stream dumps labels cid (d, v\<lparr>su_cursor := a\<rparr>)"

section \<open>Numbers and lines\<close>

lemma digit_ok: "n < 10 \<Longrightarrow> is_ascii_digit (char_of (48 + n :: nat))"
  by (simp add: is_ascii_digit_def Let_def)

lemma dec_digits: "decimal n \<noteq> [] \<and> list_all is_ascii_digit (decimal n)"
proof (induction n rule: decimal.induct)
  case (1 n)
  then show ?case by (subst (1 2) decimal.simps) (auto simp: digit_ok)
qed

lemma digits_value_snoc: "digits_value n (s @ [c]) = 10 * digits_value n s + (of_char c - 48)"
  by (induction s arbitrary: n) simp_all

lemma digits_value_dec: "digits_value 0 (decimal n) = n"
proof (induction n rule: decimal.induct)
  case (1 n)
  then show ?case by (subst decimal.simps) (auto simp: digits_value_snoc digit_char)
qed

lemma resume_dec: "resume_seq None (Some (decimal n)) = Inr (int n)"
proof -
  have "list_all py_isdigit (decimal n)" using dec_digits [of n] by (auto simp: py_isdigit_def list_all_iff)
  then show ?thesis using dec_digits [of n] by (simp add: resume_seq_def digits_value_dec)
qed

lemma dec_no_lf: "lf \<notin> set (decimal n)"
  using dec_digits [of n] by (auto simp: list_all_iff is_ascii_digit_def)

lemma complete_line: "lf \<notin> set l \<Longrightarrow> complete_lines acc (l @ lf # s) = (rev acc @ l) # complete_lines [] s"
  by (induction l arbitrary: acc) auto

lemma complete_lines_prefix: "\<exists>ys. complete_lines acc (s @ t) = complete_lines acc s @ ys"
  by (induction s arbitrary: acc) auto

lemma dispatch_prefix: "\<exists>zs. dispatch i d (xs @ ys) = dispatch i d xs @ zs"
  by (induction xs arbitrary: i d) (auto split: option.splits)

lemma received_prefix: "\<exists>m. received i (take n t) = take m (received i t)"
proof -
  obtain ys where "complete_lines [] (take n t @ drop n t) = complete_lines [] (take n t) @ ys" using complete_lines_prefix by blast
  moreover obtain zs where "dispatch i None (complete_lines [] (take n t) @ ys) = dispatch i None (complete_lines [] (take n t)) @ zs"
    using dispatch_prefix by blast
  ultimately have "received i t = received i (take n t) @ zs" by (simp add: received_def)
  then have "received i (take n t) = take (length (received i (take n t))) (received i t)" by simp
  then show ?thesis by blast
qed

definition messages :: "frame list \<Rightarrow> (string \<times> string) list" where
  "messages fs = concat (map (\<lambda>f. case f of Event n b \<Rightarrow> [(decimal (nat n), b)] | Keepalive \<Rightarrow> []) fs)"

definition frame_lines :: "frame \<Rightarrow> string list" where
  "frame_lines f = (case f of Event n b \<Rightarrow> [''id: '' @ decimal (nat n), ''data: '' @ b, []] | Keepalive \<Rightarrow> ['': keepalive'', []])"

abbreviation one_line :: "frame \<Rightarrow> bool" where
  "one_line f \<equiv> (case f of Event n b \<Rightarrow> lf \<notin> set b | Keepalive \<Rightarrow> True)"

lemma frame_text_lines: "frame_text f = concat (map (\<lambda>l. l @ [lf]) (frame_lines f))"
  by (cases f) (simp_all add: frame_text_def frame_lines_def)

lemma lines_complete: "\<forall>l \<in> set ls. lf \<notin> set l \<Longrightarrow> complete_lines [] (concat (map (\<lambda>l. l @ [lf]) ls) @ s) = ls @ complete_lines [] s"
  by (induction ls) (simp_all add: complete_line)

lemma frame_complete: "one_line f \<Longrightarrow> complete_lines [] (frame_text f @ s) = frame_lines f @ complete_lines [] s"
  unfolding frame_text_lines by (rule lines_complete) (cases f; auto simp: frame_lines_def dec_no_lf)

lemma dispatch_lines:
  "dispatch i None (frame_lines f @ ls) = (case f of Event n b \<Rightarrow> (decimal (nat n), b) # dispatch (decimal (nat n)) None ls | Keepalive \<Rightarrow> dispatch i None ls)"
  by (cases f) (simp_all add: frame_lines_def py_startswith_def)

lemma received_frames: "list_all one_line fs \<Longrightarrow> received i (concat (map frame_text fs)) = messages fs"
proof (induction fs arbitrary: i)
  case (Cons f fs)
  then show ?case
    by (cases f) (simp_all add: received_def frame_complete dispatch_lines messages_def)
qed (simp add: received_def messages_def)

section \<open>The client has the log\<close>

abbreviation datum :: "(event_envelope \<Rightarrow> string) \<Rightarrow> (string option \<times> string option \<times> string option) \<Rightarrow> event_envelope \<Rightarrow> string" where
  "datum dumps labels e \<equiv> dumps (label_event labels e)"

text \<open>The client holds the first \<open>a\<close> events, the connection has sent those from there to \<open>b\<close>.\<close>

definition holds :: "(event_envelope \<Rightarrow> string) \<Rightarrow> (string option \<times> string option \<times> string option) \<Rightarrow> uuid \<Rightarrow> db \<Rightarrow> subscriber \<Rightarrow> nat \<Rightarrow> nat \<Rightarrow> bool" where
  "holds dumps labels cid d u a b = (let log = list_events cid 0 None d in
     a \<le> b \<and> b \<le> length log \<and> su_cursor u = int b \<and> su_got u = map (datum dumps labels) (take a log)
     \<and> su_last u = (if a = 0 then [] else decimal a)
     \<and> filter (\<lambda>f. f \<noteq> Keepalive) (su_sent u) = map (event_frame dumps labels) (drop a (take b log)))"

lemma log_seq: "log_inv d \<Longrightarrow> i < length (list_events cid 0 None d) \<Longrightarrow> ev_seq (list_events cid 0 None d ! i) = int (Suc i)"
proof -
  assume i: "log_inv d" "i < length (list_events cid 0 None d)"
  have "ev_seq (list_events cid 0 None d ! i) = map ev_seq (list_events cid 0 None d) ! i" using i(2) by simp
  also have "\<dots> = [1..int (length (list_events cid 0 None d))] ! i" by (simp only: repo_log.contiguous [OF i(1)])
  also have "\<dots> = int (Suc i)" using i(2) by (subst nth_upto) auto
  finally show ?thesis .
qed

lemma messages_events: "messages fs = messages (filter (\<lambda>f. f \<noteq> Keepalive) fs)"
  by (induction fs) (auto simp: messages_def)

lemma one_line_events: "list_all one_line (filter (\<lambda>f. f \<noteq> Keepalive) fs) \<Longrightarrow> list_all one_line fs"
  by (induction fs) (auto split: if_splits)

text \<open>What the client takes from a connection that is cut after \<open>n\<close> characters: the next events, some number of them.\<close>

lemma cut_connection:
  assumes "log_inv d" "holds dumps labels cid d u a b" "\<And>e. lf \<notin> set (dumps e)"
  shows "\<exists>m. a \<le> m \<and> m \<le> b \<and> (length (sent_text u) \<le> n \<longrightarrow> m = b)
    \<and> holds dumps labels cid d ((hang_up n u)\<lparr>su_cursor := int m\<rparr>) m m"
proof -
  let ?log = "list_events cid 0 None d" and ?new = "drop a (take b (list_events cid 0 None d))"
  from assms(2) have h: "a \<le> b" "b \<le> length ?log" "su_got u = map (datum dumps labels) (take a ?log)" "su_last u = (if a = 0 then [] else decimal a)"
      "filter (\<lambda>f. f \<noteq> Keepalive) (su_sent u) = map (event_frame dumps labels) ?new"
    by (simp_all add: holds_def Let_def)
  have "list_all one_line (su_sent u)"
    by (rule one_line_events) (simp add: h(5) list_all_iff event_frame_def assms(3))
  then have all: "received i (sent_text u) = map (\<lambda>e. (decimal (nat (ev_seq e)), datum dumps labels e)) ?new" for i
    using messages_events [of "su_sent u"] by (simp add: received_frames sent_text_def h(5)) (simp add: messages_def event_frame_def comp_def)
  obtain j0 where j0: "received (su_last u) (take n (sent_text u)) = take j0 (received (su_last u) (sent_text u))" using received_prefix by blast
  define j where "j = (if length (sent_text u) \<le> n then length ?new else min j0 (length ?new))"
  have ms: "received (su_last u) (take n (sent_text u)) = take j (map (\<lambda>e. (decimal (nat (ev_seq e)), datum dumps labels e)) ?new)"
  proof (cases "length (sent_text u) \<le> n")
    case True
    then show ?thesis by (simp add: all j_def)
  next
    case False
    then show ?thesis using j0 by (auto simp: all j_def min_def)
  qed
  have j: "j \<le> b - a" using h(1,2) by (simp add: j_def)
  have new: "take j ?new = drop a (take (a + j) ?log)" using j h(1) by (simp add: take_drop add.commute min_def)
  have got: "map (datum dumps labels) (take a ?log) @ map (datum dumps labels) (drop a (take (a + j) ?log)) = map (datum dumps labels) (take (a + j) ?log)"
    by (simp add: map_append [symmetric] take_add [symmetric] drop_take del: map_append)
  have last: "decimal (nat (ev_seq (last (drop a (take (a + j) ?log))))) = decimal (a + j)" if "j \<noteq> 0"
  proof -
    have n: "drop a (take (a + j) ?log) \<noteq> []" "length (take (a + j) ?log) = a + j" using that j h(1,2) by auto
    then have "last (drop a (take (a + j) ?log)) = ?log ! (a + j - 1)"
      using that by (simp add: last_conv_nth)
    then show ?thesis using log_seq [OF assms(1), of "a + j - 1" cid] that j h(1,2) by (simp add: nat_int_add)
  qed
  have "holds dumps labels cid d ((hang_up n u)\<lparr>su_cursor := int (a + j)\<rparr>) (a + j) (a + j)"
  proof -
    let ?ms = "take j (map (\<lambda>e. (decimal (nat (ev_seq e)), datum dumps labels e)) ?new)"
    have snd: "map snd ?ms = map (datum dumps labels) (drop a (take (a + j) ?log))"
      by (simp add: take_map comp_def new)
    have ne: "(?ms = []) = (j = 0)" using j h(1,2) by auto
    have fst: "fst (last ?ms) = decimal (a + j)" if "j \<noteq> 0"
    proof -
      have "take j ?new \<noteq> []" using that j h(1,2) by auto
      then have "fst (last ?ms) = decimal (nat (ev_seq (last (take j ?new))))" by (simp add: take_map last_map)
      then show ?thesis using last [OF that] by (simp add: new)
    qed
    have "su_got (hang_up n u) = map (datum dumps labels) (take (a + j) ?log)"
      unfolding hang_up_def Let_def ms using h(3) snd got by simp
    moreover have "su_last (hang_up n u) = (if a + j = 0 then [] else decimal (a + j))"
      unfolding hang_up_def Let_def ms using h(4) ne fst by simp
    moreover have "su_sent (hang_up n u) = []" by (simp add: hang_up_def Let_def)
    ultimately show ?thesis using h(1,2) j by (simp add: holds_def Let_def)
  qed
  then show ?thesis
    using h j by (intro exI [of _ "a + j"]) (auto simp: j_def)
qed

lemma holds_served:
  assumes "log_inv d" "holds dumps labels cid d u a b" "stream_round dumps labels cid d (su_cursor u) = (fs, c)"
  shows "holds dumps labels cid d (u\<lparr>su_sent := su_sent u @ fs, su_cursor := c\<rparr>) a (length (list_events cid 0 None d))"
proof -
  let ?log = "list_events cid 0 None d"
  from assms(2) have h: "a \<le> b" "b \<le> length ?log" "su_cursor u = int b" by (simp_all add: holds_def Let_def)
  have rest: "list_events cid (int b) None d = drop b ?log" using repo_log.events_drop [OF assms(1), of "int b" cid] by simp
  have c: "c = int (length ?log)"
  proof (cases "drop b ?log = []")
    case True
    then show ?thesis using assms(3) h(2) by (simp add: stream_round_def rest h(3))
  next
    case False
    then have "?log \<noteq> []" "last (drop b ?log) = last ?log" by auto
    then have "ev_seq (last (drop b ?log)) = int (length ?log)" using repo_log.last_seq_log [OF assms(1)] by simp
    then show ?thesis using assms(3) False by (simp add: stream_round_def rest h(3) Let_def)
  qed
  have fs: "fs = map (event_frame dumps labels) (drop b ?log)" using assms(3) by (simp add: stream_round_def rest h(3) Let_def)
  have "drop a (take b ?log) @ drop b ?log = drop a ?log"
    using h(1,2) by (metis append_take_drop_id drop_append length_take min.absorb2 diff_is_0_eq drop_0)
  then have "filter (\<lambda>f. f \<noteq> Keepalive) (su_sent u @ fs) = map (event_frame dumps labels) (drop a ?log)"
    using assms(2) by (simp add: holds_def Let_def fs filter_map comp_def event_frame_def flip: map_append)
  then show ?thesis using assms(2) h by (simp add: holds_def Let_def c)
qed

lemma holds_append:
  assumes "log_inv d" "holds dumps labels cid d u a b" "append_event oid now e0 e d = Inr d'"
  shows "holds dumps labels cid d' u a b"
proof -
  have "list_events cid 0 None d' = list_events cid 0 None d \<or> (\<exists>v. list_events cid 0 None d' = list_events cid 0 None d @ [v])"
    using repo_log.append_events [OF assms(1), of "(oid, now, e0)" e d'] repo_log.append_other [OF assms(1), of "(oid, now, e0)" e d' cid] assms(3)
    by (cases "cid = conv_id e0") auto
  then show ?thesis using assms(2) by (auto simp: holds_def Let_def)
qed

lemma stream_follows:
  assumes "follows_stream dumps labels cid (d, u)" "\<And>e. lf \<notin> set (dumps e)"
  shows "log_inv d \<and> (\<exists>a b. holds dumps labels cid d u a b)"
  using assms(1)
proof (induction "(d, u)" arbitrary: d u rule: follows_stream.induct)
  case (connected d)
  then show ?case by (auto simp: holds_def Let_def intro!: exI [of _ 0])
next
  case (appended d u oid now c e d')
  then show ?case using repo_log.append_invar [of d "(oid, now, c)" e d'] holds_append by fastforce
next
  case (served d u fs n)
  then show ?case using holds_served by blast
next
  case (kept_alive d u)
  then obtain a b where "log_inv d" "holds dumps labels cid d u a b" by blast
  then have "log_inv d \<and> holds dumps labels cid d (u\<lparr>su_sent := su_sent u @ [Keepalive]\<rparr>) a b" by (simp add: holds_def Let_def)
  then show ?case by blast
next
  case (came_back d u n v a)
  then obtain a0 b where h: "log_inv d" "holds dumps labels cid d u a0 b" by blast
  from cut_connection [OF this assms(2)] obtain m where m: "holds dumps labels cid d ((hang_up n u)\<lparr>su_cursor := int m\<rparr>) m m" by blast
  then have "su_last v = (if m = 0 then [] else decimal m)" using came_back by (simp add: holds_def Let_def)
  then have "a = int m" using came_back dec_digits [of m] resume_dec [of m] by (auto simp: resume_seq_def split: if_splits)
  then show ?case using m h(1) came_back by auto
qed


text \<open>One event; the connection breaks within its frame, the client comes back and the event is sent again.\<close>

definition ex_dumps :: "event_envelope \<Rightarrow> string" where
  "ex_dumps e = ''{'' @ decimal (nat (ev_seq e)) @ ''}''"


section \<open>The stream of a session\<close>

text \<open>One round over the conversations of a session: a conversation that has no cursor yet starts at the one of the request.\<close>

fun session_round :: "(event_envelope \<Rightarrow> string) \<Rightarrow> (string option \<times> string option \<times> string option) \<Rightarrow> int \<Rightarrow> db \<Rightarrow> conversation list \<Rightarrow> (uuid \<times> int) list
    \<Rightarrow> frame list \<times> (uuid \<times> int) list" where
  "session_round dumps labels after d [] cur = ([], cur)"
| "session_round dumps labels after d (c # cs) cur =
     (let es = list_events (conv_id c) (or_else (map_of cur (conv_id c)) after) None d;
          cur1 = (if es = [] then cur else AList.update (conv_id c) (ev_seq (last es)) cur) in
      case session_round dumps labels after d cs cur1 of (fs, cur2) \<Rightarrow> (map (event_frame dumps labels) es @ fs, cur2))"

definition session_stream_round :: "(event_envelope \<Rightarrow> string) \<Rightarrow> session \<Rightarrow> int \<Rightarrow> db \<Rightarrow> (uuid \<times> int) list \<Rightarrow> frame list \<times> (uuid \<times> int) list" where
  "session_stream_round dumps x after d cur = session_round dumps (sess_tenant x, sess_user x, sess_project x) after d
     (repo_list_conversations (Some (sess_id x)) None 0 d) cur"

text \<open>
  The identifier of a frame is the number of the event in its own conversation, and the header moves the cursor of every conversation: a
  client that comes back as the standard has it gets events again, or never gets them.
\<close>

definition ex_two :: "nat \<Rightarrow> nat \<Rightarrow> db" where
  "ex_two m n = empty_db\<lparr>
     t_conversations := map (\<lambda>(i, at). conversation_to_row (demo_conv\<lparr>conv_id := i, conv_created_at := at\<rparr>)) [(''a'', 1), (''b'', 2)],
     t_events := map (\<lambda>k. event_to_row ''a'' (mk_event (''a'' @ decimal k) 0 ''r1'' (int k) ''message'' [] ''runner'')) [1..<Suc m]
       @ map (\<lambda>k. event_to_row ''b'' (mk_event (''b'' @ decimal k) 0 ''r2'' (int k) ''message'' [] ''runner'')) [1..<Suc n]\<rparr>"

definition ex_client_session :: session where
  "ex_client_session = \<lparr>sess_id = ''s1'', sess_workspace = ''w1'', sess_tenant = None, sess_user = None, sess_project = None, sess_metadata = [],
     sess_config = None, sess_lease_epoch = 0, sess_active_run = None, sess_created_at = 0\<rparr>"

lemma session_client_misses:
  "fst (session_stream_round ev_id ex_client_session 0 (ex_two 1 3) []) = [Event 1 ''a1'', Event 1 ''b1'', Event 2 ''b2'', Event 3 ''b3'']"
  "resume_seq None (Some ''3'') = Inr 3"
  "fst (session_stream_round ev_id ex_client_session 3 (ex_two 3 3) []) = []"
  by code_simp+

lemma session_client_repeats:
  "fst (session_stream_round ev_id ex_client_session 0 (ex_two 3 1) []) = [Event 1 ''a1'', Event 2 ''a2'', Event 3 ''a3'', Event 1 ''b1'']"
  "fst (session_stream_round ev_id ex_client_session 1 (ex_two 3 1) []) = [Event 2 ''a2'', Event 3 ''a3'']"
  by code_simp+

text \<open>A superscript in the header is a digit to \<open>isdigit\<close> and no number to \<open>int\<close>.\<close>

lemma superscript_raises: "resume_seq None (Some [CHR 0xB2]) = Inl ''ValueError''"
  by code_simp

section \<open>The lines of a runner's stream\<close>

text \<open>
  The runner dumps an event without escaping what is not ASCII, and the platform's client reads lines as \<open>str.splitlines\<close> does: a next-line
  character in a text cuts its data line. The rest is no JSON, so the connection counts as broken at the same event each time.
\<close>

lemma splitlines_at: "list_all (\<lambda>x. \<not> line_end x) l \<Longrightarrow> line_end c \<Longrightarrow> c \<noteq> Skill_Store.cr \<Longrightarrow> splitlines acc (l @ c # s) = (rev acc @ l) # splitlines [] s"
  by (induction l arbitrary: acc) (auto simp: line_end_def)

lemma next_line_stalls:
  assumes "list_all (\<lambda>x. \<not> line_end x) body" "loads body = None"
  shows "consume (parse_line loads validate) snk (splitlines [] (''data: '' @ body @ CHR 0x85 # rest)) p s = (False, p, s)"
proof -
  have "line_end (CHR 0x85)" "CHR 0x85 \<noteq> Skill_Store.cr" "list_all (\<lambda>x. \<not> line_end x) ''data: ''" by code_simp+
  then have "splitlines [] ((''data: '' @ body) @ CHR 0x85 # rest) = (''data: '' @ body) # splitlines [] rest"
    using splitlines_at [of "''data: '' @ body" "CHR 0x85" "[]" rest] assms(1) by simp
  then show ?thesis using assms(2) by (simp add: py_startswith_def parse_line_def)
qed

end
