(* ===== verification/Spec2Isabelle.thy ===== *)
theory Spec2Isabelle
  imports Repo_Retention Repo_Outbox Runner_Registry Trae_Bridge Repo_Admin Workflow Control_Plane
    Presets Workspace_Store Skill_Store Sessions Skill_Generation Eval_Store Runner_Client Runner_Manager Skill_Materialize Runner_Registration Trae_Adapter Trae_App Trae_Resume Document_Tools Run_Request Event_Stream
begin

text \<open>
  A verification development for AgentSupport, a platform that runs coding agents for many tenants.

  \<^bold>\<open>The program.\<close> A control plane (\<open>src/src/agentsupport\<close>) owns workspaces, sessions, conversations and runs in a relational
  database. A run is driven by a Temporal workflow whose activities talk to a runner process (\<open>src/src/session_runner\<close>), which
  executes an agent and its tools. Runners register with the control plane and report events; every event is appended to the
  log of its conversation together with an outbox row, which a publisher announces. Tenants bring presets (command line
  applications built into images), skills (directories of instructions) and MCP servers. An evaluation service runs datasets of
  conversations and judges them.

  \<^bold>\<open>Theories and sources.\<close> Paths are below \<open>src/src/agentsupport\<close> unless they start with \<open>session_runner\<close> or
  \<open>agent_runner_contracts\<close>.

  \<^item> \<open>Prelude\<close>: JSON, the string, list and dictionary operations of Python the sources use, relational tables as lists of rows with
    the statements issued on them, and the lemmas about these; the collections \<open>table_simps\<close>, \<open>table_intros\<close>, \<open>inv_intros\<close>.
  \<^item> \<open>Domain\<close>: the records and enumerations of \<open>domain/\<close> and the wire models of \<open>agent_runner_contracts\<close>.
  \<^item> \<open>Schema\<close>: one record per row class of \<open>adapters/persistence/sqlalchemy/models.py\<close>; the record \<open>db\<close> has one field per table.
  \<^item> \<open>Event_Log\<close>: the interface of an event store as the locale \<open>event_log\<close>, and the in-memory store
    \<open>adapters/notification/event_store.py\<close> as an instance.
  \<^item> \<open>Repo_Core\<close>, \<open>Repo_Log\<close>, \<open>Repo_Outbox\<close>, \<open>Repo_Retention\<close>, \<open>Repo_Admin\<close>: \<open>adapters/persistence/sqlalchemy/repository.py\<close>, one
    definition per method, a transaction being a function \<open>db \<Rightarrow> db_error + db\<close>; with \<open>processes/outbox_publisher.py\<close> and
    \<open>processes/retention.py\<close>. The relational event log is the second instance of \<open>event_log\<close>; the administration tables are
    instances of \<open>keyed_store\<close>.
  \<^item> \<open>Runner_Registry\<close>: \<open>application/runner_registry.py\<close>, \<open>adapters/registry.py\<close>, \<open>application/runner_ops.py\<close>,
    \<open>processes/reconciler.py\<close>; locale \<open>runner_registry\<close> with both registries as instances.
  \<^item> \<open>Activities\<close>, \<open>Workflow\<close>: \<open>execution/temporal/activities.py\<close> and \<open>workflows.py\<close>. The coroutine of the workflow is a state machine,
    Temporal's scheduling the step relation \<open>wf_step\<close>.
    \<open>Run_Request\<close>: the request of a run that they build, followed to what the agent is told and given (\<open>Trae_Adapter\<close>) and to the container
    it runs in (\<open>Runner_Manager\<close>).
  \<^item> \<open>Control_Plane\<close>, \<open>Sessions\<close>: the application service (\<open>application/service.py\<close>, \<open>interaction_ops.py\<close>, \<open>skill_mcp_ops.py\<close>,
    \<open>workspace_ops.py\<close>, \<open>session_ops.py\<close>, \<open>conversation_ops.py\<close>, \<open>event_ops.py\<close>) in Temporal mode; locale \<open>idempotency_store\<close>.
  \<^item> \<open>Event_Stream\<close>: the event routes \<open>serving/http/routes/events.py\<close> with the generators of \<open>event_ops.py\<close>, as text, and a client that
    loses its connections.
  \<^item> \<open>Presets\<close>: \<open>domain/tenant_preset.py\<close> and \<open>application/preset_ops.py\<close>. \<open>Workspace_Store\<close>: \<open>adapters/workspace/providers.py\<close>.
    \<open>Skill_Store\<close>: \<open>adapters/skills/local.py\<close>. \<open>Skill_Generation\<close>: \<open>application/skill_generation_ops.py\<close>.
  \<^item> \<open>Eval_Verdict\<close>, \<open>Eval_Store\<close>: \<open>evaluation/\<close> and \<open>adapters/persistence/sqlalchemy/eval_store.py\<close>; locale \<open>eval_store\<close> with the
    in-memory and the relational store as instances.
  \<^item> \<open>Command_Gate\<close>: \<open>session_runner/security\<close>; locale \<open>command_approver\<close>. \<open>Tool_Gateway\<close>: \<open>agent_runner_contracts/tools.py\<close> and
    \<open>session_runner/tools/gateway.py\<close>. \<open>Run_Registry\<close>, \<open>Runner_App\<close>: \<open>session_runner/domain/run.py\<close>,
    \<open>application/run_registry.py\<close>, \<open>serving/http/app.py\<close> outside \<open>trae\<close> mode, with the MCP configurations of \<open>session_runner/mcp_runtime.py\<close>.
  \<^item> \<open>Trae_Bridge\<close>: the tool bridge of \<open>session_runner/adapters/trae.py\<close>. \<open>Trae_Adapter\<close>: the settings and the execution adapter of the
    same file, and the step loop of the vendored agent that the adapter drives. A coroutine that
    waits for a human is an \<open>execution\<close> with the state of its agent; approving, answering and resuming continue it. \<open>Trae_App\<close>: the handlers
    of \<open>app.py\<close> in \<open>trae\<close> mode and the step relation \<open>trae_step\<close> of a runner. \<open>Trae_Resume\<close>: what a checkpoint of a suspended run
    carries to another runner. \<open>Document_Tools\<close>: \<open>session_runner/tools/document_tools.py\<close> over a file system, behind the sandbox of the
    bridge. \<open>Skill_Materialize\<close>: \<open>session_runner/skills_materialize.py\<close>.
  \<^item> \<open>Runner_Client\<close>: the client of the control plane, \<open>adapters/runner/http.py\<close>, against the handlers of the runner, with the event stream
    as it may break off. \<open>Runner_Registration\<close>: \<open>session_runner/registration.py\<close> against \<open>Runner_Registry\<close>, over a link that loses messages.
  \<^item> \<open>Runner_Manager\<close>: \<open>src/runner_manager\<close>, which builds the images of presets and keeps one container per tenant.

  \<^bold>\<open>Conventions.\<close> Identifiers and times that the code draws are arguments. Code outside the repository is a parameter: digests,
  \<open>json.loads\<close>, \<open>str()\<close> of a value that is not a string, \<open>Path.resolve\<close>, the judge model, the vendored agent, Docker and HTTP
  peers. What a theorem needs of such a parameter is a named hypothesis, with a witness that instantiates it. An operation that can
  fail after it changed something returns the error together with the new state. Strings are lists of 8-bit characters; texts the
  source writes in Chinese stand in English.

  \<^bold>\<open>What is shown.\<close> The event log: an append changes exactly one log and one outbox row, is accepted exactly when it carries the next
  number, readers get every event once and in order, also over broken connections, every event is announced, a claim is exclusive while its
  lease runs and its holder has not finished the row. Leases of workspaces exclude each other, and retention deletes transient rows only.
  Registration tokens authenticate the runner they were issued to. The command gate never lets a denied executable through and fails closed;
  the gateway and the bridge execute authorized calls only; in silent mode a document tool that writes to its checked path, or to a csv file
  beside it that is no link, stays in the workspace; a checkpoint carries a suspended run to another runner. Outside \<open>trae\<close> mode the runner
  keeps its registry invariant under every handler; an eviction bounds the runs that were marked as finished and removes no other. A run that
  waits in \<open>trae\<close> mode is suspended at the gate it shows, and an answer takes it to a further gate or to its end. An activity stores exactly
  the events the runner delivered; a run is routed to a runner of its own tenant where there is one, and where it goes otherwise is stated for
  every case; a workflow ends with the result it reports stored, save where it fails after the end was stored, and always can go on. The agent
  is told exactly the audible history of its session, and the MCP configuration has exactly the servers the conversation refers to. Submitted
  answers are signalled once, conversations started once. An accepted preset is well-formed, its build gets what was uploaded unless the
  tenant uploads again first, and its declared prefixes reach the gate. Versions restore workspaces and clones, symbolic links included, while
  no link has one of the two names the store writes; skills are served as installed, the checks on names keep tenants apart, and on a runner
  skills stay below their root and are read-only. A runner stays registered while its heartbeats arrive; a build is always reported; events
  reach the control plane once whether they were streamed or replied. The verdict of an evaluation case follows the ranking in the code, and
  recovery fails the stale runs among the oldest ten thousand. Where the code does otherwise than it says or means to, a lemma shows it on a
  concrete input: \<open>gate_lets_through\<close>, \<open>manifest_through_link\<close>, \<open>image_without_runner_goes_static\<close>, \<open>csv_link_escapes\<close> and others.

  \<^bold>\<open>Bounds and fuel.\<close> \<open>extract_skill_content\<close> has fuel; \<open>2 n + 1\<close> is enough for a text of \<open>n\<close> characters (\<open>extraction_terminates\<close>).
  \<open>auto_wait\<close> has one unit per turn; \<open>auto_wait_terminates\<close> gives a number that is enough for every schedule of the conversation.
  A workflow segment has at most three attempts, as in the source. All other loops are structural or come with a termination proof.

  \<^bold>\<open>Not modelled.\<close> The other HTTP routes of the control plane, which parse, call one operation and render its result; start-up and settings;
  metrics, tracing, logging and diagnostics; the Redis notifier, which only wakes readers that poll; the start-up of the Temporal worker; the MCP
  connections, which wrap a third-party library; database migrations; the in-process execution path that settings
  refuse, with its checkpoints; the demo, the developer console and the vendored agent.
\<close>

end
